(* ===== verification/FF_Prelude.thy ===== *)
theory FF_Prelude
  imports Complex_Main "HOL-Library.Multiset" "HOL-Library.AList"
begin

text \<open>
  The vocabulary shared by the components of the FF Factory development.

  \<^item> JavaScript numbers: counts and percentages are rational numbers (\<open>num\<close>, the finite
    numbers; \<open>NaN\<close> is modelled where the source tests for it), times are whole
    milliseconds (\<open>int\<close>). \<open>xnum\<close> adds \<open>Infinity\<close> and is a linear order.
  \<^item> JavaScript comparators and \<open>Array.prototype.sort\<close>: \<open>js_sort\<close> is the stable sort by
    a three-way comparator; the locale \<open>comparator\<close> is the contract a comparator has to
    meet, with what a sort by it then guarantees.
  \<^item> Strings are lists of 8-bit characters (the code's texts are ASCII where a rule reads
    them): case folding, white space, prefixes, substrings, \<open>localeCompare\<close>.
  \<^item> JavaScript \<open>Map\<close>s whose order matters are association lists in insertion order.
\<close>

named_theorems ff_defs \<open>definitions that unfold in component proofs\<close>

section \<open>Numbers\<close>

type_synonym num' = rat

datatype xnum = Fin rat | Infinity

instantiation xnum :: linorder
begin

fun less_eq_xnum :: "xnum \<Rightarrow> xnum \<Rightarrow> bool" where
  "less_eq_xnum _ Infinity = True"
| "less_eq_xnum Infinity (Fin _) = False"
| "less_eq_xnum (Fin x) (Fin y) = (x \<le> y)"

definition less_xnum :: "xnum \<Rightarrow> xnum \<Rightarrow> bool" where
  "less_xnum x y = (\<not> y \<le> x)"

instance
proof
  fix x y z :: xnum
  show "(x < y) = (x \<le> y \<and> \<not> y \<le> x)"
    by (cases x; cases y) (auto simp: less_xnum_def)
  show "x \<le> x"
    by (cases x) auto
  show "x \<le> y \<Longrightarrow> y \<le> z \<Longrightarrow> x \<le> z"
    by (cases x; cases y; cases z) auto
  show "x \<le> y \<Longrightarrow> y \<le> x \<Longrightarrow> x = y"
    by (cases x; cases y) auto
  show "x \<le> y \<or> y \<le> x"
    by (cases x; cases y) auto
qed

end

lemma xnum_less_simps [simp]:
  "Fin x < Fin y \<longleftrightarrow> x < y" "Fin x < Infinity" "\<not> Infinity < y'"
  by (auto simp: less_xnum_def)

text \<open>\<open>Number.isInteger\<close> on a finite number.\<close>

definition is_integer :: "rat \<Rightarrow> bool" where
  "is_integer x = (of_int (floor x) = x)"

lemma is_integer_of_int [simp]: "is_integer (of_int n)"
  by (simp add: is_integer_def)

lemma is_integer_numeral [simp]: "is_integer (numeral n)" "is_integer 0" "is_integer 1"
  by (simp_all add: is_integer_def)

text \<open>\<open>Math.round\<close>: halves round up.\<close>

definition js_round :: "rat \<Rightarrow> int" where
  "js_round x = floor (x + 1 / 2)"

section \<open>Timestamps\<close>

text \<open>
  An ISO time as the code stores it: a text that \<open>Date.parse\<close> reads (\<open>At\<close>, its milliseconds
  since the epoch) or one it does not read (\<open>Garbled\<close>, \<open>Date.parse\<close> is \<open>NaN\<close>).
\<close>

datatype stamp = At int | Garbled string

fun stamp_ms :: "stamp \<Rightarrow> int option" where
  "stamp_ms (At t) = Some t"
| "stamp_ms (Garbled _) = None"

text \<open>The truth value of an optional text: \<open>undefined\<close> and the empty text are false.\<close>

fun stamp_given :: "stamp option \<Rightarrow> bool" where
  "stamp_given None = False"
| "stamp_given (Some (At _)) = True"
| "stamp_given (Some (Garbled s)) = (s \<noteq> [])"

section \<open>Lists\<close>

lemma find_key: "distinct (map f xs) \<Longrightarrow> x \<in> set xs \<Longrightarrow> find (\<lambda>y. f y = f x) xs = Some x"
  by (induction xs) auto

lemma find_in: "find P xs = Some x \<Longrightarrow> x \<in> set xs \<and> P x"
  by (induction xs) (auto split: if_splits)

text \<open>\<open>[...new Set(xs)]\<close>: each value once, where it first stands.\<close>

definition js_unique :: "'a list \<Rightarrow> 'a list" where
  "js_unique xs = rev (remdups (rev xs))"

lemma js_unique_simps [simp]: "set (js_unique xs) = set xs" "distinct (js_unique xs)"
  by (simp_all add: js_unique_def)

lemma mset_take_drop: "mset (take n xs) + mset (drop n xs) = mset xs"
  by (metis append_take_drop_id mset_append)

lemma sum_list_pos:
  fixes xs :: "'a::ordered_comm_monoid_add list"
  shows "xs \<noteq> [] \<Longrightarrow> \<forall>x \<in> set xs. 0 < x \<Longrightarrow> 0 < sum_list xs"
  by (induction xs rule: list_nonempty_induct) (auto intro: add_pos_pos)

lemma fold_shrinks:
  assumes "\<And>x s. g (step x s) \<in> {None, g s}"
  shows "g (fold step xs s) \<in> {None, g s}"
proof (induction xs arbitrary: s)
  case (Cons x xs)
  show ?case using Cons [of "step x s"] assms [of x s] by auto
qed simp

section \<open>Comparators and sorting\<close>

definition cmp_num :: "'a::linorder \<Rightarrow> 'a \<Rightarrow> int" where
  "cmp_num x y = (if x < y then -1 else if y < x then 1 else 0)"

text \<open>\<open>c1 || c2\<close> on comparison results.\<close>

definition cmp_or :: "int \<Rightarrow> int \<Rightarrow> int" where
  "cmp_or c1 c2 = (if c1 \<noteq> 0 then c1 else c2)"

fun cmp_list :: "('a::linorder) list \<Rightarrow> 'a list \<Rightarrow> int" where
  "cmp_list [] [] = 0"
| "cmp_list [] (_ # _) = -1"
| "cmp_list (_ # _) [] = 1"
| "cmp_list (x # xs) (y # ys) = cmp_or (cmp_num x y) (cmp_list xs ys)"

fun js_insert :: "('a \<Rightarrow> 'a \<Rightarrow> int) \<Rightarrow> 'a \<Rightarrow> 'a list \<Rightarrow> 'a list" where
  "js_insert c x [] = [x]"
| "js_insert c x (y # ys) = (if c x y \<le> 0 then x # y # ys else y # js_insert c x ys)"

definition js_sort :: "('a \<Rightarrow> 'a \<Rightarrow> int) \<Rightarrow> 'a list \<Rightarrow> 'a list" where
  "js_sort c xs = foldr (js_insert c) xs []"

lemma js_sort_simps [simp]:
  "js_sort c [] = []" "js_sort c (x # xs) = js_insert c x (js_sort c xs)"
  by (simp_all add: js_sort_def)

lemma mset_js_insert [simp]: "mset (js_insert c x xs) = {#x#} + mset xs"
  by (induction xs) auto

lemma mset_js_sort [simp]: "mset (js_sort c xs) = mset xs"
  by (induction xs) auto

lemma set_js_sort [simp]: "set (js_sort c xs) = set xs"
  by (metis mset_js_sort set_mset_mset)

lemma length_js_sort [simp]: "length (js_sort c xs) = length xs"
  by (metis mset_js_sort size_mset)

lemma distinct_js_sort [simp]: "distinct (js_sort c xs) = distinct xs"
  by (metis mset_js_sort mset_eq_imp_distinct_iff)

lemma js_sort_Nil_iff [simp]: "js_sort c xs = [] \<longleftrightarrow> xs = []"
  by (metis length_0_conv length_js_sort)

lemma js_sort_hd_in: "js_sort c xs = y # ys \<Longrightarrow> y \<in> set xs"
  by (metis list.set_intros(1) set_js_sort)

locale comparator =
  fixes cmp :: "'a \<Rightarrow> 'a \<Rightarrow> int"
  assumes cmp_flip: "cmp a b < 0 \<longleftrightarrow> 0 < cmp b a"
    and cmp_trans: "cmp a b \<le> 0 \<Longrightarrow> cmp b c \<le> 0 \<Longrightarrow> cmp a c \<le> 0"
begin

lemma cmp_total: "cmp a b \<le> 0 \<or> cmp b a \<le> 0"
  using cmp_flip [of b a] by linarith

lemma cmp_refl: "cmp a a \<le> 0"
  using cmp_total [of a a] by simp

lemma sorted_insert:
  "sorted_wrt (\<lambda>a b. cmp a b \<le> 0) xs \<Longrightarrow> sorted_wrt (\<lambda>a b. cmp a b \<le> 0) (js_insert cmp x xs)"
proof (induction xs)
  case Nil
  then show ?case by simp
next
  case (Cons y ys)
  have s: "set (js_insert cmp x ys) = insert x (set ys)"
    by (metis mset_js_insert set_mset_add_mset_insert set_mset_mset add_mset_add_single union_commute)
  show ?case
    using Cons cmp_total [of x y] by (auto simp: s intro: cmp_trans)
qed

text \<open>The result of a sort is in order, and its first element precedes or ties with all.\<close>

lemma sorted_js_sort: "sorted_wrt (\<lambda>a b. cmp a b \<le> 0) (js_sort cmp xs)"
  by (induction xs) (auto intro: sorted_insert)

lemma js_sort_head:
  assumes "js_sort cmp xs = y # ys" and "x \<in> set xs"
  shows "cmp y x \<le> 0"
proof -
  have "x \<in> set (y # ys)"
    using assms by (metis set_js_sort)
  moreover have "sorted_wrt (\<lambda>a b. cmp a b \<le> 0) (y # ys)"
    using sorted_js_sort [of xs] assms(1) by simp
  ultimately show ?thesis
    by (auto intro: cmp_refl)
qed

lemma js_sort_before:
  "js_sort cmp xs = us @ a # vs \<Longrightarrow> b \<in> set vs \<Longrightarrow> cmp a b \<le> 0"
  using sorted_js_sort [of xs] by (simp add: sorted_wrt_append)

end

lemma comparator_num: "comparator (\<lambda>a b. cmp_num (f a) (f b))"
  by unfold_locales (auto simp: cmp_num_def split: if_splits)

lemma comparator_num_desc: "comparator (\<lambda>a b. cmp_num (f b) (f a))"
  by unfold_locales (auto simp: cmp_num_def split: if_splits)

lemma comparator_or:
  assumes "comparator c1" and "comparator c2"
  shows "comparator (\<lambda>a b. cmp_or (c1 a b) (c2 a b))"
proof
  fix a b
  show "(cmp_or (c1 a b) (c2 a b) < 0) = (0 < cmp_or (c1 b a) (c2 b a))"
    using comparator.cmp_flip [OF assms(1), of a b] comparator.cmp_flip [OF assms(1), of b a]
      comparator.cmp_flip [OF assms(2), of a b]
    by (auto simp: cmp_or_def)
next
  fix a b c
  assume ab: "cmp_or (c1 a b) (c2 a b) \<le> 0" and bc: "cmp_or (c1 b c) (c2 b c) \<le> 0"
  have ab1: "c1 a b \<le> 0" and bc1: "c1 b c \<le> 0"
    using ab bc by (auto simp: cmp_or_def split: if_splits)
  then have ac1: "c1 a c \<le> 0"
    by (rule comparator.cmp_trans [OF assms(1)])
  show "cmp_or (c1 a c) (c2 a c) \<le> 0"
  proof (cases "c1 a c = 0")
    case False
    with ac1 show ?thesis by (simp add: cmp_or_def)
  next
    case True
    then have "c1 c a \<le> 0"
      using comparator.cmp_flip [OF assms(1), of a c] comparator.cmp_flip [OF assms(1), of c a] by linarith
    then have "c1 c b \<le> 0" "c1 b a \<le> 0"
      using ab1 bc1 comparator.cmp_trans [OF assms(1)] by blast+
    then have "c1 a b = 0" "c1 b c = 0"
      using ab1 bc1 comparator.cmp_flip [OF assms(1), of a b] comparator.cmp_flip [OF assms(1), of b c]
      by linarith+
    then have "c2 a b \<le> 0" "c2 b c \<le> 0"
      using ab bc by (auto simp: cmp_or_def)
    then have "c2 a c \<le> 0"
      by (rule comparator.cmp_trans [OF assms(2)])
    with True show ?thesis by (simp add: cmp_or_def)
  qed
qed

lemma comparator_vimage: "comparator c \<Longrightarrow> comparator (\<lambda>a b. c (f a) (f b))"
  by unfold_locales (auto dest: comparator.cmp_flip [of c] intro: comparator.cmp_trans [of c])

lemma cmp_list_flip: "cmp_list xs ys < 0 \<longleftrightarrow> 0 < cmp_list ys xs"
  by (induction xs ys rule: cmp_list.induct) (auto simp: cmp_or_def cmp_num_def)

lemma cmp_list_trans: "cmp_list xs ys \<le> 0 \<Longrightarrow> cmp_list ys zs \<le> 0 \<Longrightarrow> cmp_list xs zs \<le> 0"
proof (induction xs ys arbitrary: zs rule: cmp_list.induct)
  case (4 x xs y ys)
  then show ?case
    by (cases zs) (auto simp: cmp_or_def cmp_num_def split: if_splits)
qed (case_tac zs; simp)+

interpretation cmp_list: comparator cmp_list
  by unfold_locales (auto simp: cmp_list_flip intro: cmp_list_trans)

section \<open>Keyed stores\<close>

text \<open>
  The contract of a keyed store as the code uses one, a JavaScript \<open>Map\<close> or a folder of files
  named by id: what a read returns after a write and after a removal, and in which order the
  keys come back (a new key last, a known one in its place).
\<close>

locale keyed_store =
  fixes get :: "'m \<Rightarrow> 'k \<Rightarrow> 'v option"
    and put :: "'k \<Rightarrow> 'v \<Rightarrow> 'm \<Rightarrow> 'm"
    and del :: "'k \<Rightarrow> 'm \<Rightarrow> 'm"
    and keys :: "'m \<Rightarrow> 'k list"
  assumes get_put: "get (put k v m) k' = (if k' = k then Some v else get m k')"
    and get_del: "get (del k m) k' = (if k' = k then None else get m k')"
    and keys_get: "k \<in> set (keys m) \<longleftrightarrow> get m k \<noteq> None"
    and keys_put: "keys (put k v m) = (if get m k = None then keys m @ [k] else keys m)"
    and keys_del: "keys (del k m) = removeAll k (keys m)"
begin

lemma get_put_all: "get (fold (\<lambda>(k, v). put k v) kvs m) k = (case map_of (rev kvs) k of Some v \<Rightarrow> Some v | None \<Rightarrow> get m k)"
  by (induction kvs arbitrary: m) (auto simp: get_put map_add_def split: option.splits)

lemma get_del_all: "get (fold del ks m) k = (if k \<in> set ks then None else get m k)"
  by (induction ks arbitrary: m) (auto simp: get_del)

lemma keys_put_new: "get m k = None \<Longrightarrow> set (keys (put k v m)) = insert k (set (keys m))"
  by (simp add: keys_put)

lemma keys_distinct_put: "distinct (keys m) \<Longrightarrow> distinct (keys (put k v m))"
  using keys_get [of k m] by (simp add: keys_put)

lemma keys_distinct_del: "distinct (keys m) \<Longrightarrow> distinct (keys (del k m))"
  by (simp add: keys_del distinct_removeAll)

text \<open>Keeping only some keys: remove every other.\<close>

lemma get_del_others:
  "get (fold del (filter (\<lambda>k. \<not> P k) (keys m)) m) k = (if P k then get m k else None)"
  using keys_get [of k m] by (auto simp: get_del_all)

end

interpretation al: keyed_store map_of AList.update AList.delete "map fst"
proof
  fix k k' :: 'a and v :: 'b and m :: "('a \<times> 'b) list"
  show "map_of (AList.update k v m) k' = (if k' = k then Some v else map_of m k')"
    by (simp add: update_conv')
  show "map_of (AList.delete k m) k' = (if k' = k then None else map_of m k')"
    by (simp add: delete_conv')
  show "(k \<in> set (map fst m)) = (map_of m k \<noteq> None)"
    by (metis map_of_eq_None_iff set_map)
  show "map fst (AList.update k v m) = (if map_of m k = None then map fst m @ [k] else map fst m)"
    by (simp add: update_keys map_of_eq_None_iff)
  show "map fst (AList.delete k m) = removeAll k (map fst m)"
    by (simp add: delete_keys)
qed

end
