(* ===== verification/FF_Strings.thy ===== *)
theory FF_Strings
  imports FF_Prelude
begin

text \<open>
  The JavaScript string operations the components use, over lists of 8-bit characters:
  the white space of a regular expression, \<open>toLowerCase\<close> (ASCII letters), \<open>startsWith\<close>,
  \<open>endsWith\<close>, \<open>includes\<close>, \<open>indexOf\<close>, \<open>trim\<close>, splitting on white space, \<open>join\<close>, \<open>slice(0, n)\<close>
  and \<open>localeCompare\<close>.
\<close>

section \<open>Characters\<close>

definition code :: "char \<Rightarrow> nat" where
  "code c = of_char c"

definition is_ws :: "char \<Rightarrow> bool" where
  "is_ws c = (code c = 32 \<or> 9 \<le> code c \<and> code c \<le> 13 \<or> code c = 160)"

definition is_digit :: "char \<Rightarrow> bool" where
  "is_digit c = (48 \<le> code c \<and> code c \<le> 57)"

definition is_lower :: "char \<Rightarrow> bool" where
  "is_lower c = (97 \<le> code c \<and> code c \<le> 122)"

definition is_upper :: "char \<Rightarrow> bool" where
  "is_upper c = (65 \<le> code c \<and> code c \<le> 90)"

text \<open>\<open>\w\<close>\<close>

definition word_char :: "char \<Rightarrow> bool" where
  "word_char c = (is_lower c \<or> is_upper c \<or> is_digit c \<or> c = CHR ''_'')"

definition lower_char :: "char \<Rightarrow> char" where
  "lower_char c = (if is_upper c then char_of (code c + 32) else c)"

abbreviation lower :: "string \<Rightarrow> string" where
  "lower s \<equiv> map lower_char s"

lemma code_inject [simp]: "code c = code d \<longleftrightarrow> c = d"
  by (simp add: code_def)

lemma code_char_of [simp]: "n < 256 \<Longrightarrow> code (char_of n) = n"
  by (simp add: code_def)

lemma lower_char_idem [simp]: "lower_char (lower_char c) = lower_char c"
proof (cases "is_upper c")
  case True
  then have "code (char_of (code c + 32)) = code c + 32"
    by (intro code_char_of) (simp add: is_upper_def)
  with True show ?thesis
    by (simp add: lower_char_def is_upper_def)
qed (simp add: lower_char_def)

lemma lower_lower [simp]: "lower (lower s) = lower s"
  by simp

section \<open>Substrings\<close>

fun has_prefix :: "string \<Rightarrow> string \<Rightarrow> bool" where
  "has_prefix [] _ = True"
| "has_prefix (_ # _) [] = False"
| "has_prefix (p # ps) (c # cs) = (p = c \<and> has_prefix ps cs)"

lemma has_prefix_iff: "has_prefix p s \<longleftrightarrow> (\<exists>t. s = p @ t)"
  by (induction p s rule: has_prefix.induct) auto

definition has_suffix :: "string \<Rightarrow> string \<Rightarrow> bool" where
  "has_suffix p s = has_prefix (rev p) (rev s)"

fun index_of :: "string \<Rightarrow> string \<Rightarrow> nat option" where
  "index_of p [] = (if p = [] then Some 0 else None)"
| "index_of p (c # cs) =
     (if has_prefix p (c # cs) then Some 0 else map_option Suc (index_of p cs))"

definition includes_str :: "string \<Rightarrow> string \<Rightarrow> bool" where
  "includes_str s p = (index_of p s \<noteq> None)"

lemma has_prefix_take: "has_prefix p s \<Longrightarrow> length p \<le> length s \<and> take (length p) s = p"
  by (auto simp: has_prefix_iff)

lemma index_of_Some: "index_of p s = Some i \<Longrightarrow> i + length p \<le> length s \<and> take (length p) (drop i s) = p"
  by (induction p s arbitrary: i rule: index_of.induct)
    (auto dest: has_prefix_take split: if_splits)

fun drop_ws :: "string \<Rightarrow> string" where
  "drop_ws [] = []"
| "drop_ws (c # cs) = (if is_ws c then drop_ws cs else c # cs)"

definition trim :: "string \<Rightarrow> string" where
  "trim s = rev (drop_ws (rev (drop_ws s)))"

text \<open>The words of a text between white space: trimmed, split, empty ones dropped.\<close>

fun words_go :: "string \<Rightarrow> string \<Rightarrow> string list" where
  "words_go cur [] = (if cur = [] then [] else [cur])"
| "words_go cur (c # cs) =
     (if is_ws c then (if cur = [] then words_go [] cs else cur # words_go [] cs)
      else words_go (cur @ [c]) cs)"

definition words :: "string \<Rightarrow> string list" where
  "words s = words_go [] s"

lemma words_go_nonempty: "w \<in> set (words_go cur s) \<Longrightarrow> w \<noteq> []"
  by (induction cur s rule: words_go.induct) (auto split: if_splits)

fun join :: "string \<Rightarrow> string list \<Rightarrow> string" where
  "join sep [] = []"
| "join sep [w] = w"
| "join sep (w # v # ws) = w @ sep @ join sep (v # ws)"

fun drop_while_end :: "(char \<Rightarrow> bool) \<Rightarrow> string \<Rightarrow> string" where
  "drop_while_end P s = rev (dropWhile P (rev s))"

text \<open>\<open>s.split(c)\<close>: never empty.\<close>

fun split_on :: "char \<Rightarrow> string \<Rightarrow> string list" where
  "split_on c [] = [[]]"
| "split_on c (x # xs) =
     (if x = c then [] # split_on c xs
      else (case split_on c xs of w # ws \<Rightarrow> (x # w) # ws | [] \<Rightarrow> [[x]]))"

text \<open>Each run of characters of a class made one space, as \<open>replace(/[...]+/g, ' ')\<close> does.\<close>

fun replace_runs :: "(char \<Rightarrow> bool) \<Rightarrow> string \<Rightarrow> string" where
  "replace_runs P [] = []"
| "replace_runs P (c # cs) =
     (if P c then (case cs of d # _ \<Rightarrow> if P d then replace_runs P cs else CHR '' '' # replace_runs P cs | [] \<Rightarrow> [CHR '' ''])
      else c # replace_runs P cs)"

abbreviation squeeze :: "string \<Rightarrow> string" where
  "squeeze \<equiv> replace_runs is_ws"

text \<open>A regular expression's unanchored search: some suffix matches.\<close>

fun some_suffix :: "(string \<Rightarrow> bool) \<Rightarrow> string \<Rightarrow> bool" where
  "some_suffix P [] = P []"
| "some_suffix P (c # cs) = (P (c # cs) \<or> some_suffix P cs)"

text \<open>The decimal text of a natural number.\<close>

fun show_nat :: "nat \<Rightarrow> string" where
  "show_nat n = (if n < 10 then [char_of (48 + n)] else show_nat (n div 10) @ [char_of (48 + n mod 10)])"

declare show_nat.simps [simp del]

text \<open>Read back: the text of a number determines it.\<close>

definition nat_of_digits :: "string \<Rightarrow> nat" where
  "nat_of_digits s = fold (\<lambda>c a. 10 * a + (code c - 48)) s 0"

lemma nat_of_show [simp]: "nat_of_digits (show_nat n) = n"
proof (induction n rule: show_nat.induct)
  case (1 n)
  show ?case
  proof (cases "n < 10")
    case True
    then show ?thesis by (subst show_nat.simps) (simp add: nat_of_digits_def)
  next
    case False
    then show ?thesis using 1 by (subst show_nat.simps) (simp add: nat_of_digits_def)
  qed
qed

lemma show_nat_inj [simp]: "show_nat a = show_nat b \<longleftrightarrow> a = b"
  by (metis nat_of_show)

lemma digit_char: "n < 10 \<Longrightarrow> is_digit (char_of (48 + n))" for n :: nat
  by (simp add: is_digit_def)

lemma show_nat_digits: "list_all is_digit (show_nat n)"
proof (induction n rule: show_nat.induct)
  case (1 n)
  show ?case
    using 1 by (subst show_nat.simps) (simp add: digit_char)
qed

section \<open>localeCompare\<close>

text \<open>
  The root collation on ASCII: control characters are ignored, white space and punctuation
  come before digits, digits before letters, letters without regard to case; texts equal so
  far differ by case, lower case first.
\<close>

definition coll_punct :: string where
  "coll_punct = map char_of ([9,10,11,12,13,32,95,45,44,59,58,33,63,46,39,34,40,41,91,93,123,125,64,
     42,47,92,38,35,37,96,94,43,60,61,62,124,126,36] :: nat list)"

fun position :: "'a \<Rightarrow> 'a list \<Rightarrow> nat" where
  "position x [] = 0"
| "position x (y # ys) = (if x = y then 0 else Suc (position x ys))"

definition coll_primary :: "char \<Rightarrow> nat" where
  "coll_primary c =
     (if is_digit c then 200 + code c
      else if is_lower c then 300 + code c
      else if is_upper c then 300 + (code c + 32)
      else if 128 \<le> code c then 1000 + code c
      else position c coll_punct)"

definition coll_ignored :: "char \<Rightarrow> bool" where
  "coll_ignored c = (code c = 127 \<or> code c < 32 \<and> \<not> is_ws c)"

definition coll_tertiary :: "char \<Rightarrow> nat" where
  "coll_tertiary c = (if is_upper c then 1 else 0)"

definition locale_compare :: "string \<Rightarrow> string \<Rightarrow> int" where
  "locale_compare a b =
     (let a' = filter (\<lambda>c. \<not> coll_ignored c) a; b' = filter (\<lambda>c. \<not> coll_ignored c) b
      in cmp_or (cmp_list (map coll_primary a') (map coll_primary b'))
                (cmp_list (map coll_tertiary a') (map coll_tertiary b')))"

interpretation lc: comparator locale_compare
  unfolding locale_compare_def Let_def
  by (intro comparator_or
      comparator_vimage [OF cmp_list.comparator_axioms, of "\<lambda>a. map coll_primary (filter (\<lambda>c. \<not> coll_ignored c) a)"]
      comparator_vimage [OF cmp_list.comparator_axioms, of "\<lambda>a. map coll_tertiary (filter (\<lambda>c. \<not> coll_ignored c) a)"])

lemma comparator_locale: "comparator (\<lambda>a b. locale_compare (f a) (f b))"
  by (rule comparator_vimage [OF lc.comparator_axioms])

lemma comparator_locale_desc: "comparator (\<lambda>a b. locale_compare (f b) (f a))"
  by unfold_locales (auto simp: lc.cmp_flip intro: lc.cmp_trans)

end
