(* ===== verification/UnityProcs.thy ===== *)
theory UnityProcs
  imports FF_Strings
begin

text \<open>
  Which processes of a machine are Unity editors (machine/unitySlots.ts, "which processes are
  Unity editors"; \<open>Proc\<close> and \<open>UnityPlatform\<close> of machine/unity.ts). Command lines are split,
  the editor binary is recognised per platform, asset import workers and editors started by
  an editor are left out. \<open>ancestorIn\<close> walks the parent chain of a process listing.
\<close>

section \<open>Processes and platforms\<close>

datatype platform = Darwin | Win32 | Linux

record proc =
  pid :: int
  ppid :: int
  cmd :: string
  name :: "string option"

datatype unity_kind = Interactive | Batch

record unity_process =
  upid :: int
  uppid :: int
  ukind :: unity_kind
  project :: "string option"

section \<open>Windows command lines\<close>

definition bslash :: char where "bslash = CHR 0x5C"
definition dquote :: char where "dquote = CHR 0x22"
definition slash :: char where "slash = CHR ''/''"
definition blank :: char where "blank = CHR '' ''"

lemma special_chars [simp]:
  "bslash \<noteq> dquote" "dquote \<noteq> bslash" "blank \<noteq> dquote" "dquote \<noteq> blank" "blank \<noteq> bslash" "bslash \<noteq> blank"
  "is_ws blank" "\<not> is_ws dquote" "\<not> is_ws bslash"
  by (simp_all add: bslash_def dquote_def blank_def is_ws_def code_def)

text \<open>
  The loop of \<open>splitArgs\<close>: the current argument, whether a quote is open, whether an argument
  has begun (so an empty quoted one counts), the arguments so far.
\<close>

function split_go :: "string \<Rightarrow> string \<Rightarrow> bool \<Rightarrow> bool \<Rightarrow> string list \<Rightarrow> string list" where
  "split_go [] cur quoted any out = (if any then out @ [cur] else out)"
| "split_go (c # cs) cur quoted any out =
     (if c = bslash \<and> cs \<noteq> [] \<and> hd cs = dquote then split_go (tl cs) (cur @ [dquote]) quoted True out
      else if c = dquote then split_go cs cur (\<not> quoted) True out
      else if is_ws c \<and> \<not> quoted then split_go cs [] quoted False (if any then out @ [cur] else out)
      else split_go cs (cur @ [c]) quoted True out)"
  by pat_completeness auto
termination by (relation "measure (\<lambda>(s, _). length s)") auto

definition splitArgs :: "string \<Rightarrow> string list" where
  "splitArgs s = split_go s [] False False []"

text \<open>\<open>path.win32.basename\<close>: the drive and trailing separators dropped, the last segment.\<close>

definition is_win_sep :: "char \<Rightarrow> bool" where
  "is_win_sep c = (c = slash \<or> c = bslash)"

definition win_basename :: "string \<Rightarrow> string" where
  "win_basename p =
     (let q = (case p of d # k # rest \<Rightarrow>
                 (if (is_lower d \<or> is_upper d) \<and> k = CHR '':'' then rest else p) | _ \<Rightarrow> p)
      in rev (takeWhile (\<lambda>c. \<not> is_win_sep c) (dropWhile is_win_sep (rev q))))"

section \<open>The editor binary\<close>

definition MAC_EDITOR :: string where "MAC_EDITOR = ''/Unity.app/Contents/MacOS/Unity''"
definition LINUX_EDITOR :: string where "LINUX_EDITOR = ''/Editor/Unity''"

definition editorTail :: "platform \<Rightarrow> string" where
  "editorTail pf = (if pf = Linux then LINUX_EDITOR else MAC_EDITOR)"

definition isUnityBinary :: "proc \<Rightarrow> platform \<Rightarrow> bool" where
  "isUnityBinary p pf =
     (if pf = Win32 then
        (case name p of
           Some n \<Rightarrow> if n \<noteq> [] then lower n = ''unity.exe''
                      else lower (win_basename (case splitArgs (cmd p) of [] \<Rightarrow> [] | a # _ \<Rightarrow> a)) = ''unity.exe''
         | None \<Rightarrow> lower (win_basename (case splitArgs (cmd p) of [] \<Rightarrow> [] | a # _ \<Rightarrow> a)) = ''unity.exe'')
      else
        (let tail = editorTail pf in
         case index_of tail (cmd p) of
           None \<Rightarrow> False
         | Some i \<Rightarrow>
             if \<not> has_prefix ''/'' (cmd p) then False
             else
               (case drop (i + length tail) (cmd p) of
                  c # _ \<Rightarrow> is_ws c
                | [] \<Rightarrow> True)
               \<and> (let front = take i (cmd p)
                  in \<not> includes_str front '' /'' \<and> \<not> includes_str front '' -'')))"

definition argsOf :: "string \<Rightarrow> platform \<Rightarrow> string list" where
  "argsOf s pf =
     (if pf = Win32 then tl (splitArgs s)
      else (let tail = editorTail pf in
            case index_of tail s of
              Some i \<Rightarrow> words (drop (i + length tail) s)
            | None \<Rightarrow> words (drop (length tail - 1) s)))"

fun after_flag :: "string list \<Rightarrow> string \<Rightarrow> string list option" where
  "after_flag [] flag = None"
| "after_flag (a # as) flag = (if lower a = lower flag then Some as else after_flag as flag)"

definition flagValue :: "string list \<Rightarrow> string \<Rightarrow> platform \<Rightarrow> string option" where
  "flagValue args flag pf =
     (case after_flag args flag of
        None \<Rightarrow> None
      | Some [] \<Rightarrow> None
      | Some (v # vs) \<Rightarrow>
          if pf = Win32 then Some v
          else (let t = join '' '' (takeWhile (\<lambda>a. \<not> has_prefix ''-'' a) (v # vs))
                in if t = [] then None else Some t))"

section \<open>The editors of a listing\<close>

definition unityProcesses :: "proc list \<Rightarrow> platform \<Rightarrow> unity_process list" where
  "unityProcesses procs pf =
     (let unity = filter (\<lambda>p. isUnityBinary p pf) procs;
          pids = map pid unity
      in List.map_filter (\<lambda>p.
           let args = argsOf (cmd p) pf;
               low = map lower args;
               nm = (case flagValue args ''-name'' pf of Some v \<Rightarrow> v | None \<Rightarrow> [])
           in if has_prefix ''assetimportworker'' (lower nm) \<or> ''-parentpid'' \<in> set low \<or> ppid p \<in> set pids
              then None
              else Some \<lparr>upid = pid p, uppid = ppid p,
                         ukind = (if ''-batchmode'' \<in> set low then Batch else Interactive),
                         project = flagValue args ''-projectPath'' pf\<rparr>) unity)"

text \<open>The rest of a lower-case text after "final factory" or "finalfactory".\<close>

definition after_ff :: "string \<Rightarrow> string option" where
  "after_ff s =
     (if has_prefix ''finalfactory'' s then Some (drop 12 s)
      else if has_prefix ''final factory'' s then Some (drop 13 s) else None)"

definition no_newline :: "string \<Rightarrow> bool" where
  "no_newline s = (\<forall>c \<in> set s. code c \<noteq> 10 \<and> code c \<noteq> 13)"

text \<open>Whether \<open>s\<close> is a text without a slash followed by \<open>mark\<close> and a rest that \<open>ok\<close> accepts.\<close>

fun segment_then :: "string \<Rightarrow> (string \<Rightarrow> bool) \<Rightarrow> string \<Rightarrow> bool" where
  "segment_then mark ok [] = (mark = [] \<and> ok [])"
| "segment_then mark ok (c # cs) =
     (has_prefix mark (c # cs) \<and> ok (drop (length mark) (c # cs))
      \<or> c \<noteq> slash \<and> segment_then mark ok cs)"

definition gamePlayers :: "proc list \<Rightarrow> platform \<Rightarrow> proc list" where
  "gamePlayers procs pf =
     (case pf of
        Win32 \<Rightarrow> filter (\<lambda>p.
            let n = lower (case name p of Some n \<Rightarrow> n
                           | None \<Rightarrow> win_basename (case splitArgs (cmd p) of [] \<Rightarrow> [] | a # _ \<Rightarrow> a))
            in (case after_ff n of None \<Rightarrow> False
                | Some r \<Rightarrow> has_suffix ''.exe'' r \<and> no_newline r)) procs
      | Linux \<Rightarrow> filter (\<lambda>p.
            some_suffix (\<lambda>s. has_prefix ''/'' s \<and>
                (case after_ff (drop 1 s) of None \<Rightarrow> False
                 | Some r \<Rightarrow> segment_then ''.x86_64'' (\<lambda>t. t = [] \<or> is_ws (hd t)) r)) (lower (cmd p))
            \<and> has_prefix ''/'' (cmd p)) procs
      | Darwin \<Rightarrow> filter (\<lambda>p.
            some_suffix (\<lambda>s. has_prefix ''/'' s \<and>
                (case after_ff (drop 1 s) of None \<Rightarrow> False
                 | Some r \<Rightarrow> segment_then ''.app/contents/macos/'' (\<lambda>_. True) r)) (lower (cmd p))
            \<and> has_prefix ''/'' (cmd p)) procs)"

definition pathKey :: "string \<Rightarrow> platform \<Rightarrow> string" where
  "pathKey p pf =
     (if pf = Win32
      then lower (drop_while_end (\<lambda>c. c = slash) (map (\<lambda>c. if c = bslash then slash else c) p))
      else drop_while_end (\<lambda>c. c = slash) p)"

section \<open>Parents\<close>

text \<open>\<open>new Map(procs.map((p) => [p.pid, p]))\<close>: a later process of the same pid replaces an earlier one.\<close>

definition by_pid :: "proc list \<Rightarrow> int \<Rightarrow> proc option" where
  "by_pid procs = map_of (rev (map (\<lambda>p. (pid p, p)) procs))"

fun ancestor_go :: "nat \<Rightarrow> (int \<Rightarrow> proc option) \<Rightarrow> int list \<Rightarrow> int list \<Rightarrow> int \<Rightarrow> int option" where
  "ancestor_go 0 tbl wanted seen p = None"
| "ancestor_go (Suc n) tbl wanted seen p =
     (if 0 < p \<and> p \<notin> set seen then
        (if p \<in> set wanted then Some p
         else ancestor_go n tbl wanted (p # seen) (case tbl p of Some q \<Rightarrow> ppid q | None \<Rightarrow> 0))
      else None)"

definition ancestorIn :: "int \<Rightarrow> (int \<Rightarrow> proc option) \<Rightarrow> int list \<Rightarrow> int option" where
  "ancestorIn pp tbl wanted = ancestor_go 64 tbl wanted [] pp"

text \<open>\<open>leads_to tbl p q\<close>: following parents from \<open>p\<close> reaches \<open>q\<close>.\<close>

inductive leads_to :: "(int \<Rightarrow> proc option) \<Rightarrow> int \<Rightarrow> int \<Rightarrow> bool" for tbl where
  here: "leads_to tbl p p"
| up: "tbl p = Some q \<Longrightarrow> leads_to tbl (ppid q) r \<Longrightarrow> leads_to tbl p r"

inductive_cases leads_toE: "leads_to tbl p q"

lemma ancestor_go_sound:
  "ancestor_go n tbl wanted seen p = Some a \<Longrightarrow> a \<in> set wanted \<and> 0 < a \<and> leads_to tbl p a"
proof (induction n arbitrary: seen p)
  case (Suc n)
  show ?case
  proof (cases "p \<in> set wanted")
    case True
    with Suc.prems show ?thesis by (auto split: if_splits intro: leads_to.here)
  next
    case False
    with Suc.prems have step: "ancestor_go n tbl wanted (p # seen) (case tbl p of Some q \<Rightarrow> ppid q | None \<Rightarrow> 0) = Some a"
      by (auto split: if_splits)
    show ?thesis
    proof (cases "tbl p")
      case None
      with step have "ancestor_go n tbl wanted (p # seen) 0 = Some a" by simp
      then show ?thesis by (cases n) auto
    next
      case (Some q)
      with step Suc.IH [of "p # seen" "ppid q"] show ?thesis
        by (auto intro: leads_to.up)
    qed
  qed
qed simp

lemma ancestorIn_sound:
  "ancestorIn p tbl wanted = Some a \<Longrightarrow> a \<in> set wanted \<and> 0 < a \<and> leads_to tbl p a"
  unfolding ancestorIn_def by (rule ancestor_go_sound)

section \<open>Quoting and splitting\<close>

text \<open>How a Windows program quotes one argument for its command line.\<close>

fun esc_arg :: "string \<Rightarrow> string" where
  "esc_arg [] = []"
| "esc_arg (c # cs) = (if c = dquote then bslash # dquote # esc_arg cs else c # esc_arg cs)"

definition quote_arg :: "string \<Rightarrow> string" where
  "quote_arg a = dquote # esc_arg a @ [dquote]"

lemma split_go_esc:
  assumes "a = [] \<or> last a \<noteq> bslash"
  shows "split_go (esc_arg a @ dquote # r) cur True any out = split_go r (cur @ a) False True out"
  using assms
proof (induction a arbitrary: cur any)
  case (Cons c cs)
  have "cs = [] \<or> last cs \<noteq> bslash"
    using Cons.prems by (auto split: if_splits)
  note IH = Cons.IH [OF this]
  show ?case
  proof (cases "c = dquote")
    case True
    then show ?thesis by (simp add: IH)
  next
    case False
    have "\<not> (c = bslash \<and> hd (esc_arg cs @ dquote # r) = dquote \<and> cs = [])"
      using Cons.prems by auto
    moreover have "c = bslash \<Longrightarrow> cs \<noteq> [] \<Longrightarrow> hd (esc_arg cs @ dquote # r) \<noteq> dquote"
      by (cases cs) auto
    ultimately show ?thesis
      using False by (auto simp: IH)
  qed
qed simp

lemma split_go_quoted:
  "a = [] \<or> last a \<noteq> bslash \<Longrightarrow>
   split_go (quote_arg a @ r) [] False False out = split_go r a False True out"
  using split_go_esc [of a r "[]" True out] by (simp add: quote_arg_def)

lemma split_go_join:
  "(\<forall>a \<in> set args. a = [] \<or> last a \<noteq> bslash) \<Longrightarrow>
   split_go (join [blank] (map quote_arg args)) [] False False out = out @ args"
proof (induction args arbitrary: out rule: induct_list012)
  case (2 a)
  then show ?case using split_go_quoted [of a "[]" out] by simp
next
  case (3 a b args)
  have "split_go (join [blank] (map quote_arg (a # b # args))) [] False False out
      = split_go (blank # join [blank] (map quote_arg (b # args))) a False True out"
    using 3 split_go_quoted [of a "blank # join [blank] (map quote_arg (b # args))" out] by simp
  then show ?case using 3 by simp
qed simp

text \<open>
  A quoted Windows command line splits back into its arguments: \<open>splitArgs\<close> undoes quoting
  (embedded quotes escaped, blanks and empty arguments kept) for every list of arguments of
  which none ends with a backslash.
\<close>

theorem splitArgs_roundtrip:
  assumes "\<forall>a \<in> set args. a = [] \<or> last a \<noteq> bslash"
  shows "splitArgs (join [blank] (map quote_arg args)) = args"
  using split_go_join [OF assms] by (simp add: splitArgs_def)

theorem splitArgs_roundtrip_witness:
  "splitArgs (join [blank] (map quote_arg [''a b'', [], [CHR ''x'', dquote, CHR ''y'']]))
     = [''a b'', [], [CHR ''x'', dquote, CHR ''y'']]"
  by (rule splitArgs_roundtrip) (simp add: bslash_def)

section \<open>Which processes count\<close>

lemma unityProcesses_sub: "set (map upid (unityProcesses procs pf)) \<subseteq> set (map pid procs)"
  by (auto simp: unityProcesses_def Let_def List.map_filter_def split: if_splits)


end
