(* ===== verification/SlotAssess.thy ===== *)
theory SlotAssess
  imports UnityProcs
begin

text \<open>
  The decision of the Unity slots arbiter (machine/unitySlots.ts, \<open>assess\<close>): every Unity
  editor of a machine is counted once, waiting requests are refused, granted or kept waiting.
  The numbers are JavaScript's finite numbers (\<open>num'\<close>), \<open>free\<close> may be \<open>Infinity\<close>
  (no limit). The sentences of the answers are values of \<open>deny_why\<close> and \<open>wait_why\<close>: one
  constructor per sentence, with the values the code puts in it.
\<close>

section \<open>The data\<close>

definition UNITY_RAM_PCT :: num' where "UNITY_RAM_PCT = 85"
definition STALE_MS :: int where "STALE_MS = 90000"
definition HOLDER_WAIT_MS :: int where "HOLDER_WAIT_MS = 30 * 60000"
definition ARBITER_FRESH_MS :: int where "ARBITER_FRESH_MS = 60000"

datatype deny_why =
    BadCount num'
  | MoreThanLimit num' num'
  | HoldsAndAsks num' "string option" num' num' num'
  | WaitedHolding int num'
  | WaitsForever "(string \<times> num' \<times> num') list" num' num'

datatype wait_why =
    RamUsed num' num'
  | NeedsFree num' xnum "num' + (num' \<times> num')"
  | Behind nat

record slot_request =
  rid :: string
  holder :: string
  count :: num'
  rpid :: int
  label :: string
  projects :: "string list option"
  session :: "string option"
  createdAt :: int
  grantedAt :: "int option"
  denied :: "deny_why option"

record place =
  pl_holder :: string
  pl_path :: string
  editorUp :: bool
  priority :: bool

record assess_input =
  i_platform :: platform
  i_procs :: "proc list"
  i_requests :: "slot_request list"
  i_places :: "place list"
  i_limit :: "num' option"
  i_now :: int
  i_ramPct :: "num' option"
  i_ramLimitPct :: "num' option"
  i_holderWaitMs :: "int option"

text \<open>A bucket of slots: a request's process (\<open>p:pid\<close>) or a sandbox's project (\<open>e:path\<close>).\<close>

datatype bkey = PidKey int | PathKey string

record bucket =
  b_holder :: string
  reserved :: num'
  bprocs :: num'

type_synonym buckets = "(bkey \<times> bucket) list"

record counted =
  c_unity :: "unity_process list"
  c_buckets :: buckets
  c_outside :: "unity_process list"

record decision =
  d_grant :: "string list"
  d_free :: xnum
  d_holders :: "(string \<times> num') list"
  d_rest :: "slot_request list"
  d_deny :: "(string \<times> deny_why) list"

record assessment =
  a_limit :: "num' option"
  a_used :: num'
  a_starting :: num'
  a_free :: xnum
  a_unity :: "unity_process list"
  a_interactive :: nat
  a_batch :: nat
  a_outside :: "unity_process list"
  a_players :: nat
  a_overLimit :: bool
  a_ramBlocked :: bool
  a_holders :: "(string \<times> num') list"
  a_grant :: "string list"
  a_deny :: "(string \<times> deny_why) list"
  a_waiting :: "(string \<times> nat \<times> wait_why) list"

section \<open>Counting\<close>

text \<open>\<open>bucket(key, holder)\<close>, then a change to it.\<close>

definition with_bucket :: "bkey \<Rightarrow> string \<Rightarrow> (bucket \<Rightarrow> bucket) \<Rightarrow> buckets \<Rightarrow> buckets" where
  "with_bucket k h f bs =
     AList.update k (f (case map_of bs k of Some b \<Rightarrow> b | None \<Rightarrow> \<lparr>b_holder = h, reserved = 0, bprocs = 0\<rparr>)) bs"

definition request_bucket :: "slot_request \<Rightarrow> buckets \<Rightarrow> buckets" where
  "request_bucket r = with_bucket (PidKey (rpid r)) (holder r)
     (\<lambda>b. if grantedAt r \<noteq> None \<and> denied r = None then b\<lparr>reserved := reserved b + count r\<rparr> else b)"

definition place_bucket :: "platform \<Rightarrow> place \<Rightarrow> buckets \<Rightarrow> buckets" where
  "place_bucket pf pl = with_bucket (PathKey (pathKey (pl_path pl) pf)) (pl_holder pl)
     (\<lambda>b. if editorUp pl then b\<lparr>reserved := max (reserved b) 1\<rparr> else b)"

definition first_buckets :: "assess_input \<Rightarrow> buckets" where
  "first_buckets i =
     fold (place_bucket (i_platform i)) (i_places i) (fold request_bucket (i_requests i) [])"

definition req_pids :: "assess_input \<Rightarrow> int list" where
  "req_pids i = map rpid (i_requests i)"

text \<open>The key of the project a Unity process has open (an empty text counts as none).\<close>

definition unity_key :: "platform \<Rightarrow> unity_process \<Rightarrow> string option" where
  "unity_key pf u =
     (case project u of
        None \<Rightarrow> None
      | Some s \<Rightarrow> (let k = pathKey s pf in if s \<noteq> [] \<and> k \<noteq> [] then Some k else None))"

text \<open>The request a Unity process belongs to: its nearest requesting ancestor, else one that named its project.\<close>

definition owner_pid :: "assess_input \<Rightarrow> unity_process \<Rightarrow> int option" where
  "owner_pid i u =
     (case (if upid u \<in> set (req_pids i) then Some (upid u)
            else ancestorIn (uppid u) (by_pid (i_procs i)) (req_pids i)) of
        Some a \<Rightarrow> Some a
      | None \<Rightarrow>
          (case unity_key (i_platform i) u of
             None \<Rightarrow> None
           | Some k \<Rightarrow>
               map_option rpid
                 (find (\<lambda>r. case projects r of None \<Rightarrow> False
                            | Some ps \<Rightarrow> list_ex (\<lambda>p. pathKey p (i_platform i) = k) ps) (i_requests i))))"

definition bump :: "bkey \<Rightarrow> buckets \<Rightarrow> buckets" where
  "bump k = AList.map_entry k (\<lambda>b. b\<lparr>bprocs := bprocs b + 1\<rparr>)"

definition place_unit :: "assess_input \<Rightarrow> unity_process \<Rightarrow> buckets \<times> unity_process list \<Rightarrow> buckets \<times> unity_process list" where
  "place_unit i u = (\<lambda>(bs, outs).
     case owner_pid i u of
       Some a \<Rightarrow> (bump (PidKey a) bs, outs)
     | None \<Rightarrow>
         (case unity_key (i_platform i) u of
            Some k \<Rightarrow> if map_of bs (PathKey k) \<noteq> None then (bump (PathKey k) bs, outs) else (bs, outs @ [u])
          | None \<Rightarrow> (bs, outs @ [u])))"

definition count_slots :: "assess_input \<Rightarrow> counted" where
  "count_slots i =
     (let us = unityProcesses (i_procs i) (i_platform i);
          (bs, outs) = fold (place_unit i) us (first_buckets i, [])
      in \<lparr>c_unity = us, c_buckets = bs, c_outside = outs\<rparr>)"

definition in_use :: "bucket \<Rightarrow> num'" where
  "in_use b = max (reserved b) (bprocs b)"

definition used_of :: "counted \<Rightarrow> bkey \<Rightarrow> num'" where
  "used_of c k = (case map_of (c_buckets c) k of Some b \<Rightarrow> in_use b | None \<Rightarrow> 0)"

definition used_slots :: "counted \<Rightarrow> num'" where
  "used_slots c = of_nat (length (c_outside c)) + sum_list (map (\<lambda>(k, b). in_use b) (c_buckets c))"

definition starting_slots :: "counted \<Rightarrow> num'" where
  "starting_slots c =
     sum_list (map (\<lambda>(k, b). case k of PathKey _ \<Rightarrow> in_use b - bprocs b | PidKey _ \<Rightarrow> 0) (c_buckets c))"

definition get0 :: "(string \<times> num') list \<Rightarrow> string \<Rightarrow> num'" where
  "get0 hs h = (case map_of hs h of Some n \<Rightarrow> n | None \<Rightarrow> 0)"

definition holders_of :: "counted \<Rightarrow> (string \<times> num') list" where
  "holders_of c =
     fold (\<lambda>(k, b) hs. if in_use b \<noteq> 0 then AList.update (b_holder b) (get0 hs (b_holder b) + in_use b) hs else hs)
       (c_buckets c) []"

section \<open>Deciding\<close>

definition place_keys :: "assess_input \<Rightarrow> (string \<times> bkey) list" where
  "place_keys i = map (\<lambda>pl. (pl_holder pl, PathKey (pathKey (pl_path pl) (i_platform i)))) (i_places i)"

text \<open>What a waiter keeps while it waits: its own process's slots and its place's editor.\<close>

definition kept_keys :: "assess_input \<Rightarrow> counted \<Rightarrow> slot_request \<Rightarrow> bkey list" where
  "kept_keys i c r =
     filter (\<lambda>k. 0 < used_of c k)
       (PidKey (rpid r) # map snd (filter (\<lambda>x. fst x = holder r) (place_keys i)))"

definition kept :: "assess_input \<Rightarrow> counted \<Rightarrow> slot_request \<Rightarrow> num'" where
  "kept i c r = sum_list (map (used_of c) (kept_keys i c r))"

definition free_slots :: "assess_input \<Rightarrow> counted \<Rightarrow> xnum" where
  "free_slots i c = (case i_limit i of None \<Rightarrow> Infinity | Some l \<Rightarrow> Fin (l - used_slots c))"

definition ram_limit :: "assess_input \<Rightarrow> num'" where
  "ram_limit i = (case i_ramLimitPct i of Some p \<Rightarrow> p | None \<Rightarrow> UNITY_RAM_PCT)"

definition ram_blocked :: "assess_input \<Rightarrow> bool" where
  "ram_blocked i = (i_limit i \<noteq> None \<and> (case i_ramPct i of Some p \<Rightarrow> ram_limit i \<le> p | None \<Rightarrow> False))"

text \<open>Refused at once: what can never fit, and a holder that held its slots while waiting too long.\<close>

definition refuse_why :: "assess_input \<Rightarrow> counted \<Rightarrow> slot_request \<Rightarrow> deny_why option" where
  "refuse_why i c r =
     (let h = kept i c r;
          over = (\<lambda>n. case i_limit i of Some l \<Rightarrow> l < n | None \<Rightarrow> False);
          lim = (case i_limit i of Some l \<Rightarrow> l | None \<Rightarrow> 0);
          wait = (case i_holderWaitMs i of Some w \<Rightarrow> w | None \<Rightarrow> HOLDER_WAIT_MS)
      in if \<not> is_integer (count r) \<or> count r < 1 then Some (BadCount (count r))
         else if over (count r) then Some (MoreThanLimit (count r) lim)
         else if 0 < h \<and> over (h + count r) then
           Some (HoldsAndAsks h (if list_ex (\<lambda>x. fst x = holder r) (place_keys i) then Some (holder r) else None)
                   (count r) lim (h + count r))
         else if 0 < h \<and> wait < i_now i - createdAt r then
           Some (WaitedHolding (js_round (of_int (i_now i - createdAt r) / 60000)) h)
         else None)"

definition waiting_requests :: "assess_input \<Rightarrow> slot_request list" where
  "waiting_requests i = filter (\<lambda>r. grantedAt r = None \<and> denied r = None) (i_requests i)"

definition refused :: "assess_input \<Rightarrow> counted \<Rightarrow> (string \<times> deny_why) list" where
  "refused i c = List.map_filter (\<lambda>r. map_option (\<lambda>w. (rid r, w)) (refuse_why i c r)) (waiting_requests i)"

definition request_first :: "assess_input \<Rightarrow> counted \<Rightarrow> slot_request \<Rightarrow> int" where
  "request_first i c r =
     (if 0 < get0 (holders_of c) (holder r) \<or> list_ex (\<lambda>pl. priority pl \<and> pl_holder pl = holder r) (i_places i)
      then 1 else 0)"

definition request_order :: "assess_input \<Rightarrow> counted \<Rightarrow> slot_request \<Rightarrow> slot_request \<Rightarrow> int" where
  "request_order i c a b =
     cmp_or (cmp_num (request_first i c b) (request_first i c a))
       (cmp_or (cmp_num (createdAt a) (createdAt b)) (locale_compare (rid a) (rid b)))"

definition queue :: "assess_input \<Rightarrow> counted \<Rightarrow> slot_request list" where
  "queue i c = js_sort (request_order i c) (filter (\<lambda>r. refuse_why i c r = None) (waiting_requests i))"

fun xminus :: "xnum \<Rightarrow> num' \<Rightarrow> xnum" where
  "xminus (Fin a) n = Fin (a - n)"
| "xminus Infinity n = Infinity"

definition take_slots :: "slot_request \<Rightarrow> decision \<Rightarrow> decision" where
  "take_slots r d = d\<lparr>d_grant := d_grant d @ [rid r], d_free := xminus (d_free d) (count r),
     d_holders := AList.update (holder r) (get0 (d_holders d) (holder r) + count r) (d_holders d)\<rparr>"

text \<open>The queue in order; the first request that does not fit stops it.\<close>

fun admit_queue :: "bool \<Rightarrow> slot_request list \<Rightarrow> decision \<Rightarrow> decision" where
  "admit_queue ram [] d = d"
| "admit_queue ram (r # rs) d =
     (if d_rest d = [] \<and> \<not> ram \<and> Fin (count r) \<le> d_free d then admit_queue ram rs (take_slots r d)
      else admit_queue ram rs (d\<lparr>d_rest := d_rest d @ [r]\<rparr>))"

text \<open>Every slot in use is kept by a waiter: nothing frees one by itself.\<close>

definition held_by_waiters :: "assess_input \<Rightarrow> counted \<Rightarrow> decision \<Rightarrow> num'" where
  "held_by_waiters i c d = sum_list (map (used_of c) (remdups (concat (map (kept_keys i c) (d_rest d)))))"

definition stuck :: "assess_input \<Rightarrow> counted \<Rightarrow> decision \<Rightarrow> bool" where
  "stuck i c d =
     (d_rest d \<noteq> [] \<and>
      (case (i_limit i, d_free d) of
         (Some l, Fin f) \<Rightarrow> 0 < held_by_waiters i c d \<and> l - f \<le> held_by_waiters i c d
       | _ \<Rightarrow> False))"

definition newest_order :: "slot_request \<Rightarrow> slot_request \<Rightarrow> int" where
  "newest_order a b = cmp_or (cmp_num (createdAt b) (createdAt a)) (locale_compare (rid b) (rid a))"

definition newest_holder :: "assess_input \<Rightarrow> counted \<Rightarrow> decision \<Rightarrow> slot_request option" where
  "newest_holder i c d =
     (case js_sort newest_order (filter (\<lambda>r. 0 < kept i c r) (d_rest d)) of [] \<Rightarrow> None | r # _ \<Rightarrow> Some r)"

definition unblock :: "assess_input \<Rightarrow> counted \<Rightarrow> decision \<Rightarrow> decision" where
  "unblock i c d =
     (if stuck i c d then
        (case find (\<lambda>r. Fin (count r) \<le> d_free d) (d_rest d) of
           Some fits \<Rightarrow>
             if ram_blocked i then d
             else (let d' = take_slots fits d in d'\<lparr>d_rest := remove1 fits (d_rest d)\<rparr>)
         | None \<Rightarrow>
             (case newest_holder i c d of
                None \<Rightarrow> d
              | Some n \<Rightarrow>
                  d\<lparr>d_deny := d_deny d @
                       [(rid n, WaitsForever (map (\<lambda>r. (label r, kept i c r, count r))
                                  (filter (\<lambda>r. r \<noteq> n \<and> 0 < kept i c r) (d_rest d))) (kept i c n) (count n))],
                     d_rest := remove1 n (d_rest d)\<rparr>))
      else d)"

definition decide :: "assess_input \<Rightarrow> counted \<Rightarrow> decision" where
  "decide i c =
     unblock i c (admit_queue (ram_blocked i) (queue i c)
       \<lparr>d_grant = [], d_free = free_slots i c, d_holders = holders_of c, d_rest = [], d_deny = refused i c\<rparr>)"

fun xmax0 :: "xnum \<Rightarrow> xnum" where
  "xmax0 (Fin x) = Fin (max 0 x)"
| "xmax0 Infinity = Infinity"

definition head_why :: "assess_input \<Rightarrow> counted \<Rightarrow> decision \<Rightarrow> slot_request \<Rightarrow> wait_why" where
  "head_why i c d r =
     (if ram_blocked i \<and> Fin (count r) \<le> d_free d
      then RamUsed (case i_ramPct i of Some p \<Rightarrow> p | None \<Rightarrow> 0) (ram_limit i)
      else NeedsFree (count r) (xmax0 (d_free d))
        (case (i_limit i, d_free d) of
           (Some l, Fin f) \<Rightarrow> Inr (l - max 0 f - (if f < 0 then f else 0), l)
         | _ \<Rightarrow> Inl (used_slots c)))"

definition waiting_out :: "assess_input \<Rightarrow> counted \<Rightarrow> decision \<Rightarrow> (string \<times> nat \<times> wait_why) list" where
  "waiting_out i c d =
     map (\<lambda>(n, r). (rid r, n + 1, if n = 0 then head_why i c d r else Behind n)) (List.enumerate 0 (d_rest d))"

definition granted_slots :: "assess_input \<Rightarrow> string list \<Rightarrow> num'" where
  "granted_slots i ids =
     sum_list (map (\<lambda>x. case find (\<lambda>r. rid r = x) (i_requests i) of Some r \<Rightarrow> count r | None \<Rightarrow> 0) ids)"

definition assess :: "assess_input \<Rightarrow> assessment" where
  "assess i =
     (let c = count_slots i; d = decide i c; granted = granted_slots i (d_grant d); used = used_slots c
      in \<lparr>a_limit = i_limit i,
          a_used = used + granted,
          a_starting = starting_slots c,
          a_free = (case i_limit i of None \<Rightarrow> Infinity | Some l \<Rightarrow> Fin (l - used - granted)),
          a_unity = c_unity c,
          a_interactive = length (filter (\<lambda>u. ukind u = Interactive) (c_unity c)),
          a_batch = length (filter (\<lambda>u. ukind u = Batch) (c_unity c)),
          a_outside = c_outside c,
          a_players = length (gamePlayers (i_procs i) (i_platform i)),
          a_overLimit = (case i_limit i of Some l \<Rightarrow> l < used | None \<Rightarrow> False),
          a_ramBlocked = ram_blocked i,
          a_holders = d_holders d,
          a_grant = d_grant d,
          a_deny = d_deny d,
          a_waiting = waiting_out i c d\<rparr>)"

end
