(* ===== verification/SlotLaws.thy ===== *)
theory SlotLaws
  imports SlotAssess
begin

text \<open>
  What the arbiter's decision guarantees: every Unity editor is counted exactly once, grants
  stay within the limit, each waiting request gets exactly one answer, nobody passes an
  earlier request, and a deadlock of holders is always broken.
\<close>

section \<open>Every Unity process is counted once\<close>

definition sum_procs :: "buckets \<Rightarrow> num'" where
  "sum_procs bs = sum_list (map (\<lambda>(k, b). bprocs b) bs)"

lemma set_keys_update [simp]: "fst ` set (AList.update k v bs) = insert k (fst ` set bs)"
  by (simp add: dom_update)

lemma sum_procs_update:
  "distinct (map fst bs) \<Longrightarrow>
   sum_procs (AList.update k b' bs) =
     sum_procs bs - (case map_of bs k of Some b \<Rightarrow> bprocs b | None \<Rightarrow> 0) + bprocs b'"
proof (induction bs)
  case (Cons x bs)
  obtain k1 b1 where x: "x = (k1, b1)" by (cases x)
  have "k = k1 \<Longrightarrow> map_of bs k = None"
    using Cons.prems x by (auto simp: map_of_eq_None_iff)
  with Cons x show ?case
    by (auto simp: sum_procs_def algebra_simps split: option.splits)
qed (simp add: sum_procs_def)

lemma distinct_with_bucket: "distinct (map fst bs) \<Longrightarrow> distinct (map fst (with_bucket k h f bs))"
  by (simp add: with_bucket_def distinct_update)

lemma keys_with_bucket: "fst ` set (with_bucket k h f bs) = insert k (fst ` set bs)"
  by (simp add: with_bucket_def)

lemma first_buckets_requests:
  "distinct (map fst bs) \<Longrightarrow>
   distinct (map fst (fold request_bucket rs bs)) \<and>
   fst ` set (fold request_bucket rs bs) = fst ` set bs \<union> (PidKey ` rpid ` set rs)"
  by (induction rs arbitrary: bs)
    (auto simp: request_bucket_def distinct_with_bucket keys_with_bucket)

lemma first_buckets_places:
  "distinct (map fst bs) \<Longrightarrow>
   distinct (map fst (fold (place_bucket pf) ps bs)) \<and>
   fst ` set bs \<subseteq> fst ` set (fold (place_bucket pf) ps bs)"
proof (induction ps arbitrary: bs)
  case (Cons p ps)
  have "distinct (map fst (place_bucket pf p bs))" "fst ` set bs \<subseteq> fst ` set (place_bucket pf p bs)"
    using Cons.prems by (auto simp: place_bucket_def distinct_with_bucket keys_with_bucket)
  with Cons.IH [of "place_bucket pf p bs"] show ?case by auto
qed simp

lemma first_buckets_keys:
  "distinct (map fst (first_buckets i))"
  "PidKey ` set (req_pids i) \<subseteq> fst ` set (first_buckets i)"
  using first_buckets_requests [of "[]" "i_requests i"]
    first_buckets_places [of "fold request_bucket (i_requests i) []" "i_platform i" "i_places i"]
  by (auto simp: first_buckets_def req_pids_def)

text \<open>A bucket made for a request or a place counts no process yet.\<close>

lemma sum_procs_with_bucket:
  assumes "distinct (map fst bs)" and "\<And>b. bprocs (f b) = bprocs b"
  shows "sum_procs (with_bucket k h f bs) = sum_procs bs"
  using assms by (auto simp: with_bucket_def sum_procs_update split: option.splits)

lemma sum_procs_requests:
  "distinct (map fst bs) \<Longrightarrow> sum_procs (fold request_bucket rs bs) = sum_procs bs"
proof (induction rs arbitrary: bs)
  case (Cons r rs)
  have "sum_procs (request_bucket r bs) = sum_procs bs"
    unfolding request_bucket_def by (rule sum_procs_with_bucket) (use Cons.prems in auto)
  moreover have "distinct (map fst (request_bucket r bs))"
    using Cons.prems by (simp add: request_bucket_def distinct_with_bucket)
  ultimately show ?case using Cons.IH by simp
qed simp

lemma sum_procs_places:
  "distinct (map fst bs) \<Longrightarrow> sum_procs (fold (place_bucket pf) ps bs) = sum_procs bs"
proof (induction ps arbitrary: bs)
  case (Cons p ps)
  have "sum_procs (place_bucket pf p bs) = sum_procs bs"
    unfolding place_bucket_def by (rule sum_procs_with_bucket) (use Cons.prems in auto)
  moreover have "distinct (map fst (place_bucket pf p bs))"
    using Cons.prems by (simp add: place_bucket_def distinct_with_bucket)
  ultimately show ?case using Cons.IH by simp
qed simp

lemma sum_procs_first: "sum_procs (first_buckets i) = 0"
  using first_buckets_requests [of "[]" "i_requests i"]
  by (simp add: first_buckets_def sum_procs_places sum_procs_requests) (simp add: sum_procs_def)

lemma keys_bump [simp]: "map fst (bump k bs) = map fst bs"
  by (induction bs) (auto simp: bump_def)

lemma sum_procs_bump:
  "distinct (map fst bs) \<Longrightarrow> k \<in> fst ` set bs \<Longrightarrow> sum_procs (bump k bs) = sum_procs bs + 1"
proof (induction bs)
  case (Cons x bs)
  have "k \<notin> fst ` set bs \<Longrightarrow> AList.map_entry k f bs = bs" for f :: "bucket \<Rightarrow> bucket"
    by (induction bs) auto
  with Cons show ?case
    by (cases x) (auto simp: bump_def sum_procs_def)
qed simp

lemma owner_pid_request: "owner_pid i u = Some a \<Longrightarrow> a \<in> set (req_pids i)"
  by (auto simp: owner_pid_def req_pids_def find_Some_iff dest!: ancestorIn_sound
      split: if_splits option.splits)

lemma place_unit_keys: "map fst (fst (place_unit i u (bs, outs))) = map fst bs"
  by (simp add: place_unit_def split: option.splits)

lemma place_unit_counts:
  assumes "distinct (map fst bs)" and "PidKey ` set (req_pids i) \<subseteq> fst ` set bs"
  shows "sum_procs (fst (place_unit i u (bs, outs))) + of_nat (length (snd (place_unit i u (bs, outs))))
    = sum_procs bs + of_nat (length outs) + 1"
proof (cases "owner_pid i u")
  case (Some a)
  then have "PidKey a \<in> fst ` set bs"
    using owner_pid_request assms(2) by blast
  with Some assms(1) show ?thesis
    by (simp add: place_unit_def sum_procs_bump)
next
  case None
  show ?thesis
  proof (cases "unity_key (i_platform i) u")
    case k: (Some k)
    have "map_of bs (PathKey k) \<noteq> None \<Longrightarrow> PathKey k \<in> fst ` set bs"
      by (metis map_of_eq_None_iff)
    with None k assms(1) show ?thesis
      by (auto simp: place_unit_def sum_procs_bump)
  qed (use None in \<open>simp add: place_unit_def\<close>)
qed

lemma fold_place_unit_counts:
  assumes "distinct (map fst bs)" and "PidKey ` set (req_pids i) \<subseteq> fst ` set bs"
  shows "map fst (fst (fold (place_unit i) us (bs, outs))) = map fst bs \<and>
    sum_procs (fst (fold (place_unit i) us (bs, outs))) + of_nat (length (snd (fold (place_unit i) us (bs, outs))))
    = sum_procs bs + of_nat (length outs) + of_nat (length us)"
  using assms
proof (induction us arbitrary: bs outs)
  case (Cons u us)
  obtain bs' outs' where s: "place_unit i u (bs, outs) = (bs', outs')" by fastforce
  have k: "map fst bs' = map fst bs" and n: "sum_procs bs' + of_nat (length outs') = sum_procs bs + of_nat (length outs) + 1"
    using place_unit_keys [of i u bs outs] place_unit_counts [OF Cons.prems, of u outs] s by simp_all
  have ks: "fst ` set bs' = fst ` set bs"
    using arg_cong [OF k, of set] by simp
  show ?case
    using Cons.IH [of bs' outs'] Cons.prems k ks n s by (simp add: algebra_simps)
qed simp

lemma count_slots_fields:
  "c_unity (count_slots i) = unityProcesses (i_procs i) (i_platform i)"
  "distinct (map fst (c_buckets (count_slots i)))"
  "sum_procs (c_buckets (count_slots i)) + of_nat (length (c_outside (count_slots i)))
     = of_nat (length (unityProcesses (i_procs i) (i_platform i)))"
  using fold_place_unit_counts [OF first_buckets_keys, of i "unityProcesses (i_procs i) (i_platform i)" "[]"]
    first_buckets_keys(1) [of i]
  by (auto simp: count_slots_def Let_def sum_procs_first split_def)

lemma used_slots_ge: "sum_procs (c_buckets c) + of_nat (length (c_outside c)) \<le> used_slots c"
proof -
  have "sum_procs bs \<le> sum_list (map (\<lambda>(k, b). in_use b) bs)" for bs
    unfolding sum_procs_def by (rule sum_list_mono) (auto simp: in_use_def)
  then show ?thesis by (simp add: used_slots_def)
qed


section \<open>The queue\<close>

definition sum_count :: "slot_request list \<Rightarrow> num'" where
  "sum_count rs = sum_list (map count rs)"

lemma sum_count_simps [simp]:
  "sum_count [] = 0" "sum_count (r # rs) = count r + sum_count rs" "sum_count (xs @ ys) = sum_count xs + sum_count ys"
  by (simp_all add: sum_count_def)

lemma xminus_xminus [simp]: "xminus (xminus x a) b = xminus x (a + b)" "xminus x 0 = x"
  by (cases x; simp)+

interpretation rq: comparator "request_order i c" for i c
  unfolding request_order_def
  by (intro comparator_or comparator_num comparator_num_desc comparator_locale)

interpretation nq: comparator newest_order
  unfolding newest_order_def
  by (intro comparator_or comparator_num_desc comparator_locale_desc)

lemma take_slots_fields [simp]:
  "d_grant (take_slots r d) = d_grant d @ [rid r]" "d_rest (take_slots r d) = d_rest d"
  "d_free (take_slots r d) = xminus (d_free d) (count r)" "d_deny (take_slots r d) = d_deny d"
  by (simp_all add: take_slots_def)

lemma admit_rest:
  "d_rest d \<noteq> [] \<or> ram \<Longrightarrow> admit_queue ram rs d = d\<lparr>d_rest := d_rest d @ rs\<rparr>"
  by (induction rs arbitrary: d) auto

lemma admit_queue_prefix:
  assumes "d_rest d = []"
  shows "\<exists>n \<le> length rs.
    d_grant (admit_queue ram rs d) = d_grant d @ map rid (take n rs) \<and>
    d_rest (admit_queue ram rs d) = drop n rs \<and>
    d_free (admit_queue ram rs d) = xminus (d_free d) (sum_count (take n rs)) \<and>
    d_deny (admit_queue ram rs d) = d_deny d \<and>
    (0 < n \<longrightarrow> \<not> ram \<and> Fin 0 \<le> d_free (admit_queue ram rs d)) \<and>
    (n < length rs \<longrightarrow> ram \<or> \<not> Fin (count (rs ! n)) \<le> d_free (admit_queue ram rs d))"
  using assms
proof (induction rs arbitrary: d)
  case Nil
  then show ?case by simp
next
  case (Cons r rs)
  show ?case
  proof (cases "\<not> ram \<and> Fin (count r) \<le> d_free d")
    case True
    let ?d = "take_slots r d"
    obtain n where n: "n \<le> length rs"
      "d_grant (admit_queue ram rs ?d) = d_grant ?d @ map rid (take n rs)"
      "d_rest (admit_queue ram rs ?d) = drop n rs"
      "d_free (admit_queue ram rs ?d) = xminus (d_free ?d) (sum_count (take n rs))"
      "d_deny (admit_queue ram rs ?d) = d_deny ?d"
      "0 < n \<longrightarrow> \<not> ram \<and> Fin 0 \<le> d_free (admit_queue ram rs ?d)"
      "n < length rs \<longrightarrow> ram \<or> \<not> Fin (count (rs ! n)) \<le> d_free (admit_queue ram rs ?d)"
      using Cons.IH [of ?d] Cons.prems by (metis take_slots_fields(2))
    have "Fin 0 \<le> d_free ?d"
      using True by (cases "d_free d") auto
    then have pos: "Fin 0 \<le> d_free (admit_queue ram rs ?d)"
      using n(4,6) by (cases "n = 0") auto
    have step: "admit_queue ram (r # rs) d = admit_queue ram rs ?d"
      using True Cons.prems by simp
    show ?thesis
      unfolding step using n pos True by (intro exI [of _ "Suc n"]) auto
  next
    case False
    then have "admit_queue ram (r # rs) d = d\<lparr>d_rest := r # rs\<rparr>"
      using Cons.prems admit_rest [of "d\<lparr>d_rest := [r]\<rparr>" ram rs] by auto
    with False Cons.prems show ?thesis by (intro exI [of _ 0]) auto
  qed
qed

text \<open>The decision before the deadlock rule.\<close>

definition admitted :: "assess_input \<Rightarrow> counted \<Rightarrow> decision" where
  "admitted i c = admit_queue (ram_blocked i) (queue i c)
     \<lparr>d_grant = [], d_free = free_slots i c, d_holders = holders_of c, d_rest = [], d_deny = refused i c\<rparr>"

lemma decide_admitted: "decide i c = unblock i c (admitted i c)"
  by (simp add: decide_def admitted_def)

lemma admitted_prefix:
  obtains n where "n \<le> length (queue i c)"
    "d_grant (admitted i c) = map rid (take n (queue i c))"
    "d_rest (admitted i c) = drop n (queue i c)"
    "d_free (admitted i c) = xminus (free_slots i c) (sum_count (take n (queue i c)))"
    "d_deny (admitted i c) = refused i c"
    "0 < n \<Longrightarrow> \<not> ram_blocked i \<and> Fin 0 \<le> d_free (admitted i c)"
    "n < length (queue i c) \<Longrightarrow> ram_blocked i \<or> \<not> Fin (count (queue i c ! n)) \<le> d_free (admitted i c)"
proof -
  let ?d = "\<lparr>d_grant = [], d_free = free_slots i c, d_holders = holders_of c, d_rest = [], d_deny = refused i c\<rparr>"
  have "d_rest ?d = []" by simp
  from admit_queue_prefix [OF this, of "queue i c" "ram_blocked i", folded admitted_def]
  obtain n where "n \<le> length (queue i c)"
    "d_grant (admitted i c) = map rid (take n (queue i c))"
    "d_rest (admitted i c) = drop n (queue i c)"
    "d_free (admitted i c) = xminus (free_slots i c) (sum_count (take n (queue i c)))"
    "d_deny (admitted i c) = refused i c"
    "0 < n \<longrightarrow> \<not> ram_blocked i \<and> Fin 0 \<le> d_free (admitted i c)"
    "n < length (queue i c) \<longrightarrow> ram_blocked i \<or> \<not> Fin (count (queue i c ! n)) \<le> d_free (admitted i c)"
    by (elim exE conjE) (simp only: decision.simps append_Nil)
  then show thesis by (intro that [of n]) simp_all
qed

text \<open>What the deadlock rule may do to a decision.\<close>

lemma unblock_cases:
  obtains (same) "unblock i c d = d" "\<not> stuck i c d \<or> ram_blocked i \<or> newest_holder i c d = None"
  | (fits) r where "stuck i c d" "r \<in> set (d_rest d)" "Fin (count r) \<le> d_free d" "\<not> ram_blocked i"
      "d_grant (unblock i c d) = d_grant d @ [rid r]" "d_deny (unblock i c d) = d_deny d"
      "d_rest (unblock i c d) = remove1 r (d_rest d)" "d_free (unblock i c d) = xminus (d_free d) (count r)"
  | (refuses) r w where "stuck i c d" "r \<in> set (d_rest d)" "0 < kept i c r" "d_grant (unblock i c d) = d_grant d"
      "\<forall>x \<in> set (d_rest d). \<not> Fin (count x) \<le> d_free d"
      "\<forall>x \<in> set (d_rest d). 0 < kept i c x \<longrightarrow> newest_order r x \<le> 0"
      "d_deny (unblock i c d) = d_deny d @ [(rid r, w)]"
      "d_rest (unblock i c d) = remove1 r (d_rest d)" "d_free (unblock i c d) = d_free d"
proof (cases "stuck i c d")
  case False
  then show ?thesis using same by (simp add: unblock_def)
next
  case st: True
  show ?thesis
  proof (cases "find (\<lambda>r. Fin (count r) \<le> d_free d) (d_rest d)")
    case (Some r)
    then have "r \<in> set (d_rest d)" "Fin (count r) \<le> d_free d"
      by (auto simp: find_Some_iff)
    with Some st fits [of r] same show ?thesis
      by (cases "ram_blocked i") (auto simp: unblock_def take_slots_def Let_def)
  next
    case nofit: None
    then have none: "\<forall>x \<in> set (d_rest d). \<not> Fin (count x) \<le> d_free d"
      by (auto simp: find_None_iff)
    show ?thesis
    proof (cases "newest_holder i c d")
      case None
      with st nofit same show ?thesis by (simp add: unblock_def)
    next
      case (Some n)
      then obtain ns where ns: "js_sort newest_order (filter (\<lambda>r. 0 < kept i c r) (d_rest d)) = n # ns"
        by (auto simp: newest_holder_def split: list.splits)
      then have "n \<in> set (filter (\<lambda>r. 0 < kept i c r) (d_rest d))"
        by (metis list.set_intros(1) set_js_sort)
      moreover have "\<forall>x \<in> set (d_rest d). 0 < kept i c x \<longrightarrow> newest_order n x \<le> 0"
        using nq.js_sort_head [OF ns] by auto
      ultimately show ?thesis
        using st nofit Some none refuses [of n] by (auto simp: unblock_def)
    qed
  qed
qed

lemma queue_set: "set (queue i c) = {r \<in> set (waiting_requests i). refuse_why i c r = None}"
  by (auto simp: queue_def)

lemma queue_count: "r \<in> set (queue i c) \<Longrightarrow> 1 \<le> count r \<and> is_integer (count r)"
  by (auto simp: queue_set refuse_why_def Let_def split: if_splits)

lemma mset_refused_queue:
  "mset (map rid (waiting_requests i)) = mset (map fst (refused i c)) + mset (map rid (queue i c))"
proof -
  have "mset (map rid ws) = mset (map fst (List.map_filter (\<lambda>r. map_option (\<lambda>w. (rid r, w)) (refuse_why i c r)) ws))
      + mset (map rid (filter (\<lambda>r. refuse_why i c r = None) ws))" for ws
    by (induction ws) (auto simp: List.map_filter_simps split: option.splits)
  then show ?thesis
    by (simp add: refused_def queue_def)
qed


section \<open>The decision as a whole\<close>

lemma decide_grants:
  obtains G where "d_grant (decide i c) = map rid G" "mset G \<subseteq># mset (queue i c)"
    "d_free (decide i c) = xminus (free_slots i c) (sum_count G)"
    "G \<noteq> [] \<Longrightarrow> \<not> ram_blocked i \<and> Fin 0 \<le> d_free (decide i c)"
proof -
  obtain n where n: "n \<le> length (queue i c)"
    "d_grant (admitted i c) = map rid (take n (queue i c))"
    "d_rest (admitted i c) = drop n (queue i c)"
    "d_free (admitted i c) = xminus (free_slots i c) (sum_count (take n (queue i c)))"
    "0 < n \<Longrightarrow> \<not> ram_blocked i \<and> Fin 0 \<le> d_free (admitted i c)"
    by (rule admitted_prefix [of i c]) blast
  have sub: "mset (take n (queue i c)) \<subseteq># mset (queue i c)"
    by (metis mset_subset_eq_add_left mset_take_drop)
  show thesis
  proof (cases rule: unblock_cases [of i c "admitted i c"])
    case same
    then show thesis
      using n sub by (intro that [of "take n (queue i c)"]) (auto simp: decide_admitted)
  next
    case (fits r)
    have "r \<in># mset (drop n (queue i c))"
      using fits(2) n(3) by simp
    then have "mset (take n (queue i c) @ [r]) \<subseteq># mset (queue i c)"
      using mset_take_drop [of n "queue i c"] by (metis mset_append mset_single_iff_right mset_subset_eq_single mset.simps subset_mset.add_left_mono)
    moreover have "Fin 0 \<le> d_free (unblock i c (admitted i c))"
      using fits(3,8) by (cases "d_free (admitted i c)") auto
    ultimately show thesis
      using n fits by (intro that [of "take n (queue i c) @ [r]"]) (auto simp: decide_admitted)
  next
    case (refuses r w)
    then show thesis
      using n sub by (intro that [of "take n (queue i c)"]) (auto simp: decide_admitted)
  qed
qed

lemma queue_requests: "set (queue i c) \<subseteq> set (i_requests i)"
  by (auto simp: queue_set waiting_requests_def)

lemma granted_slots_map:
  assumes "distinct (map rid (i_requests i))" and "set G \<subseteq> set (i_requests i)"
  shows "granted_slots i (map rid G) = sum_count G"
proof -
  have "find (\<lambda>r. rid r = rid g) (i_requests i) = Some g" if "g \<in> set G" for g
    using that assms by (intro find_key) auto
  then show ?thesis
    by (induction G) (auto simp: granted_slots_def sum_count_def)
qed

lemma decide_answers:
  "mset (map rid (queue i c)) + mset (map fst (refused i c)) =
   mset (d_grant (decide i c)) + mset (map fst (d_deny (decide i c))) + mset (map rid (d_rest (decide i c)))"
proof -
  obtain n where n: "d_grant (admitted i c) = map rid (take n (queue i c))"
    "d_rest (admitted i c) = drop n (queue i c)" "d_deny (admitted i c) = refused i c"
    by (rule admitted_prefix [of i c]) blast
  have q: "mset (map rid (take n (queue i c))) + mset (map rid (drop n (queue i c))) = mset (map rid (queue i c))"
    by (metis append_take_drop_id map_append mset_append)
  have rem: "r \<in> set xs \<Longrightarrow> mset (map rid xs) = {#rid r#} + mset (map rid (remove1 r xs))" for r :: slot_request and xs
    by (metis (no_types, lifting) add_mset_add_single image_mset_add_mset insert_DiffM mset_map mset_remove1 set_mset_mset union_commute)
  show ?thesis
  proof (cases rule: unblock_cases [of i c "admitted i c"])
    case same
    then show ?thesis using n q by (simp add: decide_admitted)
  next
    case (fits r)
    then show ?thesis using n q rem [of r "d_rest (admitted i c)"] by (simp add: decide_admitted)
  next
    case (refuses r w)
    then show ?thesis using n q rem [of r "d_rest (admitted i c)"] by (simp add: decide_admitted)
  qed
qed

lemma assess_fields:
  "a_grant (assess i) = d_grant (decide i (count_slots i))"
  "a_deny (assess i) = d_deny (decide i (count_slots i))"
  "map fst (a_waiting (assess i)) = map rid (d_rest (decide i (count_slots i)))"
  "a_used (assess i) = used_slots (count_slots i) + granted_slots i (d_grant (decide i (count_slots i)))"
  "a_unity (assess i) = unityProcesses (i_procs i) (i_platform i)"
  "a_outside (assess i) = c_outside (count_slots i)"
  "a_overLimit (assess i) = (case i_limit i of Some l \<Rightarrow> l < used_slots (count_slots i) | None \<Rightarrow> False)"
  "a_ramBlocked (assess i) = ram_blocked i"
proof -
  have "map fst (map (\<lambda>(n, r). (rid r, n + 1, f n r)) (List.enumerate k rs)) = map rid rs" for f k rs
    by (induction rs arbitrary: k) auto
  then show "map fst (a_waiting (assess i)) = map rid (d_rest (decide i (count_slots i)))"
    by (simp add: assess_def Let_def waiting_out_def)
qed (simp_all add: assess_def Let_def count_slots_fields)


lemma kept_pos: "kept_keys i c r \<noteq> [] \<Longrightarrow> 0 < kept i c r"
  unfolding kept_def by (rule sum_list_pos) (auto simp: kept_keys_def)

text \<open>When the queue is stuck, some waiting request keeps slots, so the rule finds the newest.\<close>

lemma stuck_has_holder:
  assumes "stuck i c d"
  shows "newest_holder i c d \<noteq> None"
proof -
  have "\<exists>r \<in> set (d_rest d). kept_keys i c r \<noteq> []"
  proof (rule ccontr)
    assume "\<not> ?thesis"
    then have e: "concat (map (kept_keys i c) (d_rest d)) = []"
      by auto
    have "held_by_waiters i c d = 0"
      unfolding held_by_waiters_def e by simp
    then show False
      using assms by (auto simp: stuck_def split: option.splits xnum.splits)
  qed
  then have "filter (\<lambda>r. 0 < kept i c r) (d_rest d) \<noteq> []"
    by (auto simp: filter_empty_conv dest: kept_pos)
  then show ?thesis
    by (auto simp: newest_holder_def split: list.splits)
qed

end
