(* ===== verification/SlotProps.thy ===== *)
theory SlotProps
  imports SlotLaws
begin

text \<open>
  The properties of the slot decision (machine/unitySlots.ts, \<open>assess\<close>), each with a witness on
  a small machine.
\<close>

section \<open>Sample inputs\<close>

text \<open>
  A Linux machine with one editor somebody started by hand, and requests given as
  (id, holder, count, pid, creation time, grant time).
\<close>

definition sample_request :: "string \<Rightarrow> string \<Rightarrow> num' \<Rightarrow> int \<Rightarrow> int \<Rightarrow> int option \<Rightarrow> slot_request" where
  "sample_request x h n p t g =
     \<lparr>rid = x, holder = h, count = n, rpid = p, label = x, projects = None, session = None,
      createdAt = t, grantedAt = g, denied = None\<rparr>"

definition sample_procs :: "proc list" where
  "sample_procs =
     [\<lparr>pid = 7, ppid = 1, cmd = ''/opt/u/Editor/Unity -projectPath /w/a'', name = None\<rparr>]"

definition sample_input :: "slot_request list \<Rightarrow> num' \<Rightarrow> assess_input" where
  "sample_input rs l =
     \<lparr>i_platform = Linux, i_procs = sample_procs, i_requests = rs, i_places = [], i_limit = Some l,
      i_now = 1000, i_ramPct = Some 40, i_ramLimitPct = None, i_holderWaitMs = None\<rparr>"

lemmas sample_defs = sample_input_def sample_request_def sample_procs_def

section \<open>Properties\<close>

text \<open>
  C1. Grants never pass the limit: on a machine with a limit, a look that grants anything leaves
  the slots in use (every Unity process, reservation and this look's grants) at or below it.
\<close>

theorem grants_within_limit:
  assumes "distinct (map rid (i_requests i))" and "i_limit i = Some l" and "a_grant (assess i) \<noteq> []"
  shows "a_used (assess i) \<le> l"
proof -
  let ?c = "count_slots i"
  obtain G where G: "d_grant (decide i ?c) = map rid G" "mset G \<subseteq># mset (queue i ?c)"
    "d_free (decide i ?c) = xminus (free_slots i ?c) (sum_count G)"
    "G \<noteq> [] \<Longrightarrow> \<not> ram_blocked i \<and> Fin 0 \<le> d_free (decide i ?c)"
    by (rule decide_grants [of i ?c]) blast
  have "set G \<subseteq> set (i_requests i)"
    using G(2) queue_requests [of i ?c] by (metis set_mset_mono set_mset_mset subset_trans)
  then have "granted_slots i (d_grant (decide i ?c)) = sum_count G"
    using G(1) granted_slots_map [OF assms(1)] by simp
  moreover have "Fin 0 \<le> d_free (decide i ?c)"
    using G(1,4) assms(3) by (auto simp: assess_fields)
  ultimately show ?thesis
    using G(3) assms(2) by (simp add: assess_fields free_slots_def)
qed

theorem grants_within_limit_witness:
  "a_used (assess (sample_input [sample_request ''a'' ''x'' 1 50 10 None, sample_request ''b'' ''y'' 1 51 11 None] 2)) \<le> 2"
proof (rule grants_within_limit)
  show "distinct (map rid (i_requests (sample_input [sample_request ''a'' ''x'' 1 50 10 None, sample_request ''b'' ''y'' 1 51 11 None] 2)))"
    by (simp add: sample_defs)
  show "a_grant (assess (sample_input [sample_request ''a'' ''x'' 1 50 10 None, sample_request ''b'' ''y'' 1 51 11 None] 2)) \<noteq> []"
    by code_simp
qed (simp add: sample_defs)

text \<open>
  Unity started outside the gate always counts: the slots in use are at least the number of
  top-level Unity editors running, whoever started them, plus what this look grants.
\<close>

theorem every_unity_counted:
  "of_nat (length (a_unity (assess i))) + granted_slots i (a_grant (assess i)) \<le> a_used (assess i)"
  using count_slots_fields(3) [of i] used_slots_ge [of "count_slots i"]
  by (simp add: assess_fields)

text \<open>
  Every waiting request gets exactly one answer in a look: it is granted, refused or told
  its place in the queue, and nothing else is answered.
\<close>

theorem one_answer_each:
  "mset (map rid (waiting_requests i)) =
     mset (a_grant (assess i)) + mset (map fst (a_deny (assess i))) + mset (map fst (a_waiting (assess i)))"
  using mset_refused_queue [of i "count_slots i"] decide_answers [of i "count_slots i"]
  by (simp only: assess_fields ac_simps)

text \<open>
  Nothing is granted while the machine is over its limit or its RAM is at the busy line.
\<close>

theorem nothing_granted_when_full:
  assumes "a_overLimit (assess i) \<or> a_ramBlocked (assess i)"
  shows "a_grant (assess i) = []"
proof (rule ccontr)
  let ?c = "count_slots i"
  assume ne: "a_grant (assess i) \<noteq> []"
  obtain G where G: "d_grant (decide i ?c) = map rid G" "mset G \<subseteq># mset (queue i ?c)"
    "d_free (decide i ?c) = xminus (free_slots i ?c) (sum_count G)"
    "G \<noteq> [] \<Longrightarrow> \<not> ram_blocked i \<and> Fin 0 \<le> d_free (decide i ?c)"
    by (rule decide_grants [of i ?c]) blast
  then have ok: "\<not> ram_blocked i" "Fin 0 \<le> d_free (decide i ?c)" "G \<noteq> []"
    using ne by (auto simp: assess_fields)
  have "set G \<subseteq> set (queue i ?c)"
    using G(2) by (metis set_mset_mono set_mset_mset)
  then have "\<forall>r \<in> set G. 0 \<le> count r"
    using queue_count [of _ i ?c] by force
  then have "0 \<le> sum_count G"
    unfolding sum_count_def by (intro sum_list_nonneg) auto
  then show False
    using assms ok G(3) by (auto simp: assess_fields free_slots_def split: option.splits)
qed

theorem nothing_granted_when_full_witness:
  "a_grant (assess (sample_input [sample_request ''a'' ''x'' 1 50 10 None] 0)) = []"
  by (rule nothing_granted_when_full) code_simp

text \<open>
  C3. No one passes an earlier request (all-or-nothing without starvation): outside the deadlock
  rule, when a queued request is granted, every queued request that comes before it in the
  order (holders of slots first, then oldest) is granted as well.
\<close>

theorem no_passing:
  assumes "distinct (map rid (i_requests i))"
    and "\<not> stuck i (count_slots i) (admitted i (count_slots i))"
    and "a \<in> set (queue i (count_slots i))" and "b \<in> set (queue i (count_slots i))"
    and "request_order i (count_slots i) a b < 0" and "rid b \<in> set (a_grant (assess i))"
  shows "rid a \<in> set (a_grant (assess i))"
proof -
  let ?c = "count_slots i" and ?q = "queue i (count_slots i)"
  obtain n where n: "d_grant (admitted i ?c) = map rid (take n ?q)"
    by (rule admitted_prefix [of i ?c]) blast
  have grant: "a_grant (assess i) = map rid (take n ?q)"
    using assms(2) n by (simp add: assess_fields decide_admitted unblock_def)
  then obtain b' where b': "b' \<in> set (take n ?q)" "rid b' = rid b"
    using assms(6) by auto
  have "inj_on rid (set (i_requests i))"
    using assms(1) by (simp add: distinct_map)
  then have "b' = b"
    using b' assms(4) queue_requests [of i ?c] by (metis inj_onD in_set_takeD subset_iff)
  have "a \<in> set (take n ?q)"
  proof (rule ccontr)
    assume "a \<notin> set (take n ?q)"
    then have "a \<in> set (drop n ?q)"
      using assms(3) by (metis append_take_drop_id set_append UnE)
    moreover obtain us vs where "take n ?q = us @ b # vs"
      using b'(1) \<open>b' = b\<close> split_list by metis
    ultimately have "?q = us @ b # (vs @ drop n ?q)" "a \<in> set (vs @ drop n ?q)"
      by (metis append_take_drop_id append_Cons append_assoc, simp)
    then have "request_order i ?c b a \<le> 0"
      unfolding queue_def by (rule rq.js_sort_before)
    then show False
      using assms(5) rq.cmp_flip [of i ?c a b] by linarith
  qed
  then show ?thesis by (simp add: grant)
qed

theorem no_passing_witness:
  "''a'' \<in> set (a_grant (assess (sample_input [sample_request ''a'' ''x'' 1 50 10 None, sample_request ''b'' ''y'' 1 51 11 None] 3)))"
proof -
  let ?a = "sample_request ''a'' ''x'' 1 50 10 None" and ?b = "sample_request ''b'' ''y'' 1 51 11 None"
  let ?i = "sample_input [?a, ?b] 3"
  have "rid ?a \<in> set (a_grant (assess ?i))"
  proof (rule no_passing)
    show "distinct (map rid (i_requests ?i))" by (simp add: sample_defs)
    show "\<not> stuck ?i (count_slots ?i) (admitted ?i (count_slots ?i))" by code_simp
    show "?a \<in> set (queue ?i (count_slots ?i))" by code_simp
    show "?b \<in> set (queue ?i (count_slots ?i))" by code_simp
    show "request_order ?i (count_slots ?i) ?a ?b < 0" by code_simp
    show "rid ?b \<in> set (a_grant (assess ?i))" by code_simp
  qed
  then show ?thesis by (simp add: sample_request_def)
qed

text \<open>
  C4. A deadlock of holders is always broken: when every slot in use is kept by requests that
  themselves wait (and RAM does not hold launches back), the look either grants a waiting
  request that fits or refuses the newest waiting request that keeps slots.
\<close>

theorem deadlock_broken:
  assumes "stuck i (count_slots i) (admitted i (count_slots i))" and "\<not> a_ramBlocked (assess i)"
  shows "\<exists>r \<in> set (d_rest (admitted i (count_slots i))).
    (Fin (count r) \<le> d_free (admitted i (count_slots i)) \<and> rid r \<in> set (a_grant (assess i))) \<or>
    (0 < kept i (count_slots i) r \<and> rid r \<in> fst ` set (a_deny (assess i)) \<and>
     (\<forall>x \<in> set (d_rest (admitted i (count_slots i))). 0 < kept i (count_slots i) x \<longrightarrow> createdAt x \<le> createdAt r))"
proof (cases rule: unblock_cases [of i "count_slots i" "admitted i (count_slots i)"])
  case same
  then show ?thesis
    using assms stuck_has_holder [OF assms(1)] by (simp add: assess_fields)
next
  case (fits r)
  then show ?thesis by (intro bexI [of _ r]) (auto simp: assess_fields decide_admitted)
next
  case (refuses r w)
  have "createdAt y \<le> createdAt r" if "newest_order r y \<le> 0" for y
    using that by (auto simp: newest_order_def cmp_or_def cmp_num_def split: if_splits)
  with refuses show ?thesis
    by (intro bexI [of _ r]) (auto simp: assess_fields decide_admitted)
qed

theorem deadlock_broken_witness:
  "\<exists>i. stuck i (count_slots i) (admitted i (count_slots i)) \<and>
    (\<exists>r \<in> set (d_rest (admitted i (count_slots i))).
      (Fin (count r) \<le> d_free (admitted i (count_slots i)) \<and> rid r \<in> set (a_grant (assess i))) \<or>
      (0 < kept i (count_slots i) r \<and> rid r \<in> fst ` set (a_deny (assess i)) \<and>
       (\<forall>x \<in> set (d_rest (admitted i (count_slots i))). 0 < kept i (count_slots i) x \<longrightarrow> createdAt x \<le> createdAt r)))"
proof -
  let ?i = "(sample_input [sample_request ''a'' ''x'' 1 50 10 (Some 11), sample_request ''b'' ''x'' 1 50 20 None] 2)
    \<lparr>i_procs := [], i_limit := Some 2, i_requests := [sample_request ''a'' ''x'' 1 50 10 (Some 11),
       sample_request ''b'' ''x'' 1 50 20 None, sample_request ''c'' ''y'' 1 51 12 (Some 13), sample_request ''d'' ''y'' 1 51 21 None]\<rparr>"
  have s: "stuck ?i (count_slots ?i) (admitted ?i (count_slots ?i))" by code_simp
  have r: "\<not> a_ramBlocked (assess ?i)" by code_simp
  show ?thesis
    using s deadlock_broken [OF s r] by blast
qed

end
