(* ===== verification/SlotArbiter.thy ===== *)
theory SlotArbiter
  imports SlotAssess
begin

text \<open>
  The Unity slots arbiter and its mailbox (machine/unitySlots.ts, class \<open>UnitySlots\<close>, and the
  client \<open>acquire\<close>). The mailbox is a folder: one request, grant and deny file per id and the
  arbiter's own file. A look of the arbiter has two halves with the process listing between
  them: \<open>readRequests\<close>, then \<open>look_finish\<close> (decide and write the answers). The texts for logs
  and people are left out except where they are answers; the events the orchestrator hears
  are values of \<open>slot_event\<close>.
\<close>

section \<open>Files\<close>

record request_file =
  rf_id :: string
  rf_pid :: num'
  rf_holder :: string
  rf_count :: num'
  rf_label :: string
  rf_projects :: "string list option"
  rf_session :: string
  rf_createdAt :: stamp

record arbiter_file =
  af_pid :: int
  af_instance :: string
  af_machine :: "string option"
  af_startedAt :: "stamp option"
  af_at :: stamp
  af_limit :: "num' option"
  af_used :: num'
  af_waiting :: "(string \<times> string \<times> num' \<times> string \<times> nat \<times> wait_why) list"
  af_granted :: "(string \<times> string \<times> num' \<times> string) list"

text \<open>
  The folder. A request file has its modification time; \<open>None\<close> as content is a file that does
  not read as JSON. A grant file holds the time of the grant, a deny file the reason.
\<close>

record mailbox =
  m_reqs :: "(string \<times> int \<times> request_file option) list"
  m_grants :: "(string \<times> stamp option) list"
  m_denies :: "(string \<times> deny_why option) list"
  m_arbiter :: "arbiter_file option"

definition id_char :: "char \<Rightarrow> bool" where
  "id_char c = (is_lower c \<or> is_digit c)"

definition valid_id :: "string \<Rightarrow> bool" where
  "valid_id s =
     (case s of [] \<Rightarrow> False
      | c # cs \<Rightarrow> id_char c \<and> list_all (\<lambda>x. id_char x \<or> x = CHR ''-'') cs \<and> length cs \<le> 63)"

definition runsIn :: "mailbox \<Rightarrow> (num' \<times> string option) list" where
  "runsIn mb = List.map_filter (\<lambda>(x, _, f).
     if \<not> valid_id x then None
     else (case f of None \<Rightarrow> None
           | Some f \<Rightarrow>
               if is_integer (rf_pid f) \<and> 0 < rf_pid f
               then Some (rf_pid f, if rf_session f \<noteq> [] then Some (take 64 (rf_session f)) else None)
               else None)) (m_reqs mb)"

section \<open>Reading the requests\<close>

datatype gone_reason = ProcessGone int | NoHeartbeat int

datatype slot_event =
    Freed num' string string gone_reason
  | Refused string string num' deny_why
  | OverItsLimit "(unity_kind \<times> string option \<times> int) list"
  | BackWithinLimit
  | WaitedOnRam nat
  | OtherArbiter int
  | NewerTwin int

text \<open>What the arbiter asks of its machine; the times of the two halves of a look.\<close>

record env =
  e_platform :: platform
  e_procs :: "proc list"
  e_alive :: "int \<Rightarrow> bool"
  e_readAt :: int
  e_now :: int
  e_limit :: "num' option"
  e_places :: "place list"
  e_ramPct :: "num' option"
  e_ramLimitPct :: "num' option"
  e_holderWaitMs :: "int option"
  e_staleMs :: "int option"
  e_machine :: "string option"
  e_pid :: int
  e_started :: int
  e_hasTwinHook :: bool

definition stale_ms :: "env \<Rightarrow> int" where
  "stale_ms e = (case e_staleMs e of Some s \<Rightarrow> s | None \<Rightarrow> STALE_MS)"

definition file_ok :: "string \<Rightarrow> request_file option \<Rightarrow> bool" where
  "file_ok x f = (case f of None \<Rightarrow> False | Some f \<Rightarrow> rf_id f = x \<and> is_integer (rf_pid f) \<and> 0 < rf_pid f)"

definition pid_of :: "request_file \<Rightarrow> int" where
  "pid_of f = floor (rf_pid f)"

definition gone_why :: "env \<Rightarrow> int \<Rightarrow> request_file \<Rightarrow> gone_reason option" where
  "gone_why e mtime f =
     (if \<not> e_alive e (pid_of f) then Some (ProcessGone (pid_of f))
      else if stale_ms e < e_readAt e - mtime then Some (NoHeartbeat (js_round (of_int (e_readAt e - mtime) / 1000)))
      else None)"

definition label_of :: "request_file \<Rightarrow> string" where
  "label_of f = take 120 (if rf_label f \<noteq> [] then rf_label f else ''pid '' @ show_nat (nat (pid_of f)))"

definition parse_or :: "stamp \<Rightarrow> int \<Rightarrow> int" where
  "parse_or s d = (case stamp_ms s of Some t \<Rightarrow> if t \<noteq> 0 then t else d | None \<Rightarrow> d)"

text \<open>\<open>readJson\<close> of an answer file: its content, \<open>None\<close> when there is none that reads.\<close>

definition read_file :: "(string \<times> 'v option) list \<Rightarrow> string \<Rightarrow> 'v option" where
  "read_file fs x = (case map_of fs x of Some v \<Rightarrow> v | None \<Rightarrow> None)"

definition to_request :: "mailbox \<Rightarrow> string \<Rightarrow> int \<Rightarrow> request_file \<Rightarrow> slot_request" where
  "to_request mb x mtime f =
     \<lparr>rid = x,
      holder = take 80 (if rf_holder f \<noteq> [] then rf_holder f else ''pid:'' @ show_nat (nat (pid_of f))),
      count = rf_count f,
      rpid = pid_of f,
      label = label_of f,
      projects = map_option (take 8) (rf_projects f),
      session = (if rf_session f \<noteq> [] then Some (take 80 (rf_session f)) else None),
      createdAt = parse_or (rf_createdAt f) mtime,
      grantedAt = map_option (\<lambda>s. parse_or s mtime) (read_file (m_grants mb) x),
      denied = read_file (m_denies mb) x\<rparr>"

record reading =
  r_out :: "slot_request list"
  r_box :: mailbox
  r_events :: "slot_event list"

definition drop_request :: "string \<Rightarrow> mailbox \<Rightarrow> mailbox" where
  "drop_request x mb = mb\<lparr>m_reqs := AList.delete x (m_reqs mb)\<rparr>"

definition drop_files :: "string \<Rightarrow> mailbox \<Rightarrow> mailbox" where
  "drop_files x mb = mb\<lparr>m_reqs := AList.delete x (m_reqs mb), m_grants := AList.delete x (m_grants mb),
     m_denies := AList.delete x (m_denies mb)\<rparr>"

text \<open>One name of the listing.\<close>

definition read_one :: "env \<Rightarrow> string \<times> int \<times> request_file option \<Rightarrow> reading \<Rightarrow> reading" where
  "read_one e entry rd =
     (case entry of (x, mtime, content) \<Rightarrow>
        if \<not> valid_id x then rd
        else if \<not> file_ok x content then
          (if stale_ms e < e_readAt e - mtime then rd\<lparr>r_box := drop_request x (r_box rd)\<rparr> else rd)
        else
          (let f = the content; granted = read_file (m_grants (r_box rd)) x; refused = read_file (m_denies (r_box rd)) x
           in case gone_why e mtime f of
                Some why \<Rightarrow>
                  rd\<lparr>r_box := drop_files x (r_box rd),
                     r_events := r_events rd @
                       (if granted \<noteq> None \<and> refused = None
                        then [Freed (rf_count f) (label_of f) (rf_holder f) why] else [])\<rparr>
              | None \<Rightarrow> rd\<lparr>r_out := r_out rd @ [to_request (r_box rd) x mtime f]\<rparr>))"

text \<open>Answers whose request is gone (released) are removed.\<close>

definition drop_orphans :: "string list \<Rightarrow> mailbox \<Rightarrow> mailbox" where
  "drop_orphans live mb =
     mb\<lparr>m_grants := fold AList.delete (filter (\<lambda>x. x \<notin> set live) (map fst (m_grants mb))) (m_grants mb),
        m_denies := fold AList.delete (filter (\<lambda>x. x \<notin> set live) (map fst (m_denies mb))) (m_denies mb)\<rparr>"

definition readRequests :: "env \<Rightarrow> mailbox \<Rightarrow> reading" where
  "readRequests e mb =
     (let rd = fold (read_one e) (m_reqs mb) \<lparr>r_out = [], r_box = mb, r_events = []\<rparr>
      in rd\<lparr>r_box := drop_orphans (map rid (r_out rd)) (r_box rd)\<rparr>)"

section \<open>The arbiter\<close>

record last_look =
  l_a :: assessment
  l_reqs :: "slot_request list"
  l_ramPct :: "num' option"
  l_at :: int

record arbiter =
  ar_instance :: string
  ar_yielded :: bool
  ar_foreign :: "string list"
  ar_last :: "last_look option"
  ar_overSince :: int
  ar_ramSince :: int
  ar_closed :: bool

definition new_arbiter :: "string \<Rightarrow> arbiter" where
  "new_arbiter x = \<lparr>ar_instance = x, ar_yielded = False, ar_foreign = [], ar_last = None,
     ar_overSince = 0, ar_ramSince = 0, ar_closed = False\<rparr>"

definition close_arbiter :: "arbiter \<Rightarrow> arbiter" where
  "close_arbiter st = st\<lparr>ar_closed := True\<rparr>"

definition input_of :: "env \<Rightarrow> slot_request list \<Rightarrow> assess_input" where
  "input_of e rs =
     \<lparr>i_platform = e_platform e, i_procs = e_procs e, i_requests = rs, i_places = e_places e,
      i_limit = e_limit e, i_now = e_now e, i_ramPct = e_ramPct e, i_ramLimitPct = e_ramLimitPct e,
      i_holderWaitMs = e_holderWaitMs e\<rparr>"

text \<open>The grants and refusals of a look: files for the clients, marks on the requests read.\<close>

definition write_answers :: "env \<Rightarrow> assessment \<Rightarrow> mailbox \<Rightarrow> mailbox" where
  "write_answers e a mb =
     mb\<lparr>m_grants := fold (\<lambda>x. AList.update x (Some (At (e_now e)))) (a_grant a) (m_grants mb),
        m_denies := fold (\<lambda>(x, w). AList.update x (Some w)) (a_deny a) (m_denies mb)\<rparr>"

definition mark_answers :: "env \<Rightarrow> assessment \<Rightarrow> slot_request list \<Rightarrow> slot_request list" where
  "mark_answers e a rs =
     map (\<lambda>r. let r1 = (if rid r \<in> set (a_grant a) then r\<lparr>grantedAt := Some (e_now e)\<rparr> else r)
              in (case map_of (rev (a_deny a)) (rid r) of Some w \<Rightarrow> r1\<lparr>denied := Some w\<rparr> | None \<Rightarrow> r1)) rs"

definition refusal_events :: "assessment \<Rightarrow> slot_request list \<Rightarrow> slot_event list" where
  "refusal_events a rs =
     List.map_filter (\<lambda>(x, w). map_option (\<lambda>r. Refused (label r) (holder r) (count r) w) (find (\<lambda>r. rid r = x) rs)) (a_deny a)"

text \<open>\<open>notices\<close>: over the limit and back, once each; a long wait on RAM, once an episode.\<close>

definition notices :: "assessment \<Rightarrow> int \<Rightarrow> arbiter \<Rightarrow> arbiter \<times> slot_event list" where
  "notices a now st =
     (let (st1, ev1) =
            (if a_overLimit a \<and> ar_overSince st = 0 then
               (st\<lparr>ar_overSince := now\<rparr>, [OverItsLimit (map (\<lambda>u. (ukind u, project u, upid u)) (a_outside a))])
             else if \<not> a_overLimit a \<and> ar_overSince st \<noteq> 0 then (st\<lparr>ar_overSince := 0\<rparr>, [BackWithinLimit])
             else (st, []))
      in if a_ramBlocked a \<and> a_waiting a \<noteq> [] then
           (if ar_ramSince st1 = 0 then (st1\<lparr>ar_ramSince := now\<rparr>, ev1)
            else if 0 < ar_ramSince st1 \<and> 10 * 60000 < now - ar_ramSince st1 then
              (st1\<lparr>ar_ramSince := - 1\<rparr>, ev1 @ [WaitedOnRam (length (a_waiting a))])
            else (st1, ev1))
         else (st1\<lparr>ar_ramSince := 0\<rparr>, ev1))"

definition arbiterFile :: "env \<Rightarrow> arbiter \<Rightarrow> last_look \<Rightarrow> arbiter_file" where
  "arbiterFile e st l =
     \<lparr>af_pid = e_pid e, af_instance = ar_instance st, af_machine = e_machine e,
      af_startedAt = Some (At (e_started e)), af_at = At (l_at l), af_limit = a_limit (l_a l), af_used = a_used (l_a l),
      af_waiting = List.map_filter (\<lambda>(x, n, w).
        map_option (\<lambda>r. (x, label r, count r, holder r, n, w)) (find (\<lambda>r. rid r = x) (l_reqs l))) (a_waiting (l_a l)),
      af_granted = map (\<lambda>r. (rid r, label r, count r, holder r))
        (filter (\<lambda>r. grantedAt r \<noteq> None \<and> denied r = None) (l_reqs l))\<rparr>"

definition fresh_file :: "int \<Rightarrow> arbiter_file \<Rightarrow> bool" where
  "fresh_file now f = (case stamp_ms (af_at f) of Some t \<Rightarrow> now - t \<le> ARBITER_FRESH_MS | None \<Rightarrow> False)"

text \<open>Another live arbiter on this mailbox.\<close>

definition other_arbiter :: "env \<Rightarrow> arbiter \<Rightarrow> mailbox \<Rightarrow> arbiter_file option" where
  "other_arbiter e st mb =
     (case m_arbiter mb of
        None \<Rightarrow> None
      | Some f \<Rightarrow>
          if af_instance f \<noteq> [] \<and> af_instance f \<noteq> ar_instance st \<and> fresh_file (e_now e) f \<and> e_alive e (af_pid f)
          then Some f else None)"

definition newer_twin :: "env \<Rightarrow> arbiter_file \<Rightarrow> bool" where
  "newer_twin e f =
     (e_hasTwinHook e \<and> (case e_machine e of Some m \<Rightarrow> m \<noteq> [] \<and> af_machine f = Some m | None \<Rightarrow> False) \<and>
      (case af_startedAt f of
         Some s \<Rightarrow> (case stamp_ms s of Some t \<Rightarrow> e_started e < t | None \<Rightarrow> False)
       | None \<Rightarrow> False))"

text \<open>The second half of a look: decide, write the answers, tell, write arbiter.json.\<close>

definition look_finish :: "env \<Rightarrow> slot_request list \<Rightarrow> arbiter \<Rightarrow> mailbox \<Rightarrow> assessment \<times> arbiter \<times> mailbox \<times> slot_event list" where
  "look_finish e rs st mb =
     (let a = assess (input_of e rs)
      in if ar_closed st then (a, st, mb, [])
         else
           (let mb1 = write_answers e a mb;
                ev0 = refusal_events a rs;
                l = \<lparr>l_a = a, l_reqs = mark_answers e a rs, l_ramPct = e_ramPct e, l_at = e_now e\<rparr>;
                (st1, ev1) = notices a (e_now e) (st\<lparr>ar_last := Some l\<rparr>)
            in case other_arbiter e st1 mb1 of
                 Some f \<Rightarrow>
                   if newer_twin e f then
                     (a, st1\<lparr>ar_yielded := True\<rparr>, mb1,
                      ev0 @ ev1 @ (if ar_yielded st1 then [] else [NewerTwin (af_pid f)]))
                   else
                     (let st2 = (if af_instance f \<in> set (ar_foreign st1) then st1
                                 else st1\<lparr>ar_foreign := ar_foreign st1 @ [af_instance f]\<rparr>);
                          ev2 = (if af_instance f \<in> set (ar_foreign st1) then [] else [OtherArbiter (af_pid f)])
                      in (a, st2, mb1\<lparr>m_arbiter := Some (arbiterFile e st2 l)\<rparr>, ev0 @ ev1 @ ev2))
               | None \<Rightarrow> (a, st1, mb1\<lparr>m_arbiter := Some (arbiterFile e st1 l)\<rparr>, ev0 @ ev1)))"

text \<open>A look nothing comes between: \<open>None\<close> is the error of a closed arbiter.\<close>

definition look :: "env \<Rightarrow> arbiter \<Rightarrow> mailbox \<Rightarrow> (assessment \<times> arbiter \<times> mailbox \<times> slot_event list) option" where
  "look e st mb =
     (if ar_closed st then None
      else (let rd = readRequests e mb; (a, st', mb', ev) = look_finish e (r_out rd) st (r_box rd)
            in Some (a, st', mb', r_events rd @ ev)))"

section \<open>Whether an editor may start now\<close>

datatype start_why = DenyWhy deny_why | WaitWhy wait_why | NoFreeSlot

definition editor_probe :: "string \<Rightarrow> int \<Rightarrow> slot_request" where
  "editor_probe h now = \<lparr>rid = ''~editor'', holder = h, count = 1, rpid = - 1, label = ''editor of '' @ h,
     projects = None, session = None, createdAt = now + 1, grantedAt = None, denied = None\<rparr>"

text \<open>
  \<open>startRefusal\<close> after its own look: \<open>None\<close> is "may start"; else why not and how many wait ahead.
\<close>

definition startRefusal :: "env \<Rightarrow> string \<Rightarrow> arbiter \<Rightarrow> (start_why \<times> nat) option" where
  "startRefusal e h st =
     (if e_limit e = None then None
      else
        (let rs = (case ar_last st of Some l \<Rightarrow> l_reqs l | None \<Rightarrow> []);
             a = assess (input_of e (rs @ [editor_probe h (e_now e)]))
         in if ''~editor'' \<in> set (a_grant a) then None
            else Some
              (case map_of (a_deny a) ''~editor'' of
                 Some w \<Rightarrow> DenyWhy w
               | None \<Rightarrow> (case map_of (a_waiting a) ''~editor'' of Some (_, w) \<Rightarrow> WaitWhy w | None \<Rightarrow> NoFreeSlot),
               length (filter (\<lambda>x. fst x \<noteq> ''~editor'') (a_waiting a)))))"

section \<open>What the portal is told\<close>

record slots_report =
  sr_limit :: "num' option"
  sr_used :: num'
  sr_starting :: num'
  sr_interactive :: nat
  sr_batch :: nat
  sr_outside :: nat
  sr_players :: nat
  sr_overLimit :: bool
  sr_ramPct :: "num' option"
  sr_ramLimitPct :: num'
  sr_waiting :: "(string \<times> num' \<times> string \<times> int \<times> wait_why \<times> nat \<times> string option) list"
  sr_granted :: "(string \<times> num' \<times> string \<times> int) list"
  sr_at :: int

definition report :: "env \<Rightarrow> arbiter \<Rightarrow> slots_report option" where
  "report e st =
     (case ar_last st of
        None \<Rightarrow> None
      | Some l \<Rightarrow>
          Some \<lparr>sr_limit = a_limit (l_a l), sr_used = a_used (l_a l), sr_starting = a_starting (l_a l),
            sr_interactive = a_interactive (l_a l), sr_batch = a_batch (l_a l), sr_outside = length (a_outside (l_a l)),
            sr_players = a_players (l_a l), sr_overLimit = a_overLimit (l_a l), sr_ramPct = l_ramPct l,
            sr_ramLimitPct = (case e_ramLimitPct e of Some p \<Rightarrow> p | None \<Rightarrow> UNITY_RAM_PCT),
            sr_waiting = List.map_filter (\<lambda>(x, n, w).
              map_option (\<lambda>r. (label r, count r, holder r, createdAt r, w, n, session r)) (find (\<lambda>r. rid r = x) (l_reqs l)))
              (a_waiting (l_a l)),
            sr_granted = List.map_filter (\<lambda>r. if denied r \<noteq> None then None
                else map_option (\<lambda>t. (label r, count r, holder r, t)) (grantedAt r)) (l_reqs l),
            sr_at = l_at l\<rparr>)"

section \<open>The client\<close>

record acquire_opts =
  o_count :: num'
  o_label :: string
  o_holder :: string
  o_projects :: "string list"
  o_session :: string
  o_timeoutMs :: "int option"
  o_arbiterGraceMs :: "int option"

definition arbiterNow :: "mailbox \<Rightarrow> int \<Rightarrow> arbiter_file option" where
  "arbiterNow mb now =
     (case m_arbiter mb of Some f \<Rightarrow> if fresh_file now f then Some f else None | None \<Rightarrow> None)"

definition request_body :: "string \<Rightarrow> int \<Rightarrow> int \<Rightarrow> acquire_opts \<Rightarrow> request_file" where
  "request_body x p now o' =
     \<lparr>rf_id = x, rf_pid = of_int p,
      rf_holder = (if o_holder o' \<noteq> [] then o_holder o' else ''pid:'' @ show_nat (nat p)),
      rf_count = o_count o', rf_label = take 120 (o_label o'),
      rf_projects = (if o_projects o' \<noteq> [] then Some (o_projects o') else None),
      rf_session = o_session o', rf_createdAt = At now\<rparr>"

definition put_request :: "int \<Rightarrow> request_file \<Rightarrow> mailbox \<Rightarrow> mailbox" where
  "put_request now f mb = mb\<lparr>m_reqs := AList.update (rf_id f) (now, Some f) (m_reqs mb)\<rparr>"

record client =
  cl_body :: request_file
  cl_started :: int
  cl_goneSince :: int

datatype acquire_start = UngatedNow | Asking client

text \<open>\<open>acquire\<close> up to its wait loop: without a fresh arbiter the launch goes ungated at once.\<close>

definition acquire_begin :: "string \<Rightarrow> int \<Rightarrow> int \<Rightarrow> acquire_opts \<Rightarrow> mailbox \<Rightarrow> acquire_start \<times> mailbox" where
  "acquire_begin x p now o' mb =
     (if arbiterNow mb now = None then (UngatedNow, mb)
      else (let f = request_body x p now o'
            in (Asking \<lparr>cl_body = f, cl_started = now, cl_goneSince = 0\<rparr>, put_request now f mb)))"

datatype acquire_answer =
    RefusedBy deny_why
  | Granted
  | UngatedAway int
  | GaveUp int
  | AskAgain client

text \<open>One round of the wait loop (the sleep between rounds is the next call).\<close>

definition acquire_poll :: "acquire_opts \<Rightarrow> int \<Rightarrow> client \<Rightarrow> mailbox \<Rightarrow> acquire_answer \<times> mailbox" where
  "acquire_poll o' now cl mb =
     (let x = rf_id (cl_body cl)
      in case read_file (m_denies mb) x of
           Some w \<Rightarrow> (RefusedBy w, drop_files x mb)
         | None \<Rightarrow>
             if map_of (m_grants mb) x \<noteq> None then (Granted, mb)
             else
               (let mb1 = (if map_of (m_reqs mb) x = None then put_request now (cl_body cl) mb else mb);
                    away = (arbiterNow mb1 now = None);
                    since = (if \<not> away then 0 else if cl_goneSince cl \<noteq> 0 then cl_goneSince cl else now);
                    grace = (case o_arbiterGraceMs o' of Some g \<Rightarrow> g | None \<Rightarrow> 10 * 60000)
                in if away \<and> grace < now - since then
                     (UngatedAway (js_round (of_int (now - since) / 60000)), drop_files x mb1)
                   else if (case o_timeoutMs o' of Some t \<Rightarrow> t < now - cl_started cl | None \<Rightarrow> False) then
                     (GaveUp (js_round (of_int (now - cl_started cl) / 60000)), drop_files x mb1)
                   else (AskAgain (cl\<lparr>cl_goneSince := since\<rparr>), mb1)))"

text \<open>The heartbeat touches the request file; releasing removes the three files.\<close>

definition touch_request :: "int \<Rightarrow> string \<Rightarrow> mailbox \<Rightarrow> mailbox" where
  "touch_request now x mb = mb\<lparr>m_reqs := AList.map_entry x (\<lambda>(_, f). (now, f)) (m_reqs mb)\<rparr>"

definition release_request :: "string \<Rightarrow> mailbox \<Rightarrow> mailbox" where
  "release_request x mb = drop_files x mb"

end
