(* ===== verification/SlotSystem.thy ===== *)
theory SlotSystem
  imports SlotArbiterLaws
begin

text \<open>
  The whole gate: one arbiter, its mailbox and any number of clients, run in any order of moves.
  A look of the arbiter is two moves (it reads the requests, then waits for the process listing,
  then decides and writes), so clients ask, beat, give up and release between them; a client may
  also crash at any point and the daemon may stop and start again.
\<close>

section \<open>The world and its moves\<close>

datatype phase = Waiting | Holding | Ended

record slot_client =
  sc_client :: client
  sc_opts :: acquire_opts
  sc_phase :: phase

record slot_world =
  w_arbiter :: arbiter
  w_box :: mailbox
  w_read :: "slot_request list option"
  w_clients :: "(string \<times> slot_client) list"

datatype slot_move =
    Begin string int int acquire_opts
  | Poll string int
  | Beat string int
  | Release string
  | Crash string
  | ReadBox env
  | Finish env
  | CloseArbiter
  | StartArbiter string

definition empty_box :: mailbox where
  "empty_box = \<lparr>m_reqs = [], m_grants = [], m_denies = [], m_arbiter = None\<rparr>"

definition first_world :: "string \<Rightarrow> slot_world" where
  "first_world x = \<lparr>w_arbiter = new_arbiter x, w_box = empty_box, w_read = None, w_clients = []\<rparr>"

definition set_phase :: "string \<Rightarrow> slot_client \<Rightarrow> phase \<Rightarrow> slot_world \<Rightarrow> slot_world" where
  "set_phase x c p w = w\<lparr>w_clients := AList.update x (c\<lparr>sc_phase := p\<rparr>) (w_clients w)\<rparr>"

definition client_begin :: "string \<Rightarrow> int \<Rightarrow> int \<Rightarrow> acquire_opts \<Rightarrow> slot_world \<Rightarrow> slot_world" where
  "client_begin x p now o' w =
     (case acquire_begin x p now o' (w_box w) of
        (UngatedNow, _) \<Rightarrow> w
      | (Asking cl, mb) \<Rightarrow>
          w\<lparr>w_box := mb, w_clients := AList.update x \<lparr>sc_client = cl, sc_opts = o', sc_phase = Waiting\<rparr> (w_clients w)\<rparr>)"

definition client_poll :: "string \<Rightarrow> slot_client \<Rightarrow> int \<Rightarrow> slot_world \<Rightarrow> slot_world" where
  "client_poll x c now w =
     (let (ans, mb) = acquire_poll (sc_opts c) now (sc_client c) (w_box w); w1 = w\<lparr>w_box := mb\<rparr>
      in case ans of
           Granted \<Rightarrow> set_phase x c Holding w1
         | AskAgain cl \<Rightarrow> set_phase x (c\<lparr>sc_client := cl\<rparr>) Waiting w1
         | _ \<Rightarrow> set_phase x c Ended w1)"

text \<open>One move: \<open>None\<close> when it is not possible (the client is not in that phase, no look under way).\<close>

fun slot_step :: "slot_move \<Rightarrow> slot_world \<Rightarrow> slot_world option" where
  "slot_step (Begin x p now o') w =
     (if map_of (w_clients w) x = None then Some (client_begin x p now o' w) else None)"
| "slot_step (Poll x now) w =
     (case map_of (w_clients w) x of
        Some c \<Rightarrow> if sc_phase c = Waiting then Some (client_poll x c now w) else None
      | None \<Rightarrow> None)"
| "slot_step (Beat x now) w =
     (case map_of (w_clients w) x of
        Some c \<Rightarrow> if sc_phase c \<noteq> Ended then Some (w\<lparr>w_box := touch_request now x (w_box w)\<rparr>) else None
      | None \<Rightarrow> None)"
| "slot_step (Release x) w =
     (case map_of (w_clients w) x of
        Some c \<Rightarrow> if sc_phase c = Holding then Some (set_phase x c Ended (w\<lparr>w_box := release_request x (w_box w)\<rparr>)) else None
      | None \<Rightarrow> None)"
| "slot_step (Crash x) w =
     (case map_of (w_clients w) x of Some c \<Rightarrow> Some (set_phase x c Ended w) | None \<Rightarrow> None)"
| "slot_step (ReadBox e) w =
     (if ar_closed (w_arbiter w) \<or> w_read w \<noteq> None then None
      else (let rd = readRequests e (w_box w) in Some (w\<lparr>w_box := r_box rd, w_read := Some (r_out rd)\<rparr>)))"
| "slot_step (Finish e) w =
     (case w_read w of
        None \<Rightarrow> None
      | Some rs \<Rightarrow>
          (let (a, st, mb, ev) = look_finish e rs (w_arbiter w) (w_box w)
           in Some (w\<lparr>w_arbiter := st, w_box := mb, w_read := None\<rparr>)))"
| "slot_step CloseArbiter w = Some (w\<lparr>w_arbiter := close_arbiter (w_arbiter w)\<rparr>)"
| "slot_step (StartArbiter x) w =
     (if ar_closed (w_arbiter w) \<and> w_read w = None then Some (w\<lparr>w_arbiter := new_arbiter x\<rparr>) else None)"

text \<open>Every look of the run has the machine's limit \<open>l\<close>.\<close>

fun limited :: "num' \<Rightarrow> slot_move \<Rightarrow> bool" where
  "limited l (Finish e) = (e_limit e = Some l)"
| "limited l _ = True"

inductive slots_reach :: "num' \<Rightarrow> slot_world \<Rightarrow> bool" for l where
  start: "slots_reach l (first_world x)"
| move: "slots_reach l w \<Longrightarrow> limited l m \<Longrightarrow> slot_step m w = Some w' \<Longrightarrow> slots_reach l w'"

text \<open>The slots the files say are held: a request with its grant beside it.\<close>

definition held_slots :: "mailbox \<Rightarrow> num'" where
  "held_slots mb =
     sum_list (map (\<lambda>(x, t, f). case f of Some f \<Rightarrow> if map_of (m_grants mb) x \<noteq> None then rf_count f else 0 | None \<Rightarrow> 0)
       (m_reqs mb))"

section \<open>Reservations count\<close>

definition reserved_pids :: "buckets \<Rightarrow> num'" where
  "reserved_pids bs = sum_list (map (\<lambda>(k, b). case k of PidKey _ \<Rightarrow> reserved b | PathKey _ \<Rightarrow> 0) bs)"

definition granted_now :: "slot_request \<Rightarrow> bool" where
  "granted_now r = (grantedAt r \<noteq> None \<and> denied r = None)"

definition granted_count :: "slot_request list \<Rightarrow> num'" where
  "granted_count rs = sum_list (map (\<lambda>r. if granted_now r then count r else 0) rs)"

lemma sum_update:
  fixes g :: "'k \<times> 'b \<Rightarrow> num'"
  assumes "distinct (map fst bs)"
  shows "sum_list (map g (AList.update k v bs)) =
    sum_list (map g bs) + g (k, v) - (case map_of bs k of Some b \<Rightarrow> g (k, b) | None \<Rightarrow> 0)"
  using assms
proof (induction bs)
  case (Cons a bs)
  have "k \<notin> fst ` set bs" if "fst a = k" using Cons.prems that by auto
  then have "map_of bs k = None" if "fst a = k" using that by (simp add: map_of_eq_None_iff)
  with Cons show ?case by (cases a) auto
qed simp

lemma reserved_pids_with_bucket:
  assumes "distinct (map fst bs)"
  shows "reserved_pids (with_bucket k h f bs) =
    reserved_pids bs + (case k of PathKey _ \<Rightarrow> 0 | PidKey _ \<Rightarrow>
      (case map_of bs k of Some b \<Rightarrow> reserved (f b) - reserved b
       | None \<Rightarrow> reserved (f \<lparr>b_holder = h, reserved = 0, bprocs = 0\<rparr>)))"
  unfolding reserved_pids_def with_bucket_def sum_update [OF assms]
  by (auto split: option.splits bkey.splits)

lemma reserved_requests:
  "distinct (map fst bs) \<Longrightarrow>
   reserved_pids (fold request_bucket rs bs) = reserved_pids bs + granted_count rs"
proof (induction rs arbitrary: bs)
  case (Cons r rs)
  have "reserved_pids (request_bucket r bs) = reserved_pids bs + (if granted_now r then count r else 0)"
    unfolding request_bucket_def reserved_pids_with_bucket [OF Cons.prems]
    by (auto simp: granted_now_def split: option.splits)
  then show ?case
    using Cons.IH [of "request_bucket r bs"] Cons.prems
    by (simp add: request_bucket_def distinct_with_bucket granted_count_def)
qed (simp add: granted_count_def)

lemma reserved_places:
  "distinct (map fst bs) \<Longrightarrow> reserved_pids (fold (place_bucket pf) ps bs) = reserved_pids bs"
proof (induction ps arbitrary: bs)
  case (Cons pl ps)
  then show ?case
    by (simp add: place_bucket_def distinct_with_bucket reserved_pids_with_bucket)
qed simp

lemma distinct_requests: "distinct (map fst bs) \<Longrightarrow> distinct (map fst (fold request_bucket rs bs))"
  by (induction rs arbitrary: bs) (simp_all add: request_bucket_def distinct_with_bucket)

lemma reserved_first: "reserved_pids (first_buckets i) = granted_count (i_requests i)"
proof -
  have "reserved_pids (fold request_bucket (i_requests i) []) = granted_count (i_requests i)"
    using reserved_requests [of "[]" "i_requests i"] by (simp add: reserved_pids_def [of "[]"])
  then show ?thesis
    by (simp add: first_buckets_def reserved_places distinct_requests)
qed

lemma reserved_bump: "reserved_pids (bump k bs) = reserved_pids bs"
  unfolding reserved_pids_def bump_def
  by (induction bs) (auto split: bkey.splits)

lemma reserved_place_unit: "reserved_pids (fst (place_unit i u (bs, outs))) = reserved_pids bs"
  by (auto simp: place_unit_def reserved_bump split: option.splits)

lemma reserved_fold: "reserved_pids (fst (fold (place_unit i) us (bs, outs))) = reserved_pids bs"
proof (induction us arbitrary: bs outs)
  case (Cons u us)
  show ?case
    using Cons [of "fst (place_unit i u (bs, outs))" "snd (place_unit i u (bs, outs))"]
    by (simp add: reserved_place_unit)
qed simp

lemma reserved_count_slots: "reserved_pids (c_buckets (count_slots i)) = granted_count (i_requests i)"
  using reserved_fold [of i "unityProcesses (i_procs i) (i_platform i)" "first_buckets i" "[]"]
  by (simp add: count_slots_def Let_def reserved_first split_def)

text \<open>No bucket counts fewer than zero processes, so every other bucket only adds to what is in use.\<close>

definition procs_ok :: "buckets \<Rightarrow> bool" where
  "procs_ok bs = (\<forall>b \<in> snd ` set bs. 0 \<le> bprocs b)"

lemma procs_ok_update: "procs_ok bs \<Longrightarrow> 0 \<le> bprocs b \<Longrightarrow> procs_ok (AList.update k b bs)"
  by (induction bs) (auto simp: procs_ok_def)

lemma procs_ok_get: "procs_ok bs \<Longrightarrow> map_of bs k = Some b \<Longrightarrow> 0 \<le> bprocs b"
  unfolding procs_ok_def by (drule map_of_SomeD) force

lemma procs_ok_with_bucket:
  assumes "procs_ok bs" and "\<And>b. bprocs (f b) = bprocs b"
  shows "procs_ok (with_bucket k h f bs)"
  unfolding with_bucket_def
proof (rule procs_ok_update [OF assms(1)])
  show "0 \<le> bprocs (f (case map_of bs k of Some b \<Rightarrow> b | None \<Rightarrow> \<lparr>b_holder = h, reserved = 0, bprocs = 0\<rparr>))"
    using procs_ok_get [OF assms(1), of k] by (simp add: assms(2) split: option.splits)
qed

lemma procs_ok_bump: "procs_ok bs \<Longrightarrow> procs_ok (bump k bs)"
proof (induction bs)
  case (Cons a bs)
  then show ?case by (cases a) (auto simp: procs_ok_def bump_def)
qed (simp add: procs_ok_def bump_def)

lemma procs_ok_fold:
  assumes "\<And>x bs. procs_ok bs \<Longrightarrow> procs_ok (g x bs)"
  shows "procs_ok bs \<Longrightarrow> procs_ok (fold g xs bs)"
  by (induction xs arbitrary: bs) (auto intro: assms)

lemma procs_ok_place_units:
  "procs_ok bs \<Longrightarrow> procs_ok (fst (fold (place_unit i) us (bs, outs)))"
proof (induction us arbitrary: bs outs)
  case (Cons u us)
  have "procs_ok (fst (place_unit i u (bs, outs)))"
    using Cons.prems by (auto simp: place_unit_def procs_ok_bump split: option.splits)
  from Cons.IH [OF this, of "snd (place_unit i u (bs, outs))"] show ?case by simp
qed simp

lemma procs_ok_count_slots: "procs_ok (c_buckets (count_slots i))"
proof -
  have "procs_ok (fold request_bucket (i_requests i) [])"
    by (rule procs_ok_fold) (auto simp: request_bucket_def procs_ok_def [of "[]"] intro!: procs_ok_with_bucket)
  then have "procs_ok (first_buckets i)"
    unfolding first_buckets_def
    by (rule procs_ok_fold [rotated]) (auto simp: place_bucket_def intro!: procs_ok_with_bucket)
  from procs_ok_place_units [OF this] show ?thesis
    by (simp add: count_slots_def Let_def split_def)
qed

lemma granted_count_le_used: "granted_count (i_requests i) \<le> used_slots (count_slots i)"
proof -
  have "reserved_pids bs \<le> sum_list (map (\<lambda>(k, b). in_use b) bs)" if "procs_ok bs" for bs
    unfolding reserved_pids_def
    by (rule sum_list_mono) (use that in \<open>force simp: procs_ok_def in_use_def split: bkey.splits\<close>)
  from this [OF procs_ok_count_slots [of i]] show ?thesis
    by (simp add: used_slots_def reserved_count_slots)
qed

section \<open>What every world keeps\<close>

text \<open>The request every client ever made, by id: what its file says whenever there is one.\<close>

definition bodies :: "(string \<times> slot_client) list \<Rightarrow> string \<Rightarrow> request_file option" where
  "bodies cs x = map_option (\<lambda>c. cl_body (sc_client c)) (map_of cs x)"

definition box_ok :: "(string \<Rightarrow> request_file option) \<Rightarrow> mailbox \<Rightarrow> bool" where
  "box_ok B mb =
     (distinct (map fst (m_reqs mb)) \<and>
      (\<forall>x t f. map_of (m_reqs mb) x = Some (t, f) \<longrightarrow> f \<noteq> None \<and> f = B x) \<and>
      (\<forall>x v. map_of (m_grants mb) x = Some v \<longrightarrow>
         v \<noteq> None \<and> map_of (m_denies mb) x = None \<and> (\<exists>f. B x = Some f \<and> 1 \<le> rf_count f)) \<and>
      (\<forall>x v. map_of (m_denies mb) x = Some v \<longrightarrow> v \<noteq> None \<and> B x \<noteq> None))"

definition held_ids :: "mailbox \<Rightarrow> string set" where
  "held_ids mb = {x. map_of (m_reqs mb) x \<noteq> None \<and> map_of (m_grants mb) x \<noteq> None}"

definition read_ok :: "(string \<Rightarrow> request_file option) \<Rightarrow> mailbox \<Rightarrow> slot_request list \<Rightarrow> bool" where
  "read_ok B mb rs =
     (distinct (map rid rs) \<and> held_ids mb \<subseteq> rid ` set rs \<and>
      (\<forall>r \<in> set rs. (\<exists>f. B (rid r) = Some f \<and> count r = rf_count f) \<and> (granted_now r \<longrightarrow> 1 \<le> count r) \<and>
         (grantedAt r = None \<longrightarrow> map_of (m_grants mb) (rid r) = None) \<and>
         (denied r = None \<longrightarrow> map_of (m_denies mb) (rid r) = None) \<and>
         (grantedAt r = None \<or> denied r = None)))"

definition counted_body :: "(string \<Rightarrow> request_file option) \<Rightarrow> string \<Rightarrow> num'" where
  "counted_body B x = (case B x of Some f \<Rightarrow> rf_count f | None \<Rightarrow> 0)"

definition world_ok :: "num' \<Rightarrow> slot_world \<Rightarrow> bool" where
  "world_ok l w =
     (box_ok (bodies (w_clients w)) (w_box w) \<and>
      (\<forall>x f. bodies (w_clients w) x = Some f \<longrightarrow> rf_id f = x) \<and>
      (\<forall>rs. w_read w = Some rs \<longrightarrow> read_ok (bodies (w_clients w)) (w_box w) rs) \<and>
      sum (counted_body (bodies (w_clients w))) (held_ids (w_box w)) \<le> l)"

lemma finite_held: "finite (held_ids mb)"
  by (rule finite_subset [of _ "dom (map_of (m_reqs mb))"]) (auto simp: held_ids_def finite_dom_map_of)

lemma held_slots_sum:
  assumes "box_ok B mb"
  shows "held_slots mb = sum (counted_body B) (held_ids mb)"
proof -
  have d: "distinct (map fst (m_reqs mb))"
    using assms by (simp add: box_ok_def)
  have b: "f \<noteq> None \<and> f = B x" if "(x, t, f) \<in> set (m_reqs mb)" for x t f
    using assms map_of_is_SomeI [OF d that] by (simp add: box_ok_def)
  let ?g = "\<lambda>x. if map_of (m_grants mb) x \<noteq> None then counted_body B x else 0"
  have "held_slots mb = sum_list (map (?g \<circ> fst) (m_reqs mb))"
    unfolding held_slots_def
  proof (intro arg_cong [of _ _ sum_list] map_cong refl)
    fix en
    assume en: "en \<in> set (m_reqs mb)"
    obtain x t f where e: "en = (x, t, f)" by (cases en)
    obtain g where "f = Some g" "B x = Some g"
      using b [of x t f] en e by auto
    then show "(\<lambda>(x, t, f). case f of Some f \<Rightarrow> if map_of (m_grants mb) x \<noteq> None then rf_count f else 0 | None \<Rightarrow> 0) en = (?g \<circ> fst) en"
      by (simp add: e counted_body_def)
  qed
  also have "\<dots> = sum ?g (fst ` set (m_reqs mb))"
    using sum_list_distinct_conv_sum_set [OF d, of ?g] by (simp del: comp_apply)
  also have "\<dots> = sum (counted_body B) (held_ids mb)"
    by (rule sum.mono_neutral_cong_right) (auto simp: held_ids_def dom_map_of_conv_image_fst [symmetric] finite_dom_map_of)
  finally show ?thesis .
qed

text \<open>Moves that only remove files, or touch one.\<close>

definition box_le :: "mailbox \<Rightarrow> mailbox \<Rightarrow> bool" where
  "box_le mb' mb =
     (distinct (map fst (m_reqs mb')) \<and>
      (\<forall>x t f. map_of (m_reqs mb') x = Some (t, f) \<longrightarrow> (\<exists>t'. map_of (m_reqs mb) x = Some (t', f))) \<and>
      (\<forall>x. map_of (m_grants mb') x \<in> {None, map_of (m_grants mb) x}) \<and>
      (\<forall>x. map_of (m_denies mb') x \<in> {None, map_of (m_denies mb) x}))"

lemma in_None_eq: "a \<in> {None, b} \<Longrightarrow> a = Some v \<Longrightarrow> b = Some v"
  by auto

lemma box_le_grant: "box_le mb' mb \<Longrightarrow> map_of (m_grants mb') x = Some v \<Longrightarrow> map_of (m_grants mb) x = Some v"
  unfolding box_le_def by (blast intro: in_None_eq)

lemma box_le_deny: "box_le mb' mb \<Longrightarrow> map_of (m_denies mb') x = Some v \<Longrightarrow> map_of (m_denies mb) x = Some v"
  unfolding box_le_def by (blast intro: in_None_eq)

lemma box_le_held:
  assumes "box_le mb' mb"
  shows "held_ids mb' \<subseteq> held_ids mb"
proof
  fix x
  assume "x \<in> held_ids mb'"
  then obtain t f v where "map_of (m_reqs mb') x = Some (t, f)" "map_of (m_grants mb') x = Some v"
    by (auto simp: held_ids_def)
  moreover from this(1) assms have "map_of (m_reqs mb) x \<noteq> None"
    unfolding box_le_def by blast
  ultimately show "x \<in> held_ids mb"
    using box_le_grant [OF assms] by (simp add: held_ids_def)
qed

lemma box_le_none:
  "box_le mb' mb \<Longrightarrow> map_of (m_grants mb) x = None \<Longrightarrow> map_of (m_grants mb') x = None"
  "box_le mb' mb \<Longrightarrow> map_of (m_denies mb) x = None \<Longrightarrow> map_of (m_denies mb') x = None"
  by (auto simp: box_le_def)

lemma box_okI:
  assumes "distinct (map fst (m_reqs mb))"
    and "\<And>x t f. map_of (m_reqs mb) x = Some (t, f) \<Longrightarrow> f \<noteq> None \<and> f = B x"
    and "\<And>x v. map_of (m_grants mb) x = Some v \<Longrightarrow>
         v \<noteq> None \<and> map_of (m_denies mb) x = None \<and> (\<exists>f. B x = Some f \<and> 1 \<le> rf_count f)"
    and "\<And>x v. map_of (m_denies mb) x = Some v \<Longrightarrow> v \<noteq> None \<and> B x \<noteq> None"
  shows "box_ok B mb"
  unfolding box_ok_def
proof (intro conjI)
  show "distinct (map fst (m_reqs mb))" by (rule assms(1))
  show "\<forall>x t f. map_of (m_reqs mb) x = Some (t, f) \<longrightarrow> f \<noteq> None \<and> f = B x"
    using assms(2) by simp
  show "\<forall>x v. map_of (m_grants mb) x = Some v \<longrightarrow>
       v \<noteq> None \<and> map_of (m_denies mb) x = None \<and> (\<exists>f. B x = Some f \<and> 1 \<le> rf_count f)"
    using assms(3) by simp
  show "\<forall>x v. map_of (m_denies mb) x = Some v \<longrightarrow> v \<noteq> None \<and> B x \<noteq> None"
    using assms(4) by simp
qed

lemma box_okD:
  assumes "box_ok B mb"
  shows "distinct (map fst (m_reqs mb))"
    and "map_of (m_reqs mb) x = Some (t, f) \<Longrightarrow> f \<noteq> None \<and> f = B x"
    and "map_of (m_grants mb) x = Some v \<Longrightarrow>
         v \<noteq> None \<and> map_of (m_denies mb) x = None \<and> (\<exists>f. B x = Some f \<and> 1 \<le> rf_count f)"
    and "map_of (m_denies mb) x = Some v' \<Longrightarrow> v' \<noteq> None \<and> B x \<noteq> None"
  using assms unfolding box_ok_def by blast+

lemma box_le_ok:
  assumes le: "box_le mb' mb" and ok: "box_ok B mb"
  shows "box_ok B mb'"
proof (rule box_okI)
  show "distinct (map fst (m_reqs mb'))" using le by (simp add: box_le_def)
  show "f \<noteq> None \<and> f = B x" if "map_of (m_reqs mb') x = Some (t, f)" for x t f
    using le that box_okD(2) [OF ok] unfolding box_le_def by blast
  show "v \<noteq> None \<and> map_of (m_denies mb') x = None \<and> (\<exists>f. B x = Some f \<and> 1 \<le> rf_count f)"
    if "map_of (m_grants mb') x = Some v" for x v
    using box_okD(3) [OF ok box_le_grant [OF le that]] box_le_none(2) [OF le] by blast
  show "v \<noteq> None \<and> B x \<noteq> None" if "map_of (m_denies mb') x = Some v" for x v
    using box_okD(4) [OF ok box_le_deny [OF le that]] .
qed

lemma box_le_read: "box_le mb' mb \<Longrightarrow> read_ok B mb rs \<Longrightarrow> read_ok B mb' rs"
  using box_le_held [of mb' mb] box_le_none [of mb' mb] unfolding read_ok_def
  by (intro conjI ballI) (auto dest: subsetD)

lemma box_le_sum:
  assumes "box_le mb' mb" and "box_ok B mb"
  shows "sum (counted_body B) (held_ids mb') \<le> sum (counted_body B) (held_ids mb)"
proof (rule sum_mono2 [OF finite_held box_le_held [OF assms(1)]])
  fix x
  assume "x \<in> held_ids mb - held_ids mb'"
  then show "0 \<le> counted_body B x"
    using assms(2) by (fastforce simp: held_ids_def box_ok_def counted_body_def)
qed

lemma world_ok_le:
  assumes "world_ok l w" and "box_le (w_box w') (w_box w)"
    and "bodies (w_clients w') = bodies (w_clients w)" and "w_read w' = w_read w"
  shows "world_ok l w'"
proof -
  have "sum (counted_body (bodies (w_clients w))) (held_ids (w_box w')) \<le> l"
    using box_le_sum [OF assms(2)] assms(1) by (force simp: world_ok_def)
  then show ?thesis
    using assms box_le_ok box_le_read unfolding world_ok_def by metis
qed

lemma box_le_refl: "box_ok B mb \<Longrightarrow> box_le mb mb"
  by (auto simp: box_le_def box_ok_def)

lemma box_le_drop: "box_ok B mb \<Longrightarrow> box_le (drop_files x mb) mb"
  by (auto simp: box_le_def box_ok_def drop_files_def al.get_del al.keys_distinct_del [simplified] split: if_splits)

lemma map_entry_get: "map_of (AList.map_entry k f xs) x = (if x = k then map_option f (map_of xs k) else map_of xs x)"
  by (induction xs) auto

lemma box_le_touch: "box_ok B mb \<Longrightarrow> box_le (touch_request now x mb) mb"
  by (auto simp: box_le_def box_ok_def touch_request_def map_entry_get distinct_map_entry split: if_splits)

lemma put_request_fields [simp]:
  "m_grants (put_request now f mb) = m_grants mb" "m_denies (put_request now f mb) = m_denies mb"
  "map_of (m_reqs (put_request now f mb)) x = (if x = rf_id f then Some (now, Some f) else map_of (m_reqs mb) x)"
  by (simp_all add: put_request_def al.get_put)

lemma read_ok_more:
  "read_ok B mb rs \<Longrightarrow> (\<And>y g. B y = Some g \<Longrightarrow> B' y = Some g) \<Longrightarrow> held_ids mb' = held_ids mb \<Longrightarrow>
   m_grants mb' = m_grants mb \<Longrightarrow> m_denies mb' = m_denies mb \<Longrightarrow> read_ok B' mb' rs"
  unfolding read_ok_def by (simp; blast)

text \<open>A request file written: by a new client, or again by one that waits.\<close>

lemma world_ok_put:
  assumes w: "world_ok l w" and g: "map_of (m_grants (w_box w)) (rf_id f) = None"
    and f: "bodies (w_clients w) (rf_id f) \<in> {None, Some f}"
    and w': "w_box w' = put_request now f (w_box w)" "w_read w' = w_read w"
      "bodies (w_clients w') = (bodies (w_clients w)) (rf_id f \<mapsto> f)"
  shows "world_ok l w'"
proof -
  let ?B = "bodies (w_clients w)" and ?mb = "w_box w" and ?x = "rf_id f"
  have ok: "box_ok ?B ?mb" and held: "sum (counted_body ?B) (held_ids ?mb) \<le> l"
    and ids: "\<And>y g. ?B y = Some g \<Longrightarrow> rf_id g = y" and rd: "\<And>rs. w_read w = Some rs \<Longrightarrow> read_ok ?B ?mb rs"
    using w by (auto simp: world_ok_def)
  have le: "?B y = Some g \<Longrightarrow> (?B (?x \<mapsto> f)) y = Some g" for y g
    using f by (cases "y = ?x") auto
  have h: "held_ids (put_request now f ?mb) = held_ids ?mb"
    using g by (auto simp: held_ids_def)
  have "box_ok (?B (?x \<mapsto> f)) (put_request now f ?mb)"
  proof (rule box_okI)
    show "distinct (map fst (m_reqs (put_request now f ?mb)))"
      using al.keys_distinct_put [OF box_okD(1) [OF ok]] by (simp add: put_request_def)
  qed (use box_okD(2-4) [OF ok] le g in \<open>auto split: if_splits\<close>)
  moreover have "sum (counted_body (?B (?x \<mapsto> f))) (held_ids ?mb) = sum (counted_body ?B) (held_ids ?mb)"
    by (rule sum.cong) (use g in \<open>auto simp: held_ids_def counted_body_def\<close>)
  moreover have "read_ok (?B (?x \<mapsto> f)) (put_request now f ?mb) rs" if "w_read w = Some rs" for rs
    using rd [OF that] le h by (rule read_ok_more) simp_all
  ultimately show ?thesis
    using held ids w' h by (auto simp: world_ok_def split: if_splits)
qed

lemma bodies_update: "bodies (AList.update x c cs) = (bodies cs) (x \<mapsto> cl_body (sc_client c))"
  by (rule ext) (simp add: bodies_def al.get_put)

lemma bodies_set_phase:
  "map_of (w_clients w) x = Some c0 \<Longrightarrow> cl_body (sc_client c) = cl_body (sc_client c0) \<Longrightarrow>
   bodies (w_clients (set_phase x c p w)) = bodies (w_clients w)"
  by (rule ext) (simp add: set_phase_def bodies_def al.get_put)

lemma set_phase_fields [simp]:
  "w_box (set_phase x c p w) = w_box w" "w_read (set_phase x c p w) = w_read w"
  "w_arbiter (set_phase x c p w) = w_arbiter w"
  by (simp_all add: set_phase_def)

lemma world_ok_phase:
  "world_ok l w \<Longrightarrow> map_of (w_clients w) x = Some c0 \<Longrightarrow> cl_body (sc_client c) = cl_body (sc_client c0) \<Longrightarrow>
   world_ok l (set_phase x c p w)"
  unfolding world_ok_def by (simp add: bodies_set_phase)

lemma world_ok_fresh: "world_ok l w \<Longrightarrow> bodies (w_clients w) x = None \<Longrightarrow> map_of (m_grants (w_box w)) x = None"
  by (cases "map_of (m_grants (w_box w)) x") (auto simp: world_ok_def dest: box_okD(3))

lemma begin_ok:
  assumes "world_ok l w" and "map_of (w_clients w) x = None"
  shows "world_ok l (client_begin x p now o' w)"
proof (cases "arbiterNow (w_box w) now = None")
  case True
  then show ?thesis using assms(1) by (simp add: client_begin_def acquire_begin_def)
next
  case False
  have B: "bodies (w_clients w) x = None" using assms(2) by (simp add: bodies_def)
  have [simp]: "rf_id (request_body x p now o') = x" by (simp add: request_body_def)
  show ?thesis
    by (rule world_ok_put [OF assms(1), of "request_body x p now o'" _ now])
      (use False B world_ok_fresh [OF assms(1) B] in \<open>auto simp: client_begin_def acquire_begin_def Let_def bodies_update\<close>)
qed

definition asked :: "int \<Rightarrow> client \<Rightarrow> mailbox \<Rightarrow> mailbox" where
  "asked now cl mb =
     (if map_of (m_reqs mb) (rf_id (cl_body cl)) = None then put_request now (cl_body cl) mb else mb)"

lemma acquire_poll_box:
  "snd (acquire_poll o' now cl mb) \<in> {mb, drop_files (rf_id (cl_body cl)) mb} \<or>
   (map_of (m_grants mb) (rf_id (cl_body cl)) = None \<and>
    snd (acquire_poll o' now cl mb) \<in> {asked now cl mb, drop_files (rf_id (cl_body cl)) (asked now cl mb)})"
proof (cases "read_file (m_denies mb) (rf_id (cl_body cl))")
  case None
  then show ?thesis
    unfolding acquire_poll_def Let_def asked_def [symmetric]
    by (cases "map_of (m_grants mb) (rf_id (cl_body cl))") simp_all
qed (simp add: acquire_poll_def Let_def)

lemma poll_ok:
  assumes w: "world_ok l w" and c: "map_of (w_clients w) x = Some c"
  shows "world_ok l (client_poll x c now w)"
proof -
  let ?f = "cl_body (sc_client c)"
  have B: "bodies (w_clients w) x = Some ?f" using c by (simp add: bodies_def)
  then have x: "rf_id ?f = x" using w by (auto simp: world_ok_def)
  have box: "world_ok l (w\<lparr>w_box := snd (acquire_poll (sc_opts c) now (sc_client c) (w_box w))\<rparr>)"
    (is "world_ok l (w\<lparr>w_box := snd ?poll\<rparr>)")
  proof -
    let ?mb1 = "asked now (sc_client c) (w_box w)"
    have drop: "world_ok l (w'\<lparr>w_box := drop_files x (w_box w')\<rparr>)" if "world_ok l w'" for w'
      by (rule world_ok_le [OF that]) (use that in \<open>auto simp: world_ok_def intro: box_le_drop\<close>)
    have one: "world_ok l (w\<lparr>w_box := ?mb1\<rparr>)" if g: "map_of (m_grants (w_box w)) x = None"
    proof (cases "map_of (m_reqs (w_box w)) x = None")
      case True
      have "(bodies (w_clients w)) (x \<mapsto> ?f) = bodies (w_clients w)" using B by (simp add: fun_upd_idem)
      then show ?thesis
        by (intro world_ok_put [OF w, of ?f _ now]) (use True g B x in \<open>auto simp: asked_def\<close>)
    next
      case False
      then have "?mb1 = w_box w" unfolding asked_def x by (rule if_not_P)
      with w show ?thesis by simp
    qed
    show ?thesis
      using acquire_poll_box [of "sc_opts c" now "sc_client c" "w_box w"]
        w one drop [OF w] drop [OF one] by (auto simp: x)
  qed
  have "cl_body (sc_client c) = cl_body cl" if "fst (acquire_poll (sc_opts c) now (sc_client c) (w_box w)) = AskAgain cl" for cl
    using that by (auto simp: acquire_poll_def Let_def split: option.splits if_splits)
  then show ?thesis
    using box c unfolding client_poll_def
    by (auto simp: split_def Let_def split: acquire_answer.splits intro!: world_ok_phase)
qed

text \<open>A look's first half.\<close>

lemma read_one_reqs_distinct:
  "distinct (map fst (m_reqs (r_box rd))) \<Longrightarrow> distinct (map fst (m_reqs (r_box (read_one e en rd))))"
  using al.keys_distinct_del [of "m_reqs (r_box rd)"]
  by (auto simp: read_one_def drop_request_def drop_files_def Let_def split: prod.splits option.splits)

lemma read_box_le:
  assumes "box_ok B mb"
  shows "box_le (r_box (readRequests e mb)) mb"
proof -
  let ?empty = "\<lparr>r_out = [], r_box = mb, r_events = []\<rparr>"
  let ?rd = "fold (read_one e) (m_reqs mb) ?empty"
  have "distinct (map fst (m_reqs (r_box (fold (read_one e) es rd))))"
    if "distinct (map fst (m_reqs (r_box rd)))" for rd es
    using that by (induction es arbitrary: rd) (simp_all add: read_one_reqs_distinct)
  from this [of ?empty "m_reqs mb"] have "distinct (map fst (m_reqs (r_box ?rd)))"
    using box_okD(1) [OF assms] by simp
  moreover have "map_of (m_reqs (r_box ?rd)) x = Some v \<Longrightarrow> map_of (m_reqs mb) x = Some v" for x v
    using read_fold_box(3) [of e "m_reqs mb" ?empty x] by auto
  ultimately show ?thesis
    using read_fold_box(1,2) [of e "m_reqs mb" ?empty] by (fastforce simp: box_le_def readRequests_box)
qed

lemma read_file_ok:
  "box_ok B mb \<Longrightarrow> read_file (m_grants mb) x = map_option the (map_of (m_grants mb) x)"
  "box_ok B mb \<Longrightarrow> read_file (m_denies mb) x = map_option the (map_of (m_denies mb) x)"
  by (auto simp: read_file_def dest: box_okD(3,4) split: option.splits)

lemma read_request_ok:
  assumes ok: "box_ok B mb" and en: "(x, t, f) \<in> set (m_reqs mb)"
  shows "\<exists>g. B x = Some g \<and> count (entry_request mb (x, t, f)) = rf_count g"
    and "granted_now (entry_request mb (x, t, f)) \<Longrightarrow> 1 \<le> count (entry_request mb (x, t, f))"
    and "grantedAt (entry_request mb (x, t, f)) = None \<longleftrightarrow> map_of (m_grants mb) x = None"
    and "denied (entry_request mb (x, t, f)) = None \<longleftrightarrow> map_of (m_denies mb) x = None"
proof -
  obtain g where g: "f = Some g" "B x = Some g"
    using box_okD(2) [OF ok map_of_is_SomeI [OF box_okD(1) [OF ok] en]] by auto
  then show "\<exists>g. B x = Some g \<and> count (entry_request mb (x, t, f)) = rf_count g"
    by (simp add: entry_request_def to_request_def)
  show a: "grantedAt (entry_request mb (x, t, f)) = None \<longleftrightarrow> map_of (m_grants mb) x = None"
    by (simp add: entry_request_def to_request_def read_file_ok [OF ok])
  show "denied (entry_request mb (x, t, f)) = None \<longleftrightarrow> map_of (m_denies mb) x = None"
    by (simp add: entry_request_def to_request_def read_file_ok [OF ok])
  show "1 \<le> count (entry_request mb (x, t, f))" if "granted_now (entry_request mb (x, t, f))"
    using that a box_okD(3) [OF ok, of x] g
    by (auto simp: granted_now_def entry_request_def to_request_def)
qed

lemma read_request_shape: "r \<in> set (r_out (readRequests e mb)) \<Longrightarrow> distinct (map fst (m_reqs mb)) \<Longrightarrow>
  \<exists>t f. (rid r, t, f) \<in> set (m_reqs mb) \<and> r = entry_request mb (rid r, t, f)"
  by (auto simp: readRequests_out) blast

lemma read_ok_start:
  assumes ok: "box_ok B mb"
  shows "read_ok B (r_box (readRequests e mb)) (r_out (readRequests e mb))"
  unfolding read_ok_def
proof (intro conjI ballI)
  have d: "distinct (map fst (m_reqs mb))" by (rule box_okD(1) [OF ok])
  have le: "box_le (r_box (readRequests e mb)) mb" by (rule read_box_le [OF ok])
  have "map rid (r_out (readRequests e mb)) = map fst (filter (live_entry e) (m_reqs mb))"
    by (simp add: readRequests_out [OF d])
  then show "distinct (map rid (r_out (readRequests e mb)))"
    using d by (simp add: distinct_map_filter)
  show "held_ids (r_box (readRequests e mb)) \<subseteq> rid ` set (r_out (readRequests e mb))"
    by (auto simp: held_ids_def readRequests_box split: if_splits)
  fix r
  assume r: "r \<in> set (r_out (readRequests e mb))"
  obtain t f where en: "(rid r, t, f) \<in> set (m_reqs mb)" and e: "entry_request mb (rid r, t, f) = r"
    using read_request_shape [OF r d] by metis
  note q = read_request_ok [OF ok en, unfolded e]
  show "\<exists>f. B (rid r) = Some f \<and> count r = rf_count f" by (rule q(1))
  show "granted_now r \<longrightarrow> 1 \<le> count r" using q(2) by simp
  show "grantedAt r = None \<longrightarrow> map_of (m_grants (r_box (readRequests e mb))) (rid r) = None"
    using q(3) box_le_none(1) [OF le] by simp
  show "denied r = None \<longrightarrow> map_of (m_denies (r_box (readRequests e mb))) (rid r) = None"
    using q(4) box_le_none(2) [OF le] by simp
  show "grantedAt r = None \<or> denied r = None"
    using q(3,4) box_okD(3) [OF ok, of "rid r"] by (cases "map_of (m_grants mb) (rid r)") auto
qed

text \<open>A look's second half: what it answers.\<close>

lemma answers_facts:
  assumes d: "distinct (map rid (i_requests i))"
  obtains G where "a_grant (assess i) = map rid G" "distinct G" "set G \<subseteq> set (waiting_requests i)"
    "\<And>r. r \<in> set G \<Longrightarrow> 1 \<le> count r"
    "\<And>l. i_limit i = Some l \<Longrightarrow> G \<noteq> [] \<Longrightarrow> used_slots (count_slots i) + sum_count G \<le> l"
    "fst ` set (a_deny (assess i)) \<subseteq> rid ` set (waiting_requests i) - rid ` set G"
proof -
  let ?c = "count_slots i"
  obtain G where G: "d_grant (decide i ?c) = map rid G" "mset G \<subseteq># mset (queue i ?c)"
    "d_free (decide i ?c) = xminus (free_slots i ?c) (sum_count G)"
    "G \<noteq> [] \<Longrightarrow> \<not> ram_blocked i \<and> Fin 0 \<le> d_free (decide i ?c)"
    by (rule decide_grants [of i ?c]) blast
  have sub: "set G \<subseteq> set (queue i ?c)"
    using G(2) by (metis set_mset_mono set_mset_mset)
  have dw: "distinct (map rid (waiting_requests i))"
    using d by (simp add: waiting_requests_def distinct_map_filter)
  then have "distinct (queue i ?c)"
    by (simp add: queue_def distinct_map)
  moreover obtain ys where "mset (queue i ?c) = mset (G @ ys)"
    using G(2) by (metis ex_mset mset_append subset_mset.add_diff_inverse)
  ultimately have "distinct G"
    by (metis distinct_append mset_eq_imp_distinct_iff)
  moreover have "used_slots ?c + sum_count G \<le> l" if "i_limit i = Some l" "G \<noteq> []" for l
    using G(3) G(4) [OF that(2)] that(1) by (simp add: free_slots_def)
  moreover have "fst ` set (a_deny (assess i)) \<subseteq> rid ` set (waiting_requests i) - rid ` set G"
  proof -
    let ?ids = "map rid G @ map fst (a_deny (assess i)) @ map rid (d_rest (decide i ?c))"
    have eq: "mset (map rid (waiting_requests i)) = mset ?ids"
      using mset_refused_queue [of i ?c] decide_answers [of i ?c] G(1) by (simp add: assess_fields ac_simps)
    then have "distinct ?ids"
      using dw mset_eq_imp_distinct_iff by blast
    moreover have "set ?ids = rid ` set (waiting_requests i)"
      using mset_eq_setD [OF eq] by simp
    ultimately show ?thesis by auto
  qed
  ultimately show thesis
    using G(1) sub by (intro that [of G]) (auto simp: assess_fields queue_set queue_count)
qed

lemma write_answers_fields:
  "m_reqs (write_answers e a mb) = m_reqs mb"
  "map_of (m_grants (write_answers e a mb)) x =
     (if x \<in> set (a_grant a) then Some (Some (At (e_now e))) else map_of (m_grants mb) x)"
  "map_of (m_denies (write_answers e a mb)) x =
     (case map_of (rev (a_deny a)) x of Some w \<Rightarrow> Some (Some w) | None \<Rightarrow> map_of (m_denies mb) x)"
proof -
  have g: "map_of (fold (\<lambda>x. AList.update x v) xs m) x = (if x \<in> set xs then Some v else map_of m x)" for v xs m
    by (induction xs arbitrary: m) (simp_all add: al.get_put)
  have w: "map_of (fold (\<lambda>(x, w). AList.update x (Some w)) xs m) x =
      (case map_of (rev xs) x of Some w \<Rightarrow> Some (Some w) | None \<Rightarrow> map_of m x)" for xs m
    by (induction xs arbitrary: m) (auto simp: al.get_put map_add_def split: option.splits)
  show "m_reqs (write_answers e a mb) = m_reqs mb" by (simp add: write_answers_def)
  show "map_of (m_grants (write_answers e a mb)) x =
     (if x \<in> set (a_grant a) then Some (Some (At (e_now e))) else map_of (m_grants mb) x)"
    by (simp add: write_answers_def g)
  show "map_of (m_denies (write_answers e a mb)) x =
     (case map_of (rev (a_deny a)) x of Some w \<Rightarrow> Some (Some w) | None \<Rightarrow> map_of (m_denies mb) x)"
    by (simp add: write_answers_def w)
qed

lemma look_finish_box:
  assumes "look_finish e rs st mb = (a, st', mb', ev)"
  shows "a = assess (input_of e rs)"
    and "ar_closed st \<Longrightarrow> mb' = mb \<and> ev = []"
    and "\<not> ar_closed st \<Longrightarrow> m_reqs mb' = m_reqs mb \<and>
      m_grants mb' = m_grants (write_answers e a mb) \<and> m_denies mb' = m_denies (write_answers e a mb)"
  using assms by (auto simp: look_finish_def Let_def write_answers_fields(1) split: prod.splits option.splits if_splits)

lemma sum_rid_set:
  assumes "distinct (map rid rs)" and "S \<subseteq> set rs"
    and "\<And>r. r \<in> S \<Longrightarrow> counted_body B (rid r) = count r"
  shows "sum (counted_body B) (rid ` S) = sum count S"
proof -
  have "inj_on rid S"
    using assms(1,2) by (metis distinct_map inj_on_subset)
  then show ?thesis
    using assms(3) by (simp add: sum.reindex)
qed

lemma sum_granted: "distinct rs \<Longrightarrow> sum count {r \<in> set rs. granted_now r} = granted_count rs"
  by (simp add: granted_count_def sum_list_distinct_conv_sum_set sum.inter_filter)

lemma finish_ok:
  assumes w: "world_ok l w" and rs: "w_read w = Some rs" and l: "e_limit e = Some l"
    and f: "look_finish e rs (w_arbiter w) (w_box w) = (a, st, mb, ev)"
  shows "world_ok l (w\<lparr>w_arbiter := st, w_box := mb, w_read := None\<rparr>)"
proof (cases "ar_closed (w_arbiter w)")
  case True
  then show ?thesis using w look_finish_box(2) [OF f] by (simp add: world_ok_def)
next
  case False
  let ?B = "bodies (w_clients w)" and ?mb = "w_box w" and ?i = "input_of e rs"
  have ok: "box_ok ?B ?mb" and rd: "read_ok ?B ?mb rs" and held: "sum (counted_body ?B) (held_ids ?mb) \<le> l"
    and ids: "\<forall>x f. ?B x = Some f \<longrightarrow> rf_id f = x"
    using w rs by (auto simp: world_ok_def)
  have d: "distinct (map rid rs)" and sub: "held_ids ?mb \<subseteq> rid ` set rs" using rd by (auto simp: read_ok_def)
  have r: "\<exists>f. ?B (rid r) = Some f \<and> count r = rf_count f" "granted_now r \<Longrightarrow> 1 \<le> count r"
    "grantedAt r = None \<Longrightarrow> map_of (m_grants ?mb) (rid r) = None"
    "denied r = None \<Longrightarrow> map_of (m_denies ?mb) (rid r) = None" "grantedAt r = None \<or> denied r = None"
    if "r \<in> set rs" for r
    using rd that by (auto simp: read_ok_def)
  obtain G where G: "a_grant (assess ?i) = map rid G" "distinct G" "set G \<subseteq> set (waiting_requests ?i)"
    "\<And>r. r \<in> set G \<Longrightarrow> 1 \<le> count r"
    "\<And>l. i_limit ?i = Some l \<Longrightarrow> G \<noteq> [] \<Longrightarrow> used_slots (count_slots ?i) + sum_count G \<le> l"
    "fst ` set (a_deny (assess ?i)) \<subseteq> rid ` set (waiting_requests ?i) - rid ` set G"
    by (rule answers_facts [of ?i]) (use d in \<open>auto simp: input_of_def\<close>)
  have waiting: "set (waiting_requests ?i) = {r \<in> set rs. grantedAt r = None \<and> denied r = None}"
    by (auto simp: waiting_requests_def input_of_def)
  have a: "a = assess ?i" by (rule look_finish_box(1) [OF f])
  have box: "m_reqs mb = m_reqs ?mb"
    "map_of (m_grants mb) x = (if x \<in> rid ` set G then Some (Some (At (e_now e))) else map_of (m_grants ?mb) x)"
    "map_of (m_denies mb) x = (case map_of (rev (a_deny (assess ?i))) x of Some w \<Rightarrow> Some (Some w) | None \<Rightarrow> map_of (m_denies ?mb) x)" for x
    using look_finish_box(3) [OF f False] G(1) by (auto simp: write_answers_fields a)
  have deny: "x \<in> rid ` set (waiting_requests ?i) \<and> x \<notin> rid ` set G"
    if "map_of (rev (a_deny (assess ?i))) x = Some v" for x v
  proof -
    have "x \<in> fst ` set (a_deny (assess ?i))" using map_of_SomeD [OF that] by force
    with G(6) show ?thesis by blast
  qed
  have "box_ok ?B mb"
  proof (rule box_okI)
    fix x v
    assume v: "map_of (m_grants mb) x = Some v"
    show "v \<noteq> None \<and> map_of (m_denies mb) x = None \<and> (\<exists>f. ?B x = Some f \<and> 1 \<le> rf_count f)"
    proof (cases "x \<in> rid ` set G")
      case True
      then obtain g where g: "g \<in> set G" "x = rid g" by blast
      have "map_of (rev (a_deny (assess ?i))) x = None"
        using deny [of x] True by (cases "map_of (rev (a_deny (assess ?i))) x") auto
      moreover have gs: "g \<in> set rs" "denied g = None" using g(1) G(3) waiting by auto
      moreover obtain h where "?B x = Some h" "count g = rf_count h" using r(1) [OF gs(1)] g(2) by blast
      ultimately show ?thesis
        using g G(4) [OF g(1)] r(4) [OF gs] v True by (auto simp: box)
    next
      case no: False
      then have old: "map_of (m_grants ?mb) x = Some v" using v by (simp add: box)
      have "map_of (rev (a_deny (assess ?i))) x = None"
        using deny [of x] r(3) old waiting by (cases "map_of (rev (a_deny (assess ?i))) x") auto
      with box_okD(3) [OF ok old] show ?thesis by (simp add: box)
    qed
  next
    fix x v
    assume "map_of (m_denies mb) x = Some v"
    then show "v \<noteq> None \<and> ?B x \<noteq> None"
      using deny [of x] waiting r(1) box_okD(4) [OF ok, of x] by (fastforce simp: box split: option.splits)
  qed (use box_okD(1,2) [OF ok] box(1) in auto)
  moreover have "sum (counted_body ?B) (held_ids mb) \<le> l"
  proof (cases "G = []")
    case True
    then have "held_ids mb = held_ids ?mb" by (auto simp: held_ids_def box)
    with held show ?thesis by simp
  next
    case False
    let ?S = "{r \<in> set rs. granted_now r}"
    have cb: "counted_body ?B (rid r) = count r" if "r \<in> ?S \<union> set G" for r
    proof -
      have "r \<in> set rs" using that G(3) waiting by auto
      from r(1) [OF this] show ?thesis by (auto simp: counted_body_def)
    qed
    have S: "?S \<union> set G \<subseteq> set rs" using G(3) waiting by auto
    have "held_ids mb \<subseteq> rid ` (?S \<union> set G)"
    proof
      fix x
      assume "x \<in> held_ids mb"
      then consider "x \<in> held_ids ?mb" | "x \<in> rid ` set G"
        by (auto simp: held_ids_def box split: if_splits)
      then show "x \<in> rid ` (?S \<union> set G)"
      proof cases
        case 1
        then obtain q where q: "q \<in> set rs" "x = rid q" using sub by auto
        then have "granted_now q"
          using 1 r(3,5) [OF q(1)] by (cases "grantedAt q") (auto simp: held_ids_def granted_now_def)
        with q show ?thesis by blast
      qed blast
    qed
    then have "sum (counted_body ?B) (held_ids mb) \<le> sum (counted_body ?B) (rid ` (?S \<union> set G))"
      by (rule sum_mono2 [rotated]) (use cb r(2) G(4) in force)+
    also have "\<dots> = sum count (?S \<union> set G)"
      by (rule sum_rid_set [OF d S cb])
    also have "\<dots> = sum count ?S + sum count (set G)"
      by (rule sum.union_disjoint) (use G(3) waiting in \<open>auto simp: granted_now_def\<close>)
    also have "\<dots> = granted_count rs + sum_count G"
      using d G(2) by (simp add: sum_granted distinct_map sum_count_def sum_list_distinct_conv_sum_set)
    also have "\<dots> \<le> used_slots (count_slots ?i) + sum_count G"
      using granted_count_le_used [of ?i] by (simp add: input_of_def)
    also have "\<dots> \<le> l"
      using G(5) [of l] False l by (simp add: input_of_def)
    finally show ?thesis .
  qed
  ultimately show ?thesis using ids by (simp add: world_ok_def)
qed

lemma slot_step_ok:
  assumes w: "world_ok l w" and "limited l m" and s: "slot_step m w = Some w'"
  shows "world_ok l w'"
proof -
  have ok: "box_ok (bodies (w_clients w)) (w_box w)" using w by (simp add: world_ok_def)
  have same: "world_ok l (w\<lparr>w_box := mb\<rparr>)" if "box_le mb (w_box w)" for mb
    by (rule world_ok_le [OF w]) (use that in auto)
  show ?thesis
  proof (cases m)
    case (Begin x p now o')
    then show ?thesis using s begin_ok [OF w] by (auto split: if_splits)
  next
    case (Poll x now)
    then show ?thesis using s poll_ok [OF w] by (auto split: option.splits if_splits)
  next
    case (Beat x now)
    then show ?thesis using s same box_le_touch [OF ok] by (auto split: option.splits if_splits)
  next
    case (Release x)
    then show ?thesis
      using s same [OF box_le_drop [OF ok]] by (auto simp: release_request_def split: option.splits if_splits intro: world_ok_phase)
  next
    case (Crash x)
    then show ?thesis using s w by (auto split: option.splits intro: world_ok_phase)
  next
    case (ReadBox e)
    have "world_ok l (w\<lparr>w_box := r_box (readRequests e (w_box w))\<rparr>)"
      by (rule same [OF read_box_le [OF ok]])
    then show ?thesis
      using ReadBox s read_ok_start [OF ok, of e] by (auto simp: world_ok_def Let_def split: if_splits)
  next
    case (Finish e)
    then show ?thesis
      using s assms(2) finish_ok [OF w] by (auto split: option.splits prod.splits)
  next
    case CloseArbiter
    then show ?thesis using s w by (auto simp: world_ok_def)
  next
    case (StartArbiter x)
    then show ?thesis using s w by (auto simp: world_ok_def split: if_splits)
  qed
qed

lemma slots_reach_ok: "slots_reach l w \<Longrightarrow> 0 \<le> l \<Longrightarrow> world_ok l w"
proof (induction rule: slots_reach.induct)
  case (start x)
  then show ?case
    by (simp add: world_ok_def first_world_def empty_box_def box_ok_def held_ids_def bodies_def)
next
  case (move w m w')
  then show ?case using slot_step_ok by blast
qed

section \<open>A run of the gate\<close>

text \<open>A run of the gate, from moves.\<close>

fun slot_run :: "slot_move list \<Rightarrow> slot_world \<Rightarrow> slot_world option" where
  "slot_run [] w = Some w"
| "slot_run (m # ms) w = (case slot_step m w of Some w' \<Rightarrow> slot_run ms w' | None \<Rightarrow> None)"

lemma slot_run_reach:
  "slots_reach l w \<Longrightarrow> list_all (limited l) ms \<Longrightarrow> slot_run ms w = Some w' \<Longrightarrow> slots_reach l w'"
  by (induction ms arbitrary: w) (auto split: option.splits intro: slots_reach.move)

definition sample_env :: env where
  "sample_env = \<lparr>e_platform = Linux, e_procs = [], e_alive = (\<lambda>_. True), e_readAt = 2000, e_now = 2500,
     e_limit = Some 1, e_places = [], e_ramPct = None, e_ramLimitPct = None, e_holderWaitMs = None,
     e_staleMs = None, e_machine = None, e_pid = 9, e_started = 0, e_hasTwinHook = False\<rparr>"

definition sample_opts :: acquire_opts where
  "sample_opts = \<lparr>o_count = 1, o_label = ''build'', o_holder = ''s'', o_projects = [], o_session = [],
     o_timeoutMs = None, o_arbiterGraceMs = None\<rparr>"

text \<open>The arbiter looks, two clients ask between its halves, one is granted the only slot.\<close>

definition sample_moves :: "slot_move list" where
  "sample_moves =
     [ReadBox sample_env, Finish sample_env, Begin ''a'' 50 2600 sample_opts, ReadBox sample_env,
      Begin ''b'' 51 2700 sample_opts, Finish sample_env, ReadBox sample_env, Finish sample_env, Poll ''a'' 2800]"

definition sample_world :: slot_world where
  "sample_world = (case slot_run sample_moves (first_world ''i'') of Some w \<Rightarrow> w | None \<Rightarrow> first_world ''i'')"

lemma sample_reach: "slots_reach 1 sample_world"
proof -
  have "slot_run sample_moves (first_world ''i'') \<noteq> None" by code_simp
  then have "slot_run sample_moves (first_world ''i'') = Some sample_world"
    by (auto simp: sample_world_def)
  moreover have "list_all (limited 1) sample_moves" by code_simp
  ultimately show ?thesis
    by (blast intro: slot_run_reach slots_reach.start)
qed

section \<open>The gate holds\<close>

text \<open>
  C2. The limit holds over every interleaving: whatever order clients ask, poll, beat, crash and
  release in, between the two halves of a look too, and however often the arbiter is closed and
  started again, the slots of the requests that have a grant never exceed the machine's limit.
\<close>

theorem gate_limit_invariant:
  assumes "slots_reach l w" and "0 \<le> l"
  shows "held_slots (w_box w) \<le> l"
  using slots_reach_ok [OF assms] held_slots_sum by (auto simp: world_ok_def)

theorem gate_limit_invariant_witness:
  "held_slots (w_box sample_world) = 1 \<and> held_slots (w_box sample_world) \<le> 1"
proof -
  have "held_slots (w_box sample_world) = 1" by code_simp
  then show ?thesis using gate_limit_invariant [OF sample_reach] by simp
qed

text \<open>
  An answer is final and single: in no reachable state of the gate has a request both a
  grant file and a deny file.
\<close>

theorem answers_exclusive:
  assumes "slots_reach l w" and "0 \<le> l"
  shows "map_of (m_grants (w_box w)) x = None \<or> map_of (m_denies (w_box w)) x = None"
  using slots_reach_ok [OF assms] box_okD(3) [of _ "w_box w" x]
  by (cases "map_of (m_grants (w_box w)) x") (auto simp: world_ok_def)

theorem answers_exclusive_witness:
  "map_of (m_grants (w_box sample_world)) ''a'' \<noteq> None \<and> map_of (m_denies (w_box sample_world)) ''a'' = None"
proof -
  have "map_of (m_grants (w_box sample_world)) ''a'' \<noteq> None" by code_simp
  then show ?thesis using answers_exclusive [OF sample_reach, of "''a''"] by auto
qed

end
