(* ===== verification/FF_Json.thy ===== *)
theory FF_Json
  imports FF_Strings
begin

text \<open>
  Values whose type the code checks at run time (\<open>unknown\<close>: a parsed config file, a tool's
  arguments). An object is the list of its own keys and values in the order \<open>Object.keys\<close>
  gives them; \<open>JBadNum\<close> is a number that is not finite.
\<close>

datatype js =
    JUndef
  | JNull
  | JBool bool
  | JNum rat
  | JBadNum
  | JStr string
  | JArr "js list"
  | JObj "(string \<times> js) list"

text \<open>\<open>v?.k\<close>: the value under a key, \<open>undefined\<close> where there is none.\<close>

fun field :: "js \<Rightarrow> string \<Rightarrow> js" where
  "field (JObj kvs) k = (case map_of kvs k of Some v \<Rightarrow> v | None \<Rightarrow> JUndef)"
| "field _ k = JUndef"

fun js_number :: "js \<Rightarrow> num' option" where
  "js_number (JNum x) = Some x"
| "js_number _ = None"

fun js_entries :: "js \<Rightarrow> (string \<times> js) list" where
  "js_entries (JObj kvs) = kvs"
| "js_entries _ = []"

text \<open>A plain object: not null, not an array.\<close>

fun is_obj :: "js \<Rightarrow> bool" where
  "is_obj (JObj _) = True"
| "is_obj _ = False"

text \<open>The first problem of a list of checks.\<close>

fun first_some :: "('a \<Rightarrow> 'b option) \<Rightarrow> 'a list \<Rightarrow> 'b option" where
  "first_some f [] = None"
| "first_some f (x # xs) = (case f x of Some y \<Rightarrow> Some y | None \<Rightarrow> first_some f xs)"

lemma first_some_None [simp]: "first_some f xs = None \<longleftrightarrow> (\<forall>x \<in> set xs. f x = None)"
  by (induction xs) (auto split: option.splits)

lemma first_some_Some: "first_some f xs = Some y \<Longrightarrow> \<exists>x \<in> set xs. f x = Some y"
  by (induction xs) (auto split: option.splits)

text \<open>\<open>a ?? b\<close> and \<open>a || b\<close> on checks that return a problem.\<close>

fun or_else :: "'a option \<Rightarrow> 'a option \<Rightarrow> 'a option" where
  "or_else (Some x) _ = Some x"
| "or_else None y = y"

lemma or_else_None [simp]: "or_else a b = None \<longleftrightarrow> a = None \<and> b = None"
  by (cases a) auto

end
