(* ===== verification/TokenPool.thy ===== *)
theory TokenPool
  imports FF_Json
begin

text \<open>
  The Claude token pool (server/tokenPool.ts): the limits and their configuration, the state of
  one token under them (\<open>judge\<close>), the states of a pool (\<open>judgePool\<close>), the pick (\<open>pickPool\<close>), why a
  pool is held, and the buffer of the dispatcher's credential (\<open>reserveOf\<close>). Percentages are
  rational numbers, reset times are \<open>stamp\<close>s; a text is a value with one constructor per
  template, holding what the template shows.
\<close>

section \<open>Limits\<close>

record pool_limits =
  sessionHold :: num'
  onePerWeekly :: num'
  retireWeekly :: num'
  weeklyCaps :: "(string \<times> num') list"
  reservePerDay :: num'
  reserveSession :: num'
  dispatcherStop :: num'
  nearResetHours :: num'
  nearResetFloor :: num'

definition POOL_DEFAULTS :: pool_limits where
  "POOL_DEFAULTS = \<lparr>sessionHold = 80, onePerWeekly = 95, retireWeekly = 99, weeklyCaps = [], reservePerDay = 5,
     reserveSession = 20, dispatcherStop = 95, nearResetHours = 12, nearResetFloor = 1\<rparr>"

datatype pool_problem =
    CapsNotAMap
  | CapNameBad string
  | CapPercentBad string
  | SettingBad string
  | PoolNotAnObject
  | NotASetting string
  | OneAboveRetire num' num'

definition WEEKLY_CAP_KEY :: string where "WEEKLY_CAP_KEY = ''weeklyCapPercent''"

definition cap_char :: "char \<Rightarrow> bool" where
  "cap_char c = (is_lower c \<or> is_upper c \<or> is_digit c)"

definition CAP_NAME :: "string \<Rightarrow> bool" where
  "CAP_NAME s =
     (case s of [] \<Rightarrow> False
      | c # cs \<Rightarrow> cap_char c \<and> length cs \<le> 63 \<and>
          list_all (\<lambda>x. cap_char x \<or> x \<in> set [CHR ''.'', CHR ''_'', CHR ''-'']) cs)"

definition is_percent :: "js \<Rightarrow> bool" where
  "is_percent v = (case v of JNum n \<Rightarrow> 0 \<le> n \<and> n \<le> 100 | _ \<Rightarrow> False)"

definition weeklyCapsProblem :: "js \<Rightarrow> pool_problem option" where
  "weeklyCapsProblem v =
     (if \<not> is_obj v then Some CapsNotAMap
      else first_some (\<lambda>(k, n). if \<not> CAP_NAME k then Some (CapNameBad k)
             else if \<not> is_percent n then Some (CapPercentBad k) else None) (js_entries v))"

definition capOf :: "string \<Rightarrow> pool_limits \<Rightarrow> num' option" where
  "capOf n limits = map_of (weeklyCaps limits) n"

definition POOL_CONFIG_KEYS :: "string list" where
  "POOL_CONFIG_KEYS =
     [''sessionHoldPercent'', ''onePerWeeklyPercent'', ''retireWeeklyPercent'', ''reservePerDayPercent'',
      ''reserveSessionPercent'', ''dispatcherStopPercent'', ''nearResetHours'', ''nearResetFloorTokens'']"

definition RETIRED_POOL_KEYS :: "string list" where
  "RETIRED_POOL_KEYS = [''resetOffsetHours'']"

text \<open>The upper end of a setting's range, and whether it is a whole number.\<close>

definition setting_range :: "string \<Rightarrow> num' \<times> bool" where
  "setting_range k =
     (if k = ''nearResetHours'' then (168, False)
      else if k = ''nearResetFloorTokens'' then (10, True)
      else (100, False))"

definition poolSettingProblem :: "string \<Rightarrow> js \<Rightarrow> pool_problem option" where
  "poolSettingProblem k v =
     (case v of
        JNum n \<Rightarrow> (let (hi, whole) = setting_range k
                 in if 0 \<le> n \<and> n \<le> hi \<and> (\<not> whole \<or> is_integer n) then None else Some (SettingBad k))
      | _ \<Rightarrow> Some (SettingBad k))"

definition val :: "string \<Rightarrow> js \<Rightarrow> num' \<Rightarrow> num'" where
  "val k v d = (if poolSettingProblem k v = None then (case v of JNum n \<Rightarrow> n | _ \<Rightarrow> d) else d)"

definition pct :: "js \<Rightarrow> num' \<Rightarrow> num'" where
  "pct v d = val ''sessionHoldPercent'' v d"

text \<open>The limits in effect: \<open>p\<close> is \<open>cfg?.vault?.pool\<close>.\<close>

definition read_limits :: "js \<Rightarrow> pool_limits" where
  "read_limits p =
     \<lparr>sessionHold = pct (field p ''sessionHoldPercent'') (sessionHold POOL_DEFAULTS),
      onePerWeekly = pct (field p ''onePerWeeklyPercent'') (onePerWeekly POOL_DEFAULTS),
      retireWeekly = pct (field p ''retireWeeklyPercent'') (retireWeekly POOL_DEFAULTS),
      weeklyCaps = [],
      reservePerDay = pct (field p ''reservePerDayPercent'') (reservePerDay POOL_DEFAULTS),
      reserveSession = pct (field p ''reserveSessionPercent'') (reserveSession POOL_DEFAULTS),
      dispatcherStop = pct (field p ''dispatcherStopPercent'') (dispatcherStop POOL_DEFAULTS),
      nearResetHours = val ''nearResetHours'' (field p ''nearResetHours'') (nearResetHours POOL_DEFAULTS),
      nearResetFloor = val ''nearResetFloorTokens'' (field p ''nearResetFloorTokens'') (nearResetFloor POOL_DEFAULTS)\<rparr>"

definition caps_of :: "js \<Rightarrow> (string \<times> num') list" where
  "caps_of v = List.map_filter (\<lambda>(k, n). map_option (\<lambda>x. (k, x)) (js_number n)) (js_entries v)"

definition poolLimits :: "js \<Rightarrow> pool_limits" where
  "poolLimits p =
     (let out = read_limits p;
          out1 = (if retireWeekly out < onePerWeekly out then out\<lparr>onePerWeekly := retireWeekly out\<rparr> else out);
          caps = field p WEEKLY_CAP_KEY
      in if caps \<noteq> JUndef \<and> weeklyCapsProblem caps = None \<and> js_entries caps \<noteq> []
         then out1\<lparr>weeklyCaps := caps_of caps\<rparr> else out1)"

definition num_or :: "js \<Rightarrow> num' \<Rightarrow> num'" where
  "num_or v d = (case v of JNum n \<Rightarrow> n | _ \<Rightarrow> d)"

definition checkPoolConfig :: "js \<Rightarrow> pool_problem option" where
  "checkPoolConfig p =
     (if p = JUndef then None
      else if \<not> is_obj p then Some PoolNotAnObject
      else or_else (first_some (\<lambda>(k, _). if k \<notin> set POOL_CONFIG_KEYS \<and> k \<noteq> WEEKLY_CAP_KEY \<and> k \<notin> set RETIRED_POOL_KEYS
                                then Some (NotASetting k) else None) (js_entries p))
          (or_else (if field p WEEKLY_CAP_KEY \<noteq> JUndef then weeklyCapsProblem (field p WEEKLY_CAP_KEY) else None)
          (or_else (first_some (\<lambda>k. if field p k = JUndef then None else poolSettingProblem k (field p k)) POOL_CONFIG_KEYS)
             (let one = num_or (field p ''onePerWeeklyPercent'') (onePerWeekly POOL_DEFAULTS);
                  retire = num_or (field p ''retireWeeklyPercent'') (retireWeekly POOL_DEFAULTS)
              in if retire < one then Some (OneAboveRetire one retire) else None))))"

section \<open>Meters\<close>

record usage_meter =
  um_percent :: num'
  um_resetsAt :: "stamp option"

record plan_usage =
  pu_available :: bool
  pu_weekly :: "usage_meter option"
  pu_session :: "usage_meter option"
  pu_reading :: "(string \<times> string) option"

record meters =
  mt_session :: num'
  mt_weekly :: num'
  mt_known :: bool
  mt_noSessionLimit :: bool
  mt_sessionResetsAt :: "stamp option"
  mt_weeklyResetsAt :: "stamp option"

definition noSessionLimit :: "plan_usage option \<Rightarrow> bool" where
  "noSessionLimit u = (case u of None \<Rightarrow> False | Some u \<Rightarrow> pu_available u \<and> pu_weekly u \<noteq> None \<and> pu_session u = None)"

definition no_meters :: meters where
  "no_meters = \<lparr>mt_session = 50, mt_weekly = 50, mt_known = False, mt_noSessionLimit = False,
     mt_sessionResetsAt = None, mt_weeklyResetsAt = None\<rparr>"

definition metersOf :: "plan_usage option \<Rightarrow> meters" where
  "metersOf u =
     (case u of
        None \<Rightarrow> no_meters
      | Some p \<Rightarrow>
          if \<not> pu_available p then no_meters
          else
            (let none = noSessionLimit u
             in \<lparr>mt_session = (case pu_session p of Some s \<Rightarrow> um_percent s | None \<Rightarrow> if none then 0 else 50),
                 mt_weekly = (case pu_weekly p of Some w \<Rightarrow> um_percent w | None \<Rightarrow> 50),
                 mt_known = (pu_session p \<noteq> None \<or> pu_weekly p \<noteq> None),
                 mt_noSessionLimit = none,
                 mt_sessionResetsAt = Option.bind (pu_session p) um_resetsAt,
                 mt_weeklyResetsAt = Option.bind (pu_weekly p) um_resetsAt\<rparr>))"

text \<open>\<open>ms\<close>: the time of a reset, \<open>Infinity\<close> without one that reads.\<close>

definition ms :: "stamp option \<Rightarrow> xnum" where
  "ms s = (case Option.bind s stamp_ms of Some t \<Rightarrow> Fin (of_int t) | None \<Rightarrow> Infinity)"

text \<open>\<open>...(x ? { until: x } : {})\<close>.\<close>

definition given :: "stamp option \<Rightarrow> stamp option" where
  "given s = (if stamp_given s then s else None)"

text \<open>A percent in a sentence: whole, or with one decimal.\<close>

datatype shown_pct = Whole int | Tenths int

definition pc :: "num' \<Rightarrow> shown_pct" where
  "pc n = (if n < 100 \<and> 100 \<le> js_round n then Tenths (js_round (10 * n)) else Whole (js_round n))"

section \<open>The dispatcher's reserve\<close>

record reserve =
  rs_weekly :: num'
  rs_session :: num'
  rs_daysLeft :: num'
  rs_noReading :: bool
  rs_inReserve :: bool
  rs_weeklyIn :: bool
  rs_sessionIn :: bool
  rs_stopSession :: bool
  rs_stopWeekly :: bool
  rs_stopLine :: num'
  rs_until :: "stamp option"

definition DAY_MS :: num' where "DAY_MS = 86400000"

text \<open>A number of milliseconds made a \<open>Date\<close>: truncated toward zero.\<close>

definition js_trunc :: "num' \<Rightarrow> int" where
  "js_trunc x = (if 0 \<le> x then floor x else ceiling x)"

definition days_left :: "xnum \<Rightarrow> int \<Rightarrow> num'" where
  "days_left reset now = (case reset of Fin r \<Rightarrow> min 7 (max 0 ((r - of_int now) / DAY_MS)) | Infinity \<Rightarrow> 7)"

fun fin_list :: "xnum \<Rightarrow> num' list" where
  "fin_list (Fin x) = [x]"
| "fin_list Infinity = []"

definition weekly_lift :: "num' \<Rightarrow> num' \<Rightarrow> num' \<Rightarrow> num'" where
  "weekly_lift perDay used reset =
     (if 0 < perDay \<and> used < 100 then reset - (100 - used) / perDay * DAY_MS else reset)"

text \<open>\<open>Math.max(...xs)\<close> of a list that is not empty.\<close>

definition max_of :: "num' list \<Rightarrow> num'" where
  "max_of xs = foldr max (tl xs) (hd xs)"

definition reserveOf :: "plan_usage option \<Rightarrow> pool_limits \<Rightarrow> int \<Rightarrow> reserve" where
  "reserveOf u limits now =
     (let m = metersOf u;
          reset = ms (mt_weeklyResetsAt m);
          daysLeft = days_left reset now;
          weekly = min 100 (reservePerDay limits * daysLeft);
          session = min 100 (reserveSession limits);
          noReading = (\<not> mt_known m);
          weeklyIn = (\<not> noReading \<and> 100 - weekly \<le> mt_weekly m);
          sessionIn = (\<not> noReading \<and> 100 - session \<le> mt_session m);
          stopLine = dispatcherStop limits;
          stopSession = (\<not> noReading \<and> stopLine \<le> mt_session m);
          stopWeekly = (\<not> noReading \<and> stopLine \<le> mt_weekly m);
          lifts = (if weeklyIn then map (weekly_lift (reservePerDay limits) (mt_weekly m)) (fin_list reset) else [])
            @ (if sessionIn then fin_list (ms (mt_sessionResetsAt m)) else [])
            @ (if stopWeekly then fin_list reset else [])
            @ (if stopSession then fin_list (ms (mt_sessionResetsAt m)) else [])
      in \<lparr>rs_weekly = weekly, rs_session = session, rs_daysLeft = daysLeft, rs_noReading = noReading,
          rs_inReserve = (noReading \<or> weeklyIn \<or> sessionIn \<or> stopSession \<or> stopWeekly),
          rs_weeklyIn = weeklyIn, rs_sessionIn = sessionIn, rs_stopSession = stopSession, rs_stopWeekly = stopWeekly,
          rs_stopLine = stopLine,
          rs_until = (if \<not> noReading \<and> lifts \<noteq> [] then Some (At (js_trunc (max_of lifts))) else None)\<rparr>)"

datatype reset_text = UnknownTime | AnyMoment | InMin int | InHours int int | AtClock stamp

definition resetIn :: "stamp option \<Rightarrow> int \<Rightarrow> reset_text" where
  "resetIn rst now =
     (case Option.bind rst stamp_ms of
        None \<Rightarrow> UnknownTime
      | Some t \<Rightarrow>
          if t - now < 60000 then AnyMoment
          else (let m = js_round (of_int (t - now) / 60000)
                in if m < 90 then InMin m
                   else if m < 48 * 60 then InHours (m div 60) (m mod 60)
                   else AtClock (the rst)))"

datatype reserve_part =
    AtStopLine string "shown_pct option" num' reset_text
  | InBuffer string "shown_pct option" int reset_text

datatype reserve_text = NoReading | Parts "reserve_part list"

definition shown_read :: "usage_meter option \<Rightarrow> shown_pct option" where
  "shown_read x = map_option (\<lambda>m. pc (um_percent m)) x"

definition reserveReason :: "reserve \<Rightarrow> plan_usage option \<Rightarrow> int \<Rightarrow> reserve_text" where
  "reserveReason r u now =
     (if rs_noReading r then NoReading
      else
        (let m = metersOf u; s = shown_read (Option.bind u pu_session); w = shown_read (Option.bind u pu_weekly)
         in Parts
              ((if rs_stopSession r then [AtStopLine ''5-hour'' s (rs_stopLine r) (resetIn (mt_sessionResetsAt m) now)]
                else if rs_sessionIn r then [InBuffer ''5-hour'' s (js_round (rs_session r)) (resetIn (mt_sessionResetsAt m) now)]
                else []) @
               (if rs_stopWeekly r then [AtStopLine ''weekly'' w (rs_stopLine r) (resetIn (mt_weeklyResetsAt m) now)]
                else if rs_weeklyIn r then [InBuffer ''weekly'' w (js_round (rs_weekly r)) (resetIn (mt_weeklyResetsAt m) now)]
                else []))))"

section \<open>One token\<close>

record pool_token =
  tk_id :: string
  tk_name :: string
  tk_usage :: "plan_usage option"
  tk_others :: nat
  tk_reserve :: "reserve option"
  tk_reserveFor :: "string option"

datatype pool_state = Ok | Held | OneAtATime | Retired | Exhausted | Reserved

record numbers_text =
  nt_session :: "shown_pct option option"
  nt_weekly :: "shown_pct option"
  nt_cap :: "num' option"
  nt_reading :: "(string \<times> string) option"

datatype meters_text = Numbers numbers_text | NoNumbers "num' option"

datatype token_why =
    UsedUpUntil numbers_text "stamp option"
  | CapUntil shown_pct num' "stamp option"
  | RetiredUntil shown_pct num' "stamp option"
  | HeldUntil shown_pct num' "stamp option"
  | InsideBuffer numbers_text string reserve_text "stamp option"
  | NearReset numbers_text reset_text num' num' num'
  | OneJob shown_pct "nat option"
  | Meters meters_text

datatype shown_text = ShownWhy token_why | ShownMeters meters_text

record pool_view =
  pv_state :: pool_state
  pv_why :: token_why
  pv_session :: num'
  pv_weekly :: num'
  pv_known :: bool
  pv_sessionResetsAt :: "stamp option"
  pv_weeklyResetsAt :: "stamp option"
  pv_until :: "stamp option"
  pv_slotTaken :: bool
  pv_shown :: shown_text
  pv_nearReset :: bool
  pv_capped :: bool

definition outOfPool :: "pool_view \<Rightarrow> bool" where
  "outOfPool v = (pv_state v = Retired \<or> pv_state v = Exhausted)"

definition usable :: "pool_view \<Rightarrow> bool" where
  "usable v = (pv_state v = Ok \<or> pv_state v = OneAtATime \<and> \<not> pv_slotTaken v)"

definition numbers_of :: "pool_token \<Rightarrow> meters \<Rightarrow> num' option \<Rightarrow> numbers_text" where
  "numbers_of t m cap =
     \<lparr>nt_session = (if mt_noSessionLimit m then None
                    else Some (map_option (\<lambda>_. pc (mt_session m)) (Option.bind (tk_usage t) pu_session))),
      nt_weekly = map_option (\<lambda>_. pc (mt_weekly m)) (Option.bind (tk_usage t) pu_weekly),
      nt_cap = cap,
      nt_reading = Option.bind (tk_usage t) pu_reading\<rparr>"

text \<open>The view every branch starts from.\<close>

definition base_view :: "meters \<Rightarrow> pool_state \<Rightarrow> token_why \<Rightarrow> shown_text \<Rightarrow> stamp option \<Rightarrow> pool_view" where
  "base_view m st why sh until =
     \<lparr>pv_state = st, pv_why = why, pv_session = mt_session m, pv_weekly = mt_weekly m, pv_known = mt_known m,
      pv_sessionResetsAt = mt_sessionResetsAt m, pv_weeklyResetsAt = mt_weeklyResetsAt m, pv_until = given until,
      pv_slotTaken = False, pv_shown = sh, pv_nearReset = False, pv_capped = False\<rparr>"

definition weekly_read :: "pool_token \<Rightarrow> bool" where
  "weekly_read t = (Option.bind (tk_usage t) pu_weekly \<noteq> None)"

definition judge :: "pool_token \<Rightarrow> pool_limits \<Rightarrow> int \<Rightarrow> bool \<Rightarrow> pool_view" where
  "judge t limits now nearReset =
     (let m = metersOf (tk_usage t);
          cap = capOf (tk_name t) limits;
          numbers = numbers_of t m cap;
          meters = (if mt_known m then Numbers numbers else NoNumbers cap);
          w = mt_weekly m; s = mt_session m;
          stop = (\<lambda>st why until. base_view m st why (ShownWhy why) until)
      in if 100 \<le> w \<or> 100 \<le> s then
           (let until = (if 100 \<le> w then mt_weeklyResetsAt m else mt_sessionResetsAt m)
            in stop Exhausted (UsedUpUntil numbers until) until)
         else if (case cap of Some c \<Rightarrow> weekly_read t \<and> c \<le> w | None \<Rightarrow> False) then
           (stop Retired (CapUntil (pc w) (the cap) (mt_weeklyResetsAt m)) (mt_weeklyResetsAt m))\<lparr>pv_capped := True\<rparr>
         else if retireWeekly limits \<le> w \<and> \<not> nearReset then
           stop Retired (RetiredUntil (pc w) (retireWeekly limits) (mt_weeklyResetsAt m)) (mt_weeklyResetsAt m)
         else if sessionHold limits \<le> s then
           stop Held (HeldUntil (pc s) (sessionHold limits) (mt_sessionResetsAt m)) (mt_sessionResetsAt m)
         else if (case tk_reserve t of Some r \<Rightarrow> rs_inReserve r | None \<Rightarrow> False) then
           (let r = the (tk_reserve t)
            in stop Reserved
                 (InsideBuffer numbers (case tk_reserveFor t of Some f \<Rightarrow> f | None \<Rightarrow> ''the dispatcher'')
                    (reserveReason r (tk_usage t) now) (given (rs_until r)))
                 (rs_until r))
         else if nearReset then
           (base_view m Ok (NearReset numbers (resetIn (mt_weeklyResetsAt m) now) (nearResetHours limits)
              (onePerWeekly limits) (retireWeekly limits)) (ShownMeters meters) None)\<lparr>pv_nearReset := True\<rparr>
         else if onePerWeekly limits \<le> w then
           (base_view m OneAtATime (OneJob (pc w) (if 1 \<le> tk_others t then Some (tk_others t) else None))
              (ShownMeters meters) None)\<lparr>pv_slotTaken := 1 \<le> tk_others t\<rparr>
         else base_view m Ok (Meters meters) (ShownMeters meters) None)"

section \<open>The pool\<close>

datatype pool_kind = Serving | SlotTaken | Over | UsedUp

definition poolKind :: "pool_view list \<Rightarrow> pool_kind" where
  "poolKind vs =
     (if vs = [] \<or> list_ex usable vs then Serving
      else if list_all (\<lambda>v. pv_state v = Exhausted) vs then UsedUp
      else if list_ex (\<lambda>v. pv_state v = OneAtATime) vs then SlotTaken
      else Over)"

definition firstFree :: "pool_view list \<Rightarrow> stamp option" where
  "firstFree vs =
     (case js_sort (\<lambda>a b. cmp_num (ms (Some a)) (ms (Some b))) (List.map_filter (\<lambda>v. given (pv_until v)) vs) of
        [] \<Rightarrow> None | x # _ \<Rightarrow> Some x)"

definition bySoonestReset :: "pool_token \<Rightarrow> pool_token \<Rightarrow> int" where
  "bySoonestReset a b =
     (let x = metersOf (tk_usage a); y = metersOf (tk_usage b)
      in cmp_or (cmp_num (ms (mt_weeklyResetsAt x)) (ms (mt_weeklyResetsAt y)))
          (cmp_or (cmp_num (ms (mt_sessionResetsAt x)) (ms (mt_sessionResetsAt y)))
             (locale_compare (tk_name a) (tk_name b))))"

definition weeklyResetOf :: "pool_token \<Rightarrow> xnum" where
  "weeklyResetOf t = (let m = metersOf (tk_usage t) in if mt_known m then ms (mt_weeklyResetsAt m) else Infinity)"

definition pickOrder :: "pool_token \<Rightarrow> pool_token \<Rightarrow> int" where
  "pickOrder a b =
     cmp_or (cmp_num (weeklyResetOf a) (weeklyResetOf b))
       (cmp_or (cmp_num (tk_others a) (tk_others b)) (locale_compare (tk_name a) (tk_name b)))"

definition hoursToReset :: "pool_token \<Rightarrow> int \<Rightarrow> num' option" where
  "hoursToReset t now =
     (let m = metersOf (tk_usage t)
      in case ms (mt_weeklyResetsAt m) of
           Fin r \<Rightarrow> if mt_known m then Some (max 0 ((r - of_int now) / 3600000)) else None
         | Infinity \<Rightarrow> None)"

type_synonym views = "(string \<times> pool_view) list"

definition view_of :: "views \<Rightarrow> pool_token \<Rightarrow> pool_view" where
  "view_of vs t = the (map_of vs (tk_id t))"

definition plain_views :: "pool_token list \<Rightarrow> pool_limits \<Rightarrow> int \<Rightarrow> views" where
  "plain_views ts limits now = fold (\<lambda>t. AList.update (tk_id t) (judge t limits now False)) ts []"

text \<open>How many other tokens of the pool can take a new process on their own reading.\<close>

definition ready_others :: "pool_token list \<Rightarrow> views \<Rightarrow> pool_token \<Rightarrow> nat" where
  "ready_others ts plain t = length (filter (\<lambda>o'. tk_id o' \<noteq> tk_id t \<and> usable (view_of plain o')) ts)"

definition near_reset :: "pool_token list \<Rightarrow> pool_limits \<Rightarrow> int \<Rightarrow> views \<Rightarrow> pool_token \<Rightarrow> bool" where
  "near_reset ts limits now plain t =
     (case hoursToReset t now of
        None \<Rightarrow> False
      | Some h \<Rightarrow> h \<le> nearResetHours limits \<and> nearResetFloor limits \<le> of_nat (ready_others ts plain t))"

definition judgePool :: "pool_token list \<Rightarrow> pool_limits \<Rightarrow> int \<Rightarrow> views" where
  "judgePool ts limits now =
     (let plain = plain_views ts limits now
      in if \<not> 0 < nearResetHours limits then plain
         else fold (\<lambda>t out. if near_reset ts limits now plain t
                            then AList.update (tk_id t) (judge t limits now True) out else out) ts plain)"

definition room :: "pool_token \<Rightarrow> num'" where
  "room t = (let m = metersOf (tk_usage t) in 100 - max (mt_session m) (mt_weekly m))"

section \<open>The pick\<close>

datatype pick_how = Normal | OverCap | InReserve

datatype held_head = AllUsedUp | AllAtALimit | NoneFree

datatype held_when = WhenRunningEnds "stamp option" | FreesUp stamp | NoResetKnown

record held =
  h_head :: held_head
  h_each :: "(string \<times> token_why) list"
  h_when :: held_when
  h_next :: "stamp option"

record pool_pick =
  pp_token :: "pool_token option"
  pp_how :: "pick_how option"
  pp_views :: views
  pp_held :: "held option"

definition heldReason :: "pool_token list \<Rightarrow> views \<Rightarrow> held" where
  "heldReason ts vs =
     (let l = map (view_of vs) ts; next' = firstFree l; kind = poolKind l
      in \<lparr>h_head = (if kind = UsedUp then AllUsedUp else if kind = Over then AllAtALimit else NoneFree),
          h_each = map (\<lambda>t. (tk_name t, pv_why (view_of vs t))) ts,
          h_when = (if kind = SlotTaken then WhenRunningEnds next'
                    else case next' of Some x \<Rightarrow> FreesUp x | None \<Rightarrow> NoResetKnown),
          h_next = next'\<rparr>)"

record pick_opts =
  po_orchestrator :: bool
  po_ops :: bool
  po_limits :: pool_limits
  po_sticky :: "string option"
  po_now :: int

text \<open>The session's last token when it still passes, else the first of the order.\<close>

definition sticky_or :: "string option \<Rightarrow> (pool_token \<Rightarrow> bool) \<Rightarrow> (pool_token \<Rightarrow> pool_token \<Rightarrow> int) \<Rightarrow> pool_token list \<Rightarrow> pool_token option" where
  "sticky_or sticky P order ts =
     (let kept = (case sticky of Some s \<Rightarrow> if s \<noteq> [] then find (\<lambda>t. tk_id t = s \<and> P t) ts else None | None \<Rightarrow> None)
      in case kept of Some t \<Rightarrow> Some t
         | None \<Rightarrow> (case js_sort order (filter P ts) of [] \<Rightarrow> None | t # _ \<Rightarrow> Some t))"

definition most_room :: "pool_token \<Rightarrow> pool_token \<Rightarrow> int" where
  "most_room a b = cmp_or (cmp_num (room b) (room a)) (bySoonestReset a b)"

definition reserved_last :: "pool_token \<Rightarrow> pool_token \<Rightarrow> int" where
  "reserved_last a b =
     cmp_or (cmp_num (if tk_reserve a \<noteq> None then 1 else (0::int)) (if tk_reserve b \<noteq> None then 1 else 0)) (most_room a b)"

text \<open>A token inside the reserve that would serve were it not reserved.\<close>

definition free_reserved :: "views \<Rightarrow> pick_opts \<Rightarrow> pool_token \<Rightarrow> bool" where
  "free_reserved vs o' t =
     (pv_state (view_of vs t) = Reserved \<and> usable (judge (t\<lparr>tk_reserve := None\<rparr>) (po_limits o') (po_now o') False))"

definition past_caps :: "views \<Rightarrow> pick_opts \<Rightarrow> pool_token \<Rightarrow> bool" where
  "past_caps vs o' t =
     (let v = view_of vs t
      in \<not> pv_capped v \<and>
         (pv_state v \<in> {Held, OneAtATime, Retired} \<or> pv_state v = Reserved \<and> \<not> free_reserved vs o' t))"

definition pick_orchestrator :: "pool_token list \<Rightarrow> views \<Rightarrow> pick_opts \<Rightarrow> (pool_token \<times> pick_how) option" where
  "pick_orchestrator ts vs o' =
     (case sticky_or (po_sticky o') (free_reserved vs o') pickOrder ts of
        Some t \<Rightarrow> Some (t, InReserve)
      | None \<Rightarrow> map_option (\<lambda>t. (t, OverCap)) (sticky_or (po_sticky o') (past_caps vs o') most_room ts))"

definition pick_ops :: "pool_token list \<Rightarrow> views \<Rightarrow> (pool_token \<times> pick_how) option" where
  "pick_ops ts vs =
     map_option (\<lambda>t. (t, case tk_reserve t of Some r \<Rightarrow> if rs_inReserve r then InReserve else OverCap | None \<Rightarrow> OverCap))
       (sticky_or None (\<lambda>t. pv_state (view_of vs t) \<noteq> Exhausted \<and> \<not> pv_capped (view_of vs t)) reserved_last ts)"

definition pickPool :: "pool_token list \<Rightarrow> pick_opts \<Rightarrow> pool_pick" where
  "pickPool ts o' =
     (let vs = judgePool ts (po_limits o') (po_now o');
          got = (\<lambda>(t, how). \<lparr>pp_token = Some t, pp_how = Some how, pp_views = vs, pp_held = None\<rparr>)
      in case sticky_or (po_sticky o') (\<lambda>t. usable (view_of vs t)) pickOrder ts of
           Some t \<Rightarrow> got (t, Normal)
         | None \<Rightarrow>
             (case (if po_orchestrator o' then pick_orchestrator ts vs o' else None) of
                Some p \<Rightarrow> got p
              | None \<Rightarrow>
                  (case (if po_ops o' then pick_ops ts vs else None) of
                     Some p \<Rightarrow> got p
                   | None \<Rightarrow> \<lparr>pp_token = None, pp_how = None, pp_views = vs, pp_held = Some (heldReason ts vs)\<rparr>)))"

section \<open>Banners\<close>

datatype banner_kind = BannerExhausted | BannerHeld

record banner =
  bn_kind :: banner_kind
  bn_who :: string
  bn_each :: "(string \<times> string \<times> token_why) list"
  bn_next :: "stamp option"
  bn_orchestratorOnVault :: bool

definition poolBanner :: "(string \<times> string \<times> pool_view) list \<Rightarrow> string \<Rightarrow> bool \<Rightarrow> banner option" where
  "poolBanner ts who onVault =
     (let vs = map (\<lambda>(_, _, v). v) ts; kind = poolKind vs
      in if kind \<noteq> Over \<and> kind \<noteq> UsedUp then None
         else Some \<lparr>bn_kind = (if kind = UsedUp then BannerExhausted else BannerHeld), bn_who = who,
                bn_each = map (\<lambda>(n, l, v). (n, l, pv_why v)) ts, bn_next = firstFree vs,
                bn_orchestratorOnVault = onVault\<rparr>)"

record 'a warning =
  wn_person :: "string option"
  wn_owners :: bool
  wn_body :: 'a

definition warningsForUser :: "'a warning list option \<Rightarrow> string \<Rightarrow> bool \<Rightarrow> 'a warning list option" where
  "warningsForUser all' user isOwner =
     (let mine = filter (\<lambda>w. (case wn_person w of None \<Rightarrow> True | Some p \<Rightarrow> p = [] \<or> lower p = lower user) \<or> wn_owners w \<and> isOwner)
                   (case all' of Some ws \<Rightarrow> ws | None \<Rightarrow> [])
      in if mine \<noteq> [] then Some mine else None)"

end
