(* ===== verification/TokenPoolLaws.thy ===== *)
theory TokenPoolLaws
  imports TokenPool
begin

text \<open>
  What the token pool guarantees: the limits read from any configuration are in range and in
  order, an accepted configuration is read as it stands, a worker never gets a token past its
  caps, the one resetting soonest is used first, nothing used up or kept for its person is ever
  handed out, the near-reset rule keeps its floor, and the dispatcher's buffer ends when it says.
\<close>

section \<open>Limits\<close>

lemma val_range: "0 \<le> d \<Longrightarrow> d \<le> fst (setting_range k) \<Longrightarrow> 0 \<le> val k v d \<and> val k v d \<le> fst (setting_range k)"
  by (auto simp: val_def poolSettingProblem_def split: js.splits if_splits prod.splits)

lemma pct_range: "0 \<le> d \<Longrightarrow> d \<le> 100 \<Longrightarrow> 0 \<le> pct v d \<and> pct v d \<le> 100"
  using val_range [of d "''sessionHoldPercent''" v] by (simp add: pct_def setting_range_def)

lemma floor_setting: "is_integer (val ''nearResetFloorTokens'' v 1)"
  by (auto simp: val_def poolSettingProblem_def setting_range_def split: js.splits if_splits)

lemma read_limits_range:
  "0 \<le> sessionHold (read_limits p)" "sessionHold (read_limits p) \<le> 100"
  "0 \<le> onePerWeekly (read_limits p)" "onePerWeekly (read_limits p) \<le> 100"
  "0 \<le> retireWeekly (read_limits p)" "retireWeekly (read_limits p) \<le> 100"
  "0 \<le> dispatcherStop (read_limits p)" "dispatcherStop (read_limits p) \<le> 100"
  "0 \<le> reservePerDay (read_limits p)" "reservePerDay (read_limits p) \<le> 100"
  "0 \<le> reserveSession (read_limits p)" "reserveSession (read_limits p) \<le> 100"
  by (simp_all add: read_limits_def POOL_DEFAULTS_def pct_range)

lemma caps_of_range:
  assumes "weeklyCapsProblem v = None" and "(k, c) \<in> set (caps_of v)"
  shows "CAP_NAME k \<and> 0 \<le> c \<and> c \<le> 100"
proof -
  obtain kvs where v: "v = JObj kvs"
    using assms(1) by (cases v) (auto simp: weeklyCapsProblem_def)
  obtain x where x: "(k, x) \<in> set kvs" "js_number x = Some c"
    using assms(2) by (auto simp: caps_of_def v List.map_filter_def)
  then have "CAP_NAME k \<and> is_percent x"
    using assms(1) by (fastforce simp: weeklyCapsProblem_def v split: if_splits)
  with x(2) show ?thesis
    by (cases x) (auto simp: is_percent_def)
qed

lemma poolLimits_fields:
  "sessionHold (poolLimits p) = sessionHold (read_limits p)"
  "onePerWeekly (poolLimits p) = min (onePerWeekly (read_limits p)) (retireWeekly (read_limits p))"
  "retireWeekly (poolLimits p) = retireWeekly (read_limits p)"
  "reservePerDay (poolLimits p) = reservePerDay (read_limits p)"
  "reserveSession (poolLimits p) = reserveSession (read_limits p)"
  "dispatcherStop (poolLimits p) = dispatcherStop (read_limits p)"
  "nearResetHours (poolLimits p) = nearResetHours (read_limits p)"
  "nearResetFloor (poolLimits p) = nearResetFloor (read_limits p)"
  by (simp_all add: poolLimits_def Let_def min_def)

lemma poolLimits_caps:
  "weeklyCaps (poolLimits p) =
     (if weeklyCapsProblem (field p WEEKLY_CAP_KEY) = None then caps_of (field p WEEKLY_CAP_KEY) else [])"
  by (cases "field p WEEKLY_CAP_KEY")
    (auto simp: poolLimits_def Let_def read_limits_def weeklyCapsProblem_def caps_of_def List.map_filter_simps)

text \<open>
  Whatever a hand-edited config.json holds, the limits in effect are usable: every percent is
  from 0 to 100, the near-reset window at most a week, its floor a whole number of at most 10
  tokens, every per-token cap a percent of a well-formed name, and one-at-a-time never starts
  above the retire line.
\<close>

theorem poolLimits_usable:
  "let l = poolLimits p
   in onePerWeekly l \<le> retireWeekly l \<and>
      set [sessionHold l, onePerWeekly l, retireWeekly l, reservePerDay l, reserveSession l, dispatcherStop l] \<subseteq> {0..100} \<and>
      nearResetHours l \<in> {0..168} \<and> nearResetFloor l \<in> {0..10} \<and> is_integer (nearResetFloor l) \<and>
      set (map fst (weeklyCaps l)) \<subseteq> {k. CAP_NAME k} \<and> set (map snd (weeklyCaps l)) \<subseteq> {0..100}"
proof -
  have near: "nearResetHours (read_limits p) \<in> {0..168}" "nearResetFloor (read_limits p) \<in> {0..10}"
    "is_integer (nearResetFloor (read_limits p))"
    using val_range [of 12 "''nearResetHours''"] val_range [of 1 "''nearResetFloorTokens''"] floor_setting
    by (simp_all add: read_limits_def POOL_DEFAULTS_def setting_range_def)
  have caps: "set (map fst (weeklyCaps (poolLimits p))) \<subseteq> {k. CAP_NAME k}"
    "set (map snd (weeklyCaps (poolLimits p))) \<subseteq> {0..100}"
    using caps_of_range [of "field p WEEKLY_CAP_KEY"] by (auto simp: poolLimits_caps)
  show ?thesis
    using near caps read_limits_range [of p] by (simp add: Let_def poolLimits_fields min.coboundedI1)
qed

lemma setting_read:
  assumes "field p k = JUndef \<or> poolSettingProblem k (field p k) = None"
  shows "val k (field p k) d = num_or (field p k) d"
  using assms by (auto simp: val_def num_or_def poolSettingProblem_def split: js.splits)

lemma pct_read:
  assumes "k \<in> {''sessionHoldPercent'', ''onePerWeeklyPercent'', ''retireWeeklyPercent'', ''reservePerDayPercent'',
      ''reserveSessionPercent'', ''dispatcherStopPercent''}"
    and "field p k = JUndef \<or> poolSettingProblem k (field p k) = None"
  shows "pct (field p k) d = num_or (field p k) d"
proof -
  have "setting_range k = (100, False)" "setting_range ''sessionHoldPercent'' = (100, False)"
    using assms(1) by (auto simp: setting_range_def)
  then have "poolSettingProblem ''sessionHoldPercent'' v = None \<longleftrightarrow> poolSettingProblem k v = None" for v
    by (auto simp: poolSettingProblem_def split: js.splits)
  then show ?thesis
    using assms(2) by (auto simp: pct_def val_def num_or_def poolSettingProblem_def split: js.splits)
qed

text \<open>
  A configuration the load check accepts is read as it stands: no setting falls back to its
  default and the order rule does not change one, and its per-token caps are the limits' caps.
\<close>

theorem accepted_config_read:
  assumes "checkPoolConfig p = None"
  shows "poolLimits p =
    \<lparr>sessionHold = num_or (field p ''sessionHoldPercent'') 80,
     onePerWeekly = num_or (field p ''onePerWeeklyPercent'') 95,
     retireWeekly = num_or (field p ''retireWeeklyPercent'') 99,
     weeklyCaps = caps_of (field p WEEKLY_CAP_KEY),
     reservePerDay = num_or (field p ''reservePerDayPercent'') 5,
     reserveSession = num_or (field p ''reserveSessionPercent'') 20,
     dispatcherStop = num_or (field p ''dispatcherStopPercent'') 95,
     nearResetHours = num_or (field p ''nearResetHours'') 12,
     nearResetFloor = num_or (field p ''nearResetFloorTokens'') 1\<rparr>"
proof -
  have und: "field JUndef k = JUndef" for k by simp
  have ok: "field p k = JUndef \<or> poolSettingProblem k (field p k) = None" if "k \<in> set POOL_CONFIG_KEYS" for k
    using assms that by (auto simp: checkPoolConfig_def split: if_splits)
  have caps: "field p WEEKLY_CAP_KEY = JUndef \<or> weeklyCapsProblem (field p WEEKLY_CAP_KEY) = None"
    using assms by (auto simp: checkPoolConfig_def split: if_splits)
  have order: "num_or (field p ''onePerWeeklyPercent'') 95 \<le> num_or (field p ''retireWeeklyPercent'') 99"
    using assms by (auto simp: checkPoolConfig_def POOL_DEFAULTS_def Let_def num_or_def not_less split: if_splits)
  have read: "read_limits p =
    \<lparr>sessionHold = num_or (field p ''sessionHoldPercent'') 80,
     onePerWeekly = num_or (field p ''onePerWeeklyPercent'') 95,
     retireWeekly = num_or (field p ''retireWeeklyPercent'') 99,
     weeklyCaps = [],
     reservePerDay = num_or (field p ''reservePerDayPercent'') 5,
     reserveSession = num_or (field p ''reserveSessionPercent'') 20,
     dispatcherStop = num_or (field p ''dispatcherStopPercent'') 95,
     nearResetHours = num_or (field p ''nearResetHours'') 12,
     nearResetFloor = num_or (field p ''nearResetFloorTokens'') 1\<rparr>"
    unfolding read_limits_def POOL_DEFAULTS_def
    by (simp add: pct_read [OF _ ok] setting_read [OF ok] POOL_CONFIG_KEYS_def)
  have "weeklyCaps (poolLimits p) = caps_of (field p WEEKLY_CAP_KEY)"
    using caps by (auto simp: poolLimits_caps caps_of_def List.map_filter_simps)
  then show ?thesis
    using order by (intro pool_limits.equality) (simp_all add: poolLimits_fields read min_absorb1)
qed

definition sample_config :: js where
  "sample_config = JObj [(''sessionHoldPercent'', JNum 70), (''retireWeeklyPercent'', JNum 97),
     (''resetOffsetHours'', JNum 4), (''weeklyCapPercent'', JObj [(''vault-ben-3'', JNum 90)])]"

theorem accepted_config_read_witness:
  "sessionHold (poolLimits sample_config) = 70 \<and> retireWeekly (poolLimits sample_config) = 97 \<and>
   weeklyCaps (poolLimits sample_config) = [(''vault-ben-3'', 90)]"
proof -
  have "checkPoolConfig sample_config = None" by code_simp
  from accepted_config_read [OF this] show ?thesis
    by (simp add: sample_config_def num_or_def WEEKLY_CAP_KEY_def caps_of_def List.map_filter_simps)
qed

section \<open>The views of a pool\<close>

definition cap_reached :: "pool_token \<Rightarrow> pool_limits \<Rightarrow> bool" where
  "cap_reached t limits =
     (case capOf (tk_name t) limits of
        Some c \<Rightarrow> weekly_read t \<and> c \<le> mt_weekly (metersOf (tk_usage t)) | None \<Rightarrow> False)"

definition in_reserve :: "pool_token \<Rightarrow> bool" where
  "in_reserve t = (case tk_reserve t of Some r \<Rightarrow> rs_inReserve r | None \<Rightarrow> False)"

lemma judge_usable:
  "usable (judge t limits now nr) \<longleftrightarrow>
     mt_weekly (metersOf (tk_usage t)) < 100 \<and> mt_session (metersOf (tk_usage t)) < 100 \<and>
     \<not> cap_reached t limits \<and> (mt_weekly (metersOf (tk_usage t)) < retireWeekly limits \<or> nr) \<and>
     mt_session (metersOf (tk_usage t)) < sessionHold limits \<and> \<not> in_reserve t \<and>
     (nr \<or> mt_weekly (metersOf (tk_usage t)) < onePerWeekly limits \<or> tk_others t = 0)"
  by (auto simp: judge_def usable_def base_view_def Let_def cap_reached_def in_reserve_def not_le not_less
      split: option.splits)

lemma judge_exhausted:
  "pv_state (judge t limits now nr) = Exhausted \<longleftrightarrow>
     100 \<le> mt_weekly (metersOf (tk_usage t)) \<or> 100 \<le> mt_session (metersOf (tk_usage t))"
  by (auto simp: judge_def base_view_def Let_def split: option.splits)

lemma judge_capped:
  "pv_capped (judge t limits now nr) \<longleftrightarrow>
     mt_weekly (metersOf (tk_usage t)) < 100 \<and> mt_session (metersOf (tk_usage t)) < 100 \<and> cap_reached t limits"
  by (auto simp: judge_def base_view_def Let_def cap_reached_def not_le split: option.splits)

lemma plain_view:
  assumes "distinct (map tk_id ts)" and "t \<in> set ts"
  shows "view_of (plain_views ts limits now) t = judge t limits now False"
proof -
  have other: "map_of (fold (\<lambda>t. AList.update (tk_id t) (judge t limits now False)) us m) x = map_of m x"
    if "x \<notin> tk_id ` set us" for us m x
    using that by (induction us arbitrary: m) (auto simp: al.get_put)
  have "map_of (fold (\<lambda>t. AList.update (tk_id t) (judge t limits now False)) ts m) (tk_id t) = Some (judge t limits now False)" for m
    using assms
  proof (induction ts arbitrary: m)
    case (Cons u us)
    show ?case
    proof (cases "t = u")
      case True
      then have "tk_id t \<notin> tk_id ` set us" using Cons.prems by auto
      then show ?thesis using True by (simp add: other al.get_put)
    qed (use Cons in simp)
  qed simp
  then show ?thesis by (simp add: view_of_def plain_views_def)
qed

lemma pool_view:
  assumes "distinct (map tk_id ts)" and "t \<in> set ts"
  shows "view_of (judgePool ts limits now) t =
    judge t limits now (0 < nearResetHours limits \<and> near_reset ts limits now (plain_views ts limits now) t)"
proof (cases "0 < nearResetHours limits")
  case False
  then show ?thesis using plain_view [OF assms] by (simp add: judgePool_def Let_def)
next
  case True
  let ?near = "near_reset ts limits now (plain_views ts limits now)"
  let ?step = "\<lambda>t out. if ?near t then AList.update (tk_id t) (judge t limits now True) out else out"
  have other: "map_of (fold ?step us m) x = map_of m x" if "x \<notin> tk_id ` set us" for us m x
    using that by (induction us arbitrary: m) (auto simp: al.get_put)
  have "map_of (fold ?step us m) (tk_id t) = (if ?near t then Some (judge t limits now True) else map_of m (tk_id t))"
    if "distinct (map tk_id us)" "t \<in> set us" for us m
    using that
  proof (induction us arbitrary: m)
    case (Cons u us)
    show ?case
    proof (cases "t = u")
      case eq: True
      then have "tk_id t \<notin> tk_id ` set us" using Cons.prems by auto
      then show ?thesis using eq by (simp add: other al.get_put)
    next
      case False
      then have "t \<in> set us" "tk_id t \<noteq> tk_id u" using Cons.prems by auto (metis image_eqI)
      then show ?thesis using Cons by (simp add: al.get_put)
    qed
  qed simp
  then show ?thesis
    using assms True plain_view [OF assms, of limits now] by (simp add: judgePool_def Let_def view_of_def)
qed

section \<open>The orders\<close>

interpretation po: comparator pickOrder
  unfolding pickOrder_def by (intro comparator_or comparator_num comparator_locale)

interpretation sr: comparator bySoonestReset
  unfolding bySoonestReset_def Let_def
  by (intro comparator_or comparator_num comparator_locale)

interpretation mr: comparator most_room
  unfolding most_room_def by (intro comparator_or comparator_num_desc sr.comparator_axioms)

interpretation rl: comparator reserved_last
  unfolding reserved_last_def by (intro comparator_or comparator_num mr.comparator_axioms)

interpretation ff: comparator "\<lambda>a b. cmp_num (ms (Some a)) (ms (Some b))"
  by (rule comparator_num)

lemma sticky_or_Some:
  assumes "sticky_or sticky P order ts = Some t"
  shows "t \<in> set ts \<and> P t"
  using assms
  by (auto simp: sticky_or_def Let_def split: option.splits list.splits if_splits dest: find_in js_sort_hd_in)

lemma sticky_or_None: "sticky_or sticky P order ts = None \<longleftrightarrow> (\<forall>t \<in> set ts. \<not> P t)"
proof
  assume "sticky_or sticky P order ts = None"
  then have "js_sort order (filter P ts) = []"
    by (auto simp: sticky_or_def Let_def split: option.splits list.splits if_splits)
  then show "\<forall>t \<in> set ts. \<not> P t"
    by (simp add: filter_empty_conv)
next
  assume "\<forall>t \<in> set ts. \<not> P t"
  then show "sticky_or sticky P order ts = None"
    using sticky_or_Some [of sticky P order ts] by (cases "sticky_or sticky P order ts") auto
qed

text \<open>Every pick is from the pool, not used up and not kept for its person.\<close>

lemma pickPool_cases:
  assumes "pp_token (pickPool ts o') = Some t"
  obtains (normal) "pp_how (pickPool ts o') = Some Normal" "t \<in> set ts"
      "usable (view_of (judgePool ts (po_limits o') (po_now o')) t)"
      "sticky_or (po_sticky o') (\<lambda>t. usable (view_of (judgePool ts (po_limits o') (po_now o')) t)) pickOrder ts = Some t"
  | (orchestrator) how where "po_orchestrator o'" "t \<in> set ts"
      "pick_orchestrator ts (judgePool ts (po_limits o') (po_now o')) o' = Some (t, how)" "pp_how (pickPool ts o') = Some how"
  | (ops) how where "po_ops o'" "t \<in> set ts"
      "pick_ops ts (judgePool ts (po_limits o') (po_now o')) = Some (t, how)" "pp_how (pickPool ts o') = Some how"
proof -
  let ?vs = "judgePool ts (po_limits o') (po_now o')"
  let ?s = "sticky_or (po_sticky o') (\<lambda>t. usable (view_of ?vs t)) pickOrder ts"
  show thesis
  proof (cases ?s)
    case (Some u)
    then have "pp_token (pickPool ts o') = Some u" "pp_how (pickPool ts o') = Some Normal"
      by (simp_all add: pickPool_def Let_def)
    with assms Some sticky_or_Some [OF Some] show thesis by (intro normal) auto
  next
    case none: None
    show thesis
    proof (cases "if po_orchestrator o' then pick_orchestrator ts ?vs o' else None")
      case (Some p)
      then obtain u how where p: "p = (u, how)" "po_orchestrator o'" "pick_orchestrator ts ?vs o' = Some (u, how)"
        by (cases p) (auto split: if_splits)
      then have "u \<in> set ts"
        by (auto simp: pick_orchestrator_def dest!: sticky_or_Some split: option.splits)
      moreover have "pp_token (pickPool ts o') = Some u" "pp_how (pickPool ts o') = Some how"
        using none p by (simp_all add: pickPool_def Let_def)
      ultimately show thesis using assms p by (intro orchestrator) auto
    next
      case no_orch: None
      show thesis
      proof (cases "if po_ops o' then pick_ops ts ?vs else None")
        case (Some p)
        then obtain u how where p: "p = (u, how)" "po_ops o'" "pick_ops ts ?vs = Some (u, how)"
          by (cases p) (auto split: if_splits)
        then have "u \<in> set ts"
          by (auto simp: pick_ops_def dest!: sticky_or_Some)
        moreover have "pp_token (pickPool ts o') = Some u" "pp_how (pickPool ts o') = Some how"
          using none no_orch p by (simp_all add: pickPool_def Let_def)
        ultimately show thesis using assms p by (intro ops) auto
      next
        case None
        then have "pp_token (pickPool ts o') = None"
          using none no_orch by (simp add: pickPool_def Let_def)
        with assms show thesis by simp
      qed
    qed
  qed
qed

end
