(* ===== verification/TokenPoolProps.thy ===== *)
theory TokenPoolProps
  imports TokenPoolLaws
begin

text \<open>
  The properties of the pick (server/tokenPool.ts, \<open>judgePool\<close>, \<open>pickPool\<close>) and of the
  dispatcher's buffer (\<open>reserveOf\<close>), each with a witness on a small pool.
\<close>

section \<open>Sample pools\<close>

text \<open>A token as (id, 5-hour percent, weekly percent, weekly reset, live runs).\<close>

definition sample_token :: "string \<Rightarrow> num' \<Rightarrow> num' \<Rightarrow> int \<Rightarrow> nat \<Rightarrow> pool_token" where
  "sample_token x s w r n =
     \<lparr>tk_id = x, tk_name = x,
      tk_usage = Some \<lparr>pu_available = True, pu_weekly = Some \<lparr>um_percent = w, um_resetsAt = Some (At r)\<rparr>,
        pu_session = Some \<lparr>um_percent = s, um_resetsAt = Some (At 18000000)\<rparr>, pu_reading = None\<rparr>,
      tk_others = n, tk_reserve = None, tk_reserveFor = None\<rparr>"

definition sample_pick :: "bool \<Rightarrow> bool \<Rightarrow> string option \<Rightarrow> pick_opts" where
  "sample_pick orch ops sticky =
     \<lparr>po_orchestrator = orch, po_ops = ops, po_limits = POOL_DEFAULTS, po_sticky = sticky, po_now = 0\<rparr>"

definition day :: int where "day = 86400000"

definition sample_pool :: "pool_token list" where
  "sample_pool = [sample_token ''a'' 10 50 (5 * day) 0, sample_token ''b'' 20 60 (2 * day) 0, sample_token ''c'' 90 10 (day) 0]"

section \<open>The pick\<close>

text \<open>
  C5. A worker never gets a token past its caps: a pick for a run that is neither a person's
  orchestrator nor the ops worker is a token of the pool that is below 100 on both meters, below
  the 5-hour hold, below its own cap and outside the dispatcher's reserve; past the one-at-a-time
  or the retire line only with the near-reset rule on, or (one at a time) with no live run on it.
\<close>

theorem worker_pick_within_caps:
  assumes "distinct (map tk_id ts)" and "\<not> po_orchestrator o'" and "\<not> po_ops o'"
    and "pp_token (pickPool ts o') = Some t"
  shows "let l = po_limits o'; m = metersOf (tk_usage t);
             near = (0 < nearResetHours l \<and> near_reset ts l (po_now o') (plain_views ts l (po_now o')) t)
         in t \<in> set ts \<and> mt_session m < 100 \<and> mt_weekly m < 100 \<and> mt_session m < sessionHold l \<and>
            (\<forall>c. capOf (tk_name t) l = Some c \<and> weekly_read t \<longrightarrow> mt_weekly m < c) \<and> \<not> in_reserve t \<and>
            (near \<or> mt_weekly m < retireWeekly l \<and> (mt_weekly m < onePerWeekly l \<or> tk_others t = 0))"
  using assms(4)
proof (cases rule: pickPool_cases)
  case normal
  then show ?thesis
    using normal(3) unfolding pool_view [OF assms(1) normal(2)] judge_usable
    by (auto simp: Let_def cap_reached_def not_le)
qed (use assms in simp_all)

theorem worker_pick_within_caps_witness:
  "pp_token (pickPool sample_pool (sample_pick False False None)) = Some (sample_token ''b'' 20 60 (2 * day) 0) \<and>
   mt_session (metersOf (tk_usage (sample_token ''b'' 20 60 (2 * day) 0))) < sessionHold POOL_DEFAULTS"
proof -
  have p: "pp_token (pickPool sample_pool (sample_pick False False None)) = Some (sample_token ''b'' 20 60 (2 * day) 0)"
    by code_simp
  have "distinct (map tk_id sample_pool)" "\<not> po_orchestrator (sample_pick False False None)"
    "\<not> po_ops (sample_pick False False None)"
    by (simp_all add: sample_pool_def sample_token_def sample_pick_def)
  from worker_pick_within_caps [OF this p] show ?thesis
    using p by (simp add: Let_def sample_pick_def)
qed

text \<open>
  Nobody gets a spent token: whoever asks (a worker, the orchestrator using the pool up, the
  ops worker), the token picked is of the pool, below 100 on both meters, and not at its own
  weekly cap, whose room is its person's.
\<close>

theorem pick_never_spent:
  assumes "distinct (map tk_id ts)" and "pp_token (pickPool ts o') = Some t"
  shows "t \<in> set ts \<and> mt_session (metersOf (tk_usage t)) < 100 \<and> mt_weekly (metersOf (tk_usage t)) < 100 \<and>
    \<not> cap_reached t (po_limits o')"
proof -
  let ?vs = "judgePool ts (po_limits o') (po_now o')"
  have fine: "mt_session (metersOf (tk_usage u)) < 100 \<and> mt_weekly (metersOf (tk_usage u)) < 100 \<and> \<not> cap_reached u (po_limits o')"
    if "u \<in> set ts" "pv_state (view_of ?vs u) \<noteq> Exhausted" "\<not> pv_capped (view_of ?vs u)" for u
    using that by (auto simp: pool_view [OF assms(1)] judge_exhausted judge_capped not_le)
  show ?thesis
    using assms(2)
  proof (cases rule: pickPool_cases)
    case normal
    then show ?thesis
      unfolding pool_view [OF assms(1) normal(2)] judge_usable by simp
  next
    case (orchestrator how)
    then consider "free_reserved ?vs o' t" | "past_caps ?vs o' t"
      by (auto simp: pick_orchestrator_def dest: sticky_or_Some split: option.splits)
    then show ?thesis
    proof cases
      case 1
      then have "usable (judge (t\<lparr>tk_reserve := None\<rparr>) (po_limits o') (po_now o') False)"
        by (simp add: free_reserved_def)
      then show ?thesis
        using orchestrator(2) by (auto simp: judge_usable cap_reached_def weekly_read_def split: option.splits)
    next
      case 2
      then show ?thesis using fine orchestrator(2) by (auto simp: past_caps_def Let_def)
    qed
  next
    case (ops how)
    then show ?thesis
      using fine by (auto simp: pick_ops_def dest!: sticky_or_Some)
  qed
qed

theorem pick_never_spent_witness:
  "pp_token (pickPool [sample_token ''a'' 100 50 day 0, sample_token ''b'' 85 99 day 3] (sample_pick True False None))
     = Some (sample_token ''b'' 85 99 day 3) \<and>
   mt_weekly (metersOf (tk_usage (sample_token ''b'' 85 99 day 3))) < 100"
proof -
  let ?ts = "[sample_token ''a'' 100 50 day 0, sample_token ''b'' 85 99 day 3]"
  have p: "pp_token (pickPool ?ts (sample_pick True False None)) = Some (sample_token ''b'' 85 99 day 3)"
    by code_simp
  have "distinct (map tk_id ?ts)" by (simp add: sample_token_def)
  from pick_never_spent [OF this p] p show ?thesis by blast
qed

text \<open>
  The room a reset would take is used first: a normal pick that does not keep the session's
  last token resets (weekly) no later than any other token that can take the run.
\<close>

theorem soonest_reset_first:
  assumes "pp_token (pickPool ts o') = Some t" and "pp_how (pickPool ts o') = Some Normal"
    and "po_sticky o' \<noteq> Some (tk_id t)" and "u \<in> set ts"
    and "usable (view_of (pp_views (pickPool ts o')) u)"
  shows "weeklyResetOf t \<le> weeklyResetOf u"
proof -
  let ?P = "\<lambda>t. usable (view_of (judgePool ts (po_limits o') (po_now o')) t)"
  have views: "pp_views (pickPool ts o') = judgePool ts (po_limits o') (po_now o')"
    by (auto simp: pickPool_def Let_def split: option.splits prod.splits)
  have "sticky_or (po_sticky o') ?P pickOrder ts \<noteq> None"
    using assms(4,5) views by (auto simp: sticky_or_None)
  then have "sticky_or (po_sticky o') ?P pickOrder ts = Some t"
    using assms(1) by (auto simp: pickPool_def Let_def)
  then obtain vs where "js_sort pickOrder (filter ?P ts) = t # vs"
    using assms(3) by (auto simp: sticky_or_def Let_def split: option.splits list.splits if_splits dest: find_in)
  from po.js_sort_head [OF this, of u] have "pickOrder t u \<le> 0"
    using assms(4,5) views by simp
  then show ?thesis
    by (auto simp: pickOrder_def cmp_or_def cmp_num_def split: if_splits)
qed

theorem soonest_reset_first_witness:
  "weeklyResetOf (sample_token ''b'' 20 60 (2 * day) 0) \<le> weeklyResetOf (sample_token ''a'' 10 50 (5 * day) 0)"
  by (rule soonest_reset_first [of sample_pool "sample_pick False False None"]; code_simp)

lemma judge_capped_retired: "pv_capped (judge t limits now nr) \<Longrightarrow> pv_state (judge t limits now nr) = Retired"
  by (auto simp: judge_def base_view_def Let_def split: option.splits if_splits)

lemma pick_orchestrator_None:
  "pick_orchestrator ts vs o' = None \<longleftrightarrow> (\<forall>t \<in> set ts. \<not> free_reserved vs o' t \<and> \<not> past_caps vs o' t)"
  using sticky_or_None [of "po_sticky o'" "free_reserved vs o'" pickOrder ts]
    sticky_or_None [of "po_sticky o'" "past_caps vs o'" most_room ts]
  by (cases "sticky_or (po_sticky o') (free_reserved vs o') pickOrder ts") (auto simp: pick_orchestrator_def)

lemma pick_ops_None:
  "pick_ops ts vs = None \<longleftrightarrow> (\<forall>t \<in> set ts. pv_state (view_of vs t) = Exhausted \<or> pv_capped (view_of vs t))"
  by (auto simp: pick_ops_def sticky_or_None)

lemma past_caps_or_spent:
  assumes "\<not> usable (view_of vs t)" and "pv_capped (view_of vs t) \<Longrightarrow> pv_state (view_of vs t) = Retired"
  shows "\<not> free_reserved vs o' t \<and> \<not> past_caps vs o' t \<longleftrightarrow>
    pv_state (view_of vs t) = Exhausted \<or> pv_capped (view_of vs t)"
  using assms by (cases "pv_state (view_of vs t)") (auto simp: past_caps_def free_reserved_def usable_def Let_def)

lemma pickPool_None:
  "pp_token (pickPool ts o') = None \<longleftrightarrow>
    (\<forall>t \<in> set ts. \<not> usable (view_of (judgePool ts (po_limits o') (po_now o')) t)) \<and>
    (po_orchestrator o' \<longrightarrow> pick_orchestrator ts (judgePool ts (po_limits o') (po_now o')) o' = None) \<and>
    (po_ops o' \<longrightarrow> pick_ops ts (judgePool ts (po_limits o') (po_now o')) = None)"
  unfolding sticky_or_None [of "po_sticky o'" _ pickOrder, symmetric]
  by (simp add: pickPool_def Let_def split: option.splits prod.splits)

text \<open>
  C6. A hold is exactly a pool with nothing to hand out: a worker waits if and only if no token
  of the pool is usable; the person's orchestrator, and the ops worker, only when every token is
  used up or at its own cap. A run that gets no token is held, with the reason.
\<close>

theorem held_exactly:
  assumes "distinct (map tk_id ts)"
  shows "pp_held (pickPool ts o') \<noteq> None \<longleftrightarrow>
      (\<forall>t \<in> set ts. let v = view_of (judgePool ts (po_limits o') (po_now o')) t
        in \<not> usable v \<and> (po_orchestrator o' \<or> po_ops o' \<longrightarrow> pv_state v = Exhausted \<or> pv_capped v))"
proof -
  let ?vs = "judgePool ts (po_limits o') (po_now o')"
  have both: "pp_held (pickPool ts o') = None \<longleftrightarrow> pp_token (pickPool ts o') \<noteq> None"
    by (simp add: pickPool_def Let_def split: option.splits prod.splits)
  have "\<not> usable (view_of ?vs t) \<Longrightarrow> \<not> free_reserved ?vs o' t \<and> \<not> past_caps ?vs o' t \<longleftrightarrow>
      pv_state (view_of ?vs t) = Exhausted \<or> pv_capped (view_of ?vs t)" if "t \<in> set ts" for t
    using past_caps_or_spent judge_capped_retired by (metis pool_view [OF assms that])
  then show ?thesis
    unfolding pickPool_None pick_orchestrator_None pick_ops_None Let_def using both pickPool_None [of ts o']
    by (simp only: pick_orchestrator_None pick_ops_None) blast
qed

theorem held_exactly_witness:
  "pp_held (pickPool [sample_token ''a'' 100 50 day 0, sample_token ''b'' 85 99 day 3] (sample_pick False False None)) \<noteq> None"
proof -
  let ?ts = "[sample_token ''a'' 100 50 day 0, sample_token ''b'' 85 99 day 3]" and ?o = "sample_pick False False None"
  have "distinct (map tk_id ?ts)" by (simp add: sample_token_def)
  from held_exactly [OF this, of ?o]
  have "pp_held (pickPool ?ts ?o) \<noteq> None \<longleftrightarrow>
      (\<forall>t \<in> set ?ts. let v = view_of (judgePool ?ts (po_limits ?o) (po_now ?o)) t
        in \<not> usable v \<and> (po_orchestrator ?o \<or> po_ops ?o \<longrightarrow> pv_state v = Exhausted \<or> pv_capped v))" .
  moreover have "\<forall>t \<in> set ?ts. let v = view_of (judgePool ?ts (po_limits ?o) (po_now ?o)) t
        in \<not> usable v \<and> (po_orchestrator ?o \<or> po_ops ?o \<longrightarrow> pv_state v = Exhausted \<or> pv_capped v)"
    by code_simp
  ultimately show ?thesis by blast
qed

text \<open>
  The near-reset rule keeps its floor: a token used past its caps because its week is nearly
  over is within the last \<open>nearResetHours\<close> of it, and at least \<open>nearResetFloor\<close> other tokens of
  the pool can take a process on their own reading; with the default floor of one a pool of one
  token never lifts its caps.
\<close>

theorem near_reset_floor:
  assumes "distinct (map tk_id ts)" and "t \<in> set ts"
    and "pv_nearReset (view_of (judgePool ts limits now) t)"
  shows "(\<exists>r. ms (mt_weeklyResetsAt (metersOf (tk_usage t))) = Fin r \<and> r - of_int now \<le> nearResetHours limits * 3600000) \<and>
    nearResetFloor limits \<le> of_nat (card {u \<in> set ts. tk_id u \<noteq> tk_id t \<and> usable (judge u limits now False)})"
proof -
  let ?plain = "plain_views ts limits now"
  have "pv_nearReset (judge t limits now nr) \<Longrightarrow> nr" for nr
    by (auto simp: judge_def base_view_def Let_def split: option.splits if_splits)
  with assms(3) have near: "near_reset ts limits now ?plain t"
    unfolding pool_view [OF assms(1,2)] by blast
  then obtain h where h: "hoursToReset t now = Some h" "h \<le> nearResetHours limits"
    "nearResetFloor limits \<le> of_nat (ready_others ts ?plain t)"
    by (auto simp: near_reset_def split: option.splits)
  have "\<exists>r. ms (mt_weeklyResetsAt (metersOf (tk_usage t))) = Fin r \<and> r - of_int now \<le> nearResetHours limits * 3600000"
    using h(1,2) by (auto simp: hoursToReset_def Let_def max_def divide_le_eq split: xnum.splits if_splits)
  moreover have "filter (\<lambda>u. tk_id u \<noteq> tk_id t \<and> usable (view_of ?plain u)) ts =
      filter (\<lambda>u. tk_id u \<noteq> tk_id t \<and> usable (judge u limits now False)) ts"
    by (rule filter_cong [OF refl]) (simp add: plain_view [OF assms(1)])
  moreover have "distinct ts" using assms(1) by (simp add: distinct_map)
  ultimately show ?thesis
    using h(3) distinct_card [of "filter (\<lambda>u. tk_id u \<noteq> tk_id t \<and> usable (judge u limits now False)) ts"]
    by (simp add: ready_others_def)
qed

theorem near_reset_floor_witness:
  "1 \<le> card {u \<in> set [sample_token ''a'' 10 99 3600000 2, sample_token ''b'' 20 60 (2 * day) 0].
     tk_id u \<noteq> ''a'' \<and> usable (judge u POOL_DEFAULTS 0 False)}"
proof -
  let ?ts = "[sample_token ''a'' 10 99 3600000 2, sample_token ''b'' 20 60 (2 * day) 0]"
  have "nearResetFloor POOL_DEFAULTS \<le> of_nat (card {u \<in> set ?ts. tk_id u \<noteq> tk_id (sample_token ''a'' 10 99 3600000 2) \<and>
      usable (judge u POOL_DEFAULTS 0 False)})"
    by (rule near_reset_floor [THEN conjunct2]) (simp add: sample_token_def, simp, code_simp)
  then show ?thesis
    by (simp add: POOL_DEFAULTS_def) (simp add: sample_token_def)
qed

section \<open>The dispatcher's buffer\<close>

lemma max_of_ge:
  assumes "x \<in> set xs"
  shows "x \<le> max_of xs"
proof -
  have "y \<in> set (z # zs) \<Longrightarrow> y \<le> foldr max zs z" for y z :: num' and zs
    by (induction zs) (auto simp: max.coboundedI1 max.coboundedI2)
  from this [of x "hd xs" "tl xs"] assms show ?thesis
    by (cases xs) (auto simp: max_of_def)
qed

lemma reserve_until:
  assumes "rs_weeklyIn (reserveOf u limits now)" and "ms (mt_weeklyResetsAt (metersOf u)) = Fin reset"
    and "rs_until (reserveOf u limits now) = Some (At e)"
  shows "\<exists>xs. e = js_trunc (max_of (weekly_lift (reservePerDay limits) (mt_weekly (metersOf u)) reset # xs))"
proof -
  have "rs_until (reserveOf u limits now) = Some (At (js_trunc (max_of
      ([weekly_lift (reservePerDay limits) (mt_weekly (metersOf u)) reset]
       @ (if rs_sessionIn (reserveOf u limits now) then fin_list (ms (mt_sessionResetsAt (metersOf u))) else [])
       @ (if rs_stopWeekly (reserveOf u limits now) then [reset] else [])
       @ (if rs_stopSession (reserveOf u limits now) then fin_list (ms (mt_sessionResetsAt (metersOf u))) else [])))))"
    using assms(1,2) by (simp add: reserveOf_def Let_def)
  then show ?thesis using assms(3) by auto
qed

text \<open>
  The week's buffer ends when it says: with an unchanged reading below 100%, after the time
  \<open>until\<close> the code gives for a token inside its buffer, the weekly meter is outside the buffer.
\<close>

theorem weekly_buffer_lifts:
  assumes "rs_weeklyIn (reserveOf u limits now)" and "rs_until (reserveOf u limits now) = Some (At e)"
    and "e < later" and "0 \<le> e" and "0 < reservePerDay limits" and "mt_weekly (metersOf u) < 100"
    and "ms (mt_weeklyResetsAt (metersOf u)) = Fin reset"
  shows "\<not> rs_weeklyIn (reserveOf u limits later)"
proof -
  let ?w = "mt_weekly (metersOf u)" and ?d = "reservePerDay limits"
  let ?lift = "reset - (100 - ?w) / ?d * DAY_MS"
  obtain xs where "e = js_trunc (max_of (weekly_lift ?d ?w reset # xs))"
    using reserve_until [OF assms(1,7,2)] by blast
  then obtain lifts where ls: "?lift \<in> set lifts" "e = js_trunc (max_of lifts)"
    using assms(5,6) by (metis list.set_intros(1) weekly_lift_def)
  then have "?lift \<le> max_of lifts" by (blast intro: max_of_ge)
  moreover have "max_of lifts < of_int later"
  proof (cases "0 \<le> max_of lifts")
    case True
    then show ?thesis using assms(3) ls(2) by (simp add: js_trunc_def floor_less_iff)
  next
    case False
    then show ?thesis using assms(3,4) by linarith
  qed
  ultimately have late: "reset - of_int later < (100 - ?w) / ?d * DAY_MS" by linarith
  have "?d * min 7 (max 0 ((reset - of_int later) / DAY_MS)) < 100 - ?w"
  proof -
    have "(reset - of_int later) / DAY_MS < (100 - ?w) / ?d"
      using late by (simp add: divide_less_eq DAY_MS_def)
    moreover have "0 < (100 - ?w) / ?d" using assms(5,6) by simp
    ultimately have "min 7 (max 0 ((reset - of_int later) / DAY_MS)) < (100 - ?w) / ?d"
      by (simp add: min_def max_def)
    then show ?thesis using assms(5) by (simp add: less_divide_eq mult.commute)
  qed
  then have "?w < 100 - min 100 (?d * days_left (Fin reset) later)"
    by (auto simp: days_left_def min_def split: if_splits)
  then show ?thesis
    using assms(7) by (simp add: reserveOf_def Let_def not_le)
qed

theorem weekly_buffer_lifts_witness:
  "\<not> rs_weeklyIn (reserveOf (tk_usage (sample_token ''a'' 10 90 (5 * day) 0)) POOL_DEFAULTS (3 * day + 1))"
proof (rule weekly_buffer_lifts [of _ _ 0 "3 * day"])
  show "rs_weeklyIn (reserveOf (tk_usage (sample_token ''a'' 10 90 (5 * day) 0)) POOL_DEFAULTS 0)" by code_simp
  show "rs_until (reserveOf (tk_usage (sample_token ''a'' 10 90 (5 * day) 0)) POOL_DEFAULTS 0) = Some (At (3 * day))"
    by code_simp
  show "0 < reservePerDay POOL_DEFAULTS" by code_simp
  show "mt_weekly (metersOf (tk_usage (sample_token ''a'' 10 90 (5 * day) 0))) < 100" by code_simp
  show "ms (mt_weeklyResetsAt (metersOf (tk_usage (sample_token ''a'' 10 90 (5 * day) 0)))) = Fin (of_int (5 * day))"
    by code_simp
qed (simp_all add: day_def)

text \<open>A meter under 100 may still read as 100 with one decimal.\<close>

lemma pc_reads_100_below_100: "pc (9996 / 100) = Tenths 1000"
  by code_simp

end
