(* ===== verification/Timers.thy ===== *)
theory Timers
  imports FF_Json
begin

text \<open>
  The orchestrator timers (server/timers.ts, class \<open>Timers\<close>). A timer record is an object the code
  changes in place, so an operation that throws keeps what it changed before: an operation
  returns the state and an error or its result. The state is the map of timers in insertion
  order, the delivery times per orchestrator and the count of random numbers drawn. Times are
  whole milliseconds (\<open>toISOString\<close> keeps them exactly); the sessions, the clock, the time-zone
  offsets (\<open>Intl\<close>) and \<open>Math.random\<close> are the environment of a call. One call reads one time.
\<close>

section \<open>Records\<close>

datatype schedule = Once int | Every int | Daily string string

record requester =
  userId :: string
  displayName :: string

record pending =
  pe_count :: int
  pe_missed :: int
  pe_since :: int
  pe_held :: bool

datatype end_reason = Fired | UntilPassed | MaxFires | Cancelled

record timer =
  tm_id :: string
  tm_owner :: string
  tm_title :: string
  tm_note :: string
  tm_schedule :: schedule
  tm_jitter :: "int option"
  tm_until :: "int option"
  tm_maxFires :: "int option"
  tm_skipIfBusy :: bool
  tm_createdBy :: string
  tm_createdAt :: int
  tm_updatedAt :: int
  tm_fires :: int
  tm_lastFiredAt :: "int option"
  tm_lastDeliveredAt :: "int option"
  tm_nextDueAt :: "int option"
  tm_nextFireAt :: "int option"
  tm_enabled :: bool
  tm_pending :: "pending option"
  tm_skipped :: int
  tm_endedAt :: "int option"
  tm_endReason :: "end_reason option"
  tm_person :: "requester option"
  tm_workIds :: "string list"

record authority =
  au_person :: requester
  au_workIds :: "string list"

text \<open>A line of a message: the timer, what its fire stands for, and how it ended.\<close>

record timer_line =
  ln_id :: string
  ln_title :: string
  ln_note :: string
  ln_count :: int
  ln_missed :: int
  ln_ended :: "end_reason option"

record timer_message =
  ms_lines :: "timer_line list"
  ms_held :: bool
  ms_authority :: "authority option"

definition activePerOwner :: nat where "activePerOwner = 20"
definition minEveryMinutes :: int where "minEveryMinutes = 5"
definition maxEveryMinutes :: int where "maxEveryMinutes = 7 * 24 * 60"
definition maxJitterMinutes :: int where "maxJitterMinutes = 60"
definition deliveriesPerDay :: nat where "deliveriesPerDay = 96"
definition titleLimit :: nat where "titleLimit = 120"
definition noteLimit :: nat where "noteLimit = 4000"
definition keepEnded :: nat where "keepEnded = 20"
definition MISSED_AFTER_MS :: int where "MISSED_AFTER_MS = 5 * 60000"
definition DAY :: int where "DAY = 24 * 3600000"

record timers =
  ts_timers :: "(string \<times> timer) list"
  ts_deliveries :: "(string \<times> int list) list"
  ts_draws :: nat

record timer_env =
  te_now :: int
  te_draw :: "nat \<Rightarrow> num'"
  te_newId :: string
  te_exists :: "string \<Rightarrow> bool"
  te_busy :: "string \<Rightarrow> bool"
  te_deliver :: "string \<Rightarrow> timer_message \<Rightarrow> bool"
  te_tzOffset :: "string \<Rightarrow> int \<Rightarrow> int"
  te_validTz :: "string \<Rightarrow> bool"
  te_localTz :: string
  te_dryRun :: bool
  te_file :: bool

datatype timer_error =
    InDryRun
  | NoOrchestrator
  | TooMany nat
  | NoTimer string
  | HasEnded string
  | TitleEmpty
  | NoteEmpty
  | NoteLong
  | JitterBad
  | UntilBad
  | MaxFiresBad
  | ScheduleNotOne
  | AtBad
  | AtPassed
  | AtFar
  | EveryBad
  | DailyBad
  | TzBad
  | NoNextTime
  | UntilBeforeFirst

section \<open>The clock\<close>

text \<open>\<open>HH:MM\<close>, 24 hours.\<close>

definition hhmm :: "string \<Rightarrow> (int \<times> int) option" where
  "hhmm s =
     (case s of
        [a, b, c, d, e] \<Rightarrow>
          if is_digit a \<and> is_digit b \<and> c = CHR '':'' \<and> is_digit d \<and> is_digit e \<and> code d \<le> 53 \<and>
             (code a = 48 \<or> code a = 49 \<or> code a = 50 \<and> code b \<le> 51)
          then Some (10 * (int (code a) - 48) + (int (code b) - 48), 10 * (int (code d) - 48) + (int (code e) - 48))
          else None
      | _ \<Rightarrow> None)"

text \<open>
  \<open>Date.UTC(y, m, d + k, h, min)\<close> of the day \<open>local\<close> falls on: that day's midnight, \<open>k\<close> days on, at
  \<open>h:min\<close>.
\<close>

definition utc_at :: "int \<Rightarrow> int \<Rightarrow> int \<Rightarrow> int \<Rightarrow> int" where
  "utc_at loc k h m = (loc div DAY + k) * DAY + h * 3600000 + m * 60000"

definition daily_try :: "(int \<Rightarrow> int) \<Rightarrow> int \<Rightarrow> int \<Rightarrow> int \<Rightarrow> int \<Rightarrow> int" where
  "daily_try off loc h m k =
     (let guess = utc_at loc k h m; rough = guess - off guess in guess - off rough)"

definition nextDaily :: "(int \<Rightarrow> int) \<Rightarrow> string \<Rightarrow> int \<Rightarrow> timer_error + int" where
  "nextDaily off time after =
     (case hhmm time of
        None \<Rightarrow> Inl DailyBad
      | Some (h, m) \<Rightarrow>
          (case find (\<lambda>t. after < t) (map (daily_try off (after + off after) h m) [0, 1, 2]) of
             Some t \<Rightarrow> Inr t
           | None \<Rightarrow> Inl NoNextTime))"

section \<open>The state\<close>

abbreviation get_timer :: "timers \<Rightarrow> string \<Rightarrow> timer option" where
  "get_timer st x \<equiv> map_of (ts_timers st) x"

text \<open>A change to the record under an id, in place.\<close>

definition upd :: "string \<Rightarrow> (timer \<Rightarrow> timer) \<Rightarrow> timers \<Rightarrow> timers" where
  "upd x f st = st\<lparr>ts_timers := AList.map_entry x f (ts_timers st)\<rparr>"

definition of_owner :: "timers \<Rightarrow> string \<Rightarrow> timer list" where
  "of_owner st o' = filter (\<lambda>t. tm_owner t = o') (map snd (ts_timers st))"

definition deliveries_of :: "timers \<Rightarrow> string \<Rightarrow> int list" where
  "deliveries_of st o' = (case map_of (ts_deliveries st) o' of Some xs \<Rightarrow> xs | None \<Rightarrow> [])"

text \<open>\<open>changed\<close>: saving drops the delivery times older than a day.\<close>

definition changed :: "timer_env \<Rightarrow> timers \<Rightarrow> timers" where
  "changed e st =
     (if te_file e then st\<lparr>ts_deliveries := map (\<lambda>(k, xs). (k, filter (\<lambda>x. te_now e - DAY < x) xs)) (ts_deliveries st)\<rparr>
      else st)"

definition mine :: "timers \<Rightarrow> string \<Rightarrow> string \<Rightarrow> timer option" where
  "mine st o' x =
     (case get_timer st (trim x) of Some t \<Rightarrow> if tm_owner t = o' then Some t else None | None \<Rightarrow> None)"

text \<open>Only the newest ended ones of an owner are kept.\<close>

definition newest_ended :: "timer \<Rightarrow> timer \<Rightarrow> int" where
  "newest_ended a b = cmp_num (case tm_endedAt b of Some t \<Rightarrow> t | None \<Rightarrow> 0) (case tm_endedAt a of Some t \<Rightarrow> t | None \<Rightarrow> 0)"

definition prune_ended :: "string \<Rightarrow> timers \<Rightarrow> timers" where
  "prune_ended o' st =
     (let ended = js_sort newest_ended (filter (\<lambda>t. tm_endedAt t \<noteq> None \<and> tm_pending t = None) (of_owner st o'))
      in st\<lparr>ts_timers := fold AList.delete (map tm_id (drop keepEnded ended)) (ts_timers st)\<rparr>)"

definition end_record :: "int \<Rightarrow> end_reason \<Rightarrow> bool \<Rightarrow> timer \<Rightarrow> timer" where
  "end_record now why keepPending t =
     t\<lparr>tm_endedAt := Some now, tm_endReason := Some why, tm_enabled := False, tm_nextDueAt := None,
       tm_nextFireAt := None, tm_pending := (if keepPending then tm_pending t else None)\<rparr>"

definition end_timer :: "timer_env \<Rightarrow> timer \<Rightarrow> end_reason \<Rightarrow> bool \<Rightarrow> timers \<Rightarrow> timers" where
  "end_timer e t why keepPending st =
     prune_ended (tm_owner t) (upd (tm_id t) (end_record (te_now e) why keepPending) st)"

text \<open>The next due time after \<open>now\<close>: counted from now when fresh, else from the last due time.\<close>

definition next_due :: "timer_env \<Rightarrow> bool \<Rightarrow> timer \<Rightarrow> timer_error + int" where
  "next_due e fresh t =
     (let now = te_now e
      in case tm_schedule t of
           Once at' \<Rightarrow> Inr at'
         | Every m \<Rightarrow>
             (let step = m * 60000;
                  last = (if fresh then now else case tm_nextDueAt t of Some d \<Rightarrow> d | None \<Rightarrow> now)
              in Inr (if fresh then now + step else last + step * max 1 ((now - last) div step + 1)))
         | Daily time tz \<Rightarrow> nextDaily (te_tzOffset e (if tz \<noteq> [] then tz else te_localTz e)) time now)"

definition set_next :: "int option \<Rightarrow> int option \<Rightarrow> timer \<Rightarrow> timer" where
  "set_next due fire t = t\<lparr>tm_nextDueAt := due, tm_nextFireAt := fire\<rparr>"

type_synonym outcome = "timers \<times> timer_error option"

definition jitter_ms :: "timer_env \<Rightarrow> timer \<Rightarrow> nat \<Rightarrow> int" where
  "jitter_ms e t n = (case tm_jitter t of Some j \<Rightarrow> floor (te_draw e n * of_int j * 60000) | None \<Rightarrow> 0)"

definition reschedule :: "timer_env \<Rightarrow> string \<Rightarrow> bool \<Rightarrow> timers \<Rightarrow> outcome" where
  "reschedule e x fresh st =
     (case get_timer st x of
        None \<Rightarrow> (st, None)
      | Some t \<Rightarrow>
          (case next_due e fresh t of
             Inl err \<Rightarrow> (st, Some err)
           | Inr due \<Rightarrow>
               if (case tm_until t of Some u \<Rightarrow> u < due | None \<Rightarrow> False) then
                 (let st1 = upd x (set_next None None) st
                  in if \<not> fresh \<or> 0 < tm_fires t then (end_timer e t UntilPassed True st1, None)
                     else (st1, Some UntilBeforeFirst))
               else
                 (upd x (set_next (Some due) (Some (due + jitter_ms e t (ts_draws st))))
                    (st\<lparr>ts_draws := ts_draws st + (if tm_jitter t = None then 0 else 1)\<rparr>), None)))"

section \<open>The fields of create and update\<close>

record sched_in =
  si_at :: "(stamp \<times> bool) option"
  si_every :: "num' option"
  si_daily :: "string option"
  si_tz :: "string option"

datatype until_in = UntilNone | UntilClear | UntilAt stamp

record timer_input =
  ti_title :: "string option"
  ti_note :: "string option"
  ti_schedule :: "sched_in option"
  ti_jitter :: "num' option"
  ti_until :: until_in
  ti_maxFires :: "num' option"
  ti_skipIfBusy :: "bool option"

text \<open>
  \<open>parseSchedule\<close>. A text for \<open>at\<close> is its time, with whether it ends in a zone.
\<close>

definition parseSchedule :: "timer_env \<Rightarrow> sched_in \<Rightarrow> timer_error + schedule" where
  "parseSchedule e s =
     (let now = te_now e
      in if length (filter id [si_at s \<noteq> None, si_every s \<noteq> None, si_daily s \<noteq> None]) \<noteq> 1 then Inl ScheduleNotOne
         else case si_at s of
           Some (text', zone) \<Rightarrow>
             (case stamp_ms text' of
                None \<Rightarrow> Inl AtBad
              | Some t \<Rightarrow> if \<not> zone then Inl AtBad
                         else if t \<le> now then Inl AtPassed
                         else if now + 366 * DAY < t then Inl AtFar
                         else Inr (Once t))
         | None \<Rightarrow>
             (case si_every s of
                Some m \<Rightarrow> if is_integer m \<and> of_int minEveryMinutes \<le> m \<and> m \<le> of_int maxEveryMinutes
                          then Inr (Every (floor m)) else Inl EveryBad
              | None \<Rightarrow>
                  (let time = (case si_daily s of Some d \<Rightarrow> d | None \<Rightarrow> [])
                   in if hhmm time = None then Inl DailyBad
                      else case si_tz s of
                        Some z \<Rightarrow> if te_validTz e z then Inr (Daily time z) else Inl TzBad
                      | None \<Rightarrow> Inr (Daily time []))))"

definition and_then :: "outcome \<Rightarrow> (timers \<Rightarrow> outcome) \<Rightarrow> outcome" where
  "and_then r f = (case r of (st, None) \<Rightarrow> f st | (st, Some err) \<Rightarrow> (st, Some err))"

definition set_title :: "string \<Rightarrow> timer_input \<Rightarrow> bool \<Rightarrow> timers \<Rightarrow> outcome" where
  "set_title x i creating st =
     (if ti_title i = None \<and> \<not> creating then (st, None)
      else (let title = join '' '' (words (case ti_title i of Some s \<Rightarrow> s | None \<Rightarrow> []))
            in if title = [] then (st, Some TitleEmpty)
               else (upd x (\<lambda>t. t\<lparr>tm_title := take titleLimit title\<rparr>) st, None)))"

definition set_note :: "string \<Rightarrow> timer_input \<Rightarrow> bool \<Rightarrow> timers \<Rightarrow> outcome" where
  "set_note x i creating st =
     (if ti_note i = None \<and> \<not> creating then (st, None)
      else (let note = trim (case ti_note i of Some s \<Rightarrow> s | None \<Rightarrow> [])
            in if note = [] then (st, Some NoteEmpty)
               else if noteLimit < length note then (st, Some NoteLong)
               else (upd x (\<lambda>t. t\<lparr>tm_note := note\<rparr>) st, None)))"

definition set_jitter :: "string \<Rightarrow> timer_input \<Rightarrow> timers \<Rightarrow> outcome" where
  "set_jitter x i st =
     (case ti_jitter i of
        None \<Rightarrow> (st, None)
      | Some j \<Rightarrow>
          if \<not> is_integer j \<or> j < 0 \<or> of_int maxJitterMinutes < j then (st, Some JitterBad)
          else (upd x (\<lambda>t. t\<lparr>tm_jitter := (if j = 0 then None else Some (floor j))\<rparr>) st, None))"

definition set_until :: "timer_env \<Rightarrow> string \<Rightarrow> timer_input \<Rightarrow> timers \<Rightarrow> outcome" where
  "set_until e x i st =
     (case ti_until i of
        UntilNone \<Rightarrow> (st, None)
      | UntilClear \<Rightarrow> (upd x (\<lambda>t. t\<lparr>tm_until := None\<rparr>) st, None)
      | UntilAt s \<Rightarrow>
          (case stamp_ms s of
             None \<Rightarrow> (st, Some UntilBad)
           | Some u \<Rightarrow> if u \<le> te_now e then (st, Some UntilBad)
                      else (upd x (\<lambda>t. t\<lparr>tm_until := Some u\<rparr>) st, None)))"

definition set_maxFires :: "string \<Rightarrow> timer_input \<Rightarrow> timers \<Rightarrow> outcome" where
  "set_maxFires x i st =
     (case ti_maxFires i of
        None \<Rightarrow> (st, None)
      | Some m \<Rightarrow>
          if \<not> is_integer m \<or> m < 1 \<or> 10000 < m then (st, Some MaxFiresBad)
          else (upd x (\<lambda>t. t\<lparr>tm_maxFires := Some (floor m)\<rparr>) st, None))"

definition set_skip :: "string \<Rightarrow> timer_input \<Rightarrow> timers \<Rightarrow> outcome" where
  "set_skip x i st =
     (case ti_skipIfBusy i of None \<Rightarrow> (st, None) | Some b \<Rightarrow> (upd x (\<lambda>t. t\<lparr>tm_skipIfBusy := b\<rparr>) st, None))"

definition empty_sched :: sched_in where
  "empty_sched = \<lparr>si_at = None, si_every = None, si_daily = None, si_tz = None\<rparr>"

definition set_schedule :: "timer_env \<Rightarrow> string \<Rightarrow> timer_input \<Rightarrow> bool \<Rightarrow> timers \<Rightarrow> outcome" where
  "set_schedule e x i creating st =
     (if ti_schedule i \<noteq> None \<or> creating then
        (case parseSchedule e (case ti_schedule i of Some s \<Rightarrow> s | None \<Rightarrow> empty_sched) of
           Inl err \<Rightarrow> (st, Some err)
         | Inr s \<Rightarrow> reschedule e x True (upd x (\<lambda>t. t\<lparr>tm_schedule := s\<rparr>) st))
      else if ti_jitter i \<noteq> None \<or> ti_until i \<noteq> UntilNone then reschedule e x True st
      else (st, None))"

definition apply_input :: "timer_env \<Rightarrow> string \<Rightarrow> timer_input \<Rightarrow> bool \<Rightarrow> timers \<Rightarrow> outcome" where
  "apply_input e x i creating st =
     and_then (set_title x i creating st) (\<lambda>st.
     and_then (set_note x i creating st) (\<lambda>st.
     and_then (set_jitter x i st) (\<lambda>st.
     and_then (set_until e x i st) (\<lambda>st.
     and_then (set_maxFires x i st) (\<lambda>st.
     and_then (set_skip x i st) (\<lambda>st.
     set_schedule e x i creating st))))))"

section \<open>The tools' half\<close>

definition new_timer :: "timer_env \<Rightarrow> string \<Rightarrow> string \<Rightarrow> authority option \<Rightarrow> timer" where
  "new_timer e o' by_who auth =
     \<lparr>tm_id = te_newId e, tm_owner = o', tm_title = [], tm_note = [], tm_schedule = Every 60, tm_jitter = None,
      tm_until = None, tm_maxFires = None, tm_skipIfBusy = False, tm_createdBy = by_who, tm_createdAt = te_now e,
      tm_updatedAt = te_now e, tm_fires = 0, tm_lastFiredAt = None, tm_lastDeliveredAt = None, tm_nextDueAt = None,
      tm_nextFireAt = None, tm_enabled = True, tm_pending = None, tm_skipped = 0, tm_endedAt = None,
      tm_endReason = None, tm_person = map_option au_person auth,
      tm_workIds = (case auth of Some a \<Rightarrow> au_workIds a | None \<Rightarrow> [])\<rparr>"

text \<open>A new record enters the map only once its fields hold; a refused one leaves nothing.\<close>

definition create :: "timer_env \<Rightarrow> string \<Rightarrow> timer_input \<Rightarrow> string \<Rightarrow> authority option \<Rightarrow> timers \<Rightarrow> outcome" where
  "create e o' i by_who auth st =
     (let active = filter (\<lambda>t. tm_endedAt t = None) (of_owner st o')
      in if te_dryRun e then (st, Some InDryRun)
         else if \<not> te_exists e o' then (st, Some NoOrchestrator)
         else if activePerOwner \<le> length active then (st, Some (TooMany (length active)))
         else
           (let t = new_timer e o' by_who auth
            in case apply_input e (tm_id t) i True (st\<lparr>ts_timers := AList.update (tm_id t) t (ts_timers st)\<rparr>) of
                 (_, Some err) \<Rightarrow> (st, Some err)
               | (st', None) \<Rightarrow> (changed e st', None)))"

definition set_enabled :: "timer_env \<Rightarrow> string \<Rightarrow> bool option \<Rightarrow> timers \<Rightarrow> outcome" where
  "set_enabled e x on st =
     (case (on, get_timer st x) of
        (Some b, Some t) \<Rightarrow>
          if b = tm_enabled t then (st, None)
          else (let st1 = upd x (\<lambda>t. t\<lparr>tm_enabled := b\<rparr>) st
                in if b then reschedule e x True st1 else (upd x (\<lambda>t. t\<lparr>tm_pending := None\<rparr>) st1, None))
      | _ \<Rightarrow> (st, None))"

definition update :: "timer_env \<Rightarrow> string \<Rightarrow> string \<Rightarrow> timer_input \<Rightarrow> bool option \<Rightarrow> timers \<Rightarrow> outcome" where
  "update e o' y i on st =
     (case mine st o' y of
        None \<Rightarrow> (st, Some (NoTimer y))
      | Some t \<Rightarrow>
          if tm_endedAt t \<noteq> None then (st, Some (HasEnded y))
          else
            and_then (apply_input e (tm_id t) i False st) (\<lambda>st.
            and_then (set_enabled e (tm_id t) on st) (\<lambda>st.
            (changed e (upd (tm_id t) (\<lambda>t. t\<lparr>tm_updatedAt := te_now e\<rparr>) st), None))))"

definition cancel :: "timer_env \<Rightarrow> string \<Rightarrow> string \<Rightarrow> timers \<Rightarrow> outcome" where
  "cancel e o' y st =
     (case mine st o' y of
        None \<Rightarrow> (st, Some (NoTimer y))
      | Some t \<Rightarrow> (changed e (if tm_endedAt t = None then end_timer e t Cancelled False st else st), None))"

definition rehome :: "timer_env \<Rightarrow> string \<Rightarrow> string \<Rightarrow> timers \<Rightarrow> timers \<times> nat" where
  "rehome e from' to' st =
     (if from' = [] \<or> from' = to' then (st, 0)
      else
        (let n = length (of_owner st from');
             st1 = st\<lparr>ts_timers := map (\<lambda>(k, t). (k, if tm_owner t = from' then t\<lparr>tm_owner := to'\<rparr> else t)) (ts_timers st)\<rparr>
         in if n = 0 then (st1, 0)
            else
              (let ds = (if map_of (ts_deliveries st1) from' \<noteq> None
                         then AList.update to' (deliveries_of st1 to' @ deliveries_of st1 from') (ts_deliveries st1)
                         else ts_deliveries st1)
               in (changed e (st1\<lparr>ts_deliveries := AList.delete from' ds\<rparr>), n))))"

definition soonest_fire :: "timer \<Rightarrow> timer \<Rightarrow> int" where
  "soonest_fire a b =
     (case (tm_nextFireAt a, tm_nextFireAt b) of
        (Some x, Some y) \<Rightarrow> cmp_num x y
      | (None, Some _) \<Rightarrow> -1 | (Some _, None) \<Rightarrow> 1 | (None, None) \<Rightarrow> 0)"

definition list_timers :: "string \<Rightarrow> timers \<Rightarrow> timer list" where
  "list_timers o' st =
     (let all' = of_owner st o'
      in js_sort soonest_fire (filter (\<lambda>t. tm_endedAt t = None) all') @
         js_sort newest_ended (filter (\<lambda>t. tm_endedAt t \<noteq> None) all'))"

definition deliveredToday :: "timer_env \<Rightarrow> string \<Rightarrow> timers \<Rightarrow> nat" where
  "deliveredToday e o' st = length (filter (\<lambda>x. te_now e - DAY < x) (deliveries_of st o'))"

section \<open>Firing and delivering\<close>

text \<open>How many scheduled fires a late one stands for.\<close>

definition missed_of :: "int \<Rightarrow> timer \<Rightarrow> int" where
  "missed_of now t =
     (let due = (case tm_nextDueAt t of Some d \<Rightarrow> d | None \<Rightarrow> (case tm_nextFireAt t of Some f \<Rightarrow> f | None \<Rightarrow> now));
          period = (case tm_schedule t of Every m \<Rightarrow> m * 60000 | Daily _ _ \<Rightarrow> DAY | Once _ \<Rightarrow> 0);
          late = now - due
      in if MISSED_AFTER_MS < late then (if 0 < period then late div period + 1 else 1) else 0)"

definition add_fire :: "int \<Rightarrow> int \<Rightarrow> timer \<Rightarrow> timer" where
  "add_fire now missed t =
     (let p = (case tm_pending t of Some p \<Rightarrow> p | None \<Rightarrow> \<lparr>pe_count = 0, pe_missed = 0, pe_since = now, pe_held = False\<rparr>)
      in t\<lparr>tm_pending := Some (p\<lparr>pe_count := pe_count p + 1, pe_missed := pe_missed p + missed\<rparr>)\<rparr>)"

definition mark_fire :: "timer_env \<Rightarrow> timer \<Rightarrow> timer" where
  "mark_fire e t =
     (let t1 = t\<lparr>tm_fires := tm_fires t + 1, tm_lastFiredAt := Some (te_now e)\<rparr>
      in if tm_skipIfBusy t \<and> te_busy e (tm_owner t) then t1\<lparr>tm_skipped := tm_skipped t + 1\<rparr>
         else add_fire (te_now e) (missed_of (te_now e) t) t1)"

definition fire :: "timer_env \<Rightarrow> timer \<Rightarrow> timers \<Rightarrow> timers" where
  "fire e t st =
     (let x = tm_id t; t1 = mark_fire e t; st1 = upd x (\<lambda>_. t1) st;
          st2 = (if (case tm_schedule t of Once _ \<Rightarrow> True | _ \<Rightarrow> False) then end_timer e t1 Fired True st1
                 else if (case tm_maxFires t of Some m \<Rightarrow> m \<le> tm_fires t1 | None \<Rightarrow> False) then end_timer e t1 MaxFires True st1
                 else fst (reschedule e x False st1))
      in changed e (upd x (\<lambda>t. t\<lparr>tm_updatedAt := te_now e\<rparr>) st2))"

definition whose :: "timer \<Rightarrow> string" where
  "whose t = (case tm_person t of Some p \<Rightarrow> lower (userId p) | None \<Rightarrow> [])"

text \<open>One person's job per message: the first pending timer's person, and all of that person's.\<close>

definition due_timers :: "timers \<Rightarrow> string \<Rightarrow> timer list" where
  "due_timers st o' =
     (case filter (\<lambda>t. tm_pending t \<noteq> None) (of_owner st o') of
        [] \<Rightarrow> []
      | t0 # ts \<Rightarrow> filter (\<lambda>t. whose t = whose t0) (t0 # ts))"

definition line_of :: "timer \<Rightarrow> timer_line" where
  "line_of t =
     \<lparr>ln_id = tm_id t, ln_title = tm_title t, ln_note = tm_note t,
      ln_count = (case tm_pending t of Some p \<Rightarrow> pe_count p | None \<Rightarrow> 0),
      ln_missed = (case tm_pending t of Some p \<Rightarrow> pe_missed p | None \<Rightarrow> 0),
      ln_ended = (if tm_endedAt t = None then None else tm_endReason t)\<rparr>"

definition is_held :: "timer \<Rightarrow> bool" where
  "is_held t = (case tm_pending t of Some p \<Rightarrow> pe_held p | None \<Rightarrow> False)"

definition message_of :: "timer list \<Rightarrow> timer_message" where
  "message_of due =
     \<lparr>ms_lines = map line_of due, ms_held = list_ex is_held due,
      ms_authority = map_option (\<lambda>p. \<lparr>au_person = p, au_workIds = js_unique (concat (map tm_workIds due))\<rparr>)
        (tm_person (hd due))\<rparr>"

definition recent :: "timer_env \<Rightarrow> string \<Rightarrow> timers \<Rightarrow> int list" where
  "recent e o' st = filter (\<lambda>x. te_now e - DAY < x) (deliveries_of st o')"

definition hold :: "timer \<Rightarrow> timer" where
  "hold t = t\<lparr>tm_pending := map_option (\<lambda>p. p\<lparr>pe_held := True\<rparr>) (tm_pending t)\<rparr>"

definition delivered :: "int \<Rightarrow> timer \<Rightarrow> timer" where
  "delivered now t = t\<lparr>tm_pending := None, tm_lastDeliveredAt := Some now\<rparr>"

definition upd_all :: "timer list \<Rightarrow> (timer \<Rightarrow> timer) \<Rightarrow> timers \<Rightarrow> timers" where
  "upd_all ts f st = fold (\<lambda>t. upd (tm_id t) f) ts st"

definition flush :: "timer_env \<Rightarrow> string \<Rightarrow> timers \<Rightarrow> timers \<times> timer_message option" where
  "flush e o' st =
     (let due = due_timers st o'
      in if te_dryRun e \<or> due = [] \<or> \<not> te_exists e o' \<or> te_busy e o' then (st, None)
         else if deliveriesPerDay \<le> length (recent e o' st) then
           (if list_ex (\<lambda>t. \<not> is_held t) due then (changed e (upd_all due hold st), None) else (st, None))
         else if \<not> te_deliver e o' (message_of due) then (st, None)
         else
           (changed e ((upd_all due (delivered (te_now e)) st)
              \<lparr>ts_deliveries := AList.update o' (recent e o' st @ [te_now e]) (ts_deliveries st)\<rparr>),
            Some (message_of due)))"

definition is_due :: "timer_env \<Rightarrow> timer \<Rightarrow> bool" where
  "is_due e t =
     (tm_endedAt t = None \<and> tm_enabled t \<and> te_exists e (tm_owner t) \<and>
      (case tm_nextFireAt t of Some f \<Rightarrow> f \<le> te_now e | None \<Rightarrow> False))"

definition fire_due :: "timer_env \<Rightarrow> string \<Rightarrow> timers \<Rightarrow> timers" where
  "fire_due e x st = (case get_timer st x of Some t \<Rightarrow> if is_due e t then fire e t st else st | None \<Rightarrow> st)"

definition flush_one :: "timer_env \<Rightarrow> string \<Rightarrow> timers \<times> (string \<times> timer_message) list \<Rightarrow> timers \<times> (string \<times> timer_message) list" where
  "flush_one e o' = (\<lambda>(st, out). case flush e o' st of (st', m) \<Rightarrow>
     (st', out @ (case m of Some m \<Rightarrow> [(o', m)] | None \<Rightarrow> [])))"

definition owners_pending :: "timers \<Rightarrow> string list" where
  "owners_pending st = js_unique (map tm_owner (filter (\<lambda>t. tm_pending t \<noteq> None) (map snd (ts_timers st))))"

definition tick :: "timer_env \<Rightarrow> timers \<Rightarrow> timers \<times> (string \<times> timer_message) list" where
  "tick e st =
     (if te_dryRun e then (st, [])
      else (let st1 = fold (fire_due e) (map fst (ts_timers st)) st
            in fold (flush_one e) (owners_pending st1) (st1, [])))"

definition turnEnded :: "timer_env \<Rightarrow> string \<Rightarrow> timers \<Rightarrow> timers \<times> (string \<times> timer_message) list" where
  "turnEnded e o' st = flush_one e o' (st, [])"

text \<open>\<open>load\<close>: what the file held, over what is there.\<close>

definition load :: "timer list \<Rightarrow> (string \<times> int list) list \<Rightarrow> timers \<Rightarrow> timers" where
  "load saved ds st =
     st\<lparr>ts_timers := fold (\<lambda>t. AList.update (tm_id t) t) saved (ts_timers st), ts_deliveries := ds\<rparr>"

definition start_timers :: "timer_env \<Rightarrow> timer list \<Rightarrow> (string \<times> int list) list \<Rightarrow> timers \<Rightarrow> timers \<times> (string \<times> timer_message) list" where
  "start_timers e saved ds st = tick e (load saved ds st)"

end
