(* ===== verification/TimersProps.thy ===== *)
theory TimersProps
  imports TimersLaws
begin

text \<open>
  The properties of the orchestrator timers (server/timers.ts), each with a witness, and two
  behaviours the modelling showed: an update refused for its \<open>until\<close> leaves the timer with no next
  fire, and jitter can carry a fire past \<open>until\<close>.
\<close>

section \<open>What a late fire stands for\<close>

lemma card_multiples:
  fixes p late :: int
  assumes "0 < p" and "0 \<le> late"
  shows "int (card {k :: nat. int k * p \<le> late}) = late div p + 1"
proof -
  have "int k * p \<le> late \<longleftrightarrow> int k \<le> late div p" for k
  proof
    assume "int k * p \<le> late"
    then have "(int k * p) div p \<le> late div p" using assms(1) by (rule zdiv_mono1)
    then show "int k \<le> late div p" using assms(1) by simp
  next
    assume "int k \<le> late div p"
    then have "int k * p \<le> late div p * p" using assms(1) by (simp add: mult_right_mono)
    also have "\<dots> \<le> late" using div_mult_mod_eq [of late p] pos_mod_sign [OF assms(1), of late] by linarith
    finally show "int k * p \<le> late" .
  qed
  then have "{k :: nat. int k * p \<le> late} = {k. int k \<le> late div p}" by simp
  also have "\<dots> = {..nat (late div p)}"
    using pos_imp_zdiv_nonneg_iff [OF assms(1), of late] assms(2) by (auto simp: le_nat_iff)
  finally show ?thesis
    using pos_imp_zdiv_nonneg_iff [OF assms(1), of late] assms(2) by simp
qed

text \<open>
  A catch-up fire counts what was missed: a recurring timer that comes due late (FF Factory
  was down) fires once, that fire is counted as every scheduled time that has passed, and the
  next due time is the first scheduled time after now, on the same grid.
\<close>

theorem missed_fires_counted:
  assumes "tm_schedule t = Every m" and "0 < m" and "tm_nextDueAt t = Some d" and "MISSED_AFTER_MS < te_now e - d"
  shows "missed_of (te_now e) t = int (card {k :: nat. d + int k * (m * 60000) \<le> te_now e}) \<and>
    next_due e False t = Inr (d + missed_of (te_now e) t * (m * 60000)) \<and>
    te_now e < d + missed_of (te_now e) t * (m * 60000)"
proof -
  let ?p = "m * 60000" and ?late = "te_now e - d"
  have p: "0 < ?p" and late: "0 \<le> ?late" using assms(2,4) by (simp_all add: MISSED_AFTER_MS_def)
  have missed: "missed_of (te_now e) t = ?late div ?p + 1"
    using assms by (simp add: missed_of_def Let_def)
  have "{k :: nat. d + int k * ?p \<le> te_now e} = {k :: nat. int k * ?p \<le> ?late}" by auto
  then have card: "int (card {k :: nat. d + int k * ?p \<le> te_now e}) = ?late div ?p + 1"
    using card_multiples [OF p late] by simp
  have "0 \<le> ?late div ?p" using p late by (simp add: pos_imp_zdiv_nonneg_iff)
  then have "max 1 (?late div ?p + 1) = ?late div ?p + 1" by simp
  moreover have "next_due e False t = Inr (d + ?p * max 1 (?late div ?p + 1))"
    using assms(1,3) by (simp add: next_due_def Let_def)
  moreover have "te_now e < d + ?p * max 1 (?late div ?p + 1)" by (rule step_after [OF p])
  ultimately show ?thesis
    by (simp add: missed card mult.commute [of ?p])
qed

section \<open>The daily clock\<close>

lemma hhmm_range: "hhmm s = Some (h, m) \<Longrightarrow> 0 \<le> h \<and> h \<le> 23 \<and> 0 \<le> m \<and> m \<le> 59"
  by (auto simp: hhmm_def is_digit_def split: list.splits if_splits)

text \<open>
  A daily timer fires at its time of day: in a zone whose offset does not change over the days
  looked at, the next fire always exists, is within the next 24 hours, and is when the clock
  there reads the time.
\<close>

theorem daily_next:
  assumes "\<And>t. off t = c" and "hhmm time = Some (h, m)"
  shows "\<exists>t. nextDaily off time after = Inr t \<and> after < t \<and> t \<le> after + DAY \<and> (t + c) mod DAY = h * 3600000 + m * 60000"
proof -
  let ?tgt = "h * 3600000 + m * 60000" and ?loc = "after + c"
  have r: "0 \<le> ?tgt" "?tgt < DAY" using hhmm_range [OF assms(2)] by (auto simp: DAY_def)
  have try': "daily_try off ?loc h m k = (?loc div DAY + k) * DAY + ?tgt - c" for k
    by (simp add: daily_try_def utc_at_def assms(1) Let_def)
  have split: "?loc div DAY * DAY + ?loc mod DAY = ?loc" by simp
  have mod: "0 \<le> ?loc mod DAY" "?loc mod DAY < DAY" by (simp_all add: DAY_def)
  have clock: "(daily_try off ?loc h m k + c) mod DAY = ?tgt" for k
    using r by (simp add: try')
  show ?thesis
  proof (cases "after < daily_try off ?loc h m 0")
    case True
    then have "nextDaily off time after = Inr (daily_try off ?loc h m 0)"
      by (simp add: nextDaily_def assms)
    moreover have "daily_try off ?loc h m 0 \<le> after + DAY"
    proof -
      have "?loc div DAY * DAY \<le> ?loc" using split mod by linarith
      then show ?thesis using r by (simp add: try')
    qed
    ultimately show ?thesis using True clock by blast
  next
    case False
    have one: "daily_try off ?loc h m 1 = daily_try off ?loc h m 0 + DAY" by (simp add: try' distrib_right)
    have later: "after < daily_try off ?loc h m 1"
    proof -
      have "?loc < ?loc div DAY * DAY + DAY" using split mod by linarith
      then show ?thesis using r by (simp add: try' distrib_right)
    qed
    then have "nextDaily off time after = Inr (daily_try off ?loc h m 1)"
      using False by (simp add: nextDaily_def assms)
    moreover have "daily_try off ?loc h m 1 \<le> after + DAY" using one False by simp
    ultimately show ?thesis using later clock by blast
  qed
qed

theorem daily_next_witness:
  "\<exists>t. nextDaily (\<lambda>_. 7200000) ''09:30'' 100000000 = Inr t \<and> (t + 7200000) mod DAY = 9 * 3600000 + 30 * 60000"
proof -
  have "hhmm ''09:30'' = Some (9, 30)" by code_simp
  from daily_next [OF refl this, of 7200000 100000000] show ?thesis by blast
qed

section \<open>No pending fire is dropped\<close>

text \<open>A pending fire kept: still there, for at least as many fires.\<close>

definition keeps :: "string \<Rightarrow> timers \<Rightarrow> timers \<Rightarrow> bool" where
  "keeps x st st' =
     (\<forall>u p. get_timer st x = Some u \<and> tm_pending u = Some p \<longrightarrow>
       (\<exists>u' p'. get_timer st' x = Some u' \<and> tm_pending u' = Some p' \<and> pe_count p \<le> pe_count p' \<and> pe_missed p \<le> pe_missed p'))"

lemma keeps_refl: "keeps x st st"
  by (auto simp: keeps_def)

lemma keeps_trans: "keeps x st1 st2 \<Longrightarrow> keeps x st2 st3 \<Longrightarrow> keeps x st1 st3"
  unfolding keeps_def by (meson order_trans)

lemma keeps_upd:
  assumes "\<And>u p. get_timer st y = Some u \<Longrightarrow> tm_pending u = Some p \<Longrightarrow>
    \<exists>p'. tm_pending (f u) = Some p' \<and> pe_count p \<le> pe_count p' \<and> pe_missed p \<le> pe_missed p'"
  shows "keeps x st (upd y f st)"
  using assms by (auto simp: keeps_def)

lemma keeps_prune: "keyed st \<Longrightarrow> keeps x st (prune_ended o' st)"
  using prune_get(2) unfolding keeps_def by (metis option.distinct(1) order_refl)

lemma keeps_changed: "keeps x st (changed e st)"
  by (auto simp: keeps_def)

lemma keeps_end: "keyed st \<Longrightarrow> keeps x st (end_timer e t why True st)"
  unfolding end_timer_def
  by (rule keeps_trans [OF keeps_upd keeps_prune]) (auto simp: end_record_def intro: keyed_upd)

lemma keeps_reschedule: "keyed st \<Longrightarrow> keeps x st (fst (reschedule e y fresh st))"
proof -
  assume k: "keyed st"
  have nx: "keeps x st0 (upd y (set_next a b) st0)" for st0 a b
    by (rule keeps_upd) (simp add: set_next_def)
  have "keeps x st (end_timer e t UntilPassed True (upd y (set_next None None) st))" for t
    by (rule keeps_trans [OF nx keeps_end]) (auto simp: set_next_def intro: keyed_upd [OF k])
  moreover have "keeps x st (upd y (set_next a b) (st\<lparr>ts_draws := n\<rparr>))" for a b n
    using nx [of "st\<lparr>ts_draws := n\<rparr>" a b] by (simp add: keeps_def)
  ultimately show ?thesis
    using nx keeps_refl by (auto simp: reschedule_def Let_def split: option.splits sum.splits)
qed

lemma missed_nonneg: "0 \<le> missed_of now t"
  by (auto simp: missed_of_def Let_def MISSED_AFTER_MS_def pos_imp_zdiv_nonneg_iff)

lemma mark_fire_pending:
  "tm_pending t = Some p \<Longrightarrow>
   \<exists>p'. tm_pending (mark_fire e t) = Some p' \<and> pe_count p \<le> pe_count p' \<and> pe_missed p \<le> pe_missed p'"
  using missed_nonneg [of "te_now e" t] by (auto simp: mark_fire_def add_fire_def Let_def)

lemma keyed_fire: "keyed st \<Longrightarrow> keyed (fire e t st)"
  unfolding fire_def Let_def
  by (auto intro!: keyed_upd keyed_end keyed_reschedule split: schedule.splits option.splits)

lemma keeps_fire:
  assumes "keyed st" and "get_timer st y = Some t"
  shows "keeps x st (fire e t st)"
proof -
  have y: "tm_id t = y" by (rule keyed_get [OF assms])
  let ?st1 = "upd y (\<lambda>_. mark_fire e t) st"
  have k: "keyed ?st1" by (rule keyed_upd [OF assms(1)]) (simp add: y)
  have 1: "keeps x st ?st1"
    by (rule keeps_upd) (use assms(2) mark_fire_pending in auto)
  have upd: "keeps x st0 (changed e (upd y (\<lambda>t. t\<lparr>tm_updatedAt := n\<rparr>) st0))" for st0 n
    by (rule keeps_trans [OF keeps_upd keeps_changed]) auto
  show ?thesis
    unfolding fire_def Let_def y
    by (rule keeps_trans [OF 1]; rule keeps_trans [OF _ upd])
      (auto intro: keeps_end [OF k] keeps_reschedule [OF k])
qed

lemma fire_due_keeps: "keyed st \<Longrightarrow> keyed (fire_due e y st) \<and> keeps x st (fire_due e y st)"
  using keyed_fire keeps_fire keeps_refl by (auto simp: fire_due_def split: option.splits)

lemma fires_keep: "keyed st \<Longrightarrow> keyed (fold (fire_due e) ys st) \<and> keeps x st (fold (fire_due e) ys st)"
proof (induction ys arbitrary: st)
  case (Cons y ys)
  from fire_due_keeps [OF Cons.prems, of e y x] Cons.IH [of "fire_due e y st"] show ?case
    by (auto intro: keeps_trans)
qed (simp add: keeps_refl)

text \<open>Carried: pending still, or on a line of a message that went out.\<close>

definition on_line :: "string \<Rightarrow> int \<Rightarrow> int \<Rightarrow> (string \<times> timer_message) list \<Rightarrow> bool" where
  "on_line x n k out =
     (\<exists>m \<in> snd ` set out. \<exists>l \<in> set (ms_lines m). ln_id l = x \<and> n \<le> ln_count l \<and> k \<le> ln_missed l)"

definition is_pending :: "string \<Rightarrow> int \<Rightarrow> int \<Rightarrow> timers \<Rightarrow> bool" where
  "is_pending x n k st =
     (case get_timer st x of
        Some t \<Rightarrow> (case tm_pending t of Some p \<Rightarrow> n \<le> pe_count p \<and> k \<le> pe_missed p | None \<Rightarrow> False) | None \<Rightarrow> False)"

lemma is_pending_keeps: "keeps x st st' \<Longrightarrow> is_pending x n k st \<Longrightarrow> is_pending x n k st'"
  unfolding keeps_def is_pending_def by (fastforce split: option.splits)

lemma upd_all_other: "x \<notin> tm_id ` set ts \<Longrightarrow> get_timer (upd_all ts f st) x = get_timer st x"
  unfolding upd_all_def by (induction ts arbitrary: st) auto

lemma keyed_upd_all:
  assumes "keyed st" and f: "\<And>t. tm_id (f t) = tm_id t"
  shows "keyed (upd_all ts f st)"
  using assms(1) unfolding upd_all_def
proof (induction ts arbitrary: st)
  case (Cons t ts)
  have "keyed (upd (tm_id t) f st)" by (rule keyed_upd [OF Cons.prems]) (simp add: f)
  with Cons.IH show ?case by simp
qed simp

lemma due_timers_facts:
  assumes "t \<in> set (due_timers st o')"
  shows "t \<in> set (of_owner st o')" "tm_pending t \<noteq> None" "whose t = whose (hd (due_timers st o'))"
proof -
  let ?l = "filter (\<lambda>t. tm_pending t \<noteq> None) (of_owner st o')"
  obtain t0 ts where l: "?l = t0 # ts" using assms by (cases ?l) (auto simp: due_timers_def)
  then have d: "due_timers st o' = filter (\<lambda>t. whose t = whose t0) (t0 # ts)"
    by (simp add: due_timers_def)
  have "t \<in> set (t0 # ts)" "whose t = whose t0" using assms by (auto simp: d)
  then have "t \<in> set ?l" "whose t = whose t0" unfolding l by blast+
  then show "t \<in> set (of_owner st o')" "tm_pending t \<noteq> None" "whose t = whose (hd (due_timers st o'))"
    by (simp_all add: d)
qed

lemma hold_keeps: "keeps x st (upd_all ts hold st)"
  unfolding upd_all_def
proof (induction ts arbitrary: st)
  case (Cons t ts)
  have "keeps x st (upd (tm_id t) hold st)"
    by (rule keeps_upd) (auto simp: hold_def)
  with Cons [of "upd (tm_id t) hold st"] show ?case by (auto intro: keeps_trans)
qed (simp add: keeps_refl)

lemma flush_carries:
  assumes k: "keyed st" and f: "flush e o' st = (st', m)" and p: "is_pending x n j st"
  shows "keyed st' \<and> (is_pending x n j st' \<or> on_line x n j (case m of Some m \<Rightarrow> [(o', m)] | None \<Rightarrow> []))"
proof -
  let ?due = "due_timers st o'"
  consider (same) "st' = st" "m = None" | (held) "st' = changed e (upd_all ?due hold st)" "m = None"
    | (sent) "\<exists>ds. st' = changed e ((upd_all ?due (delivered (te_now e)) st)\<lparr>ts_deliveries := ds\<rparr>)" "m = Some (message_of ?due)"
    using f by (auto simp: flush_def Let_def split: if_splits)
  then show ?thesis
  proof cases
    case same
    then show ?thesis using k p by simp
  next
    case held
    have "keyed st'" unfolding held(1) keyed_changed by (rule keyed_upd_all [OF k]) (simp add: hold_def)
    moreover have "is_pending x n j st'"
      unfolding held(1) by (rule is_pending_keeps [OF keeps_trans [OF hold_keeps keeps_changed] p])
    ultimately show ?thesis by simp
  next
    case sent
    then obtain ds where ds: "st' = changed e ((upd_all ?due (delivered (te_now e)) st)\<lparr>ts_deliveries := ds\<rparr>)" by blast
    have "keyed (upd_all ?due (delivered (te_now e)) st)"
      by (rule keyed_upd_all [OF k]) (simp add: delivered_def)
    then have ks: "keyed st'" unfolding ds keyed_changed by (simp add: keyed_def)
    show ?thesis
    proof (cases "x \<in> tm_id ` set ?due")
      case True
      then obtain t where t: "t \<in> set ?due" "tm_id t = x" by blast
      have "get_timer st x = Some t"
        using due_timers_facts(1) [OF t(1)] of_owner_iff [OF k, of t o'] t(2) by simp
      with p t have "on_line x n j [(o', message_of ?due)]"
        by (auto simp: on_line_def message_of_def is_pending_def line_of_def split: option.splits intro!: bexI [of _ t])
      with ks sent(2) show ?thesis by simp
    next
      case False
      then have "is_pending x n j st'"
        using p by (simp add: ds is_pending_def upd_all_other)
      with ks show ?thesis by simp
    qed
  qed
qed

lemma on_line_append: "on_line x n k (out @ out') \<longleftrightarrow> on_line x n k out \<or> on_line x n k out'"
  by (auto simp: on_line_def)

lemma flushes_carry:
  assumes "keyed st" and "is_pending x n k st \<or> on_line x n k out"
    and "fold (flush_one e) os (st, out) = (st', out')"
  shows "is_pending x n k st' \<or> on_line x n k out'"
  using assms
proof (induction os arbitrary: st out)
  case (Cons o' os)
  obtain st1 m where f: "flush e o' st = (st1, m)" by fastforce
  let ?out = "out @ (case m of Some m \<Rightarrow> [(o', m)] | None \<Rightarrow> [])"
  have step: "flush_one e o' (st, out) = (st1, ?out)" by (simp add: flush_one_def f split: option.splits)
  have "keyed st1"
  proof -
    have "keyed (upd_all (due_timers st o') hold st)" "keyed (upd_all (due_timers st o') (delivered (te_now e)) st)"
      by (auto intro!: keyed_upd_all [OF Cons.prems(1)] simp: hold_def delivered_def)
    then show ?thesis
      using f Cons.prems(1) by (auto simp: flush_def Let_def keyed_def split: if_splits)
  qed
  moreover have "is_pending x n k st1 \<or> on_line x n k ?out"
    using Cons.prems(1,2) flush_carries [OF Cons.prems(1) f] by (auto simp: on_line_append)
  ultimately show ?case
    using Cons.IH [of st1 ?out] Cons.prems(3) step by simp
qed simp

text \<open>
  C18. A pending fire is never dropped: whatever a tick fires, ends, prunes, holds for the budget
  or delivers, a fire waiting before it still waits afterwards, for at least as many fires, or
  is on a line of a message that was delivered.
\<close>

theorem tick_never_drops:
  assumes "keyed st" and "get_timer st x = Some t" and "tm_pending t = Some p" and "tick e st = (st', out)"
  shows "is_pending x (pe_count p) (pe_missed p) st' \<or> on_line x (pe_count p) (pe_missed p) out"
proof (cases "te_dryRun e")
  case True
  then show ?thesis using assms by (simp add: tick_def is_pending_def)
next
  case False
  let ?st1 = "fold (fire_due e) (map fst (ts_timers st)) st"
  have "is_pending x (pe_count p) (pe_missed p) st" using assms(2,3) by (simp add: is_pending_def)
  then have "is_pending x (pe_count p) (pe_missed p) ?st1"
    using fires_keep [OF assms(1)] by (blast intro: is_pending_keeps)
  moreover have "fold (flush_one e) (owners_pending ?st1) (?st1, []) = (st', out)"
    using assms(4) False by (simp add: tick_def Let_def)
  moreover have "keyed ?st1" using fires_keep [OF assms(1)] by blast
  ultimately show ?thesis using flushes_carry by blast
qed

section \<open>Whose message\<close>

text \<open>
  A message is one person's job: every line of it is a pending timer of the orchestrator it
  goes to, all of the same person, its authority is that person's with exactly the requests of
  those timers, and it goes only while the orchestrator is there and not mid-turn.
\<close>

theorem message_one_job:
  assumes "flush e o' st = (st', Some m)"
  shows "\<exists>ts. ts \<noteq> [] \<and> ms_lines m = map line_of ts \<and> te_exists e o' \<and> \<not> te_busy e o' \<and>
    (\<forall>t \<in> set ts. t \<in> set (of_owner st o') \<and> tm_pending t \<noteq> None) \<and>
    (case ms_authority m of
       Some a \<Rightarrow> (\<forall>t \<in> set ts. whose t = lower (userId (au_person a))) \<and> set (au_workIds a) = (\<Union>t \<in> set ts. set (tm_workIds t))
     | None \<Rightarrow> \<forall>t \<in> set ts. whose t = [])"
proof -
  let ?ts = "due_timers st o'"
  have f: "?ts \<noteq> []" "te_exists e o'" "\<not> te_busy e o'" "m = message_of ?ts"
    using assms by (auto simp: flush_def Let_def split: if_splits)
  have w: "whose t = whose (hd ?ts)" if "t \<in> set ?ts" for t
    using due_timers_facts(3) [OF that] .
  show ?thesis
  proof (intro exI [of _ ?ts] conjI)
    show "\<forall>t \<in> set ?ts. t \<in> set (of_owner st o') \<and> tm_pending t \<noteq> None"
      using due_timers_facts(1,2) by blast
    show "case ms_authority m of
       Some a \<Rightarrow> (\<forall>t \<in> set ?ts. whose t = lower (userId (au_person a))) \<and> set (au_workIds a) = (\<Union>t \<in> set ?ts. set (tm_workIds t))
     | None \<Rightarrow> \<forall>t \<in> set ?ts. whose t = []"
    proof (cases "tm_person (hd ?ts)")
      case None
      then have "whose (hd ?ts) = []" by (simp add: whose_def)
      with None w show ?thesis by (simp add: f(4) message_of_def)
    next
      case (Some q)
      then have "whose (hd ?ts) = lower (userId q)" by (simp add: whose_def)
      with Some w show ?thesis by (simp add: f(4) message_of_def)
    qed
  qed (use f in \<open>simp_all add: message_of_def\<close>)
qed

section \<open>The daily budget\<close>

text \<open>
  A run of the timers under a clock that does not go back, with the messages that went out (to
  whom and when). \<open>rehome\<close>, which joins two orchestrators' histories, is not a step here.
\<close>

type_synonym sent = "(string \<times> int) list"

definition sent_of :: "timer_env \<Rightarrow> (string \<times> timer_message) list \<Rightarrow> sent" where
  "sent_of e out = map (\<lambda>(o', m). (o', te_now e)) out"

inductive timer_run :: "timers \<Rightarrow> sent \<Rightarrow> int \<Rightarrow> bool" where
  run_start: "timer_run \<lparr>ts_timers = [], ts_deliveries = [], ts_draws = 0\<rparr> [] t"
| run_create: "timer_run st sl c \<Longrightarrow> c \<le> te_now e \<Longrightarrow> timer_run (fst (create e o' i w a st)) sl (te_now e)"
| run_update: "timer_run st sl c \<Longrightarrow> c \<le> te_now e \<Longrightarrow> timer_run (fst (update e o' y i on st)) sl (te_now e)"
| run_cancel: "timer_run st sl c \<Longrightarrow> c \<le> te_now e \<Longrightarrow> timer_run (fst (cancel e o' y st)) sl (te_now e)"
| run_tick: "timer_run st sl c \<Longrightarrow> c \<le> te_now e \<Longrightarrow> tick e st = (st', out) \<Longrightarrow> timer_run st' (sl @ sent_of e out) (te_now e)"
| run_turn: "timer_run st sl c \<Longrightarrow> c \<le> te_now e \<Longrightarrow> turnEnded e o' st = (st', out) \<Longrightarrow> timer_run st' (sl @ sent_of e out) (te_now e)"

definition times_of :: "sent \<Rightarrow> string \<Rightarrow> int list" where
  "times_of sl o' = map snd (filter (\<lambda>x. fst x = o') sl)"

definition window :: "int \<Rightarrow> int list \<Rightarrow> int list" where
  "window w xs = filter (\<lambda>x. w < x \<and> x \<le> w + DAY) xs"

definition budget_ok :: "timers \<Rightarrow> sent \<Rightarrow> int \<Rightarrow> bool" where
  "budget_ok st sl c =
     ((\<forall>o' now. c \<le> now \<longrightarrow> filter (\<lambda>x. now - DAY < x) (deliveries_of st o') = filter (\<lambda>x. now - DAY < x) (times_of sl o')) \<and>
      (\<forall>x \<in> snd ` set sl. x \<le> c) \<and>
      (\<forall>o' w. length (window w (times_of sl o')) \<le> deliveriesPerDay))"

text \<open>Operations that send nothing leave the recent delivery times as they are.\<close>

definition same_recent :: "timer_env \<Rightarrow> timers \<Rightarrow> timers \<Rightarrow> bool" where
  "same_recent e st st' =
     (\<forall>o' now. te_now e \<le> now \<longrightarrow>
       filter (\<lambda>x. now - DAY < x) (deliveries_of st' o') = filter (\<lambda>x. now - DAY < x) (deliveries_of st o'))"

lemma same_recent_eq: "ts_deliveries st' = ts_deliveries st \<Longrightarrow> same_recent e st st'"
  by (simp add: same_recent_def deliveries_of_def)

lemma same_recent_trans: "same_recent e st1 st2 \<Longrightarrow> same_recent e st2 st3 \<Longrightarrow> same_recent e st1 st3"
  by (simp add: same_recent_def)

lemma deliveries_of_changed:
  "deliveries_of (changed e st) o' =
     (if te_file e then filter (\<lambda>x. te_now e - DAY < x) (deliveries_of st o') else deliveries_of st o')"
proof -
  have "map_of (map (\<lambda>(k, xs). (k, filter P xs)) ds) o' = map_option (filter P) (map_of ds o')"
    for P and ds :: "(string \<times> int list) list"
    by (induction ds) auto
  then show ?thesis
    by (simp add: changed_def deliveries_of_def split: option.splits)
qed

lemma deliveries_changed:
  "te_now e \<le> now \<Longrightarrow>
   filter (\<lambda>x. now - DAY < x) (deliveries_of (changed e st) o') = filter (\<lambda>x. now - DAY < x) (deliveries_of st o')"
  by (auto simp: deliveries_of_changed intro: filter_cong)

lemma same_recent_changed: "same_recent e st (changed e st)"
  by (simp add: same_recent_def deliveries_changed)

lemma budget_same: "budget_ok st sl c \<Longrightarrow> c \<le> te_now e \<Longrightarrow> same_recent e st st' \<Longrightarrow> budget_ok st' sl (te_now e)"
  unfolding budget_ok_def same_recent_def by (auto intro: order_trans)

lemma and_then_deliveries:
  "ts_deliveries (fst r) = ds \<Longrightarrow> (\<And>st. ts_deliveries st = ds \<Longrightarrow> ts_deliveries (fst (f st)) = ds) \<Longrightarrow>
   ts_deliveries (fst (and_then r f)) = ds"
  by (cases r) (auto simp: and_then_def split: option.splits)

lemma set_fields_deliveries [simp]:
  "ts_deliveries (fst (set_title x i cr st)) = ts_deliveries st"
  "ts_deliveries (fst (set_note x i cr st)) = ts_deliveries st"
  "ts_deliveries (fst (set_jitter x i st)) = ts_deliveries st"
  "ts_deliveries (fst (set_until e x i st)) = ts_deliveries st"
  "ts_deliveries (fst (set_maxFires x i st)) = ts_deliveries st"
  "ts_deliveries (fst (set_skip x i st)) = ts_deliveries st"
  "ts_deliveries (fst (set_schedule e x i cr st)) = ts_deliveries st"
  by (auto simp: set_title_def set_note_def set_jitter_def set_until_def set_maxFires_def set_skip_def
      set_schedule_def Let_def split: option.splits until_in.splits sum.splits)

lemma apply_deliveries [simp]: "ts_deliveries (fst (apply_input e x i cr st)) = ts_deliveries st"
  unfolding apply_input_def by (intro and_then_deliveries) simp_all

lemma create_recent: "same_recent e st (fst (create e o' i w a st))"
proof -
  let ?r = "apply_input e (te_newId e) i True (st\<lparr>ts_timers := AList.update (te_newId e) (new_timer e o' w a) (ts_timers st)\<rparr>)"
  have id': "tm_id (new_timer e o' w a) = te_newId e" by (simp add: new_timer_def)
  have "ts_deliveries (fst ?r) = ts_deliveries st" by simp
  then have "same_recent e st (changed e (fst ?r))"
    using same_recent_trans [OF same_recent_eq same_recent_changed] by blast
  then show ?thesis
    by (cases ?r) (auto simp: create_def Let_def id' same_recent_eq split: option.splits)
qed

lemma set_enabled_deliveries [simp]: "ts_deliveries (fst (set_enabled e x on st)) = ts_deliveries st"
  by (auto simp: set_enabled_def Let_def split: option.splits)

lemma and_then_recent:
  "same_recent e st (fst r) \<Longrightarrow> (\<And>st'. same_recent e st st' \<Longrightarrow> same_recent e st (fst (f st'))) \<Longrightarrow>
   same_recent e st (fst (and_then r f))"
  by (cases r) (auto simp: and_then_def split: option.splits)

lemma update_recent: "same_recent e st (fst (update e o' y i on st))"
proof (cases "mine st o' y")
  case (Some t)
  show ?thesis
  proof (cases "tm_endedAt t = None")
    case True
    have "same_recent e st (fst (and_then (apply_input e (tm_id t) i False st) (\<lambda>st.
            and_then (set_enabled e (tm_id t) on st) (\<lambda>st.
            (changed e (upd (tm_id t) (\<lambda>t. t\<lparr>tm_updatedAt := te_now e\<rparr>) st), None)))))"
    proof (intro and_then_recent)
      fix st1 st2
      assume "same_recent e st st2"
      then show "same_recent e st (fst (changed e (upd (tm_id t) (\<lambda>t. t\<lparr>tm_updatedAt := te_now e\<rparr>) st2), None))"
        using same_recent_trans [OF _ same_recent_trans [OF same_recent_eq same_recent_changed]]
        by (simp only: fst_conv upd_fields) 
    next
      fix st1
      assume "same_recent e st st1"
      then show "same_recent e st (fst (set_enabled e (tm_id t) on st1))"
        by (rule same_recent_trans) (simp add: same_recent_eq)
    qed (simp add: same_recent_eq)
    with Some True show ?thesis by (simp add: update_def)
  qed (use Some in \<open>simp add: update_def same_recent_eq\<close>)
qed (simp add: update_def same_recent_eq)

lemma cancel_recent: "same_recent e st (fst (cancel e o' y st))"
proof -
  have "same_recent e st (changed e (end_timer e t Cancelled False st))" for t
    by (rule same_recent_trans [OF same_recent_eq same_recent_changed]) simp
  then show ?thesis
    by (auto simp: cancel_def same_recent_changed same_recent_eq split: option.splits)
qed

lemma fire_deliveries: "same_recent e st (fire e t st)"
proof -
  have "ts_deliveries (if a then end_timer e t1 r1 b1 s1 else if b then end_timer e t1 r2 b2 s1 else fst (reschedule e x f s1))
      = ts_deliveries s1" for a b t1 r1 b1 s1 r2 b2 x f
    by simp
  then show ?thesis
    unfolding fire_def Let_def
    by (intro same_recent_trans [OF same_recent_eq same_recent_changed]) simp
qed

lemma fires_recent: "same_recent e st (fold (fire_due e) xs st)"
proof (induction xs arbitrary: st)
  case (Cons x xs)
  have "same_recent e st (fire_due e x st)"
    by (auto simp: fire_due_def fire_deliveries same_recent_eq split: option.splits)
  then show ?case using Cons [of "fire_due e x st"] by (auto intro: same_recent_trans)
qed (simp add: same_recent_eq)

text \<open>A message sent stays within the budget of every 24 hours that holds it.\<close>

lemma window_append: "window w (xs @ [t]) = window w xs @ (if w < t \<and> t \<le> w + DAY then [t] else [])"
  by (simp add: window_def)

lemma times_of_append: "times_of (sl @ [(p, t)]) o' = times_of sl o' @ (if p = o' then [t] else [])"
  by (simp add: times_of_def)

lemma flush_shape:
  assumes "flush e o' st = (st', m)"
  shows "m = None \<and> same_recent e st st' \<or>
    m \<noteq> None \<and> length (recent e o' st) < deliveriesPerDay \<and>
    (\<exists>st1. st' = changed e (st1\<lparr>ts_deliveries := AList.update o' (recent e o' st @ [te_now e]) (ts_deliveries st)\<rparr>))"
proof -
  have upd_all: "ts_deliveries (upd_all ts g st) = ts_deliveries st" for ts g
    unfolding upd_all_def by (induction ts arbitrary: st) auto
  have held: "same_recent e st (changed e (upd_all ts hold st))" for ts
    by (rule same_recent_trans [OF same_recent_eq [OF upd_all] same_recent_changed])
  show ?thesis
    using assms held same_recent_eq [OF refl, of e st] unfolding flush_def Let_def
    by (simp only: split: if_splits) (auto simp: not_le)
qed

lemma flush_budget:
  assumes ok: "budget_ok st sl c" and c: "c \<le> te_now e" and f: "flush e o' st = (st', m)"
  shows "budget_ok st' (sl @ (case m of Some _ \<Rightarrow> [(o', te_now e)] | None \<Rightarrow> [])) (te_now e)"
proof -
  let ?now = "te_now e"
  consider (none) "m = None" "same_recent e st st'"
    | (sent) st1 where "m \<noteq> None" "length (recent e o' st) < deliveriesPerDay"
      "st' = changed e (st1\<lparr>ts_deliveries := AList.update o' (recent e o' st @ [?now]) (ts_deliveries st)\<rparr>)"
    using flush_shape [OF f] by blast
  then show ?thesis
  proof cases
    case none
    then show ?thesis using budget_same [OF ok c] by simp
  next
    case sent
    have eq: "filter (\<lambda>x. now - DAY < x) (deliveries_of st p) = filter (\<lambda>x. now - DAY < x) (times_of sl p)"
      if "?now \<le> now" for now p
      using ok c that by (simp add: budget_ok_def)
    have old: "x \<le> ?now" if "x \<in> set (times_of sl p)" for x p
      using ok c that by (fastforce simp: budget_ok_def times_of_def)
    have rec: "recent e o' st = filter (\<lambda>x. ?now - DAY < x) (times_of sl o')"
      using eq [of ?now] by (simp add: recent_def)
    have "filter (\<lambda>x. now - DAY < x) (deliveries_of st' p) = filter (\<lambda>x. now - DAY < x) (times_of (sl @ [(o', ?now)]) p)"
      if "?now \<le> now" for now p
    proof -
      have "filter (\<lambda>x. now - DAY < x) (filter (\<lambda>x. ?now - DAY < x) xs) = filter (\<lambda>x. now - DAY < x) xs" for xs
        using that by (auto intro: filter_cong)
      then have "filter (\<lambda>x. now - DAY < x) (recent e o' st) = filter (\<lambda>x. now - DAY < x) (times_of sl o')"
        by (simp only: rec)
      then show ?thesis
        using eq [OF that, of p] that
        unfolding sent(3) deliveries_changed [OF that]
        by (cases "o' = p") (simp_all add: deliveries_of_def al.get_put times_of_append)
    qed
    moreover have "length (window w (times_of (sl @ [(o', ?now)]) p)) \<le> deliveriesPerDay" for w p
    proof (cases "p = o' \<and> w < ?now \<and> ?now \<le> w + DAY")
      case True
      have "x \<in> set (times_of sl o') \<Longrightarrow> w < x \<Longrightarrow> ?now - DAY < x" for x
        using True by linarith
      then have "window w (times_of sl o') = filter (\<lambda>x. w < x \<and> x \<le> w + DAY) (recent e o' st)"
        unfolding window_def rec by (auto intro: filter_cong)
      then have "length (window w (times_of sl o')) < deliveriesPerDay"
        using sent(2) le_less_trans [OF length_filter_le] by metis
      with True show ?thesis by (simp add: times_of_append window_append)
    next
      case False
      then have "window w (times_of (sl @ [(o', ?now)]) p) = window w (times_of sl p)"
        by (auto simp: times_of_append window_append)
      with ok show ?thesis by (simp add: budget_ok_def)
    qed
    moreover have "\<forall>x \<in> snd ` set (sl @ [(o', ?now)]). x \<le> ?now"
      using ok c by (auto simp: budget_ok_def intro: order_trans)
    ultimately show ?thesis
      using sent(1) by (auto simp: budget_ok_def)
  qed
qed

lemma flushes_budget:
  assumes "budget_ok st (sl @ sent_of e out) (te_now e)" and "fold (flush_one e) os (st, out) = (st', out')"
  shows "budget_ok st' (sl @ sent_of e out') (te_now e)"
  using assms
proof (induction os arbitrary: st out)
  case (Cons o' os)
  obtain st1 m where f: "flush e o' st = (st1, m)" by fastforce
  let ?out = "out @ (case m of Some m \<Rightarrow> [(o', m)] | None \<Rightarrow> [])"
  have step: "flush_one e o' (st, out) = (st1, ?out)" by (simp add: flush_one_def f split: option.splits)
  have "sent_of e ?out = sent_of e out @ (case m of Some _ \<Rightarrow> [(o', te_now e)] | None \<Rightarrow> [])"
    by (auto simp: sent_of_def split: option.splits)
  then have "budget_ok st1 (sl @ sent_of e ?out) (te_now e)"
    using flush_budget [OF Cons.prems(1) order_refl f] by simp
  from Cons.IH [OF this] Cons.prems(2) step show ?case by simp
qed simp

lemma timer_run_budget: "timer_run st sl c \<Longrightarrow> budget_ok st sl c"
proof (induction rule: timer_run.induct)
  case (run_start t)
  then show ?case by (simp add: budget_ok_def deliveries_of_def times_of_def window_def)
next
  case (run_tick st sl c e st' out)
  show ?case
  proof (cases "te_dryRun e")
    case True
    then show ?thesis using run_tick budget_same same_recent_eq by (fastforce simp: tick_def sent_of_def)
  next
    case False
    let ?st1 = "fold (fire_due e) (map fst (ts_timers st)) st"
    have "budget_ok ?st1 (sl @ sent_of e []) (te_now e)"
      using budget_same [OF run_tick.IH run_tick.hyps(2) fires_recent] by (simp add: sent_of_def)
    moreover have "fold (flush_one e) (owners_pending ?st1) (?st1, []) = (st', out)"
      using run_tick.hyps(3) False by (simp add: tick_def Let_def)
    ultimately show ?thesis by (rule flushes_budget)
  qed
next
  case (run_turn st sl c e o' st' out)
  have "budget_ok st (sl @ sent_of e []) (te_now e)"
    using budget_same [OF run_turn.IH run_turn.hyps(2) same_recent_eq] by (simp add: sent_of_def)
  from flushes_budget [OF this, of "[o']"] run_turn.hyps(3) show ?case
    by (simp add: turnEnded_def)
qed (blast intro: budget_same create_recent update_recent cancel_recent)+

text \<open>
  C17. The budget guard holds over every run: whatever timers are set, changed and cancelled and
  however they come due, no orchestrator gets more than 96 timer messages in any 24 hours.
\<close>

theorem timer_budget:
  assumes "timer_run st sl c"
  shows "length (window w (times_of sl o')) \<le> 96"
  using timer_run_budget [OF assms] by (simp add: budget_ok_def deliveriesPerDay_def)

section \<open>Samples\<close>

definition sample_tenv :: "int \<Rightarrow> timer_env" where
  "sample_tenv now =
     \<lparr>te_now = now, te_draw = (\<lambda>_. 1 / 2), te_newId = ''t-1'', te_exists = (\<lambda>_. True), te_busy = (\<lambda>_. False),
      te_deliver = (\<lambda>_ _. True), te_tzOffset = (\<lambda>_ _. 0), te_validTz = (\<lambda>_. True), te_localTz = ''UTC'',
      te_dryRun = False, te_file = True\<rparr>"

definition sample_tinput :: timer_input where
  "sample_tinput =
     \<lparr>ti_title = Some ''scan'', ti_note = Some ''look'', ti_schedule = Some \<lparr>si_at = None, si_every = Some 60, si_daily = None, si_tz = None\<rparr>,
      ti_jitter = None, ti_until = UntilNone, ti_maxFires = None, ti_skipIfBusy = None\<rparr>"

definition no_tinput :: timer_input where
  "no_tinput = \<lparr>ti_title = None, ti_note = None, ti_schedule = None, ti_jitter = None, ti_until = UntilNone,
     ti_maxFires = None, ti_skipIfBusy = None\<rparr>"

definition no_timers :: timers where
  "no_timers = \<lparr>ts_timers = [], ts_deliveries = [], ts_draws = 0\<rparr>"

definition sample_timers :: timers where
  "sample_timers = fst (create (sample_tenv 0) ''orch'' sample_tinput ''ben'' None no_timers)"

definition sample_timer :: timer where
  "sample_timer = the (get_timer sample_timers ''t-1'')"

lemma sample_timer_facts:
  "keyed sample_timers" "get_timer sample_timers ''t-1'' = Some sample_timer"
  "tm_schedule sample_timer = Every 60" "tm_nextDueAt sample_timer = Some 3600000" "tm_jitter sample_timer = None"
  by (simp add: keyed_def; code_simp) code_simp+

theorem fire_moves_on_witness:
  "case get_timer (fire (sample_tenv 8000000) sample_timer sample_timers) ''t-1'' of
      None \<Rightarrow> True
    | Some t' \<Rightarrow> tm_endedAt t' \<noteq> None \<or> (\<exists>f. tm_nextFireAt t' = Some f \<and> 8000000 < f)"
proof -
  have "next_due (sample_tenv 8000000) False sample_timer = Inr 10800000" by code_simp
  moreover have n: "te_now (sample_tenv 8000000) = 8000000" "0 \<le> te_draw (sample_tenv 8000000) k" for k
    by (simp_all add: sample_tenv_def)
  ultimately show ?thesis
    using fire_moves_on [OF sample_timer_facts(1,2), of "sample_tenv 8000000" 10800000]
    unfolding n by (simp add: sample_timer_facts n)
qed

theorem missed_fires_counted_witness:
  "missed_of 8000000 sample_timer = 2 \<and> next_due (sample_tenv 8000000) False sample_timer = Inr 10800000"
proof -
  have n: "te_now (sample_tenv 8000000) = 8000000" by (simp add: sample_tenv_def)
  have "missed_of 8000000 sample_timer = 2" by code_simp
  moreover have "next_due (sample_tenv 8000000) False sample_timer = Inr (3600000 + missed_of 8000000 sample_timer * (60 * 60000))"
    using missed_fires_counted [OF sample_timer_facts(3) _ sample_timer_facts(4), of "sample_tenv 8000000"]
    unfolding n by (simp add: MISSED_AFTER_MS_def)
  ultimately show ?thesis by simp
qed

definition held_timers :: timers where
  "held_timers = fire (sample_tenv 3600000) sample_timer sample_timers"

theorem tick_never_drops_witness:
  "is_pending ''t-1'' 1 0 (fst (tick (sample_tenv 3610000) held_timers)) \<or>
   on_line ''t-1'' 1 0 (snd (tick (sample_tenv 3610000) held_timers))"
proof -
  have k: "keyed held_timers"
    unfolding held_timers_def by (rule keyed_fire [OF sample_timer_facts(1)])
  have "map_option tm_pending (get_timer held_timers ''t-1'') =
      Some (Some \<lparr>pe_count = 1, pe_missed = 0, pe_since = 3600000, pe_held = False\<rparr>)"
    by code_simp
  then obtain t where "get_timer held_timers ''t-1'' = Some t"
    "tm_pending t = Some \<lparr>pe_count = 1, pe_missed = 0, pe_since = 3600000, pe_held = False\<rparr>"
    by auto
  from tick_never_drops [OF k this, of "sample_tenv 3610000"] show ?thesis
    by (cases "tick (sample_tenv 3610000) held_timers") simp
qed

theorem message_one_job_witness:
  "\<exists>m. snd (flush (sample_tenv 3610000) ''orch'' held_timers) = Some m \<and>
    (\<exists>ts. ts \<noteq> [] \<and> ms_lines m = map line_of ts \<and> (\<forall>t \<in> set ts. t \<in> set (of_owner held_timers ''orch'')))"
proof -
  have "snd (flush (sample_tenv 3610000) ''orch'' held_timers) \<noteq> None" by code_simp
  then obtain st' m where f: "flush (sample_tenv 3610000) ''orch'' held_timers = (st', Some m)"
    by (metis not_None_eq prod.collapse)
  from message_one_job [OF f] f show ?thesis by auto
qed

theorem timer_budget_witness:
  "\<exists>st sl c. timer_run st sl c \<and> times_of sl ''orch'' = [3600000] \<and> length (window 0 (times_of sl ''orch'')) \<le> 96"
proof -
  have "timer_run no_timers [] 0" unfolding no_timers_def by (rule run_start)
  then have "timer_run (fst (create (sample_tenv 0) ''orch'' sample_tinput ''ben'' None no_timers)) [] (te_now (sample_tenv 0))"
    by (rule run_create) (simp add: sample_tenv_def)
  then have "timer_run sample_timers [] 0"
    by (simp add: sample_timers_def) (simp add: sample_tenv_def)
  moreover obtain st' out where t: "tick (sample_tenv 3600000) sample_timers = (st', out)" by fastforce
  ultimately have run: "timer_run st' ([] @ sent_of (sample_tenv 3600000) out) (te_now (sample_tenv 3600000))"
    by (intro run_tick [of sample_timers "[]" 0]) (simp_all add: sample_tenv_def)
  have "times_of (sent_of (sample_tenv 3600000) (snd (tick (sample_tenv 3600000) sample_timers))) ''orch'' = [3600000]"
    by code_simp
  with t have out: "times_of ([] @ sent_of (sample_tenv 3600000) out) ''orch'' = [3600000]" by simp
  from timer_budget [OF run, of 0 "''orch''"] run out show ?thesis by blast
qed

section \<open>What the modelling showed\<close>

text \<open>
  An \<open>update_timer\<close> whose \<open>until\<close> comes before the next fire is refused ("until: comes before the
  first fire"), but the record has already lost its next fire: the timer stays enabled and not
  ended, and nothing will ever make it due.
\<close>

lemma refused_update_stops_timer:
  "let r = update (sample_tenv 1000) ''orch'' ''t-1'' (no_tinput\<lparr>ti_until := UntilAt (At 2000000)\<rparr>) None sample_timers
   in snd r = Some UntilBeforeFirst \<and>
      map_option (\<lambda>t. (tm_enabled t, tm_endedAt t, tm_nextFireAt t)) (get_timer sample_timers ''t-1'') = Some (True, None, Some 3600000) \<and>
      map_option (\<lambda>t. (tm_enabled t, tm_endedAt t, tm_nextFireAt t)) (get_timer (fst r) ''t-1'') = Some (True, None, None)"
  by code_simp

text \<open>Jitter is added after the check of \<open>until\<close>: a fire can come later than it.\<close>

lemma jitter_passes_until:
  "map_option (\<lambda>t. (tm_until t, tm_nextFireAt t))
     (get_timer (fst (create (sample_tenv 0) ''orch'' (sample_tinput\<lparr>ti_until := UntilAt (At 3600000), ti_jitter := Some 60\<rparr>) ''ben'' None no_timers)) ''t-1'')
   = Some (Some 3600000, Some 5400000)"
  by code_simp

text \<open>A one-off timer resumed after its time passed while it was paused fires on the next tick, as missed.\<close>

lemma resumed_once_fires:
  "let once = sample_tinput\<lparr>ti_schedule := Some \<lparr>si_at = Some (At 3600000, True), si_every = None, si_daily = None, si_tz = None\<rparr>\<rparr>;
       st0 = fst (create (sample_tenv 0) ''orch'' once ''ben'' None no_timers);
       st1 = fst (update (sample_tenv 1000) ''orch'' ''t-1'' no_tinput (Some False) st0);
       st2 = fst (update (sample_tenv 7200000) ''orch'' ''t-1'' no_tinput (Some True) st1)
   in map (map ln_missed \<circ> ms_lines \<circ> snd) (snd (tick (sample_tenv 7230000) st2)) = [[1]]"
  by code_simp

end
