(* ===== verification/Schedule.thy ===== *)
theory Schedule
  imports FF_Strings
begin

text \<open>
  Standing agents' schedules and budgets (server/schedule.ts): cron expressions, the next match,
  triggers, the daily budget, and the admission of a run. The host's local calendar (the \<open>Date\<close>
  getters and setters) is a value of \<open>calendar\<close>; \<open>utc\<close> is that of a host on UTC. Times are whole
  milliseconds. The person-only word list (\<open>personOnlyReason\<close>) is not modelled.
\<close>

section \<open>The calendar\<close>

text \<open>
  \<open>cal_nextMonth\<close> is \<open>setMonth(m + 1, 1)\<close> and \<open>setHours(0, 0, 0, 0)\<close>, \<open>cal_nextDay\<close> \<open>setDate(d + 1)\<close> and
  \<open>setHours(0, 0, 0, 0)\<close>, \<open>cal_nextHour\<close> \<open>setHours(h + 1, 0, 0, 0)\<close>, \<open>cal_nextMinute\<close>
  \<open>setMinutes(m + 1, 0, 0)\<close>, \<open>cal_floor\<close> \<open>setSeconds(0, 0)\<close>.
\<close>

record calendar =
  cal_year :: "int \<Rightarrow> int"
  cal_month :: "int \<Rightarrow> int"
  cal_date :: "int \<Rightarrow> int"
  cal_dow :: "int \<Rightarrow> int"
  cal_hour :: "int \<Rightarrow> int"
  cal_minute :: "int \<Rightarrow> int"
  cal_nextMonth :: "int \<Rightarrow> int"
  cal_nextDay :: "int \<Rightarrow> int"
  cal_nextHour :: "int \<Rightarrow> int"
  cal_nextMinute :: "int \<Rightarrow> int"
  cal_floor :: "int \<Rightarrow> int"

section \<open>Cron\<close>

record cron_spec =
  cr_minute :: "int list"
  cr_hour :: "int list"
  cr_dom :: "int list"
  cr_month :: "int list"
  cr_dow :: "int list"
  cr_domStar :: bool
  cr_dowStar :: bool

datatype cron_error =
    CannotRead string string
  | OutsideRange string string
  | NeedsFiveFields string
  | NeverMatches string

definition FIELDS :: "(string \<times> int \<times> int) list" where
  "FIELDS = [(''minute'', 0, 59), (''hour'', 0, 23), (''day of month'', 1, 31), (''month'', 1, 12), (''day of week'', 0, 7)]"

fun digits_value :: "nat \<Rightarrow> string \<Rightarrow> nat" where
  "digits_value n [] = n"
| "digits_value n (c # cs) = digits_value (10 * n + (code c - 48)) cs"

text \<open>\<open>\d+\<close> at the front of a text: its number and what follows.\<close>

definition read_number :: "string \<Rightarrow> (int \<times> string) option" where
  "read_number s =
     (let ds = takeWhile is_digit s
      in if ds = [] then None else Some (int (digits_value 0 ds), dropWhile is_digit s))"

text \<open>\<open>(?:\/(\d+))?$\<close>: the step, if there is one.\<close>

definition read_step :: "string \<Rightarrow> int option option" where
  "read_step s =
     (case s of
        [] \<Rightarrow> Some None
      | c # r \<Rightarrow> if c = CHR ''/'' then (case read_number r of Some (n, []) \<Rightarrow> Some (Some n) | _ \<Rightarrow> None) else None)"

datatype part = Star "int option" | Range int "int option" "int option"

definition read_part :: "string \<Rightarrow> part option" where
  "read_part s =
     (case s of
        [] \<Rightarrow> None
      | c # r \<Rightarrow>
          if c = CHR ''*'' then map_option Star (read_step r)
          else
            (case read_number s of
               None \<Rightarrow> None
             | Some (lo, r1) \<Rightarrow>
                 (case r1 of
                    CHR ''-'' # r2 \<Rightarrow>
                      (case read_number r2 of
                         Some (hi, r3) \<Rightarrow> map_option (Range lo (Some hi)) (read_step r3)
                       | None \<Rightarrow> None)
                  | _ \<Rightarrow> map_option (Range lo None) (read_step r1))))"

text \<open>\<open>for (let v = lo; v <= hi; v += step) out.add(v)\<close>.\<close>

definition steps_up :: "int \<Rightarrow> int \<Rightarrow> int \<Rightarrow> int list" where
  "steps_up lo hi st = map (\<lambda>k. lo + int k * st) [0..<nat ((hi - lo) div st + 1)]"

definition parse_part :: "string \<times> int \<times> int \<Rightarrow> string \<Rightarrow> cron_error + int list" where
  "parse_part f text' =
     (case f of (name, mn, mx) \<Rightarrow>
        (case read_part text' of
           None \<Rightarrow> Inl (CannotRead name text')
         | Some p \<Rightarrow>
             (let st = (case p of Star s \<Rightarrow> (case s of Some n \<Rightarrow> n | None \<Rightarrow> 1)
                        | Range _ _ s \<Rightarrow> (case s of Some n \<Rightarrow> n | None \<Rightarrow> 1));
                  lo = (case p of Star _ \<Rightarrow> mn | Range l _ _ \<Rightarrow> l);
                  hi = (case p of Star _ \<Rightarrow> mx
                        | Range l h s \<Rightarrow> (case h of Some v \<Rightarrow> v | None \<Rightarrow> if s \<noteq> None then mx else l))
              in if lo < mn \<or> mx < hi \<or> hi < lo \<or> st < 1 then Inl (OutsideRange name text')
                 else Inr (steps_up lo hi st))))"

fun collect :: "('e + 'a list) list \<Rightarrow> 'e + 'a list" where
  "collect [] = Inr []"
| "collect (Inl e # _) = Inl e"
| "collect (Inr xs # rs) = (case collect rs of Inl e \<Rightarrow> Inl e | Inr ys \<Rightarrow> Inr (xs @ ys))"

definition parseField :: "string \<Rightarrow> string \<times> int \<times> int \<Rightarrow> cron_error + int list" where
  "parseField text' f = collect (map (parse_part f) (split_on (CHR '','') text'))"

definition parseCron :: "string \<Rightarrow> cron_error + cron_spec" where
  "parseCron expr =
     (case words expr of
        [a, b, c, d, e] \<Rightarrow>
          (case (parseField a (FIELDS ! 0), parseField b (FIELDS ! 1), parseField c (FIELDS ! 2),
                 parseField d (FIELDS ! 3), parseField e (FIELDS ! 4)) of
             (Inr mis, Inr hrs, Inr doms, Inr mos, Inr dows) \<Rightarrow>
               Inr \<lparr>cr_minute = mis, cr_hour = hrs, cr_dom = doms, cr_month = mos,
                    cr_dow = (if 7 \<in> set dows then dows @ [0] else dows),
                    cr_domStar = (c = ''*''), cr_dowStar = (e = ''*'')\<rparr>
           | (Inl err, _) \<Rightarrow> Inl err
           | (_, Inl err, _) \<Rightarrow> Inl err
           | (_, _, Inl err, _) \<Rightarrow> Inl err
           | (_, _, _, Inl err, _) \<Rightarrow> Inl err
           | (_, _, _, _, Inl err) \<Rightarrow> Inl err)
      | _ \<Rightarrow> Inl (NeedsFiveFields expr))"

definition dayMatches :: "calendar \<Rightarrow> cron_spec \<Rightarrow> int \<Rightarrow> bool" where
  "dayMatches cal c t =
     (let dom = cal_date cal t \<in> set (cr_dom c); dow = cal_dow cal t \<in> set (cr_dow c)
      in if cr_domStar c \<or> cr_dowStar c then dom \<and> dow else dom \<or> dow)"

text \<open>One round of the search: \<open>None\<close> when \<open>t\<close> matches, else where it goes on.\<close>

definition skip_to :: "calendar \<Rightarrow> cron_spec \<Rightarrow> int \<Rightarrow> int option" where
  "skip_to cal c t =
     (if cal_month cal t \<notin> set (cr_month c) then Some (cal_nextMonth cal t)
      else if \<not> dayMatches cal c t then Some (cal_nextDay cal t)
      else if cal_hour cal t \<notin> set (cr_hour c) then Some (cal_nextHour cal t)
      else if cal_minute cal t \<notin> set (cr_minute c) then Some (cal_nextMinute cal t)
      else None)"

fun cron_search :: "nat \<Rightarrow> calendar \<Rightarrow> cron_spec \<Rightarrow> int \<Rightarrow> int \<Rightarrow> int option" where
  "cron_search 0 cal c ub t = None"
| "cron_search (Suc n) cal c ub t =
     (if ub < t then None
      else case skip_to cal c t of None \<Rightarrow> Some t | Some t' \<Rightarrow> cron_search n cal c ub t')"

definition cron_limit :: "int \<Rightarrow> int" where
  "cron_limit after = after + 4 * 366 * 86400000"

text \<open>The rounds of the search: each goes at least a minute on.\<close>

definition cron_fuel :: nat where
  "cron_fuel = nat (4 * 366 * 1440 + 2)"

definition nextCron :: "calendar \<Rightarrow> string \<Rightarrow> int \<Rightarrow> cron_error + int" where
  "nextCron cal expr after =
     (case parseCron expr of
        Inl err \<Rightarrow> Inl err
      | Inr c \<Rightarrow>
          (case cron_search cron_fuel cal c (cron_limit after) (cal_nextMinute cal (cal_floor cal after)) of
             Some t \<Rightarrow> Inr t
           | None \<Rightarrow> Inl (NeverMatches expr)))"

section \<open>Triggers\<close>

datatype trigger = Interval num' | Cron string | Manual

datatype trigger_problem = IntervalShort | CronProblem cron_error

definition MIN_INTERVAL_MINUTES :: num' where "MIN_INTERVAL_MINUTES = 5"

definition triggerProblem :: "calendar \<Rightarrow> int \<Rightarrow> trigger \<Rightarrow> trigger_problem option" where
  "triggerProblem cal now t =
     (case t of
        Manual \<Rightarrow> None
      | Interval m \<Rightarrow> if m < MIN_INTERVAL_MINUTES then Some IntervalShort else None
      | Cron expr \<Rightarrow> (case nextCron cal expr now of Inl err \<Rightarrow> Some (CronProblem err) | Inr _ \<Rightarrow> None))"

text \<open>A number of milliseconds made a \<open>Date\<close>: truncated.\<close>

definition to_date :: "num' \<Rightarrow> int" where
  "to_date x = (if 0 \<le> x then floor x else ceiling x)"

definition nextRunAfter :: "calendar \<Rightarrow> trigger \<Rightarrow> int \<Rightarrow> cron_error + int option" where
  "nextRunAfter cal t from' =
     (case t of
        Interval m \<Rightarrow> Inr (Some (to_date (of_int from' + m * 60000)))
      | Cron expr \<Rightarrow> (case nextCron cal expr from' of Inl e \<Rightarrow> Inl e | Inr x \<Rightarrow> Inr (Some x))
      | Manual \<Rightarrow> Inr None)"

definition advanceSchedule :: "calendar \<Rightarrow> trigger \<Rightarrow> int \<Rightarrow> int \<Rightarrow> cron_error + int option" where
  "advanceSchedule cal t due now =
     (case t of
        Interval m \<Rightarrow>
          (let p = m * 60000; k = max 1 (floor (of_int (now - due) / p) + 1)
           in Inr (Some (to_date (of_int due + of_int k * p))))
      | Cron expr \<Rightarrow> (case nextCron cal expr (if due < now then now else due) of Inl e \<Rightarrow> Inl e | Inr x \<Rightarrow> Inr (Some x))
      | Manual \<Rightarrow> Inr None)"

section \<open>Budget\<close>

record budget =
  perRunUsd :: num'
  perDayUsd :: num'
  maxMinutes :: num'

record spend =
  sp_day :: string
  sp_usd :: num'

definition pad2 :: "int \<Rightarrow> string" where
  "pad2 n = (let s = show_nat (nat n) in if length s < 2 then CHR ''0'' # s else s)"

definition dayKey :: "calendar \<Rightarrow> int \<Rightarrow> string" where
  "dayKey cal t =
     show_nat (nat (cal_year cal t)) @ ''-'' @ pad2 (cal_month cal t) @ ''-'' @ pad2 (cal_date cal t)"

definition spentToday :: "calendar \<Rightarrow> spend \<Rightarrow> int \<Rightarrow> num'" where
  "spentToday cal s now = (if sp_day s = dayKey cal now then sp_usd s else 0)"

definition addSpend :: "calendar \<Rightarrow> spend \<Rightarrow> num' \<Rightarrow> int \<Rightarrow> spend" where
  "addSpend cal s usd now =
     (let day = dayKey cal now in \<lparr>sp_day = day, sp_usd = (if sp_day s = day then sp_usd s else 0) + max 0 usd\<rparr>)"

definition runCap :: "calendar \<Rightarrow> budget \<Rightarrow> spend \<Rightarrow> int \<Rightarrow> num'" where
  "runCap cal b s now = max 0 (min (perRunUsd b) (perDayUsd b - spentToday cal s now))"

definition MIN_RUN_USD :: num' where "MIN_RUN_USD = 5 / 100"
definition MAX_WAIT_MS :: int where "MAX_WAIT_MS = 60 * 60000"

datatype admit_reason =
    PreviousStillGoing
  | BudgetSpent num' num'
  | Unavailable string
  | NoSlot int
  | Blocked string
  | Queued int int

datatype admission = Start num' | Wait admit_reason | Skip admit_reason

record admit_opts =
  ad_budget :: budget
  ad_spend :: spend
  ad_now :: int
  ad_busy :: bool
  ad_liveAgents :: int
  ad_maxAgents :: int
  ad_deadline :: int
  ad_unavailable :: string

definition admit :: "calendar \<Rightarrow> admit_opts \<Rightarrow> admission" where
  "admit cal o' =
     (let cap = runCap cal (ad_budget o') (ad_spend o') (ad_now o')
      in if ad_busy o' then Skip PreviousStillGoing
         else if cap < MIN_RUN_USD then
           Skip (BudgetSpent (spentToday cal (ad_spend o') (ad_now o')) (perDayUsd (ad_budget o')))
         else if ad_unavailable o' \<noteq> [] then
           (if ad_deadline o' \<le> ad_now o' then Skip (Unavailable (ad_unavailable o')) else Wait (Blocked (ad_unavailable o')))
         else if ad_maxAgents o' \<le> ad_liveAgents o' then
           (if ad_deadline o' \<le> ad_now o' then Skip (NoSlot (ad_maxAgents o'))
            else Wait (Queued (ad_liveAgents o') (ad_maxAgents o')))
         else Start cap)"

definition waitDeadline :: "int option \<Rightarrow> int \<Rightarrow> int" where
  "waitDeadline next' from' =
     (let cap = from' + MAX_WAIT_MS in case next' of Some n \<Rightarrow> if n < cap then n else cap | None \<Rightarrow> cap)"

section \<open>Settings\<close>

text \<open>The settings come from a person: a number that is not finite is \<open>None\<close> inside \<open>Some\<close>.\<close>

type_synonym given_num = "num' option option"

record budget_input =
  bi_perRun :: given_num
  bi_perDay :: given_num
  bi_maxMinutes :: given_num

datatype setting_error = NotBetween string | DailyBelowRun | NotWhole string | BadModel | BadEffort

definition num_between :: "num' option \<Rightarrow> string \<Rightarrow> num' \<Rightarrow> num' \<Rightarrow> setting_error + num'" where
  "num_between v name mn mx =
     (case v of None \<Rightarrow> Inl (NotBetween name) | Some n \<Rightarrow> if n < mn \<or> mx < n then Inl (NotBetween name) else Inr n)"

definition or_prev :: "given_num \<Rightarrow> num' \<Rightarrow> num' option" where
  "or_prev v p = (case v of Some x \<Rightarrow> x | None \<Rightarrow> Some p)"

definition DEFAULT_BUDGET :: budget where
  "DEFAULT_BUDGET = \<lparr>perRunUsd = 2, perDayUsd = 10, maxMinutes = 45\<rparr>"

definition normalizeBudget :: "budget_input \<Rightarrow> budget \<Rightarrow> setting_error + budget" where
  "normalizeBudget b prev =
     (case num_between (or_prev (bi_perRun b) (perRunUsd prev)) ''per-run budget'' MIN_RUN_USD 100 of
        Inl e \<Rightarrow> Inl e
      | Inr r \<Rightarrow>
          (case num_between (or_prev (bi_perDay b) (perDayUsd prev)) ''daily budget'' MIN_RUN_USD 500 of
             Inl e \<Rightarrow> Inl e
           | Inr d \<Rightarrow>
               if d < r then Inl DailyBelowRun
               else (case num_between (or_prev (bi_maxMinutes b) (maxMinutes prev)) ''max minutes per run'' 1 240 of
                       Inl e \<Rightarrow> Inl e
                     | Inr m \<Rightarrow> Inr \<lparr>perRunUsd = r, perDayUsd = d, maxMinutes = of_int (js_round m)\<rparr>)))"

record auto_approve =
  aa_enabled :: bool
  aa_maxPerRun :: num'
  aa_maxPerDay :: num'
  aa_model :: string
  aa_effort :: string

definition EFFORT_LEVELS :: "string list" where
  "EFFORT_LEVELS = [''low'', ''medium'', ''high'', ''xhigh'', ''max'']"

definition DEFAULT_AUTO :: auto_approve where
  "DEFAULT_AUTO = \<lparr>aa_enabled = False, aa_maxPerRun = 3, aa_maxPerDay = 3, aa_model = ''sonnet'', aa_effort = ''high''\<rparr>"

record auto_input =
  ai_enabled :: "bool option"
  ai_maxPerRun :: given_num
  ai_maxPerDay :: given_num
  ai_model :: "string option"
  ai_effort :: "string option"

definition whole_between :: "num' option \<Rightarrow> string \<Rightarrow> num' \<Rightarrow> num' \<Rightarrow> setting_error + num'" where
  "whole_between v name mn mx =
     (case v of None \<Rightarrow> Inl (NotWhole name)
      | Some n \<Rightarrow> if \<not> is_integer n \<or> n < mn \<or> mx < n then Inl (NotWhole name) else Inr n)"

definition normalizeAutoApprove :: "auto_input \<Rightarrow> auto_approve option \<Rightarrow> string list \<Rightarrow> setting_error + auto_approve" where
  "normalizeAutoApprove i prev models =
     (let p = (case prev of Some p \<Rightarrow> p | None \<Rightarrow> DEFAULT_AUTO);
          model = (case ai_model i of Some m \<Rightarrow> m | None \<Rightarrow> aa_model p);
          effort = (case ai_effort i of Some m \<Rightarrow> m | None \<Rightarrow> aa_effort p)
      in if model \<notin> set models then Inl BadModel
         else if effort \<notin> set EFFORT_LEVELS then Inl BadEffort
         else
           (case whole_between (or_prev (ai_maxPerDay i) (aa_maxPerDay p)) ''max auto-approved per day'' 1 20 of
              Inl e \<Rightarrow> Inl e
            | Inr d \<Rightarrow>
                (case whole_between (or_prev (ai_maxPerRun i) (aa_maxPerRun p)) ''max auto-approved per run'' 1 20 of
                   Inl e \<Rightarrow> Inl e
                 | Inr r \<Rightarrow>
                     Inr \<lparr>aa_enabled = (case ai_enabled i of Some b \<Rightarrow> b | None \<Rightarrow> aa_enabled p),
                          aa_maxPerRun = min r d, aa_maxPerDay = d, aa_model = model, aa_effort = effort\<rparr>)))"

section \<open>A host on UTC\<close>

text \<open>
  Months are counted from March of the year 0, so a leap day is a year's last day: the day (from
  1970-01-01) month \<open>n\<close> starts on.
\<close>

definition month_start :: "int \<Rightarrow> int" where
  "month_start n =
     (let y = n div 12; m = n mod 12
      in 365 * y + y div 4 - y div 100 + y div 400 + (153 * m + 2) div 5 - 719468)"

definition month_no :: "int \<Rightarrow> int" where
  "month_no d =
     (let n = (d + 719468) * 4800 div 146097
      in if d < month_start n then n - 1 else if month_start (n + 1) \<le> d then n + 1 else n)"

definition utc :: calendar where
  "utc =
     \<lparr>cal_year = (\<lambda>t. (month_no (t div 86400000) + 2) div 12),
      cal_month = (\<lambda>t. (month_no (t div 86400000) + 2) mod 12 + 1),
      cal_date = (\<lambda>t. t div 86400000 - month_start (month_no (t div 86400000)) + 1),
      cal_dow = (\<lambda>t. (t div 86400000 + 4) mod 7),
      cal_hour = (\<lambda>t. t div 3600000 mod 24),
      cal_minute = (\<lambda>t. t div 60000 mod 60),
      cal_nextMonth = (\<lambda>t. month_start (month_no (t div 86400000) + 1) * 86400000),
      cal_nextDay = (\<lambda>t. (t div 86400000 + 1) * 86400000),
      cal_nextHour = (\<lambda>t. (t div 3600000 + 1) * 3600000),
      cal_nextMinute = (\<lambda>t. (t div 60000 + 1) * 60000),
      cal_floor = (\<lambda>t. t div 60000 * 60000)\<rparr>"

end
