(* ===== verification/ScheduleLaws.thy ===== *)
theory ScheduleLaws
  imports Schedule
begin

text \<open>
  The contract the cron search needs of a calendar, what it gives (the first matching minute), and the
  UTC calendar as an instance: months have 27 days or more and a day lies in one month.
\<close>

section \<open>The search over a steady calendar\<close>

definition cron_matches :: "calendar \<Rightarrow> cron_spec \<Rightarrow> int \<Rightarrow> bool" where
  "cron_matches cal c t =
     (cal_month cal t \<in> set (cr_month c) \<and> dayMatches cal c t \<and> cal_hour cal t \<in> set (cr_hour c)
      \<and> cal_minute cal t \<in> set (cr_minute c))"

lemma skip_to_None: "skip_to cal c t = None \<longleftrightarrow> cron_matches cal c t"
  by (simp add: skip_to_def cron_matches_def)

locale steady_calendar =
  fixes cal :: calendar
  assumes month_on: "t < cal_nextMonth cal t" "60000 dvd cal_nextMonth cal t"
      "t \<le> u \<Longrightarrow> u < cal_nextMonth cal t \<Longrightarrow> cal_month cal u = cal_month cal t"
    and day_on: "t < cal_nextDay cal t" "60000 dvd cal_nextDay cal t"
      "t \<le> u \<Longrightarrow> u < cal_nextDay cal t \<Longrightarrow> cal_date cal u = cal_date cal t \<and> cal_dow cal u = cal_dow cal t"
    and hour_on: "t < cal_nextHour cal t" "60000 dvd cal_nextHour cal t"
      "t \<le> u \<Longrightarrow> u < cal_nextHour cal t \<Longrightarrow> cal_hour cal u = cal_hour cal t"
    and minute_on: "t < cal_nextMinute cal t" "60000 dvd cal_nextMinute cal t"
      "t \<le> u \<Longrightarrow> u < cal_nextMinute cal t \<Longrightarrow> cal_minute cal u = cal_minute cal t"
    and first_minute: "t < cal_nextMinute cal (cal_floor cal t)"
      "cal_nextMinute cal (cal_floor cal t) \<le> t + 60000"
begin

lemma skip_forward: "skip_to cal c t = Some t' \<Longrightarrow> t < t' \<and> 60000 dvd t'"
  by (auto simp: skip_to_def month_on day_on hour_on minute_on split: if_splits)

lemma skip_a_minute:
  assumes "skip_to cal c t = Some t'" "60000 dvd t"
  shows "t + 60000 \<le> t'"
proof -
  have "60000 dvd t' - t" "0 < t' - t" using skip_forward [OF assms(1)] assms(2) by auto
  then show ?thesis using zdvd_imp_le [of 60000 "t' - t"] by simp
qed

lemma skip_over_none:
  assumes "skip_to cal c t = Some t'" "t \<le> u" "u < t'"
  shows "\<not> cron_matches cal c u"
proof -
  have d: "dayMatches cal c u = dayMatches cal c t" if "u < cal_nextDay cal t"
    using day_on(3) [OF assms(2) that] by (simp add: dayMatches_def)
  show ?thesis
    using assms d month_on(3) [OF assms(2)] hour_on(3) [OF assms(2)] minute_on(3) [OF assms(2)]
    by (auto simp: skip_to_def cron_matches_def split: if_splits)
qed

lemma search_found:
  assumes "cron_search n cal c ub t = Some r" "60000 dvd t"
  shows "t \<le> r \<and> r \<le> ub \<and> 60000 dvd r \<and> cron_matches cal c r \<and> (\<forall>u. t \<le> u \<and> u < r \<longrightarrow> \<not> cron_matches cal c u)"
  using assms
proof (induction n arbitrary: t)
  case (Suc n)
  show ?case
  proof (cases "skip_to cal c t")
    case None
    then show ?thesis using Suc.prems skip_to_None [of cal c t] by (auto split: if_splits)
  next
    case (Some t')
    from Suc.prems(1) Some have s: "cron_search n cal c ub t' = Some r" by (auto split: if_splits)
    note go = Suc.IH [OF s] skip_forward [OF Some]
    show ?thesis
    proof (intro conjI allI impI)
      fix u assume "t \<le> u \<and> u < r"
      then show "\<not> cron_matches cal c u"
        using go skip_over_none [OF Some, of u] by (cases "u < t'") auto
    qed (use go in auto)
  qed
qed simp

text \<open>A fuel of a round for each minute left is enough.\<close>

lemma search_not_found:
  assumes "cron_search n cal c ub t = None" "60000 dvd t" "ub < t + int n * 60000" "t \<le> u" "u \<le> ub"
  shows "\<not> cron_matches cal c u"
  using assms
proof (induction n arbitrary: t)
  case (Suc n)
  from Suc.prems(4,5) have "t \<le> ub" by simp
  with Suc.prems(1) obtain t' where sk: "skip_to cal c t = Some t'" and s: "cron_search n cal c ub t' = None"
    by (auto split: option.splits)
  note fw = skip_forward [OF sk]
  have "ub < t' + int n * 60000" using Suc.prems(3) skip_a_minute [OF sk Suc.prems(2)] by simp
  then show ?case
    using Suc.IH [OF s _ _ _ Suc.prems(5)] fw skip_over_none [OF sk Suc.prems(4)] by (cases "u < t'") auto
qed simp

lemma next_cron:
  assumes "parseCron expr = Inr c"
  shows "case nextCron cal expr after of
      Inr r \<Rightarrow> after < r \<and> r \<le> cron_limit after \<and> 60000 dvd r \<and> cron_matches cal c r
        \<and> (\<forall>u. after < u \<and> u < r \<and> 60000 dvd u \<longrightarrow> \<not> cron_matches cal c u)
    | Inl e \<Rightarrow> e = NeverMatches expr
        \<and> (\<forall>u. after < u \<and> u \<le> cron_limit after \<and> 60000 dvd u \<longrightarrow> \<not> cron_matches cal c u)"
proof -
  define t where "t = cal_nextMinute cal (cal_floor cal after)"
  have t: "after < t" "t \<le> after + 60000" "60000 dvd t"
    using first_minute [of after] minute_on(2) by (auto simp: t_def)
  have later: "t \<le> u" if "after < u" "60000 dvd u" for u
  proof (rule ccontr)
    assume "\<not> t \<le> u"
    moreover have "60000 dvd t - u" using t(3) that(2) by simp
    ultimately have "60000 \<le> t - u" using zdvd_imp_le [of 60000 "t - u"] by simp
    then show False using t(2) that(1) by simp
  qed
  have fuel: "cron_limit after < t + int cron_fuel * 60000"
    using t(1) by (simp add: cron_limit_def cron_fuel_def)
  show ?thesis
  proof (cases "cron_search cron_fuel cal c (cron_limit after) t")
    case None
    then have "\<forall>u. after < u \<and> u \<le> cron_limit after \<and> 60000 dvd u \<longrightarrow> \<not> cron_matches cal c u"
      using search_not_found [OF None t(3) fuel] later by blast
    then show ?thesis using None by (simp add: nextCron_def assms t_def)
  next
    case (Some r)
    show ?thesis
      using search_found [OF Some t(3)] Some later t(1) by (auto simp: nextCron_def assms t_def)
  qed
qed

end

section \<open>Months\<close>

lemma leap_sum:
  fixes a a' b b' c c' y :: int
  assumes "a \<le> a'" "c \<le> c'" "b' \<le> b + 1"
  shows "365 * y + a - b + c + 337 < 365 * (y + 1) + a' - b' + c'"
  using assms by simp

lemma month_start_at:
  assumes "0 \<le> m" "m < 12"
  shows "month_start (12 * y + m) = 365 * y + y div 4 - y div 100 + y div 400 + (153 * m + 2) div 5 - 719468"
proof -
  have "(12 * y + m) div 12 = y" "(12 * y + m) mod 12 = m" using assms by presburger+
  then show ?thesis by (simp only: month_start_def Let_def)
qed

lemma later_sum:
  fixes a b k l x x' :: int
  assumes "x = k + a - l" "x' = k + b - l" "a < b"
  shows "x < x'"
  using assms by simp

lemma month_start_step: "month_start n < month_start (n + 1)"
proof -
  define y m where "y = n div 12" and "m = n mod 12"
  have m: "0 \<le> m" "m < 12" and n: "n = 12 * y + m" by (simp_all add: y_def m_def)
  have c: "365 * y + y div 4 - y div 100 + y div 400 + 337 < 365 * (y + 1) + (y + 1) div 4 - (y + 1) div 100 + (y + 1) div 400"
  proof (rule leap_sum)
    show "y div 4 \<le> (y + 1) div 4" "y div 400 \<le> (y + 1) div 400" by (rule zdiv_mono1; simp)+
    have "(y + 1) div 100 \<le> (y + 100) div 100" by (rule zdiv_mono1) simp_all
    also have "(y + 100) div 100 = y div 100 + 1" by (rule div_add_self2) simp
    finally show "(y + 1) div 100 \<le> y div 100 + 1" .
  qed
  show ?thesis
  proof (cases "m = 11")
    case True
    have "month_start n = 365 * y + y div 4 - y div 100 + y div 400 + 337 - 719468"
      using month_start_at [of 11 y] n True by simp
    moreover have "month_start (n + 1) = 365 * (y + 1) + (y + 1) div 4 - (y + 1) div 100 + (y + 1) div 400 - 719468"
      using month_start_at [of 0 "y + 1"] n True by (simp add: add.commute [of 12])
    ultimately show ?thesis using c by linarith
  next
    case False
    have "month_start (n + 1) = 365 * y + y div 4 - y div 100 + y div 400 + (153 * (m + 1) + 2) div 5 - 719468"
      using month_start_at [of "m + 1" y] n m False by (simp add: add.assoc)
    moreover have "month_start n = 365 * y + y div 4 - y div 100 + y div 400 + (153 * m + 2) div 5 - 719468"
      using month_start_at [OF m, of y] n by simp
    moreover have "(153 * m + 2) div 5 < (153 * (m + 1) + 2) div 5"
    proof -
      have "(153 * m + 2 + 5) div 5 \<le> (153 * (m + 1) + 2) div 5" by (rule zdiv_mono1) simp_all
      then show ?thesis by (simp only: div_add_self2)
    qed
    ultimately show ?thesis by (metis later_sum)
  qed
qed

lemma month_start_less: "n < k \<Longrightarrow> month_start n < month_start k"
proof (induction "nat (k - n)" arbitrary: k)
  case (Suc i)
  show ?case
  proof (cases "n = k - 1")
    case True
    then show ?thesis using month_start_step [of n] by simp
  next
    case False
    then have "month_start n < month_start (k - 1)" using Suc by simp
    then show ?thesis using month_start_step [of "k - 1"] by simp
  qed
qed simp

text \<open>A month starts within four days of the mean length of the months before it.\<close>

lemma month_start_near:
  "146097 * n - 14400 \<le> 4800 * month_start n + 4800 * 719468"
  "4800 * month_start n + 4800 * 719468 \<le> 146097 * n + 19200"
proof -
  define y m where "y = n div 12" and "m = n mod 12"
  have m: "0 \<le> m" "m < 12" and n: "n = 12 * y + m" by (simp_all add: y_def m_def)
  define a b c d where "a = y div 4" and "b = y div 100" and "c = y div 400" and "d = (153 * m + 2) div 5"
  have s: "month_start n + 719468 = 365 * y + a - b + c + d"
    by (simp add: month_start_def Let_def y_def m_def a_def b_def c_def d_def)
  have f: "4 * a \<le> y" "y \<le> 4 * a + 3" "100 * b \<le> y" "y \<le> 100 * b + 99" "400 * c \<le> y" "y \<le> 400 * c + 399"
    "5 * d \<le> 153 * m + 2" "153 * m + 2 \<le> 5 * d + 4"
    unfolding a_def b_def c_def d_def by linarith+
  have e: "4800 * month_start n + 4800 * 719468 = 1752000 * y + 4800 * a - 4800 * b + 4800 * c + 4800 * d"
    "146097 * n = 1753164 * y + 146097 * m"
    using s n by simp_all
  show "146097 * n - 14400 \<le> 4800 * month_start n + 4800 * 719468"
    unfolding e using f m by linarith
  show "4800 * month_start n + 4800 * 719468 \<le> 146097 * n + 19200"
    unfolding e using f m by linarith
qed

lemma month_no_in:
  "month_start (month_no d) \<le> d" "d < month_start (month_no d + 1)"
proof -
  define n where "n = (d + 719468) * 4800 div 146097"
  have n: "146097 * n \<le> 4800 * d + 4800 * 719468" "4800 * d + 4800 * 719468 < 146097 * n + 146097"
    unfolding n_def by (simp_all add: algebra_simps)
  have "4800 * month_start (n - 1) \<le> 4800 * d" using month_start_near(2) [of "n - 1"] n(1) by (simp add: algebra_simps)
  then have lo: "month_start (n - 1) \<le> d" by simp
  have "4800 * d < 4800 * month_start (n + 2)" using month_start_near(1) [of "n + 2"] n(2) by (simp add: algebra_simps)
  then have hi: "d < month_start (n + 2)" by simp
  show "month_start (month_no d) \<le> d" "d < month_start (month_no d + 1)"
    using lo hi unfolding month_no_def n_def [symmetric] by (auto simp: Let_def add.commute [of 2])
qed

lemma month_no_unique:
  assumes "month_start n \<le> d" "d < month_start (n + 1)"
  shows "month_no d = n"
proof (rule ccontr)
  assume "month_no d \<noteq> n"
  then consider "month_no d + 1 < n + 1" | "n + 1 < month_no d + 1" by linarith
  then show False
  proof cases
    case 1
    then have "month_start (month_no d + 1) \<le> month_start n"
      using month_start_less [of "month_no d + 1" n] by (cases "month_no d + 1 = n") auto
    then show False using month_no_in(2) [of d] assms(1) by simp
  next
    case 2
    then have "month_start (n + 1) \<le> month_start (month_no d)"
      using month_start_less [of "n + 1" "month_no d"] by (cases "month_no d = n + 1") auto
    then show False using month_no_in(1) [of d] assms(2) by simp
  qed
qed

lemma same_div:
  fixes t u k :: int
  assumes "0 < k" "t \<le> u" "u < (t div k + 1) * k"
  shows "u div k = t div k"
proof -
  have "u div k * k \<le> u" using assms(1) pos_mod_sign [of k u] div_mult_mod_eq [of u k] by linarith
  then have "u div k * k < (t div k + 1) * k" using assms(3) by linarith
  then have "u div k < t div k + 1" using assms(1) mult_less_cancel_right_pos by blast
  moreover have "t div k \<le> u div k" using assms(1,2) by (simp add: zdiv_mono1)
  ultimately show ?thesis by linarith
qed

lemma after_div:
  fixes t k :: int
  assumes "0 < k"
  shows "t < (t div k + 1) * k"
proof -
  have "t < k * (t div k) + k" using pos_mod_bound [OF assms, of t] mult_div_mod_eq [of k t] by linarith
  then show ?thesis by (simp add: algebra_simps)
qed

interpretation utc_cal: steady_calendar utc
proof unfold_locales
  fix t u :: int
  show "t < cal_nextMonth utc t"
    using month_no_in(2) [of "t div 86400000"] by (simp add: utc_def)
  show "60000 dvd cal_nextMonth utc t" by (simp add: utc_def)
  show "cal_month utc u = cal_month utc t" if "t \<le> u" "u < cal_nextMonth utc t"
  proof -
    let ?n = "month_no (t div 86400000)"
    have "month_start ?n \<le> u div 86400000"
      using month_no_in(1) [of "t div 86400000"] zdiv_mono1 [OF that(1), of 86400000] by simp
    moreover have "u div 86400000 < month_start (?n + 1)"
      using that(2) by (simp add: utc_def)
    ultimately have "month_no (u div 86400000) = ?n" by (rule month_no_unique)
    then show ?thesis by (simp add: utc_def)
  qed
  show "t < cal_nextDay utc t" "t < cal_nextHour utc t" "t < cal_nextMinute utc t"
    using after_div [of 86400000 t] after_div [of 3600000 t] after_div [of 60000 t] by (simp_all add: utc_def)
  show "60000 dvd cal_nextDay utc t" "60000 dvd cal_nextHour utc t" "60000 dvd cal_nextMinute utc t"
    by (simp_all add: utc_def)
  show "cal_date utc u = cal_date utc t \<and> cal_dow utc u = cal_dow utc t" if "t \<le> u" "u < cal_nextDay utc t"
    using same_div [of 86400000 t u] that by (simp add: utc_def)
  show "cal_hour utc u = cal_hour utc t" if "t \<le> u" "u < cal_nextHour utc t"
    using same_div [of 3600000 t u] that by (simp add: utc_def)
  show "cal_minute utc u = cal_minute utc t" if "t \<le> u" "u < cal_nextMinute utc t"
    using same_div [of 60000 t u] that by (simp add: utc_def)
  show "t < cal_nextMinute utc (cal_floor utc t)" "cal_nextMinute utc (cal_floor utc t) \<le> t + 60000"
    by (simp_all add: utc_def)
qed

end
