(* ===== verification/ScheduleProps.thy ===== *)
theory ScheduleProps
  imports ScheduleLaws
begin

text \<open>
  The properties of the schedule rules: the next cron minute, the catch-up of a schedule that fell
  behind, and the budget a run is admitted under.
\<close>

section \<open>Helpers\<close>

lemma runCap_bounds:
  "0 \<le> runCap cal b s now"
  "0 < runCap cal b s now \<Longrightarrow> runCap cal b s now \<le> perRunUsd b \<and> spentToday cal s now + runCap cal b s now \<le> perDayUsd b"
  by (simp_all add: runCap_def) linarith

lemma spent_after_add: "spentToday cal (addSpend cal s usd now) now = spentToday cal s now + max 0 usd"
  by (simp add: addSpend_def spentToday_def Let_def)

lemma to_date_of_int [simp]: "to_date (of_int i) = i"
  by (simp add: to_date_def)

lemma slots_between:
  fixes p :: int
  assumes "0 < p"
  shows "now < due + (floor (of_int (now - due) / (of_int p :: num')) + 1) * p"
    "due + floor (of_int (now - due) / (of_int p :: num')) * p \<le> now"
proof -
  have f: "floor (of_int (now - due) / (of_int p :: num')) = (now - due) div p"
    by (rule floor_divide_of_int_eq)
  show "now < due + (floor (of_int (now - due) / (of_int p :: num')) + 1) * p"
    using after_div [OF assms, of "now - due"] unfolding f by linarith
  show "due + floor (of_int (now - due) / (of_int p :: num')) * p \<le> now"
    unfolding f using assms pos_mod_sign [of p "now - due"] div_mult_mod_eq [of "now - due" p] by linarith
qed

section \<open>Properties\<close>


definition leap_night :: cron_spec where
  "leap_night =
     \<lparr>cr_minute = [30], cr_hour = [4], cr_dom = [29], cr_month = [2], cr_dow = [0, 1, 2, 3, 4, 5, 6, 7, 0],
      cr_domStar = False, cr_dowStar = True\<rparr>"

lemma leap_night_read: "parseCron ''30 4 29 2 *'' = Inr leap_night"
  by code_simp


text \<open>
  A schedule that fell behind catches up with one run (server/schedule.ts, advanceSchedule): for an
  interval of whole milliseconds, the next slot is after now, at most one interval after the later of
  now and the slot that came due, and a whole number of intervals, at least one, after that slot.
\<close>

theorem catches_up_with_one_run:
  assumes "triggerProblem cal now0 (Interval m) = None" "m * 60000 = of_int p"
  shows "\<exists>r k. advanceSchedule cal (Interval m) due now = Inr (Some r) \<and> now < r \<and> due < r
     \<and> r \<le> max now due + p \<and> 1 \<le> k \<and> r = due + k * p"
proof -
  have "5 \<le> m" using assms(1) by (simp add: triggerProblem_def MIN_INTERVAL_MINUTES_def split: if_splits)
  then have "(0 :: num') < of_int p" using assms(2) by linarith
  then have p: "0 < p" by simp
  define q where "q = floor (of_int (now - due) / (of_int p :: num'))"
  define k where "k = max 1 (q + 1)"
  have adv: "advanceSchedule cal (Interval m) due now = Inr (Some (due + k * p))"
  proof -
    have "of_int due + of_int k * (of_int p :: num') = of_int (due + k * p)" by simp
    then show ?thesis by (simp only: advanceSchedule_def trigger.case Let_def assms(2) q_def [symmetric] k_def [symmetric] to_date_of_int)
  qed
  have k1: "1 \<le> k" by (simp add: k_def)
  have up: "(q + 1) * p \<le> k * p" by (rule mult_right_mono) (use p in \<open>simp_all add: k_def\<close>)
  have one: "p \<le> k * p" using mult_right_mono [OF k1, of p] p by simp
  have top: "due + k * p \<le> max now due + p"
  proof (cases "k = 1")
    case False
    then have "k = q + 1" by (simp add: k_def)
    then show ?thesis using slots_between(2) [OF p, of due now] by (simp add: q_def algebra_simps)
  qed simp
  have "now < due + k * p" "due < due + k * p"
    using up one p slots_between(1) [OF p, of now due] unfolding q_def [symmetric] by linarith+
  then show ?thesis using adv k1 top by blast
qed

theorem catches_up_with_one_run_witness:
  "triggerProblem utc 0 (Interval 30) = None \<and> (30 :: num') * 60000 = of_int 1800000
   \<and> (\<exists>r k. advanceSchedule utc (Interval 30) 1000 (1000 + 9 * 1800000 + 5) = Inr (Some r) \<and> r = 1000 + k * 1800000)"
proof -
  have h: "triggerProblem utc 0 (Interval 30) = None" "(30 :: num') * 60000 = of_int 1800000"
    by (simp_all add: triggerProblem_def MIN_INTERVAL_MINUTES_def)
  then show ?thesis using catches_up_with_one_run [OF h, of 1000 "1000 + 9 * 1800000 + 5"] by blast
qed

text \<open>A fractional interval: the \<open>Date\<close> drops the part of a millisecond, and the next slot is now itself.\<close>

lemma fractional_interval_stands: "advanceSchedule utc (Interval (500001 / 100000)) 0 300000 = Inr (Some 300000)"
  by code_simp

text \<open>
  A run is started only inside its budget (server/schedule.ts, admit, runCap, addSpend): not beside
  another run of the agent, not on a place that is unavailable or full, with a cap of at least
  MIN_RUN_USD and at most the per-run budget, and a run that spends up to its cap leaves the day's spend
  within the daily budget. A run that does not start waits only before its deadline.
\<close>

theorem runs_within_budget:
  "case admit cal opts of
     Start cap \<Rightarrow>
       \<not> ad_busy opts \<and> ad_unavailable opts = [] \<and> ad_liveAgents opts < ad_maxAgents opts
       \<and> MIN_RUN_USD \<le> cap \<and> cap \<le> perRunUsd (ad_budget opts)
       \<and> (\<forall>usd\<le>cap. spentToday cal (addSpend cal (ad_spend opts) usd (ad_now opts)) (ad_now opts) \<le> perDayUsd (ad_budget opts))
   | Wait r \<Rightarrow> ad_now opts < ad_deadline opts \<and> \<not> ad_busy opts
   | Skip r \<Rightarrow>
       ad_busy opts \<or> runCap cal (ad_budget opts) (ad_spend opts) (ad_now opts) < MIN_RUN_USD
       \<or> ad_deadline opts \<le> ad_now opts \<and> (ad_unavailable opts \<noteq> [] \<or> ad_maxAgents opts \<le> ad_liveAgents opts)"
proof -
  let ?cap = "runCap cal (ad_budget opts) (ad_spend opts) (ad_now opts)"
  have c: "?cap \<le> perRunUsd (ad_budget opts)"
    "spentToday cal (ad_spend opts) (ad_now opts) + ?cap \<le> perDayUsd (ad_budget opts)"
    if "MIN_RUN_USD \<le> ?cap"
    using that runCap_bounds(2) [of cal "ad_budget opts" "ad_spend opts" "ad_now opts"] by (auto simp: MIN_RUN_USD_def)
  have sp: "spentToday cal (addSpend cal (ad_spend opts) usd (ad_now opts)) (ad_now opts) \<le> perDayUsd (ad_budget opts)"
    if "MIN_RUN_USD \<le> ?cap" "usd \<le> ?cap" for usd
    using c(2) [OF that(1)] that(2) runCap_bounds(1) [of cal "ad_budget opts" "ad_spend opts" "ad_now opts"]
    by (simp add: spent_after_add)
  show ?thesis
    using c(1) sp by (auto simp: admit_def Let_def not_less not_le)
qed

definition paid_run :: admit_opts where
  "paid_run =
     \<lparr>ad_budget = DEFAULT_BUDGET, ad_spend = \<lparr>sp_day = ''2023-11-14'', sp_usd = 9\<rparr>, ad_now = 1700000000000, ad_busy = False,
      ad_liveAgents = 2, ad_maxAgents = 6, ad_deadline = 1700003600000, ad_unavailable = []\<rparr>"

theorem runs_within_budget_witness:
  "admit utc paid_run = Start 1 \<and> MIN_RUN_USD \<le> 1 \<and> spentToday utc (addSpend utc (ad_spend paid_run) 1 1700000000000) 1700000000000 \<le> 10"
proof -
  have a: "admit utc paid_run = Start 1" by code_simp
  have f: "ad_now paid_run = 1700000000000" "perDayUsd (ad_budget paid_run) = 10"
    by (simp_all add: paid_run_def DEFAULT_BUDGET_def)
  show ?thesis using a runs_within_budget [where cal = utc and opts = paid_run] unfolding a f by auto
qed

text \<open>
  Saved settings are in range (server/schedule.ts, normalizeBudget, normalizeAutoApprove): a budget
  is kept only with a per-run part within the daily one, a cap a run can start under and 1 to 240 whole
  minutes, and auto-approvals only with counts from 1 to 20, the per-run count within the daily one, and
  a model and an effort that exist.
\<close>

theorem saved_settings_in_range:
  "(normalizeBudget b prev = Inr r \<longrightarrow>
      MIN_RUN_USD \<le> perRunUsd r \<and> perRunUsd r \<le> 100 \<and> perRunUsd r \<le> perDayUsd r \<and> perDayUsd r \<le> 500
      \<and> 1 \<le> maxMinutes r \<and> maxMinutes r \<le> 240 \<and> is_integer (maxMinutes r))
   \<and> (normalizeAutoApprove i p models = Inr a \<longrightarrow>
      1 \<le> aa_maxPerRun a \<and> aa_maxPerRun a \<le> aa_maxPerDay a \<and> aa_maxPerDay a \<le> 20
      \<and> aa_model a \<in> set models \<and> aa_effort a \<in> set EFFORT_LEVELS)"
proof (intro conjI impI)
  assume "normalizeBudget b prev = Inr r"
  then obtain m where r: "MIN_RUN_USD \<le> perRunUsd r" "perRunUsd r \<le> 100" "perRunUsd r \<le> perDayUsd r" "perDayUsd r \<le> 500"
    and m: "1 \<le> m" "m \<le> 240" "maxMinutes r = of_int (js_round m)"
    by (auto simp: normalizeBudget_def num_between_def not_less split: sum.splits option.splits if_splits)
  have "1 \<le> js_round m" "js_round m \<le> 240" using m(1,2) by (simp_all add: js_round_def le_floor_iff floor_le_iff)
  then show "MIN_RUN_USD \<le> perRunUsd r" "perRunUsd r \<le> 100" "perRunUsd r \<le> perDayUsd r" "perDayUsd r \<le> 500"
    "1 \<le> maxMinutes r" "maxMinutes r \<le> 240" "is_integer (maxMinutes r)"
    using r m(3) by (simp_all add: is_integer_def)
next
  assume "normalizeAutoApprove i p models = Inr a"
  then show "1 \<le> aa_maxPerRun a" "aa_maxPerRun a \<le> aa_maxPerDay a" "aa_maxPerDay a \<le> 20" "aa_model a \<in> set models"
    "aa_effort a \<in> set EFFORT_LEVELS"
    by (auto simp: normalizeAutoApprove_def whole_between_def Let_def not_less split: sum.splits option.splits if_splits)
qed

theorem saved_settings_in_range_witness:
  "normalizeBudget \<lparr>bi_perRun = Some (Some 3), bi_perDay = None, bi_maxMinutes = Some (Some (21 / 2))\<rparr> DEFAULT_BUDGET
     = Inr \<lparr>perRunUsd = 3, perDayUsd = 10, maxMinutes = 11\<rparr>
   \<and> (11 :: num') \<le> 240"
proof -
  have n: "normalizeBudget \<lparr>bi_perRun = Some (Some 3), bi_perDay = None, bi_maxMinutes = Some (Some (21 / 2))\<rparr> DEFAULT_BUDGET
     = Inr \<lparr>perRunUsd = 3, perDayUsd = 10, maxMinutes = 11\<rparr>" by code_simp
  show ?thesis
    using saved_settings_in_range [THEN conjunct1, THEN mp, OF n] n by simp
qed

end
