(* ===== verification/TokenSwitch.thy ===== *)
theory TokenSwitch
  imports FF_Strings
begin

text \<open>
  What happens when a Claude token runs out (server/tokenSwitch.ts): a refusal or a limit line marks the
  token out, the agent it stopped is resumed on its pool's best token or held, a worker left behind is
  resumed a few times more, and a process seen on another token is a switch. A session's account is
  empty when it has none. What the class is given (labels, meters, the pool, the ledger) is a record of
  functions; what it does is a list of effects. The state file is not modelled.
\<close>

section \<open>Sessions\<close>

datatype session_kind = SOrchestrator | SWorker | SStanding | SOps
datatype orchestrator_role = Dispatcher | Personal
datatype session_status = Starting | Running | Idle | WaitingPermission | Stopped | Errored

record session =
  s_id :: string
  s_kind :: session_kind
  s_role :: "orchestrator_role option"
  s_title :: string
  s_status :: session_status
  s_account :: string
  s_lastResult :: "string option"
  s_lastResultAt :: "int option"
  s_backgroundTasks :: nat

definition mid_turn :: "session_status \<Rightarrow> bool" where
  "mid_turn st = (st = Running \<or> st = Starting \<or> st = WaitingPermission)"

section \<open>Claude's limit line\<close>

definition strip :: "string \<Rightarrow> string \<Rightarrow> string option" where
  "strip p s = (if has_prefix p s then Some (drop (length p) s) else None)"

fun strip_one :: "string list \<Rightarrow> string \<Rightarrow> string option" where
  "strip_one [] s = None"
| "strip_one (p # ps) s = (case strip p s of Some r \<Rightarrow> Some r | None \<Rightarrow> strip_one ps s)"

text \<open>\<open>(\w+[ -])?limit\<close>.\<close>

definition limit_word :: "string \<Rightarrow> bool" where
  "limit_word s =
     (has_prefix ''limit'' s
      \<or> (let w = takeWhile word_char s; r = dropWhile word_char s
         in w \<noteq> [] \<and> (has_prefix '' limit'' r \<or> has_prefix ''-limit'' r)))"

definition LIMIT_END :: "string \<Rightarrow> bool" where
  "LIMIT_END text' =
     (let s = dropWhile (\<lambda>c. \<not> word_char c) (lower text')
      in (case strip_one [''you've hit your '', ''youve hit your '', ''you've reached your '', ''youve reached your ''] s of
            Some r \<Rightarrow> limit_word r
          | None \<Rightarrow> False)
         \<or> (let r = (case strip ''claude '' s of Some r \<Rightarrow> r | None \<Rightarrow> s)
            in case strip_one [''usage limit '', ''session limit '', ''weekly limit ''] r of
                 Some q \<Rightarrow> has_prefix ''reached'' q \<or> has_prefix ''hit'' q
               | None \<Rightarrow> False))"

text \<open>\<open>\b(?:...)\b\<close> of alternatives: one of them stands in the text as a word of its own.\<close>

fun word_at :: "bool \<Rightarrow> string list \<Rightarrow> string \<Rightarrow> bool" where
  "word_at inside ws [] = False"
| "word_at inside ws (c # cs) =
     (\<not> inside
        \<and> (\<exists>w \<in> set ws. has_prefix w (c # cs) \<and> (case drop (length w) (c # cs) of [] \<Rightarrow> True | d # _ \<Rightarrow> \<not> word_char d))
      \<or> word_at (word_char c) ws cs)"

definition has_word :: "string list \<Rightarrow> string \<Rightarrow> bool" where
  "has_word ws s = word_at False ws (lower s)"

datatype window = SessionWindow | WeeklyWindow

record meter_reading =
  m_percent :: num'
  m_resetsAt :: "int option"

record out_meters =
  mt_session :: "meter_reading option"
  mt_weekly :: "meter_reading option"

definition percent_of :: "meter_reading option \<Rightarrow> num'" where
  "percent_of m = (case m of Some r \<Rightarrow> m_percent r | None \<Rightarrow> 0)"

definition refusedWindow :: "string option \<Rightarrow> string \<Rightarrow> out_meters option \<Rightarrow> window" where
  "refusedWindow type text' u =
     (if type = Some ''five_hour'' then SessionWindow
      else if (case type of Some t \<Rightarrow> has_prefix ''seven_day'' t | None \<Rightarrow> False) then WeeklyWindow
      else if has_word [''weekly'', ''7day'', ''7-day'', ''7 day'', ''week''] text' then WeeklyWindow
      else if has_word [''session'', ''5hour'', ''5-hour'', ''5 hour'', ''five-hour'', ''five hour''] text' then SessionWindow
      else (let p = (\<lambda>f. case u of Some m \<Rightarrow> percent_of (f m) | None \<Rightarrow> 0)
            in if p mt_weekly < p mt_session then SessionWindow else WeeklyWindow))"

section \<open>An orchestrator's token\<close>

datatype token_pool_state = PoolRetired | PoolExhausted | PoolOther string

record pool_token_view =
  ptv_key :: string
  ptv_label :: string
  ptv_state :: token_pool_state
  ptv_why :: string
  ptv_capped :: bool

definition better_token :: "pool_token_view \<Rightarrow> string \<Rightarrow> pool_token_view \<Rightarrow> bool" where
  "better_token hit account t =
     (ptv_key t \<noteq> account \<and> ptv_state t \<noteq> PoolExhausted \<and> \<not> ptv_capped t
      \<and> (ptv_state hit = PoolExhausted \<or> ptv_capped hit \<or> ptv_state t \<noteq> PoolRetired))"

definition pool_of :: "(string \<times> pool_token_view list) list \<Rightarrow> string \<Rightarrow> pool_token_view list" where
  "pool_of pools who =
     (case find (\<lambda>p. lower (trim (fst p)) = lower (trim who)) pools of Some p \<Rightarrow> snd p | None \<Rightarrow> [])"

definition orchestratorOut :: "(string \<times> pool_token_view list) list \<Rightarrow> string \<Rightarrow> string \<Rightarrow> string option" where
  "orchestratorOut pools account pool =
     (case find (\<lambda>t. ptv_key t = account) (concat (map snd pools)) of
        None \<Rightarrow> None
      | Some hit \<Rightarrow>
          if ptv_state hit \<noteq> PoolRetired \<and> ptv_state hit \<noteq> PoolExhausted then None
          else if list_ex (better_token hit account) (pool_of pools pool)
               then Some (''vault token '' @ ptv_label hit @ '' ('' @ ptv_why hit @ '')'')
               else None)"

section \<open>The switch\<close>

definition OUT_FALLBACK_MS :: int where "OUT_FALLBACK_MS = 60 * 60000"
definition STUCK_MS :: int where "STUCK_MS = 2 * 3600000"
definition RETRY_STUCK_MS :: int where "RETRY_STUCK_MS = 10 * 60000"
definition MAX_STUCK_RETRIES :: nat where "MAX_STUCK_RETRIES = 3"
definition KEEP :: nat where "KEEP = 20"
definition PENDING_MS :: int where "PENDING_MS = 8 * 86400000"

record rate_limit =
  rl_status :: "string option"
  rl_type :: "string option"
  rl_resetsAt :: "int option"

record switch_record =
  sw_at :: int
  sw_session :: string
  sw_kind :: session_kind
  sw_title :: string
  sw_from :: string
  sw_to :: string
  sw_why :: string
  sw_requests :: "string list"

record pending_move =
  pm_from :: string
  pm_why :: string
  pm_at :: int

record resumed_on =
  re_account :: string
  re_at :: int

record retried =
  rt_account :: string
  rt_tries :: nat
  rt_gaveUp :: bool

record out_mark =
  om_field :: window
  om_until :: int
  om_at :: int
  om_why :: string

text \<open>The log lines, by what they say; a line that tells data carries it.\<close>

datatype log_line =
    NotResumedOps
  | NotResumedDispatcher
  | ResumedInPool
  | StuckThere
  | BlockedOn "string list"
  | WaitsForRoom
  | GivesUp nat
  | StillIdleResumed nat
  | SwitchLine string

datatype effect =
    MarkOut string out_mark string
  | Resume session string
  | Hold session string string
  | Note session string
  | Log string log_line

record deps =
  d_label :: "string \<Rightarrow> string option"
  d_meters :: "string \<Rightarrow> out_meters option"
  d_out :: "string \<Rightarrow> bool"
  d_serves :: "session \<Rightarrow> bool option"
  d_hold :: "session \<Rightarrow> string list"
  d_note :: "session \<Rightarrow> string list"

record switch_state =
  refused :: "string \<rightharpoonup> string"
  resumed :: "string \<rightharpoonup> resumed_on"
  retries :: "string \<rightharpoonup> retried"
  pending_moves :: "string \<rightharpoonup> pending_move"
  recent_switches :: "switch_record list"

definition no_switches :: switch_state where
  "no_switches =
     \<lparr>refused = (\<lambda>_. None), resumed = (\<lambda>_. None), retries = (\<lambda>_. None), pending_moves = (\<lambda>_. None), recent_switches = []\<rparr>"

text \<open>A label, absent or empty alike.\<close>

definition token_label :: "deps \<Rightarrow> string \<Rightarrow> string option" where
  "token_label d account = (if d_label d account = Some [] then None else d_label d account)"

fun kind_name :: "session_kind \<Rightarrow> string" where
  "kind_name SOrchestrator = ''orchestrator''"
| "kind_name SWorker = ''worker''"
| "kind_name SStanding = ''standing''"
| "kind_name SOps = ''ops''"

definition who_is :: "session \<Rightarrow> string" where
  "who_is s = kind_name (s_kind s) @ '' '' @ s_id s"

definition meter_of :: "window \<Rightarrow> out_meters \<Rightarrow> meter_reading option" where
  "meter_of w m = (case w of SessionWindow \<Rightarrow> mt_session m | WeeklyWindow \<Rightarrow> mt_weekly m)"

definition out_until :: "out_meters option \<Rightarrow> window \<Rightarrow> int option \<Rightarrow> int \<Rightarrow> int" where
  "out_until m w reset now =
     (let fromMeter = Option.bind (Option.bind m (meter_of w)) m_resetsAt
      in case reset of
           Some r \<Rightarrow> if now < r then r else (case fromMeter of Some x \<Rightarrow> if now < x then x else now + OUT_FALLBACK_MS | None \<Rightarrow> now + OUT_FALLBACK_MS)
         | None \<Rightarrow> (case fromMeter of Some x \<Rightarrow> if now < x then x else now + OUT_FALLBACK_MS | None \<Rightarrow> now + OUT_FALLBACK_MS))"

definition mark_out :: "deps \<Rightarrow> int \<Rightarrow> string \<Rightarrow> string \<Rightarrow> window \<Rightarrow> int option \<Rightarrow> string \<Rightarrow> effect" where
  "mark_out d now account label w reset why =
     MarkOut account \<lparr>om_field = w, om_until = out_until (d_meters d account) w reset now, om_at = now, om_why = why\<rparr> label"

definition resumeText :: "session \<Rightarrow> string \<Rightarrow> string \<Rightarrow> string" where
  "resumeText s label why =
     (let same = (if s_kind s = SWorker then ''your conversation, sandbox and requests are as you left them'' else ''your conversation is as you left it'')
      in ''[token switch] Your last turn stopped because '' @ why
         @ ''. FF Factory moved you to a Claude token with room in the same pool (w1745, docs/vault.md \"When a token runs out\"); ''
         @ same @ '', and '' @ label
         @ '' is not used again before its reset. Carry on where you stopped. If the work is already done, say so in one line and stop.'')"

definition rateLimit :: "deps \<Rightarrow> int \<Rightarrow> session \<Rightarrow> rate_limit option \<Rightarrow> switch_state \<Rightarrow> switch_state \<times> effect list" where
  "rateLimit d now s info st =
     (case info of
        None \<Rightarrow> (st, [])
      | Some i \<Rightarrow>
          if rl_status i \<noteq> Some ''rejected'' \<or> rl_type i = Some ''overage'' \<or> s_account s = [] then (st, [])
          else
            (case token_label d (s_account s) of
               None \<Rightarrow> (st, [])
             | Some label \<Rightarrow>
                 (let why = ''Claude refused it (rate limit '' @ (case rl_type i of Some t \<Rightarrow> t | None \<Rightarrow> ''unnamed'')
                            @ '': rejected) on '' @ who_is s @ [CHR 0x27] @ ''s request''
                  in (st\<lparr>refused := (refused st)(s_id s \<mapsto> s_account s)\<rparr>,
                      [mark_out d now (s_account s) label (refusedWindow (rl_type i) [] (d_meters d (s_account s)))
                         (map_option (\<lambda>r. r * 1000) (rl_resetsAt i)) why]))))"

definition moving :: "deps \<Rightarrow> int \<Rightarrow> string \<Rightarrow> string \<Rightarrow> string \<Rightarrow> switch_state \<Rightarrow> switch_state" where
  "moving d now sid account why st =
     (if account = [] \<or> token_label d account = None \<or> map_option pm_from (pending_moves st sid) = Some account then st
      else st\<lparr>pending_moves := (pending_moves st)(sid \<mapsto> \<lparr>pm_from = account, pm_why = why, pm_at = now\<rparr>)\<rparr>)"

definition result_of :: "session \<Rightarrow> string" where
  "result_of s = (case s_lastResult s of Some t \<Rightarrow> trim t | None \<Rightarrow> [])"

definition quoted :: "string \<Rightarrow> string" where
  "quoted s = CHR 0x22 # s @ [CHR 0x22]"

text \<open>Resumed on this account within so long, and the resumes by \<open>tick\<close> on it so far.\<close>

definition resumed_within :: "int \<Rightarrow> string \<Rightarrow> string \<Rightarrow> int \<Rightarrow> switch_state \<Rightarrow> bool" where
  "resumed_within ms sid account now st =
     (case resumed st sid of Some a \<Rightarrow> re_account a = account \<and> now - re_at a < ms | None \<Rightarrow> False)"

definition tries_on :: "string \<Rightarrow> string \<Rightarrow> switch_state \<Rightarrow> nat" where
  "tries_on sid account st =
     (case retries st sid of Some r \<Rightarrow> if rt_account r = account then rt_tries r else 0 | None \<Rightarrow> 0)"

text \<open>What a stopped agent's turn end does once its token is known to be out and it is idle.\<close>

definition stopped_on_out :: "deps \<Rightarrow> int \<Rightarrow> session \<Rightarrow> string \<Rightarrow> string \<Rightarrow> switch_state \<Rightarrow> switch_state \<times> effect list" where
  "stopped_on_out d now s label why st =
     (let account = s_account s; stuck = resumed_within STUCK_MS (s_id s) account now st
      in if \<not> stuck \<and> d_serves d s = Some True then
           (moving d now (s_id s) account why (st\<lparr>resumed := (resumed st)(s_id s \<mapsto> \<lparr>re_account = account, re_at = now\<rparr>)\<rparr>),
            [Log (who_is s) ResumedInPool, Resume s (resumeText s label why)])
         else if stuck then (st, [Log (who_is s) StuckThere])
         else if s_kind s = SWorker then
           (st, [Hold s label (label @ '' ran out and no token in its pool has room''), Log (who_is s) (BlockedOn (d_hold d s))])
         else (st, [Log (who_is s) WaitsForRoom]))"

definition limit_marks :: "deps \<Rightarrow> int \<Rightarrow> session \<Rightarrow> string \<Rightarrow> effect list" where
  "limit_marks d now s label =
     (if LIMIT_END (result_of s) then
        [mark_out d now (s_account s) label (refusedWindow None (result_of s) (d_meters d (s_account s))) None
           (who_is s @ [CHR 0x27] @ ''s turn ended on Claude'' @ [CHR 0x27] @ ''s limit line (''
            @ quoted (take 120 (squeeze (result_of s))) @ '')'')]
      else [])"

definition ran_out_why :: "session \<Rightarrow> string \<Rightarrow> string" where
  "ran_out_why s label =
     label @ '' ran out ('' @ (if LIMIT_END (result_of s) then quoted (take 120 (squeeze (result_of s))) else ''Claude refused it'') @ '')''"

definition switch_turnEnded :: "deps \<Rightarrow> int \<Rightarrow> session \<Rightarrow> switch_state \<Rightarrow> switch_state \<times> effect list" where
  "switch_turnEnded d now s st0 =
     (let refusedOn = refused st0 (s_id s); st = st0\<lparr>refused := (refused st0)(s_id s := None)\<rparr>
      in if s_account s = [] then (st, [])
         else
           (case token_label d (s_account s) of
              None \<Rightarrow> (st, [])
            | Some label \<Rightarrow>
                if \<not> LIMIT_END (result_of s) \<and> refusedOn \<noteq> Some (s_account s) then (st, [])
                else if mid_turn (s_status s) then (st, limit_marks d now s label)
                else if s_kind s = SOps then (st, limit_marks d now s label @ [Log (who_is s) NotResumedOps])
                else if s_kind s = SOrchestrator \<and> s_role s = Some Dispatcher then
                  (st, limit_marks d now s label @ [Log (who_is s) NotResumedDispatcher])
                else (case stopped_on_out d now s label (ran_out_why s label) st of
                        (st', fx) \<Rightarrow> (st', limit_marks d now s label @ fx))))"

text \<open>One session of \<open>tick\<close>.\<close>

definition left_behind :: "deps \<Rightarrow> int \<Rightarrow> session \<Rightarrow> bool" where
  "left_behind d now s =
     (s_kind s = SWorker \<and> s_account s \<noteq> [] \<and> \<not> mid_turn (s_status s) \<and> s_status s \<noteq> Stopped \<and> s_status s \<noteq> Errored
      \<and> s_backgroundTasks s = 0 \<and> LIMIT_END (result_of s)
      \<and> (case s_lastResultAt s of Some e \<Rightarrow> RETRY_STUCK_MS \<le> now - e | None \<Rightarrow> False)
      \<and> token_label d (s_account s) \<noteq> None \<and> d_out d (s_account s))"

definition tick_one :: "deps \<Rightarrow> int \<Rightarrow> session \<Rightarrow> switch_state \<Rightarrow> switch_state \<times> effect list" where
  "tick_one d now s st =
     (if \<not> left_behind d now s then (st, [])
      else if resumed_within RETRY_STUCK_MS (s_id s) (s_account s) now st then (st, [])
      else
        (let r = retries st (s_id s);
             tries = tries_on (s_id s) (s_account s) st;
             label = the (token_label d (s_account s))
         in if MAX_STUCK_RETRIES \<le> tries then
              (if (case r of Some q \<Rightarrow> rt_gaveUp q | None \<Rightarrow> False) then (st, [])
               else (st\<lparr>retries := (retries st)(s_id s \<mapsto> \<lparr>rt_account = s_account s, rt_tries = tries, rt_gaveUp = True\<rparr>)\<rparr>,
                     [Log (who_is s) (GivesUp tries)]))
            else if d_serves d s \<noteq> Some True then (st, [])
            else
              (let why = label @ '' ran out ('' @ quoted (take 120 (trim (squeeze (case s_lastResult s of Some t \<Rightarrow> t | None \<Rightarrow> [])))) @ '')'';
                   st' = st\<lparr>retries := (retries st)(s_id s \<mapsto> \<lparr>rt_account = s_account s, rt_tries = tries + 1, rt_gaveUp = False\<rparr>),
                            resumed := (resumed st)(s_id s \<mapsto> \<lparr>re_account = s_account s, re_at = now\<rparr>)\<rparr>
               in (moving d now (s_id s) (s_account s) why st',
                   [Log (who_is s) (StillIdleResumed (tries + 1)), Resume s (resumeText s label why)]))))"

fun tick_switch :: "deps \<Rightarrow> int \<Rightarrow> session list \<Rightarrow> switch_state \<Rightarrow> switch_state \<times> effect list" where
  "tick_switch d now [] st = (st, [])"
| "tick_switch d now (s # ss) st =
     (case tick_one d now s st of (st1, fx1) \<Rightarrow> (case tick_switch d now ss st1 of (st2, fx2) \<Rightarrow> (st2, fx1 @ fx2)))"

definition last_n :: "nat \<Rightarrow> 'a list \<Rightarrow> 'a list" where
  "last_n n xs = drop (length xs - n) xs"

definition seen :: "deps \<Rightarrow> int \<Rightarrow> session \<Rightarrow> switch_state \<Rightarrow> switch_state \<times> effect list" where
  "seen d now s st =
     (case pending_moves st (s_id s) of
        None \<Rightarrow> (st, [])
      | Some p \<Rightarrow>
          (let gone = (pending_moves st)(s_id s := None)
           in if PENDING_MS < now - pm_at p then (st\<lparr>pending_moves := gone\<rparr>, [])
              else if s_account s = [] \<or> s_account s = pm_from p \<or> s_status s = Stopped \<or> s_status s = Errored then (st, [])
              else
                (let from' = (case d_label d (pm_from p) of Some l \<Rightarrow> l | None \<Rightarrow> ''a vault token no longer in the vault'');
                     to' = (case d_label d (s_account s) of Some l \<Rightarrow> l | None \<Rightarrow> ''an account outside the vault'');
                     line = ''token switch (w1745): '' @ who_is s @ '' moved from '' @ from' @ '' to '' @ to' @ '': '' @ pm_why p;
                     requests = d_note d s;
                     record' = \<lparr>sw_at = now, sw_session = s_id s, sw_kind = s_kind s, sw_title = s_title s, sw_from = from',
                            sw_to = to', sw_why = pm_why p, sw_requests = requests\<rparr>
                 in (st\<lparr>pending_moves := gone, recent_switches := last_n KEEP (recent_switches st @ [record'])\<rparr>,
                     [Note s line, Log (who_is s) (SwitchLine line)]))))"

text \<open>The moves and switches \<open>statusLines\<close> shows.\<close>

definition waiting_moves :: "int \<Rightarrow> (string \<times> pending_move) list \<Rightarrow> (string \<times> pending_move) list" where
  "waiting_moves now ms = filter (\<lambda>(_, p). now - pm_at p \<le> PENDING_MS) ms"

definition day_switches :: "int \<Rightarrow> switch_state \<Rightarrow> switch_record list" where
  "day_switches now st = last_n 10 (filter (\<lambda>r. now - sw_at r < 86400000) (recent_switches st))"

end
