(* ===== verification/TokenSwitchProps.thy ===== *)
theory TokenSwitchProps
  imports TokenSwitch
begin

text \<open>
  The token switch over any sequence of events: who is resumed and how often, and what a mark and a
  recorded switch are.
\<close>

section \<open>Events\<close>

datatype switch_event =
    RateLimited session "rate_limit option"
  | TurnEnded session
  | Ticked "session list"
  | Moving session string
  | Seen session

fun switch_step :: "deps \<Rightarrow> int \<Rightarrow> switch_event \<Rightarrow> switch_state \<Rightarrow> switch_state \<times> effect list" where
  "switch_step d now (RateLimited s i) st = rateLimit d now s i st"
| "switch_step d now (TurnEnded s) st = switch_turnEnded d now s st"
| "switch_step d now (Ticked ss) st = tick_switch d now ss st"
| "switch_step d now (Moving s why) st = (moving d now (s_id s) (s_account s) why st, [])"
| "switch_step d now (Seen s) st = seen d now s st"

text \<open>The effects of a run, each with its time; what the class is given may change between events.\<close>

fun switch_run :: "(int \<times> deps \<times> switch_event) list \<Rightarrow> switch_state \<Rightarrow> (int \<times> effect) list" where
  "switch_run [] st = []"
| "switch_run ((now, d, e) # es) st =
     (case switch_step d now e st of (st', fx) \<Rightarrow> map (Pair now) fx @ switch_run es st')"

fun sessions_of :: "switch_event \<Rightarrow> session list" where
  "sessions_of (RateLimited s i) = [s]"
| "sessions_of (TurnEnded s) = [s]"
| "sessions_of (Ticked ss) = ss"
| "sessions_of (Moving s why) = [s]"
| "sessions_of (Seen s) = [s]"

text \<open>A session that does not get off its token: every event shows it there.\<close>

definition stays_on :: "string \<Rightarrow> string \<Rightarrow> (int \<times> deps \<times> switch_event) list \<Rightarrow> bool" where
  "stays_on sid a es = (\<forall>(now, d, e) \<in> set es. \<forall>s \<in> set (sessions_of e). s_id s = sid \<longrightarrow> s_account s = a)"

fun resumes :: "string \<Rightarrow> int \<times> effect \<Rightarrow> bool" where
  "resumes sid (_, Resume s _) = (s_id s = sid)"
| "resumes sid _ = False"

fun tick_resumes :: "string \<Rightarrow> int \<times> effect \<Rightarrow> bool" where
  "tick_resumes sid (_, Log w (StillIdleResumed n)) = (w = ''worker '' @ sid)"
| "tick_resumes sid _ = False"

section \<open>One event\<close>

lemma moving_keeps [simp]:
  "resumed (moving d now sid a why st) = resumed st" "retries (moving d now sid a why st) = retries st"
  "refused (moving d now sid a why st) = refused st" "recent_switches (moving d now sid a why st) = recent_switches st"
  by (simp_all add: moving_def)

text \<open>What a list of effects of one event at \<open>now\<close> does to the session \<open>sid\<close> on \<open>a\<close>.\<close>

definition step_ok :: "string \<Rightarrow> string \<Rightarrow> int \<Rightarrow> switch_state \<Rightarrow> switch_state \<times> effect list \<Rightarrow> bool" where
  "step_ok sid a now st r =
     (let n = length (filter (resumes sid) (map (Pair now) (snd r)));
          k = length (filter (tick_resumes sid) (map (Pair now) (snd r)))
      in (n = 0 \<and> resumed (fst r) sid = resumed st sid
            \<or> n = 1 \<and> \<not> resumed_within RETRY_STUCK_MS sid a now st \<and> resumed (fst r) sid = Some \<lparr>re_account = a, re_at = now\<rparr>)
         \<and> tries_on sid a (fst r) = tries_on sid a st + k \<and> (0 < k \<longrightarrow> tries_on sid a (fst r) \<le> MAX_STUCK_RETRIES))"

lemma step_okI:
  assumes "resumed (fst r) sid = resumed st sid" "retries (fst r) sid = retries st sid"
    "\<And>e. e \<in> set (snd r) \<Longrightarrow> \<not> resumes sid (now, e) \<and> \<not> tick_resumes sid (now, e)"
  shows "step_ok sid a now st r"
proof -
  have "filter (resumes sid) (map (Pair now) (snd r)) = []" "filter (tick_resumes sid) (map (Pair now) (snd r)) = []"
    using assms(3) by (auto simp: filter_empty_conv)
  then show ?thesis using assms(1,2) by (simp add: step_ok_def tries_on_def)
qed

lemma rateLimit_ok: "step_ok sid a now st (rateLimit d now s i st)"
  by (rule step_okI) (auto simp: rateLimit_def mark_out_def Let_def split: option.splits if_splits)

lemma seen_ok: "step_ok sid a now st (seen d now s st)"
  by (rule step_okI) (auto simp: seen_def Let_def split: option.splits if_splits)

lemma no_resumes:
  assumes "\<And>e. e \<in> set fx \<Longrightarrow> \<not> resumes sid (now, e) \<and> \<not> tick_resumes sid (now, e)"
  shows "filter (resumes sid) (map (Pair now) fx) = []" "filter (tick_resumes sid) (map (Pair now) fx) = []"
  using assms by (auto simp: filter_empty_conv)

lemma stuck_longer: "resumed_within RETRY_STUCK_MS sid a now st \<Longrightarrow> resumed_within STUCK_MS sid a now st"
  by (auto simp: resumed_within_def RETRY_STUCK_MS_def STUCK_MS_def split: option.splits)

lemma stopped_on_out_ok:
  assumes "s_id s = sid \<Longrightarrow> s_account s = a"
  shows "step_ok sid a now st (stopped_on_out d now s label why st)"
proof (cases "\<not> resumed_within STUCK_MS (s_id s) (s_account s) now st \<and> d_serves d s = Some True")
  case True
  then have "stopped_on_out d now s label why st =
     (moving d now (s_id s) (s_account s) why
        (st\<lparr>resumed := (resumed st)(s_id s \<mapsto> \<lparr>re_account = s_account s, re_at = now\<rparr>)\<rparr>),
      [Log (who_is s) ResumedInPool, Resume s (resumeText s label why)])"
    by (simp add: stopped_on_out_def Let_def)
  moreover have "\<not> resumed_within RETRY_STUCK_MS (s_id s) (s_account s) now st" using True stuck_longer by blast
  ultimately show ?thesis
    using assms by (cases "s_id s = sid") (auto simp: step_ok_def tries_on_def)
next
  case False
  then show ?thesis
    by (intro step_okI) (auto simp: stopped_on_out_def Let_def split: if_splits)
qed

lemma step_ok_marks:
  assumes "step_ok sid a now st (st', fx)" "\<And>e. e \<in> set marks \<Longrightarrow> \<not> resumes sid (now, e) \<and> \<not> tick_resumes sid (now, e)"
  shows "step_ok sid a now st (st', marks @ fx)"
proof -
  have "filter (resumes sid) (map (Pair now) marks) = []" "filter (tick_resumes sid) (map (Pair now) marks) = []"
    by (rule no_resumes, rule assms(2), assumption)+
  then show ?thesis using assms(1) by (auto simp: step_ok_def Let_def)
qed

lemma step_ok_refused [simp]: "step_ok sid a now (st\<lparr>refused := r\<rparr>) x = step_ok sid a now st x"
  by (simp add: step_ok_def resumed_within_def tries_on_def)

lemma switch_turnEnded_ok:
  assumes "s_id s = sid \<Longrightarrow> s_account s = a"
  shows "step_ok sid a now st (switch_turnEnded d now s st)"
proof -
  have stop: "step_ok sid a now st (stopped_on_out d now s label why (st\<lparr>refused := r\<rparr>))" for label why r
    using stopped_on_out_ok [of s sid a now "st\<lparr>refused := r\<rparr>" d label why] assms by simp
  have quiet: "step_ok sid a now st (st\<lparr>refused := r\<rparr>, fx)"
    if "\<And>e. e \<in> set fx \<Longrightarrow> \<not> resumes sid (now, e) \<and> \<not> tick_resumes sid (now, e)" for r fx
    by (rule step_okI) (use that in auto)
  show ?thesis
  proof (cases "token_label d (s_account s)")
    case None
    then show ?thesis using quiet [of "[]"] by (simp add: switch_turnEnded_def Let_def)
  next
    case (Some label)
    define st1 where "st1 = st\<lparr>refused := (refused st)(s_id s := None)\<rparr>"
    have marks: "\<not> resumes sid (now, e) \<and> \<not> tick_resumes sid (now, e)" if "e \<in> set (limit_marks d now s label)" for e
      using that by (auto simp: limit_marks_def mark_out_def split: if_splits)
    have q: "step_ok sid a now st (st1, fx)"
      if "\<And>e. e \<in> set fx \<Longrightarrow> \<not> resumes sid (now, e) \<and> \<not> tick_resumes sid (now, e)" for fx
      unfolding st1_def by (rule quiet) (rule that)
    have "step_ok sid a now st (case stopped_on_out d now s label why st1 of (st', fx) \<Rightarrow> (st', limit_marks d now s label @ fx))" for why
    proof -
      obtain st' fx where so: "stopped_on_out d now s label why st1 = (st', fx)" by fastforce
      have "step_ok sid a now st (st', fx)"
        using stop [of label why "(refused st)(s_id s := None)"] so unfolding st1_def by simp
      then show ?thesis using so marks by (simp add: step_ok_marks)
    qed
    then show ?thesis using marks by (auto simp: switch_turnEnded_def Let_def Some st1_def [symmetric] intro!: q)
  qed
qed

lemma tick_one_ok:
  assumes "s_id s = sid \<Longrightarrow> s_account s = a"
  shows "step_ok sid a now st (tick_one d now s st)"
proof (cases "left_behind d now s \<and> \<not> resumed_within RETRY_STUCK_MS (s_id s) (s_account s) now st
    \<and> tries_on (s_id s) (s_account s) st < MAX_STUCK_RETRIES \<and> d_serves d s = Some True")
  case True
  then have w: "s_kind s = SWorker" by (simp add: left_behind_def)
  from True obtain label why where "tick_one d now s st =
     (moving d now (s_id s) (s_account s) why
        (st\<lparr>retries := (retries st)(s_id s \<mapsto> \<lparr>rt_account = s_account s, rt_tries = tries_on (s_id s) (s_account s) st + 1, rt_gaveUp = False\<rparr>),
            resumed := (resumed st)(s_id s \<mapsto> \<lparr>re_account = s_account s, re_at = now\<rparr>)\<rparr>),
      [Log (who_is s) (StillIdleResumed (tries_on (s_id s) (s_account s) st + 1)), Resume s (resumeText s label why)])"
    by (simp add: tick_one_def Let_def)
  then show ?thesis
    using assms True w by (cases "s_id s = sid") (auto simp: step_ok_def tries_on_def who_is_def)
next
  case False
  then have "tick_one d now s st = (st, [])
    \<or> MAX_STUCK_RETRIES \<le> tries_on (s_id s) (s_account s) st
      \<and> tick_one d now s st =
          (st\<lparr>retries := (retries st)(s_id s \<mapsto> \<lparr>rt_account = s_account s, rt_tries = tries_on (s_id s) (s_account s) st, rt_gaveUp = True\<rparr>)\<rparr>,
           [Log (who_is s) (GivesUp (tries_on (s_id s) (s_account s) st))])"
    by (auto simp: tick_one_def Let_def not_less)
  then show ?thesis
  proof
    assume "tick_one d now s st = (st, [])"
    then show ?thesis by (simp add: step_ok_def)
  next
    assume *: "MAX_STUCK_RETRIES \<le> tries_on (s_id s) (s_account s) st
      \<and> tick_one d now s st =
          (st\<lparr>retries := (retries st)(s_id s \<mapsto> \<lparr>rt_account = s_account s, rt_tries = tries_on (s_id s) (s_account s) st, rt_gaveUp = True\<rparr>)\<rparr>,
           [Log (who_is s) (GivesUp (tries_on (s_id s) (s_account s) st))])"
    show ?thesis
      using assms * by (cases "s_id s = sid") (auto simp: step_ok_def tries_on_def)
  qed
qed

lemma step_ok_append:
  assumes "step_ok sid a now st (st1, fx1)" "step_ok sid a now st1 (st2, fx2)"
  shows "step_ok sid a now st (st2, fx1 @ fx2)"
proof -
  have "\<not> resumed_within RETRY_STUCK_MS sid a now st1 \<Longrightarrow> resumed st1 sid \<noteq> Some \<lparr>re_account = a, re_at = now\<rparr>"
    by (auto simp: resumed_within_def RETRY_STUCK_MS_def)
  moreover have "resumed_within RETRY_STUCK_MS sid a now st1 = resumed_within RETRY_STUCK_MS sid a now st" if "resumed st1 sid = resumed st sid"
    using that by (simp add: resumed_within_def)
  ultimately show ?thesis
    using assms unfolding step_ok_def Let_def by auto
qed

lemma tick_switch_ok:
  "\<forall>s \<in> set ss. s_id s = sid \<longrightarrow> s_account s = a \<Longrightarrow> step_ok sid a now st (tick_switch d now ss st)"
proof (induction ss arbitrary: st)
  case Nil
  then show ?case by (simp add: step_ok_def)
next
  case (Cons s ss)
  obtain st1 fx1 where 1: "tick_one d now s st = (st1, fx1)" by fastforce
  obtain st2 fx2 where 2: "tick_switch d now ss st1 = (st2, fx2)" by fastforce
  have "step_ok sid a now st (st1, fx1)" using tick_one_ok [of s sid a now st d] Cons.prems 1 by simp
  moreover have "step_ok sid a now st1 (st2, fx2)" using Cons.IH [of st1] Cons.prems 2 by simp
  ultimately show ?case using step_ok_append 1 2 by simp
qed

lemma switch_step_ok:
  assumes "\<forall>s \<in> set (sessions_of e). s_id s = sid \<longrightarrow> s_account s = a"
  shows "step_ok sid a now st (switch_step d now e st)"
  using assms
  by (cases e) (auto simp: rateLimit_ok seen_ok switch_turnEnded_ok tick_switch_ok intro!: step_okI)

section \<open>Runs\<close>

lemma stays_on_Cons:
  "stays_on sid a ((now, d, e) # es) \<longleftrightarrow> (\<forall>s \<in> set (sessions_of e). s_id s = sid \<longrightarrow> s_account s = a) \<and> stays_on sid a es"
  by (simp add: stays_on_def)

lemma tick_resumes_left:
  "stays_on sid a es \<Longrightarrow>
   length (filter (tick_resumes sid) (switch_run es st)) \<le> MAX_STUCK_RETRIES - tries_on sid a st"
proof (induction es arbitrary: st)
  case (Cons x es)
  obtain now d e where x: "x = (now, d, e)" by (cases x)
  obtain st' fx where e: "switch_step d now e st = (st', fx)" by fastforce
  have ok: "step_ok sid a now st (st', fx)"
    using switch_step_ok [of e sid a now st d] Cons.prems e by (simp add: x stays_on_Cons)
  then show ?case
    using Cons.IH [of st'] Cons.prems by (auto simp: x e stays_on_Cons step_ok_def Let_def)
qed simp

lemma resumes_apart:
  assumes "stays_on sid a es"
  shows "sorted_wrt (\<lambda>t u. t + RETRY_STUCK_MS \<le> u) (map fst (filter (resumes sid) (switch_run es st)))
    \<and> (\<forall>t. resumed st sid = Some \<lparr>re_account = a, re_at = t\<rparr> \<longrightarrow>
         (\<forall>u \<in> set (map fst (filter (resumes sid) (switch_run es st))). t + RETRY_STUCK_MS \<le> u))"
  using assms
proof (induction es arbitrary: st)
  case (Cons x es)
  obtain now d e where x: "x = (now, d, e)" by (cases x)
  obtain st' fx where e: "switch_step d now e st = (st', fx)" by fastforce
  let ?here = "filter (resumes sid) (map (Pair now) fx)"
  let ?later = "map fst (filter (resumes sid) (switch_run es st'))"
  have ok: "step_ok sid a now st (st', fx)"
    using switch_step_ok [of e sid a now st d] Cons.prems e by (simp add: x stays_on_Cons)
  note IH = Cons.IH [of st']
  have here: "map fst ?here = replicate (length ?here) now" by (induction fx) auto
  consider (none) "?here = []" "resumed st' sid = resumed st sid"
    | (one) "map fst ?here = [now]" "\<not> resumed_within RETRY_STUCK_MS sid a now st"
        "resumed st' sid = Some \<lparr>re_account = a, re_at = now\<rparr>"
    using ok here unfolding step_ok_def Let_def snd_conv fst_conv by fastforce
  then show ?case
  proof cases
    case none
    then show ?thesis using IH Cons.prems by (simp add: x e stays_on_Cons)
  next
    case one
    have split: "map fst (filter (resumes sid) (switch_run (x # es) st)) = now # ?later"
      using one(1) by (simp add: x e)
    have later: "\<forall>u \<in> set ?later. now + RETRY_STUCK_MS \<le> u" "sorted_wrt (\<lambda>t u. t + RETRY_STUCK_MS \<le> u) ?later"
      using IH one(3) Cons.prems by (auto simp: x stays_on_Cons)
    have first: "t + RETRY_STUCK_MS \<le> now" if "resumed st sid = Some \<lparr>re_account = a, re_at = t\<rparr>" for t
      using one(2) that by (simp add: resumed_within_def)
    have "0 \<le> RETRY_STUCK_MS" by (simp add: RETRY_STUCK_MS_def)
    then show ?thesis unfolding split using later first by fastforce
  qed
qed simp

lemma mark_after_now: "now < out_until m w reset now"
  by (auto simp: out_until_def Let_def OUT_FALLBACK_MS_def split: option.splits)

text \<open>What may be among the effects of an event.\<close>

definition effect_ok :: "deps \<Rightarrow> int \<Rightarrow> effect \<Rightarrow> bool" where
  "effect_ok d now fx =
     (case fx of
        Resume s t \<Rightarrow>
          s_account s \<noteq> [] \<and> token_label d (s_account s) \<noteq> None \<and> d_serves d s = Some True \<and> s_kind s \<noteq> SOps
          \<and> \<not> (s_kind s = SOrchestrator \<and> s_role s = Some Dispatcher) \<and> \<not> mid_turn (s_status s)
      | Hold s l w \<Rightarrow> s_kind s = SWorker \<and> d_serves d s \<noteq> Some True \<and> token_label d (s_account s) = Some l
      | MarkOut a m l \<Rightarrow> token_label d a = Some l \<and> om_at m = now \<and> now < om_until m
      | _ \<Rightarrow> True)"

lemma limit_marks_ok: "token_label d (s_account s) = Some label \<Longrightarrow> fx \<in> set (limit_marks d now s label) \<Longrightarrow> effect_ok d now fx"
  by (auto simp: limit_marks_def mark_out_def effect_ok_def mark_after_now split: if_splits)

lemma stopped_on_out_effects:
  assumes "s_account s \<noteq> []" "token_label d (s_account s) = Some label" "s_kind s \<noteq> SOps"
    "\<not> (s_kind s = SOrchestrator \<and> s_role s = Some Dispatcher)" "\<not> mid_turn (s_status s)"
    "fx \<in> set (snd (stopped_on_out d now s label why st))"
  shows "effect_ok d now fx"
  using assms by (auto simp: stopped_on_out_def Let_def effect_ok_def split: if_splits)

lemma switch_turnEnded_effects: "fx \<in> set (snd (switch_turnEnded d now s st)) \<Longrightarrow> effect_ok d now fx"
proof (cases "token_label d (s_account s)")
  case (Some label)
  assume fx: "fx \<in> set (snd (switch_turnEnded d now s st))"
  let ?st = "st\<lparr>refused := (refused st)(s_id s := None)\<rparr>"
  show ?thesis
  proof (cases "fx \<in> set (limit_marks d now s label)")
    case True
    then show ?thesis using limit_marks_ok Some by blast
  next
    case False
    then have "(\<exists>w l. fx = Log w l) \<or> s_account s \<noteq> [] \<and> \<not> mid_turn (s_status s) \<and> s_kind s \<noteq> SOps
        \<and> \<not> (s_kind s = SOrchestrator \<and> s_role s = Some Dispatcher)
        \<and> fx \<in> set (snd (stopped_on_out d now s label (ran_out_why s label) ?st))"
      using fx Some by (auto simp: switch_turnEnded_def Let_def split: if_splits prod.splits)
    then show ?thesis using stopped_on_out_effects [OF _ Some] by (auto simp: effect_ok_def [of _ _ "Log _ _"])
  qed
qed (auto simp: switch_turnEnded_def Let_def split: if_splits)

lemma tick_switch_effects: "fx \<in> set (snd (tick_switch d now ss st)) \<Longrightarrow> effect_ok d now fx"
proof (induction ss arbitrary: st)
  case (Cons s ss)
  have one: "effect_ok d now fx" if "fx \<in> set (snd (tick_one d now s st))"
    using that by (auto simp: tick_one_def left_behind_def Let_def effect_ok_def split: if_splits)
  obtain st1 fx1 where 1: "tick_one d now s st = (st1, fx1)" by fastforce
  obtain st2 fx2 where 2: "tick_switch d now ss st1 = (st2, fx2)" by fastforce
  show ?case using Cons.prems Cons.IH [of st1] one 1 2 by auto
qed simp

section \<open>Properties\<close>

text \<open>
  C7. A worker that does not get off an out token is not resumed in a loop (server/tokenSwitch.ts,
  switch_turnEnded, tick): over any events, with what the portal is given changing in between, two resumes of a
  session that stays on one token are at least RETRY_STUCK_MS apart, and the minute's look resumes it at
  most MAX_STUCK_RETRIES times.
\<close>

theorem no_resume_loop:
  assumes "stays_on sid a es"
  shows "sorted_wrt (\<lambda>t u. t + RETRY_STUCK_MS \<le> u) (map fst (filter (resumes sid) (switch_run es st)))
    \<and> length (filter (tick_resumes sid) (switch_run es st)) \<le> MAX_STUCK_RETRIES"
  using resumes_apart [OF assms] tick_resumes_left [OF assms, of st] by simp

definition stuck_worker :: session where
  "stuck_worker =
     \<lparr>s_id = ''w1'', s_kind = SWorker, s_role = None, s_title = ''fix'', s_status = Idle, s_account = ''token:a'',
      s_lastResult = Some (CHR ''Y'' # ''ou'' @ [CHR 0x27] @ ''ve hit your session limit''), s_lastResultAt = Some 0, s_backgroundTasks = 0\<rparr>"

definition roomy :: deps where
  "roomy =
     \<lparr>d_label = (\<lambda>a. Some (''vault '' @ a)), d_meters = (\<lambda>_. None), d_out = (\<lambda>_. True), d_serves = (\<lambda>_. Some True),
      d_hold = (\<lambda>_. []), d_note = (\<lambda>_. [])\<rparr>"

definition stuck_hours :: "(int \<times> deps \<times> switch_event) list" where
  "stuck_hours = (0, roomy, TurnEnded stuck_worker) # map (\<lambda>k. (int k * 660000, roomy, Ticked [stuck_worker])) [1..<6]"

theorem no_resume_loop_witness:
  "stays_on ''w1'' ''token:a'' stuck_hours
   \<and> map fst (filter (resumes ''w1'') (switch_run stuck_hours no_switches)) = [0, 660000, 1320000, 1980000]
   \<and> length (filter (tick_resumes ''w1'') (switch_run stuck_hours no_switches)) \<le> 3"
proof -
  have s: "stays_on ''w1'' ''token:a'' stuck_hours" by (auto simp: stays_on_def stuck_hours_def stuck_worker_def)
  have "map fst (filter (resumes ''w1'') (switch_run stuck_hours no_switches)) = [0, 660000, 1320000, 1980000]"
    by code_simp
  then show ?thesis using s no_resume_loop [OF s, of no_switches] by (simp add: MAX_STUCK_RETRIES_def)
qed

text \<open>
  What a refusal or a turn's end may do (server/tokenSwitch.ts): only an idle agent on a vault
  token is resumed, when its own pool has room, and never the dispatcher or the ops worker; requests are
  held only for a worker whose pool has none; and a mark names a vault token and lasts beyond now,
  whatever reset Claude or the meters gave.
\<close>

theorem resumed_only_with_room:
  assumes "fx \<in> set (snd (switch_step d now e st))"
  shows "effect_ok d now fx"
proof (cases e)
  case (TurnEnded s)
  then show ?thesis using assms switch_turnEnded_effects by simp
next
  case (Ticked ss)
  then show ?thesis using assms tick_switch_effects by simp
qed (use assms in \<open>auto simp: rateLimit_def seen_def mark_out_def Let_def effect_ok_def mark_after_now
       split: option.splits if_splits\<close>)

theorem resumed_only_with_room_witness:
  "Resume stuck_worker (resumeText stuck_worker ''vault token:a'' (ran_out_why stuck_worker ''vault token:a''))
     \<in> set (snd (switch_step roomy 0 (TurnEnded stuck_worker) no_switches))
   \<and> effect_ok roomy 0 (Resume stuck_worker (resumeText stuck_worker ''vault token:a'' (ran_out_why stuck_worker ''vault token:a'')))"
proof -
  have r: "Resume stuck_worker (resumeText stuck_worker ''vault token:a'' (ran_out_why stuck_worker ''vault token:a''))
     \<in> set (snd (switch_step roomy 0 (TurnEnded stuck_worker) no_switches))"
    by code_simp
  then show ?thesis using resumed_only_with_room [OF r] by blast
qed

text \<open>
  An orchestrator moves only off a token that is out, and only to its own person's pool
  (server/tokenSwitch.ts, orchestratorOut): when it names a reason, the process's token is retired or
  used up, and the pool holds another token that is not used up, not capped, and not retired either when
  the one it leaves is merely retired.
\<close>

theorem orchestrator_moves_when_out:
  assumes "orchestratorOut pools account pool = Some why"
  shows "\<exists>hit t. (\<exists>p \<in> set pools. hit \<in> set (snd p)) \<and> ptv_key hit = account \<and> ptv_state hit \<in> {PoolRetired, PoolExhausted}
     \<and> (\<exists>p \<in> set pools. lower (trim (fst p)) = lower (trim pool) \<and> t \<in> set (snd p))
     \<and> ptv_key t \<noteq> account \<and> ptv_state t \<noteq> PoolExhausted \<and> \<not> ptv_capped t
     \<and> (ptv_state hit = PoolRetired \<and> \<not> ptv_capped hit \<longrightarrow> ptv_state t \<noteq> PoolRetired)"
proof -
  from assms obtain hit where hit: "find (\<lambda>t. ptv_key t = account) (concat (map snd pools)) = Some hit"
    and out: "ptv_state hit \<in> {PoolRetired, PoolExhausted}" and ex: "list_ex (better_token hit account) (pool_of pools pool)"
    by (auto simp: orchestratorOut_def split: option.splits if_splits)
  from ex obtain t where t: "t \<in> set (pool_of pools pool)" "better_token hit account t" by (auto simp: list_ex_iff)
  from t(1) obtain p where p: "p \<in> set pools" "lower (trim (fst p)) = lower (trim pool)" "t \<in> set (snd p)"
    by (auto simp: pool_of_def split: option.splits dest: find_in dest!: sym [of "Some _"])
  have h: "hit \<in> set (concat (map snd pools)) \<and> ptv_key hit = account" using find_in [OF hit] by simp
  then obtain q where "q \<in> set pools" "hit \<in> set (snd q)" by auto
  then show ?thesis using h out p t(2) unfolding better_token_def by (intro exI [of _ hit] exI [of _ t]) auto
qed

definition two_pools :: "(string \<times> pool_token_view list) list" where
  "two_pools =
     [(''Ben'', [\<lparr>ptv_key = ''a'', ptv_label = ''vault-ben-1'', ptv_state = PoolExhausted, ptv_why = ''used up'', ptv_capped = False\<rparr>,
               \<lparr>ptv_key = ''b'', ptv_label = ''vault-ben-2'', ptv_state = PoolRetired, ptv_why = ''weekly'', ptv_capped = False\<rparr>]),
      (''kim'', [\<lparr>ptv_key = ''c'', ptv_label = ''vault-kim-1'', ptv_state = PoolOther ''ready'', ptv_why = [], ptv_capped = False\<rparr>])]"

theorem orchestrator_moves_when_out_witness:
  "orchestratorOut two_pools ''a'' '' ben'' = Some ''vault token vault-ben-1 (used up)''
   \<and> (\<exists>hit t. (\<exists>p \<in> set two_pools. hit \<in> set (snd p)) \<and> ptv_key hit = ''a'' \<and> ptv_state hit \<in> {PoolRetired, PoolExhausted}
     \<and> (\<exists>p \<in> set two_pools. lower (trim (fst p)) = lower (trim '' ben'') \<and> t \<in> set (snd p))
     \<and> ptv_key t \<noteq> ''a'' \<and> ptv_state t \<noteq> PoolExhausted \<and> \<not> ptv_capped t
     \<and> (ptv_state hit = PoolRetired \<and> \<not> ptv_capped hit \<longrightarrow> ptv_state t \<noteq> PoolRetired))"
proof -
  have o': "orchestratorOut two_pools ''a'' '' ben'' = Some ''vault token vault-ben-1 (used up)''" by code_simp
  then show ?thesis using orchestrator_moves_when_out [OF o'] by (rule conjI)
qed

end
