(* ===== verification/BenchTurn.thy ===== *)
theory BenchTurn
  imports FF_Strings
begin

text \<open>
  A timed run's or a person's turn on a machine (machine/benchTurn.ts): what one look closes, asks to
  quit, stops or lowers while the turn holds, and what it starts again after it. A look is one step: what
  it reads (the holder, the editors, the marks, the players, the processes) is a record, and what it does
  is a list of effects in their order. The end of a close or of a stop, which the code awaits apart, is a
  step of its own. Log lines and the notes' words are not modelled; the refusal the guard reads is.
\<close>

section \<open>Holders\<close>

record person_turn =
  pt_who :: string
  pt_ends :: string

record holder =
  h_ticket :: string
  h_pid :: int
  h_sandbox :: "string option"
  h_cwd :: "string option"
  h_session :: "string option"
  h_host :: "string option"
  h_requests :: "string list"
  h_ownerPid :: "int option"
  h_until :: int
  h_kept :: bool
  h_person :: "person_turn option"
  h_own :: "string list"

text \<open>A text that counts: there, and not empty.\<close>

definition given :: "string option \<Rightarrow> bool" where
  "given x = (x \<noteq> None \<and> x \<noteq> Some [])"

definition holdsSandbox :: "holder \<Rightarrow> string option \<Rightarrow> bool" where
  "holdsSandbox h sb = (case sb of None \<Rightarrow> False | Some i \<Rightarrow> i \<noteq> [] \<and> (Some i = h_sandbox h \<or> i \<in> set (h_own h)))"

record sandbox_place =
  sp_id :: string
  sp_path :: string

record placed_session =
  pl_session :: string
  pl_sandbox :: "string option"

text \<open>A folder as \<open>norm\<close> has it: forward slashes, none at the end, a drive's path in lower case.\<close>

definition norm_path :: "string \<Rightarrow> string" where
  "norm_path p =
     (let s = drop_while_end (\<lambda>c. c = CHR ''/'') (map (\<lambda>c. if c = CHR 0x5C then CHR ''/'' else c) p)
      in case s of
           d # colon # slash # _ \<Rightarrow>
             if (is_lower d \<or> is_upper d) \<and> colon = CHR '':'' \<and> slash = CHR ''/'' then lower s else s
         | _ \<Rightarrow> s)"

definition in_folder :: "string \<Rightarrow> string \<Rightarrow> bool" where
  "in_folder cwd base = (cwd = base \<or> has_prefix (base @ ''/'') cwd)"

definition holderSandboxes :: "string option \<Rightarrow> string option \<Rightarrow> string option \<Rightarrow> sandbox_place list \<Rightarrow> placed_session list \<Rightarrow> string list" where
  "holderSandboxes sandbox cwd sess sandboxes placed =
     (let out1 = (case cwd of
                    Some c \<Rightarrow> if c = [] then [] else map sp_id (filter (\<lambda>sb. in_folder (norm_path c) (norm_path (sp_path sb))) sandboxes)
                  | None \<Rightarrow> []);
          out2 = (case sess of
                    Some x \<Rightarrow> if x = [] then [] else map (the \<circ> pl_sandbox) (filter (\<lambda>p. pl_session p = x \<and> given (pl_sandbox p)) placed)
                  | None \<Rightarrow> [])
      in filter (\<lambda>i. \<not> (given sandbox \<and> Some i = sandbox)) (js_unique (out1 @ out2)))"

section \<open>What a look reads\<close>

record turn_editor =
  te_id :: string
  te_running :: bool
  te_pid :: "int option"

record turn_player =
  tp_pid :: int
  tp_session :: "string option"
  tp_sandbox :: "string option"
  tp_slot :: "string option"

record turn_build =
  tb_pid :: int
  tb_sandbox :: string

record turn_closed =
  tc_id :: string
  tc_at :: int
  tc_ticket :: string
  tc_reopenAt :: "int option"
  tc_starting :: bool

record bench_proc =
  bp_pid :: int
  bp_ppid :: int

record turn_reading =
  lk_holder :: "holder option"
  lk_editors :: "turn_editor list"
  lk_closed :: "turn_closed list"
  lk_closedAfter :: "turn_closed list"
  lk_players :: "turn_player list"
  lk_procs :: "bench_proc list"
  lk_isPlayer :: "int \<Rightarrow> bool"
  lk_builds :: "(bench_proc list \<Rightarrow> turn_build list) option"
  lk_exempt :: "string \<Rightarrow> bool"
  lk_reopens :: "string \<Rightarrow> bool"
  lk_canGiveUp :: bool
  lk_canStop :: bool
  lk_canLower :: bool
  lk_canRestore :: bool

definition TURN_RETRY_MS :: int where "TURN_RETRY_MS = 30000"
definition BUILD_LOOK_MS :: int where "BUILD_LOOK_MS = 30000"
definition PERSON_BUILD_LOOK_MS :: int where "PERSON_BUILD_LOOK_MS = 2 * 60000"
definition REOPEN_TRIES :: nat where "REOPEN_TRIES = 3"
definition PLAYER_ASK_AGAIN_MS :: int where "PLAYER_ASK_AGAIN_MS = 2 * 60000"

definition isPersonTicket :: "string option \<Rightarrow> bool" where
  "isPersonTicket t = (case t of Some x \<Rightarrow> has_prefix ''person:'' x | None \<Rightarrow> False)"

section \<open>Texts\<close>

definition two_digits :: "int \<Rightarrow> string" where
  "two_digits n = (let s = show_nat (nat n) in if length s < 2 then CHR ''0'' # s else s)"

definition clock_text :: "int \<Rightarrow> string" where
  "clock_text ms = two_digits (ms div 3600000 mod 24) @ '':'' @ two_digits (ms div 60000 mod 60) @ ''Z''"

definition holdEnds :: "int \<Rightarrow> bool \<Rightarrow> string" where
  "holdEnds until kept =
     (if kept then ''when it lets go (only lower-priority work waits, so it keeps the lock, w1860)''
      else ''by '' @ clock_text until @ '' at the latest'')"

definition show_int :: "int \<Rightarrow> string" where
  "show_int n = (if n < 0 then CHR ''-'' # show_nat (nat (- n)) else show_nat (nat n))"

definition holderText :: "holder \<Rightarrow> string" where
  "holderText h =
     (case h_person h of
        Some p \<Rightarrow> pt_who p @ '' playing Final Factory on this PC''
      | None \<Rightarrow>
          (let parts = map the (filter given [h_host h, h_sandbox h]);
               where' = (if parts \<noteq> [] then join ''/'' parts
                         else if given (h_session h) then ''worker '' @ the (h_session h) else ''pid '' @ show_int (h_pid h))
           in ''a timed run on '' @ where' @ (if h_requests h \<noteq> [] then '' ('' @ join '', '' (h_requests h) @ '')'' else [])))"

definition closedDetail :: "string \<Rightarrow> int option \<Rightarrow> bool \<Rightarrow> string" where
  "closedDetail who until kept =
     ''closed for '' @ who @ ''; reopens when it ends''
     @ (case until of Some u \<Rightarrow> if u = 0 then [] else '' ('' @ holdEnds u kept @ '')'' | None \<Rightarrow> [])"

definition closedRefusal :: "string \<Rightarrow> int \<Rightarrow> int \<Rightarrow> bool \<Rightarrow> person_turn option \<Rightarrow> string" where
  "closedRefusal who closed_at until kept person =
     (case person of
        Some p \<Rightarrow>
          ''Your sandbox's Unity editor was closed at '' @ clock_text closed_at @ '' for '' @ who
          @ '' (w1894: while a person plays the game on this machine, the agents' editors, players and builds yield to it). Its scenes and assets were saved first; anything in play mode is gone. FF Factory starts it again when the turn ends, ''
          @ pt_ends p
          @ '', in the next shared turn. Do what needs no editor meanwhile (your shell runs), or wake_me in 30 minutes; mcp__machine__unity status says when it is up.''
      | None \<Rightarrow>
          ''Your sandbox's Unity editor was closed at '' @ clock_text closed_at @ '' for '' @ who
          @ '' (w1829: while another worker's exclusive bench ticket times a run, nothing else runs on this machine). Its scenes and assets were saved first; anything in play mode is gone. FF Factory starts it again when that run ends, ''
          @ holdEnds until kept
          @ '', in the next shared turn. Do what needs no editor meanwhile, or wake_me in 10 minutes; mcp__machine__unity status says when it is up.'')"

section \<open>The process tree\<close>

definition parent_of :: "bench_proc list \<Rightarrow> int \<Rightarrow> int option" where
  "parent_of ps pid = map_of (rev (map (\<lambda>p. (bp_pid p, bp_ppid p)) ps)) pid"

text \<open>64 rounds, as the code has them.\<close>

fun climbs :: "nat \<Rightarrow> bench_proc list \<Rightarrow> int \<Rightarrow> int \<Rightarrow> bool" where
  "climbs 0 ps base cur = False"
| "climbs (Suc n) ps base cur =
     (cur \<noteq> 0 \<and> (cur = base \<or> (case parent_of ps cur of Some up \<Rightarrow> climbs n ps base up | None \<Rightarrow> False)))"

definition descendsFrom :: "int \<Rightarrow> int option \<Rightarrow> bench_proc list \<Rightarrow> bool" where
  "descendsFrom pid base ps = (case base of None \<Rightarrow> False | Some r \<Rightarrow> r \<noteq> 0 \<and> climbs 64 ps r pid)"

section \<open>The state and what it does\<close>

record turn_state =
  bt_current :: "string option"
  bt_closing :: "string list"
  bt_retryAt :: "string \<rightharpoonup> int"
  bt_asked :: "int \<rightharpoonup> int"
  bt_starts :: "string \<rightharpoonup> nat"
  bt_written :: "(string \<times> string) list option"
  bt_buildsAt :: int
  bt_stopping :: "int list"
  bt_lowered :: "int list"
  bt_restorePending :: bool

definition turn_start :: turn_state where
  "turn_start =
     \<lparr>bt_current = None, bt_closing = [], bt_retryAt = (\<lambda>_. None), bt_asked = (\<lambda>_. None), bt_starts = (\<lambda>_. None),
      bt_written = None, bt_buildsAt = 0, bt_stopping = [], bt_lowered = [], bt_restorePending = True\<rparr>"

datatype turn_effect =
    RestoreBuilds
  | GiveUp string nat
  | ReopenEditor string
  | LowerBuild int
  | NoteLowered string int
  | StopBuild int string
  | CloseEditor string string string
  | AskPlayer int
  | NotePlayer string int
  | WriteClosed "(string \<times> string) list"

text \<open>A new turn, or the end of one, at the start of a look.\<close>

definition turn_changes :: "holder option \<Rightarrow> turn_state \<Rightarrow> turn_state" where
  "turn_changes h st =
     (if map_option h_ticket h = bt_current st then st
      else st\<lparr>bt_restorePending := bt_restorePending st \<or> isPersonTicket (bt_current st), bt_current := map_option h_ticket h,
              bt_asked := (\<lambda>_. None), bt_lowered := [], bt_buildsAt := 0\<rparr>)"

definition is_person :: "holder option \<Rightarrow> bool" where
  "is_person h = (case h of Some x \<Rightarrow> h_person x \<noteq> None | None \<Rightarrow> False)"

definition restore_step :: "turn_reading \<Rightarrow> turn_state \<Rightarrow> turn_state \<times> turn_effect list" where
  "restore_step lk st =
     (if bt_restorePending st \<and> \<not> is_person (lk_holder lk) \<and> lk_canRestore lk then (st\<lparr>bt_restorePending := False\<rparr>, [RestoreBuilds])
      else (st, []))"

text \<open>The mark of an editor the turn of this look keeps closed.\<close>

definition kept_closed :: "holder option \<Rightarrow> turn_closed \<Rightarrow> bool" where
  "kept_closed h c =
     (case h of None \<Rightarrow> False
      | Some x \<Rightarrow> \<not> holdsSandbox x (Some (tc_id c)) \<and> (tc_ticket c = h_ticket x \<or> h_person x \<noteq> None))"

definition retry_later :: "turn_state \<Rightarrow> string \<Rightarrow> int \<Rightarrow> bool" where
  "retry_later st i now = (case bt_retryAt st i of Some t \<Rightarrow> now < t | None \<Rightarrow> 0 > now)"

definition not_yet :: "turn_state \<Rightarrow> int \<Rightarrow> turn_closed \<Rightarrow> bool" where
  "not_yet st now c =
     (tc_starting c \<or> (case tc_reopenAt c of Some t \<Rightarrow> now - t < TURN_RETRY_MS | None \<Rightarrow> False) \<or> retry_later st (tc_id c) now)"

definition starts_of :: "turn_state \<Rightarrow> string \<Rightarrow> nat" where
  "starts_of st i = (case bt_starts st i of Some n \<Rightarrow> n | None \<Rightarrow> 0)"

definition reopen_one :: "turn_reading \<Rightarrow> int \<Rightarrow> turn_closed \<Rightarrow> turn_state \<Rightarrow> turn_state \<times> turn_effect list" where
  "reopen_one lk now c st =
     (if kept_closed (lk_holder lk) c \<or> not_yet st now c then (st, [])
      else if REOPEN_TRIES \<le> starts_of st (tc_id c) \<and> lk_canGiveUp lk then
        (st\<lparr>bt_starts := (bt_starts st)(tc_id c := None)\<rparr>, [GiveUp (tc_id c) (starts_of st (tc_id c))])
      else if lk_reopens lk (tc_id c) then
        (st\<lparr>bt_starts := (bt_starts st)(tc_id c \<mapsto> starts_of st (tc_id c) + 1), bt_retryAt := (bt_retryAt st)(tc_id c := None)\<rparr>,
         [ReopenEditor (tc_id c)])
      else (st\<lparr>bt_retryAt := (bt_retryAt st)(tc_id c \<mapsto> now + TURN_RETRY_MS)\<rparr>, [ReopenEditor (tc_id c)]))"

fun each :: "('a \<Rightarrow> 's \<Rightarrow> 's \<times> 'e list) \<Rightarrow> 'a list \<Rightarrow> 's \<Rightarrow> 's \<times> 'e list" where
  "each f [] st = (st, [])"
| "each f (x # xs) st = (case f x st of (st1, fx1) \<Rightarrow> (case each f xs st1 of (st2, fx2) \<Rightarrow> (st2, fx1 @ fx2)))"

definition forget_starts :: "turn_reading \<Rightarrow> turn_state \<Rightarrow> turn_state" where
  "forget_starts lk st = st\<lparr>bt_starts := (\<lambda>i. if i \<in> tc_id ` set (lk_closed lk) then bt_starts st i else None)\<rparr>"

section \<open>During a turn\<close>

definition to_close :: "turn_reading \<Rightarrow> int \<Rightarrow> holder \<Rightarrow> turn_state \<Rightarrow> turn_editor list" where
  "to_close lk now h st =
     (let marked = map tc_id (filter (\<lambda>c. tc_ticket c = h_ticket h \<or> h_person h \<noteq> None) (lk_closed lk))
      in filter (\<lambda>e. \<not> holdsSandbox h (Some (te_id e)) \<and> te_running e \<and> te_id e \<notin> set marked
                     \<and> te_id e \<notin> set (bt_closing st) \<and> \<not> retry_later st (te_id e) now) (lk_editors lk))"

definition to_ask :: "turn_reading \<Rightarrow> int \<Rightarrow> holder \<Rightarrow> turn_state \<Rightarrow> turn_player list" where
  "to_ask lk now h st =
     (if given (h_session h) \<or> h_person h \<noteq> None then
        filter (\<lambda>p. (given (tp_slot p) \<or> given (tp_session p))
                    \<and> \<not> (holdsSandbox h (tp_sandbox p) \<or> given (h_session h) \<and> tp_session p = h_session h)
                    \<and> (case bt_asked st (tp_pid p) of None \<Rightarrow> True | Some t \<Rightarrow> PLAYER_ASK_AGAIN_MS \<le> now - t)) (lk_players lk)
      else [])"

definition look_builds :: "turn_reading \<Rightarrow> int \<Rightarrow> holder \<Rightarrow> turn_state \<Rightarrow> bool" where
  "look_builds lk now h st =
     (lk_builds lk \<noteq> None \<and> (if h_person h \<noteq> None then lk_canLower lk else lk_canStop lk)
      \<and> (if h_person h \<noteq> None then PERSON_BUILD_LOOK_MS else BUILD_LOOK_MS) \<le> now - bt_buildsAt st)"

definition build_one :: "turn_reading \<Rightarrow> holder \<Rightarrow> bench_proc list \<Rightarrow> turn_build \<Rightarrow> turn_state \<Rightarrow> turn_state \<times> turn_effect list" where
  "build_one lk h ps b st =
     (if holdsSandbox h (Some (tb_sandbox b)) \<or> descendsFrom (tb_pid b) (h_ownerPid h) ps \<or> tb_pid b \<in> set (bt_stopping st)
         \<or> lk_exempt lk (tb_sandbox b) then (st, [])
      else if h_person h \<noteq> None then
        (if tb_pid b \<in> set (bt_lowered st) then (st, [LowerBuild (tb_pid b)])
         else (st\<lparr>bt_lowered := tb_pid b # bt_lowered st\<rparr>, [LowerBuild (tb_pid b), NoteLowered (tb_sandbox b) (tb_pid b)]))
      else (st\<lparr>bt_stopping := tb_pid b # bt_stopping st\<rparr>, [StopBuild (tb_pid b) (tb_sandbox b)]))"

definition close_one :: "holder \<Rightarrow> bench_proc list \<Rightarrow> turn_editor \<Rightarrow> turn_state \<Rightarrow> turn_state \<times> turn_effect list" where
  "close_one h ps e st =
     (if (case te_pid e of Some p \<Rightarrow> descendsFrom p (h_ownerPid h) ps | None \<Rightarrow> False) then (st, [])
      else (st\<lparr>bt_closing := te_id e # bt_closing st\<rparr>, [CloseEditor (te_id e) (holderText h) (h_ticket h)]))"

definition ask_one :: "turn_reading \<Rightarrow> int \<Rightarrow> holder \<Rightarrow> bench_proc list \<Rightarrow> turn_player \<Rightarrow> turn_state \<Rightarrow> turn_state \<times> turn_effect list" where
  "ask_one lk now h ps p st =
     (if descendsFrom (tp_pid p) (h_ownerPid h) ps \<or> \<not> lk_isPlayer lk (tp_pid p) then (st, [])
      else (st\<lparr>bt_asked := (bt_asked st)(tp_pid p \<mapsto> now)\<rparr>,
            AskPlayer (tp_pid p)
            # (if given (tp_session p) \<and> bt_asked st (tp_pid p) = None then [NotePlayer (the (tp_session p)) (tp_pid p)] else [])))"

fun set_mark :: "string \<Rightarrow> string \<Rightarrow> (string \<times> string) list \<Rightarrow> (string \<times> string) list" where
  "set_mark k v [] = [(k, v)]"
| "set_mark k v ((k', v') # ms) = (if k = k' then (k, v) # ms else (k', v') # set_mark k v ms)"

definition turn_marks :: "turn_reading \<Rightarrow> holder \<Rightarrow> (string \<times> string) list" where
  "turn_marks lk h =
     fold (\<lambda>c ms. if holdsSandbox h (Some (tc_id c)) then ms
                  else set_mark (tc_id c) (closedRefusal (holderText h) (tc_at c) (h_until h) (h_kept h) (h_person h)) ms)
       (lk_closedAfter lk) []"

definition write_marks :: "(string \<times> string) list \<Rightarrow> turn_state \<Rightarrow> turn_state \<times> turn_effect list" where
  "write_marks ms st =
     (if bt_written st = Some ms then (st, []) else (st\<lparr>bt_written := Some ms\<rparr>, [WriteClosed ms]))"

definition quiet_machine :: "turn_reading \<Rightarrow> int \<Rightarrow> holder \<Rightarrow> turn_state \<Rightarrow> turn_state \<times> turn_effect list" where
  "quiet_machine lk now h st =
     (let editors = to_close lk now h st; players = to_ask lk now h st; lb = look_builds lk now h st;
          ps = (if editors \<noteq> [] \<or> players \<noteq> [] \<or> lb then lk_procs lk else []);
          (st1, fx1) = (if lb then each (build_one lk h ps) (the (lk_builds lk) ps) (st\<lparr>bt_buildsAt := now\<rparr>) else (st, []));
          (st2, fx2) = each (close_one h ps) editors st1;
          (st3, fx3) = each (ask_one lk now h ps) players st2;
          (st4, fx4) = write_marks (turn_marks lk h) st3
      in (st4, fx1 @ fx2 @ fx3 @ fx4))"

definition turn_look :: "turn_reading \<Rightarrow> int \<Rightarrow> turn_state \<Rightarrow> turn_state \<times> turn_effect list" where
  "turn_look lk now st =
     (let (st1, fx1) = restore_step lk (turn_changes (lk_holder lk) st);
          (st2, fx2) = each (reopen_one lk now) (lk_closed lk) (forget_starts lk st1);
          (st3, fx3) = (case lk_holder lk of None \<Rightarrow> write_marks [] st2 | Some h \<Rightarrow> quiet_machine lk now h st2)
      in (st3, fx1 @ fx2 @ fx3))"

text \<open>A close or a stop that ended.\<close>

definition close_ended :: "string \<Rightarrow> bool \<Rightarrow> int \<Rightarrow> turn_state \<Rightarrow> turn_state" where
  "close_ended i was_closed now st =
     st\<lparr>bt_closing := removeAll i (bt_closing st),
        bt_retryAt := (if was_closed then bt_retryAt st else (bt_retryAt st)(i \<mapsto> now + TURN_RETRY_MS))\<rparr>"

definition stop_ended :: "int \<Rightarrow> turn_state \<Rightarrow> turn_state" where
  "stop_ended pid st = st\<lparr>bt_stopping := removeAll pid (bt_stopping st)\<rparr>"

end
