(* ===== verification/BenchTurnProps.thy ===== *)
theory BenchTurnProps
  imports BenchTurn
begin

text \<open>
  The exclusive turn: what it never touches, that what it closed starts again, and that the guard's file
  says what it keeps closed.
\<close>

section \<open>Steps over a list\<close>

lemma each_effects:
  assumes "fx \<in> set (snd (each f xs st))"
  shows "\<exists>x \<in> set xs. \<exists>st'. fx \<in> set (snd (f x st'))"
  using assms
proof (induction xs arbitrary: st)
  case (Cons x xs)
  obtain st1 fx1 where 1: "f x st = (st1, fx1)" by fastforce
  obtain st2 fx2 where 2: "each f xs st1 = (st2, fx2)" by fastforce
  from Cons.prems have "fx \<in> set fx1 \<or> fx \<in> set fx2" by (simp add: 1 2)
  then show ?case
  proof
    assume "fx \<in> set fx1"
    then show ?thesis using 1 by (metis list.set_intros(1) snd_conv)
  next
    assume "fx \<in> set fx2"
    then show ?thesis using Cons.IH [of st1] 2 by auto
  qed
qed simp

lemma each_keeps:
  assumes "\<And>x st. g (fst (f x st)) = g st"
  shows "g (fst (each f xs st)) = g st"
proof (induction xs arbitrary: st)
  case (Cons x xs)
  obtain st1 fx1 where 1: "f x st = (st1, fx1)" by fastforce
  show ?case using Cons.IH [of st1] assms [of x st] by (simp add: 1 split: prod.splits) (metis fst_conv)
qed simp

section \<open>What a look may do\<close>

definition turn_effect_ok :: "turn_reading \<Rightarrow> turn_effect \<Rightarrow> bool" where
  "turn_effect_ok lk fx =
     (case fx of
        CloseEditor i who t \<Rightarrow>
          (\<exists>h e. lk_holder lk = Some h \<and> t = h_ticket h \<and> e \<in> set (lk_editors lk) \<and> te_id e = i \<and> te_running e
             \<and> \<not> holdsSandbox h (Some i) \<and> (\<forall>p. te_pid e = Some p \<longrightarrow> \<not> descendsFrom p (h_ownerPid h) (lk_procs lk))
             \<and> (\<forall>c \<in> set (lk_closed lk). tc_id c = i \<longrightarrow> tc_ticket c \<noteq> t \<and> h_person h = None))
      | AskPlayer pid \<Rightarrow>
          (\<exists>h p. lk_holder lk = Some h \<and> p \<in> set (lk_players lk) \<and> tp_pid p = pid \<and> (given (tp_slot p) \<or> given (tp_session p))
             \<and> (given (h_session h) \<or> h_person h \<noteq> None) \<and> \<not> holdsSandbox h (tp_sandbox p)
             \<and> (given (h_session h) \<longrightarrow> tp_session p \<noteq> h_session h) \<and> \<not> descendsFrom pid (h_ownerPid h) (lk_procs lk))
      | StopBuild pid sb \<Rightarrow>
          (\<exists>h. lk_holder lk = Some h \<and> h_person h = None \<and> \<not> holdsSandbox h (Some sb) \<and> \<not> lk_exempt lk sb
             \<and> \<not> descendsFrom pid (h_ownerPid h) (lk_procs lk))
      | LowerBuild pid \<Rightarrow> is_person (lk_holder lk)
      | RestoreBuilds \<Rightarrow> \<not> is_person (lk_holder lk)
      | _ \<Rightarrow> True)"

lemma reopen_one_ok: "fx \<in> set (snd (reopen_one lk now c st)) \<Longrightarrow> turn_effect_ok lk fx"
  by (auto simp: reopen_one_def turn_effect_ok_def split: if_splits)

lemma build_one_ok:
  "lk_holder lk = Some h \<Longrightarrow> fx \<in> set (snd (build_one lk h (lk_procs lk) b st)) \<Longrightarrow> turn_effect_ok lk fx"
  by (auto simp: build_one_def turn_effect_ok_def is_person_def split: if_splits)

lemma close_one_ok:
  assumes "lk_holder lk = Some h" "e \<in> set (to_close lk now h st0)" "fx \<in> set (snd (close_one h (lk_procs lk) e st))"
  shows "turn_effect_ok lk fx"
proof -
  have fx: "fx = CloseEditor (te_id e) (holderText h) (h_ticket h)"
    and own: "\<forall>p. te_pid e = Some p \<longrightarrow> \<not> descendsFrom p (h_ownerPid h) (lk_procs lk)"
    using assms(3) by (auto simp: close_one_def split: if_splits)
  have "\<forall>c \<in> set (lk_closed lk). tc_id c = te_id e \<longrightarrow> tc_ticket c \<noteq> h_ticket h \<and> h_person h = None"
    using assms(2) unfolding to_close_def Let_def by force
  then show ?thesis
    using assms(1,2) fx own unfolding to_close_def Let_def by (simp add: turn_effect_ok_def) blast
qed

lemma ask_one_ok:
  assumes "lk_holder lk = Some h" "p \<in> set (to_ask lk now h st0)" "fx \<in> set (snd (ask_one lk now h (lk_procs lk) p st))"
  shows "turn_effect_ok lk fx"
  using assms by (auto simp: to_ask_def ask_one_def turn_effect_ok_def split: if_splits)

lemma write_marks_ok: "fx \<in> set (snd (write_marks ms st)) \<Longrightarrow> turn_effect_ok lk fx"
  by (auto simp: write_marks_def turn_effect_ok_def split: if_splits)

lemma quiet_machine_ok:
  assumes "lk_holder lk = Some h" "fx \<in> set (snd (quiet_machine lk now h st))"
  shows "turn_effect_ok lk fx"
proof -
  define editors players lb where "editors = to_close lk now h st" and "players = to_ask lk now h st"
    and "lb = look_builds lk now h st"
  define ps where "ps = (if editors \<noteq> [] \<or> players \<noteq> [] \<or> lb then lk_procs lk else [])"
  obtain st1 fx1 where 1: "(if lb then each (build_one lk h ps) (the (lk_builds lk) ps) (st\<lparr>bt_buildsAt := now\<rparr>) else (st, [])) = (st1, fx1)"
    by fastforce
  obtain st2 fx2 where 2: "each (close_one h ps) editors st1 = (st2, fx2)" by fastforce
  obtain st3 fx3 where 3: "each (ask_one lk now h ps) players st2 = (st3, fx3)" by fastforce
  obtain st4 fx4 where 4: "write_marks (turn_marks lk h) st3 = (st4, fx4)" by fastforce
  have q: "quiet_machine lk now h st = (st4, fx1 @ fx2 @ fx3 @ fx4)"
    unfolding quiet_machine_def Let_def editors_def [symmetric] players_def [symmetric] lb_def [symmetric] ps_def [symmetric]
    by (simp only: 1 2 3 4 prod.case)
  then consider "fx \<in> set fx1" | "fx \<in> set fx2" | "fx \<in> set fx3" | "fx \<in> set fx4" using assms(2) by auto
  then show ?thesis
  proof cases
    case 1
    then have lb and "fx \<in> set (snd (each (build_one lk h ps) (the (lk_builds lk) ps) (st\<lparr>bt_buildsAt := now\<rparr>)))"
      using \<open>_ = (st1, fx1)\<close> by (auto split: if_splits)
    then show ?thesis using each_effects build_one_ok [OF assms(1)] by (fastforce simp: ps_def)
  next
    case 2
    then have "fx \<in> set (snd (each (close_one h ps) editors st1))" using \<open>_ = (st2, fx2)\<close> by simp
    then obtain e st' where "e \<in> set editors" "fx \<in> set (snd (close_one h ps e st'))" using each_effects [of fx "close_one h ps"] by blast
    moreover from this have "ps = lk_procs lk" by (auto simp: ps_def)
    ultimately show ?thesis using close_one_ok [OF assms(1)] by (simp add: editors_def)
  next
    case 3
    then have "fx \<in> set (snd (each (ask_one lk now h ps) players st2))" using \<open>_ = (st3, fx3)\<close> by simp
    then obtain p st' where "p \<in> set players" "fx \<in> set (snd (ask_one lk now h ps p st'))" using each_effects [of fx "ask_one lk now h ps"] by blast
    moreover from this have "ps = lk_procs lk" by (auto simp: ps_def)
    ultimately show ?thesis using ask_one_ok [OF assms(1)] by (simp add: players_def)
  next
    case 4
    then show ?thesis using write_marks_ok \<open>_ = (st4, fx4)\<close> by (metis snd_conv)
  qed
qed

text \<open>A look's three parts.\<close>

lemma turn_look_parts:
  obtains st1 st2 st3 fx1 fx2 fx3 where
    "restore_step lk (turn_changes (lk_holder lk) st) = (st1, fx1)"
    "each (reopen_one lk now) (lk_closed lk) (forget_starts lk st1) = (st2, fx2)"
    "(case lk_holder lk of None \<Rightarrow> write_marks [] st2 | Some h \<Rightarrow> quiet_machine lk now h st2) = (st3, fx3)"
    "turn_look lk now st = (st3, fx1 @ fx2 @ fx3)"
proof -
  obtain st1 fx1 where 1: "restore_step lk (turn_changes (lk_holder lk) st) = (st1, fx1)" by fastforce
  obtain st2 fx2 where 2: "each (reopen_one lk now) (lk_closed lk) (forget_starts lk st1) = (st2, fx2)" by fastforce
  obtain st3 fx3 where 3: "(case lk_holder lk of None \<Rightarrow> write_marks [] st2 | Some h \<Rightarrow> quiet_machine lk now h st2) = (st3, fx3)"
    by fastforce
  have "turn_look lk now st = (st3, fx1 @ fx2 @ fx3)"
    by (simp only: turn_look_def Let_def 1 2 3 prod.case)
  then show ?thesis using that 1 2 3 by blast
qed

lemma turn_look_ok:
  assumes "fx \<in> set (snd (turn_look lk now st))"
  shows "turn_effect_ok lk fx"
proof -
  obtain st1 st2 st3 fx1 fx2 fx3 where parts:
    "restore_step lk (turn_changes (lk_holder lk) st) = (st1, fx1)"
    "each (reopen_one lk now) (lk_closed lk) (forget_starts lk st1) = (st2, fx2)"
    "(case lk_holder lk of None \<Rightarrow> write_marks [] st2 | Some h \<Rightarrow> quiet_machine lk now h st2) = (st3, fx3)"
    "turn_look lk now st = (st3, fx1 @ fx2 @ fx3)"
    by (rule turn_look_parts)
  consider "fx \<in> set fx1" | "fx \<in> set fx2" | "fx \<in> set fx3" using assms parts(4) by auto
  then show ?thesis
  proof cases
    case 1
    then show ?thesis using parts(1) by (auto simp: restore_step_def turn_effect_ok_def split: if_splits)
  next
    case 2
    then show ?thesis using each_effects [of fx "reopen_one lk now"] reopen_one_ok parts(2) by (metis snd_conv)
  next
    case 3
    then show ?thesis
      using parts(3) write_marks_ok [of fx "[]" st2] quiet_machine_ok [of lk _ fx now st2]
      by (cases "lk_holder lk") auto
  qed
qed

section \<open>Runs\<close>

datatype turn_event =
    Look turn_reading
  | CloseEnded string bool
  | StopEnded int

fun turn_event_step :: "turn_event \<Rightarrow> int \<Rightarrow> turn_state \<Rightarrow> turn_state \<times> turn_effect list" where
  "turn_event_step (Look lk) now st = turn_look lk now st"
| "turn_event_step (CloseEnded i c) now st = (close_ended i c now st, [])"
| "turn_event_step (StopEnded pid) now st = (stop_ended pid st, [])"

fun turn_run :: "(int \<times> turn_event) list \<Rightarrow> turn_state \<Rightarrow> turn_state \<times> turn_effect list" where
  "turn_run [] st = (st, [])"
| "turn_run ((now, e) # es) st =
     (case turn_event_step e now st of (st1, fx1) \<Rightarrow> (case turn_run es st1 of (st2, fx2) \<Rightarrow> (st2, fx1 @ fx2)))"

subsection \<open>The guard's file\<close>

definition written_marks :: "turn_effect list \<Rightarrow> (string \<times> string) list option" where
  "written_marks fxs = fold (\<lambda>fx w. case fx of WriteClosed ms \<Rightarrow> Some ms | _ \<Rightarrow> w) fxs None"

lemma written_fold:
  "fold (\<lambda>fx w. case fx of WriteClosed ms \<Rightarrow> Some ms | _ \<Rightarrow> w) fxs w
     = (case written_marks fxs of Some ms \<Rightarrow> Some ms | None \<Rightarrow> w)"
proof (induction fxs arbitrary: w)
  case (Cons fx fxs)
  show ?case unfolding written_marks_def by (cases fx) (simp_all add: Cons split: option.splits)
qed (simp add: written_marks_def)

lemma written_append:
  "written_marks (fxs @ gxs) = (case written_marks gxs of Some ms \<Rightarrow> Some ms | None \<Rightarrow> written_marks fxs)"
  unfolding written_marks_def [of "fxs @ gxs"] fold_append o_apply written_fold
  by (simp split: option.splits)

lemma written_simps [simp]: "written_marks [] = None" "written_marks [RestoreBuilds] = None"
  by (simp_all add: written_marks_def)

lemma written_none: "(\<And>fx ms. fx \<in> set fxs \<Longrightarrow> fx \<noteq> WriteClosed ms) \<Longrightarrow> written_marks fxs = None"
proof (induction fxs)
  case (Cons fx fxs)
  then show ?case by (cases fx) (auto simp: written_marks_def)
qed (simp add: written_marks_def)

definition file_now :: "turn_state \<Rightarrow> turn_state \<times> turn_effect list \<Rightarrow> bool" where
  "file_now st r = (bt_written (fst r) = (case written_marks (snd r) of Some ms \<Rightarrow> Some ms | None \<Rightarrow> bt_written st))"

lemma write_marks_file: "file_now st (write_marks ms st)" "bt_written (fst (write_marks ms st)) = Some ms"
  by (auto simp: file_now_def write_marks_def written_marks_def)

lemma each_no_write:
  assumes "\<And>x st fx ms. fx \<in> set (snd (f x st)) \<Longrightarrow> fx \<noteq> WriteClosed ms" "\<And>x st. bt_written (fst (f x st)) = bt_written st"
  shows "written_marks (snd (each f xs st)) = None" "bt_written (fst (each f xs st)) = bt_written st"
proof -
  show "written_marks (snd (each f xs st)) = None"
    using each_effects [of _ f xs st] assms(1) by (intro written_none) blast
  show "bt_written (fst (each f xs st)) = bt_written st" by (rule each_keeps) (rule assms(2))
qed

lemma steps_no_write:
  "written_marks (snd (each (reopen_one lk now) cs st)) = None" "bt_written (fst (each (reopen_one lk now) cs st)) = bt_written st"
  "written_marks (snd (each (build_one lk h ps) bs st)) = None" "bt_written (fst (each (build_one lk h ps) bs st)) = bt_written st"
  "written_marks (snd (each (close_one h ps) eds st)) = None" "bt_written (fst (each (close_one h ps) eds st)) = bt_written st"
  "written_marks (snd (each (ask_one lk now h ps) pls st)) = None" "bt_written (fst (each (ask_one lk now h ps) pls st)) = bt_written st"
  by (rule each_no_write; force simp: reopen_one_def build_one_def close_one_def ask_one_def split: if_splits)+

definition look_marks :: "turn_reading \<Rightarrow> (string \<times> string) list" where
  "look_marks lk = (case lk_holder lk of None \<Rightarrow> [] | Some h \<Rightarrow> turn_marks lk h)"

lemma quiet_machine_writes:
  "written_marks (snd (quiet_machine lk now h st)) = written_marks (snd (write_marks (turn_marks lk h) st))"
  "bt_written (fst (quiet_machine lk now h st)) = Some (turn_marks lk h)"
proof -
  define editors players lb where "editors = to_close lk now h st" and "players = to_ask lk now h st"
    and "lb = look_builds lk now h st"
  define ps where "ps = (if editors \<noteq> [] \<or> players \<noteq> [] \<or> lb then lk_procs lk else [])"
  obtain st1 fx1 where 1: "(if lb then each (build_one lk h ps) (the (lk_builds lk) ps) (st\<lparr>bt_buildsAt := now\<rparr>) else (st, [])) = (st1, fx1)"
    by fastforce
  obtain st2 fx2 where 2: "each (close_one h ps) editors st1 = (st2, fx2)" by fastforce
  obtain st3 fx3 where 3: "each (ask_one lk now h ps) players st2 = (st3, fx3)" by fastforce
  obtain st4 fx4 where 4: "write_marks (turn_marks lk h) st3 = (st4, fx4)" by fastforce
  have q: "quiet_machine lk now h st = (st4, fx1 @ fx2 @ fx3 @ fx4)"
    unfolding quiet_machine_def Let_def editors_def [symmetric] players_def [symmetric] lb_def [symmetric] ps_def [symmetric]
    by (simp only: 1 2 3 4 prod.case)
  have w1: "written_marks fx1 = None" "bt_written st1 = bt_written st"
    using 1 steps_no_write(3,4) [of lk h ps "the (lk_builds lk) ps" "st\<lparr>bt_buildsAt := now\<rparr>"]
    by (auto simp: written_none split: if_splits)
  have w2: "written_marks fx2 = None" "bt_written st2 = bt_written st1" using 2 steps_no_write(5,6) [of h ps editors st1] by simp_all
  have w3: "written_marks fx3 = None" "bt_written st3 = bt_written st2" using 3 steps_no_write(7,8) [of lk now h ps players st2] by simp_all
  have w4: "fx4 = snd (write_marks (turn_marks lk h) st)" using 4 w1(2) w2(2) w3(2) by (auto simp: write_marks_def split: if_splits)
  show "written_marks (snd (quiet_machine lk now h st)) = written_marks (snd (write_marks (turn_marks lk h) st))"
    using q w1 w2 w3 w4 by (simp add: written_append split: option.splits)
  show "bt_written (fst (quiet_machine lk now h st)) = Some (turn_marks lk h)"
    using q 4 write_marks_file(2) [of "turn_marks lk h" st3] by simp
qed

lemma quiet_machine_file: "file_now st (quiet_machine lk now h st)"
  using quiet_machine_writes [of lk now h st] write_marks_file [where st = st and ms = "turn_marks lk h"] by (simp add: file_now_def)

lemma turn_look_writes: "file_now st (turn_look lk now st)" "bt_written (fst (turn_look lk now st)) = Some (look_marks lk)"
proof -
  obtain st1 st2 st3 fx1 fx2 fx3 where parts:
    "restore_step lk (turn_changes (lk_holder lk) st) = (st1, fx1)"
    "each (reopen_one lk now) (lk_closed lk) (forget_starts lk st1) = (st2, fx2)"
    "(case lk_holder lk of None \<Rightarrow> write_marks [] st2 | Some h \<Rightarrow> quiet_machine lk now h st2) = (st3, fx3)"
    "turn_look lk now st = (st3, fx1 @ fx2 @ fx3)"
    by (rule turn_look_parts)
  have w1: "written_marks fx1 = None" "bt_written st1 = bt_written st"
    using parts(1) by (auto simp: restore_step_def turn_changes_def written_none split: if_splits)
  have w2: "written_marks fx2 = None" "bt_written st2 = bt_written st"
    using steps_no_write(1,2) [of lk now "lk_closed lk" "forget_starts lk st1"] parts(2) w1(2) by (simp_all add: forget_starts_def)
  have w3: "bt_written st3 = Some (look_marks lk)" "file_now st2 (st3, fx3)"
  proof (atomize (full), cases "lk_holder lk")
    case None
    then show "bt_written st3 = Some (look_marks lk) \<and> file_now st2 (st3, fx3)"
      using parts(3) write_marks_file(1) [of st2 "[]"] write_marks_file(2) [of "[]" st2] by (simp add: look_marks_def)
  next
    case (Some h)
    then show "bt_written st3 = Some (look_marks lk) \<and> file_now st2 (st3, fx3)"
      using parts(3) quiet_machine_file [of st2 lk now h] quiet_machine_writes(2) [of lk now h st2] by (simp add: look_marks_def)
  qed
  show "bt_written (fst (turn_look lk now st)) = Some (look_marks lk)" using parts(4) w3(1) by simp
  show "file_now st (turn_look lk now st)"
    using parts(4) w1 w2 w3 by (simp add: file_now_def written_append split: option.splits)
qed

lemma turn_run_file: "file_now st (turn_run es st)"
proof (induction es arbitrary: st)
  case Nil
  then show ?case by (simp add: file_now_def written_marks_def)
next
  case (Cons x es)
  obtain now e where x: "x = (now, e)" by (cases x)
  obtain st1 fx1 where 1: "turn_event_step e now st = (st1, fx1)" by fastforce
  obtain st2 fx2 where 2: "turn_run es st1 = (st2, fx2)" by fastforce
  have "file_now st (st1, fx1)"
  proof (cases e)
    case (Look lk)
    then show ?thesis using turn_look_writes(1) [of st lk now] 1 by simp
  qed (use 1 in \<open>auto simp: file_now_def close_ended_def stop_ended_def\<close>)
  then show ?case
    using Cons.IH [of st1] 1 2 by (simp add: x file_now_def written_append split: option.splits)
qed

lemma set_mark_of: "map_of (set_mark k v ms) i = (if i = k then Some v else map_of ms i)"
  by (induction ms) auto

lemma turn_marks_of:
  "map_of (turn_marks lk h) i \<noteq> None \<longleftrightarrow> (\<exists>c \<in> set (lk_closedAfter lk). tc_id c = i) \<and> \<not> holdsSandbox h (Some i)"
proof -
  have "map_of (fold (\<lambda>c ms. if holdsSandbox h (Some (tc_id c)) then ms
      else set_mark (tc_id c) (closedRefusal (holderText h) (tc_at c) (h_until h) (h_kept h) (h_person h)) ms) cs ms) i \<noteq> None
    \<longleftrightarrow> (\<exists>c \<in> set cs. tc_id c = i) \<and> \<not> holdsSandbox h (Some i) \<or> map_of ms i \<noteq> None" for cs ms
    by (induction cs arbitrary: ms) (auto simp: set_mark_of)
  from this [of "lk_closedAfter lk" "[]"] show ?thesis by (simp add: turn_marks_def)
qed

subsection \<open>Starting again\<close>

text \<open>Each effect of a run with the event it came from.\<close>

fun turn_trace :: "(int \<times> turn_event) list \<Rightarrow> turn_state \<Rightarrow> (turn_event \<times> turn_effect) list" where
  "turn_trace [] st = []"
| "turn_trace ((now, e) # es) st =
     (case turn_event_step e now st of (st1, fx1) \<Rightarrow> map (Pair e) fx1 @ turn_trace es st1)"

fun start_taken :: "string \<Rightarrow> turn_event \<times> turn_effect \<Rightarrow> bool" where
  "start_taken i (Look lk, ReopenEditor j) = (j = i \<and> lk_reopens lk j)"
| "start_taken i _ = False"

fun gave_up :: "string \<Rightarrow> turn_event \<times> turn_effect \<Rightarrow> bool" where
  "gave_up i (_, GiveUp j n) = (j = i)"
| "gave_up i _ = False"

definition tally :: "string \<Rightarrow> turn_event \<Rightarrow> nat \<Rightarrow> nat \<times> turn_effect list \<Rightarrow> bool" where
  "tally i e n r =
     (n \<le> REOPEN_TRIES \<longrightarrow>
        fst r \<le> REOPEN_TRIES
        \<and> n + length (filter (start_taken i) (map (Pair e) (snd r)))
            = REOPEN_TRIES * length (filter (gave_up i) (map (Pair e) (snd r))) + fst r)"

lemma tally_none:
  assumes "\<And>fx. fx \<in> set fxs \<Longrightarrow> \<not> start_taken i (e, fx) \<and> \<not> gave_up i (e, fx)"
  shows "tally i e n (n, fxs)"
proof -
  have "filter (start_taken i) (map (Pair e) fxs) = []" "filter (gave_up i) (map (Pair e) fxs) = []"
    using assms by (auto simp: filter_empty_conv)
  then show ?thesis by (simp add: tally_def)
qed

lemma tally_append: "tally i e n (m, fxs) \<Longrightarrow> tally i e m (k, gxs) \<Longrightarrow> tally i e n (k, fxs @ gxs)"
  by (auto simp: tally_def algebra_simps)

lemma reopen_one_tally:
  assumes "lk_canGiveUp lk"
  shows "tally i (Look lk) (starts_of st i) (starts_of (fst (reopen_one lk now c st)) i, snd (reopen_one lk now c st))"
  using assms by (auto simp: reopen_one_def tally_def starts_of_def REOPEN_TRIES_def split: option.splits)

lemma each_reopen_tally:
  assumes "lk_canGiveUp lk"
  shows "tally i (Look lk) (starts_of st i) (starts_of (fst (each (reopen_one lk now) cs st)) i, snd (each (reopen_one lk now) cs st))"
proof (induction cs arbitrary: st)
  case Nil
  then show ?case by (simp add: tally_def)
next
  case (Cons c cs)
  obtain st1 fx1 where 1: "reopen_one lk now c st = (st1, fx1)" by fastforce
  obtain st2 fx2 where 2: "each (reopen_one lk now) cs st1 = (st2, fx2)" by fastforce
  have "tally i (Look lk) (starts_of st i) (starts_of st1 i, fx1)" using reopen_one_tally [OF assms, of i st now c] 1 by simp
  moreover have "tally i (Look lk) (starts_of st1 i) (starts_of st2 i, fx2)" using Cons.IH [of st1] 2 by simp
  ultimately show ?case using 1 2 by (simp add: tally_append)
qed

lemma quiet_machine_starts:
  "starts_of (fst (quiet_machine lk now h st)) i = starts_of st i"
  "fx \<in> set (snd (quiet_machine lk now h st)) \<Longrightarrow> \<not> start_taken i (e, fx) \<and> \<not> gave_up i (e, fx)"
proof -
  define editors players lb where "editors = to_close lk now h st" and "players = to_ask lk now h st"
    and "lb = look_builds lk now h st"
  define ps where "ps = (if editors \<noteq> [] \<or> players \<noteq> [] \<or> lb then lk_procs lk else [])"
  define bs where "bs = the (lk_builds lk) ps"
  define st0 where "st0 = st\<lparr>bt_buildsAt := now\<rparr>"
  obtain st1 fx1 where 1: "(if lb then each (build_one lk h ps) bs st0 else (st, [])) = (st1, fx1)" by fastforce
  obtain st2 fx2 where 2: "each (close_one h ps) editors st1 = (st2, fx2)" by fastforce
  obtain st3 fx3 where 3: "each (ask_one lk now h ps) players st2 = (st3, fx3)" by fastforce
  obtain st4 fx4 where 4: "write_marks (turn_marks lk h) st3 = (st4, fx4)" by fastforce
  have q: "quiet_machine lk now h st = (st4, fx1 @ fx2 @ fx3 @ fx4)"
    unfolding quiet_machine_def Let_def editors_def [symmetric] players_def [symmetric] lb_def [symmetric] ps_def [symmetric]
      bs_def [symmetric] st0_def [symmetric]
    by (simp only: 1 2 3 4 prod.case)
  have s: "bt_starts (fst (each (build_one lk h ps) bs st0)) = bt_starts st0"
    "bt_starts (fst (each (close_one h ps) editors st1)) = bt_starts st1"
    "bt_starts (fst (each (ask_one lk now h ps) players st2)) = bt_starts st2"
    by (rule each_keeps; simp add: build_one_def close_one_def ask_one_def)+
  have "bt_starts st4 = bt_starts st"
    using 1 2 3 4 s by (auto simp: write_marks_def st0_def split: if_splits)
  then show "starts_of (fst (quiet_machine lk now h st)) i = starts_of st i" using q by (simp add: starts_of_def)
  have n1: "\<not> start_taken i (e, fx) \<and> \<not> gave_up i (e, fx)" if "fx \<in> set fx1" for fx
    using each_effects [of fx "build_one lk h ps" bs st0] that 1 by (auto simp: build_one_def split: if_splits)
  have n2: "\<not> start_taken i (e, fx) \<and> \<not> gave_up i (e, fx)" if "fx \<in> set fx2" for fx
    using each_effects [of fx "close_one h ps" editors st1] that 2 by (auto simp: close_one_def split: if_splits)
  have n3: "\<not> start_taken i (e, fx) \<and> \<not> gave_up i (e, fx)" if "fx \<in> set fx3" for fx
    using each_effects [of fx "ask_one lk now h ps" players st2] that 3 by (auto simp: ask_one_def split: if_splits)
  have n4: "\<not> start_taken i (e, fx) \<and> \<not> gave_up i (e, fx)" if "fx \<in> set fx4" for fx
    using that 4 by (auto simp: write_marks_def split: if_splits)
  show "\<not> start_taken i (e, fx) \<and> \<not> gave_up i (e, fx)" if "fx \<in> set (snd (quiet_machine lk now h st))"
    using that q n1 n2 n3 n4 by auto
qed

lemma turn_look_tally:
  assumes "lk_canGiveUp lk" "i \<in> tc_id ` set (lk_closed lk)"
  shows "tally i (Look lk) (starts_of st i) (starts_of (fst (turn_look lk now st)) i, snd (turn_look lk now st))"
proof -
  obtain st1 st2 st3 fx1 fx2 fx3 where parts:
    "restore_step lk (turn_changes (lk_holder lk) st) = (st1, fx1)"
    "each (reopen_one lk now) (lk_closed lk) (forget_starts lk st1) = (st2, fx2)"
    "(case lk_holder lk of None \<Rightarrow> write_marks [] st2 | Some h \<Rightarrow> quiet_machine lk now h st2) = (st3, fx3)"
    "turn_look lk now st = (st3, fx1 @ fx2 @ fx3)"
    by (rule turn_look_parts)
  have f: "starts_of (forget_starts lk st1) i = starts_of st i" "tally i (Look lk) (starts_of st i) (starts_of st i, fx1)"
    using parts(1) assms(2)
    by (auto simp: forget_starts_def starts_of_def restore_step_def turn_changes_def intro!: tally_none split: if_splits)
  have t2: "tally i (Look lk) (starts_of st i) (starts_of st2 i, fx2)"
    using each_reopen_tally [OF assms(1), of i "forget_starts lk st1" now "lk_closed lk"] parts(2) f(1) by simp
  have t3: "tally i (Look lk) (starts_of st2 i) (starts_of st3 i, fx3)"
  proof (cases "lk_holder lk")
    case None
    then show ?thesis
      using parts(3) by (auto simp: write_marks_def starts_of_def intro!: tally_none split: if_splits)
  next
    case (Some h)
    then show ?thesis
      using parts(3) quiet_machine_starts [where lk = lk and now = now and h = h and st = st2] tally_none [of fx3 i "Look lk" "starts_of st2 i"] by (metis fst_conv option.simps(5) snd_conv)
  qed
  show ?thesis using parts(4) tally_append [OF f(2) tally_append [OF t2 t3]] by simp
qed

lemma turn_trace_tally:
  assumes "\<forall>(now, e) \<in> set es. \<forall>lk. e = Look lk \<longrightarrow> lk_canGiveUp lk \<and> i \<in> tc_id ` set (lk_closed lk)"
    "starts_of st i \<le> REOPEN_TRIES"
  shows "starts_of st i + length (filter (start_taken i) (turn_trace es st))
    \<le> REOPEN_TRIES * length (filter (gave_up i) (turn_trace es st)) + REOPEN_TRIES"
  using assms
proof (induction es arbitrary: st)
  case (Cons x es)
  obtain now e where x: "x = (now, e)" by (cases x)
  obtain st1 fx1 where 1: "turn_event_step e now st = (st1, fx1)" by fastforce
  have "tally i e (starts_of st i) (starts_of st1 i, fx1)"
  proof (cases e)
    case (Look lk)
    then show ?thesis using turn_look_tally [of lk i st now] Cons.prems(1) 1 by (auto simp: x)
  qed (use 1 in \<open>auto simp: close_ended_def stop_ended_def starts_of_def intro!: tally_none\<close>)
  then have "starts_of st1 i \<le> REOPEN_TRIES"
    "starts_of st i + length (filter (start_taken i) (map (Pair e) fx1))
       = REOPEN_TRIES * length (filter (gave_up i) (map (Pair e) fx1)) + starts_of st1 i"
    using Cons.prems(2) by (auto simp: tally_def)
  moreover have "starts_of st1 i + length (filter (start_taken i) (turn_trace es st1))
    \<le> REOPEN_TRIES * length (filter (gave_up i) (turn_trace es st1)) + REOPEN_TRIES"
    by (rule Cons.IH) (use Cons.prems(1) calculation(1) in auto)
  ultimately show ?case by (simp add: x 1 add_mult_distrib2)
qed simp

text \<open>What a look does about one closed editor.\<close>

lemma reopen_one_says:
  assumes "\<not> kept_closed (lk_holder lk) c" "\<not> not_yet st now c"
  shows "ReopenEditor (tc_id c) \<in> set (snd (reopen_one lk now c st)) \<or> (\<exists>n. GiveUp (tc_id c) n \<in> set (snd (reopen_one lk now c st)))"
  using assms by (auto simp: reopen_one_def)

lemma each_reopen_says:
  assumes "c \<in> set cs" "distinct (map tc_id cs)" "\<not> kept_closed (lk_holder lk) c" "\<not> not_yet st now c"
  shows "ReopenEditor (tc_id c) \<in> set (snd (each (reopen_one lk now) cs st)) \<or> (\<exists>n. GiveUp (tc_id c) n \<in> set (snd (each (reopen_one lk now) cs st)))"
  using assms(1,2,4)
proof (induction cs arbitrary: st)
  case (Cons d cs)
  obtain st1 fx1 where 1: "reopen_one lk now d st = (st1, fx1)" by fastforce
  obtain st2 fx2 where 2: "each (reopen_one lk now) cs st1 = (st2, fx2)" by fastforce
  show ?case
  proof (cases "c = d")
    case True
    then show ?thesis using reopen_one_says [OF assms(3) Cons.prems(3)] 1 2 by auto
  next
    case False
    then have "tc_id d \<noteq> tc_id c" "c \<in> set cs" using Cons.prems by auto
    then have "bt_retryAt st1 (tc_id c) = bt_retryAt st (tc_id c)"
      using 1 by (auto simp: reopen_one_def split: if_splits)
    then have "\<not> not_yet st1 now c" using Cons.prems(3) by (simp add: not_yet_def retry_later_def)
    then show ?thesis using Cons.IH [of st1] \<open>c \<in> set cs\<close> Cons.prems(2) 1 2 by auto
  qed
qed simp

lemma quiet_machine_no_starts:
  assumes "fx \<in> set (snd (quiet_machine lk now h st))"
  shows "fx \<noteq> ReopenEditor i \<and> fx \<noteq> GiveUp i n"
  using quiet_machine_starts(2) [OF assms, of i "Look (lk\<lparr>lk_reopens := \<lambda>_. True\<rparr>)"] by auto

lemma kept_closed_is_left:
  assumes "distinct (map tc_id (lk_closed lk))" "c \<in> set (lk_closed lk)" "kept_closed (lk_holder lk) c"
    "fx \<in> set (snd (turn_look lk now st))"
  shows "fx \<noteq> ReopenEditor (tc_id c) \<and> fx \<noteq> GiveUp (tc_id c) n"
proof -
  obtain st1 st2 st3 fx1 fx2 fx3 where parts:
    "restore_step lk (turn_changes (lk_holder lk) st) = (st1, fx1)"
    "each (reopen_one lk now) (lk_closed lk) (forget_starts lk st1) = (st2, fx2)"
    "(case lk_holder lk of None \<Rightarrow> write_marks [] st2 | Some h \<Rightarrow> quiet_machine lk now h st2) = (st3, fx3)"
    "turn_look lk now st = (st3, fx1 @ fx2 @ fx3)"
    by (rule turn_look_parts)
  consider "fx \<in> set fx1" | "fx \<in> set fx2" | "fx \<in> set fx3" using assms(4) parts(4) by auto
  then show ?thesis
  proof cases
    case 1
    then show ?thesis using parts(1) by (auto simp: restore_step_def split: if_splits)
  next
    case 2
    then obtain d st' where d: "d \<in> set (lk_closed lk)" "fx \<in> set (snd (reopen_one lk now d st'))"
      using each_effects [of fx "reopen_one lk now" "lk_closed lk" "forget_starts lk st1"] parts(2) by auto
    have "tc_id d \<noteq> tc_id c" if "d \<noteq> c" using that assms(1,2) d(1) by (auto simp: distinct_map dest: inj_onD)
    moreover have "d \<noteq> c" using d(2) assms(3) by (auto simp: reopen_one_def)
    ultimately show ?thesis using d(2) by (auto simp: reopen_one_def split: if_splits)
  next
    case 3
    then show ?thesis
      using parts(3) quiet_machine_no_starts [of fx lk now "the (lk_holder lk)" st2 "tc_id c" n]
      by (cases "lk_holder lk") (auto simp: write_marks_def split: if_splits)
  qed
qed

lemma turn_run_append:
  "fst (turn_run (es @ [(now, e)]) st) = fst (turn_event_step e now (fst (turn_run es st)))"
  by (induction es arbitrary: st) (auto split: prod.splits, metis fst_conv)

section \<open>Properties\<close>


definition bench_reading :: turn_reading where
  "bench_reading =
     \<lparr>lk_holder = Some \<lparr>h_ticket = ''t00000007'', h_pid = 40, h_sandbox = Some ''slot1'', h_cwd = None, h_session = Some ''s1'',
        h_host = Some ''beast'', h_requests = [''w9''], h_ownerPid = Some 50, h_until = 3600000, h_kept = False, h_person = None, h_own = []\<rparr>,
      lk_editors = [\<lparr>te_id = ''slot1'', te_running = True, te_pid = Some 60\<rparr>, \<lparr>te_id = ''slot2'', te_running = True, te_pid = Some 61\<rparr>],
      lk_closed = [\<lparr>tc_id = ''slot3'', tc_at = 0, tc_ticket = ''t00000006'', tc_reopenAt = None, tc_starting = False\<rparr>],
      lk_closedAfter = [\<lparr>tc_id = ''slot3'', tc_at = 0, tc_ticket = ''t00000006'', tc_reopenAt = None, tc_starting = False\<rparr>],
      lk_players = [\<lparr>tp_pid = 70, tp_session = Some ''s2'', tp_sandbox = Some ''slot2'', tp_slot = None\<rparr>,
                    \<lparr>tp_pid = 71, tp_session = None, tp_sandbox = None, tp_slot = None\<rparr>],
      lk_procs = [\<lparr>bp_pid = 61, bp_ppid = 1\<rparr>, \<lparr>bp_pid = 70, bp_ppid = 1\<rparr>, \<lparr>bp_pid = 80, bp_ppid = 50\<rparr>, \<lparr>bp_pid = 81, bp_ppid = 1\<rparr>],
      lk_isPlayer = (\<lambda>p. p = 70), lk_builds = Some (\<lambda>_. [\<lparr>tb_pid = 80, tb_sandbox = ''slot4''\<rparr>, \<lparr>tb_pid = 81, tb_sandbox = ''slot4''\<rparr>]),
      lk_exempt = (\<lambda>_. False), lk_reopens = (\<lambda>_. True), lk_canGiveUp = True, lk_canStop = True, lk_canLower = True,
      lk_canRestore = True\<rparr>"




text \<open>
  An editor that does not come up is left in the end (machine/benchTurn.ts, REOPEN_TRIES): while a
  sandbox stays closed, over any looks and ends of closes, its starts number at most REOPEN_TRIES for each
  time its worker is told, and REOPEN_TRIES more.
\<close>

theorem failing_editor_is_left:
  assumes "\<forall>(now, e) \<in> set es. \<forall>lk. e = Look lk \<longrightarrow> lk_canGiveUp lk \<and> i \<in> tc_id ` set (lk_closed lk)"
  shows "length (filter (start_taken i) (turn_trace es turn_start))
    \<le> REOPEN_TRIES * (length (filter (gave_up i) (turn_trace es turn_start)) + 1)"
  using turn_trace_tally [OF assms, of turn_start] by (simp add: turn_start_def starts_of_def)

definition dead_editor :: "(int \<times> turn_event) list" where
  "dead_editor = map (\<lambda>k. (int k * 40000, Look (bench_reading\<lparr>lk_holder := None\<rparr>))) [0..<6]"

theorem failing_editor_is_left_witness:
  "length (filter (start_taken ''slot3'') (turn_trace dead_editor turn_start)) = 5
   \<and> length (filter (gave_up ''slot3'') (turn_trace dead_editor turn_start)) = 1
   \<and> length (filter (start_taken ''slot3'') (turn_trace dead_editor turn_start))
       \<le> REOPEN_TRIES * (length (filter (gave_up ''slot3'') (turn_trace dead_editor turn_start)) + 1)"
proof -
  have "\<forall>(now, e) \<in> set dead_editor. \<forall>lk. e = Look lk \<longrightarrow> lk_canGiveUp lk \<and> ''slot3'' \<in> tc_id ` set (lk_closed lk)"
    by (auto simp: dead_editor_def bench_reading_def)
  from failing_editor_is_left [OF this]
  have "length (filter (start_taken ''slot3'') (turn_trace dead_editor turn_start))
       \<le> REOPEN_TRIES * (length (filter (gave_up ''slot3'') (turn_trace dead_editor turn_start)) + 1)" .
  moreover have "length (filter (start_taken ''slot3'') (turn_trace dead_editor turn_start)) = 5" by code_simp
  moreover have "length (filter (gave_up ''slot3'') (turn_trace dead_editor turn_start)) = 1" by code_simp
  ultimately show ?thesis by simp
qed

text \<open>
  The guard's file says what the turn keeps closed (machine/benchTurn.ts, write): after any events that
  end with a look, the marks last written are that look's, empty with no turn, and name exactly the
  closed sandboxes that are not the holder's.
\<close>

theorem guard_file_is_current:
  "written_marks (snd (turn_run (es @ [(now, Look lk)]) turn_start)) = Some (look_marks lk)
   \<and> (map_of (look_marks lk) i \<noteq> None
      \<longleftrightarrow> (\<exists>h. lk_holder lk = Some h \<and> (\<exists>c \<in> set (lk_closedAfter lk). tc_id c = i) \<and> \<not> holdsSandbox h (Some i)))"
proof
  have "bt_written (fst (turn_run (es @ [(now, Look lk)]) turn_start)) = Some (look_marks lk)"
    by (simp add: turn_run_append turn_look_writes(2))
  then show "written_marks (snd (turn_run (es @ [(now, Look lk)]) turn_start)) = Some (look_marks lk)"
    using turn_run_file [of turn_start "es @ [(now, Look lk)]"]
    by (simp add: file_now_def turn_start_def split: option.splits)
  show "map_of (look_marks lk) i \<noteq> None
      \<longleftrightarrow> (\<exists>h. lk_holder lk = Some h \<and> (\<exists>c \<in> set (lk_closedAfter lk). tc_id c = i) \<and> \<not> holdsSandbox h (Some i))"
    using turn_marks_of [of lk _ i] by (cases "lk_holder lk") (simp_all add: look_marks_def)
qed

text \<open>
  With a process listing that failed, an editor the ticket's owner started is not known as its own, and is
  closed.
\<close>

lemma failed_listing_closes_owned_editor:
  "let lk = bench_reading\<lparr>lk_procs := [\<lparr>bp_pid = 61, bp_ppid = 50\<rparr>], lk_builds := None\<rparr>;
       closes = (\<lambda>l. list_ex (\<lambda>fx. case fx of CloseEditor i _ _ \<Rightarrow> i = ''slot2'' | _ \<Rightarrow> False) (snd (turn_look l 100000 turn_start)))
   in \<not> closes lk \<and> closes (lk\<lparr>lk_procs := []\<rparr>)"
  by code_simp

end
