(* ===== verification/WorkRules.thy ===== *)
theory WorkRules
  imports FF_Strings
begin

text \<open>
  The work ledger's rules (server/work.ts): the automated sources' filing limits, which work a request may
  repeat, the status changes the dispatcher and a requester may make, the orders requests are listed and
  started in, what a reopen forgets, and which closed requests are dropped. Times are milliseconds; a time
  that does not parse is \<open>None\<close>. A refusal is a constructor of \<open>work_problem\<close>, without its words. Not modelled:
  the keys read from a text by regular expressions (textKeys) and the notices' words.
\<close>

section \<open>Requests\<close>

datatype work_status =
    WsNew | WsQuestion | WsQueued | WsBlocked | WsActive | WsStalled | WsMerged | WsDone | WsRejected | WsCancelled

datatype work_priority = Low | Normal | High | Urgent

record work_person =
  wp_user :: string
  wp_name :: string

record work_done =
  wd_at :: "int option"
  wd_leg :: bool

record pair_start =
  ps_at :: "int option"
  ps_legs :: "string list"

record work_pr =
  pr_number :: nat
  pr_via :: bool

record work_item =
  wi_id :: string
  wi_title :: string
  wi_keys :: "string list"
  wi_by :: work_person
  wi_requesters :: "work_person list"
  wi_status :: work_status
  wi_priority :: work_priority
  wi_createdAt :: int
  wi_updatedAt :: int
  wi_mergedInto :: "string option"
  wi_sessions :: "string list"
  wi_asks :: nat
  wi_pending :: bool
  wi_recorded :: bool
  wi_source :: bool
  wi_outcome :: "string option"
  wi_autoClosed :: bool
  wi_prs :: "work_pr list option"
  wi_reopenedAt :: "int option"
  wi_done :: "(string \<times> work_done) list"
  wi_pair :: "pair_start option"
  wi_legs :: nat
  wi_queuedNeeds :: "string list"
  wi_timedLeg :: bool
  wi_setAside :: bool
  wi_followUp :: bool
  wi_blocked :: bool
  wi_delegation :: "(string \<times> string) option"

definition WORK_OPEN :: "work_status list" where
  "WORK_OPEN = [WsNew, WsQuestion, WsQueued, WsBlocked, WsActive]"

definition same_user :: "string \<Rightarrow> string \<Rightarrow> bool" where
  "same_user a b = (lower a = lower b)"

definition work_open :: "work_item \<Rightarrow> bool" where
  "work_open w = (wi_status w \<in> set WORK_OPEN)"

definition isFor :: "work_item \<Rightarrow> string \<Rightarrow> bool" where
  "isFor w user = list_ex (\<lambda>r. same_user (wp_user r) user) (wi_requesters w)"

section \<open>Filing limits\<close>

record filing_limits =
  fl_perHour :: int
  fl_perDay :: int

datatype work_source = Person | Standing | Intake_source

definition LIMITS :: filing_limits where
  "LIMITS = \<lparr>fl_perHour = 10, fl_perDay = 40\<rparr>"

text \<open>The overrides of a source: each field may be missing.\<close>

definition limitsFor :: "work_source \<Rightarrow> int option \<Rightarrow> int option \<Rightarrow> filing_limits option" where
  "limitsFor source perHour perDay =
     (if source = Person then None
      else Some \<lparr>fl_perHour = (case perHour of Some n \<Rightarrow> n | None \<Rightarrow> fl_perHour LIMITS),
                 fl_perDay = (case perDay of Some n \<Rightarrow> n | None \<Rightarrow> fl_perDay LIMITS)\<rparr>)"

definition filing_of :: "string \<Rightarrow> work_item \<Rightarrow> bool" where
  "filing_of user w = (same_user (wp_user (wi_by w)) user \<and> \<not> wi_recorded w \<and> \<not> wi_source w)"

definition filed_within :: "work_item list \<Rightarrow> string \<Rightarrow> int \<Rightarrow> int \<Rightarrow> work_item list" where
  "filed_within items user now dur = filter (\<lambda>w. filing_of user w \<and> now - wi_createdAt w < dur) items"

datatype limit_problem = HourCap int | DayCap int

definition limitProblem :: "work_item list \<Rightarrow> string \<Rightarrow> int \<Rightarrow> filing_limits option \<Rightarrow> limit_problem option" where
  "limitProblem items user now limits =
     (case limits of
        None \<Rightarrow> None
      | Some l \<Rightarrow>
          if fl_perHour l \<le> int (length (filed_within items user now 3600000)) then Some (HourCap (fl_perHour l))
          else if fl_perDay l \<le> int (length (filed_within items user now 86400000)) then Some (DayCap (fl_perDay l))
          else None)"

section \<open>Titles and overlaps\<close>

text \<open>\<open>\p{L}\<close> and \<open>\p{N}\<close> among the 8-bit characters.\<close>

definition letter_or_number :: "char \<Rightarrow> bool" where
  "letter_or_number c =
     (is_lower c \<or> is_upper c \<or> is_digit c \<or> code c \<in> {170, 178, 179, 181, 185, 186, 188, 189, 190}
      \<or> 192 \<le> code c \<and> code c \<noteq> 215 \<and> code c \<noteq> 247)"

definition normalizeTitle :: "string \<Rightarrow> string" where
  "normalizeTitle t = trim (replace_runs (\<lambda>c. \<not> letter_or_number c) (lower t))"

definition repeatOf :: "work_item list \<Rightarrow> string \<Rightarrow> string \<Rightarrow> work_item option" where
  "repeatOf items user title =
     find (\<lambda>w. work_open w \<and> same_user (wp_user (wi_by w)) user \<and> normalizeTitle (wi_title w) = normalizeTitle title) items"

definition STOP :: "string list" where
  "STOP = split_on (CHR '' '')
     ''the and for with from into that this then than when what which while work please make sure also some need needs should would could about after before over under using use via our its all any can get set new add now let just more most into onto them they their there here your you not but are was were has have had been being does done doing will can''"

definition title_words :: "string \<Rightarrow> string list" where
  "title_words text' =
     js_unique (filter (\<lambda>w. 3 \<le> length w \<and> w \<notin> set STOP \<and> \<not> list_all is_digit w) (split_on (CHR '' '') (normalizeTitle text')))"

definition jaccard :: "string list \<Rightarrow> string list \<Rightarrow> num'" where
  "jaccard a b =
     (if a = [] \<or> b = [] then 0
      else (let common = length (filter (\<lambda>w. w \<in> set b) a) in of_nat common / (of_nat (length a) + of_nat (length b) - of_nat common)))"

datatype overlap_kind = OWork | OSession | ODelegation | OCommit

record pool_entry =
  pe_ref :: string
  pe_kind :: overlap_kind
  pe_title :: string
  pe_keys :: "string list"
  pe_text :: string

datatype overlap_why =
    SimilarTitle
  | SameKey string
  | BothNameSimilar string
  | BothName string
  | SameSimilar string

record overlap =
  ov_ref :: string
  ov_kind :: overlap_kind
  ov_title :: string
  ov_score :: "num'"
  ov_why :: overlap_why

definition STRONG :: "num'" where "STRONG = 8 / 10"
definition LISTED :: "num'" where "LISTED = 35 / 100"

definition IDENTITY :: "string list" where
  "IDENTITY = [''work:'', ''session:'', ''delegation:'', ''pr:'', ''branch:'', ''discord:'', ''ffbox:'', ''release:'', ''report:'', ''nightly:'']"

definition is_identity :: "string \<Rightarrow> bool" where
  "is_identity k = list_ex (\<lambda>p. has_prefix p k) IDENTITY"

definition is_sibling :: "pool_entry \<Rightarrow> string \<Rightarrow> bool" where
  "is_sibling e k = (pe_kind e = OWork \<and> has_prefix ''work:'' k \<and> k \<noteq> ''work:'' @ lower (pe_ref e))"

definition is_subject :: "string \<Rightarrow> bool" where
  "is_subject k = (has_prefix ''spec:'' k \<or> has_prefix ''ref:'' k)"

text \<open>\<open>Math.round(x * 100) / 100\<close>.\<close>

definition round2 :: "num' \<Rightarrow> num'" where
  "round2 x = of_int (floor (x * 100 + 1 / 2)) / 100"

definition title_sim :: "string \<Rightarrow> pool_entry \<Rightarrow> num'" where
  "title_sim title e = jaccard (title_words title) (title_words (pe_title e @ '' '' @ pe_text e))"

definition overlap_score :: "string list \<Rightarrow> string \<Rightarrow> pool_entry \<Rightarrow> num' \<times> overlap_why" where
  "overlap_score keys title e =
     (let shared = filter (\<lambda>k. k \<in> set (pe_keys e)) keys;
          identity = find (\<lambda>k. is_identity k \<and> \<not> is_sibling e k) shared;
          parent = find (is_sibling e) shared;
          sim = title_sim title e;
          spec = find is_subject shared
      in case identity of
           Some k \<Rightarrow> (1, SameKey k)
         | None \<Rightarrow>
             (case parent of
                Some k \<Rightarrow> if 1 / 2 \<le> sim then (STRONG, BothNameSimilar k) else (max sim (1 / 2), BothName k)
              | None \<Rightarrow>
                  (case spec of
                     Some k \<Rightarrow>
                       if 2 / 10 \<le> sim then (STRONG, SameSimilar k)
                       else if sim < 1 / 2 then (1 / 2, SameKey k) else (sim, SimilarTitle)
                   | None \<Rightarrow> (sim, SimilarTitle))))"

definition overlapOf :: "string list \<Rightarrow> string \<Rightarrow> pool_entry \<Rightarrow> overlap option" where
  "overlapOf keys title e =
     (case overlap_score keys title e of
        (score, why) \<Rightarrow>
          if score < LISTED then None
          else Some \<lparr>ov_ref = pe_ref e, ov_kind = pe_kind e, ov_title = pe_title e, ov_score = round2 score, ov_why = why\<rparr>)"

definition overlap_order :: "overlap \<Rightarrow> overlap \<Rightarrow> int" where
  "overlap_order a b = cmp_or (cmp_num (ov_score b) (ov_score a)) (locale_compare (ov_ref a) (ov_ref b))"

definition findOverlaps :: "string list \<Rightarrow> string \<Rightarrow> pool_entry list \<Rightarrow> overlap list" where
  "findOverlaps keys title pool = take 5 (js_sort overlap_order (List.map_filter (overlapOf keys title) pool))"

section \<open>Status changes\<close>

datatype dispatch_decision = DMerge | DLink | DQueue | DBlock | DAsk | DReject | DDone

fun decides_from :: "dispatch_decision \<Rightarrow> work_status list" where
  "decides_from DMerge = [WsNew, WsQuestion, WsQueued, WsBlocked]"
| "decides_from DLink = [WsNew, WsQuestion, WsQueued, WsBlocked, WsActive]"
| "decides_from DQueue = [WsNew, WsQuestion, WsBlocked, WsActive]"
| "decides_from DBlock = [WsNew, WsQuestion, WsQueued, WsBlocked, WsActive, WsStalled]"
| "decides_from DAsk = [WsNew, WsQuestion, WsQueued, WsBlocked]"
| "decides_from DReject = WORK_OPEN @ [WsStalled]"
| "decides_from DDone = WORK_OPEN @ [WsStalled]"

fun statusAfter :: "dispatch_decision \<Rightarrow> work_status" where
  "statusAfter DMerge = WsMerged"
| "statusAfter DLink = WsActive"
| "statusAfter DQueue = WsQueued"
| "statusAfter DBlock = WsBlocked"
| "statusAfter DAsk = WsQuestion"
| "statusAfter DReject = WsRejected"
| "statusAfter DDone = WsDone"

definition MAX_ASKS :: nat where "MAX_ASKS = 3"

datatype work_problem =
    NotFrom dispatch_decision
  | TooManyAsks
  | MergeNeedsInto
  | MergeIntoItself
  | IntoIsMerged
  | IntoNotOpen
  | WaitsApproval
  | IsMerged
  | NotOpen
  | NotClosed
  | ClosedTooLongAgo

definition decisionProblem :: "work_item \<Rightarrow> dispatch_decision \<Rightarrow> work_item option \<Rightarrow> work_problem option" where
  "decisionProblem w d into =
     (if wi_status w \<notin> set (decides_from d) then Some (NotFrom d)
      else if d = DAsk \<and> MAX_ASKS \<le> wi_asks w then Some TooManyAsks
      else if d = DMerge then
        (case into of
           None \<Rightarrow> Some MergeNeedsInto
         | Some t \<Rightarrow>
             if wi_id t = wi_id w then Some MergeIntoItself
             else if wi_status t = WsMerged then Some IntoIsMerged
             else if \<not> work_open t then Some IntoNotOpen else None)
      else None)"

definition startProblem :: "work_item \<Rightarrow> work_problem option" where
  "startProblem w =
     (if wi_pending w then Some WaitsApproval
      else if wi_status w = WsMerged then Some IsMerged
      else if \<not> work_open w then Some NotOpen else None)"

definition updateProblem :: "work_item \<Rightarrow> bool \<Rightarrow> int \<Rightarrow> work_problem option" where
  "updateProblem w reopen now =
     (if wi_status w = WsStalled then None
      else if reopen then
        (if wi_status w \<notin> {WsDone, WsRejected, WsCancelled} then Some NotClosed
         else if 7 * 86400000 < now - wi_updatedAt w then Some ClosedTooLongAgo else None)
      else if wi_status w = WsMerged then Some IsMerged
      else if \<not> work_open w then Some NotOpen else None)"

section \<open>What is kept, and the orders\<close>

definition KEEP_CLOSED :: nat where "KEEP_CLOSED = 300"
definition KEEP_CLOSED_MS :: int where "KEEP_CLOSED_MS = 7 * 86400000"
definition MAX_CLOSED :: nat where "MAX_CLOSED = 2000"

definition by_closed :: "work_item \<Rightarrow> work_item \<Rightarrow> int" where
  "by_closed a b = cmp_num (wi_updatedAt b) (wi_updatedAt a)"

definition closed_items :: "work_item list \<Rightarrow> work_item list" where
  "closed_items items = js_sort by_closed (filter (\<lambda>w. \<not> work_open w \<and> wi_status w \<noteq> WsStalled) items)"

definition pruned :: "nat \<Rightarrow> int \<Rightarrow> work_item list \<Rightarrow> work_item list" where
  "pruned keep now items =
     (let cs = closed_items items; recent = length (filter (\<lambda>w. now - wi_updatedAt w < KEEP_CLOSED_MS) cs)
      in drop (min MAX_CLOSED (max keep recent)) cs)"

definition pruneIds :: "nat \<Rightarrow> int \<Rightarrow> work_item list \<Rightarrow> string list" where
  "pruneIds keep now items = map wi_id (pruned keep now items)"

fun prio_rank :: "work_priority \<Rightarrow> int" where
  "prio_rank Urgent = 0"
| "prio_rank High = 1"
| "prio_rank Normal = 2"
| "prio_rank Low = 3"

text \<open>The ranks, doubled.\<close>

fun status_rank :: "work_status \<Rightarrow> int" where
  "status_rank WsQuestion = 0"
| "status_rank WsNew = 2"
| "status_rank WsQueued = 4"
| "status_rank WsBlocked = 5"
| "status_rank WsActive = 6"
| "status_rank WsStalled = 8"
| "status_rank _ = 10"

definition priorityThenAge :: "work_item \<Rightarrow> work_item \<Rightarrow> int" where
  "priorityThenAge a b = cmp_or (cmp_num (prio_rank (wi_priority a)) (prio_rank (wi_priority b))) (cmp_num (wi_createdAt a) (wi_createdAt b))"

definition ledgerOrder :: "work_item \<Rightarrow> work_item \<Rightarrow> int" where
  "ledgerOrder a b =
     (if status_rank (wi_status a) \<noteq> status_rank (wi_status b) then cmp_num (status_rank (wi_status a)) (status_rank (wi_status b))
      else if work_open a then priorityThenAge a b else by_closed a b)"

definition startedPinned :: "work_item \<Rightarrow> bool" where
  "startedPinned w =
     (if wi_status w \<noteq> WsQueued then work_open w \<and> 0 < wi_legs w
      else wi_queuedNeeds w \<noteq> [] \<and> (wi_timedLeg w \<or> wi_sessions w \<noteq> []))"

definition pinned_rank :: "work_item \<Rightarrow> int" where
  "pinned_rank w = (if startedPinned w then 1 else 0)"

definition capacityOrder :: "work_item \<Rightarrow> work_item \<Rightarrow> int" where
  "capacityOrder a b =
     cmp_or (cmp_num (prio_rank (wi_priority a)) (prio_rank (wi_priority b)))
       (cmp_or (cmp_num (pinned_rank b) (pinned_rank a)) (cmp_num (wi_createdAt a) (wi_createdAt b)))"

section \<open>Closing by hand and reopening\<close>

definition settleByHand :: "work_item \<Rightarrow> work_item" where
  "settleByHand w =
     (let w1 = (if wi_autoClosed w
                then w\<lparr>wi_autoClosed := False,
                       wi_outcome := (case wi_outcome w of
                           Some s \<Rightarrow> if has_prefix ''closed automatically'' s then None else Some s | None \<Rightarrow> None)\<rparr>
                else w)
      in w1\<lparr>wi_prs := map_option (filter pr_via) (wi_prs w1)\<rparr>)"

definition reopenWork :: "work_item \<Rightarrow> int \<Rightarrow> work_item \<times> nat list" where
  "reopenWork w now =
     (let s = settleByHand w
      in (s\<lparr>wi_reopenedAt := Some now, wi_done := [], wi_setAside := False,
            wi_prs := map_option (\<lambda>_. []) (wi_prs s), wi_followUp := False\<rparr>,
          map pr_number (case wi_prs s of Some ps \<Rightarrow> ps | None \<Rightarrow> [])))"

definition afterReopen :: "work_item \<Rightarrow> int option \<Rightarrow> bool" where
  "afterReopen w t =
     (case wi_reopenedAt w of None \<Rightarrow> True | Some r \<Rightarrow> (case t of Some x \<Rightarrow> r \<le> x | None \<Rightarrow> False))"

definition doneOf :: "work_item \<Rightarrow> (string \<times> work_done) list" where
  "doneOf w = filter (\<lambda>(_, d). afterReopen w (wd_at d)) (wi_done w)"

definition requestDonesOf :: "work_item \<Rightarrow> (string \<times> work_done) list" where
  "requestDonesOf w = filter (\<lambda>(_, d). \<not> wd_leg d) (doneOf w)"

definition livePair :: "work_item \<Rightarrow> bool" where
  "livePair w =
     (case wi_pair w of
        None \<Rightarrow> False
      | Some p \<Rightarrow> work_open w \<and> \<not> list_ex (\<lambda>l. map_of (doneOf w) l \<noteq> None) (ps_legs p))"

definition pairLegOf :: "work_item \<Rightarrow> string \<Rightarrow> bool" where
  "pairLegOf w s = (livePair w \<and> (case wi_pair w of Some p \<Rightarrow> s \<in> set (ps_legs p) | None \<Rightarrow> False))"

definition replacedLeg :: "work_item \<Rightarrow> string \<Rightarrow> int option \<Rightarrow> bool" where
  "replacedLeg w s born =
     (case wi_pair w of
        None \<Rightarrow> False
      | Some p \<Rightarrow>
          (case ps_legs p of
             [] \<Rightarrow> False
           | host # _ \<Rightarrow>
               map_of (doneOf w) host \<noteq> None \<and> map_of (doneOf w) s = None \<and> s \<notin> set (ps_legs p)
               \<and> (case (born, ps_at p) of (Some b, Some a) \<Rightarrow> b < a | _ \<Rightarrow> False)))"

end
