(* ===== verification/WorkLedger.thy ===== *)
theory WorkLedger
  imports WorkRules
begin

text \<open>
  The ledger's operations over those rules (server/orchestrators.ts): a person's filing (fileNow), a standing
  agent's (fileDelegation), the dispatcher's decision (decide), and a requester's update (updateNow, with
  closeForOther's close and reopen). Each is a step on the items in the order they were filed. What other parts
  refuse (a worker's open turn, a gate, room on a computer, another person's session) is the parameter
  \<open>others\<close> of a decision; a turn's filing budget, the notices, the log's lines and the worker lists' times
  are not modelled. A decision that only queues or drops a leg, or re-marks a pair run, is not modelled.
\<close>

record work_ledger =
  wl_seq :: nat
  wl_items :: "work_item list"

text \<open>\<open>requireWork\<close>: \<open>None\<close> where it throws.\<close>

definition get_work :: "work_ledger \<Rightarrow> string \<Rightarrow> work_item option" where
  "get_work lg i = find (\<lambda>w. wi_id w = lower (trim i)) (wl_items lg)"

definition put_work :: "work_item \<Rightarrow> work_ledger \<Rightarrow> work_ledger" where
  "put_work w lg = lg\<lparr>wl_items := map (\<lambda>v. if wi_id v = wi_id w then w else v) (wl_items lg)\<rparr>"

definition drop_work :: "string list \<Rightarrow> work_ledger \<Rightarrow> work_ledger" where
  "drop_work ids lg = lg\<lparr>wl_items := filter (\<lambda>w. wi_id w \<notin> set ids) (wl_items lg)\<rparr>"

definition GATE_STATUSES :: "work_status list" where
  "GATE_STATUSES = [WsBlocked, WsQuestion, WsNew]"

definition stamp_work :: "int \<Rightarrow> work_item \<Rightarrow> work_item" where
  "stamp_work now w =
     w\<lparr>wi_updatedAt := now,
       wi_blocked := (wi_blocked w \<and> wi_status w \<in> set GATE_STATUSES),
       wi_queuedNeeds := (if wi_status w \<noteq> WsQueued then [] else wi_queuedNeeds w),
       wi_legs := (if \<not> work_open w \<and> wi_status w \<noteq> WsStalled then 0 else wi_legs w)\<rparr>"

definition clip_text :: "string \<Rightarrow> nat \<Rightarrow> string" where
  "clip_text s n = (if n < length s then drop_while_end is_ws (take (n - 1) s) @ [CHR 0x85] else s)"

definition new_item :: "string \<Rightarrow> string \<Rightarrow> work_priority \<Rightarrow> string list \<Rightarrow> work_person \<Rightarrow> work_person list \<Rightarrow> int
    \<Rightarrow> (string \<times> string) option \<Rightarrow> work_item" where
  "new_item i title prio ks owner rs now deleg =
     \<lparr>wi_id = i, wi_title = title, wi_keys = ks, wi_by = owner, wi_requesters = rs, wi_status = WsNew, wi_priority = prio,
      wi_createdAt = now, wi_updatedAt = now, wi_mergedInto = None, wi_sessions = [], wi_asks = 0, wi_pending = False,
      wi_recorded = False, wi_source = False, wi_outcome = None, wi_autoClosed = False, wi_prs = None, wi_reopenedAt = None,
      wi_done = [], wi_pair = None, wi_legs = 0, wi_queuedNeeds = [], wi_timedLeg = False, wi_setAside = False,
      wi_followUp = False, wi_blocked = False, wi_delegation = deleg\<rparr>"

definition work_id :: "nat \<Rightarrow> string" where
  "work_id n = CHR ''w'' # show_nat n"

definition add_work :: "int \<Rightarrow> (string \<Rightarrow> work_item) \<Rightarrow> work_ledger \<Rightarrow> work_ledger \<times> string" where
  "add_work now item_of lg =
     (let i = work_id (wl_seq lg + 1); lg1 = \<lparr>wl_seq = wl_seq lg + 1, wl_items = wl_items lg @ [item_of i]\<rparr>
      in (drop_work (pruneIds KEEP_CLOSED now (wl_items lg1)) lg1, i))"

section \<open>Filing\<close>

datatype filed = NeedsText | AtLimit limit_problem | Again string | FiledAs string

definition file_person :: "int \<Rightarrow> work_person \<Rightarrow> string \<Rightarrow> string \<Rightarrow> work_priority \<Rightarrow> string list \<Rightarrow> work_ledger \<Rightarrow> work_ledger \<times> filed" where
  "file_person now owner title0 brief prio ks lg =
     (let title = trim (squeeze title0)
      in if title = [] \<or> trim brief = [] then (lg, NeedsText)
         else
           (case repeatOf (wl_items lg) (wp_user owner) title of
              Some w \<Rightarrow> (put_work (stamp_work now w) lg, Again (wi_id w))
            | None \<Rightarrow>
                (case limitProblem (wl_items lg) (wp_user owner) now (limitsFor Person None None) of
                   Some p \<Rightarrow> (lg, AtLimit p)
                 | None \<Rightarrow>
                     (case add_work now (\<lambda>i. new_item i (clip_text title 120) prio ks owner [owner] now None) lg of
                        (lg1, i) \<Rightarrow> (lg1, FiledAs i)))))"

definition DELEGATION_LOOKBACK_MS :: int where
  "DELEGATION_LOOKBACK_MS = 2 * 86400000"

definition delegation_age_count :: "work_item list \<Rightarrow> int \<Rightarrow> int \<Rightarrow> nat" where
  "delegation_age_count items now dur = length (filter (\<lambda>w. wi_delegation w \<noteq> None \<and> now - wi_createdAt w < dur) items)"

definition delegation_repeat :: "work_item list \<Rightarrow> string \<Rightarrow> string \<Rightarrow> string \<Rightarrow> int \<Rightarrow> int \<Rightarrow> work_item option" where
  "delegation_repeat items agent deleg title now lookback =
     (case js_sort by_closed (filter (\<lambda>w.
             (case wi_delegation w of
                Some (d, a) \<Rightarrow> a = agent \<and> (d = deleg \<or> normalizeTitle (wi_title w) = normalizeTitle title) | None \<Rightarrow> False)
             \<and> wi_status w \<noteq> WsMerged \<and> (work_open w \<or> now - wi_updatedAt w \<le> lookback)) items) of
        w # _ \<Rightarrow> Some w | [] \<Rightarrow> None)"

definition delegation_problem :: "work_item list \<Rightarrow> int \<Rightarrow> filing_limits option \<Rightarrow> limit_problem option" where
  "delegation_problem items now limits =
     (case limits of
        None \<Rightarrow> None
      | Some l \<Rightarrow>
          if fl_perHour l \<le> int (delegation_age_count items now 3600000) then Some (HourCap (fl_perHour l))
          else if fl_perDay l \<le> int (delegation_age_count items now 86400000) then Some (DayCap (fl_perDay l))
          else None)"

record delegation_filing =
  df_agent :: string
  df_id :: string
  df_title :: string
  df_task :: string
  df_owner :: work_person
  df_approvedBy :: "work_person option"
  df_uncapped :: bool
  df_lookback :: "int option"
  df_keys :: "string list"

definition file_delegation :: "int option \<Rightarrow> int option \<Rightarrow> int \<Rightarrow> delegation_filing \<Rightarrow> work_ledger \<Rightarrow> work_ledger \<times> filed" where
  "file_delegation perHour perDay now f lg =
     (let title = clip_text (trim (squeeze (df_title f))) 120;
          lookback = (case df_lookback f of Some n \<Rightarrow> n | None \<Rightarrow> DELEGATION_LOOKBACK_MS)
      in if title = [] \<or> trim (df_task f) = [] then (lg, NeedsText)
         else
           (case delegation_repeat (wl_items lg) (df_agent f) (df_id f) title now lookback of
              Some w \<Rightarrow> (put_work (stamp_work now w) lg, Again (wi_id w))
            | None \<Rightarrow>
                (case delegation_problem (wl_items lg) now (if df_uncapped f then None else limitsFor Standing perHour perDay) of
                   Some p \<Rightarrow> (lg, AtLimit p)
                 | None \<Rightarrow>
                     (let rs = df_owner f # (case df_approvedBy f of
                                 Some a \<Rightarrow> if same_user (wp_user a) (wp_user (df_owner f)) then [] else [a] | None \<Rightarrow> [])
                      in case add_work now (\<lambda>i. new_item i title Normal (df_keys f) (df_owner f) rs now (Some (df_id f, df_agent f))) lg of
                           (lg1, i) \<Rightarrow> (lg1, FiledAs i)))))"

section \<open>Decisions\<close>

datatype work_refused = NoSuchWork | Refused work_problem | LinkNeedsSessions | OtherPart

fun add_requesters :: "work_person list \<Rightarrow> work_item \<Rightarrow> work_item" where
  "add_requesters [] t = t"
| "add_requesters (r # rs) t = add_requesters rs (if isFor t (wp_user r) then t else t\<lparr>wi_requesters := wi_requesters t @ [r]\<rparr>)"

definition merge_target :: "work_item \<Rightarrow> work_item \<Rightarrow> work_item" where
  "merge_target w t = (let t1 = add_requesters (wi_requesters w) t in t1\<lparr>wi_sessions := js_unique (wi_sessions t1 @ wi_sessions w)\<rparr>)"

definition decided :: "int \<Rightarrow> dispatch_decision \<Rightarrow> work_item option \<Rightarrow> string list \<Rightarrow> string \<Rightarrow> work_item \<Rightarrow> work_item" where
  "decided now d into sids note w =
     (let w1 = (case d of
                  DMerge \<Rightarrow> w\<lparr>wi_mergedInto := map_option wi_id into\<rparr>
                | DLink \<Rightarrow> w\<lparr>wi_sessions := js_unique (wi_sessions w @ sids)\<rparr>
                | DAsk \<Rightarrow> w\<lparr>wi_asks := wi_asks w + 1\<rparr>
                | DQueue \<Rightarrow> w\<lparr>wi_queuedNeeds := sids\<rparr>
                | DBlock \<Rightarrow> w\<lparr>wi_blocked := True\<rparr>
                | _ \<Rightarrow> w);
          w2 = (if statusAfter d \<noteq> wi_status w1 then settleByHand w1 else w1);
          w3 = w2\<lparr>wi_status := statusAfter d\<rparr>;
          w4 = (if d = DReject \<or> d = DDone then w3\<lparr>wi_outcome := Some (clip_text (trim note) 300)\<rparr> else w3)
      in stamp_work now w4)"

text \<open>
  \<open>sids\<close> are the workers a link names, or the computers a queue names.
\<close>

definition decide_work ::
    "(work_item \<Rightarrow> dispatch_decision \<Rightarrow> bool) \<Rightarrow> int \<Rightarrow> string \<Rightarrow> dispatch_decision \<Rightarrow> string option \<Rightarrow> string list \<Rightarrow> string
       \<Rightarrow> work_ledger \<Rightarrow> work_refused + work_ledger" where
  "decide_work others now i d intoId sids note lg =
     (case get_work lg i of
        None \<Rightarrow> Inl NoSuchWork
      | Some w \<Rightarrow>
          if wi_pending w then Inl (Refused WaitsApproval)
          else if intoId \<noteq> None \<and> intoId \<noteq> Some [] \<and> get_work lg (the intoId) = None then Inl NoSuchWork
          else
            (let into = (case intoId of Some j \<Rightarrow> get_work lg j | None \<Rightarrow> None)
             in case decisionProblem w d into of
                  Some p \<Rightarrow> Inl (Refused p)
                | None \<Rightarrow>
                    if d = DLink \<and> sids = [] then Inl LinkNeedsSessions
                    else if others w d then Inl OtherPart
                    else
                      (let lg1 = (case (d, into) of
                                    (DMerge, Some t) \<Rightarrow> put_work (stamp_work now (merge_target w t)) lg | _ \<Rightarrow> lg)
                       in Inr (put_work (decided now d into sids note w) lg1))))"

section \<open>Updates\<close>

datatype close_as = CloseDone | CloseCancelled

record work_update =
  wu_close :: "close_as option"
  wu_reopen :: bool
  wu_priority :: "work_priority option"
  wu_note :: "string option"
  wu_answers :: bool

definition close_status :: "close_as \<Rightarrow> work_status" where
  "close_status c = (case c of CloseDone \<Rightarrow> WsDone | CloseCancelled \<Rightarrow> WsCancelled)"

definition reopen_part :: "int \<Rightarrow> work_update \<Rightarrow> work_item \<Rightarrow> work_item" where
  "reopen_part now u w =
     (if wu_reopen u then fst (reopenWork (w\<lparr>wi_status := WsNew\<rparr>) now)
      else if wi_status w = WsStalled \<and> wu_close u = None then w\<lparr>wi_status := WsNew\<rparr> else w)"

text \<open>\<open>wu_answers\<close>: the note is the person's own answer to the open question, or there is none open.\<close>

definition note_part :: "work_update \<Rightarrow> work_item \<Rightarrow> work_item" where
  "note_part u w =
     (if wu_note u = None then w
      else
        (let w1 = (if wu_answers u \<and> wi_status w = WsQuestion then w\<lparr>wi_status := WsNew\<rparr> else w)
         in if wi_status w1 = WsNew \<and> wi_blocked w1 then w1\<lparr>wi_status := WsBlocked\<rparr> else w1))"

definition close_part :: "work_update \<Rightarrow> work_item \<Rightarrow> work_item" where
  "close_part u w =
     (case wu_close u of
        None \<Rightarrow> w
      | Some c \<Rightarrow>
          (let w1 = (settleByHand w)\<lparr>wi_status := close_status c\<rparr>
           in case wu_note u of Some n \<Rightarrow> w1\<lparr>wi_outcome := Some (clip_text n 300)\<rparr> | None \<Rightarrow> w1))"

definition update_work :: "int \<Rightarrow> string \<Rightarrow> work_update \<Rightarrow> work_ledger \<Rightarrow> work_refused + work_ledger" where
  "update_work now i u lg =
     (case get_work lg i of
        None \<Rightarrow> Inl NoSuchWork
      | Some w \<Rightarrow>
          (case updateProblem w (wu_reopen u) now of
             Some p \<Rightarrow> Inl (Refused p)
           | None \<Rightarrow>
               (let w1 = reopen_part now u w;
                    w2 = (case wu_priority u of Some p \<Rightarrow> w1\<lparr>wi_priority := p\<rparr> | None \<Rightarrow> w1)
                in Inr (put_work (stamp_work now (close_part u (note_part u w2))) lg))))"

end
