(* ===== verification/WorkProps.thy ===== *)
theory WorkProps
  imports WorkLedger
begin

text \<open>
  What the work ledger's rules guarantee: merges never form a cycle and a merged request stays as it is,
  what a strong overlap says, what is dropped from the ledger, the delegations' caps, the order free room
  is given in, and that what was done before a reopen does not count.
\<close>

section \<open>Merges\<close>

definition merge_edges :: "work_item list \<Rightarrow> (string \<times> string) set" where
  "merge_edges items = {(wi_id w, t) | w t. w \<in> set items \<and> wi_mergedInto w = Some t}"

definition merges_ok :: "work_ledger \<Rightarrow> bool" where
  "merges_ok lg =
     (distinct (map wi_id (wl_items lg))
      \<and> (\<forall>w \<in> set (wl_items lg). \<exists>n \<le> wl_seq lg. wi_id w = work_id n)
      \<and> (\<forall>w \<in> set (wl_items lg). wi_mergedInto w \<noteq> None \<longrightarrow> wi_status w = WsMerged)
      \<and> acyclic (merge_edges (wl_items lg)))"

lemma work_id_inj [simp]: "work_id a = work_id b \<longleftrightarrow> a = b"
  by (simp add: work_id_def)

lemma stamp_fields [simp]:
  "wi_id (stamp_work now w) = wi_id w" "wi_mergedInto (stamp_work now w) = wi_mergedInto w" "wi_status (stamp_work now w) = wi_status w"
  "wi_createdAt (stamp_work now w) = wi_createdAt w" "wi_delegation (stamp_work now w) = wi_delegation w"
  by (simp_all add: stamp_work_def)

lemma settle_fields [simp]:
  "wi_id (settleByHand w) = wi_id w" "wi_mergedInto (settleByHand w) = wi_mergedInto w" "wi_status (settleByHand w) = wi_status w"
  "wi_createdAt (settleByHand w) = wi_createdAt w" "wi_delegation (settleByHand w) = wi_delegation w"
  by (simp_all add: settleByHand_def Let_def)

lemma reopen_fields [simp]:
  "wi_id (fst (reopenWork w now)) = wi_id w" "wi_mergedInto (fst (reopenWork w now)) = wi_mergedInto w"
  "wi_status (fst (reopenWork w now)) = wi_status w"
  "wi_createdAt (fst (reopenWork w now)) = wi_createdAt w" "wi_delegation (fst (reopenWork w now)) = wi_delegation w"
  by (simp_all add: reopenWork_def Let_def)

lemma add_requesters_fields [simp]:
  "wi_id (add_requesters rs t) = wi_id t" "wi_mergedInto (add_requesters rs t) = wi_mergedInto t"
  "wi_status (add_requesters rs t) = wi_status t"
  "wi_createdAt (add_requesters rs t) = wi_createdAt t" "wi_delegation (add_requesters rs t) = wi_delegation t"
  by (induction rs t rule: add_requesters.induct) auto

lemma target_fields [simp]:
  "wi_id (merge_target w t) = wi_id t" "wi_mergedInto (merge_target w t) = wi_mergedInto t" "wi_status (merge_target w t) = wi_status t"
  "wi_createdAt (merge_target w t) = wi_createdAt t" "wi_delegation (merge_target w t) = wi_delegation t"
  by (simp_all add: merge_target_def Let_def)

lemma decided_fields [simp]:
  "wi_id (decided now d into sids note w) = wi_id w"
  "wi_mergedInto (decided now d into sids note w) = (if d = DMerge then map_option wi_id into else wi_mergedInto w)"
  "wi_status (decided now d into sids note w) = statusAfter d"
  "wi_createdAt (decided now d into sids note w) = wi_createdAt w" "wi_delegation (decided now d into sids note w) = wi_delegation w"
  by (cases d; simp add: decided_def Let_def)+

lemma update_fields [simp]:
  "wi_id (reopen_part now u w) = wi_id w" "wi_mergedInto (reopen_part now u w) = wi_mergedInto w"
  "wi_id (note_part u w) = wi_id w" "wi_mergedInto (note_part u w) = wi_mergedInto w"
  "wi_id (close_part u w) = wi_id w" "wi_mergedInto (close_part u w) = wi_mergedInto w"
  by (auto simp: reopen_part_def note_part_def close_part_def Let_def split: option.split)

lemma get_work_in: "get_work lg i = Some w \<Longrightarrow> w \<in> set (wl_items lg)"
  by (auto simp: get_work_def dest: find_in)

lemma same_id: "merges_ok lg \<Longrightarrow> v \<in> set (wl_items lg) \<Longrightarrow> w \<in> set (wl_items lg) \<Longrightarrow> wi_id v = wi_id w \<Longrightarrow> v = w"
  by (auto simp: merges_ok_def distinct_map inj_on_def)

lemma put_items: "set (wl_items (put_work w lg)) \<subseteq> insert w {v \<in> set (wl_items lg). wi_id v \<noteq> wi_id w}"
  by (auto simp: put_work_def)

lemma put_ids [simp]: "map wi_id (wl_items (put_work w lg)) = map wi_id (wl_items lg)"
  by (simp add: put_work_def)

lemma put_seq [simp]: "wl_seq (put_work w lg) = wl_seq lg"
  by (simp add: put_work_def)

text \<open>An item replaced by one merged where it was.\<close>

lemma put_ok:
  assumes "merges_ok lg" "w \<in> set (wl_items lg)" "wi_id v = wi_id w" "wi_mergedInto v = wi_mergedInto w"
    "wi_mergedInto v \<noteq> None \<Longrightarrow> wi_status v = WsMerged"
  shows "merges_ok (put_work v lg)"
proof -
  have "merge_edges (wl_items (put_work v lg)) \<subseteq> merge_edges (wl_items lg)"
    using put_items [of v lg] assms(2-4) by (fastforce simp: merge_edges_def)
  moreover have "\<exists>n \<le> wl_seq lg. wi_id v = work_id n" using assms(1-3) by (auto simp: merges_ok_def)
  ultimately show ?thesis
    using assms(1,5) put_items [of v lg] unfolding merges_ok_def by (auto intro: acyclic_subset)
qed

text \<open>An item merged into another that is not merged.\<close>

lemma put_merged_ok:
  assumes "merges_ok lg" "w \<in> set (wl_items lg)" "t \<in> set (wl_items lg)" "wi_id t \<noteq> wi_id w" "wi_mergedInto t = None"
    "wi_id v = wi_id w" "wi_mergedInto v = Some (wi_id t)" "wi_status v = WsMerged"
  shows "merges_ok (put_work v lg)"
proof -
  let ?E = "merge_edges (wl_items lg)"
  have "merge_edges (wl_items (put_work v lg)) \<subseteq> insert (wi_id w, wi_id t) ?E"
    using put_items [of v lg] assms(6,7) by (fastforce simp: merge_edges_def)
  moreover have "(wi_id t, x) \<notin> ?E" for x
    using same_id [OF assms(1) _ assms(3)] assms(5) by (auto simp: merge_edges_def)
  then have "(wi_id t, wi_id w) \<notin> ?E\<^sup>*"
    using assms(4) by (metis converse_rtranclE)
  then have "acyclic (insert (wi_id w, wi_id t) ?E)" using assms(1) by (simp add: merges_ok_def)
  moreover have "\<exists>n \<le> wl_seq lg. wi_id v = work_id n" using assms(1,2,6) by (auto simp: merges_ok_def)
  ultimately show ?thesis
    using assms(1,8) put_items [of v lg] unfolding merges_ok_def by (auto intro: acyclic_subset)
qed

lemma drop_ok: "merges_ok lg \<Longrightarrow> merges_ok (drop_work ids lg)"
proof -
  assume a: "merges_ok lg"
  have "merge_edges (wl_items (drop_work ids lg)) \<subseteq> merge_edges (wl_items lg)" by (auto simp: merge_edges_def drop_work_def)
  moreover have "wl_seq (drop_work ids lg) = wl_seq lg" by (simp add: drop_work_def)
  ultimately show ?thesis
    using a unfolding merges_ok_def by (auto simp: drop_work_def distinct_map_filter intro: acyclic_subset)
qed

lemma add_ok:
  assumes "merges_ok lg" "\<And>i. wi_id (item_of i) = i" "\<And>i. wi_mergedInto (item_of i) = None"
  shows "merges_ok (fst (add_work now item_of lg))"
proof -
  let ?lg = "\<lparr>wl_seq = wl_seq lg + 1, wl_items = wl_items lg @ [item_of (work_id (wl_seq lg + 1))]\<rparr>"
  have "merge_edges (wl_items ?lg) = merge_edges (wl_items lg)" using assms(3) by (auto simp: merge_edges_def)
  moreover have "work_id (wl_seq lg + 1) \<notin> wi_id ` set (wl_items lg)" using assms(1) by (fastforce simp: merges_ok_def)
  ultimately have "merges_ok ?lg" using assms by (fastforce simp: merges_ok_def le_SucI)
  then show ?thesis by (simp add: add_work_def Let_def drop_ok)
qed

lemma new_item_fields [simp]:
  "wi_id (new_item i title prio ks owner rs now d) = i" "wi_mergedInto (new_item i title prio ks owner rs now d) = None"
  "wi_createdAt (new_item i title prio ks owner rs now d) = now" "wi_delegation (new_item i title prio ks owner rs now d) = d"
  by (simp_all add: new_item_def)

lemma file_person_ok: "merges_ok lg \<Longrightarrow> merges_ok (fst (file_person now owner title brief prio ks lg))"
  using add_ok [of lg "\<lambda>i. new_item i t prio ks owner rs now d" now for t rs d]
  by (auto simp: file_person_def Let_def repeatOf_def merges_ok_def [of lg] dest!: find_in intro!: put_ok split: option.splits prod.splits
      dest!: arg_cong [where f = fst])

lemma delegation_repeat_in: "delegation_repeat items agent deleg title now lookback = Some w \<Longrightarrow> w \<in> set items"
  by (auto simp: delegation_repeat_def dest!: js_sort_hd_in split: list.splits)

lemma open_not_merged: "merges_ok lg \<Longrightarrow> w \<in> set (wl_items lg) \<Longrightarrow> wi_status w \<noteq> WsMerged \<Longrightarrow> wi_mergedInto w = None"
  by (auto simp: merges_ok_def)

lemma restamp_ok: "merges_ok lg \<Longrightarrow> w \<in> set (wl_items lg) \<Longrightarrow> merges_ok (put_work (stamp_work now w) lg)"
  by (rule put_ok) (auto simp: merges_ok_def)

lemma file_delegation_ok: "merges_ok lg \<Longrightarrow> merges_ok (fst (file_delegation perHour perDay now f lg))"
  using add_ok [of lg "\<lambda>i. new_item i t Normal (df_keys f) (df_owner f) rs now d" now for t rs d]
  by (auto simp: file_delegation_def Let_def dest!: delegation_repeat_in intro!: restamp_ok split: option.splits prod.splits
      dest!: arg_cong [where f = fst])

lemma decides_from_open: "decisionProblem w d into = None \<Longrightarrow> wi_status w \<noteq> WsMerged"
  by (cases d) (auto simp: decisionProblem_def WORK_OPEN_def split: if_splits)

lemma decision_into:
  assumes "decisionProblem w DMerge into = None"
  obtains t where "into = Some t" "wi_id t \<noteq> wi_id w" "work_open t"
  using assms by (auto simp: decisionProblem_def split: if_splits option.splits)

text \<open>What a decision that is taken does to the ledger.\<close>

lemma decide_cases:
  assumes "decide_work others now i d intoId sids note lg = Inr lg'"
  obtains w into where "get_work lg i = Some w" "decisionProblem w d into = None"
      "lg' = put_work (decided now d into sids note w)
               (case (d, into) of (DMerge, Some t) \<Rightarrow> put_work (stamp_work now (merge_target w t)) lg | _ \<Rightarrow> lg)"
      "\<And>t. into = Some t \<Longrightarrow> t \<in> set (wl_items lg)"
proof -
  obtain w where w: "get_work lg i = Some w" using assms by (auto simp: decide_work_def split: option.splits)
  define into where "into = (case intoId of Some j \<Rightarrow> get_work lg j | None \<Rightarrow> None)"
  have "decisionProblem w d into = None"
    using assms by (auto simp: decide_work_def w Let_def into_def [symmetric] split: if_splits option.splits)
  moreover from this have "lg' = put_work (decided now d into sids note w)
       (case (d, into) of (DMerge, Some t) \<Rightarrow> put_work (stamp_work now (merge_target w t)) lg | _ \<Rightarrow> lg)"
    using assms by (auto simp: decide_work_def w Let_def into_def [symmetric] split: if_splits)
  moreover have "into = Some t \<Longrightarrow> t \<in> set (wl_items lg)" for t
    by (auto simp: into_def dest: get_work_in split: option.splits)
  ultimately show thesis by (rule that [OF w])
qed

lemma decide_ok:
  assumes "merges_ok lg" "decide_work others now i d intoId sids note lg = Inr lg'"
  shows "merges_ok lg'"
proof (rule decide_cases [OF assms(2)])
  fix w into
  assume gw: "get_work lg i = Some w" and p: "decisionProblem w d into = None"
    and lg': "lg' = put_work (decided now d into sids note w)
               (case (d, into) of (DMerge, Some t) \<Rightarrow> put_work (stamp_work now (merge_target w t)) lg | _ \<Rightarrow> lg)"
    and into: "\<And>t. into = Some t \<Longrightarrow> t \<in> set (wl_items lg)"
  have w: "w \<in> set (wl_items lg)" by (rule get_work_in [OF gw])
  note no_edge = open_not_merged [OF assms(1) w decides_from_open [OF p]]
  show "merges_ok lg'"
  proof (cases "d = DMerge")
    case False
    then have "lg' = put_work (decided now d into sids note w) lg" using lg' by (cases d) auto
    then show ?thesis using put_ok [OF assms(1) w, of "decided now d into sids note w"] False no_edge by simp
  next
    case True
    then obtain t where t: "into = Some t" "wi_id t \<noteq> wi_id w" "work_open t" using p by (auto elim: decision_into)
    have t_in: "t \<in> set (wl_items lg)" by (rule into [OF t(1)])
    have t_top: "wi_mergedInto t = None"
      using open_not_merged [OF assms(1) t_in] t(3) by (auto simp: work_open_def WORK_OPEN_def)
    let ?lg1 = "put_work (stamp_work now (merge_target w t)) lg"
    have ok1: "merges_ok ?lg1" by (rule put_ok [OF assms(1) t_in]) (simp_all add: t_top)
    have "w \<in> set (wl_items ?lg1)" "stamp_work now (merge_target w t) \<in> set (wl_items ?lg1)"
      using w t_in t(2) by (force simp: put_work_def)+
    then show ?thesis
      using put_merged_ok [OF ok1, of w "stamp_work now (merge_target w t)" "decided now d into sids note w"] t t_top True lg' by simp
  qed
qed

lemma update_ok:
  assumes "merges_ok lg" "update_work now i u lg = Inr lg'"
  shows "merges_ok lg'"
proof -
  obtain w where w: "get_work lg i = Some w" and p: "updateProblem w (wu_reopen u) now = None"
    and lg': "lg' = put_work (stamp_work now (close_part u (note_part u
               (case wu_priority u of Some p \<Rightarrow> (reopen_part now u w)\<lparr>wi_priority := p\<rparr> | None \<Rightarrow> reopen_part now u w)))) lg"
    using assms(2) by (auto simp: update_work_def Let_def split: option.splits)
  have "wi_status w \<noteq> WsMerged" using p by (auto simp: updateProblem_def split: if_splits)
  then have "wi_mergedInto w = None" by (rule open_not_merged [OF assms(1) get_work_in [OF w]])
  then show ?thesis unfolding lg' by (intro put_ok [OF assms(1) get_work_in [OF w]]) (auto split: option.split)
qed

text \<open>The ledger after any filings, decisions and updates.\<close>

inductive work_reach :: "work_ledger \<Rightarrow> bool" where
  start: "work_reach \<lparr>wl_seq = n, wl_items = []\<rparr>"
| person: "work_reach lg \<Longrightarrow> work_reach (fst (file_person now owner title brief prio ks lg))"
| delegation: "work_reach lg \<Longrightarrow> work_reach (fst (file_delegation perHour perDay now f lg))"
| decision: "work_reach lg \<Longrightarrow> decide_work others now i d intoId sids note lg = Inr lg' \<Longrightarrow> work_reach lg'"
| update: "work_reach lg \<Longrightarrow> update_work now i u lg = Inr lg' \<Longrightarrow> work_reach lg'"

lemma reach_merges_ok: "work_reach lg \<Longrightarrow> merges_ok lg"
  by (induction rule: work_reach.induct)
    (auto intro: file_person_ok file_delegation_ok decide_ok update_ok, simp add: merges_ok_def merge_edges_def acyclic_def)

text \<open>
  C20. A merged request leads on to a request that is not merged (server/work.ts, decisionProblem,
  updateProblem; server/orchestrators.ts, decide): after any filings, decisions and updates the merges form
  no cycle, only a merged request points to another, and no two requests share an id.
\<close>

theorem merges_form_no_cycle:
  assumes "work_reach lg"
  shows "acyclic (merge_edges (wl_items lg)) \<and> distinct (map wi_id (wl_items lg))
    \<and> (\<forall>w \<in> set (wl_items lg). wi_mergedInto w \<noteq> None \<longrightarrow> wi_status w = WsMerged)"
  using reach_merges_ok [OF assms] by (simp add: merges_ok_def)

definition ben :: work_person where "ben = \<lparr>wp_user = ''ben'', wp_name = ''Ben''\<rparr>"

definition two_filed :: work_ledger where
  "two_filed =
     fst (file_person 2000 ben ''Fix the splitter'' ''again'' High []
       (fst (file_person 1000 ben ''Fix the belts'' ''they stop'' Normal [] \<lparr>wl_seq = 0, wl_items = []\<rparr>)))"

definition none_refused :: "work_item \<Rightarrow> dispatch_decision \<Rightarrow> bool" where
  "none_refused w d = False"

definition merged_two :: "work_refused + work_ledger" where
  "merged_two = decide_work none_refused 3000 ''w2'' DMerge (Some ''w1'') [] ''the same'' two_filed"

lemma merged_two_taken: "merged_two = Inr (projr merged_two)"
proof -
  have "\<not> isl merged_two" by code_simp
  then show ?thesis by simp
qed

theorem merges_form_no_cycle_witness:
  "map wi_mergedInto (wl_items (projr merged_two)) = [None, Some ''w1''] \<and> acyclic (merge_edges (wl_items (projr merged_two)))"
proof -
  have "work_reach two_filed" unfolding two_filed_def by (rule work_reach.person, rule work_reach.person, rule work_reach.start)
  then have "work_reach (projr merged_two)"
    using merged_two_taken unfolding merged_two_def by (rule work_reach.decision)
  then have "acyclic (merge_edges (wl_items (projr merged_two)))" by (rule merges_form_no_cycle [THEN conjunct1])
  moreover have "map wi_mergedInto (wl_items (projr merged_two)) = [None, Some ''w1'']" by code_simp
  ultimately show ?thesis by (intro conjI)
qed

lemma put_keeps_other:
  "merges_ok lg \<Longrightarrow> u \<in> set (wl_items lg) \<Longrightarrow> wi_id u \<noteq> wi_id v \<Longrightarrow> u \<in> set (wl_items (put_work v lg))"
  by (force simp: put_work_def)

lemma decide_keeps_merged:
  assumes "merges_ok lg" "decide_work others now i d intoId sids note lg = Inr lg'" "u \<in> set (wl_items lg)" "wi_status u = WsMerged"
  shows "u \<in> set (wl_items lg')"
proof (rule decide_cases [OF assms(2)])
  fix w into
  assume gw: "get_work lg i = Some w" and p: "decisionProblem w d into = None"
    and lg': "lg' = put_work (decided now d into sids note w)
               (case (d, into) of (DMerge, Some t) \<Rightarrow> put_work (stamp_work now (merge_target w t)) lg | _ \<Rightarrow> lg)"
    and into: "\<And>t. into = Some t \<Longrightarrow> t \<in> set (wl_items lg)"
  have w: "w \<in> set (wl_items lg)" by (rule get_work_in [OF gw])
  have uw: "wi_id u \<noteq> wi_id w" using same_id [OF assms(1) assms(3) w] assms(4) decides_from_open [OF p] by auto
  have "u \<in> set (wl_items (case (d, into) of (DMerge, Some t) \<Rightarrow> put_work (stamp_work now (merge_target w t)) lg | _ \<Rightarrow> lg))"
  proof (cases "d = DMerge")
    case True
    then obtain t where t: "into = Some t" "work_open t" using p by (auto elim: decision_into)
    then have "wi_id u \<noteq> wi_id t"
      using same_id [OF assms(1) assms(3) into [OF t(1)]] assms(4) by (auto simp: work_open_def WORK_OPEN_def)
    then show ?thesis using put_keeps_other [OF assms(1,3), of "stamp_work now (merge_target w t)"] True t by simp
  next
    case False
    then show ?thesis using assms(3) by (cases d) auto
  qed
  then show ?thesis using uw unfolding lg' by (force simp: put_work_def)
qed

lemma update_keeps_merged:
  assumes "merges_ok lg" "update_work now i u lg = Inr lg'" "m \<in> set (wl_items lg)" "wi_status m = WsMerged"
  shows "m \<in> set (wl_items lg')"
proof -
  obtain w where w: "get_work lg i = Some w" and p: "updateProblem w (wu_reopen u) now = None"
    and lg': "lg' = put_work (stamp_work now (close_part u (note_part u
               (case wu_priority u of Some p \<Rightarrow> (reopen_part now u w)\<lparr>wi_priority := p\<rparr> | None \<Rightarrow> reopen_part now u w)))) lg"
    using assms(2) by (auto simp: update_work_def Let_def split: option.splits)
  have "wi_status w \<noteq> WsMerged" using p by (auto simp: updateProblem_def split: if_splits)
  then have "wi_id m \<noteq> wi_id w" using same_id [OF assms(1) assms(3) get_work_in [OF w]] assms(4) by auto
  then show ?thesis unfolding lg' by (intro put_keeps_other [OF assms(1,3)]) (simp split: option.split)
qed


section \<open>Overlaps\<close>

lemma jaccard_range:
  assumes "distinct a"
  shows "0 \<le> jaccard a b \<and> jaccard a b \<le> 1"
proof (cases "a = [] \<or> b = []")
  case True
  then show ?thesis by (simp add: jaccard_def)
next
  case False
  let ?c = "length (filter (\<lambda>w. w \<in> set b) a)"
  have c: "?c \<le> length a" by simp
  have "?c = card (set a \<inter> set b)"
    using assms by (metis distinct_card distinct_filter inter_set_filter Int_commute set_filter Int_def Collect_mem_eq mem_Collect_eq)
  also have "\<dots> \<le> length b" by (meson Int_lower2 card_length card_mono finite_set le_trans)
  finally have "(of_nat ?c :: rat) \<le> of_nat (length b)" "(of_nat ?c :: rat) \<le> of_nat (length a)" using c by simp_all
  moreover have "(0 :: rat) < of_nat (length a)" "(0 :: rat) < of_nat (length b)" using False by simp_all
  ultimately have "0 \<le> (of_nat ?c :: rat)" "(of_nat ?c :: rat) \<le> of_nat (length a) + of_nat (length b) - of_nat ?c"
    "(0 :: rat) < of_nat (length a) + of_nat (length b) - of_nat ?c" by linarith+
  then show ?thesis using False by (simp add: jaccard_def Let_def divide_le_eq zero_le_divide_iff)
qed

lemma title_sim_range: "0 \<le> title_sim title e" "title_sim title e \<le> 1"
  using jaccard_range [of "title_words title"] by (simp_all add: title_sim_def title_words_def)

lemma round2_ge: "of_int n / 100 \<le> round2 x \<longleftrightarrow> of_int n / 100 - 5 / 1000 \<le> x"
proof -
  have "of_int n / 100 \<le> round2 x \<longleftrightarrow> n \<le> floor (x * 100 + 1 / 2)" by (simp add: round2_def divide_le_cancel)
  also have "\<dots> \<longleftrightarrow> of_int n / 100 - 5 / 1000 \<le> x" by (simp add: le_floor_iff) linarith
  finally show ?thesis .
qed

definition shared_keys :: "string list \<Rightarrow> pool_entry \<Rightarrow> string set" where
  "shared_keys ks e = set ks \<inter> set (pe_keys e)"

lemma find_shared: "find P (filter (\<lambda>k. k \<in> set (pe_keys e)) ks) = None \<longleftrightarrow> \<not> (\<exists>k \<in> shared_keys ks e. P k)"
  by (auto simp: find_None_iff shared_keys_def)

text \<open>
  What a strong overlap says (server/work.ts, overlapOf): a listed overlap's score is between 0.35 and
  1, and it is strong exactly when the two share a key that names one piece of work (not just a common
  parent), or a parent and half their title's words, or a spec or number and a fifth of them with no
  parent, or nearly all of the words.
\<close>

theorem strong_overlap_means:
  assumes "overlapOf ks title e = Some ov"
  shows "35 / 100 \<le> ov_score ov \<and> ov_score ov \<le> 1
    \<and> (STRONG \<le> ov_score ov \<longleftrightarrow>
         (\<exists>k \<in> shared_keys ks e. is_identity k \<and> \<not> is_sibling e k)
         \<or> (\<exists>k \<in> shared_keys ks e. is_sibling e k) \<and> 1 / 2 \<le> title_sim title e
         \<or> (\<exists>k \<in> shared_keys ks e. is_subject k) \<and> \<not> (\<exists>k \<in> shared_keys ks e. is_sibling e k) \<and> 2 / 10 \<le> title_sim title e
         \<or> 795 / 1000 \<le> title_sim title e)"
proof -
  let ?s = "fst (overlap_score ks title e)" and ?x = "title_sim title e"
  have ov: "ov_score ov = round2 ?s" "35 / 100 \<le> ?s"
    using assms by (auto simp: overlapOf_def LISTED_def split: prod.splits if_splits)
  have s: "?s = (if \<exists>k \<in> shared_keys ks e. is_identity k \<and> \<not> is_sibling e k then 1
      else if \<exists>k \<in> shared_keys ks e. is_sibling e k then (if 1 / 2 \<le> ?x then 8 / 10 else max ?x (1 / 2))
      else if \<exists>k \<in> shared_keys ks e. is_subject k then (if 2 / 10 \<le> ?x then 8 / 10 else 1 / 2) else ?x)"
    unfolding find_shared [symmetric, THEN arg_cong [where f = Not], unfolded not_not]
    by (auto simp: overlap_score_def Let_def STRONG_def split: option.splits)
  have "?s \<le> 1" using title_sim_range [of title e] unfolding s by simp
  then have upper: "ov_score ov \<le> 1" unfolding ov(1) round2_def by (simp add: floor_le_iff divide_le_eq)
  have lower: "35 / 100 \<le> ov_score ov" using ov round2_ge [of 35 ?s] by simp
  have "STRONG \<le> ov_score ov \<longleftrightarrow> 795 / 1000 \<le> ?s" using round2_ge [of 80 ?s] by (simp add: STRONG_def ov(1))
  then show ?thesis using upper lower by (auto simp: s)
qed

definition same_pr :: pool_entry where
  "same_pr = \<lparr>pe_ref = ''w7'', pe_kind = OWork, pe_title = ''Belts jam at the splitter'', pe_keys = [''pr:412'', ''spec:098''], pe_text = []\<rparr>"

theorem strong_overlap_means_witness:
  "\<exists>ov. overlapOf [''pr:412''] ''Fix the belts'' same_pr = Some ov \<and> ov_why ov = SameKey ''pr:412'' \<and> ov_score ov \<le> 1 \<and> STRONG \<le> ov_score ov"
proof -
  have "map_option (\<lambda>ov. (ov_why ov, STRONG \<le> ov_score ov)) (overlapOf [''pr:412''] ''Fix the belts'' same_pr) = Some (SameKey ''pr:412'', True)"
    by code_simp
  then obtain ov where "overlapOf [''pr:412''] ''Fix the belts'' same_pr = Some ov" "ov_why ov = SameKey ''pr:412''" "STRONG \<le> ov_score ov"
    unfolding map_option_eq_Some by auto
  with strong_overlap_means [OF this(1)] show ?thesis by blast
qed


section \<open>What is dropped\<close>

interpretation bc: comparator by_closed
  unfolding by_closed_def by (rule comparator_num_desc)

lemma closed_sorted: "i \<le> j \<Longrightarrow> j < length (closed_items items) \<Longrightarrow> wi_updatedAt (closed_items items ! j) \<le> wi_updatedAt (closed_items items ! i)"
proof -
  assume i: "i \<le> j" "j < length (closed_items items)"
  have "sorted_wrt (\<lambda>a b. by_closed a b \<le> 0) (closed_items items)"
    unfolding closed_items_def by (rule bc.sorted_js_sort)
  then have "i = j \<or> by_closed (closed_items items ! i) (closed_items items ! j) \<le> 0"
    using i sorted_wrt_nth_less [of "\<lambda>a b. by_closed a b \<le> 0" "closed_items items" i j] by (cases "i = j") auto
  then show ?thesis by (auto simp: by_closed_def cmp_num_def split: if_splits)
qed

lemma recent_prefix:
  assumes "j < length cs" "\<And>i j. i \<le> j \<Longrightarrow> j < length cs \<Longrightarrow> P (cs ! j) \<Longrightarrow> P (cs ! i)" "P (cs ! j)"
  shows "j < length (filter P cs)"
proof -
  have "\<forall>x \<in> set (take (Suc j) cs). P x"
  proof
    fix x assume "x \<in> set (take (Suc j) cs)"
    then obtain i where "i \<le> j" "cs ! i = x" by (auto simp: in_set_conv_nth less_Suc_eq_le)
    then show "P x" using assms(2) [OF _ assms(1,3)] by blast
  qed
  then have "filter P (take (Suc j) cs) = take (Suc j) cs" by simp
  then have "filter P cs = take (Suc j) cs @ filter P (drop (Suc j) cs)"
    by (metis append_take_drop_id filter_append)
  then show ?thesis using assms(1) by simp
qed

text \<open>
  What the ledger drops (server/work.ts, pruneIds): only closed requests, never one of the newest
  (\<open>keep\<close> of them, 300 as it is called) nor, unless 2000 newer ones stay, one that changed in the last
  seven days; no dropped request is newer than a kept closed one, and at most 2000 closed ones stay.
\<close>

theorem prune_drops_old:
  assumes "w \<in> set (pruned keep now items)"
  shows "\<not> work_open w \<and> wi_status w \<noteq> WsStalled
    \<and> (\<exists>kept rest. closed_items items = kept @ rest \<and> w \<in> set rest \<and> set (pruned keep now items) = set rest
         \<and> min 2000 keep \<le> length kept \<and> length kept \<le> 2000
         \<and> (\<forall>v \<in> set kept. wi_updatedAt w \<le> wi_updatedAt v)
         \<and> (length kept = 2000 \<or> 7 * 86400000 \<le> now - wi_updatedAt w))"
proof -
  let ?cs = "closed_items items"
  let ?P = "\<lambda>w. now - wi_updatedAt w < KEEP_CLOSED_MS"
  define n where "n = min MAX_CLOSED (max keep (length (filter ?P ?cs)))"
  have pr: "pruned keep now items = drop n ?cs" by (simp add: pruned_def n_def Let_def)
  obtain k where "k < length ?cs - n" "?cs ! (n + k) = w"
    using assms unfolding pr by (auto simp: in_set_conv_nth)
  moreover define j where "j = n + k"
  ultimately have j: "n \<le> j" "j < length ?cs" "?cs ! j = w" by simp_all
  have len: "length (take n ?cs) = n" using j by simp
  have range: "min 2000 keep \<le> n" "n \<le> 2000" by (simp_all add: n_def MAX_CLOSED_def)
  have older: "wi_updatedAt w \<le> wi_updatedAt v" if v: "v \<in> set (take n ?cs)" for v
  proof -
    obtain i where "i < n" "?cs ! i = v" using v len by (auto simp: in_set_conv_nth)
    then show ?thesis using closed_sorted [of i j items] j by simp
  qed
  have "n = 2000 \<or> \<not> ?P w"
  proof (rule ccontr)
    assume a: "\<not> (n = 2000 \<or> \<not> ?P w)"
    have "?P (?cs ! j) \<Longrightarrow> j < length (filter ?P ?cs)"
      by (rule recent_prefix [OF j(2)]) (use closed_sorted in \<open>fastforce\<close>)+
    then show False using a j n_def by (auto simp: MAX_CLOSED_def)
  qed
  moreover have "w \<in> set ?cs" using j by (metis nth_mem)
  then have "\<not> work_open w \<and> wi_status w \<noteq> WsStalled" by (simp add: closed_items_def)
  moreover have "w \<in> set (drop n ?cs)" using assms by (simp add: pr)
  ultimately show ?thesis
    using len range older
    by (intro conjI exI [of _ "take n ?cs"] exI [of _ "drop n ?cs"]) (auto simp: pr KEEP_CLOSED_MS_def)
qed

section \<open>Free room\<close>

interpretation co: comparator capacityOrder
  unfolding capacityOrder_def
  by (intro comparator_or comparator_num comparator_num_desc)

text \<open>
  The order free room is offered in (server/work.ts, capacityOrder): among requests sorted by it, none
  stands before one of a higher priority; within one priority, started work that can run only on named
  computers stands first, and then the oldest.
\<close>

theorem room_goes_by_priority:
  assumes "js_sort capacityOrder ws = us @ a # vs" "b \<in> set vs"
  shows "prio_rank (wi_priority a) \<le> prio_rank (wi_priority b)
    \<and> (prio_rank (wi_priority a) = prio_rank (wi_priority b) \<longrightarrow>
         (startedPinned b \<longrightarrow> startedPinned a) \<and> (startedPinned a = startedPinned b \<longrightarrow> wi_createdAt a \<le> wi_createdAt b))"
  using co.js_sort_before [OF assms]
  by (auto simp: capacityOrder_def cmp_or_def cmp_num_def pinned_rank_def split: if_splits)

definition old_closed :: "nat \<Rightarrow> int \<Rightarrow> work_item" where
  "old_closed n t = (new_item (work_id n) ''t'' Normal [] ben [ben] t None)\<lparr>wi_status := WsDone\<rparr>"

theorem prune_drops_old_witness:
  "pruneIds 1 (9 * 86400000) [old_closed 1 0, old_closed 2 86400000] = [''w1'']
   \<and> \<not> work_open (old_closed 1 0)"
proof -
  have m: "old_closed 1 0 \<in> set (pruned 1 (9 * 86400000) [old_closed 1 0, old_closed 2 86400000])"
    by (simp add: pruned_def closed_items_def by_closed_def cmp_num_def old_closed_def new_item_def work_open_def WORK_OPEN_def
        MAX_CLOSED_def KEEP_CLOSED_MS_def Let_def)
  have "pruneIds 1 (9 * 86400000) [old_closed 1 0, old_closed 2 86400000] = [''w1'']" by code_simp
  then show ?thesis using prune_drops_old [OF m] by blast
qed

theorem room_goes_by_priority_witness:
  "js_sort capacityOrder [old_closed 1 5, (old_closed 2 9)\<lparr>wi_priority := Urgent\<rparr>] = [(old_closed 2 9)\<lparr>wi_priority := Urgent\<rparr>, old_closed 1 5]
   \<and> prio_rank (wi_priority ((old_closed 2 9)\<lparr>wi_priority := Urgent\<rparr>)) \<le> prio_rank (wi_priority (old_closed 1 5))"
proof -
  have s: "js_sort capacityOrder [old_closed 1 5, (old_closed 2 9)\<lparr>wi_priority := Urgent\<rparr>]
      = [] @ (old_closed 2 9)\<lparr>wi_priority := Urgent\<rparr> # [old_closed 1 5]"
    by (simp add: capacityOrder_def cmp_or_def cmp_num_def old_closed_def new_item_def)
  from room_goes_by_priority [OF s, of "old_closed 1 5"] s show ?thesis by simp
qed

section \<open>Delegations\<close>

text \<open>
  The ledger over time: the standing agents file under their caps, and anything else happens to it.
\<close>

inductive delegation_reach :: "int option \<Rightarrow> int option \<Rightarrow> int \<Rightarrow> work_ledger \<Rightarrow> bool" for perHour perDay where
  start: "delegation_reach perHour perDay now \<lparr>wl_seq = n, wl_items = []\<rparr>"
| later: "delegation_reach perHour perDay before lg \<Longrightarrow> before \<le> now \<Longrightarrow> delegation_reach perHour perDay now lg"
| delegation: "delegation_reach perHour perDay now lg \<Longrightarrow> \<not> df_uncapped f \<Longrightarrow>
    delegation_reach perHour perDay now (fst (file_delegation perHour perDay now f lg))"
| person: "delegation_reach perHour perDay now lg \<Longrightarrow>
    delegation_reach perHour perDay now (fst (file_person now owner title brief prio ks lg))"
| decision: "delegation_reach perHour perDay now lg \<Longrightarrow> decide_work others now i d intoId sids note lg = Inr lg' \<Longrightarrow>
    delegation_reach perHour perDay now lg'"
| update: "delegation_reach perHour perDay now lg \<Longrightarrow> update_work now i u lg = Inr lg' \<Longrightarrow> delegation_reach perHour perDay now lg'"

lemma delegation_reach_work: "delegation_reach perHour perDay now lg \<Longrightarrow> work_reach lg"
  by (induction rule: delegation_reach.induct) (auto intro: work_reach.intros)

definition stamps :: "work_ledger \<Rightarrow> (int \<times> bool) list" where
  "stamps lg = map (\<lambda>w. (wi_createdAt w, wi_delegation w \<noteq> None)) (wl_items lg)"

lemma count_stamps:
  "delegation_age_count (wl_items lg) now dur = length (filter (\<lambda>(t, b). b \<and> now - t < dur) (stamps lg))"
  by (simp add: delegation_age_count_def stamps_def filter_map comp_def)

lemma put_stamps:
  assumes "merges_ok lg" "w \<in> set (wl_items lg)" "wi_id v = wi_id w" "wi_createdAt v = wi_createdAt w" "wi_delegation v = wi_delegation w"
  shows "stamps (put_work v lg) = stamps lg"
  using assms same_id [OF assms(1) _ assms(2)] by (auto simp: stamps_def put_work_def)

lemma decide_stamps:
  assumes "merges_ok lg" "decide_work others now i d intoId sids note lg = Inr lg'"
  shows "stamps lg' = stamps lg"
proof (rule decide_cases [OF assms(2)])
  fix w into
  assume gw: "get_work lg i = Some w"
    and lg': "lg' = put_work (decided now d into sids note w)
               (case (d, into) of (DMerge, Some t) \<Rightarrow> put_work (stamp_work now (merge_target w t)) lg | _ \<Rightarrow> lg)"
    and into: "\<And>t. into = Some t \<Longrightarrow> t \<in> set (wl_items lg)" and p: "decisionProblem w d into = None"
  note w = get_work_in [OF gw]
  show ?thesis
  proof (cases "d = DMerge")
    case False
    then have "lg' = put_work (decided now d into sids note w) lg" using lg' by (cases d) auto
    then show ?thesis using put_stamps [OF assms(1) w] by simp
  next
    case True
    then obtain t where t: "into = Some t" "wi_id t \<noteq> wi_id w" "work_open t" using p by (auto elim: decision_into)
    let ?lg1 = "put_work (stamp_work now (merge_target w t)) lg"
    have t_top: "wi_mergedInto t = None"
      using open_not_merged [OF assms(1) into [OF t(1)]] t(3) by (auto simp: work_open_def WORK_OPEN_def)
    have ok1: "merges_ok ?lg1" by (rule put_ok [OF assms(1) into [OF t(1)]]) (simp_all add: t_top)
    have "w \<in> set (wl_items ?lg1)" using w t(2) by (force simp: put_work_def)
    then show ?thesis using put_stamps [OF ok1, of w] put_stamps [OF assms(1) into [OF t(1)]] lg' True t(1) by simp
  qed
qed

lemma part_fields [simp]:
  "wi_createdAt (reopen_part now u w) = wi_createdAt w" "wi_delegation (reopen_part now u w) = wi_delegation w"
  "wi_createdAt (note_part u w) = wi_createdAt w" "wi_delegation (note_part u w) = wi_delegation w"
  "wi_createdAt (close_part u w) = wi_createdAt w" "wi_delegation (close_part u w) = wi_delegation w"
  by (auto simp: reopen_part_def note_part_def close_part_def Let_def split: option.split)

lemma update_stamps:
  assumes "merges_ok lg" "update_work now i u lg = Inr lg'"
  shows "stamps lg' = stamps lg"
  using assms(2) put_stamps [OF assms(1)]
  by (auto simp: update_work_def Let_def dest!: get_work_in split: option.splits)

definition few :: "int option \<Rightarrow> int option \<Rightarrow> int \<Rightarrow> work_ledger \<Rightarrow> bool" where
  "few perHour perDay now lg =
     (int (delegation_age_count (wl_items lg) now 3600000) \<le> (case perHour of Some n \<Rightarrow> n | None \<Rightarrow> 10)
      \<and> int (delegation_age_count (wl_items lg) now 86400000) \<le> (case perDay of Some n \<Rightarrow> n | None \<Rightarrow> 40))"

lemma few_stamps: "stamps lg' = stamps lg \<Longrightarrow> few perHour perDay now lg \<Longrightarrow> few perHour perDay now lg'"
  by (simp add: few_def count_stamps)

lemma count_later: "now \<le> later \<Longrightarrow> delegation_age_count items later dur \<le> delegation_age_count items now dur"
  by (induction items) (auto simp: delegation_age_count_def)

lemma count_drop: "delegation_age_count (wl_items (drop_work ids lg)) now dur \<le> delegation_age_count (wl_items lg) now dur"
proof -
  have "length (filter P (filter Q xs)) \<le> length (filter P xs)" for P Q and xs :: "work_item list"
    by (induction xs) auto
  then show ?thesis by (simp add: delegation_age_count_def drop_work_def)
qed

lemma count_add:
  assumes "\<And>i. wi_createdAt (item_of i) = now" "\<And>i. wi_delegation (item_of i) = dl"
  shows "delegation_age_count (wl_items (fst (add_work now item_of lg))) now dur
    \<le> delegation_age_count (wl_items lg) now dur + (if dl = None then 0 else 1)"
  unfolding add_work_def Let_def fst_conv
  by (rule le_trans [OF count_drop]) (simp add: delegation_age_count_def assms)

lemma few_delegation:
  assumes "merges_ok lg" "few perHour perDay now lg" "\<not> df_uncapped f"
  shows "few perHour perDay now (fst (file_delegation perHour perDay now f lg))"
proof -
  define title where "title = clip_text (trim (squeeze (df_title f))) 120"
  define lookback where "lookback = (case df_lookback f of Some n \<Rightarrow> n | None \<Rightarrow> DELEGATION_LOOKBACK_MS)"
  define rep where "rep = delegation_repeat (wl_items lg) (df_agent f) (df_id f) title now lookback"
  define p where "p = delegation_problem (wl_items lg) now (limitsFor Standing perHour perDay)"
  consider "title = [] \<or> trim (df_task f) = []" | w where "rep = Some w" "\<not> (title = [] \<or> trim (df_task f) = [])"
    | q where "p = Some q" "rep = None" "\<not> (title = [] \<or> trim (df_task f) = [])"
    | "p = None" "rep = None" "\<not> (title = [] \<or> trim (df_task f) = [])"
    by fastforce
  then show ?thesis
  proof cases
    case 2
    then have "fst (file_delegation perHour perDay now f lg) = put_work (stamp_work now w) lg"
      using assms(3) by (simp add: file_delegation_def Let_def title_def rep_def lookback_def)
    moreover have "w \<in> set (wl_items lg)" using 2(1) delegation_repeat_in unfolding rep_def by blast
    ultimately show ?thesis using few_stamps [OF put_stamps [OF assms(1)] assms(2)] by simp
  next
    case 4
    then obtain item_of where new: "fst (file_delegation perHour perDay now f lg) = fst (add_work now item_of lg)"
      "\<And>i. wi_createdAt (item_of i) = now" "\<And>i. wi_delegation (item_of i) = Some (df_id f, df_agent f)"
      using assms(3) by (simp add: file_delegation_def Let_def title_def rep_def lookback_def p_def split_beta)
    have "int (delegation_age_count (wl_items lg) now 3600000) < (case perHour of Some n \<Rightarrow> n | None \<Rightarrow> 10)"
      "int (delegation_age_count (wl_items lg) now 86400000) < (case perDay of Some n \<Rightarrow> n | None \<Rightarrow> 40)"
      using 4(1) by (auto simp: p_def delegation_problem_def limitsFor_def LIMITS_def split: if_splits option.splits)
    then show ?thesis
      using count_add [of item_of now _ lg 3600000, OF new(2,3)] count_add [of item_of now _ lg 86400000, OF new(2,3)]
      unfolding few_def new(1) by simp
  qed (use assms in \<open>auto simp: file_delegation_def Let_def title_def rep_def lookback_def p_def\<close>)
qed

lemma few_person:
  assumes "merges_ok lg" "few perHour perDay now lg"
  shows "few perHour perDay now (fst (file_person now owner title0 brief prio ks lg))"
proof -
  define title where "title = trim (squeeze title0)"
  let ?new = "add_work now (\<lambda>i. new_item i (clip_text title 120) prio ks owner [owner] now None) lg"
  have new: "few perHour perDay now (fst ?new)"
    using assms(2) count_add [of "\<lambda>i. new_item i (clip_text title 120) prio ks owner [owner] now None" now None lg] unfolding few_def
    by (fastforce intro: order_trans [OF of_nat_mono])
  have again: "few perHour perDay now (put_work (stamp_work now w) lg)" if "repeatOf (wl_items lg) (wp_user owner) title = Some w" for w
  proof -
    have "w \<in> set (wl_items lg)" using that by (auto simp: repeatOf_def dest: find_in)
    then show ?thesis using few_stamps [OF put_stamps [OF assms(1)] assms(2)] by simp
  qed
  show ?thesis
    unfolding file_person_def Let_def title_def [symmetric]
    using assms(2) new again by (auto simp: split_beta split: option.split)
qed

lemma delegation_reach_few:
  assumes "delegation_reach perHour perDay now lg"
    "0 \<le> (case perHour of Some n \<Rightarrow> n | None \<Rightarrow> 10)" "0 \<le> (case perDay of Some n \<Rightarrow> n | None \<Rightarrow> 40)"
  shows "few perHour perDay now lg"
  using assms(1)
proof (induction rule: delegation_reach.induct)
  case (start now n)
  then show ?case using assms(2,3) by (simp add: few_def delegation_age_count_def)
next
  case (later before lg now)
  then show ?case using count_later [OF later.hyps(2)] unfolding few_def by (meson of_nat_mono order_trans)
next
  case (delegation now lg f)
  then show ?case using few_delegation [OF reach_merges_ok [OF delegation_reach_work]] by blast
next
  case (person now lg)
  then show ?case using few_person [OF reach_merges_ok [OF delegation_reach_work]] by blast
next
  case decision
  then show ?case using few_stamps [OF decide_stamps [OF reach_merges_ok [OF delegation_reach_work]]] by blast
next
  case (update now lg i u lg')
  then show ?case using few_stamps [OF update_stamps [OF reach_merges_ok [OF delegation_reach_work]]] by blast
qed

text \<open>
  The standing agents' caps hold (server/orchestrators.ts, fileDelegation; server/work.ts, limitsFor):
  whatever else happens to the ledger, never more than the hour's count of their delegations is filed in
  any hour, nor more than the day's in any day.
\<close>

theorem delegations_within_caps:
  assumes "delegation_reach perHour perDay now lg" "now \<le> later"
    "0 \<le> (case perHour of Some n \<Rightarrow> n | None \<Rightarrow> 10)" "0 \<le> (case perDay of Some n \<Rightarrow> n | None \<Rightarrow> 40)"
  shows "int (length (filter (\<lambda>w. wi_delegation w \<noteq> None \<and> later - wi_createdAt w < 3600000) (wl_items lg)))
      \<le> (case perHour of Some n \<Rightarrow> n | None \<Rightarrow> 10)
    \<and> int (length (filter (\<lambda>w. wi_delegation w \<noteq> None \<and> later - wi_createdAt w < 86400000) (wl_items lg)))
      \<le> (case perDay of Some n \<Rightarrow> n | None \<Rightarrow> 40)"
  using delegation_reach_few [OF delegation_reach.later [OF assms(1,2)] assms(3,4)]
  by (simp add: few_def delegation_age_count_def)

definition audit :: "string \<Rightarrow> delegation_filing" where
  "audit title = \<lparr>df_agent = ''a1'', df_id = title, df_title = title, df_task = ''look'', df_owner = ben, df_approvedBy = None,
     df_uncapped = False, df_lookback = None, df_keys = []\<rparr>"

definition two_audits :: work_ledger where
  "two_audits = fst (file_delegation (Some 1) None 5 (audit ''logs'') (fst (file_delegation (Some 1) None 5 (audit ''disks'') \<lparr>wl_seq = 0, wl_items = []\<rparr>)))"

theorem delegations_within_caps_witness:
  "map wi_title (wl_items two_audits) = [''disks'']
   \<and> int (length (filter (\<lambda>w. wi_delegation w \<noteq> None \<and> 9 - wi_createdAt w < 3600000) (wl_items two_audits))) \<le> 1"
proof -
  have "delegation_reach (Some 1) None 5 two_audits"
    unfolding two_audits_def
    by (rule delegation_reach.delegation, rule delegation_reach.delegation, rule delegation_reach.start) (simp_all add: audit_def)
  from delegations_within_caps [OF this, of 9]
  have "int (length (filter (\<lambda>w. wi_delegation w \<noteq> None \<and> 9 - wi_createdAt w < 3600000) (wl_items two_audits))) \<le> 1" by simp
  moreover have "map wi_title (wl_items two_audits) = [''disks'']" by code_simp
  ultimately show ?thesis by (intro conjI)
qed

section \<open>After a reopen\<close>

text \<open>
  What was done before a reopen does not count: of any DONEs recorded on a reopened request, those that may
  close it, and those that end its pair run, were given at the reopen or later.
\<close>

lemma reopened_dones:
  assumes "w' = (fst (reopenWork w now))\<lparr>wi_done := ds\<rparr>"
  shows "(s, d) \<in> set (requestDonesOf w') \<Longrightarrow> (s, d) \<in> set ds \<and> \<not> wd_leg d \<and> (\<exists>t \<ge> now. wd_at d = Some t)"
    and "replacedLeg w' s born \<Longrightarrow> \<exists>h d. (h, d) \<in> set ds \<and> (\<exists>t \<ge> now. wd_at d = Some t)"
proof -
  have r: "wi_reopenedAt w' = Some now" "wi_done w' = ds" by (simp_all add: assms reopenWork_def Let_def)
  then have dones: "(s, d) \<in> set (doneOf w') \<Longrightarrow> (s, d) \<in> set ds \<and> (\<exists>t \<ge> now. wd_at d = Some t)" for s d
    by (auto simp: doneOf_def afterReopen_def split: option.splits)
  then show "(s, d) \<in> set (requestDonesOf w') \<Longrightarrow> (s, d) \<in> set ds \<and> \<not> wd_leg d \<and> (\<exists>t \<ge> now. wd_at d = Some t)"
    by (auto simp: requestDonesOf_def)
  show "replacedLeg w' s born \<Longrightarrow> \<exists>h d. (h, d) \<in> set ds \<and> (\<exists>t \<ge> now. wd_at d = Some t)"
    using dones by (fastforce simp: replacedLeg_def dest: map_of_SomeD split: option.splits list.splits)
qed

end
