(* ===== verification/IntakeProps.thy ===== *)
theory IntakeProps
  imports Intake
begin

text \<open>
  What the intake's rules give: quoted text that cannot close its fence, settings in range, and caps that
  hold over a day of filing.
\<close>

section \<open>Runs of fence characters\<close>

text \<open>Three fence characters in a row, somewhere.\<close>

fun has_fence :: "string \<Rightarrow> bool" where
  "has_fence (a # b # c # cs) = (fence_char a \<and> fence_char b \<and> fence_char c \<or> has_fence (b # c # cs))"
| "has_fence _ = False"

lemma has_fence_iff:
  "has_fence s \<longleftrightarrow> (\<exists>u a b c v. s = u @ [a, b, c] @ v \<and> fence_char a \<and> fence_char b \<and> fence_char c)"
proof (induction s rule: has_fence.induct)
  case (1 a b c cs)
  show ?case
  proof
    assume "has_fence (a # b # c # cs)"
    then consider "fence_char a \<and> fence_char b \<and> fence_char c" | "has_fence (b # c # cs)" by auto
    then show "\<exists>u x y z v. a # b # c # cs = u @ [x, y, z] @ v \<and> fence_char x \<and> fence_char y \<and> fence_char z"
    proof cases
      case 1
      then show ?thesis by (metis append_Cons append_Nil)
    next
      case 2
      then obtain u x y z v where "b # c # cs = u @ [x, y, z] @ v" "fence_char x" "fence_char y" "fence_char z" using "1.IH" by blast
      then show ?thesis by (metis append_Cons)
    qed
  next
    assume "\<exists>u x y z v. a # b # c # cs = u @ [x, y, z] @ v \<and> fence_char x \<and> fence_char y \<and> fence_char z"
    then obtain u x y z v where e: "a # b # c # cs = u @ [x, y, z] @ v" and f: "fence_char x" "fence_char y" "fence_char z" by blast
    show "has_fence (a # b # c # cs)"
    proof (cases u)
      case Nil
      then show ?thesis using e f by simp
    next
      case (Cons w u')
      then have "b # c # cs = u' @ [x, y, z] @ v" using e by simp
      then have "has_fence (b # c # cs)" using "1.IH" f by blast
      then show ?thesis by simp
    qed
  qed
qed (auto simp: append_eq_Cons_conv)

lemma has_fence_part: "has_fence t \<Longrightarrow> has_fence (u @ t @ v)"
  unfolding has_fence_iff by (metis append_assoc)

lemma no_fence_parts: "\<not> has_fence (u @ v) \<Longrightarrow> \<not> has_fence u \<and> \<not> has_fence v"
  using has_fence_part [of u "[]" v] has_fence_part [of v u "[]"] by auto

lemma no_fence_sep:
  assumes "\<not> has_fence u" "\<not> has_fence v" "\<not> fence_char c"
  shows "\<not> has_fence (u @ c # v)"
  using assms(1)
proof (induction u rule: has_fence.induct)
  case (1 x y z zs)
  then show ?case by simp
next
  case "2_1"
  then show ?case using assms(2,3) by (cases v rule: has_fence.cases) auto
next
  case "2_2"
  then show ?case using assms(2,3) by (cases v rule: has_fence.cases) auto
next
  case "2_3"
  then show ?case using assms(2,3) by (cases v rule: has_fence.cases) auto
qed

lemma fence_space [simp]: "\<not> fence_char (CHR '' '')" "\<not> fence_char newline" "\<not> fence_char ellipsis"
  by (simp_all add: fence_char_def newline_def ellipsis_def)

lemma spaced_no_fence: "\<not> has_fence (spaced r)"
proof (induction r rule: spaced.induct)
  case (3 c d cs)
  then show ?case using no_fence_sep [of "[c]" "spaced (d # cs)" "CHR '' ''"] by simp
qed simp_all

lemma flush_run_no_fence: "\<not> has_fence (flush_run r)"
  by (cases r rule: has_fence.cases) (auto simp: flush_run_def spaced_no_fence simp del: spaced.simps)

lemma break_fences_no_fence: "\<not> has_fence (break_fences r s)"
proof (induction r s rule: break_fences.induct)
  case (2 r c cs)
  then show ?case using no_fence_sep [OF flush_run_no_fence] by simp
qed (simp add: flush_run_no_fence)

lemma split_on_parts: "w \<in> set (split_on c s) \<Longrightarrow> \<exists>u v. s = u @ w @ v"
proof (induction c s arbitrary: w rule: split_on.induct)
  case (2 c x xs)
  show ?case
  proof (cases "x = c")
    case True
    then show ?thesis using 2 by (auto intro: exI [of _ "[]"]) (metis append_Cons)
  next
    case False
    show ?thesis
    proof (cases "split_on c xs")
      case Nil
      then show ?thesis using 2(3) False by (auto intro: exI [of _ "[]"])
    next
      case (Cons w1 ws)
      have first: "\<exists>v. xs = hd (split_on c xs) @ v" for xs
        by (induction c xs rule: split_on.induct) (auto split: list.splits)
      from 2(3) False Cons consider "w = x # w1" | "w \<in> set ws" by auto
      then show ?thesis
      proof cases
        case 1
        then show ?thesis using first [of xs] Cons by (metis append_Cons append_Nil list.sel(1))
      next
        case 2
        then show ?thesis using "2.IH"(2) [OF False] Cons by (metis append_Cons list.set_intros(2))
      qed
    qed
  qed
qed simp

lemma no_fence_trim_end: "\<not> has_fence s \<Longrightarrow> \<not> has_fence (trim_end s)"
proof -
  assume "\<not> has_fence s"
  moreover have "s = rev (dropWhile is_ws (rev s)) @ rev (takeWhile is_ws (rev s))"
    by (metis rev_append rev_rev_ident takeWhile_dropWhile_id)
  ultimately show ?thesis using no_fence_parts by (metis drop_while_end.simps trim_end_def)
qed

lemma drop_ws_dropWhile: "drop_ws s = dropWhile is_ws s"
  by (induction s) auto

lemma no_fence_trim: "\<not> has_fence s \<Longrightarrow> \<not> has_fence (trim s)"
proof -
  assume a: "\<not> has_fence s"
  then have "\<not> has_fence (drop_ws s)"
    using no_fence_parts [of "takeWhile is_ws s" "dropWhile is_ws s"] by (simp add: drop_ws_dropWhile)
  then have "\<not> has_fence (trim_end (drop_ws s))" by (rule no_fence_trim_end)
  then show ?thesis by (simp add: trim_def trim_end_def drop_ws_dropWhile)
qed

lemma no_fence_join: "\<forall>w \<in> set ws. \<not> has_fence w \<Longrightarrow> \<not> has_fence (join [newline] ws)"
proof (induction "[newline]" ws rule: join.induct)
  case (3 w v ws)
  then show ?case using no_fence_sep [of w "join [newline] (v # ws)" newline] by simp
qed simp_all

lemma cleanBlock_no_fence: "\<not> has_fence (cleanBlock redact s mx lines)"
proof -
  define b where "b = break_fences [] (filter (\<lambda>c. \<not> invisible c) (unix_lines (redact s)))"
  define t where "t = trim (join [newline] (take lines (map trim_end (split_on newline b))))"
  have b: "\<not> has_fence b" by (simp add: b_def break_fences_no_fence)
  have "\<not> has_fence w" if "w \<in> set (split_on newline b)" for w
    using split_on_parts [OF that] b has_fence_part by metis
  then have "\<forall>w \<in> set (take lines (map trim_end (split_on newline b))). \<not> has_fence w"
    using no_fence_trim_end by (auto dest!: in_set_takeD)
  then have t: "\<not> has_fence t" unfolding t_def by (intro no_fence_trim no_fence_join)
  then have "\<not> has_fence (take (mx - 1) t)" using no_fence_parts [of "take (mx - 1) t" "drop (mx - 1) t"] by simp
  then have "\<not> has_fence (trim_end (take (mx - 1) t) @ [ellipsis])"
    using no_fence_sep [OF no_fence_trim_end, of _ "[]" ellipsis] by simp
  then show ?thesis using t by (simp add: cleanBlock_def Let_def b_def t_def)
qed

lemma trim_end_length: "length (trim_end s) \<le> length s"
  by (simp add: trim_end_def length_dropWhile_le [of is_ws "rev s", simplified])

lemma cleanBlock_length: "length (cleanBlock redact s mx lines) \<le> max 1 mx"
proof -
  have "length (trim_end (take (mx - 1) t)) \<le> mx - 1" for t using trim_end_length [of "take (mx - 1) t"] by simp
  then have "length (trim_end (take (mx - 1) t)) + 1 \<le> max 1 mx" for t by (metis add.commute le_diff_conv2 max.coboundedI2 max.cobounded1 max_def nat_le_linear not_less_eq_eq plus_1_eq_Suc le_zero_eq diff_is_0_eq' One_nat_def add_leE le_add1 order_trans)
  then show ?thesis by (auto simp: cleanBlock_def Let_def max_def)
qed

section \<open>Properties\<close>

text \<open>
  Players' text stays inside its fence (server/intakeRules.ts, cleanBlock, quoteUntrusted): whatever
  the text is and whatever the redaction gives, the block quoted between the fences has no three fence
  characters in a row, so nothing in it closes the fence, and it is not longer than asked.
\<close>

theorem quoted_text_stays_fenced:
  "\<exists>body. quoteUntrusted redact s mx = UNTRUSTED_HEADER @ [newline] @ ''~~~text'' @ [newline] @ body @ [newline] @ ''~~~''
     \<and> body \<noteq> [] \<and> \<not> has_fence body \<and> length body \<le> max 9 mx"
proof -
  let ?b = "cleanBlock redact s mx 60"
  let ?body = "if ?b = [] then ''(no text)'' else ?b"
  have "?body \<noteq> []" by simp
  moreover have "\<not> has_fence ?body" using cleanBlock_no_fence [of redact s mx 60] by (simp add: fence_char_def)
  moreover have "length ?body \<le> max 9 mx" using cleanBlock_length [of redact s mx 60] by auto
  ultimately show ?thesis unfolding quoteUntrusted_def Let_def by blast
qed

lemma list_in_strings: "list_all (\<lambda>c. c \<noteq> []) (list_in v d)" if "list_all (\<lambda>c. c \<noteq> []) d"
proof -
  have "c \<noteq> []" if "c \<in> set (list_in (JArr xs) d)" for c xs
    using that by (auto simp: list_in_def is_blank_def split: js.splits if_splits)
  then show ?thesis using that by (cases v) (auto simp: list_in_def list_all_iff)
qed

lemma int_in_range: "mn \<le> mx \<Longrightarrow> mn \<le> d \<Longrightarrow> d \<le> mx \<Longrightarrow> mn \<le> int_in v d mn mx \<and> int_in v d mn mx \<le> mx"
  by (cases v) (auto simp: int_in_def)

lemma user_in_id: "user_in v = Some u \<Longrightarrow> is_user_id u"
  by (cases v) (auto simp: user_in_def split: if_splits)

lemma trusted_in_ids: "list_all (\<lambda>(k, u). is_snowflake k \<and> is_user_id u) (trusted_in v)"
  by (auto simp: trusted_in_def list_all_iff dest: user_in_id [OF sym] split: option.splits if_splits)

text \<open>
  C30. Whatever config.json says, the intake's settings are safe to run on (server/intakeRules.ts,
  intakeSettings): no channel FFBox owns is polled, only Discord snowflakes are trusted and only as user
  ids, every count and delay is in its range, and the match bands are in order.
\<close>

theorem settings_safe:
  "let s = intakeSettings zone_ok cfg; d = is_discord s; f = is_ffbox s; n = is_nightly s
   in list_all (\<lambda>c. \<not> isFfboxOwned c) (ds_bugChannels d @ ds_requestChannels d)
      \<and> list_all (\<lambda>(k, u). is_snowflake k \<and> is_user_id u) (ds_trusted d)
      \<and> ds_pollMinutes d \<in> {2..120} \<and> ds_checkNowSeconds d \<in> {1..600} \<and> ds_dailyCap d \<in> {0..200} \<and> ds_perReporterPerDay d \<in> {1..50}
      \<and> da_maxPerDay (ds_autoApprove d) \<in> {0..100} \<and> fs_dailyCap f \<in> {0..200}
      \<and> dr_maxPerDay (fs_autoApprove f) \<in> {0..100} \<and> dr_maxPerDay (fs_desync f) \<in> {0..100} \<and> dr_maxPerDay (fs_crash f) \<in> {0..100}
      \<and> fs_matchMedium f \<le> fs_matchHigh f \<and> fs_matchHigh f \<le> 1
      \<and> is_release_delay s \<in> {0..1440} \<and> ns_dailyCap n \<in> {0..100} \<and> ns_flakyNights n \<in> {1..30} \<and> ns_batchOver n \<in> {1..50}
      \<and> nr_reportWithinHours (ns_run n) \<in> {1..20} \<and> is_hhmm (nr_time (ns_run n)) \<and> is_hhmm (nv_time (ns_review n))
      \<and> is_machine_name (nr_machine (ns_run n)) \<and> is_machine_name (nv_machine (ns_review n))
      \<and> is_lookbackDays s \<in> {1..90}"
proof -
  have given_or: "ok (text_or ok v d)" if "ok d" for ok v d using that by (cases v) (auto simp: text_or_def)
  have times: "is_hhmm ''03:00''" "is_hhmm ''06:00''" "is_machine_name ''lothdesktop''" by code_simp+
  have high: "threshold_in v (7 / 10) \<le> 1" for v by (cases v) (auto simp: threshold_in_def)
  have chans: "list_all (\<lambda>c. \<not> isFfboxOwned c) (filter (\<lambda>c. \<not> isFfboxOwned c) xs)" for xs by (simp add: list_all_iff)
  have bands: "snd (thresholdsOf DEFAULT_HIGH DEFAULT_MEDIUM m) \<le> fst (thresholdsOf DEFAULT_HIGH DEFAULT_MEDIUM m)"
    "fst (thresholdsOf DEFAULT_HIGH DEFAULT_MEDIUM m) \<le> 1" for m
    using high by (auto simp: thresholdsOf_def Let_def DEFAULT_HIGH_def)
  show ?thesis
    unfolding intakeSettings_def discord_in_def ffbox_in_def nightly_in_def run_in_def review_in_def Let_def
    by (simp add: chans trusted_in_ids int_in_range given_or times bands atLeastAtMost_iff)
qed

section \<open>Filing under a daily cap\<close>

text \<open>
  What a source that files one item at a time does: an item is filed when the cap allows it, approved at
  once when the rule does.
\<close>

definition file_item :: "string list \<Rightarrow> int \<Rightarrow> approve_rule \<Rightarrow> intake_item list \<Rightarrow> intake_item \<Rightarrow> intake_item list" where
  "file_item kinds cap rule items w =
     (if capProblem items kinds cap (it_createdAt w) \<noteq> None then items
      else items @ [w\<lparr>it_approvedBy :=
             (if autoApproveProblem items rule kinds (it_createdAt w) None (\<lambda>_. True) = None then Some ''auto'' else None)\<rparr>])"

lemma filedToday_later:
  "now \<le> later \<Longrightarrow> length (filter P (filedToday items kinds later)) \<le> length (filter P (filedToday items kinds now))"
  by (induction items) (auto simp: filedToday_def inDay_def split: option.splits)

lemma filedToday_append: "filedToday (xs @ ys) kinds now = filedToday xs kinds now @ filedToday ys kinds now"
  by (simp add: filedToday_def)

lemma filed_once:
  "length (filter P (filedToday (file_item kinds cap rule items w) kinds later)) \<le> length (filter P (filedToday items kinds later)) + 1"
  by (auto simp: file_item_def filedToday_append) (auto simp: filedToday_def)

text \<open>
  The daily caps hold over any day (server/intakeRules.ts, capProblem, autoApproveProblem): a source
  that files in order of time and asks the cap and the rule each time never has more than the cap of its
  kinds filed in any 24 hours, nor more than the rule's count approved at once.
\<close>

theorem daily_caps_hold:
  assumes "sorted (map it_createdAt ws)" "\<forall>w \<in> set ws. it_createdAt w \<le> now" "0 \<le> cap" "0 \<le> ar_maxPerDay rule"
  shows "int (length (filedToday (foldl (file_item kinds cap rule) [] ws) kinds now)) \<le> cap
    \<and> int (length (filter (\<lambda>w. it_approvedBy w = Some ''auto'') (filedToday (foldl (file_item kinds cap rule) [] ws) kinds now)))
        \<le> ar_maxPerDay rule"
  using assms(1,2)
proof (induction ws arbitrary: now rule: rev_induct)
  case Nil
  then show ?case using assms(3,4) by (simp add: filedToday_def)
next
  case (snoc w ws)
  define items where "items = foldl (file_item kinds cap rule) [] ws"
  let ?auto = "\<lambda>w. it_approvedBy w = Some ''auto''"
  let ?t = "it_createdAt w"
  have sorted: "sorted (map it_createdAt ws)" "\<forall>v \<in> set ws. it_createdAt v \<le> ?t" and t: "?t \<le> now"
    using snoc.prems by (auto simp: sorted_append)
  have IH: "int (length (filedToday items kinds now)) \<le> cap" "int (length (filter ?auto (filedToday items kinds now))) \<le> ar_maxPerDay rule"
    using snoc.IH [OF sorted(1), of now] snoc.prems(2) by (simp_all add: items_def)
  have step: "foldl (file_item kinds cap rule) [] (ws @ [w]) = file_item kinds cap rule items w" by (simp add: items_def)
  have all: "int (length (filedToday (file_item kinds cap rule items w) kinds now)) \<le> cap"
  proof (cases "capProblem items kinds cap ?t")
    case None
    then have "int (length (filedToday items kinds ?t)) < cap" by (auto simp: capProblem_def split: if_splits)
    then show ?thesis
      using filed_once [of "\<lambda>_. True" kinds cap rule items w now] filedToday_later [OF t, of "\<lambda>_. True" items kinds] by simp
  qed (use IH in \<open>simp add: file_item_def\<close>)
  have auto': "int (length (filter ?auto (filedToday (file_item kinds cap rule items w) kinds now))) \<le> ar_maxPerDay rule"
  proof (cases "capProblem items kinds cap ?t = None \<and> autoApproveProblem items rule kinds ?t None (\<lambda>_. True) = None")
    case True
    then have "int (length (filter ?auto (filedToday items kinds ?t))) < ar_maxPerDay rule"
      by (auto simp: autoApproveProblem_def split: if_splits)
    then show ?thesis
      using filed_once [of ?auto kinds cap rule items w now] filedToday_later [OF t, of ?auto items kinds] by simp
  next
    case False
    then have "filter ?auto (filedToday (file_item kinds cap rule items w) kinds now) = filter ?auto (filedToday items kinds now)"
      by (auto simp: file_item_def filedToday_append) (auto simp: filedToday_def)
    then show ?thesis using IH(2) by simp
  qed
  show ?case using all auto' unfolding step by simp
qed

definition three_reports :: "intake_item list" where
  "three_reports = map (\<lambda>t. \<lparr>it_id = [], it_kind = Some ''discord-bug'', it_createdAt = t, it_approvedBy = None, it_reporterKey = None\<rparr>)
     [0, 1000, 2000]"

theorem daily_caps_hold_witness:
  "length (foldl (file_item [''discord-bug''] 2 \<lparr>ar_enabled = True, ar_maxPerDay = 1, ar_allowed = True\<rparr>) [] three_reports) = 2
   \<and> int (length (filedToday (foldl (file_item [''discord-bug''] 2 \<lparr>ar_enabled = True, ar_maxPerDay = 1, ar_allowed = True\<rparr>) [] three_reports)
         [''discord-bug''] 3000)) \<le> 2"
proof -
  have s: "sorted (map it_createdAt three_reports)" "\<forall>w \<in> set three_reports. it_createdAt w \<le> 3000" by (simp_all add: three_reports_def)
  have "length (foldl (file_item [''discord-bug''] 2 \<lparr>ar_enabled = True, ar_maxPerDay = 1, ar_allowed = True\<rparr>) [] three_reports) = 2"
    by code_simp
  moreover note daily_caps_hold [OF s, of 2 "\<lparr>ar_enabled = True, ar_maxPerDay = 1, ar_allowed = True\<rparr>" "[''discord-bug'']"]
  ultimately show ?thesis by simp
qed

end
