(* ===== verification/MasterVerdict.thy ===== *)
theory MasterVerdict
  imports Intake
begin

text \<open>
  The master batch watch's data (server/masterBatch.ts): its settings, the verdict line of a job log checked
  field by field, the workflow's runs, and the title of what is filed. \<open>JSON.parse\<close> is a parameter
  (\<open>json\<close>, \<open>None\<close> where it throws), and so is the redaction of secrets. A time the API gives is the number
  of milliseconds \<open>Date.parse\<close> reads from it (\<open>date_of\<close>, \<open>None\<close> for NaN).
\<close>

section \<open>Settings\<close>

record batch_settings =
  bs_enabled :: bool
  bs_autoEnabled :: bool
  bs_maxPerDay :: int
  bs_repo :: string
  bs_workflow :: string

definition DEFAULT_REPO :: string where "DEFAULT_REPO = ''Final-Factory/FinalFactory''"
definition DEFAULT_WORKFLOW :: string where "DEFAULT_WORKFLOW = ''master-batch.yml''"

definition is_repo :: "string \<Rightarrow> bool" where
  "is_repo s =
     (case split_on (CHR ''/'') s of
        [owner, name] \<Rightarrow>
          1 \<le> length owner \<and> length owner \<le> 39 \<and> list_all (\<lambda>c. is_lower c \<or> is_upper c \<or> is_digit c \<or> c = CHR ''-'') owner
          \<and> 1 \<le> length name \<and> length name \<le> 100 \<and> list_all name_char name
      | _ \<Rightarrow> False)"

text \<open>\<open>[\w.-]{1,100}\.ya?ml\<close>.\<close>

definition is_workflow :: "string \<Rightarrow> bool" where
  "is_workflow s =
     list_ex (\<lambda>e. has_suffix e s \<and> 1 \<le> length s - length e \<and> length s - length e \<le> 100 \<and> list_all name_char (take (length s - length e) s))
       [''.yml'', ''.yaml'']"

definition masterBatchSettings :: "js \<Rightarrow> batch_settings" where
  "masterBatchSettings cfg =
     (let m = field cfg ''masterBatch''; a = field m ''autoApprove''
      in \<lparr>bs_enabled = not_off (field m ''enabled''), bs_autoEnabled = not_off (field a ''enabled''),
          bs_maxPerDay = int_in (field a ''maxPerDay'') 10 0 100,
          bs_repo = text_or is_repo (field m ''repo'') DEFAULT_REPO,
          bs_workflow = text_or is_workflow (field m ''workflow'') DEFAULT_WORKFLOW\<rparr>)"

section \<open>The verdict line\<close>

record culprit =
  cu_sha :: string
  cu_pr :: "nat option"
  cu_subject :: string
  cu_title :: string
  cu_tests :: "string list"

datatype verdict = Red | Green | Flaky | NoResults

record batch_verdict =
  bv_tip :: string
  bv_ref :: string
  bv_run :: string
  bv_verdict :: verdict
  bv_failed :: int
  bv_culprits :: "culprit list"
  bv_flaky :: "string list"
  bv_unresolved :: "string list"
  bv_note :: "string option"

definition KEEP_TESTS :: nat where "KEEP_TESTS = 50"
definition KEEP_LIST :: nat where "KEEP_LIST = 100"
definition MAX_LINE :: nat where "MAX_LINE = 1000000"

definition is_sha40 :: "string \<Rightarrow> bool" where
  "is_sha40 s = (length s = 40 \<and> list_all (\<lambda>c. is_digit c \<or> c \<in> set ''abcdef'') s)"

definition sha40 :: "js \<Rightarrow> string option" where
  "sha40 v = (case v of JStr s \<Rightarrow> if is_sha40 (lower s) then Some (lower s) else None | _ \<Rightarrow> None)"

definition js_items :: "js \<Rightarrow> js list" where
  "js_items v = (case v of JArr xs \<Rightarrow> xs | _ \<Rightarrow> [])"

definition js_text :: "js \<Rightarrow> string option" where
  "js_text v = (case v of JStr s \<Rightarrow> Some s | _ \<Rightarrow> None)"

definition test_names :: "(string \<Rightarrow> string) \<Rightarrow> js \<Rightarrow> nat \<Rightarrow> string list" where
  "test_names redact v keep =
     take keep (js_unique (filter (\<lambda>x. x \<noteq> []) (map (\<lambda>x. cleanLine redact x 300) (List.map_filter js_text (take (keep * 2) (js_items v))))))"

definition line_in :: "(string \<Rightarrow> string) \<Rightarrow> js \<Rightarrow> nat \<Rightarrow> string" where
  "line_in redact v mx = (case js_text v of Some s \<Rightarrow> cleanLine redact s mx | None \<Rightarrow> [])"

text \<open>A whole number that is not negative; \<open>None\<close> for anything else.\<close>

definition js_whole :: "js \<Rightarrow> nat option" where
  "js_whole v = (case v of JNum x \<Rightarrow> if is_integer x \<and> 0 \<le> x then Some (nat (floor x)) else None | _ \<Rightarrow> None)"

definition strip_stamp :: "string \<Rightarrow> string" where
  "strip_stamp s =
     (let t = drop 11 s; r = dropWhile (\<lambda>c. is_digit c \<or> c \<in> set '':.'') t
      in if length s > 11 \<and> list_all is_digit (take 4 s) \<and> s ! 4 = CHR ''-'' \<and> list_all is_digit (take 2 (drop 5 s)) \<and> s ! 7 = CHR ''-''
            \<and> list_all is_digit (take 2 (drop 8 s)) \<and> s ! 10 = CHR ''T'' \<and> length r < length t \<and> has_prefix ''Z '' r
         then drop 2 r else s)"

text \<open>What follows the marker on a line of the log.\<close>

definition verdict_line :: "string \<Rightarrow> string option" where
  "verdict_line raw =
     (let l = (case rev raw of c # r \<Rightarrow> if code c = 13 then rev r else raw | [] \<Rightarrow> raw); t = strip_stamp l
      in if MAX_LINE < length l then None
         else if has_prefix ''MASTER_BATCH_VERDICT '' t \<and> list_all (\<lambda>c. code c \<noteq> 13) t then Some (drop 21 t) else None)"

fun last_some :: "('a \<Rightarrow> 'b option) \<Rightarrow> 'a list \<Rightarrow> 'b option" where
  "last_some f [] = None"
| "last_some f (x # xs) = (case last_some f xs of Some y \<Rightarrow> Some y | None \<Rightarrow> f x)"

definition read_culprit :: "(string \<Rightarrow> string) \<Rightarrow> js \<Rightarrow> culprit option" where
  "read_culprit redact c =
     (case sha40 (field c ''sha'') of
        None \<Rightarrow> None
      | Some sha \<Rightarrow>
          Some \<lparr>cu_sha = sha,
                cu_pr = (case js_whole (field c ''pr'') of Some n \<Rightarrow> if 0 < n \<and> n < 1000000000 then Some n else None | None \<Rightarrow> None),
                cu_subject = line_in redact (field c ''subject'') 200, cu_title = line_in redact (field c ''title'') 200,
                cu_tests = test_names redact (field c ''tests'') KEEP_TESTS\<rparr>)"

definition verdict_in :: "js \<Rightarrow> verdict option" where
  "verdict_in v =
     (case v of JStr s \<Rightarrow> map_of [(''red'', Red), (''green'', Green), (''flaky'', Flaky), (''no-results'', NoResults)] s | _ \<Rightarrow> None)"

text \<open>\<open>String(body.run)\<close> where it is 1 to 20 digits, else empty.\<close>

definition run_text :: "js \<Rightarrow> string" where
  "run_text v =
     (let s = (case v of JStr s \<Rightarrow> s | _ \<Rightarrow> (case js_whole v of Some n \<Rightarrow> show_nat n | None \<Rightarrow> []))
      in if 1 \<le> length s \<and> length s \<le> 20 \<and> list_all is_digit s then s else [])"

definition read_verdict :: "(string \<Rightarrow> string) \<Rightarrow> js \<Rightarrow> batch_verdict option" where
  "read_verdict redact body =
     (if \<not> is_obj body \<or> field body ''version'' \<noteq> JNum 1 then None
      else
        (case (verdict_in (field body ''verdict''), sha40 (field body ''tip'')) of
           (Some v, Some tip) \<Rightarrow>
             (let note = line_in redact (field body ''note'') 300
              in Some \<lparr>bv_tip = tip, bv_ref = line_in redact (field body ''ref'') 40, bv_run = run_text (field body ''run''), bv_verdict = v,
                       bv_failed = (case js_whole (field body ''failed'') of Some n \<Rightarrow> min (int n) 1000000 | None \<Rightarrow> 0),
                       bv_culprits = List.map_filter (read_culprit redact) (take 20 (js_items (field body ''culprits''))),
                       bv_flaky = test_names redact (field body ''flaky'') KEEP_LIST,
                       bv_unresolved = test_names redact (field body ''unresolved'') KEEP_LIST,
                       bv_note = (if note = [] then None else Some note)\<rparr>)
         | _ \<Rightarrow> None))"

definition parseVerdict :: "(string \<Rightarrow> string) \<Rightarrow> (string \<Rightarrow> js option) \<Rightarrow> string \<Rightarrow> batch_verdict option" where
  "parseVerdict redact json log' =
     (case last_some verdict_line (split_on newline log') of
        None \<Rightarrow> None
      | Some t \<Rightarrow> (case json t of None \<Rightarrow> None | Some body \<Rightarrow> read_verdict redact body))"

section \<open>The workflow's runs\<close>

record batch_run =
  br_id :: nat
  br_attempt :: nat
  br_sha :: string
  br_status :: string
  br_conclusion :: "string option"
  br_createdAt :: int
  br_updatedAt :: int
  br_url :: string

definition read_run :: "(string \<Rightarrow> int option) \<Rightarrow> js \<Rightarrow> batch_run option" where
  "read_run date_of r =
     (let created = Option.bind (js_text (field r ''created_at'')) date_of;
          updated = (case js_text (field r ''updated_at'') of Some t \<Rightarrow> date_of t | None \<Rightarrow> created)
      in case (sha40 (field r ''head_sha''), js_whole (field r ''id''), js_text (field r ''status''), created, updated) of
           (Some sha, Some i, Some st, Some c, Some u) \<Rightarrow>
             if i = 0 then None
             else Some \<lparr>br_id = i,
                        br_attempt = (case js_whole (field r ''run_attempt'') of Some n \<Rightarrow> if 0 < n then n else 1 | None \<Rightarrow> 1),
                        br_sha = sha, br_status = st, br_conclusion = js_text (field r ''conclusion''), br_createdAt = c, br_updatedAt = u,
                        br_url = (case js_text (field r ''html_url'') of
                                    Some t \<Rightarrow> if has_prefix ''https://github.com/'' t then t else []
                                  | None \<Rightarrow> [])\<rparr>
         | _ \<Rightarrow> None)"

definition parseRuns :: "(string \<Rightarrow> int option) \<Rightarrow> js \<Rightarrow> batch_run list" where
  "parseRuns date_of body = List.map_filter (read_run date_of) (take 100 (js_items (field body ''workflow_runs'')))"

section \<open>Titles\<close>

definition short_sha :: "string \<Rightarrow> string" where
  "short_sha sha = take 9 sha"

definition clipTitle :: "(string \<Rightarrow> string) \<Rightarrow> string \<Rightarrow> string \<Rightarrow> string" where
  "clipTitle redact head tail =
     (let t = cleanLine redact tail (120 - length head - 3) in if t = [] then head else head @ '' ('' @ t @ '')'')"

definition testsText :: "string list \<Rightarrow> int \<Rightarrow> string" where
  "testsText tests failed =
     (if tests = [] then (if failed \<noteq> 0 then show_nat (nat failed) @ '' failing tests'' else ''failing tests'')
      else join '', '' (take 5 tests) @ (if 5 < length tests then '' and '' @ show_nat (length tests - 5) @ '' more'' else []))"

definition culprit_title :: "(string \<Rightarrow> string) \<Rightarrow> culprit \<Rightarrow> string" where
  "culprit_title redact c =
     clipTitle redact
       (''Master batch red: revert '' @ (case cu_pr c of Some n \<Rightarrow> CHR ''#'' # show_nat n | None \<Rightarrow> short_sha (cu_sha c)))
       (if cu_title c \<noteq> [] then cu_title c else cu_subject c)"

definition noResults_title :: "batch_verdict \<Rightarrow> string" where
  "noResults_title v = ''Master batch red at '' @ short_sha (bv_tip v) @ '': no results (compile error or crash)''"

definition unbisected_count :: "batch_verdict \<Rightarrow> int" where
  "unbisected_count v = (if bv_unresolved v \<noteq> [] then int (length (bv_unresolved v)) else bv_failed v)"

definition unbisected_title :: "batch_verdict \<Rightarrow> string" where
  "unbisected_title v = ''Master batch red: '' @ show_nat (nat (unbisected_count v)) @ '' tests not bisected''"

text \<open>The key a filing is the same work by (\<open>identityKeys\<close>, server/intakeRules.ts).\<close>

datatype batch_draft = CulpritDraft culprit | NoResultsDraft | UnbisectedDraft

definition batch_key :: "batch_run \<Rightarrow> batch_verdict \<Rightarrow> batch_draft \<Rightarrow> string" where
  "batch_key r v d =
     (case d of
        CulpritDraft c \<Rightarrow> ''master-batch:'' @ cu_sha c
      | NoResultsDraft \<Rightarrow> ''master-batch:tip:'' @ bv_tip v
      | UnbisectedDraft \<Rightarrow> ''master-batch:run:'' @ show_nat (br_id r))"

definition draft_title :: "(string \<Rightarrow> string) \<Rightarrow> batch_verdict \<Rightarrow> batch_draft \<Rightarrow> string" where
  "draft_title redact v d =
     (case d of CulpritDraft c \<Rightarrow> culprit_title redact c | NoResultsDraft \<Rightarrow> noResults_title v | UnbisectedDraft \<Rightarrow> unbisected_title v)"

end
