(* ===== verification/MasterBatch.thy ===== *)
theory MasterBatch
  imports MasterVerdict
begin

text \<open>
  The master batch watch (server/masterBatch.ts, class MasterBatchWatch) with the part of the ledger it
  files into (server/orchestrators.ts, fileIntake, intakeRepeat and tellMasterBatch for its kind). A look
  is one step over what GitHub answers (\<open>batch_reading\<close>); what other parts do to the ledger happens between
  looks. Not modelled: the briefs' words, log lines, the workers and people a told request reaches, and
  the ledger's overlaps and pruning.
\<close>

section \<open>The ledger\<close>

record batch_work = intake_item +
  bw_open :: bool
  bw_keys :: "string list"
  bw_prs :: "(nat \<times> string) list"
  bw_merged :: bool
  bw_log :: "string list"

record ledger =
  lg_seq :: nat
  lg_work :: "batch_work list"

definition MASTER_BATCH :: string where "MASTER_BATCH = ''master-batch''"
definition DAILY_CAP :: int where "DAILY_CAP = 20"
definition MAX_AGE_MS :: int where "MAX_AGE_MS = 48 * 3600000"
definition KEEP_SEEN :: nat where "KEEP_SEEN = 200"
definition KEEP_FILED :: nat where "KEEP_FILED = 500"

definition intake_repeat :: "ledger \<Rightarrow> string \<Rightarrow> batch_work option" where
  "intake_repeat lg key = find (\<lambda>w. it_kind w = Some MASTER_BATCH \<and> bw_open w \<and> key \<in> set (bw_keys w)) (lg_work lg)"

datatype intake_answer = Repeat string | Skipped | NewItem string

text \<open>\<open>fileIntake\<close> as the watch calls it; \<open>inFlight\<close> is the blocking overlap it finds, if any.\<close>

definition file_intake :: "int \<Rightarrow> batch_settings \<Rightarrow> string option \<Rightarrow> string \<Rightarrow> ledger \<Rightarrow> ledger \<times> intake_answer" where
  "file_intake now s inFlight key lg =
     (let rule = \<lparr>ar_enabled = bs_autoEnabled s, ar_maxPerDay = bs_maxPerDay s, ar_allowed = True\<rparr>;
          kinds = [MASTER_BATCH];
          approved = (autoApproveProblem (lg_work lg) rule kinds now None (\<lambda>_. True) = None)
      in case intake_repeat lg key of
           Some w \<Rightarrow> (lg, Repeat (it_id w))
         | None \<Rightarrow>
             if capProblem (lg_work lg) kinds DAILY_CAP now \<noteq> None then (lg, Skipped)
             else
               (let wid = CHR ''w'' # show_nat (lg_seq lg + 1);
                    why = (if approved then None else autoApproveProblem (lg_work lg) rule kinds now inFlight (\<lambda>_. True))
                in (\<lparr>lg_seq = lg_seq lg + 1,
                     lg_work = lg_work lg @
                       [\<lparr>it_id = wid, it_kind = Some MASTER_BATCH, it_createdAt = now,
                         it_approvedBy = (if why = None then Some ''auto'' else None), it_reporterKey = None,
                         bw_open = True, bw_keys = [key], bw_prs = [], bw_merged = False, bw_log = []\<rparr>]\<rparr>,
                    NewItem wid)))"

definition tell_work :: "string \<Rightarrow> string \<Rightarrow> string \<Rightarrow> ledger \<Rightarrow> ledger" where
  "tell_work wid mark line lg =
     lg\<lparr>lg_work := map (\<lambda>w. if it_id w = wid \<and> \<not> list_ex (\<lambda>l. includes_str l mark) (bw_log w)
                            then w\<lparr>bw_log := bw_log w @ [line]\<rparr> else w) (lg_work lg)\<rparr>"

definition requestsForPr :: "batch_work list \<Rightarrow> string \<Rightarrow> nat \<Rightarrow> batch_work list" where
  "requestsForPr work repo number =
     filter (\<lambda>w. \<not> bw_merged w \<and> list_ex (\<lambda>(n, r). n = number \<and> lower r = lower repo) (bw_prs w)) work"

text \<open>\<open>^\s*(?:Request|Part of):\s*(w\d+)\b\<close>, at one line start.\<close>

definition request_line :: "string \<Rightarrow> string option" where
  "request_line s =
     (let t = dropWhile is_ws s
      in case (if has_prefix ''request:'' (lower t) then Some (drop 8 t)
               else if has_prefix ''part of:'' (lower t) then Some (drop 8 t) else None) of
           None \<Rightarrow> None
         | Some u \<Rightarrow>
             (case dropWhile is_ws u of
                w # r \<Rightarrow>
                  (let ds = takeWhile is_digit r; rest = dropWhile is_digit r
                   in if lower_char w = CHR ''w'' \<and> ds \<noteq> [] \<and> (case rest of c # _ \<Rightarrow> \<not> word_char c | [] \<Rightarrow> True)
                      then Some (CHR ''w'' # ds) else None)
              | [] \<Rightarrow> None))"

fun line_starts :: "bool \<Rightarrow> string \<Rightarrow> string list" where
  "line_starts at_start [] = (if at_start then [[]] else [])"
| "line_starts at_start (c # cs) = (if at_start then [c # cs] else []) @ line_starts (code c \<in> {10, 13}) cs"

definition requestIdsIn :: "string \<Rightarrow> string list" where
  "requestIdsIn body = js_unique (List.map_filter request_line (line_starts True body))"

section \<open>What GitHub answers\<close>

datatype job_log = LogFailed | NoJob | JobSkipped | JobLog string

record batch_reading =
  rd_settings :: batch_settings
  rd_runs :: "batch_run list option"
  rd_log :: "nat \<Rightarrow> job_log"
  rd_pr :: "nat \<Rightarrow> string option"
  rd_inFlight :: "string option"
  rd_verdict :: "string \<Rightarrow> batch_verdict option"
  rd_redact :: "string \<Rightarrow> string"

section \<open>The state\<close>

record filed_entry =
  fe_work :: string
  fe_at :: int

record batch_state =
  mb_baselined :: bool
  mb_seen :: "string list"
  mb_filed :: "(string \<times> filed_entry) list"
  mb_skipped :: "string list"
  mb_ledger :: ledger

definition run_mark :: "batch_run \<Rightarrow> string" where
  "run_mark r = show_nat (br_id r) @ ''#'' @ show_nat (br_attempt r)"

definition run_seen :: "batch_state \<Rightarrow> batch_run \<Rightarrow> bool" where
  "run_seen st r = (run_mark r \<in> set (mb_seen st))"

definition markSeen :: "batch_run \<Rightarrow> batch_state \<Rightarrow> batch_state" where
  "markSeen r st = (if run_seen st r then st else st\<lparr>mb_seen := mb_seen st @ [run_mark r]\<rparr>)"

definition keep_last :: "nat \<Rightarrow> 'a list \<Rightarrow> 'a list" where
  "keep_last n xs = drop (length xs - n) xs"

definition oldest_filed :: "(string \<times> filed_entry) list \<Rightarrow> string list" where
  "oldest_filed f = map fst (take (length f - KEEP_FILED) (js_sort (\<lambda>a b. cmp_num (fe_at (snd a)) (fe_at (snd b))) f))"

text \<open>\<open>save\<close>: what it forgets; the file is not modelled.\<close>

definition save :: "batch_state \<Rightarrow> batch_state" where
  "save st =
     st\<lparr>mb_seen := keep_last KEEP_SEEN (mb_seen st), mb_skipped := keep_last KEEP_SEEN (mb_skipped st),
        mb_filed := (if KEEP_FILED < length (mb_filed st)
                     then filter (\<lambda>(k, e). k \<notin> set (oldest_filed (mb_filed st))) (mb_filed st) else mb_filed st)\<rparr>"

section \<open>Filing\<close>

datatype batch_did =
    Recorded nat
  | TooOld nat
  | JobWasSkipped nat
  | FlakyRun nat
  | NothingFiled nat verdict
  | Superseded nat
  | FiledWork string string string
  | AddedTo string string string
  | ToldWork string string

definition file_one :: "batch_reading \<Rightarrow> int \<Rightarrow> batch_run \<Rightarrow> batch_verdict \<Rightarrow> string \<Rightarrow> batch_draft \<Rightarrow> batch_state
    \<Rightarrow> batch_state \<times> batch_did list \<times> (string \<times> bool) option" where
  "file_one rd now r v key d st =
     (case map_of (mb_filed st) key of
        Some e \<Rightarrow> (st, [], Some (fe_work e, True))
      | None \<Rightarrow>
          (case file_intake now (rd_settings rd) (rd_inFlight rd) (batch_key r v d) (mb_ledger st) of
             (lg, Skipped) \<Rightarrow> (st\<lparr>mb_ledger := lg\<rparr>, [], None)
           | (lg, Repeat wid) \<Rightarrow>
               (save (st\<lparr>mb_ledger := lg, mb_filed := mb_filed st @ [(key, \<lparr>fe_work = wid, fe_at = now\<rparr>)]\<rparr>),
                [AddedTo wid key (draft_title (rd_redact rd) v d)], Some (wid, True))
           | (lg, NewItem wid) \<Rightarrow>
               (save (st\<lparr>mb_ledger := lg, mb_filed := mb_filed st @ [(key, \<lparr>fe_work = wid, fe_at = now\<rparr>)]\<rparr>),
                [FiledWork wid key (draft_title (rd_redact rd) v d)], Some (wid, False))))"

definition linkedTo :: "batch_reading \<Rightarrow> culprit \<Rightarrow> batch_state \<Rightarrow> string list" where
  "linkedTo rd c st =
     (case cu_pr c of
        None \<Rightarrow> []
      | Some n \<Rightarrow>
          (let work = lg_work (mb_ledger st); found = requestsForPr work (bs_repo (rd_settings rd)) n
           in if found \<noteq> [] then map it_id found
              else (case rd_pr rd n of
                      None \<Rightarrow> []
                    | Some body \<Rightarrow> filter (\<lambda>i. list_ex (\<lambda>w. it_id w = i \<and> \<not> bw_merged w) work) (requestIdsIn body))))"

definition tell_mark :: "batch_run \<Rightarrow> culprit \<Rightarrow> string" where
  "tell_mark r c = ''master batch run '' @ show_nat (br_id r) @ '' merge '' @ short_sha (cu_sha c)"

definition tell_line :: "batch_run \<Rightarrow> batch_verdict \<Rightarrow> culprit \<Rightarrow> string \<Rightarrow> string" where
  "tell_line r v c filedId =
     tell_mark r c @ '': PR #'' @ (case cu_pr c of Some n \<Rightarrow> show_nat n | None \<Rightarrow> ''null'') @ '' broke master's batch (''
     @ testsText (cu_tests c) (bv_failed v) @ ''); '' @ filedId @ '' reverts it first''"

definition tell_all :: "string list \<Rightarrow> batch_run \<Rightarrow> batch_verdict \<Rightarrow> culprit \<Rightarrow> string \<Rightarrow> batch_state \<Rightarrow> batch_state" where
  "tell_all linked r v c filedId st =
     st\<lparr>mb_ledger := fold (\<lambda>i. tell_work i (tell_mark r c) (tell_line r v c filedId)) linked (mb_ledger st)\<rparr>"

definition run_key :: "batch_run \<Rightarrow> string \<Rightarrow> string" where
  "run_key r what = show_nat (br_id r) @ '':'' @ what"

definition file_culprit :: "batch_reading \<Rightarrow> int \<Rightarrow> batch_run \<Rightarrow> batch_verdict \<Rightarrow> culprit
    \<Rightarrow> batch_state \<times> batch_did list \<times> bool \<Rightarrow> batch_state \<times> batch_did list \<times> bool" where
  "file_culprit rd now r v c = (\<lambda>(st, did, done_so).
     (let key = run_key r (cu_sha c)
      in if map_of (mb_filed st) key \<noteq> None then (st, did, done_so)
         else
           (let linked = linkedTo rd c st
            in case file_one rd now r v key (CulpritDraft c) st of
                 (st1, d1, None) \<Rightarrow> (st1, did @ d1, False)
               | (st1, d1, Some (wid, again)) \<Rightarrow>
                   if again then (st1, did @ d1, done_so)
                   else (tell_all linked r v c wid st1, did @ d1 @ map (\<lambda>i. ToldWork i (tell_mark r c)) linked, done_so))))"

definition file_run :: "batch_reading \<Rightarrow> int \<Rightarrow> batch_run \<Rightarrow> batch_verdict \<Rightarrow> batch_state \<Rightarrow> batch_state \<times> batch_did list \<times> bool" where
  "file_run rd now r v st =
     (let (st1, d1, c1) =
            (if bv_verdict v = NoResults then
               (case file_one rd now r v (run_key r ''no-results'') NoResultsDraft st of (st1, d1, a) \<Rightarrow> (st1, d1, a \<noteq> None))
             else if bv_culprits v = [] then
               (case file_one rd now r v (run_key r ''unbisected'') UnbisectedDraft st of (st1, d1, a) \<Rightarrow> (st1, d1, a \<noteq> None))
             else (st, [], True))
      in fold (file_culprit rd now r v) (bv_culprits v) (st1, d1, c1))"

section \<open>A look\<close>

definition is_finished :: "batch_run \<Rightarrow> bool" where
  "is_finished r = (br_status r = ''completed'')"

definition later_green :: "batch_run list \<Rightarrow> string list \<Rightarrow> batch_run \<Rightarrow> bool" where
  "later_green finished skipped r =
     list_ex (\<lambda>g. br_conclusion g = Some ''success'' \<and> show_nat (br_id g) \<notin> set skipped \<and> br_createdAt r < br_createdAt g) finished"

text \<open>The first pass over a fresh run: whether its log could be read, and its verdict.\<close>

datatype first_read = Unread | Read "batch_verdict option"

definition read_fresh :: "batch_reading \<Rightarrow> int \<Rightarrow> batch_run \<Rightarrow> batch_state \<times> batch_did list \<times> (batch_run \<times> first_read) list
    \<Rightarrow> batch_state \<times> batch_did list \<times> (batch_run \<times> first_read) list" where
  "read_fresh rd now r = (\<lambda>(st, did, looks).
     (if MAX_AGE_MS < now - br_updatedAt r then (markSeen r st, did @ [TooOld (br_id r)], looks)
      else if br_conclusion r \<noteq> Some ''success'' \<and> br_conclusion r \<noteq> Some ''failure'' then (markSeen r st, did, looks)
      else
        (case rd_log rd (br_id r) of
           LogFailed \<Rightarrow> (st, did, looks @ [(r, Unread)])
         | JobSkipped \<Rightarrow>
             (save (markSeen r (if show_nat (br_id r) \<in> set (mb_skipped st) then st
                                else st\<lparr>mb_skipped := mb_skipped st @ [show_nat (br_id r)]\<rparr>)),
              did @ [JobWasSkipped (br_id r)], looks)
         | NoJob \<Rightarrow> (st, did, looks @ [(r, Read None)])
         | JobLog t \<Rightarrow> (st, did, looks @ [(r, Read (rd_verdict rd t))]))))"

definition act_one :: "batch_reading \<Rightarrow> int \<Rightarrow> batch_run list \<Rightarrow> batch_run \<times> first_read \<Rightarrow> batch_state \<times> batch_did list \<Rightarrow> batch_state \<times> batch_did list" where
  "act_one rd now finished = (\<lambda>(r, f) (st, did).
     (case f of
        Read vo \<Rightarrow>
          if br_conclusion r = Some ''success'' then
            (save (markSeen r st),
             did @ (case vo of Some v \<Rightarrow> if bv_verdict v = Flaky \<or> bv_flaky v \<noteq> [] then [FlakyRun (br_id r)] else [] | None \<Rightarrow> []))
          else
            (case vo of
               None \<Rightarrow> (save (markSeen r st), did)
             | Some v \<Rightarrow>
                 if bv_verdict v \<noteq> Red \<and> bv_verdict v \<noteq> NoResults then
                   (save (markSeen r st), did @ [NothingFiled (br_id r) (bv_verdict v)])
                 else if later_green finished (mb_skipped st) r then (save (markSeen r st), did @ [Superseded (br_id r)])
                 else
                   (case file_run rd now r v st of
                      (st1, d1, done_so) \<Rightarrow> (save (if done_so then markSeen r st1 else st1), did @ d1)))
      | _ \<Rightarrow> (st, did)))"

definition by_created :: "batch_run \<Rightarrow> batch_run \<Rightarrow> int" where
  "by_created a b = cmp_or (cmp_num (br_createdAt a) (br_createdAt b)) (cmp_num (br_id a) (br_id b))"

definition fresh_runs :: "batch_run list \<Rightarrow> batch_state \<Rightarrow> batch_run list" where
  "fresh_runs finished st = js_sort by_created (filter (\<lambda>r. \<not> run_seen st r) finished)"

definition batch_look :: "batch_reading \<Rightarrow> int \<Rightarrow> batch_state \<Rightarrow> batch_state \<times> batch_did list" where
  "batch_look rd now st =
     (if \<not> bs_enabled (rd_settings rd) then
        (if mb_baselined st then (save (st\<lparr>mb_baselined := False\<rparr>), []) else (st, []))
      else
        (case rd_runs rd of
           None \<Rightarrow> (st, [])
         | Some runs \<Rightarrow>
             (let finished = filter is_finished runs
              in if \<not> mb_baselined st then
                   (save ((fold markSeen finished st)\<lparr>mb_baselined := True\<rparr>), [Recorded (length finished)])
                 else
                   (case fold (read_fresh rd now) (fresh_runs finished st) (st, [], []) of
                      (st1, did1, looks) \<Rightarrow> fold (act_one rd now finished) looks (st1, did1)))))"

end
