(* ===== verification/MasterBatchProps.thy ===== *)
theory MasterBatchProps
  imports MasterBatch IntakeProps "HOL-Library.Sublist"
begin

text \<open>
  What the master batch watch promises: a parsed verdict is well formed, a request is filed only for a fresh red
  run no later green one covers, the day's caps hold over any sequence of looks, and one merge has one open
  request. The ledger laws are stated as a locale over what the watch does to the ledger and interpreted for
  each law.
\<close>

section \<open>A verdict is well formed\<close>

definition tests_ok :: "nat \<Rightarrow> string list \<Rightarrow> bool" where
  "tests_ok keep ts = (length ts \<le> keep \<and> distinct ts \<and> list_all (\<lambda>t. t \<noteq> [] \<and> length t \<le> 300) ts)"

definition culprit_ok :: "culprit \<Rightarrow> bool" where
  "culprit_ok c =
     (is_sha40 (cu_sha c) \<and> (case cu_pr c of Some n \<Rightarrow> 0 < n \<and> n < 1000000000 | None \<Rightarrow> True)
      \<and> length (cu_subject c) \<le> 200 \<and> length (cu_title c) \<le> 200 \<and> tests_ok 50 (cu_tests c))"

definition verdict_ok :: "batch_verdict \<Rightarrow> bool" where
  "verdict_ok v =
     (is_sha40 (bv_tip v) \<and> length (bv_ref v) \<le> 40 \<and> length (bv_run v) \<le> 20 \<and> list_all is_digit (bv_run v)
      \<and> 0 \<le> bv_failed v \<and> bv_failed v \<le> 1000000
      \<and> length (bv_culprits v) \<le> 20 \<and> list_all culprit_ok (bv_culprits v)
      \<and> tests_ok 100 (bv_flaky v) \<and> tests_ok 100 (bv_unresolved v)
      \<and> (case bv_note v of Some n \<Rightarrow> n \<noteq> [] \<and> length n \<le> 300 | None \<Rightarrow> True))"

lemma cleanLine_length [simp]: "length (cleanLine redact s n) \<le> n"
  by (simp add: cleanLine_def)

lemma line_in_length [simp]: "length (line_in redact v n) \<le> n"
  by (simp add: line_in_def split: option.splits)

lemma test_names_ok: "tests_ok keep (test_names redact v keep)"
  by (auto simp: tests_ok_def test_names_def list_all_iff dest!: in_set_takeD)

lemma sha40_ok: "sha40 v = Some s \<Longrightarrow> is_sha40 s"
  by (auto simp: sha40_def split: js.splits if_splits)

lemma read_culprit_ok: "read_culprit redact c = Some d \<Longrightarrow> culprit_ok d"
  by (auto simp: read_culprit_def culprit_ok_def KEEP_TESTS_def test_names_ok dest: sha40_ok split: option.splits if_splits)

lemma map_filter_length: "length (List.map_filter f xs) \<le> length xs"
  by (induction xs) (auto simp: map_filter_simps split: option.splits)

lemma run_text_ok: "length (run_text v) \<le> 20 \<and> list_all is_digit (run_text v)"
  by (auto simp: run_text_def Let_def)

lemma read_verdict_ok: "read_verdict redact body = Some v \<Longrightarrow> verdict_ok v"
proof -
  assume a: "read_verdict redact body = Some v"
  have "length (List.map_filter f (take 20 xs)) \<le> 20" for f :: "js \<Rightarrow> culprit option" and xs
    using map_filter_length [of f "take 20 xs"] by simp
  note facts = this run_text_ok [THEN conjunct1] run_text_ok [THEN conjunct2] test_names_ok line_in_length
  have cs: "list_all culprit_ok (List.map_filter (read_culprit redact) xs)" for xs
    by (auto simp: list_all_iff map_filter_def dest: read_culprit_ok)
  obtain w tip where "verdict_in (field body ''verdict'') = Some w" and tip: "sha40 (field body ''tip'') = Some tip"
    using a unfolding read_verdict_def by (cases "verdict_in (field body ''verdict'')"; cases "sha40 (field body ''tip'')") (auto split: if_splits)
  then have v: "bv_tip v = tip" "bv_ref v = line_in redact (field body ''ref'') 40" "bv_run v = run_text (field body ''run'')"
    "bv_failed v = (case js_whole (field body ''failed'') of Some n \<Rightarrow> min (int n) 1000000 | None \<Rightarrow> 0)"
    "bv_culprits v = List.map_filter (read_culprit redact) (take 20 (js_items (field body ''culprits'')))"
    "bv_flaky v = test_names redact (field body ''flaky'') 100" "bv_unresolved v = test_names redact (field body ''unresolved'') 100"
    "bv_note v = (if line_in redact (field body ''note'') 300 = [] then None else Some (line_in redact (field body ''note'') 300))"
    using a unfolding read_verdict_def Let_def KEEP_LIST_def by (auto split: if_splits)
  have "0 \<le> bv_failed v \<and> bv_failed v \<le> 1000000" unfolding v by (simp split: option.split)
  moreover have "case bv_note v of Some n \<Rightarrow> n \<noteq> [] \<and> length n \<le> 300 | None \<Rightarrow> True" unfolding v by simp
  ultimately show ?thesis unfolding verdict_ok_def using sha40_ok [OF tip] by (simp add: v(1-3,5-7) facts cs)
qed

text \<open>
  A parsed verdict is well formed (server/masterBatch.ts, parseVerdict): whatever the log and whatever
  \<open>JSON.parse\<close> and the redaction give, the tip and each culprit are 40 lower-case hex digits, a pull request
  number is in range, every name and line is clipped, no list is longer than is kept or names a test twice.
\<close>

theorem parsed_verdict_ok: "parseVerdict redact json log' = Some v \<Longrightarrow> verdict_ok v"
  by (auto simp: parseVerdict_def dest: read_verdict_ok split: option.splits)

definition sample_verdict :: js where
  "sample_verdict =
     JObj [(''version'', JNum 1), (''tip'', JStr (replicate 40 (CHR ''A''))), (''verdict'', JStr ''red''), (''failed'', JNum 2),
           (''culprits'', JArr [JObj [(''sha'', JStr (replicate 40 (CHR ''b''))), (''pr'', JNum 12), (''tests'', JArr [JStr ''T1'', JStr ''T1''])]])]"

theorem parsed_verdict_ok_witness:
  "\<exists>v. parseVerdict (\<lambda>s. s) (\<lambda>t. if t = ''{}'' then Some sample_verdict else None) (''first'' @ [newline] @ ''MASTER_BATCH_VERDICT {}'') = Some v
     \<and> length (bv_culprits v) = 1 \<and> verdict_ok v"
proof -
  let ?p = "parseVerdict (\<lambda>s. s) (\<lambda>t. if t = ''{}'' then Some sample_verdict else None) (''first'' @ [newline] @ ''MASTER_BATCH_VERDICT {}'')"
  have line: "verdict_line ''MASTER_BATCH_VERDICT {}'' = Some ''{}''" "verdict_line ''first'' = None"
    by (simp_all add: verdict_line_def strip_stamp_def MAX_LINE_def code_def)
  have "last_some verdict_line (split_on newline (''first'' @ [newline] @ ''MASTER_BATCH_VERDICT {}'')) = Some ''{}''"
    using line by (simp add: newline_def)
  then have "?p = read_verdict (\<lambda>s. s) sample_verdict" by (simp add: parseVerdict_def)
  moreover have "sha40 (JStr (replicate 40 (CHR ''A''))) \<noteq> None" "sha40 (JStr (replicate 40 (CHR ''b''))) \<noteq> None" by code_simp+
  ultimately have "map_option (\<lambda>v. length (bv_culprits v)) ?p = Some 1"
    by (auto simp: read_verdict_def sample_verdict_def verdict_in_def js_items_def map_filter_simps read_culprit_def Let_def)
  then obtain v where "?p = Some v" "length (bv_culprits v) = 1" by auto
  with parsed_verdict_ok [OF this(1)] show ?thesis by blast
qed

section \<open>What the watch does to the ledger\<close>

text \<open>
  A law of the ledger at a time that filing and telling keep, with the rule's daily count at most \<open>M\<close>. The
  watch's look keeps it, since it reaches the ledger by these two only.
\<close>

locale ledger_law =
  fixes ok :: "int \<Rightarrow> ledger \<Rightarrow> bool" and M :: int
  assumes kept_by_file: "ok now lg \<Longrightarrow> bs_maxPerDay s \<le> M \<Longrightarrow> ok now (fst (file_intake now s inFlight key lg))"
    and kept_by_tell: "ok now lg \<Longrightarrow> ok now (tell_work wid mark line lg)"
begin

lemma kept_by_tell_all: "ok now (mb_ledger st) \<Longrightarrow> ok now (mb_ledger (tell_all linked r v c f st))"
proof -
  have "ok now (fold (\<lambda>i. tell_work i (tell_mark r c) (tell_line r v c f)) is lg)" if "ok now lg" for "is" lg
    using that by (induction "is" arbitrary: lg) (simp_all add: kept_by_tell)
  then show "ok now (mb_ledger st) \<Longrightarrow> ?thesis" by (simp add: tell_all_def)
qed

lemma kept_by_file_one:
  assumes "ok now (mb_ledger st)" "bs_maxPerDay (rd_settings rd) \<le> M"
  shows "ok now (mb_ledger (fst (file_one rd now r v key d st)))"
  using assms kept_by_file [OF assms, of "rd_inFlight rd" "batch_key r v d"]
  by (cases "file_intake now (rd_settings rd) (rd_inFlight rd) (batch_key r v d) (mb_ledger st)")
    (auto simp: file_one_def save_def split: option.splits intake_answer.splits)

lemma kept_by_culprit:
  assumes "ok now (mb_ledger st)" "bs_maxPerDay (rd_settings rd) \<le> M"
  shows "ok now (mb_ledger (fst (file_culprit rd now r v c (st, did, b))))"
  using assms(1) kept_by_file_one [OF assms, of r v "run_key r (cu_sha c)" "CulpritDraft c"]
  by (auto simp: file_culprit_def Let_def kept_by_tell_all split: prod.splits option.splits)

lemma kept_by_culprits:
  assumes "bs_maxPerDay (rd_settings rd) \<le> M"
  shows "ok now (mb_ledger (fst x)) \<Longrightarrow> ok now (mb_ledger (fst (fold (file_culprit rd now r v) cs x)))"
proof (induction cs arbitrary: x)
  case (Cons c cs)
  obtain st did b where x: "x = (st, did, b)" by (cases x)
  show ?case using Cons.IH [OF kept_by_culprit [OF _ assms, of now st]] Cons.prems by (simp add: x)
qed simp

lemma kept_by_run:
  assumes "ok now (mb_ledger st)" "bs_maxPerDay (rd_settings rd) \<le> M"
  shows "ok now (mb_ledger (fst (file_run rd now r v st)))"
  unfolding file_run_def Let_def
  using assms(1) kept_by_file_one [OF assms, of r v]
  by (auto split: prod.splits intro!: kept_by_culprits [OF assms(2)] dest!: arg_cong [where f = fst])

lemma kept_by_look:
  assumes "ok now (mb_ledger st)" "bs_maxPerDay (rd_settings rd) \<le> M"
  shows "ok now (mb_ledger (fst (batch_look rd now st)))"
proof -
  have marks: "mb_ledger (fold markSeen rs st) = mb_ledger st" for rs
    by (induction rs arbitrary: st) (simp_all add: markSeen_def)
  have reads: "mb_ledger (fst (fold (read_fresh rd now) rs x)) = mb_ledger (fst x)" for rs x
    by (induction rs arbitrary: x) (auto simp: read_fresh_def markSeen_def save_def split: job_log.splits)
  have "ok now (mb_ledger (fst (act_one rd now fin (r, f) (st, did))))" if "ok now (mb_ledger st)" for fin r f st did
    using that kept_by_run [OF that assms(2), of r]
    by (auto simp: act_one_def markSeen_def save_def split: first_read.splits option.splits prod.splits dest!: arg_cong [where f = fst])
  then have acts: "ok now (mb_ledger (fst (fold (act_one rd now fin) ls x)))" if "ok now (mb_ledger (fst x))" for fin ls x
    using that by (intro fold_invariant [where P = "\<lambda>x. ok now (mb_ledger (fst x))" and Q = "\<lambda>_. True"]) auto
  show ?thesis
    using assms(1) reads [of _ "(st, [], [])"] acts
    by (auto simp: batch_look_def Let_def save_def marks split: option.splits prod.splits dest!: arg_cong [where f = fst])
qed

end

lemma repeat_None:
  "intake_repeat lg key = None \<longleftrightarrow> (\<forall>w \<in> set (lg_work lg). it_kind w = Some MASTER_BATCH \<and> bw_open w \<longrightarrow> key \<notin> set (bw_keys w))"
  by (auto simp: intake_repeat_def find_None_iff)

text \<open>What \<open>fileIntake\<close> leaves of the ledger: nothing new, or one open request under the key.\<close>

lemma file_intake_cases:
  obtains "fst (file_intake now s inFlight key lg) = lg"
  | w where "fst (file_intake now s inFlight key lg) = \<lparr>lg_seq = lg_seq lg + 1, lg_work = lg_work lg @ [w]\<rparr>"
      "intake_repeat lg key = None" "capProblem (lg_work lg) [MASTER_BATCH] DAILY_CAP now = None"
      "it_kind w = Some MASTER_BATCH" "it_createdAt w = now" "bw_keys w = [key]"
      "it_approvedBy w = Some ''auto'' \<Longrightarrow>
         \<exists>o'. autoApproveProblem (lg_work lg) \<lparr>ar_enabled = bs_autoEnabled s, ar_maxPerDay = bs_maxPerDay s, ar_allowed = True\<rparr>
                [MASTER_BATCH] now o' (\<lambda>_. True) = None"
proof -
  show thesis
  proof (cases "intake_repeat lg key")
    case (Some w)
    then show thesis using that(1) by (simp add: file_intake_def Let_def)
  next
    case None
    show thesis
    proof (cases "capProblem (lg_work lg) [MASTER_BATCH] DAILY_CAP now")
      case (Some p)
      then show thesis using that(1) None by (simp add: file_intake_def Let_def)
    next
      case cap: None
      show thesis
        by (rule that(2)) (auto simp: file_intake_def Let_def None cap split: if_splits)
    qed
  qed
qed

section \<open>The day's caps\<close>

abbreviation batch_filed :: "ledger \<Rightarrow> int \<Rightarrow> batch_work list" where
  "batch_filed lg now \<equiv> filedToday (lg_work lg) [MASTER_BATCH] now"

definition is_auto :: "batch_work \<Rightarrow> bool" where
  "is_auto w = (it_approvedBy w = Some ''auto'')"

definition caps_ok :: "int \<Rightarrow> int \<Rightarrow> ledger \<Rightarrow> bool" where
  "caps_ok M now lg = (length (batch_filed lg now) \<le> 20 \<and> int (length (filter is_auto (batch_filed lg now))) \<le> M)"

lemma caps_later: "caps_ok M now lg \<Longrightarrow> now \<le> later \<Longrightarrow> caps_ok M later lg"
  using filedToday_later [of now later "\<lambda>_. True" "lg_work lg" "[MASTER_BATCH]"]
    filedToday_later [of now later is_auto "lg_work lg" "[MASTER_BATCH]"]
  by (simp add: caps_ok_def)

lemma caps_kept_by_file:
  assumes "caps_ok M now lg" "bs_maxPerDay s \<le> M"
  shows "caps_ok M now (fst (file_intake now s inFlight key lg))"
proof (cases rule: file_intake_cases [of now s inFlight key lg])
  case 1
  then show ?thesis using assms(1) by simp
next
  case (2 w)
  have all: "length (batch_filed lg now) < 20"
    using 2(3) by (auto simp: capProblem_def DAILY_CAP_def split: if_splits)
  have "int (length (filter is_auto (batch_filed lg now))) < M" if "is_auto w"
    using 2(7) that assms(2) by (auto simp: is_auto_def [abs_def] autoApproveProblem_def split: if_splits)
  then show ?thesis using all assms(1) by (auto simp: 2(1) caps_ok_def filedToday_def)
qed

lemma tell_work_filed:
  "length (filter P (batch_filed (tell_work wid mark line lg) now)) = length (filter P (batch_filed lg now))"
  if "\<And>w l. P (w\<lparr>bw_log := l\<rparr>) = P w"
proof -
  have "length (filter P (filedToday (map f ws) ks now)) = length (filter P (filedToday ws ks now))"
    if "\<And>w. P (f w) = P w" "\<And>w. it_kind (f w) = it_kind w" "\<And>w. it_createdAt (f w) = it_createdAt w" for f ws ks
    using that by (induction ws) (auto simp: filedToday_def inDay_def)
  then show ?thesis using that by (simp add: tell_work_def)
qed

interpretation caps: ledger_law "caps_ok M" M for M
proof
  fix now lg inFlight key and s :: batch_settings
  assume "caps_ok M now lg" "bs_maxPerDay s \<le> M"
  then show "caps_ok M now (fst (file_intake now s inFlight key lg))" by (rule caps_kept_by_file)
next
  fix now lg wid mark line
  assume "caps_ok M now lg"
  then show "caps_ok M now (tell_work wid mark line lg)"
    using tell_work_filed [of is_auto wid mark line lg now] tell_work_filed [of "\<lambda>_. True" wid mark line lg now]
    by (simp add: caps_ok_def is_auto_def)
qed

section \<open>One open request for a key\<close>

definition one_open :: "ledger \<Rightarrow> bool" where
  "one_open lg =
     distinct (concat (map bw_keys (filter (\<lambda>w. it_kind w = Some MASTER_BATCH \<and> bw_open w) (lg_work lg))))"

interpretation keys: ledger_law "\<lambda>_. one_open" M for M
proof
  fix now lg inFlight key and s :: batch_settings
  assume a: "one_open lg"
  show "one_open (fst (file_intake now s inFlight key lg))"
  proof (cases rule: file_intake_cases [of now s inFlight key lg])
    case (2 w)
    then show ?thesis using a unfolding one_open_def by (auto simp: repeat_None)
  qed (use a in simp)
next
  fix lg wid mark line
  assume "one_open lg"
  moreover have "map bw_keys (filter (\<lambda>w. it_kind w = Some MASTER_BATCH \<and> bw_open w) (lg_work (tell_work wid mark line lg)))
      = map bw_keys (filter (\<lambda>w. it_kind w = Some MASTER_BATCH \<and> bw_open w) (lg_work lg))"
    by (simp add: tell_work_def filter_map comp_def if_distrib cong: filter_cong)
      (auto intro!: arg_cong2 [where f = map] filter_cong)
  ultimately show "one_open (tell_work wid mark line lg)" by (simp add: one_open_def)
qed

section \<open>Looks in order, and what others do to the ledger between them\<close>

datatype elsewhere = Closes string | Drops string | Files batch_work

definition ledger_elsewhere :: "elsewhere \<Rightarrow> ledger \<Rightarrow> ledger" where
  "ledger_elsewhere e lg =
     (case e of
        Closes i \<Rightarrow> lg\<lparr>lg_work := map (\<lambda>w. if it_id w = i then w\<lparr>bw_open := False\<rparr> else w) (lg_work lg)\<rparr>
      | Drops i \<Rightarrow> lg\<lparr>lg_work := filter (\<lambda>w. it_id w \<noteq> i) (lg_work lg)\<rparr>
      | Files w \<Rightarrow>
          if it_kind w = Some MASTER_BATCH then lg else lg\<lparr>lg_seq := lg_seq lg + 1, lg_work := lg_work lg @ [w]\<rparr>)"

inductive batch_reach :: "int \<Rightarrow> int \<Rightarrow> batch_state \<Rightarrow> bool" for M where
  start: "lg_work (mb_ledger st) = [] \<Longrightarrow> batch_reach M now st"
| look: "batch_reach M before st \<Longrightarrow> before \<le> now \<Longrightarrow> bs_maxPerDay (rd_settings rd) \<le> M \<Longrightarrow>
    batch_reach M now (fst (batch_look rd now st))"
| other: "batch_reach M now st \<Longrightarrow> batch_reach M now (st\<lparr>mb_ledger := ledger_elsewhere e (mb_ledger st)\<rparr>)"

lemma elsewhere_laws:
  "caps_ok M now lg \<Longrightarrow> caps_ok M now (ledger_elsewhere e lg)"
  "one_open lg \<Longrightarrow> one_open (ledger_elsewhere e lg)"
proof -
  have len: "length (filter P (filedToday (filter Q ws) ks now)) \<le> length (filter P (filedToday ws ks now))" for P Q ks and ws :: "batch_work list"
    by (induction ws) (auto simp: filedToday_def)
  have map_len: "length (filter P (filedToday (map f ws) ks now)) = length (filter P (filedToday ws ks now))"
    if "\<And>w. P (f w) = P w" "\<And>w. it_kind (f w) = it_kind w" "\<And>w. it_createdAt (f w) = it_createdAt w" for P f ks and ws :: "batch_work list"
    using that by (induction ws) (auto simp: filedToday_def inDay_def)
  show "caps_ok M now (ledger_elsewhere e lg)" if "caps_ok M now lg"
  proof (cases e)
    case (Closes i)
    let ?f = "\<lambda>w. if it_id w = i then w\<lparr>bw_open := False\<rparr> else w"
    show ?thesis
      using that map_len [of is_auto ?f "lg_work lg" "[MASTER_BATCH]"] map_len [of "\<lambda>_. True" ?f "lg_work lg" "[MASTER_BATCH]"]
      by (simp add: Closes ledger_elsewhere_def caps_ok_def is_auto_def)
  next
    case (Drops i)
    show ?thesis
      using that len [of is_auto "\<lambda>w. it_id w \<noteq> i" "lg_work lg" "[MASTER_BATCH]"]
        len [of "\<lambda>_. True" "\<lambda>w. it_id w \<noteq> i" "lg_work lg" "[MASTER_BATCH]"]
      by (simp add: Drops ledger_elsewhere_def caps_ok_def)
  next
    case (Files w)
    have "batch_filed (lg\<lparr>lg_seq := lg_seq lg + 1, lg_work := lg_work lg @ [w]\<rparr>) now = batch_filed lg now" if "it_kind w \<noteq> Some MASTER_BATCH"
      using that by (auto simp: filedToday_def split: option.splits)
    then show ?thesis using that by (auto simp: Files ledger_elsewhere_def caps_ok_def)
  qed
  let ?keys = "\<lambda>ws. concat (map bw_keys (filter (\<lambda>w. it_kind w = Some MASTER_BATCH \<and> bw_open w) ws))"
  have closed: "subseq (?keys (map (\<lambda>w. if it_id w = i then w\<lparr>bw_open := False\<rparr> else w) ws)) (?keys ws)" for i ws
    by (induction ws) (auto intro: list_emb_append_mono [OF subseq_order.order_refl] list_emb_append2)
  have dropped: "subseq (?keys (filter (\<lambda>w. it_id w \<noteq> i) ws)) (?keys ws)" for i ws
    by (induction ws) (auto intro: list_emb_append_mono [OF subseq_order.order_refl] list_emb_append2)
  have sub: "distinct ys \<Longrightarrow> subseq xs ys \<Longrightarrow> distinct xs" for xs ys :: "string list"
    by (metis subseq_conv_nths distinct_nthsI)
  show "one_open (ledger_elsewhere e lg)" if "one_open lg"
    using that sub [OF _ closed] sub [OF _ dropped] by (cases e) (auto simp: ledger_elsewhere_def one_open_def)
qed

lemma reach_laws: "batch_reach M now st \<Longrightarrow> 0 \<le> M \<Longrightarrow> caps_ok M now (mb_ledger st) \<and> one_open (mb_ledger st)"
proof (induction rule: batch_reach.induct)
  case (start st now)
  then show ?case by (simp add: caps_ok_def one_open_def filedToday_def)
next
  case (look before st now rd)
  then show ?case using caps_later caps.kept_by_look keys.kept_by_look by blast
qed (simp add: elsewhere_laws)

text \<open>
  However often the watch looks and whatever else happens to the ledger (server/masterBatch.ts, fileOne,
  with fileIntake, capProblem and autoApproveProblem): no more than 20 master batch requests are filed in any
  24 hours, no more of them are approved at once than the rule's daily count, and a merge, a tip or a run
  has one open request at a time.
\<close>

theorem batch_requests_bounded:
  assumes "batch_reach M now st" "0 \<le> M" "now \<le> later"
  shows "length (batch_filed (mb_ledger st) later) \<le> 20
    \<and> int (length (filter (\<lambda>w. it_approvedBy w = Some ''auto'') (batch_filed (mb_ledger st) later))) \<le> M
    \<and> distinct (concat (map bw_keys (filter (\<lambda>w. it_kind w = Some MASTER_BATCH \<and> bw_open w) (lg_work (mb_ledger st)))))"
  using reach_laws [OF assms(1,2)] caps_later [OF _ assms(3), of M "mb_ledger st"]
  by (simp add: caps_ok_def one_open_def is_auto_def [abs_def])

section \<open>What a look files\<close>

definition red_run :: "batch_reading \<Rightarrow> int \<Rightarrow> batch_state \<Rightarrow> batch_run list \<Rightarrow> batch_run \<Rightarrow> bool" where
  "red_run rd now st runs r =
     (is_finished r \<and> \<not> run_seen st r \<and> now - br_updatedAt r \<le> 48 * 3600000 \<and> br_conclusion r = Some ''failure''
      \<and> (\<exists>t v. rd_log rd (br_id r) = JobLog t \<and> rd_verdict rd t = Some v \<and> bv_verdict v \<in> {Red, NoResults})
      \<and> (\<forall>g \<in> set runs. is_finished g \<and> br_conclusion g = Some ''success'' \<and> br_createdAt r < br_createdAt g \<longrightarrow>
            show_nat (br_id g) \<in> set (mb_skipped st) \<or> rd_log rd (br_id g) = JobSkipped))"

definition filed_for :: "batch_run \<Rightarrow> batch_did list \<Rightarrow> bool" where
  "filed_for r did = (\<forall>wid key t. FiledWork wid key t \<in> set did \<or> AddedTo wid key t \<in> set did \<longrightarrow> has_prefix (show_nat (br_id r) @ '':'') key)"

lemma run_key_prefix: "has_prefix (show_nat (br_id r) @ '':'') (run_key r what)"
  by (auto simp: run_key_def has_prefix_iff)

lemma file_one_did: "filed_for r (fst (snd (file_one rd now r v (run_key r what) d st)))"
  by (auto simp: file_one_def filed_for_def run_key_prefix split: option.splits prod.splits intake_answer.splits)

lemma keep_last_subset: "x \<in> set (keep_last n xs) \<Longrightarrow> x \<in> set xs"
  by (auto simp: keep_last_def dest: in_set_dropD)

lemma file_one_skipped: "x \<in> set (mb_skipped (fst (file_one rd now r v key d st))) \<Longrightarrow> x \<in> set (mb_skipped st)"
  by (auto simp: file_one_def save_def dest: keep_last_subset split: option.splits prod.splits intake_answer.splits)

lemma file_culprit_did:
  assumes "filed_for r did"
  shows "filed_for r (fst (snd (file_culprit rd now r v c (st, did, b))))"
    "x \<in> set (mb_skipped (fst (file_culprit rd now r v c (st, did, b)))) \<Longrightarrow> x \<in> set (mb_skipped st)"
  using assms file_one_did [of r rd now v "cu_sha c" "CulpritDraft c" st] file_one_skipped [of x rd now r v "run_key r (cu_sha c)" "CulpritDraft c" st]
  by (auto simp: file_culprit_def Let_def filed_for_def tell_all_def split: prod.splits option.splits if_splits)

lemma file_run_did:
  "filed_for r (fst (snd (file_run rd now r v st))) \<and> (\<forall>x \<in> set (mb_skipped (fst (file_run rd now r v st))). x \<in> set (mb_skipped st))"
proof -
  let ?P = "\<lambda>x. filed_for r (fst (snd x)) \<and> (\<forall>y \<in> set (mb_skipped (fst x)). y \<in> set (mb_skipped st))"
  have fold_ok: "?P (fold (file_culprit rd now r v) cs x)" if "?P x" for cs x
  proof (rule fold_invariant [where Q = "\<lambda>_. True" and P = ?P])
    show "?P (file_culprit rd now r v c x)" if "?P x" for c x
    proof (cases x)
      case (fields s did b)
      show ?thesis using that file_culprit_did(1) [of r did rd now v c s b] file_culprit_did(2) [of r did _ rd now v c s b] unfolding fields fst_conv snd_conv by blast
    qed
  qed (use that in simp_all)
  have one: "?P (s1, d1, b)" if "file_one rd now r v (run_key r what) d st = (s1, d1, a)" for what d s1 d1 a b
    using file_one_did [of r rd now v what d st] file_one_skipped [of _ rd now r v "run_key r what" d st] that by simp
  define x where "x = (if bv_verdict v = NoResults then
               (case file_one rd now r v (run_key r ''no-results'') NoResultsDraft st of (st1, d1, a) \<Rightarrow> (st1, d1, a \<noteq> None))
             else if bv_culprits v = [] then
               (case file_one rd now r v (run_key r ''unbisected'') UnbisectedDraft st of (st1, d1, a) \<Rightarrow> (st1, d1, a \<noteq> None))
             else (st, [], True))"
  have start: "?P x"
    unfolding x_def using one [of "''no-results''" NoResultsDraft] one [of "''unbisected''" UnbisectedDraft]
    by (simp add: filed_for_def split: prod.splits)
  have "file_run rd now r v st = fold (file_culprit rd now r v) (bv_culprits v) x"
    by (cases x) (simp add: file_run_def x_def)
  then show ?thesis using fold_ok [OF start] by simp
qed

definition skips_known :: "batch_reading \<Rightarrow> batch_state \<Rightarrow> batch_state \<Rightarrow> bool" where
  "skips_known rd st s = (\<forall>i. show_nat i \<in> set (mb_skipped s) \<longrightarrow> show_nat i \<in> set (mb_skipped st) \<or> rd_log rd i = JobSkipped)"

definition none_filed :: "batch_did list \<Rightarrow> bool" where
  "none_filed did = (\<forall>wid key t. FiledWork wid key t \<notin> set did \<and> AddedTo wid key t \<notin> set did)"

definition look_ok :: "batch_reading \<Rightarrow> int \<Rightarrow> batch_state \<Rightarrow> batch_run list \<Rightarrow> batch_run \<times> first_read \<Rightarrow> bool" where
  "look_ok rd now st runs l =
     (fst l \<in> set runs \<and> is_finished (fst l) \<and> \<not> run_seen st (fst l) \<and> now - br_updatedAt (fst l) \<le> 48 * 3600000
      \<and> br_conclusion (fst l) \<in> {Some ''success'', Some ''failure''}
      \<and> (\<forall>v. snd l = Read (Some v) \<longrightarrow> (\<exists>t. rd_log rd (br_id (fst l)) = JobLog t \<and> rd_verdict rd t = Some v)))"

lemma reads_ok:
  assumes "fold (read_fresh rd now) (fresh_runs (filter is_finished runs) st) (st, [], []) = (st1, did1, looks)"
  shows "skips_known rd st st1 \<and> none_filed did1 \<and> (\<forall>l \<in> set looks. look_ok rd now st runs l)"
proof -
  let ?P = "\<lambda>(s, did, ls). skips_known rd st s \<and> none_filed did \<and> (\<forall>l \<in> set ls. look_ok rd now st runs l)"
  have "?P (fold (read_fresh rd now) (fresh_runs (filter is_finished runs) st) (st, [], []))"
  proof (rule fold_invariant [where Q = "\<lambda>r. r \<in> set runs \<and> is_finished r \<and> \<not> run_seen st r" and P = ?P])
    show "r \<in> set (fresh_runs (filter is_finished runs) st) \<Longrightarrow> r \<in> set runs \<and> is_finished r \<and> \<not> run_seen st r" for r
      by (simp add: fresh_runs_def)
    show "?P (st, [], [])" by (simp add: skips_known_def none_filed_def)
    show "?P (read_fresh rd now r x)" if "r \<in> set runs \<and> is_finished r \<and> \<not> run_seen st r" "?P x" for r x
      using that
      by (cases x; cases "rd_log rd (br_id r)")
        (auto simp: read_fresh_def skips_known_def none_filed_def look_ok_def markSeen_def save_def MAX_AGE_MS_def dest!: keep_last_subset)
  qed
  then show ?thesis using assms by simp
qed

lemma later_green_known:
  assumes "skips_known rd st s" "\<not> later_green (filter is_finished runs) (mb_skipped s) r" "g \<in> set runs" "is_finished g"
    "br_conclusion g = Some ''success''" "br_createdAt r < br_createdAt g"
  shows "show_nat (br_id g) \<in> set (mb_skipped st) \<or> rd_log rd (br_id g) = JobSkipped"
  using assms unfolding later_green_def skips_known_def by (auto simp: list_ex_iff)

definition filed_red :: "batch_reading \<Rightarrow> int \<Rightarrow> batch_state \<Rightarrow> batch_run list \<Rightarrow> string \<Rightarrow> bool" where
  "filed_red rd now st runs key = (\<exists>r \<in> set runs. red_run rd now st runs r \<and> has_prefix (show_nat (br_id r) @ '':'') key)"

definition all_filed_red :: "batch_reading \<Rightarrow> int \<Rightarrow> batch_state \<Rightarrow> batch_run list \<Rightarrow> batch_did list \<Rightarrow> bool" where
  "all_filed_red rd now st runs did =
     (\<forall>wid key t. FiledWork wid key t \<in> set did \<or> AddedTo wid key t \<in> set did \<longrightarrow> filed_red rd now st runs key)"

lemma act_ok:
  assumes "look_ok rd now st runs (r, f)" "skips_known rd st s" "all_filed_red rd now st runs did"
    "act_one rd now (filter is_finished runs) (r, f) (s, did) = (s', did')"
  shows "skips_known rd st s' \<and> all_filed_red rd now st runs did'"
proof (cases "\<exists>v. f = Read (Some v) \<and> br_conclusion r \<noteq> Some ''success'' \<and> bv_verdict v \<in> {Red, NoResults}
    \<and> \<not> later_green (filter is_finished runs) (mb_skipped s) r")
  case False
  then show ?thesis
    using assms
    by (auto simp: act_one_def skips_known_def all_filed_red_def save_def markSeen_def dest!: keep_last_subset
        split: first_read.splits option.splits if_splits)
next
  case True
  then obtain v where v: "f = Read (Some v)" "br_conclusion r \<noteq> Some ''success''" "bv_verdict v \<in> {Red, NoResults}"
    and g: "\<not> later_green (filter is_finished runs) (mb_skipped s) r" by blast
  obtain s1 d1 b where run: "file_run rd now r v s = (s1, d1, b)" by (cases "file_run rd now r v s")
  have out: "s' = save (if b then markSeen r s1 else s1)" "did' = did @ d1"
    using assms(4) v g by (auto simp: act_one_def run)
  have d1: "filed_for r d1" "\<forall>x \<in> set (mb_skipped s1). x \<in> set (mb_skipped s)"
    using file_run_did [of r rd now v s] by (simp_all add: run)
  have "red_run rd now st runs r"
    using assms(1) v later_green_known [OF assms(2) g] by (auto simp: red_run_def look_ok_def)
  then have "all_filed_red rd now st runs d1"
    using d1(1) assms(1) by (auto simp: all_filed_red_def filed_for_def filed_red_def look_ok_def)
  then show ?thesis
    using assms(2,3) d1(2) unfolding out
    by (auto simp: all_filed_red_def skips_known_def save_def markSeen_def dest!: keep_last_subset split: if_splits)
qed

lemma look_files_red:
  assumes "bs_enabled (rd_settings rd)" "mb_baselined st" "rd_runs rd = Some runs"
  shows "all_filed_red rd now st runs (snd (batch_look rd now st))"
proof -
  obtain st1 did1 looks where r: "fold (read_fresh rd now) (fresh_runs (filter is_finished runs) st) (st, [], []) = (st1, did1, looks)"
    by (metis prod_cases3)
  let ?P = "\<lambda>(s, did). skips_known rd st s \<and> all_filed_red rd now st runs did"
  note ok = reads_ok [OF r]
  have "?P (fold (act_one rd now (filter is_finished runs)) looks (st1, did1))"
  proof (rule fold_invariant [where Q = "look_ok rd now st runs" and P = ?P])
    show "l \<in> set looks \<Longrightarrow> look_ok rd now st runs l" for l using ok by blast
    show "?P (st1, did1)" using ok by (simp add: all_filed_red_def none_filed_def)
    show "?P (act_one rd now (filter is_finished runs) l x)" if "look_ok rd now st runs l" "?P x" for l x
      using act_ok [of rd now st runs "fst l" "snd l" "fst x" "snd x"] that by (simp split: prod.splits)
  qed
  then show ?thesis using assms r by (auto simp: batch_look_def Let_def)
qed

text \<open>
  C32. What a look files (server/masterBatch.ts, look, fileRun, fileOne): only while it is on and has taken
  its first look, and only for a run of that look that finished red, was not acted on before, ended in the
  last 48 hours, whose log's verdict line says red or no results, and after whose start no run passed
  whose batch job ran.
\<close>

theorem only_fresh_reds_filed:
  assumes "FiledWork wid key t \<in> set (snd (batch_look rd now st)) \<or> AddedTo wid key t \<in> set (snd (batch_look rd now st))"
  shows "bs_enabled (rd_settings rd) \<and> mb_baselined st
    \<and> (\<exists>runs r. rd_runs rd = Some runs \<and> r \<in> set runs \<and> red_run rd now st runs r \<and> has_prefix (show_nat (br_id r) @ '':'') key)"
proof (cases "bs_enabled (rd_settings rd) \<and> mb_baselined st \<and> rd_runs rd \<noteq> None")
  case True
  then obtain runs where runs: "rd_runs rd = Some runs" by auto
  with True look_files_red [of rd st runs now] assms show ?thesis unfolding all_filed_red_def filed_red_def by blast
next
  case False
  then show ?thesis using assms by (cases "mb_baselined st"; cases "rd_runs rd") (auto simp: batch_look_def Let_def split: if_splits)
qed

section \<open>A look at a red run\<close>

definition red_seven :: batch_run where
  "red_seven = \<lparr>br_id = 7, br_attempt = 1, br_sha = ''aa'', br_status = ''completed'', br_conclusion = Some ''failure'',
     br_createdAt = 1000, br_updatedAt = 2000, br_url = []\<rparr>"

definition green_eight :: batch_run where
  "green_eight = \<lparr>br_id = 8, br_attempt = 1, br_sha = ''cc'', br_status = ''completed'', br_conclusion = Some ''success'',
     br_createdAt = 3000, br_updatedAt = 4000, br_url = []\<rparr>"

definition one_culprit :: batch_verdict where
  "one_culprit = \<lparr>bv_tip = ''aa'', bv_ref = [], bv_run = ''7'', bv_verdict = Red, bv_failed = 1,
     bv_culprits = [\<lparr>cu_sha = ''bb'', cu_pr = None, cu_subject = ''s'', cu_title = [], cu_tests = [''T'']\<rparr>],
     bv_flaky = [], bv_unresolved = [], bv_note = None\<rparr>"

definition reading :: "batch_run list \<Rightarrow> job_log \<Rightarrow> batch_reading" where
  "reading runs l8 = \<lparr>rd_settings = masterBatchSettings (JObj []), rd_runs = Some runs,
     rd_log = (\<lambda>i. if i = 8 then l8 else JobLog ''log''), rd_pr = (\<lambda>_. None), rd_inFlight = None,
     rd_verdict = (\<lambda>_. Some one_culprit), rd_redact = (\<lambda>s. s)\<rparr>"

definition watching :: batch_state where
  "watching = \<lparr>mb_baselined = True, mb_seen = [], mb_filed = [], mb_skipped = [], mb_ledger = \<lparr>lg_seq = 0, lg_work = []\<rparr>\<rparr>"

theorem only_fresh_reds_filed_witness:
  "snd (batch_look (reading [red_seven] NoJob) 5000 watching) = [FiledWork ''w1'' ''7:bb'' ''Master batch red: revert bb (s)'']
   \<and> (\<exists>runs r. rd_runs (reading [red_seven] NoJob) = Some runs \<and> r \<in> set runs
        \<and> red_run (reading [red_seven] NoJob) 5000 watching runs r \<and> has_prefix (show_nat (br_id r) @ '':'') ''7:bb'')"
proof -
  have s: "snd (batch_look (reading [red_seven] NoJob) 5000 watching) = [FiledWork ''w1'' ''7:bb'' ''Master batch red: revert bb (s)'']"
    by code_simp
  show ?thesis
    using only_fresh_reds_filed [of "''w1''" "''7:bb''" "''Master batch red: revert bb (s)''" "reading [red_seven] NoJob" 5000 watching] s by simp
qed

theorem batch_requests_bounded_witness:
  "length (lg_work (mb_ledger (fst (batch_look (reading [red_seven] NoJob) 5000 watching)))) = 1
   \<and> length (batch_filed (mb_ledger (fst (batch_look (reading [red_seven] NoJob) 5000 watching))) 6000) \<le> 20"
proof -
  have "batch_reach 10 5000 (fst (batch_look (reading [red_seven] NoJob) 5000 watching))"
    by (rule batch_reach.look [of _ 0], rule batch_reach.start)
      (simp_all add: watching_def reading_def masterBatchSettings_def int_in_def Let_def)
  from batch_requests_bounded [OF this, of 6000] show ?thesis by (intro conjI) (code_simp, simp)
qed

text \<open>
  A later run that ended in success supersedes a red one even when its log could not be read, so that it is not
  known whether its job ran: here the job was skipped (a version bump), the log reads failed once, and the red
  run is never filed; read in time, it is.
\<close>

lemma unread_green_supersedes:
  "snd (batch_look (reading [red_seven, green_eight] LogFailed) 5000 watching) = [Superseded 7]"
  "snd (batch_look (reading [red_seven, green_eight] JobSkipped) 6000
      (fst (batch_look (reading [red_seven, green_eight] LogFailed) 5000 watching))) = [JobWasSkipped 8]"
  "snd (batch_look (reading [red_seven, green_eight] JobSkipped) 5000 watching)
     = [JobWasSkipped 8, FiledWork ''w1'' ''7:bb'' ''Master batch red: revert bb (s)'']"
  by code_simp+

end
