(* ===== verification/Gates.thy ===== *)
theory Gates
  imports WorkLedger "HOL-Library.Option_ord"
begin

text \<open>
  What a Blocked request waits on and when that clears (shared/blockers.ts): the gates of a request, whose
  they are, the verdict on a gate, and what a gate must be to be set. A verdict is a state and its reason, a
  constructor without its words. What FF Factory reads elsewhere (the commits that run, machines, usage,
  checks, workers' reports) is the record \<open>gate_facts\<close>; a text the capacity rules read (shared/capacity.ts)
  is the parameter \<open>cap\<close>. Not modelled: the gates' names and the help texts.
\<close>

section \<open>Gates\<close>

datatype gate_kind =
    KRequest | KDeploy | KMachine | KUsage | KLock | KTime | KCi | KPr | KSteam | KWorker | KDisk

datatype wait_on = OnDone | OnReport

record merge_ask =
  ma_head :: string
  ma_session :: string
  ma_report :: string

record gate_ask =
  ak_kind :: gate_kind
  ak_ref :: "string option"
  ak_on :: "wait_on option"
  ak_holder :: "string option"
  ak_until :: "stamp option"
  ak_what :: string

record gate = gate_ask +
  ga_at :: stamp
  ga_by :: string
  ga_pause :: bool
  ga_sha :: "string option"
  ga_merge :: "merge_ask option"

record gated =
  gw_id :: string
  gw_status :: work_status
  gw_mergedInto :: "string option"
  gw_sessions :: "string list"
  gw_links :: "(string \<times> stamp) list"
  gw_blocked :: "gate option"
  gw_also :: "gate list"
  gw_done :: "(string \<times> stamp) list"
  gw_movedOff :: "string list"
  gw_timedFor :: "string option"
  gw_steamPair :: "bool option"

abbreviation "HOUR \<equiv> 3600000 :: int"
abbreviation "DAY \<equiv> 86400000 :: int"

fun BLOCKER_STUCK_MS :: "gate_kind \<Rightarrow> int option" where
  "BLOCKER_STUCK_MS KRequest = None"
| "BLOCKER_STUCK_MS KDeploy = Some (7 * DAY)"
| "BLOCKER_STUCK_MS KMachine = Some (3 * DAY)"
| "BLOCKER_STUCK_MS KUsage = Some (8 * DAY)"
| "BLOCKER_STUCK_MS KLock = Some DAY"
| "BLOCKER_STUCK_MS KTime = None"
| "BLOCKER_STUCK_MS KCi = Some (6 * HOUR)"
| "BLOCKER_STUCK_MS KPr = Some (7 * DAY)"
| "BLOCKER_STUCK_MS KSteam = Some (7 * DAY)"
| "BLOCKER_STUCK_MS KWorker = Some DAY"
| "BLOCKER_STUCK_MS KDisk = Some DAY"

definition DISK_RESUME_MARGIN_GB :: rat where "DISK_RESUME_MARGIN_GB = 5"
definition CI_UNREADABLE_MS :: int where "CI_UNREADABLE_MS = 900000"
definition CI_NO_RUN_MS :: int where "CI_NO_RUN_MS = 600000"
definition MAX_GATES :: nat where "MAX_GATES = 6"

text \<open>The truth value of an optional text, with the text: an empty one is false. \<open>Date.parse(s) || 0\<close>.\<close>

definition filled :: "string option \<Rightarrow> string option" where
  "filled x = (if x = Some [] then None else x)"

definition ms_or_zero :: "stamp \<Rightarrow> int" where
  "ms_or_zero s = (case stamp_ms s of Some t \<Rightarrow> t | None \<Rightarrow> 0)"

abbreviation or_empty :: "string option \<Rightarrow> string" where
  "or_empty x \<equiv> (case x of Some s \<Rightarrow> s | None \<Rightarrow> [])"

definition gatesOf :: "gated \<Rightarrow> gate list" where
  "gatesOf w = (case gw_blocked w of Some b \<Rightarrow> b # gw_also w | None \<Rightarrow> [])"

definition sameGate :: "gate \<Rightarrow> gate \<Rightarrow> bool" where
  "sameGate a b =
     (ak_kind a = ak_kind b \<and> lower (or_empty (ak_ref a)) = lower (or_empty (ak_ref b))
      \<and> lower (or_empty (ak_holder a)) = lower (or_empty (ak_holder b)))"

text \<open>\<open>/^worker (\S+)$/\<close> on who set it.\<close>

definition gateSetter :: "gate \<Rightarrow> string option" where
  "gateSetter g =
     (let sid = drop 7 (ga_by g)
      in if has_prefix ''worker '' (ga_by g) \<and> sid \<noteq> [] \<and> list_all (\<lambda>c. \<not> is_ws c) sid then Some sid else None)"

definition still_with :: "gated \<Rightarrow> string \<Rightarrow> bool" where
  "still_with w sid = (sid \<in> set (gw_sessions w) \<and> map_of (gw_done w) sid = None \<and> sid \<notin> set (gw_movedOff w))"

definition othersGates :: "gated \<Rightarrow> string option \<Rightarrow> gate list" where
  "othersGates w actor =
     filter (\<lambda>g. case gateSetter g of Some by' \<Rightarrow> Some by' \<noteq> actor \<and> still_with w by' | None \<Rightarrow> False) (gatesOf w)"

section \<open>A request's workers\<close>

text \<open>The time of a worker's link; one with none, or one that does not parse, is older than any (\<open>-Infinity\<close>).\<close>

definition link_ms :: "gated \<Rightarrow> string \<Rightarrow> int option" where
  "link_ms w sid = (case map_of (gw_links w) sid of Some s \<Rightarrow> stamp_ms s | None \<Rightarrow> None)"

definition newestFirst :: "gated \<Rightarrow> string list" where
  "newestFirst w =
     map (fst \<circ> fst)
       (rev (js_sort (\<lambda>a b. cmp_or (cmp_num (snd a) (snd b)) (cmp_num (snd (fst a)) (snd (fst b))))
         (map (\<lambda>x. (x, link_ms w (fst x))) (zip (gw_sessions w) [0..<length (gw_sessions w)]))))"

definition latestWorker :: "gated \<Rightarrow> string option" where
  "latestWorker w = (case newestFirst w of s # _ \<Rightarrow> Some s | [] \<Rightarrow> None)"

definition isWith :: "gated \<Rightarrow> string \<Rightarrow> bool" where
  "isWith w sid =
     (sid \<in> set (gw_sessions w) \<and> latestWorker w = Some sid
      \<or> gw_status w = WsBlocked \<and> list_ex (\<lambda>g. gateSetter g = Some sid) (gatesOf w))"

section \<open>What the verdicts read\<close>

datatype pr_phase = PrOpen | PrMerged | PrClosed

record pr_health =
  ph_state :: pr_phase
  ph_conflict :: "string option"
  ph_head :: "string option"
  ph_headSeenAt :: "int option"

record ci_state =
  ci_done :: bool
  ci_none :: bool
  ci_green :: bool

record gate_facts =
  gf_now :: int
  gf_work :: "string \<Rightarrow> gated option"
  gf_reported :: "gated \<Rightarrow> int \<Rightarrow> bool \<Rightarrow> bool"
  gf_delivered :: "gated \<Rightarrow> int \<Rightarrow> string option \<Rightarrow> bool"
  gf_portalSha :: "string option"
  gf_daemonSha :: "string \<Rightarrow> string option"
  gf_online :: "(string \<Rightarrow> bool option) option"
  gf_paused :: "string \<Rightarrow> bool"
  gf_usageClear :: "string \<Rightarrow> bool option"
  gf_nightlyAt :: "int option"
  gf_ci :: "string \<Rightarrow> ci_state option"
  gf_prHealth :: "string \<Rightarrow> pr_health option"
  gf_ciUnreadable :: "string \<Rightarrow> int option"
  gf_pr :: "string \<Rightarrow> pr_phase option"
  gf_steamShort :: "(gated \<Rightarrow> bool) option"
  gf_workerEnded :: "string \<Rightarrow> int \<Rightarrow> string \<Rightarrow> bool"
  gf_disk :: "string \<Rightarrow> (rat \<times> rat) option"

text \<open>A look-up by an optional id: \<open>b.ref ? f(b.ref) : undefined\<close>.\<close>

definition on_ref :: "string option \<Rightarrow> (string \<Rightarrow> 'a option) \<Rightarrow> 'a option" where
  "on_ref r f = (case filled r of Some s \<Rightarrow> f s | None \<Rightarrow> None)"

definition ask_online :: "gate_facts \<Rightarrow> string \<Rightarrow> bool option" where
  "ask_online f m = (case gf_online f of Some on \<Rightarrow> on m | None \<Rightarrow> None)"

text \<open>The request a merged one continues as, over at most five merges.\<close>

fun follow_from :: "nat \<Rightarrow> (string \<Rightarrow> gated option) \<Rightarrow> gated option \<Rightarrow> gated option" where
  "follow_from (Suc n) work (Some w) =
     (if gw_status w = WsMerged \<and> filled (gw_mergedInto w) \<noteq> None
      then follow_from n work (work (or_empty (gw_mergedInto w))) else Some w)"
| "follow_from _ work t = t"

definition follow :: "string \<Rightarrow> gate_facts \<Rightarrow> gated option" where
  "follow i f = follow_from 5 (gf_work f) (gf_work f i)"

section \<open>The verdict on a gate\<close>

datatype gate_state = VOpen | VClear | VStuck | VDecide

datatype gate_why =
    NotInLedger | MergedIntoWaiter | TargetDone string | TargetUndelivered string work_status | TargetStalled string
  | TargetReported string | LegWaitsOnWaiter string | ProgressOnly string | TargetIs string work_status
  | NewCommit | SameCommit
  | StillPaused | OnlineAgain | UnknownMachine | OfflineStill
  | DiskUnknown | DiskRoom | DiskLow
  | MetersClear | HoldEnded | AtItsLimit
  | HolderClosed string work_status | HolderReported string | NightlyReported | LookAgain | LockHeld
  | TimePassed | TimeAhead
  | ChecksFinished | CannotRun string | NoCiRun int | ChecksUnreadable int | ChecksRunning | ChecksHung
  | PullMerged | PullClosed | PullOpen
  | NoSteamPair | EnoughSteam | SteamShort
  | WaiterGone | PartDone | PartLeft | PartEnded | PartOpen

type_synonym gate_verdict = "gate_state \<times> gate_why"

definition gate_at :: "gate_facts \<Rightarrow> gate \<Rightarrow> int" where
  "gate_at f b = (if ms_or_zero (ga_at b) = 0 then gf_now f else ms_or_zero (ga_at b))"

definition gate_age :: "gate_facts \<Rightarrow> gate \<Rightarrow> int" where
  "gate_age f b = gf_now f - gate_at f b"

definition late :: "gate_facts \<Rightarrow> gate \<Rightarrow> gate_why \<Rightarrow> gate_verdict" where
  "late f b why =
     (case BLOCKER_STUCK_MS (ak_kind b) of
        Some m \<Rightarrow> if m \<le> gate_age f b then (VStuck, why) else (VOpen, why)
      | None \<Rightarrow> (VOpen, why))"

definition same_id :: "string \<Rightarrow> string \<Rightarrow> bool" where
  "same_id a b = (lower a = lower b)"

text \<open>Whether a gate waits on the waiter itself, through merges.\<close>

definition on_waiter :: "gate_facts \<Rightarrow> string \<Rightarrow> gate \<Rightarrow> bool" where
  "on_waiter f waiter g =
     ((ak_kind g = KRequest \<or> ak_kind g = KLock)
      \<and> list_ex (\<lambda>r. case on_ref r (\<lambda>i. follow i f) of Some t \<Rightarrow> same_id (gw_id t) waiter | None \<Rightarrow> False) [ak_ref g, ak_holder g])"

definition leg_waits :: "gate_facts \<Rightarrow> gate \<Rightarrow> gated \<Rightarrow> string \<Rightarrow> bool" where
  "leg_waits f b t waiter =
     ((case gw_timedFor t of Some x \<Rightarrow> same_id x waiter | None \<Rightarrow> False) \<and> gw_status t = WsBlocked
      \<and> list_ex (\<lambda>g. gate_at f b < ms_or_zero (ga_at g) \<and> on_waiter f waiter g) (gatesOf t))"

definition request_verdict :: "gate_facts \<Rightarrow> gate \<Rightarrow> string option \<Rightarrow> gate_verdict" where
  "request_verdict f b waiter =
     (case on_ref (ak_ref b) (\<lambda>i. follow i f) of
        None \<Rightarrow> (VStuck, NotInLedger)
      | Some t \<Rightarrow>
          let me = filled waiter; t0 = gate_at f b; i = gw_id t; report = (ak_on b = Some OnReport) in
          if (case me of Some x \<Rightarrow> same_id i x | None \<Rightarrow> False) then (VClear, MergedIntoWaiter)
          else if gw_status t = WsDone then (VClear, TargetDone i)
          else if gw_status t = WsRejected \<or> gw_status t = WsCancelled then (VDecide, TargetUndelivered i (gw_status t))
          else if gw_status t = WsStalled then (VStuck, TargetStalled i)
          else if report \<and> gf_delivered f t t0 waiter then (VClear, TargetReported i)
          else if report \<and> (case me of Some x \<Rightarrow> leg_waits f b t x | None \<Rightarrow> False) then (VClear, LegWaitsOnWaiter i)
          else if report \<and> gf_reported f t t0 False then (VOpen, ProgressOnly i)
          else (VOpen, TargetIs i (gw_status t)))"

definition deploy_verdict :: "gate_facts \<Rightarrow> gate \<Rightarrow> gate_verdict" where
  "deploy_verdict f b =
     (let now = (case filled (ak_ref b) of Some r \<Rightarrow> gf_daemonSha f r | None \<Rightarrow> gf_portalSha f)
      in if filled now \<noteq> None \<and> filled (ga_sha b) \<noteq> None \<and> now \<noteq> ga_sha b then (VClear, NewCommit) else late f b SameCommit)"

definition machine_verdict :: "gate_facts \<Rightarrow> gate \<Rightarrow> gate_verdict" where
  "machine_verdict f b =
     (let on = on_ref (ak_ref b) (ask_online f)
      in if on = Some True \<and> ga_pause b \<and> (case filled (ak_ref b) of Some r \<Rightarrow> gf_paused f r | None \<Rightarrow> False) then late f b StillPaused
         else if on = Some True then (VClear, OnlineAgain)
         else if on = None \<and> gf_online f \<noteq> None then (VStuck, UnknownMachine)
         else late f b OfflineStill)"

definition disk_verdict :: "gate_facts \<Rightarrow> gate \<Rightarrow> gate_verdict" where
  "disk_verdict f b =
     (if on_ref (ak_ref b) (ask_online f) = Some False then late f b OfflineStill
      else (case on_ref (ak_ref b) (gf_disk f) of
              None \<Rightarrow> late f b DiskUnknown
            | Some (freeBytes, warnGB) \<Rightarrow>
                if warnGB + DISK_RESUME_MARGIN_GB \<le> freeBytes / 1024 ^ 3 then (VClear, DiskRoom) else late f b DiskLow))"

text \<open>\<open>b.until && f.now >= Date.parse(b.until)\<close>: false for a text that is no time.\<close>

definition until_passed :: "gate_facts \<Rightarrow> gate \<Rightarrow> bool" where
  "until_passed f b = (case ak_until b of Some (At t) \<Rightarrow> t \<le> gf_now f | _ \<Rightarrow> False)"

definition usage_verdict :: "gate_facts \<Rightarrow> gate \<Rightarrow> gate_verdict" where
  "usage_verdict f b =
     (if on_ref (ak_ref b) (gf_usageClear f) = Some True then (VClear, MetersClear)
      else if until_passed f b then (VClear, HoldEnded)
      else late f b AtItsLimit)"

definition lock_verdict :: "gate_facts \<Rightarrow> gate \<Rightarrow> gate_verdict" where
  "lock_verdict f b =
     (let h = on_ref (ak_holder b) (\<lambda>i. follow i f); t0 = gate_at f b
      in case h of
           Some t \<Rightarrow>
             if gw_status t \<notin> set WORK_OPEN then (VClear, HolderClosed (gw_id t) (gw_status t))
             else if gf_reported f t t0 True then (VClear, HolderReported (gw_id t))
             else if (case gf_nightlyAt f of Some n \<Rightarrow> n \<noteq> 0 \<and> t0 < n | None \<Rightarrow> False) then (VClear, NightlyReported)
             else if until_passed f b then (VClear, LookAgain)
             else late f b LockHeld
         | None \<Rightarrow>
             if (case gf_nightlyAt f of Some n \<Rightarrow> n \<noteq> 0 \<and> t0 < n | None \<Rightarrow> False) then (VClear, NightlyReported)
             else if until_passed f b then (VClear, LookAgain)
             else late f b LockHeld)"

definition time_verdict :: "gate_facts \<Rightarrow> gate \<Rightarrow> gate_verdict" where
  "time_verdict f b =
     (case ak_until b of
        Some (At t) \<Rightarrow> if t \<le> gf_now f then (VClear, TimePassed) else (VOpen, TimeAhead)
      | _ \<Rightarrow> (VClear, TimePassed))"

definition no_checks :: "ci_state option \<Rightarrow> bool" where
  "no_checks c = (case c of Some s \<Rightarrow> ci_none s | None \<Rightarrow> False)"

definition open_health :: "pr_health option \<Rightarrow> pr_health option" where
  "open_health h = (case h of Some x \<Rightarrow> if ph_state x = PrOpen then Some x else None | None \<Rightarrow> None)"

definition ci_verdict :: "gate_facts \<Rightarrow> gate \<Rightarrow> gate_verdict" where
  "ci_verdict f b =
     (let c = on_ref (ak_ref b) (gf_ci f); h = open_health (on_ref (ak_ref b) (gf_prHealth f));
          u = (if c = None then on_ref (ak_ref b) (gf_ciUnreadable f) else None);
          unreadableFor = (case u of Some s \<Rightarrow> gf_now f - max s (gate_at f b) | None \<Rightarrow> 0)
      in if (case c of Some s \<Rightarrow> ci_done s | None \<Rightarrow> False) then (VClear, ChecksFinished)
         else if (case h of Some x \<Rightarrow> ph_conflict x \<noteq> None | None \<Rightarrow> False) \<and> (c = None \<or> no_checks c)
         then (VClear, CannotRun (or_empty (ph_conflict (the h))))
         else if no_checks c \<and> (case h of Some x \<Rightarrow> (case ph_headSeenAt x of Some s \<Rightarrow> CI_NO_RUN_MS \<le> gf_now f - s | None \<Rightarrow> False) | None \<Rightarrow> False)
         then (VClear, NoCiRun (gf_now f - the (ph_headSeenAt (the h))))
         else if u \<noteq> None \<and> CI_UNREADABLE_MS \<le> unreadableFor then (VClear, ChecksUnreadable unreadableFor)
         else if fst (late f b ChecksRunning) = VStuck then (VClear, ChecksHung)
         else late f b ChecksRunning)"

definition pr_verdict :: "gate_facts \<Rightarrow> gate \<Rightarrow> gate_verdict" where
  "pr_verdict f b =
     (let p = on_ref (ak_ref b) (gf_pr f);
          h = open_health (if has_prefix ''worker '' (ga_by b) then on_ref (ak_ref b) (gf_prHealth f) else None)
      in if p = Some PrMerged then (VClear, PullMerged)
         else if p = Some PrClosed then (VDecide, PullClosed)
         else (case h of
                 Some x \<Rightarrow> (case ph_conflict x of Some base \<Rightarrow> (VClear, CannotRun base) | None \<Rightarrow> late f b PullOpen)
               | None \<Rightarrow> late f b PullOpen))"

definition steam_verdict :: "gate_facts \<Rightarrow> gate \<Rightarrow> string option \<Rightarrow> gate_verdict" where
  "steam_verdict f b waiter =
     (case on_ref waiter (gf_work f) of
        Some t \<Rightarrow>
          if gw_steamPair t \<noteq> Some True then (VClear, NoSteamPair)
          else (case gf_steamShort f of
                  Some short \<Rightarrow> if short t then late f b SteamShort else (VClear, EnoughSteam)
                | None \<Rightarrow> late f b SteamShort)
      | None \<Rightarrow> (VClear, NoSteamPair))"

definition worker_verdict :: "gate_facts \<Rightarrow> gate \<Rightarrow> string option \<Rightarrow> gate_verdict" where
  "worker_verdict f b waiter =
     (let sid = or_empty (ak_ref b); t0 = gate_at f b
      in case on_ref waiter (gf_work f) of
           None \<Rightarrow> (VClear, WaiterGone)
         | Some t \<Rightarrow>
             if (case map_of (gw_done t) sid of Some d \<Rightarrow> t0 < ms_or_zero d | None \<Rightarrow> False) then (VClear, PartDone)
             else if sid \<notin> set (gw_sessions t) \<or> sid \<in> set (gw_movedOff t) then (VClear, PartLeft)
             else if gf_workerEnded f sid t0 (gw_id t) then (VClear, PartEnded)
             else late f b PartOpen)"

definition blockerVerdict :: "gate \<Rightarrow> gate_facts \<Rightarrow> string option \<Rightarrow> gate_verdict" where
  "blockerVerdict b f waiter =
     (case ak_kind b of
        KRequest \<Rightarrow> request_verdict f b waiter
      | KDeploy \<Rightarrow> deploy_verdict f b
      | KMachine \<Rightarrow> machine_verdict f b
      | KDisk \<Rightarrow> disk_verdict f b
      | KUsage \<Rightarrow> usage_verdict f b
      | KLock \<Rightarrow> lock_verdict f b
      | KTime \<Rightarrow> time_verdict f b
      | KCi \<Rightarrow> ci_verdict f b
      | KPr \<Rightarrow> pr_verdict f b
      | KSteam \<Rightarrow> steam_verdict f b waiter
      | KWorker \<Rightarrow> worker_verdict f b waiter)"

end
