(* ===== verification/GateSet.thy ===== *)
theory GateSet
  imports Gates
begin

text \<open>
  Setting gates: which asked wait is refused (shared/blockers.ts blockerProblem), and the operations of the
  ledger that write a request's gates (server/orchestrators.ts): the dispatcher's block, a worker's
  blocked_on, a block's end (unblock), gates that cleared among others (gatesCleared), a gate that is stuck
  or whose wait closed without delivering, a merge into the waiting request (dropSelfGates), and the merge on
  green. What a gate's usage reference names, the deployed commits, and which workers can be resumed are
  parameters. Not modelled: check-ins, notices and the log's lines.
\<close>

section \<open>References to pull requests\<close>

definition ref_char :: "char \<Rightarrow> bool" where
  "ref_char c = (word_char c \<or> c = CHR ''.'' \<or> c = CHR ''-'')"

definition is_repo_name :: "string \<Rightarrow> bool" where
  "is_repo_name s =
     (case split_on (CHR ''/'') s of
        [owner, name] \<Rightarrow> owner \<noteq> [] \<and> list_all ref_char owner \<and> name \<noteq> [] \<and> list_all ref_char name
      | _ \<Rightarrow> False)"

definition CI_REF :: "string \<Rightarrow> bool" where
  "CI_REF s =
     (case split_on (CHR ''#'') s of
        [repo, n] \<Rightarrow> is_repo_name repo \<and> n \<noteq> [] \<and> list_all is_digit n
      | _ \<Rightarrow> False)"

text \<open>\<open>/github\.com\/([\w.-]+\/[\w.-]+)\/pull\/(\d+)/\<close> at one place, and its first match.\<close>

definition pull_link_at :: "string \<Rightarrow> string option" where
  "pull_link_at s =
     (if \<not> has_prefix ''github.com/'' s then None
      else (let r = drop 11 s; owner = takeWhile ref_char r; r1 = drop (length owner) r;
                name = takeWhile ref_char (drop 1 r1); r2 = drop (length name) (drop 1 r1);
                n = takeWhile is_digit (drop 6 r2)
            in if owner \<noteq> [] \<and> has_prefix ''/'' r1 \<and> name \<noteq> [] \<and> has_prefix ''/pull/'' r2 \<and> n \<noteq> []
               then Some (owner @ ''/'' @ name @ ''#'' @ n) else None))"

fun pull_link :: "string \<Rightarrow> string option" where
  "pull_link [] = None"
| "pull_link (c # cs) = (case pull_link_at (c # cs) of Some r \<Rightarrow> Some r | None \<Rightarrow> pull_link cs)"

definition prRefOf :: "string \<Rightarrow> string option" where
  "prRefOf text' = (if CI_REF (trim text') then Some (trim text') else pull_link (trim text'))"

section \<open>Which waits are refused\<close>

datatype gate_problem =
    NoWhat | CapacityWait | BadUntil
  | NoRequestId | OnItself | NoSuchRequest string | MergedIntoSelf string | ClosedAlready string work_status | WaitsBack string
  | NoLock | NoMachineId | NoSuchMachine string | IsOnline string | NoAccount | NoUntil | UntilPast | NoPullRequest
  | NotSteam | NoWorkerOf
  | NoBlocker | Strangers "string list" | TooManyGates nat | BadPull string | NoMachineOf | NothingNamed

definition req_problem :: "gate_facts \<Rightarrow> string \<Rightarrow> string option \<Rightarrow> gate_problem option" where
  "req_problem f self i =
     (case filled i of
        None \<Rightarrow> Some NoRequestId
      | Some r \<Rightarrow>
          if same_id r self then Some OnItself
          else (case follow r f of
                  None \<Rightarrow> Some (NoSuchRequest r)
                | Some t \<Rightarrow>
                    if same_id (gw_id t) self then Some (MergedIntoSelf r)
                    else if gw_status t \<in> {WsDone, WsRejected, WsCancelled} then Some (ClosedAlready r (gw_status t))
                    else if list_ex (\<lambda>g. ak_kind g = KRequest \<and> (case ak_ref g of Some x \<Rightarrow> same_id x self | None \<Rightarrow> False)) (gatesOf t)
                    then Some (WaitsBack r)
                    else None))"

definition kind_problem :: "gate_facts \<Rightarrow> string \<Rightarrow> gate_ask \<Rightarrow> gate_problem option" where
  "kind_problem f self b =
     (let ref = filled (ak_ref b)
      in case ak_kind b of
           KRequest \<Rightarrow> req_problem f self (ak_ref b)
         | KLock \<Rightarrow> (if filled (ak_holder b) \<noteq> None then req_problem f self (ak_holder b) else if ref = None then Some NoLock else None)
         | KMachine \<Rightarrow>
             (case ref of
                None \<Rightarrow> Some NoMachineId
              | Some m \<Rightarrow> (case ask_online f m of None \<Rightarrow> Some (NoSuchMachine m) | Some True \<Rightarrow> Some (IsOnline m) | Some False \<Rightarrow> None))
         | KDeploy \<Rightarrow> (case ref of Some m \<Rightarrow> if ask_online f m = None then Some (NoSuchMachine m) else None | None \<Rightarrow> None)
         | KUsage \<Rightarrow> (if ref = None then Some NoAccount else None)
         | KTime \<Rightarrow> (case ak_until b of Some (At t) \<Rightarrow> if t \<le> gf_now f then Some UntilPast else None | _ \<Rightarrow> Some NoUntil)
         | KCi \<Rightarrow> (case ref of Some r \<Rightarrow> if CI_REF r then None else Some NoPullRequest | None \<Rightarrow> Some NoPullRequest)
         | KPr \<Rightarrow> (case ref of Some r \<Rightarrow> if CI_REF r then None else Some NoPullRequest | None \<Rightarrow> Some NoPullRequest)
         | KSteam \<Rightarrow> (case gf_work f self of Some w \<Rightarrow> if gw_steamPair w = Some True then None else Some NotSteam | None \<Rightarrow> Some NotSteam)
         | KWorker \<Rightarrow>
             (case ref of
                None \<Rightarrow> Some NoWorkerOf
              | Some r \<Rightarrow> (case gf_work f self of Some w \<Rightarrow> if r \<in> set (gw_sessions w) then None else Some NoWorkerOf | None \<Rightarrow> Some NoWorkerOf))
         | KDisk \<Rightarrow>
             (case ref of
                None \<Rightarrow> Some NoMachineId
              | Some m \<Rightarrow> if gf_online f \<noteq> None \<and> ask_online f m = None then Some (NoSuchMachine m) else None))"

definition blockerProblem :: "(string \<Rightarrow> bool) \<Rightarrow> gate_ask \<Rightarrow> string \<Rightarrow> gate_facts \<Rightarrow> gate_problem option" where
  "blockerProblem cap b self f =
     (if trim (ak_what b) = [] then Some NoWhat
      else if cap (ak_what b) then Some CapacityWait
      else if (case ak_until b of Some (Garbled s) \<Rightarrow> s \<noteq> [] | _ \<Rightarrow> False) then Some BadUntil
      else kind_problem f self b)"

section \<open>A gate as recorded\<close>

definition makeGate :: "(string option \<Rightarrow> string option) \<Rightarrow> gate_ask \<Rightarrow> int \<Rightarrow> string \<Rightarrow> gate" where
  "makeGate deploySha b t by' =
     (let ref = (if ak_kind b \<in> {KRequest, KMachine, KDeploy, KDisk} then map_option (lower \<circ> trim) (ak_ref b)
                 else map_option trim (ak_ref b));
          sha = (if ak_kind b = KDeploy then deploySha ref else None)
      in \<lparr>ak_kind = ak_kind b, ak_ref = filled ref,
          ak_on = (if ak_kind b = KRequest \<or> ak_kind b = KLock then ak_on b else None),
          ak_holder = (if ak_kind b = KLock then map_option (lower \<circ> trim) (filled (ak_holder b)) else None),
          ak_until = (case ak_until b of Some (At t) \<Rightarrow> Some (At t) | _ \<Rightarrow> None),
          ak_what = clip_text (trim (ak_what b)) 200,
          ga_at = At t, ga_by = by', ga_pause = False, ga_sha = filled sha, ga_merge = None\<rparr>)"

definition set_gates :: "gate list \<Rightarrow> gated \<Rightarrow> gated" where
  "set_gates gs w = (case gs of g # rest \<Rightarrow> w\<lparr>gw_blocked := Some g, gw_also := rest\<rparr> | [] \<Rightarrow> w\<lparr>gw_blocked := None, gw_also := []\<rparr>)"

text \<open>Each wait once, as first asked: \<open>filter((g, i, all) => all.findIndex((x) => sameGate(x, g)) === i)\<close>.\<close>

fun first_gates :: "gate list \<Rightarrow> gate list" where
  "first_gates [] = []"
| "first_gates (g # gs) = g # filter (\<lambda>x. \<not> sameGate g x) (first_gates gs)"

fun first_some :: "('a \<Rightarrow> 'b option) \<Rightarrow> 'a list \<Rightarrow> 'b option" where
  "first_some p [] = None"
| "first_some p (x # xs) = (case p x of Some y \<Rightarrow> Some y | None \<Rightarrow> first_some p xs)"

section \<open>The dispatcher's block\<close>

record block_ask =
  bl_blocker :: "gate_ask option"
  bl_blockers :: "gate_ask list"
  bl_add :: bool
  bl_sessions :: "string list"

definition bl_asked :: "block_ask \<Rightarrow> gate_ask list" where
  "bl_asked a = (if bl_blockers a \<noteq> [] then bl_blockers a else (case bl_blocker a of Some b \<Rightarrow> [b] | None \<Rightarrow> []))"

definition strangers_in :: "gated \<Rightarrow> string list \<Rightarrow> string list" where
  "strangers_in w ids = filter (\<lambda>x. x \<noteq> [] \<and> \<not> list_ex (has_prefix x) (gw_sessions w)) (map (lower \<circ> trim) ids)"

definition block_gates :: "block_ask \<Rightarrow> gate list \<Rightarrow> gate list \<Rightarrow> gate list" where
  "block_gates a kept fresh =
     (if fresh = [] then kept
      else if bl_add a \<and> bl_blockers a = [] then filter (\<lambda>k. \<not> list_ex (\<lambda>x. sameGate x k) fresh) kept @ fresh
      else first_gates fresh)"

definition block_work :: "(string \<Rightarrow> bool) \<Rightarrow> (gate_ask \<Rightarrow> gate_ask option) \<Rightarrow> (string option \<Rightarrow> string option) \<Rightarrow> gate_facts
    \<Rightarrow> block_ask \<Rightarrow> gated \<Rightarrow> gate_problem + gated" where
  "block_work cap usageGateOf deploySha f a w =
     (let kept = gatesOf w; asked = bl_asked a in
      if asked = [] \<and> kept = [] then Inl NoBlocker
      else (case first_some (\<lambda>b. blockerProblem cap b (gw_id w) f) asked of
              Some p \<Rightarrow> Inl p
            | None \<Rightarrow>
                if strangers_in w (bl_sessions a) \<noteq> [] then Inl (Strangers (strangers_in w (bl_sessions a)))
                else (case those (map usageGateOf asked) of
                        None \<Rightarrow> Inl NoAccount
                      | Some bs \<Rightarrow>
                          let gates = block_gates a kept (map (\<lambda>b. makeGate deploySha b (gf_now f) ''dispatcher'') bs)
                          in if MAX_GATES < length gates then Inl (TooManyGates (length gates))
                             else Inr ((set_gates gates w)\<lparr>gw_status := WsBlocked\<rparr>))))"

section \<open>A worker's blocked_on\<close>

record waits_asked =
  wa_what :: string
  wa_requests :: "string list"
  wa_reports :: "string list"
  wa_prs :: "string list"
  wa_deploys :: "string list"
  wa_disk :: bool

definition plain_ask :: "gate_kind \<Rightarrow> string option \<Rightarrow> wait_on option \<Rightarrow> string \<Rightarrow> gate_ask" where
  "plain_ask k ref on what = \<lparr>ak_kind = k, ak_ref = ref, ak_on = on, ak_holder = None, ak_until = None, ak_what = what\<rparr>"

text \<open>\<open>/^\s*ci:\s*/i\<close>: what follows it.\<close>

definition after_ci :: "string \<Rightarrow> string option" where
  "after_ci pr =
     (let s = drop_ws pr in if has_prefix ''ci:'' (lower s) then Some (drop_ws (drop 3 s)) else None)"

definition pull_ask :: "string \<Rightarrow> gate_ask option" where
  "pull_ask pr =
     (case after_ci pr of
        Some rest \<Rightarrow> map_option (\<lambda>r. plain_ask KCi (Some r) None (''CI on '' @ r @ '' finished'')) (prRefOf rest)
      | None \<Rightarrow> map_option (\<lambda>r. plain_ask KPr (Some r) None (''PR '' @ r @ '' merged'')) (prRefOf pr))"

definition deploy_ask :: "string \<Rightarrow> gate_ask list" where
  "deploy_ask d =
     (let ref = lower (trim d) in
      if ref = [] then []
      else if ref = ''portal'' then [plain_ask KDeploy None None ''a portal deploy'']
      else [plain_ask KDeploy (Some ref) None (ref @ [CHR 0x27] @ ''s daemon update'')])"

text \<open>The spaces of the worker's words made one each, and what it waits for as a list of asks.\<close>

definition one_spaces :: "string \<Rightarrow> string" where
  "one_spaces s = trim (replace_runs (\<lambda>c. c = CHR '' '') s)"

definition asks_of :: "string option \<Rightarrow> waits_asked \<Rightarrow> gate_problem + gate_ask list" where
  "asks_of machine a =
     (let reqs = map (\<lambda>i. plain_ask KRequest (Some (trim i)) None (lower (trim i) @ '' finishing'')) (wa_requests a);
          reps = map (\<lambda>i. plain_ask KRequest (Some (trim i)) (Some OnReport) (lower (trim i) @ [CHR 0x27] @ ''s worker reporting'')) (wa_reports a);
          deps = concat (map deploy_ask (wa_deploys a));
          own = filled (map_option (lower \<circ> trim) machine)
      in case first_some (\<lambda>p. if pull_ask p = None then Some p else None) (wa_prs a) of
           Some p \<Rightarrow> Inl (BadPull p)
         | None \<Rightarrow>
             if wa_disk a \<and> own = None then Inl NoMachineOf
             else (let disk = (if wa_disk a then [plain_ask KDisk own None (''free disk space on '' @ or_empty own)] else []);
                       all = reqs @ reps @ map (the \<circ> pull_ask) (wa_prs a) @ deps @ disk
                   in case all of [] \<Rightarrow> Inl NothingNamed
                      | b # rest \<Rightarrow> Inr (b\<lparr>ak_what := clip_text (one_spaces (wa_what a)) 200\<rparr> # rest)))"

text \<open>
  The pilot's ask (\<open>mergeOnGreenAsk\<close>, whose conditions on the person and the report are the parameter): on the
  one gate asked, a CI gate.
\<close>

definition with_pilot :: "merge_ask option \<Rightarrow> gate list \<Rightarrow> gate list" where
  "with_pilot pilot gs =
     (case (pilot, gs) of (Some m, [g]) \<Rightarrow> if ak_kind g = KCi then [g\<lparr>ga_merge := Some m\<rparr>] else gs | _ \<Rightarrow> gs)"

definition workerBlocked :: "(string \<Rightarrow> bool) \<Rightarrow> (string option \<Rightarrow> string option) \<Rightarrow> merge_ask option \<Rightarrow> string option \<Rightarrow> gate_facts
    \<Rightarrow> string \<Rightarrow> waits_asked \<Rightarrow> gated \<Rightarrow> gate_problem + gated" where
  "workerBlocked cap deploySha pilot machine f sid a w =
     (let what = one_spaces (wa_what a) in
      if what = [] then Inl NoWhat
      else if cap what then Inl CapacityWait
      else (case asks_of machine a of
              Inl p \<Rightarrow> Inl p
            | Inr asked \<Rightarrow>
                (case first_some (\<lambda>b. blockerProblem cap b (gw_id w) f) asked of
                   Some p \<Rightarrow> Inl p
                 | None \<Rightarrow>
                     let gates = first_gates (map (\<lambda>b. makeGate deploySha b (gf_now f) (''worker '' @ sid)) asked)
                     in if MAX_GATES < length gates then Inl (TooManyGates (length gates))
                        else (let own = with_pilot pilot gates;
                                  kept = filter (\<lambda>k. \<not> list_ex (\<lambda>g. sameGate g k) own) (othersGates w (Some sid))
                              in Inr ((set_gates (kept @ own) w)\<lparr>gw_status := WsBlocked\<rparr>)))))"

end
