(* ===== verification/GateCycles.thy ===== *)
theory GateCycles
  imports Gates
begin

text \<open>
  Wait cycles among requests and the side of one to resume (shared/blockers.ts \<open>waitCycles\<close>, \<open>cycleBreak\<close>):
  the waits as an ordered map from a request to those it waits on, the walk along them, and what it finds. What
  an idle worker last said it waits on is the parameter \<open>says\<close>. The walk goes to paths of 20 requests, so it ends;
  \<open>waits_cycle\<close> says what a cycle is without it.
\<close>

section \<open>The waits\<close>

type_synonym waits = "(string \<times> string list) list"

definition gate_refs :: "gated \<Rightarrow> string list" where
  "gate_refs w = map lower (List.map_filter (\<lambda>g. if ak_kind g = KRequest then filled (ak_ref g) else None) (gatesOf w))"

definition add_waits :: "(gated \<Rightarrow> string option) \<Rightarrow> gated \<Rightarrow> waits \<Rightarrow> waits" where
  "add_waits says w E =
     (let i = lower (gw_id w) in
      if gw_status w = WsBlocked then (if gate_refs w \<noteq> [] then AList.update i (gate_refs w) E else E)
      else if gw_status w = WsActive then
        (case filled (map_option lower (says w)) of
           Some to \<Rightarrow> if to \<noteq> i then AList.update i [to] E else E
         | None \<Rightarrow> E)
      else E)"

text \<open>\<open>\b\<close> between two characters, and \<open>/\bneeds? nothing from ID\b/i\<close>.\<close>

definition word_edge :: "bool \<Rightarrow> string \<Rightarrow> bool" where
  "word_edge before rest = (before \<noteq> (case rest of c # _ \<Rightarrow> word_char c | [] \<Rightarrow> False))"

fun says_nothing_from :: "string \<Rightarrow> bool \<Rightarrow> string \<Rightarrow> bool" where
  "says_nothing_from i before [] = False"
| "says_nothing_from i before (c # cs) =
     ((word_edge before (c # cs)
       \<and> list_ex (\<lambda>p. has_prefix (p @ i) (c # cs) \<and> word_edge (word_char (last (p @ i))) (drop (length (p @ i)) (c # cs)))
           [''need nothing from '', ''needs nothing from ''])
      \<or> says_nothing_from i (word_char c) cs)"

text \<open>A gate that needs nothing from the request it waits on rules out a wait back read from that one's words.\<close>

definition drop_back :: "gated list \<Rightarrow> gated \<Rightarrow> gate \<Rightarrow> waits \<Rightarrow> waits" where
  "drop_back items w g E =
     (case (if ak_kind g = KRequest then filled (map_option lower (ak_ref g)) else None) of
        None \<Rightarrow> E
      | Some to \<Rightarrow>
          (case find (\<lambda>x. lower (gw_id x) = to) items of
             None \<Rightarrow> E
           | Some back \<Rightarrow>
               if gw_status back = WsActive
                  \<and> (case map_of E to of Some tos \<Rightarrow> lower (gw_id w) \<in> set tos | None \<Rightarrow> False)
                  \<and> says_nothing_from (lower (gw_id w)) False (lower (ak_what g))
               then AList.delete to E else E))"

definition wait_edges :: "(gated \<Rightarrow> string option) \<Rightarrow> gated list \<Rightarrow> waits" where
  "wait_edges says items =
     fold (\<lambda>w E. if gw_status w = WsBlocked then fold (drop_back items w) (gatesOf w) E else E) items
       (fold (add_waits says) items [])"

section \<open>The walk\<close>

text \<open>\<open>Number(a.slice(1)) || 0\<close> on a request's id, "w" and its number.\<close>

definition id_num :: "string \<Rightarrow> nat" where
  "id_num s = (if list_all is_digit (drop 1 s) then nat_of_digits (drop 1 s) else 0)"

definition byId :: "string \<Rightarrow> string \<Rightarrow> int" where
  "byId a b = cmp_or (cmp_num (id_num a) (id_num b)) (locale_compare a b)"

definition from_smallest :: "string list \<Rightarrow> string list" where
  "from_smallest c = (let start = position (hd (js_sort byId c)) c in drop start c @ take start c)"

definition nexts :: "waits \<Rightarrow> string \<Rightarrow> string list" where
  "nexts E i = (case map_of E i of Some ns \<Rightarrow> ns | None \<Rightarrow> [])"

definition MAX_WALK :: nat where "MAX_WALK = 20"

function walk :: "waits \<Rightarrow> string list \<Rightarrow> string list list" where
  "walk E path =
     concat (map (\<lambda>next.
       if next \<in> set path then [from_smallest (dropWhile (\<lambda>x. x \<noteq> next) path)]
       else if length path < MAX_WALK then walk E (path @ [next]) else [])
       (nexts E (last path)))"
  by auto

termination
  by (relation "measure (\<lambda>(E, path). MAX_WALK - length path)") auto

declare walk.simps [simp del]

definition waitCycles :: "(gated \<Rightarrow> string option) \<Rightarrow> gated list \<Rightarrow> string list list" where
  "waitCycles says items =
     (let E = wait_edges says items
      in map snd (fold (\<lambda>c out. AList.update (join ''>'' c) c out) (concat (map (\<lambda>(i, _). walk E [i]) E)) []))"

section \<open>The side to resume\<close>

record cycle_side =
  cs_w :: gated
  cs_gate :: gate
  cs_next :: "gated option"

datatype break_why = HasNews | FiledTheLeg | BlockedLongest

definition cycle_next :: "string list \<Rightarrow> nat \<Rightarrow> string" where
  "cycle_next c n = c ! (Suc n mod length c)"

definition side_of :: "gate_facts \<Rightarrow> string list \<Rightarrow> nat \<Rightarrow> cycle_side option" where
  "side_of f c n =
     (case gf_work f (c ! n) of
        None \<Rightarrow> None
      | Some w \<Rightarrow>
          if gw_status w \<noteq> WsBlocked then None
          else (case find (\<lambda>g. ak_kind g = KRequest \<and> map_option lower (ak_ref g) = Some (cycle_next c n)) (gatesOf w) of
                  Some g \<Rightarrow> Some \<lparr>cs_w = w, cs_gate = g, cs_next = gf_work f (cycle_next c n)\<rparr>
                | None \<Rightarrow> None))"

definition has_news :: "gate_facts \<Rightarrow> cycle_side \<Rightarrow> bool" where
  "has_news f s =
     (case cs_next s of
        None \<Rightarrow> False
      | Some x \<Rightarrow>
          if gw_steamPair x \<noteq> None then gf_delivered f x (ms_or_zero (ga_at (cs_gate s))) (Some (gw_id (cs_w s)))
          else gf_reported f x (ms_or_zero (ga_at (cs_gate s))) False)"

definition filed_leg :: "gate_facts \<Rightarrow> string list \<Rightarrow> cycle_side \<Rightarrow> bool" where
  "filed_leg f c s = list_ex (\<lambda>i. case gf_work f i of Some x \<Rightarrow> gw_timedFor x = Some (gw_id (cs_w s)) | None \<Rightarrow> False) c"

definition cycleBreak :: "string list \<Rightarrow> gate_facts \<Rightarrow> (string \<times> gate \<times> break_why) option" where
  "cycleBreak c f =
     (let sides = List.map_filter (side_of f c) [0..<length c]; answer = (\<lambda>s why. Some (gw_id (cs_w s), cs_gate s, why)) in
      if sides = [] then None
      else (case find (has_news f) sides of
              Some s \<Rightarrow> answer s HasNews
            | None \<Rightarrow>
                (case find (filed_leg f c) sides of
                   Some s \<Rightarrow> answer s FiledTheLeg
                 | None \<Rightarrow>
                     answer (hd (js_sort (\<lambda>a b. cmp_num (ms_or_zero (ga_at (cs_gate a))) (ms_or_zero (ga_at (cs_gate b)))) sides)) BlockedLongest)))"

section \<open>What a cycle is\<close>

definition waits_cycle :: "waits \<Rightarrow> string list \<Rightarrow> bool" where
  "waits_cycle E c = (c \<noteq> [] \<and> distinct c \<and> successively (\<lambda>a b. b \<in> set (nexts E a)) (c @ [hd c]))"

definition smallest_first :: "string list \<Rightarrow> bool" where
  "smallest_first c = list_all (\<lambda>x. byId (hd c) x \<le> 0) c"

end
