(* ===== verification/GateWatch.thy ===== *)
theory GateWatch
  imports GateSet GateCycles
begin

text \<open>
  How gates end: the ledger's operations that take them off (server/orchestrators.ts unblock, gatesCleared,
  blockerStuck, blockerDecide, dropSelfGates, mergedOnGreen, requeueCapacityBlocks) and the minute's look
  (server/blockerWatch.ts tick: every gate's verdict, the wait cycles, the sweep). An operation answers the
  request after it and what it did to workers and people. Which workers can be resumed, the check-ins a block
  holds, and whether GitHub merges at a head are the parameter \<open>watch_env\<close>. Not modelled: the notices' words, the
  resume's text, and the watch's other duties (placement, pair runs, decisions that wait for a fact).
\<close>

record watch_env =
  we_exists :: "string \<Rightarrow> bool"
  we_wake :: "string \<Rightarrow> bool"
  we_held :: "string \<Rightarrow> string list"
  we_merge :: "string \<Rightarrow> string \<Rightarrow> bool"

datatype gate_event =
    EvStalled gate | EvAsked gate | EvResumed string | EvToDispatcher | EvMerged string string | EvFiled string

section \<open>Whom a cleared gate resumes\<close>

definition setters_of :: "gate list \<Rightarrow> string list" where
  "setters_of gs = js_unique (List.map_filter gateSetter gs)"

definition worker_there :: "watch_env \<Rightarrow> gated \<Rightarrow> string \<Rightarrow> bool" where
  "worker_there e w sid = (we_exists e sid \<and> sid \<in> set (gw_sessions w))"

definition gateOwner :: "watch_env \<Rightarrow> gated \<Rightarrow> gate list \<Rightarrow> string option" where
  "gateOwner e w gs =
     (case find (worker_there e w) (setters_of gs) of
        Some sid \<Rightarrow> Some sid
      | None \<Rightarrow>
          if setters_of gs = [] \<and> \<not> list_ex (\<lambda>g. ak_kind g \<in> {KCi, KDeploy, KUsage}) gs then None
          else find (worker_there e w) (newestFirst w))"

definition resumeGatedWorker :: "watch_env \<Rightarrow> gated \<Rightarrow> gate list \<Rightarrow> string list" where
  "resumeGatedWorker e w gs = (case gateOwner e w gs of Some sid \<Rightarrow> if we_wake e sid then [sid] else [] | None \<Rightarrow> [])"

definition handBackCheckIns :: "watch_env \<Rightarrow> gated \<Rightarrow> string list \<Rightarrow> string list" where
  "handBackCheckIns e w except =
     filter (\<lambda>sid. sid \<notin> set except \<and> worker_there e w sid \<and> we_wake e sid) (we_held e (gw_id w))"

definition own_gates :: "string \<Rightarrow> gate list \<Rightarrow> gate list" where
  "own_gates sid gs = filter (\<lambda>g. gateSetter g = Some sid) gs"

section \<open>Gates ending\<close>

definition is_blocked :: "gated \<Rightarrow> bool" where
  "is_blocked w = (gw_status w = WsBlocked \<and> gw_blocked w \<noteq> None)"

definition unblock_work :: "watch_env \<Rightarrow> gated \<Rightarrow> gated \<times> gate_event list" where
  "unblock_work e w =
     (if \<not> is_blocked w then (w, [])
      else (let gates = gatesOf w; setters = setters_of gates;
                resumed = (if 1 < length setters then concat (map (\<lambda>sid. resumeGatedWorker e w (own_gates sid gates)) setters)
                           else resumeGatedWorker e w gates);
                back = resumed @ handBackCheckIns e w resumed
            in ((set_gates [] w)\<lparr>gw_status := (if back \<noteq> [] then WsActive else WsNew)\<rparr>,
                if back \<noteq> [] then map EvResumed back else [EvToDispatcher])))"

definition left_gates :: "gate list \<Rightarrow> gate list \<Rightarrow> gate list" where
  "left_gates cleared gs = filter (\<lambda>g. \<not> list_ex (\<lambda>c. sameGate c g) cleared) gs"

definition gatesCleared :: "watch_env \<Rightarrow> gate list \<Rightarrow> gated \<Rightarrow> gated \<times> gate_event list" where
  "gatesCleared e cleared w =
     (if \<not> is_blocked w then (w, [])
      else (let left = left_gates cleared (gatesOf w); gone = filter (\<lambda>g. list_ex (\<lambda>c. sameGate c g) cleared) (gatesOf w)
            in if left = [] \<or> length left = length (gatesOf w) then (w, [])
               else (let free = filter (\<lambda>sid. own_gates sid left = []) (setters_of gone)
                     in (set_gates left w, map EvResumed (concat (map (\<lambda>sid. resumeGatedWorker e w (own_gates sid gone)) free))))))"

text \<open>The ledger's stamp: gates go with a status that holds none, and the check-ins they held are handed back.\<close>

definition stamp_gates :: "watch_env \<Rightarrow> gated \<Rightarrow> gated \<times> gate_event list" where
  "stamp_gates e w =
     (let w' = (if gw_status w \<in> set GATE_STATUSES then w else set_gates [] w)
      in (w', if gatesOf w' = [] then map EvResumed (handBackCheckIns e w' []) else []))"

definition blockerStuck :: "watch_env \<Rightarrow> gate \<Rightarrow> gated \<Rightarrow> gated \<times> gate_event list" where
  "blockerStuck e g w =
     (if \<not> is_blocked w then (w, [])
      else (let (w', back) = stamp_gates e (w\<lparr>gw_status := WsStalled\<rparr>) in (w', EvStalled g # back)))"

definition blockerDecide :: "watch_env \<Rightarrow> gate \<Rightarrow> gated \<Rightarrow> gated \<times> gate_event list" where
  "blockerDecide e g w =
     (if \<not> is_blocked w then (w, [])
      else (let (w', back) = stamp_gates e ((set_gates [] w)\<lparr>gw_status := WsQuestion\<rparr>) in (w', EvAsked g # back)))"

definition self_gates :: "string \<Rightarrow> gated \<Rightarrow> gate list" where
  "self_gates merged t =
     filter (\<lambda>g. ak_kind g = KRequest \<and> map_option lower (ak_ref g) = Some (lower merged)
       \<or> ak_kind g = KLock \<and> map_option lower (ak_holder g) = Some (lower merged)) (gatesOf t)"

definition dropSelfGates :: "watch_env \<Rightarrow> string \<Rightarrow> gated \<Rightarrow> gated \<times> gate_event list" where
  "dropSelfGates e merged t =
     (if \<not> is_blocked t \<or> self_gates merged t = [] then (t, [])
      else if length (self_gates merged t) = length (gatesOf t) then unblock_work e t
      else gatesCleared e (self_gates merged t) t)"

text \<open>The pilot's merge landed; \<open>only\<close> is the one worker's gate among others'.\<close>

definition mergedOnGreen :: "watch_env \<Rightarrow> gate option \<Rightarrow> gated \<Rightarrow> gated \<times> gate_event list" where
  "mergedOnGreen e only w =
     (if \<not> is_blocked w then (w, [])
      else (let found = (case only of
                           Some x \<Rightarrow> find (\<lambda>g. sameGate g x \<and> ga_merge g \<noteq> None) (gatesOf w)
                         | None \<Rightarrow> find (\<lambda>g. ak_kind g = KCi \<and> ga_merge g \<noteq> None) (gatesOf w))
            in case found of
                 None \<Rightarrow> unblock_work e w
               | Some g \<Rightarrow>
                   let sid = ma_session (the (ga_merge g)); rest = remove1 g (gatesOf w) in
                   if only \<noteq> None \<and> rest \<noteq> [] then
                     (if \<not> we_exists e sid then gatesCleared e [g] w else (set_gates rest w, [EvFiled sid]))
                   else if \<not> we_exists e sid then unblock_work e w
                   else ((set_gates [] w)\<lparr>gw_status := WsActive\<rparr>, map EvResumed (handBackCheckIns e w [sid]) @ [EvFiled sid])))"

definition requeueCapacity :: "watch_env \<Rightarrow> (string \<Rightarrow> bool) \<Rightarrow> gated \<Rightarrow> gated \<times> gate_event list" where
  "requeueCapacity e cap w =
     (if gw_status w = WsBlocked \<and> gatesOf w \<noteq> []
         \<and> list_all (\<lambda>g. ga_by g \<noteq> ''ledger cleanup'' \<and> ak_kind g \<noteq> KSteam \<and> cap (ak_what g)) (gatesOf w)
      then stamp_gates e ((set_gates [] w)\<lparr>gw_status := WsQueued\<rparr>) else (w, []))"

section \<open>The look at one request\<close>

definition is_green :: "gate_facts \<Rightarrow> string \<Rightarrow> bool" where
  "is_green f r = (case gf_ci f r of Some s \<Rightarrow> ci_green s | None \<Rightarrow> False)"

definition pilot_gate :: "gate \<Rightarrow> (string \<times> string) option" where
  "pilot_gate g =
     (case (filled (ak_ref g), ga_merge g) of
        (Some r, Some m) \<Rightarrow> if ak_kind g = KCi then Some (r, ma_head m) else None
      | _ \<Rightarrow> None)"

definition clearAll :: "watch_env \<Rightarrow> gate_facts \<Rightarrow> gated \<Rightarrow> gated \<times> gate_event list" where
  "clearAll e f w =
     (case (if length (gatesOf w) = 1 then pilot_gate (hd (gatesOf w)) else None) of
        Some (r, head) \<Rightarrow>
          if is_green f r \<and> we_merge e r head then (let (w', did) = mergedOnGreen e None w in (w', EvMerged r head # did))
          else unblock_work e w
      | None \<Rightarrow> unblock_work e w)"

definition merge_one :: "watch_env \<Rightarrow> gate \<Rightarrow> gated \<times> gate_event list \<times> gate list \<Rightarrow> gated \<times> gate_event list \<times> gate list" where
  "merge_one e g s =
     (case s of (w, did, rest) \<Rightarrow>
        (case pilot_gate g of
           Some (r, head) \<Rightarrow>
             if we_merge e r head then (let (w', more) = mergedOnGreen e (Some g) w in (w', did @ EvMerged r head # more, rest))
             else (w, did, rest @ [g])
         | None \<Rightarrow> s))"

text \<open>A pilot gate among others is merged when it is green and the last of its worker's own.\<close>

definition merges_now :: "gate_facts \<Rightarrow> (gate \<Rightarrow> bool) \<Rightarrow> gate list \<Rightarrow> gate \<Rightarrow> bool" where
  "merges_now f clear gs g =
     ((case pilot_gate g of Some (r, _) \<Rightarrow> is_green f r | None \<Rightarrow> False) \<and> gateSetter g \<noteq> None
      \<and> list_all (\<lambda>y. gateSetter y = gateSetter g \<longrightarrow> clear y) gs)"

definition clearSome :: "watch_env \<Rightarrow> gate_facts \<Rightarrow> (gate \<Rightarrow> bool) \<Rightarrow> gated \<Rightarrow> gated \<times> gate_event list" where
  "clearSome e f clear w =
     (let gs = gatesOf w; cleared = filter clear gs; merge = filter (merges_now f clear gs) cleared;
          (w1, did, rest) = fold (merge_one e) merge (w, [], filter (\<lambda>g. \<not> merges_now f clear gs g) cleared)
      in if rest \<noteq> [] then (let (w2, more) = gatesCleared e rest w1 in (w2, did @ more)) else (w1, did))"

definition state_on :: "gate_facts \<Rightarrow> gated \<Rightarrow> gate \<Rightarrow> gate_state" where
  "state_on f w g = fst (blockerVerdict g f (Some (gw_id w)))"

definition look_gates :: "watch_env \<Rightarrow> gate_facts \<Rightarrow> gated \<Rightarrow> gated \<times> gate_event list" where
  "look_gates e f w =
     (if \<not> is_blocked w then (w, [])
      else (let gs = gatesOf w; state = state_on f w in
            case find (\<lambda>g. state g = VStuck) gs of
              Some g \<Rightarrow> blockerStuck e g w
            | None \<Rightarrow>
                (case find (\<lambda>g. state g = VDecide) gs of
                   Some g \<Rightarrow> blockerDecide e g w
                 | None \<Rightarrow>
                     if list_all (\<lambda>g. state g = VClear) gs then clearAll e f w
                     else if list_ex (\<lambda>g. state g = VClear) gs then clearSome e f (\<lambda>g. state g = VClear) w
                     else (w, []))))"

section \<open>The minute's look\<close>

type_synonym gated_ledger = "gated list"

definition get_gated :: "gated_ledger \<Rightarrow> string \<Rightarrow> gated option" where
  "get_gated items i = find (\<lambda>w. gw_id w = lower i) items"

definition put_gated :: "gated \<Rightarrow> gated_ledger \<Rightarrow> gated_ledger" where
  "put_gated w items = map (\<lambda>v. if gw_id v = gw_id w then w else v) items"

definition facts_on :: "gate_facts \<Rightarrow> gated_ledger \<Rightarrow> gate_facts" where
  "facts_on f items = f\<lparr>gf_work := get_gated items\<rparr>"

definition upd_gated :: "string \<Rightarrow> (gated \<Rightarrow> gated \<times> gate_event list) \<Rightarrow> gated_ledger \<times> gate_event list \<Rightarrow> gated_ledger \<times> gate_event list" where
  "upd_gated i step s =
     (case get_gated (fst s) i of
        None \<Rightarrow> s
      | Some w \<Rightarrow> (put_gated (fst (step w)) (fst s), snd s @ snd (step w)))"

definition watched :: "gated \<Rightarrow> bool" where
  "watched w = (is_blocked w \<and> (case gw_blocked w of Some b \<Rightarrow> ga_by b \<noteq> ''ledger cleanup'' | None \<Rightarrow> False))"

definition look_all :: "watch_env \<Rightarrow> gate_facts \<Rightarrow> gated_ledger \<times> gate_event list \<Rightarrow> gated_ledger \<times> gate_event list" where
  "look_all e f s =
     fold (\<lambda>i s. upd_gated i (look_gates e (facts_on f (fst s))) s) (map gw_id (filter watched (fst s))) s"

definition take_off :: "watch_env \<Rightarrow> gate \<Rightarrow> gated \<Rightarrow> gated \<times> gate_event list" where
  "take_off e g w =
     (if gw_status w \<noteq> WsBlocked then (w, [])
      else if length (gatesOf w) = 1 then unblock_work e w else gatesCleared e [g] w)"

definition break_cycles :: "watch_env \<Rightarrow> gate_facts \<Rightarrow> (gated \<Rightarrow> string option) \<Rightarrow> gated_ledger \<times> gate_event list
    \<Rightarrow> gated_ledger \<times> gate_event list" where
  "break_cycles e f says s =
     fold (\<lambda>c s. case cycleBreak c (facts_on f (fst s)) of Some (i, g, _) \<Rightarrow> upd_gated i (take_off e g) s | None \<Rightarrow> s)
       (waitCycles says (fst s)) s"

text \<open>The sweep: a gate whose CI was done long ago and still holds its request.\<close>

definition sweep_one :: "watch_env \<Rightarrow> (string \<Rightarrow> bool) \<Rightarrow> gated \<Rightarrow> gated \<times> gate_event list" where
  "sweep_one e doneLong w =
     (if gw_status w \<noteq> WsBlocked then (w, [])
      else (case find (\<lambda>g. ak_kind g = KCi \<and> (case filled (ak_ref g) of Some r \<Rightarrow> doneLong r | None \<Rightarrow> False)) (gatesOf w) of
              Some g \<Rightarrow> take_off e g w
            | None \<Rightarrow> (w, [])))"

definition watch_tick :: "watch_env \<Rightarrow> gate_facts \<Rightarrow> (string \<Rightarrow> bool) \<Rightarrow> (gated \<Rightarrow> string option) \<Rightarrow> (string \<Rightarrow> bool) \<Rightarrow> gated_ledger
    \<Rightarrow> gated_ledger \<times> gate_event list" where
  "watch_tick e f cap says doneLong items =
     (let s = break_cycles e f says (look_all e f (map (fst \<circ> requeueCapacity e cap) items, concat (map (snd \<circ> requeueCapacity e cap) items)))
      in fold (\<lambda>i. upd_gated i (sweep_one e doneLong)) (map gw_id (fst s)) s)"

end
