(* ===== verification/GateReads.thy ===== *)
theory GateReads
  imports GateWatch
begin

text \<open>
  What FF Factory reads of a pull request's checks (server/blockerWatch.ts, machine/awayRunners.ts): the
  verdict on a rollup of checks, on a commit's workflow runs and on a merge state; legs on runners that are
  away; the merge at a head; and how often a pull request is read and what a read that fails leaves. GitHub's
  answers are parameters (\<open>gh_answers\<close>), \<open>None\<close> where the call fails. Texts and log lines are not modelled.
\<close>

section \<open>Legs on runners that are away\<close>

record leg =
  lg_name :: "string option"
  lg_status :: "string option"
  lg_conclusion :: "string option"
  lg_labels :: "string list"

definition AWAY_LABELS :: "(string \<times> string list) list" where
  "AWAY_LABELS = [(''Final-Factory/ffu'', [''ffu-macos''])]"

definition AWAY_MACHINES :: "(string \<times> string) list" where
  "AWAY_MACHINES = [(''ffu-macos'', ''m3'')]"

definition awayLabelsOf :: "string \<Rightarrow> string list" where
  "awayLabelsOf repo = (case find (\<lambda>e. lower (fst e) = lower repo) AWAY_LABELS of Some e \<Rightarrow> snd e | None \<Rightarrow> [])"

definition offlineByMachine :: "string list \<Rightarrow> (string \<Rightarrow> bool option) option \<Rightarrow> string list" where
  "offlineByMachine labels online =
     (case online of
        None \<Rightarrow> []
      | Some on \<Rightarrow> filter (\<lambda>l. case map_of AWAY_MACHINES l of Some m \<Rightarrow> on m = Some False | None \<Rightarrow> False) labels)"

record runner =
  ru_status :: "string option"
  ru_labels :: "string list"

definition offlineLabels :: "runner list \<Rightarrow> string list \<Rightarrow> string list" where
  "offlineLabels runners labels =
     filter (\<lambda>l. let on = filter (\<lambda>r. l \<in> set (ru_labels r)) runners
                 in on \<noteq> [] \<and> list_all (\<lambda>r. lower (or_empty (ru_status r)) = ''offline'') on) labels"

definition is_one_of :: "string list \<Rightarrow> string option \<Rightarrow> bool" where
  "is_one_of names s = (lower (or_empty s) \<in> set names)"

definition QUEUED_WORDS :: "string list" where
  "QUEUED_WORDS = [''queued'', ''pending'', ''waiting'', ''requested'', ''expected'']"

definition GOOD :: "string list" where
  "GOOD = [''success'', ''skipped'', ''neutral'']"

definition BAD :: "string list" where
  "BAD = [''failure'', ''timed_out'', ''cancelled'', ''startup_failure'', ''action_required'']"

definition isAwayLeg :: "string list \<Rightarrow> 'a leg_scheme \<Rightarrow> bool" where
  "isAwayLeg away j =
     (away \<noteq> [] \<and> is_one_of QUEUED_WORDS (lg_status j)
      \<and> list_ex (\<lambda>l. l \<in> set (lg_labels j) \<or> has_suffix (''('' @ l @ '')'') (or_empty (lg_name j))) away)"

abbreviation leg_done :: "'a leg_scheme \<Rightarrow> bool" where
  "leg_done j \<equiv> is_one_of [''completed''] (lg_status j)"

definition awaitsOnlyAway :: "string list \<Rightarrow> leg list \<Rightarrow> bool" where
  "awaitsOnlyAway away jobs =
     (let open' = filter (\<lambda>j. \<not> leg_done j) jobs
      in open' \<noteq> [] \<and> list_all (isAwayLeg away) open' \<and> list_all (\<lambda>j. is_one_of GOOD (lg_conclusion j)) (filter leg_done jobs))"

definition failedLegs :: "leg list \<Rightarrow> leg list" where
  "failedLegs jobs = filter (\<lambda>j. leg_done j \<and> is_one_of BAD (lg_conclusion j)) jobs"

datatype settled = SettledRed "string list" | SettledGreen nat

definition settleJobs :: "string list \<Rightarrow> leg list \<Rightarrow> settled option" where
  "settleJobs away jobs =
     (if failedLegs jobs \<noteq> [] then Some (SettledRed (map (\<lambda>j. case lg_name j of Some n \<Rightarrow> n | None \<Rightarrow> ''?'') (failedLegs jobs)))
      else if awaitsOnlyAway away jobs then Some (SettledGreen (length (filter (isAwayLeg away) jobs)))
      else None)"

section \<open>Checks, runs and the merge state\<close>

record gh_check = leg +
  gc_state :: "string option"

record gh_run =
  gr_id :: nat
  gr_status :: "string option"
  gr_conclusion :: "string option"

abbreviation "CI_OVER \<equiv> \<lparr>ci_done = True, ci_none = False, ci_green = False\<rparr>"
abbreviation "CI_RUNS \<equiv> \<lparr>ci_done = False, ci_none = False, ci_green = False\<rparr>"
abbreviation "CI_NO_RUNS \<equiv> \<lparr>ci_done = False, ci_none = True, ci_green = False\<rparr>"
abbreviation "CI_GREEN \<equiv> \<lparr>ci_done = True, ci_none = False, ci_green = True\<rparr>"

definition ref_repo :: "string \<Rightarrow> string" where
  "ref_repo r = (if CI_REF r then takeWhile (\<lambda>c. c \<noteq> CHR ''#'') r else [])"

definition check_runs :: "gh_check \<Rightarrow> bool" where
  "check_runs c =
     (case filled (lg_status c) of
        Some s \<Rightarrow> s \<noteq> ''COMPLETED''
      | None \<Rightarrow> gc_state c = Some ''PENDING'' \<or> gc_state c = Some ''EXPECTED'')"

definition check_failed :: "gh_check \<Rightarrow> bool" where
  "check_failed c =
     is_one_of [''failure'', ''error'', ''timed_out'', ''cancelled'', ''action_required'']
       (case lg_conclusion c of Some s \<Rightarrow> Some s | None \<Rightarrow> gc_state c)"

definition is_over :: "string option \<Rightarrow> bool" where
  "is_over s = (s = Some ''MERGED'' \<or> s = Some ''CLOSED'')"

definition checksState :: "string option \<Rightarrow> gh_check list \<Rightarrow> string \<Rightarrow> string list \<Rightarrow> ci_state" where
  "checksState state all ref away =
     (if is_over state then CI_OVER
      else (let checks = filter (\<lambda>c. \<not> isAwayLeg away c) all; failed = filter check_failed checks;
                failFast = (failed \<noteq> [] \<and> awayLabelsOf (ref_repo ref) \<noteq> [])
            in if checks = [] then CI_NO_RUNS
               else if list_ex check_runs checks \<and> \<not> failFast then CI_RUNS
               else if failed \<noteq> [] then CI_OVER else CI_GREEN))"

definition run_over :: "gh_run \<Rightarrow> bool" where
  "run_over r = is_one_of [''completed''] (gr_status r)"

definition runsState :: "gh_run list \<Rightarrow> ci_state" where
  "runsState runs =
     (if runs = [] then CI_NO_RUNS
      else if list_ex (\<lambda>r. \<not> run_over r) runs then CI_RUNS
      else if list_ex (\<lambda>r. is_one_of [''failure'', ''timed_out'', ''cancelled'', ''action_required'', ''startup_failure''] (gr_conclusion r)) runs
      then CI_OVER else CI_GREEN)"

type_synonym seen_unstable = "(string \<times> int) list"

definition WEEK :: int where "WEEK = 7 * 86400000"

definition mergeStateCi :: "string option \<Rightarrow> string option \<Rightarrow> string \<Rightarrow> int \<Rightarrow> seen_unstable \<Rightarrow> ci_state option \<times> seen_unstable" where
  "mergeStateCi mergeable head ref now seen =
     (let key = ref @ ''@'' @ or_empty head; state = lower (or_empty mergeable) in
      if state = ''unstable'' then (None, filter (\<lambda>e. now - snd e \<le> WEEK) (AList.update key now seen))
      else if (state = ''clean'' \<or> state = ''has_hooks'') \<and> map_of seen key \<noteq> None then (Some CI_GREEN, AList.delete key seen)
      else (None, seen))"

text \<open>An unfinished run whose jobs settle it, in place, and how many away legs that skipped.\<close>

definition settle_run :: "(nat \<Rightarrow> leg list option) \<Rightarrow> string list \<Rightarrow> gh_run \<Rightarrow> gh_run \<times> nat" where
  "settle_run jobs away r =
     (if run_over r \<or> gr_id r = 0 then (r, 0)
      else (case jobs (gr_id r) of
              None \<Rightarrow> (r, 0)
            | Some js \<Rightarrow>
                (case settleJobs away js of
                   None \<Rightarrow> (r, 0)
                 | Some (SettledRed _) \<Rightarrow> (r\<lparr>gr_status := Some ''completed'', gr_conclusion := Some ''failure''\<rparr>, 0)
                 | Some (SettledGreen n) \<Rightarrow> (r\<lparr>gr_status := Some ''completed'', gr_conclusion := Some ''success''\<rparr>, n))))"

definition settleAwayRuns :: "(nat \<Rightarrow> leg list option) \<Rightarrow> string \<Rightarrow> string list \<Rightarrow> gh_run list \<Rightarrow> gh_run list" where
  "settleAwayRuns jobs repo away runs = (if awayLabelsOf repo = [] then runs else map (fst \<circ> settle_run jobs away) runs)"

record gh_answers =
  gh_rollup :: "(string option \<times> gh_check list) option"
  gh_view :: "(string option \<times> string option) option"
  gh_runs :: "gh_run list option"
  gh_mergeState :: "(string option \<times> string option) option"
  gh_runners :: "runner list option"
  gh_jobs :: "nat \<Rightarrow> leg list option"

definition awayNow :: "gh_answers \<Rightarrow> (string \<Rightarrow> bool option) option \<Rightarrow> string \<Rightarrow> string list" where
  "awayNow gh online repo =
     (let labels = awayLabelsOf repo in
      if labels = [] then []
      else (case gh_runners gh of Some rs \<Rightarrow> offlineLabels rs labels | None \<Rightarrow> offlineByMachine labels online))"

text \<open>A pull request's checks; \<open>None\<close> where it throws.\<close>

definition ghChecks :: "gh_answers \<Rightarrow> (string \<Rightarrow> bool option) option \<Rightarrow> string \<Rightarrow> int \<Rightarrow> seen_unstable \<Rightarrow> ci_state option \<times> seen_unstable" where
  "ghChecks gh online ref now seen =
     (if \<not> CI_REF ref then (None, seen)
      else (let away = awayNow gh online (ref_repo ref) in
            case gh_rollup gh of
              Some (state, checks) \<Rightarrow> (Some (checksState state checks ref away), seen)
            | None \<Rightarrow>
                (case gh_view gh of
                   None \<Rightarrow> (None, seen)
                 | Some (state, oid) \<Rightarrow>
                     if is_over state then (Some CI_OVER, seen)
                     else if filled oid = None then (None, seen)
                     else (case gh_runs gh of
                             Some runs \<Rightarrow> (Some (runsState (settleAwayRuns (gh_jobs gh) (ref_repo ref) away runs)), seen)
                           | None \<Rightarrow>
                               (case gh_mergeState gh of
                                  None \<Rightarrow> (None, seen)
                                | Some (mergeable, head) \<Rightarrow> mergeStateCi mergeable head ref now seen)))))"

definition prState :: "string option \<Rightarrow> pr_phase" where
  "prState s = (if s = Some ''MERGED'' then PrMerged else if s = Some ''CLOSED'' then PrClosed else PrOpen)"

definition prHealthOf :: "string option \<Rightarrow> string option \<Rightarrow> string option \<Rightarrow> string option \<Rightarrow> pr_health" where
  "prHealthOf state mergeable base oid =
     \<lparr>ph_state = prState state,
      ph_conflict = (if mergeable = Some ''CONFLICTING'' then Some (case filled base of Some b \<Rightarrow> b | None \<Rightarrow> ''its base branch'') else None),
      ph_head = filled oid, ph_headSeenAt = None\<rparr>"

section \<open>Merging at a head\<close>

definition lower_hex :: "char \<Rightarrow> bool" where
  "lower_hex c = (is_digit c \<or> c \<in> set ''abcdef'')"

definition FULL_SHA :: "string \<Rightarrow> bool" where
  "FULL_SHA s = (length s = 40 \<and> list_all lower_hex s)"

definition merge_head :: "string option \<Rightarrow> string \<Rightarrow> string option" where
  "merge_head viewed head =
     (let full = lower (trim head) in
      if FULL_SHA full then Some full
      else if \<not> (7 \<le> length full \<and> length full \<le> 39 \<and> list_all lower_hex full) then None
      else (case viewed of
              None \<Rightarrow> None
            | Some oid \<Rightarrow> if FULL_SHA (lower oid) \<and> has_prefix full (lower oid) then Some (lower oid) else None))"

definition ghMerge :: "string option \<Rightarrow> (string \<Rightarrow> bool) \<Rightarrow> (string \<Rightarrow> bool) \<Rightarrow> (string \<Rightarrow> bool) \<Rightarrow> string \<Rightarrow> string \<Rightarrow> string option" where
  "ghMerge viewed gated passes merges ref head =
     (if \<not> CI_REF ref then None
      else (case merge_head viewed head of
              None \<Rightarrow> None
            | Some full \<Rightarrow>
                if gated (ref_repo ref) \<and> \<not> passes ref then None
                else if merges full then Some full else None))"

section \<open>Reading at most every two minutes\<close>

definition CI_EVERY_MS :: int where "CI_EVERY_MS = 120000"
definition READ_FAIL_LOG_MS :: int where "READ_FAIL_LOG_MS = 1800000"

record failing =
  fg_since :: int
  fg_logged :: int

record reads =
  rd_seen :: "(string \<times> int \<times> ci_state option) list"
  rd_failing :: "(string \<times> failing) list"

definition noteRead :: "string \<Rightarrow> int \<Rightarrow> bool \<Rightarrow> (string \<times> failing) list \<Rightarrow> (string \<times> failing) list" where
  "noteRead ref now read fs =
     (if read then AList.delete ref fs
      else (case map_of fs ref of
              None \<Rightarrow> AList.update ref \<lparr>fg_since = now, fg_logged = now\<rparr> fs
            | Some was \<Rightarrow>
                if READ_FAIL_LOG_MS \<le> now - fg_logged was then AList.update ref (was\<lparr>fg_logged := now\<rparr>) fs else fs))"

definition read_due :: "string \<Rightarrow> int \<Rightarrow> reads \<Rightarrow> bool" where
  "read_due ref now st = (case map_of (rd_seen st) ref of Some (t, _) \<Rightarrow> CI_EVERY_MS \<le> now - t | None \<Rightarrow> True)"

definition ciOf :: "string \<Rightarrow> int \<Rightarrow> ci_state option \<Rightarrow> reads \<Rightarrow> reads" where
  "ciOf ref now answer st =
     (if read_due ref now st
      then st\<lparr>rd_seen := AList.update ref (now, answer) (rd_seen st), rd_failing := noteRead ref now (answer \<noteq> None) (rd_failing st)\<rparr>
      else st)"

definition ci_now :: "reads \<Rightarrow> string \<Rightarrow> ci_state option" where
  "ci_now st ref = (case map_of (rd_seen st) ref of Some (_, s) \<Rightarrow> s | None \<Rightarrow> None)"

definition ciUnreadable :: "reads \<Rightarrow> string \<Rightarrow> int option" where
  "ciUnreadable st ref = map_option fg_since (map_of (rd_failing st) ref)"

end
