(* ===== verification/GateCycleLaws.thy ===== *)
theory GateCycleLaws
  imports GateCycles
begin

text \<open>
  What the walk finds: the rotations of a cycle are cycles, every path that meets itself closes one, and every
  cycle of at most 20 requests is met. The ids of requests are "w" and a number, so that the order by number is
  strict and a cycle's joined ids name it.
\<close>

section \<open>Ids\<close>

lemma id_num_work_id [simp]: "id_num (work_id n) = n"
  by (simp add: id_num_def work_id_def show_nat_digits)

lemma digit_plain: "is_digit c \<Longrightarrow> c \<noteq> CHR ''>'' \<and> \<not> is_upper c"
  by (auto simp: is_digit_def is_upper_def code_def)

lemma no_arrow: "CHR ''>'' \<notin> set (work_id n)"
  using show_nat_digits [of n] by (auto simp: work_id_def list_all_iff dest: digit_plain)

lemma lower_work_id [simp]: "lower (work_id n) = work_id n"
proof -
  have "lower_char c = c" if "is_digit c" for c
    using digit_plain [OF that] by (simp add: lower_char_def)
  then show ?thesis
    using show_nat_digits [of n] by (auto simp: work_id_def lower_char_def is_upper_def code_def list_all_iff intro!: map_idI)
qed

definition ledger_id :: "string \<Rightarrow> bool" where
  "ledger_id s = (\<exists>n. s = work_id n)"

lemma ledger_id_work_id [simp]: "ledger_id (work_id n)"
  by (auto simp: ledger_id_def)

lemma ledger_id_lower [simp]: "ledger_id s \<Longrightarrow> lower s = s"
  by (auto simp: ledger_id_def)

lemma byId_comparator: "comparator byId"
  unfolding byId_def by (intro comparator_or comparator_num lc.comparator_axioms)

interpretation by_id: comparator byId
  by (rule byId_comparator)

lemma byId_antisym: "ledger_id a \<Longrightarrow> ledger_id b \<Longrightarrow> byId a b \<le> 0 \<Longrightarrow> byId b a \<le> 0 \<Longrightarrow> a = b"
  by (auto simp: ledger_id_def byId_def cmp_or_def cmp_num_def split: if_splits)

section \<open>Joined ids\<close>

lemma split_on_plain: "c \<notin> set w \<Longrightarrow> split_on c w = [w]"
  by (induction w) auto

lemma split_on_first: "c \<notin> set w \<Longrightarrow> split_on c (w @ c # r) = w # split_on c r"
  by (induction w) auto

lemma split_join: "ws \<noteq> [] \<Longrightarrow> \<forall>w \<in> set ws. c \<notin> set w \<Longrightarrow> split_on c (join [c] ws) = ws"
  by (induction "[c]" ws rule: join.induct) (auto simp: split_on_plain split_on_first)

lemma join_ids_inj:
  assumes "xs \<noteq> []" "ys \<noteq> []" "\<forall>x \<in> set xs. ledger_id x" "\<forall>y \<in> set ys. ledger_id y" "join ''>'' xs = join ''>'' ys"
  shows "xs = ys"
proof -
  have "split_on (CHR ''>'') (join ''>'' zs) = zs" if "zs \<noteq> []" "\<forall>z \<in> set zs. ledger_id z" for zs
    using that no_arrow by (intro split_join) (auto simp: ledger_id_def)
  then show ?thesis
    using assms by metis
qed

section \<open>Rotations\<close>

lemma position_found: "x \<in> set c \<Longrightarrow> position x c < length c \<and> c ! position x c = x"
  by (induction c) auto

lemma from_smallest_rotates: "\<exists>n. from_smallest c = rotate n c"
proof (cases "c = []")
  case True
  then show ?thesis by (auto simp: from_smallest_def)
next
  case False
  let ?s = "position (hd (js_sort byId c)) c"
  have "hd (js_sort byId c) \<in> set c"
    using False by (metis hd_in_set js_sort_Nil_iff set_js_sort)
  then have "?s < length c"
    using position_found [of "hd (js_sort byId c)" c] by blast
  then have "from_smallest c = rotate ?s c"
    by (simp add: from_smallest_def rotate_drop_take Let_def)
  then show ?thesis by blast
qed

lemma from_smallest_set [simp]: "set (from_smallest c) = set c" "length (from_smallest c) = length c"
  using from_smallest_rotates [of c] by auto

lemma rotate1_cycle: "waits_cycle E c \<Longrightarrow> waits_cycle E (rotate1 c)"
proof (cases c)
  case (Cons x xs)
  assume "waits_cycle E c"
  with Cons show ?thesis
    by (cases xs) (auto simp: waits_cycle_def successively_append_iff successively_Cons hd_append)
qed (simp add: waits_cycle_def)

lemma rotate_cycle: "waits_cycle E c \<Longrightarrow> waits_cycle E (rotate n c)"
  by (induction n) (auto intro: rotate1_cycle)

lemma from_smallest_cycle: "waits_cycle E c \<Longrightarrow> waits_cycle E (from_smallest c)"
  using from_smallest_rotates [of c] rotate_cycle by metis

lemma from_smallest_first:
  assumes "c \<noteq> []"
  shows "smallest_first (from_smallest c)"
proof -
  let ?m = "hd (js_sort byId c)" and ?s = "position (hd (js_sort byId c)) c"
  have "?m \<in> set c"
    using assms by (metis hd_in_set js_sort_Nil_iff set_js_sort)
  then have s: "?s < length c" "c ! ?s = ?m"
    using position_found [of ?m c] by auto
  then have "hd (from_smallest c) = ?m"
    by (simp add: from_smallest_def Let_def hd_drop_conv_nth hd_append)
  moreover have "byId ?m x \<le> 0" if "x \<in> set c" for x
    using that assms by_id.js_sort_head [of c ?m "tl (js_sort byId c)" x]
    by (metis js_sort_Nil_iff list.collapse)
  ultimately show ?thesis
    by (simp add: smallest_first_def list_all_iff)
qed

lemma from_smallest_id:
  assumes c: "c \<noteq> []" "smallest_first c" "\<forall>x \<in> set c. ledger_id x"
  shows "from_smallest c = c"
proof -
  let ?m = "hd (js_sort byId c)"
  have m: "?m \<in> set c"
    using c(1) by (metis hd_in_set js_sort_Nil_iff set_js_sort)
  have "byId ?m (hd c) \<le> 0"
    using c(1) by_id.js_sort_head [of c ?m "tl (js_sort byId c)" "hd c"]
    by (metis js_sort_Nil_iff list.collapse list.set_sel(1))
  moreover have "byId (hd c) ?m \<le> 0"
    using c(2) m by (auto simp: smallest_first_def list_all_iff)
  ultimately have "?m = hd c"
    using c m by (intro byId_antisym) auto
  then show ?thesis
    using c(1) by (cases c) (auto simp: from_smallest_def)
qed

section \<open>The walk\<close>

definition wait_path :: "waits \<Rightarrow> string list \<Rightarrow> bool" where
  "wait_path E p = (p \<noteq> [] \<and> distinct p \<and> length p \<le> MAX_WALK \<and> successively (\<lambda>a b. b \<in> set (nexts E a)) p)"

lemma closing_cycle:
  assumes p: "wait_path E p" and x: "x \<in> set (nexts E (last p))" "x \<in> set p"
  shows "waits_cycle E (dropWhile (\<lambda>y. y \<noteq> x) p) \<and> length (dropWhile (\<lambda>y. y \<noteq> x) p) \<le> MAX_WALK"
proof -
  let ?c = "dropWhile (\<lambda>y. y \<noteq> x) p"
  have ne: "?c \<noteq> []" and hd: "hd ?c = x"
    using x(2) hd_dropWhile [of "\<lambda>y. y \<noteq> x" p] by auto
  have split: "p = takeWhile (\<lambda>y. y \<noteq> x) p @ ?c"
    by simp
  have "distinct ?c" "length ?c \<le> MAX_WALK"
    using p by (auto simp: wait_path_def intro: order_trans [OF length_dropWhile_le])
  moreover have "successively (\<lambda>a b. b \<in> set (nexts E a)) ?c"
    using p split unfolding wait_path_def by (metis successively_append_iff)
  moreover have "last ?c = last p"
    using split ne by (metis last_appendR)
  ultimately show ?thesis
    using ne hd x(1) by (auto simp: waits_cycle_def successively_append_iff)
qed

lemma longer_path:
  assumes "wait_path E p" "x \<in> set (nexts E (last p))" "x \<notin> set p" "length p < MAX_WALK"
  shows "wait_path E (p @ [x])"
  using assms by (auto simp: wait_path_def successively_append_iff)

lemma walk_sound:
  "wait_path E p \<Longrightarrow> k \<in> set (walk E p) \<Longrightarrow> waits_cycle E k \<and> length k \<le> MAX_WALK \<and> smallest_first k"
proof (induction E p rule: walk.induct)
  case (1 E path)
  let ?found = "\<lambda>x. if x \<in> set path then [from_smallest (dropWhile (\<lambda>y. y \<noteq> x) path)]
              else if length path < MAX_WALK then walk E (path @ [x]) else []"
  from "1.prems"(2) have "\<exists>x \<in> set (nexts E (last path)). k \<in> set (?found x)"
    unfolding walk.simps [of E path] by (simp only: set_concat set_map UN_iff bex_simps)
  then obtain x where x: "x \<in> set (nexts E (last path))" "k \<in> set (?found x)"
    by blast
  show ?case
  proof (cases "x \<in> set path")
    case True
    note c = closing_cycle [OF "1.prems"(1) x(1) True]
    have "k = from_smallest (dropWhile (\<lambda>y. y \<noteq> x) path)"
      using x(2) True by simp
    then show ?thesis
      using c from_smallest_cycle from_smallest_first by (auto simp: waits_cycle_def)
  next
    case False
    with x(2) have "length path < MAX_WALK" "k \<in> set (walk E (path @ [x]))"
      by (auto split: if_splits)
    then show ?thesis
      using "1.IH" [OF x(1) False] longer_path [OF "1.prems"(1) x(1) False] by blast
  qed
qed

lemma walk_complete:
  assumes c: "waits_cycle E c" "length c \<le> MAX_WALK"
  shows "0 < n \<Longrightarrow> n \<le> length c \<Longrightarrow> from_smallest c \<in> set (walk E (take n c))"
proof (induction "length c - n" arbitrary: n)
  case 0
  then have n: "take n c = c" by simp
  have "c \<noteq> []" "hd c \<in> set (nexts E (last c))"
    using c(1) by (auto simp: waits_cycle_def successively_append_iff)
  moreover have "dropWhile (\<lambda>y. y \<noteq> hd c) c = c"
    using \<open>c \<noteq> []\<close> by (cases c) auto
  ultimately show ?case
    unfolding n by (subst walk.simps) force
next
  case (Suc k)
  then have n: "n < length c" and IH: "from_smallest c \<in> set (walk E (take (Suc n) c))"
    by auto
  have "successively (\<lambda>a b. b \<in> set (nexts E a)) c" "distinct c"
    using c(1) by (auto simp: waits_cycle_def successively_append_iff)
  moreover have "c = take n c @ c ! n # drop (Suc n) c" "take n c \<noteq> []"
    using n Suc.prems(1) by (auto simp: id_take_nth_drop)
  ultimately have "c ! n \<in> set (nexts E (last (take n c)))" "c ! n \<notin> set (take n c)"
    by (metis successively_append_iff list.sel(1) list.discI, metis distinct.simps(2) distinct_append disjoint_iff list.set_intros(1))
  moreover have "length (take n c) < MAX_WALK"
    using n c(2) by simp
  moreover have "take n c @ [c ! n] = take (Suc n) c"
    using n by (simp add: take_Suc_conv_app_nth)
  ultimately show ?case
    using IH by (subst walk.simps) force
qed

section \<open>The waits as a map\<close>

definition ledger_keys :: "waits \<Rightarrow> bool" where
  "ledger_keys E = (\<forall>i \<in> set (map fst E). ledger_id i)"

lemma ledger_keys_update: "ledger_keys E \<Longrightarrow> ledger_id i \<Longrightarrow> ledger_keys (AList.update i ns E)"
  by (simp add: ledger_keys_def al.keys_put del: set_map)

lemma ledger_keys_delete: "ledger_keys E \<Longrightarrow> ledger_keys (AList.delete i E)"
  by (simp add: ledger_keys_def al.keys_del del: set_map)

lemma wait_edges_keys:
  assumes "\<forall>w \<in> set items. ledger_id (gw_id w)"
  shows "ledger_keys (wait_edges says items)"
proof -
  have one: "ledger_keys (drop_back items w g E)" if "ledger_keys E" for w g E
    using that ledger_keys_delete by (simp add: drop_back_def split: option.split)
  have dropped: "ledger_keys (fold (drop_back items w) gs E)" if "ledger_keys E" for w gs E
    by (rule fold_invariant [where Q = "\<lambda>_. True" and P = ledger_keys]) (simp_all add: that one)
  have add: "ledger_keys (add_waits says w E)" if "ledger_id (gw_id w)" "ledger_keys E" for w E
    using that by (simp add: add_waits_def Let_def ledger_keys_update split: option.split)
  have none: "ledger_keys []"
    by (simp add: ledger_keys_def)
  have "ledger_keys (fold (add_waits says) items [])"
    by (rule fold_invariant [where Q = "\<lambda>w. ledger_id (gw_id w)" and P = ledger_keys])
      (use assms in \<open>simp_all add: add none\<close>)
  then show ?thesis
    unfolding wait_edges_def by (rule fold_invariant [where Q = "\<lambda>_. True" and P = ledger_keys, rotated]) (simp_all add: dropped)
qed

lemma nexts_key: "x \<in> set (nexts E i) \<Longrightarrow> i \<in> set (map fst E)"
  by (metis al.keys_get nexts_def option.case_eq_if empty_iff list.set(1))

lemma cycle_step:
  assumes "waits_cycle E c" "x \<in> set c"
  shows "\<exists>y \<in> set c. y \<in> set (nexts E x)"
proof -
  obtain us vs where c: "c = us @ x # vs"
    using assms(2) by (meson split_list)
  have s: "successively (\<lambda>a b. b \<in> set (nexts E a)) (c @ [hd c])" and ne: "c \<noteq> []"
    using assms(1) by (auto simp: waits_cycle_def)
  have "hd (vs @ [hd c]) \<in> set (nexts E x)"
    using s unfolding c by (simp add: successively_append_iff successively_Cons hd_append split: if_splits)
  moreover have "hd (vs @ [hd c]) \<in> set c"
    using hd_in_set [OF ne] c by (cases vs) auto
  ultimately show ?thesis by blast
qed

lemma cycle_ids: "waits_cycle E c \<Longrightarrow> ledger_keys E \<Longrightarrow> \<forall>x \<in> set c. ledger_id x"
  using cycle_step nexts_key unfolding ledger_keys_def by metis

section \<open>Cycles once each\<close>

lemma update_fresh: "k \<notin> set (map fst m) \<Longrightarrow> AList.update k v m = m @ [(k, v)]"
  by (induction m) auto

lemma keyed_once:
  assumes "inj_on f (set cs \<union> snd ` set out)" "\<forall>(k, c) \<in> set out. k = f c" "distinct (map snd out)"
  shows "distinct (map snd (fold (\<lambda>c. AList.update (f c) c) cs out))
    \<and> set (map snd (fold (\<lambda>c. AList.update (f c) c) cs out)) = snd ` set out \<union> set cs"
  using assms
proof (induction cs arbitrary: out)
  case (Cons c cs)
  show ?case
  proof (cases "c \<in> snd ` set out")
    case True
    then have "(f c, c) \<in> set out"
      using Cons.prems(2) by auto
    moreover have "map fst out = map f (map snd out)"
      using Cons.prems(2) by auto
    then have "distinct (map fst out)"
      using Cons.prems(1,3) by (metis distinct_map inj_on_Un set_map)
    ultimately have "AList.update (f c) c out = out"
      by (intro update_triv) simp
    then show ?thesis
      using Cons.IH [of out] Cons.prems True by (auto simp: insert_absorb)
  next
    case False
    have "c = d" if "(f c, d) \<in> set out" for d
      using that Cons.prems(2) inj_onD [OF Cons.prems(1), of c d] by force
    then have "f c \<notin> set (map fst out)"
      using False by force
    then have u: "AList.update (f c) c out = out @ [(f c, c)]"
      by (rule update_fresh)
    show ?thesis
      using Cons.IH [of "out @ [(f c, c)]"] Cons.prems False by (auto simp: u Un_ac)
  qed
qed simp

lemma found_cycles:
  assumes "ledger_keys E"
  shows "set (concat (map (\<lambda>(i, _). walk E [i]) E)) = {c. waits_cycle E c \<and> length c \<le> MAX_WALK \<and> smallest_first c}"
proof (intro equalityI subsetI)
  fix c
  assume "c \<in> set (concat (map (\<lambda>(i, _). walk E [i]) E))"
  then obtain i where "c \<in> set (walk E [i])"
    by auto
  then show "c \<in> {c. waits_cycle E c \<and> length c \<le> MAX_WALK \<and> smallest_first c}"
    using walk_sound [of E "[i]"] by (simp add: wait_path_def MAX_WALK_def)
next
  fix c
  assume "c \<in> {c. waits_cycle E c \<and> length c \<le> MAX_WALK \<and> smallest_first c}"
  then have c: "waits_cycle E c" "length c \<le> MAX_WALK" "smallest_first c"
    by auto
  then have ne: "c \<noteq> []"
    by (simp add: waits_cycle_def)
  then have "take 1 c = [hd c]" "hd c \<in> set (map fst E)"
    using cycle_step [OF c(1), of "hd c"] nexts_key by (cases c; force)+
  moreover have "from_smallest c = c"
    using from_smallest_id [OF ne c(3)] cycle_ids [OF c(1) assms] by blast
  moreover have "from_smallest c \<in> set (walk E (take 1 c))"
    using walk_complete [OF c(1,2), of 1] ne by (simp add: Suc_le_eq)
  ultimately have "hd c \<in> fst ` set E" "c \<in> set (walk E [hd c])"
    by auto
  then show "c \<in> set (concat (map (\<lambda>(i, _). walk E [i]) E))"
    by force
qed

lemma cycles_once:
  fixes says :: "gated \<Rightarrow> string option" and items :: "gated list"
  assumes "\<forall>w \<in> set items. ledger_id (gw_id w)"
  defines "E \<equiv> wait_edges says items"
  shows "distinct (waitCycles says items)
    \<and> set (waitCycles says items) = {c. waits_cycle E c \<and> length c \<le> MAX_WALK \<and> smallest_first c}"
proof -
  have k: "ledger_keys E"
    unfolding E_def by (rule wait_edges_keys [OF assms(1)])
  let ?cs = "concat (map (\<lambda>(i, _). walk E [i]) E)"
  have "\<forall>c \<in> set ?cs. c \<noteq> [] \<and> (\<forall>x \<in> set c. ledger_id x)"
    using found_cycles [OF k] cycle_ids [OF _ k] by (auto simp: waits_cycle_def)
  then have "inj_on (join ''>'') (set ?cs \<union> snd ` set [])"
    by (intro inj_onI join_ids_inj) auto
  then show ?thesis
    using keyed_once [of "join ''>''" ?cs "[]"] found_cycles [OF k]
    by (simp add: waitCycles_def Let_def E_def del: set_concat)
qed

end
