(* ===== verification/GateLaws.thy ===== *)
theory GateLaws
  imports GateReads GateCycleLaws
begin

text \<open>
  The lemmas the gates' properties share: same waits are an equivalence, what each operation leaves of a
  request's gates, the waits read from a ledger, and the verdicts of a gate past its bound.
\<close>

section \<open>Gates of a request\<close>

lemma sameGate_refl [simp]: "sameGate g g"
  by (simp add: sameGate_def)

lemma sameGate_sym: "sameGate a b \<longleftrightarrow> sameGate b a"
  by (auto simp: sameGate_def)

lemma sameGate_trans: "sameGate a b \<Longrightarrow> sameGate b c \<Longrightarrow> sameGate a c"
  by (simp add: sameGate_def)

lemma sameGate_kind: "sameGate a b \<Longrightarrow> ak_kind a = ak_kind b"
  by (simp add: sameGate_def)

abbreviation apart :: "gate list \<Rightarrow> bool" where
  "apart gs \<equiv> sorted_wrt (\<lambda>a b. \<not> sameGate a b) gs"

lemma apart_filter: "apart gs \<Longrightarrow> apart (filter P gs)"
  by (rule sorted_wrt_filter)

lemma apart_eq:
  assumes "apart gs" "a \<in> set gs" "b \<in> set gs" "sameGate a b"
  shows "a = b"
  using assms by (induction gs) (auto simp: sameGate_sym)

lemma apart_first_gates: "apart (first_gates gs)"
  by (induction gs) (auto intro: apart_filter)

lemma first_gates_set: "set (first_gates gs) \<subseteq> set gs"
  by (induction gs) auto

lemma first_gates_Nil [simp]: "first_gates gs = [] \<longleftrightarrow> gs = []"
  by (cases gs) auto

definition gates_ok :: "gated \<Rightarrow> bool" where
  "gates_ok w =
     (apart (gatesOf w) \<and> list_all (\<lambda>g. ak_kind g = KRequest \<longrightarrow> ak_holder g = None) (gatesOf w)
      \<and> (gw_status w = WsBlocked \<longrightarrow> gatesOf w \<noteq> []))"

lemma gates_okI:
  "apart (gatesOf w) \<Longrightarrow> list_all (\<lambda>g. ak_kind g = KRequest \<longrightarrow> ak_holder g = None) (gatesOf w)
    \<Longrightarrow> (gw_status w = WsBlocked \<Longrightarrow> gatesOf w \<noteq> []) \<Longrightarrow> gates_ok w"
  by (simp add: gates_ok_def)

lemma gatesOf_set_gates [simp]: "gatesOf (set_gates gs w) = gs"
  by (cases gs) (simp_all add: set_gates_def gatesOf_def)

lemma set_gates_fields [simp]:
  "gw_id (set_gates gs w) = gw_id w" "gw_status (set_gates gs w) = gw_status w" "gw_sessions (set_gates gs w) = gw_sessions w"
  by (cases gs; simp add: set_gates_def)+

lemma gatesOf_status [simp]: "gatesOf (w\<lparr>gw_status := st\<rparr>) = gatesOf w"
  by (simp add: gatesOf_def split: option.split)

lemma is_blocked_iff: "is_blocked w \<longleftrightarrow> gw_status w = WsBlocked \<and> gatesOf w \<noteq> []"
  by (auto simp: is_blocked_def gatesOf_def split: option.splits)

lemma gates_ok_none [simp]: "st \<noteq> WsBlocked \<Longrightarrow> gates_ok ((set_gates [] w)\<lparr>gw_status := st\<rparr>)"
  by (simp add: gates_ok_def)

lemma gates_ok_fewer:
  assumes "gates_ok w" "gs \<noteq> []" "apart gs" "set gs \<subseteq> set (gatesOf w)"
  shows "gates_ok (set_gates gs w)"
  using assms by (auto simp: gates_ok_def list_all_iff)

section \<open>What the operations leave\<close>

lemma filter_same_length: "length (filter P xs) = length xs \<Longrightarrow> filter P xs = xs"
  by (metis filter_True length_filter_less less_irrefl)

lemma unblock_gates: "is_blocked w \<Longrightarrow> gatesOf (fst (unblock_work e w)) = [] \<and> gw_status (fst (unblock_work e w)) \<in> {WsActive, WsNew}"
  by (simp add: unblock_work_def Let_def)

lemma unblock_ok: "gates_ok w \<Longrightarrow> gates_ok (fst (unblock_work e w))"
  by (simp add: unblock_work_def Let_def)

lemma left_gates_sub: "set (left_gates cleared gs) \<subseteq> set gs"
  by (auto simp: left_gates_def)

lemma gatesCleared_ok: "gates_ok w \<Longrightarrow> gates_ok (fst (gatesCleared e cleared w))"
  using left_gates_sub apart_filter
  by (auto simp: gatesCleared_def Let_def left_gates_def gates_ok_def list_all_iff)

lemma gatesCleared_gates:
  assumes "is_blocked w" "left_gates cleared (gatesOf w) \<noteq> []"
  shows "gatesOf (fst (gatesCleared e cleared w)) = left_gates cleared (gatesOf w)
    \<and> gw_status (fst (gatesCleared e cleared w)) = WsBlocked"
proof (cases "length (left_gates cleared (gatesOf w)) = length (gatesOf w)")
  case True
  then have "left_gates cleared (gatesOf w) = gatesOf w"
    unfolding left_gates_def by (rule filter_same_length)
  then show ?thesis
    using assms by (simp add: gatesCleared_def is_blocked_iff)
next
  case False
  then show ?thesis
    using assms by (simp add: gatesCleared_def is_blocked_iff Let_def)
qed

lemma stamp_gates_fields [simp]:
  "gw_id (fst (stamp_gates e w)) = gw_id w" "gw_status (fst (stamp_gates e w)) = gw_status w"
  "gatesOf (fst (stamp_gates e w)) = (if gw_status w \<in> set GATE_STATUSES then gatesOf w else [])"
  by (simp_all add: stamp_gates_def Let_def)

lemma stamp_gates_ok: "gw_status w \<noteq> WsBlocked \<Longrightarrow> gatesOf w = [] \<or> gw_status w \<notin> set GATE_STATUSES \<Longrightarrow> gates_ok (fst (stamp_gates e w))"
  by (auto simp: gates_ok_def)

lemma blockerStuck_after:
  "is_blocked w \<Longrightarrow> gw_status (fst (blockerStuck e g w)) = WsStalled \<and> gatesOf (fst (blockerStuck e g w)) = []"
  by (simp add: blockerStuck_def split_beta GATE_STATUSES_def)

lemma blockerDecide_after:
  "is_blocked w \<Longrightarrow> gw_status (fst (blockerDecide e g w)) = WsQuestion \<and> gatesOf (fst (blockerDecide e g w)) = []"
  by (simp add: blockerDecide_def split_beta)

lemma blockerStuck_ok: "gates_ok w \<Longrightarrow> gates_ok (fst (blockerStuck e g w))"
  by (simp add: blockerStuck_def split_beta stamp_gates_ok GATE_STATUSES_def)

lemma blockerDecide_ok: "gates_ok w \<Longrightarrow> gates_ok (fst (blockerDecide e g w))"
  by (simp add: blockerDecide_def split_beta stamp_gates_ok)

lemma dropSelfGates_ok: "gates_ok w \<Longrightarrow> gates_ok (fst (dropSelfGates e i w))"
  by (simp add: dropSelfGates_def unblock_ok gatesCleared_ok)

lemma requeueCapacity_ok: "gates_ok w \<Longrightarrow> gates_ok (fst (requeueCapacity e cap w))"
  by (simp add: requeueCapacity_def stamp_gates_ok)

lemma apart_remove1: "apart gs \<Longrightarrow> apart (remove1 g gs)"
  by (induction gs) (auto dest: notin_set_remove1 split: if_splits intro: sorted_wrt_append [THEN iffD1])

lemma mergedOnGreen_ok:
  assumes "gates_ok w"
  shows "gates_ok (fst (mergedOnGreen e only w))"
proof -
  have "gates_ok (set_gates (remove1 g (gatesOf w)) w)" if "remove1 g (gatesOf w) \<noteq> []" for g
    using assms that by (intro gates_ok_fewer) (auto simp: gates_ok_def apart_remove1 set_remove1_subset)
  then show ?thesis
    using assms unblock_ok gatesCleared_ok by (auto simp: mergedOnGreen_def Let_def split: option.split)
qed

lemma clearAll_ok: "gates_ok w \<Longrightarrow> gates_ok (fst (clearAll e f w))"
  using unblock_ok mergedOnGreen_ok by (auto simp: clearAll_def Let_def split_beta split: option.split)

lemma merge_one_ok: "gates_ok (fst s) \<Longrightarrow> gates_ok (fst (merge_one e g s))"
  using mergedOnGreen_ok by (auto simp: merge_one_def Let_def split_beta split: option.split prod.split)

lemma merge_all_ok: "gates_ok (fst s) \<Longrightarrow> gates_ok (fst (fold (merge_one e) gs s))"
  by (induction gs arbitrary: s) (simp_all add: merge_one_ok)

lemma clearSome_ok: "gates_ok w \<Longrightarrow> gates_ok (fst (clearSome e f clear w))"
  using merge_all_ok [of "(w, [], _)"] gatesCleared_ok by (simp add: clearSome_def Let_def split_beta)

lemma look_gates_ok: "gates_ok w \<Longrightarrow> gates_ok (fst (look_gates e f w))"
  using blockerStuck_ok blockerDecide_ok clearAll_ok clearSome_ok
  by (simp add: look_gates_def Let_def split: option.split)

lemma take_off_ok: "gates_ok w \<Longrightarrow> gates_ok (fst (take_off e g w))"
  by (simp add: take_off_def unblock_ok gatesCleared_ok)

lemma sweep_one_ok: "gates_ok w \<Longrightarrow> gates_ok (fst (sweep_one e d w))"
  by (simp add: sweep_one_def take_off_ok split: option.split)

lemmas gate_ops_ok = look_gates_ok take_off_ok sweep_one_ok requeueCapacity_ok dropSelfGates_ok

section \<open>Setting gates\<close>

lemma makeGate_holder: "ak_kind (makeGate d b t by') = KRequest \<Longrightarrow> ak_holder (makeGate d b t by') = None"
  by (simp add: makeGate_def Let_def)

lemma with_pilot_gates: "gs \<noteq> [] \<Longrightarrow> with_pilot p gs \<noteq> []" "apart gs \<Longrightarrow> apart (with_pilot p gs)"
  "list_all (\<lambda>g. ak_kind g = KRequest \<longrightarrow> ak_holder g = None) gs
    \<Longrightarrow> list_all (\<lambda>g. ak_kind g = KRequest \<longrightarrow> ak_holder g = None) (with_pilot p gs)"
  by (auto simp: with_pilot_def split: option.splits list.splits)

lemma joined_apart:
  assumes "apart kept" "apart own" "\<forall>k \<in> set kept. \<forall>g \<in> set own. \<not> sameGate g k"
  shows "apart (kept @ own)"
  using assms by (auto simp: sorted_wrt_append sameGate_sym)

lemma single_apart: "length gs \<le> 1 \<Longrightarrow> apart gs"
  by (cases gs) auto

lemma those_length: "those xs = Some ys \<Longrightarrow> length ys = length xs"
  by (induction xs arbitrary: ys) (auto split: option.splits)

lemma block_gates_ok:
  assumes "apart kept" "bl_blockers a = [] \<Longrightarrow> length fresh \<le> 1"
  shows "apart (block_gates a kept fresh)" "set (block_gates a kept fresh) \<subseteq> set kept \<union> set fresh"
    "block_gates a kept fresh = [] \<Longrightarrow> kept = [] \<and> fresh = []"
proof -
  have "apart (filter (\<lambda>k. \<not> list_ex (\<lambda>x. sameGate x k) fresh) kept @ fresh)" if "length fresh \<le> 1"
    by (rule joined_apart [OF apart_filter [OF assms(1)] single_apart [OF that]]) (auto simp: list_ex_iff)
  then show "apart (block_gates a kept fresh)"
    using assms apart_first_gates by (simp add: block_gates_def)
  show "set (block_gates a kept fresh) \<subseteq> set kept \<union> set fresh"
    using first_gates_set [of fresh] by (auto simp: block_gates_def)
  show "block_gates a kept fresh = [] \<Longrightarrow> kept = [] \<and> fresh = []"
    by (auto simp: block_gates_def split: if_splits)
qed

lemma block_work_ok:
  assumes "gates_ok w" "block_work cap u d f a w = Inr w'"
  shows "gates_ok w'"
proof -
  obtain bs where bs: "those (map u (bl_asked a)) = Some bs" "\<not> (bl_asked a = [] \<and> gatesOf w = [])"
    and w': "w' = (set_gates (block_gates a (gatesOf w) (map (\<lambda>b. makeGate d b (gf_now f) ''dispatcher'') bs)) w)\<lparr>gw_status := WsBlocked\<rparr>"
    using assms(2) by (auto simp: block_work_def Let_def split: if_splits option.splits)
  let ?fresh = "map (\<lambda>b. makeGate d b (gf_now f) ''dispatcher'') bs"
  have "length bs = length (bl_asked a)"
    using those_length [OF bs(1)] by simp
  then have n: "bl_blockers a = [] \<Longrightarrow> length ?fresh \<le> 1" "?fresh = [] \<longleftrightarrow> bl_asked a = []"
    by (auto simp: bl_asked_def split: option.splits)
  have k: "apart (gatesOf w)"
    using assms(1) by (simp add: gates_ok_def)
  note b = block_gates_ok [OF k, of a ?fresh, OF n(1)]
  show ?thesis
    unfolding w'
  proof (rule gates_okI)
    show "list_all (\<lambda>g. ak_kind g = KRequest \<longrightarrow> ak_holder g = None)
        (gatesOf ((set_gates (block_gates a (gatesOf w) ?fresh) w)\<lparr>gw_status := WsBlocked\<rparr>))"
      using b(2) assms(1) makeGate_holder by (fastforce simp: gates_ok_def list_all_iff)
  qed (use b bs(2) n(2) in auto)
qed

lemma workerBlocked_ok:
  assumes "gates_ok w" "workerBlocked cap d p m f sid a w = Inr w'"
  shows "gates_ok w'"
proof -
  obtain asked where asked: "asks_of m a = Inr asked"
    and w': "w' = (let own = with_pilot p (first_gates (map (\<lambda>b. makeGate d b (gf_now f) (''worker '' @ sid)) asked));
      kept = filter (\<lambda>k. \<not> list_ex (\<lambda>g. sameGate g k) own) (othersGates w (Some sid))
      in (set_gates (kept @ own) w)\<lparr>gw_status := WsBlocked\<rparr>)"
    using assms(2) by (auto simp: workerBlocked_def Let_def split: if_splits sum.splits option.splits)
  have ne: "asked \<noteq> []"
    using asked by (auto simp: asks_of_def Let_def split: option.splits if_splits list.splits)
  let ?gs = "first_gates (map (\<lambda>b. makeGate d b (gf_now f) (''worker '' @ sid)) asked)"
  have h: "list_all (\<lambda>g. ak_kind g = KRequest \<longrightarrow> ak_holder g = None) ?gs"
    using first_gates_set makeGate_holder by (fastforce simp: list_all_iff)
  have o': "set (othersGates w (Some sid)) \<subseteq> set (gatesOf w)" "apart (othersGates w (Some sid))"
    using assms(1) by (auto simp: othersGates_def gates_ok_def intro: apart_filter)
  show ?thesis
    unfolding w' Let_def
  proof (rule gates_okI)
    show "apart (gatesOf ((set_gates (filter (\<lambda>k. \<not> list_ex (\<lambda>g. sameGate g k) (with_pilot p ?gs)) (othersGates w (Some sid))
        @ with_pilot p ?gs) w)\<lparr>gw_status := WsBlocked\<rparr>))"
      using o'(2) with_pilot_gates(2) [OF apart_first_gates]
      by (simp only: gatesOf_status gatesOf_set_gates) (intro joined_apart apart_filter, auto simp: list_ex_iff)
  qed (use with_pilot_gates h o'(1) ne assms(1) in \<open>auto simp: gates_ok_def list_all_iff\<close>)
qed

section \<open>Over the ledger\<close>

definition all_ok :: "gated_ledger \<Rightarrow> bool" where
  "all_ok items = list_all gates_ok items"

lemma get_gated_in: "get_gated items i = Some w \<Longrightarrow> w \<in> set items \<and> gw_id w = lower i"
  using find_in by (fastforce simp: get_gated_def)

lemma put_gated_ok: "all_ok items \<Longrightarrow> gates_ok w \<Longrightarrow> all_ok (put_gated w items)"
  by (auto simp: all_ok_def put_gated_def list_all_iff)

lemma upd_gated_ok:
  assumes "all_ok (fst s)" "\<And>w. gates_ok w \<Longrightarrow> gates_ok (fst (step w))"
  shows "all_ok (fst (upd_gated i step s))"
proof (cases "get_gated (fst s) i")
  case (Some w)
  then have "gates_ok w"
    using assms(1) get_gated_in by (fastforce simp: all_ok_def list_all_iff)
  then show ?thesis
    using Some assms put_gated_ok by (simp add: upd_gated_def)
qed (simp add: upd_gated_def assms(1))

lemma fold_all_ok: "all_ok (fst s) \<Longrightarrow> (\<And>x s. all_ok (fst s) \<Longrightarrow> all_ok (fst (f x s))) \<Longrightarrow> all_ok (fst (fold f xs s))"
  by (induction xs arbitrary: s) simp_all

lemma tick_ok:
  assumes "all_ok items"
  shows "all_ok (fst (watch_tick e f cap says d items))"
proof -
  let ?start = "(map (fst \<circ> requeueCapacity e cap) items, concat (map (snd \<circ> requeueCapacity e cap) items))"
  have "all_ok (fst ?start)"
    using assms requeueCapacity_ok by (auto simp: all_ok_def list_all_iff)
  then have "all_ok (fst (look_all e f ?start))"
    unfolding look_all_def by (intro fold_all_ok upd_gated_ok look_gates_ok) auto
  then have "all_ok (fst (break_cycles e f says (look_all e f ?start)))"
    unfolding break_cycles_def by (intro fold_all_ok) (auto intro: upd_gated_ok take_off_ok split: option.split)
  then show ?thesis
    unfolding watch_tick_def Let_def by (intro fold_all_ok upd_gated_ok sweep_one_ok) auto
qed

end
