(* ===== verification/GateLookLaws.thy ===== *)
theory GateLookLaws
  imports GateLaws
begin

text \<open>
  What a look leaves of one request: the gates that cleared go, the others stay, merges on green among them;
  who is resumed; and what the waits of a ledger come from.
\<close>

section \<open>Gates going one by one\<close>

lemma apart_distinct: "apart gs \<Longrightarrow> distinct gs"
  by (induction gs) auto

lemma find_apart:
  assumes "apart gs" "g \<in> set gs" "P g"
  shows "find (\<lambda>x. sameGate x g \<and> P x) gs = Some g"
  using assms by (induction gs) (auto simp: sameGate_sym)

lemma left_gates_apart:
  assumes "apart gs" "set cs \<subseteq> set gs"
  shows "left_gates cs gs = filter (\<lambda>g. g \<notin> set cs) gs"
proof -
  have "list_ex (\<lambda>c. sameGate c g) cs \<longleftrightarrow> g \<in> set cs" if "g \<in> set gs" for g
    using apart_eq [OF assms(1) _ that] assms(2) by (auto simp: list_ex_iff subset_iff intro: bexI [of _ g])
  then show ?thesis
    unfolding left_gates_def by (intro filter_cong) auto
qed

lemma merged_among:
  assumes w: "apart (gatesOf w)" "is_blocked w" and g: "g \<in> set (gatesOf w)" "ga_merge g \<noteq> None"
    and h: "h \<in> set (gatesOf w)" "h \<noteq> g"
  shows "is_blocked (fst (mergedOnGreen e (Some g) w)) \<and> gatesOf (fst (mergedOnGreen e (Some g) w)) = filter (\<lambda>x. x \<noteq> g) (gatesOf w)"
proof -
  have found: "find (\<lambda>x. sameGate x g \<and> ga_merge x \<noteq> None) (gatesOf w) = Some g"
    by (rule find_apart [OF w(1) g(1), of "\<lambda>x. ga_merge x \<noteq> None"]) (rule g(2))
  have rest: "remove1 g (gatesOf w) = filter (\<lambda>x. x \<noteq> g) (gatesOf w)"
    using apart_distinct [OF w(1)] by (simp add: distinct_remove1_removeAll removeAll_filter_not_eq neq_commute)
  moreover have left: "left_gates [g] (gatesOf w) = filter (\<lambda>x. x \<noteq> g) (gatesOf w)"
    using left_gates_apart [OF w(1), of "[g]"] g(1) by simp
  moreover have ne: "filter (\<lambda>x. x \<noteq> g) (gatesOf w) \<noteq> []"
    using h by (auto simp: filter_empty_conv)
  moreover have "is_blocked (fst (gatesCleared e [g] w)) \<and> gatesOf (fst (gatesCleared e [g] w)) = filter (\<lambda>x. x \<noteq> g) (gatesOf w)"
    using gatesCleared_gates [OF w(2), of "[g]" e] left ne by (simp add: is_blocked_iff)
  ultimately show ?thesis
    using w(2) found by (auto simp: mergedOnGreen_def Let_def is_blocked_iff)
qed

lemma pilot_has_merge: "pilot_gate g = Some x \<Longrightarrow> ga_merge g \<noteq> None"
  by (auto simp: pilot_gate_def split: option.splits)

lemma merge_one_run:
  assumes "pilot_gate g = Some (r, sha)"
  shows "we_merge e r sha \<Longrightarrow> merge_one e g (w, did, rest)
      = (fst (mergedOnGreen e (Some g) w), did @ EvMerged r sha # snd (mergedOnGreen e (Some g) w), rest)"
    and "\<not> we_merge e r sha \<Longrightarrow> merge_one e g (w, did, rest) = (w, did, rest @ [g])"
  using assms by (simp_all add: merge_one_def split_beta)

text \<open>The merges of a look among gates that stay: each takes its own gate off, or leaves it to be cleared.\<close>

lemma merges_leave:
  assumes "apart (gatesOf w)" "is_blocked w" "distinct ms" "set ms \<subseteq> set (gatesOf w)" "\<forall>g \<in> set ms. pilot_gate g \<noteq> None"
    and "h \<in> set (gatesOf w)" "h \<notin> set ms" "set ms \<inter> set rest = {}" "fold (merge_one e) ms (w, did, rest) = (w', did', rest')"
  shows "is_blocked w' \<and> gatesOf w' = filter (\<lambda>x. x \<in> set ms \<longrightarrow> x \<in> set rest') (gatesOf w)
    \<and> set rest \<subseteq> set rest' \<and> set rest' \<subseteq> set rest \<union> set ms"
  using assms
proof (induction ms arbitrary: w did rest)
  case Nil
  then show ?case by simp
next
  case (Cons g ms)
  obtain r sha where p: "pilot_gate g = Some (r, sha)"
    using Cons.prems(5) by (cases "pilot_gate g") auto
  show ?case
  proof (cases "we_merge e r sha")
    case True
    let ?w = "fst (mergedOnGreen e (Some g) w)"
    have m: "is_blocked ?w" "gatesOf ?w = filter (\<lambda>x. x \<noteq> g) (gatesOf w)"
      using merged_among [OF Cons.prems(1,2), of g h e] Cons.prems(4,6,7) pilot_has_merge [OF p] by auto
    have "fold (merge_one e) ms (?w, did @ EvMerged r sha # snd (mergedOnGreen e (Some g) w), rest) = (w', did', rest')"
      using Cons.prems(9) by (simp add: merge_one_run(1) [OF p True])
    then have IH: "is_blocked w' \<and> gatesOf w' = filter (\<lambda>x. x \<in> set ms \<longrightarrow> x \<in> set rest') (gatesOf ?w)
        \<and> set rest \<subseteq> set rest' \<and> set rest' \<subseteq> set rest \<union> set ms"
      using Cons.prems by (intro Cons.IH [OF _ m(1)]) (auto simp: m(2) intro: apart_filter)
    then have "g \<notin> set rest'"
      using Cons.prems(3,8) by auto
    then have "filter (\<lambda>x. x \<in> set ms \<longrightarrow> x \<in> set rest') (gatesOf ?w) = filter (\<lambda>x. x \<in> set (g # ms) \<longrightarrow> x \<in> set rest') (gatesOf w)"
      by (auto simp: m(2) filter_filter intro: filter_cong)
    then show ?thesis
      using IH by auto
  next
    case False
    then have "fold (merge_one e) ms (w, did, rest @ [g]) = (w', did', rest')"
      using Cons.prems(9) by (simp add: merge_one_run(2) [OF p])
    then have IH: "is_blocked w' \<and> gatesOf w' = filter (\<lambda>x. x \<in> set ms \<longrightarrow> x \<in> set rest') (gatesOf w)
        \<and> set (rest @ [g]) \<subseteq> set rest' \<and> set rest' \<subseteq> set (rest @ [g]) \<union> set ms"
      using Cons.prems by (intro Cons.IH) auto
    moreover have "filter (\<lambda>x. x \<in> set ms \<longrightarrow> x \<in> set rest') (gatesOf w) = filter (\<lambda>x. x \<in> set (g # ms) \<longrightarrow> x \<in> set rest') (gatesOf w)"
      using IH by (intro filter_cong) auto
    ultimately show ?thesis
      by auto
  qed
qed

lemma clearSome_leaves:
  assumes w: "apart (gatesOf w)" "is_blocked w" and h: "h \<in> set (gatesOf w)" "\<not> clear h"
  shows "is_blocked (fst (clearSome e f clear w)) \<and> gatesOf (fst (clearSome e f clear w)) = filter (\<lambda>g. \<not> clear g) (gatesOf w)"
proof -
  let ?gs = "gatesOf w"
  let ?ms = "filter (merges_now f clear ?gs) (filter clear ?gs)"
  let ?rest = "filter (\<lambda>g. \<not> merges_now f clear ?gs g) (filter clear ?gs)"
  obtain w' did rest where run: "fold (merge_one e) ?ms (w, [], ?rest) = (w', did, rest)"
    by (metis prod_cases3)
  have d: "distinct ?ms"
    using apart_distinct [OF w(1)] by simp
  have sub: "set ?ms \<subseteq> set ?gs"
    by auto
  have pilots: "\<forall>g \<in> set ?ms. pilot_gate g \<noteq> None"
    by (auto simp: merges_now_def split: option.splits)
  have r: "is_blocked w'" "gatesOf w' = filter (\<lambda>x. x \<in> set ?ms \<longrightarrow> x \<in> set rest) ?gs"
    "set ?rest \<subseteq> set rest" "set rest \<subseteq> set ?rest \<union> set ?ms"
    using merges_leave [OF w d sub pilots h(1) _ _ run] h(2) by auto
  have "set rest \<subseteq> set (gatesOf w')"
    using r(2,4) by auto
  then have left: "left_gates rest (gatesOf w') = filter (\<lambda>g. g \<notin> set rest) (gatesOf w')"
    using w(1) r(2) by (intro left_gates_apart) (auto intro: apart_filter)
  also have "\<dots> = filter (\<lambda>g. \<not> clear g) ?gs"
    using r(3,4) by (auto simp: r(2) filter_filter intro!: filter_cong)
  finally have left: "left_gates rest (gatesOf w') = filter (\<lambda>g. \<not> clear g) ?gs" .
  moreover have "filter (\<lambda>g. \<not> clear g) ?gs \<noteq> []"
    using h by (auto simp: filter_empty_conv)
  ultimately have "is_blocked (fst (gatesCleared e rest w')) \<and> gatesOf (fst (gatesCleared e rest w')) = filter (\<lambda>g. \<not> clear g) ?gs"
    using gatesCleared_gates [OF r(1), of rest e] by (simp add: is_blocked_iff)
  moreover have "gatesOf w' = filter (\<lambda>g. \<not> clear g) ?gs" if "rest = []"
    using left that by (simp add: left_gates_def)
  ultimately show ?thesis
    using run r(1) by (simp add: clearSome_def Let_def split_beta)
qed

section \<open>A look's outcome\<close>

definition some_gate :: "gate_facts \<Rightarrow> gated \<Rightarrow> gate_state \<Rightarrow> bool" where
  "some_gate f w v = (\<exists>g \<in> set (gatesOf w). state_on f w g = v)"

lemma find_some_gate: "find (\<lambda>g. state_on f w g = v) (gatesOf w) = None \<longleftrightarrow> \<not> some_gate f w v"
  by (auto simp: find_None_iff some_gate_def)

lemma clearAll_gates:
  assumes "is_blocked w"
  shows "gatesOf (fst (clearAll e f w)) = [] \<and> gw_status (fst (clearAll e f w)) \<in> {WsActive, WsNew}"
proof -
  have "gatesOf (fst (mergedOnGreen e None w)) = [] \<and> gw_status (fst (mergedOnGreen e None w)) \<in> {WsActive, WsNew}"
    using assms unblock_gates [OF assms] by (simp add: mergedOnGreen_def Let_def split: option.split)
  then show ?thesis
    using unblock_gates [OF assms, of e] by (simp add: clearAll_def split_beta split: option.split)
qed

lemma look_stuck:
  assumes "is_blocked w" "some_gate f w VStuck"
  shows "gw_status (fst (look_gates e f w)) = WsStalled \<and> gatesOf (fst (look_gates e f w)) = []"
proof (cases "find (\<lambda>g. state_on f w g = VStuck) (gatesOf w)")
  case None
  then show ?thesis using assms(2) by (simp add: find_some_gate)
next
  case (Some g)
  then show ?thesis using assms(1) blockerStuck_after [OF assms(1)] by (simp add: look_gates_def)
qed

lemma look_decide:
  assumes "is_blocked w" "\<not> some_gate f w VStuck" "some_gate f w VDecide"
  shows "gw_status (fst (look_gates e f w)) = WsQuestion \<and> gatesOf (fst (look_gates e f w)) = []"
proof (cases "find (\<lambda>g. state_on f w g = VDecide) (gatesOf w)")
  case None
  then show ?thesis using assms(3) by (simp add: find_some_gate)
next
  case (Some g)
  then show ?thesis
    using assms(1) find_some_gate [THEN iffD2, OF assms(2)] blockerDecide_after [OF assms(1)] by (simp add: look_gates_def)
qed

lemma look_plain:
  assumes "is_blocked w" "\<not> some_gate f w VStuck" "\<not> some_gate f w VDecide"
  shows "look_gates e f w =
    (if list_all (\<lambda>g. state_on f w g = VClear) (gatesOf w) then clearAll e f w
     else if list_ex (\<lambda>g. state_on f w g = VClear) (gatesOf w) then clearSome e f (\<lambda>g. state_on f w g = VClear) w
     else (w, []))"
  using assms(1) find_some_gate [THEN iffD2, OF assms(2)] find_some_gate [THEN iffD2, OF assms(3)]
  by (simp add: look_gates_def)

lemma look_clear:
  assumes "is_blocked w" "\<forall>g \<in> set (gatesOf w). state_on f w g = VClear"
  shows "look_gates e f w = clearAll e f w"
  using assms look_plain [OF assms(1), of f e] by (auto simp: some_gate_def list_all_iff)

lemma look_partly:
  assumes w: "is_blocked w" "apart (gatesOf w)" and "\<not> some_gate f w VStuck" "\<not> some_gate f w VDecide"
    and h: "h \<in> set (gatesOf w)" "state_on f w h \<noteq> VClear"
  shows "gw_status (fst (look_gates e f w)) = WsBlocked
    \<and> gatesOf (fst (look_gates e f w)) = filter (\<lambda>g. state_on f w g \<noteq> VClear) (gatesOf w)"
proof (cases "list_ex (\<lambda>g. state_on f w g = VClear) (gatesOf w)")
  case True
  then show ?thesis
    using look_plain [OF w(1) assms(3,4), of e] clearSome_leaves [OF w(2,1) h(1), of "\<lambda>g. state_on f w g = VClear" e f] h
    by (auto simp: list_all_iff is_blocked_iff)
next
  case False
  then have "filter (\<lambda>g. state_on f w g \<noteq> VClear) (gatesOf w) = gatesOf w"
    by (simp add: filter_id_conv list_ex_iff)
  then show ?thesis
    using look_plain [OF w(1) assms(3,4), of e] False h w(1) by (auto simp: list_all_iff is_blocked_iff)
qed

section \<open>Who is resumed\<close>

lemma in_concat_map: "x \<in> set xs \<Longrightarrow> y \<in> set (f x) \<Longrightarrow> y \<in> set (concat (map f xs))"
  by auto

lemma resumed_event: "did = map EvResumed xs \<Longrightarrow> sid \<in> set xs \<Longrightarrow> EvResumed sid \<in> set did"
  by simp

lemma setters_of_set: "set (setters_of gs) = {sid. \<exists>g \<in> set gs. gateSetter g = Some sid}"
  by (force simp: setters_of_def List.map_filter_def)

lemma distinct_single: "distinct xs \<Longrightarrow> set xs = {x} \<Longrightarrow> xs = [x]"
  by (cases xs) (auto simp: subset_singleton_iff)

lemma own_setters: "g \<in> set gs \<Longrightarrow> gateSetter g = Some sid \<Longrightarrow> setters_of (own_gates sid gs) = [sid]"
  by (rule distinct_single) (auto simp: setters_of_set own_gates_def, simp add: setters_of_def)

lemma setter_resumed:
  assumes "setters_of gs = [sid]" "worker_there e w sid" "we_wake e sid"
  shows "resumeGatedWorker e w gs = [sid]"
  using assms by (simp add: resumeGatedWorker_def gateOwner_def)

lemma unblock_resumes:
  assumes w: "is_blocked w" and g: "g \<in> set (gatesOf w)" "gateSetter g = Some sid" and s: "worker_there e w sid" "we_wake e sid"
  shows "EvResumed sid \<in> set (snd (unblock_work e w))"
proof -
  let ?gs = "gatesOf w"
  have sid: "sid \<in> set (setters_of ?gs)"
    using g by (auto simp: setters_of_set)
  let ?resumed = "if 1 < length (setters_of ?gs) then concat (map (\<lambda>sid. resumeGatedWorker e w (own_gates sid ?gs)) (setters_of ?gs))
    else resumeGatedWorker e w ?gs"
  have "sid \<in> set ?resumed"
  proof (cases "1 < length (setters_of ?gs)")
    case True
    then show ?thesis
      using sid setter_resumed [OF own_setters [OF g] s] by (auto intro!: bexI [of _ sid])
  next
    case False
    then have "setters_of ?gs = [sid]"
      using sid by (cases "setters_of ?gs"; cases "tl (setters_of ?gs)") auto
    then show ?thesis
      using False setter_resumed [OF _ s] by simp
  qed
  then show ?thesis
    using w by (auto simp: unblock_work_def Let_def)
qed

lemma gatesCleared_resumes:
  assumes w: "is_blocked w" "left_gates cs (gatesOf w) \<noteq> []" and g: "g \<in> set (gatesOf w)" "gateSetter g = Some sid" "g \<in> set cs"
    and all: "\<forall>x \<in> set (gatesOf w). gateSetter x = Some sid \<longrightarrow> x \<in> set cs" and s: "worker_there e w sid" "we_wake e sid"
  shows "EvResumed sid \<in> set (snd (gatesCleared e cs w))"
proof -
  let ?gone = "filter (\<lambda>g. list_ex (\<lambda>c. sameGate c g) cs) (gatesOf w)"
  have same: "list_ex (\<lambda>c. sameGate c x) cs" if "x \<in> set cs" for x
    using that sameGate_refl list_ex_iff by metis
  then have gone: "g \<in> set ?gone"
    using g by simp
  have "own_gates sid (left_gates cs (gatesOf w)) = []"
    using all same by (auto simp: own_gates_def left_gates_def filter_empty_conv)
  moreover have "length (left_gates cs (gatesOf w)) \<noteq> length (gatesOf w)"
  proof
    assume "length (left_gates cs (gatesOf w)) = length (gatesOf w)"
    then have "left_gates cs (gatesOf w) = gatesOf w"
      unfolding left_gates_def by (rule filter_same_length)
    then show False
      using g(1) same [OF g(3)] by (auto simp: left_gates_def filter_id_conv)
  qed
  moreover have "sid \<in> set (setters_of ?gone)"
    using gone g(2) unfolding setters_of_set by blast
  ultimately have free: "sid \<in> set (filter (\<lambda>sid. own_gates sid (left_gates cs (gatesOf w)) = []) (setters_of ?gone))"
    and part: "length (left_gates cs (gatesOf w)) \<noteq> length (gatesOf w)"
    by simp_all
  have "snd (gatesCleared e cs w) = map EvResumed (concat (map (\<lambda>sid. resumeGatedWorker e w (own_gates sid ?gone))
      (filter (\<lambda>sid. own_gates sid (left_gates cs (gatesOf w)) = []) (setters_of ?gone))))"
    using w part by (simp add: gatesCleared_def Let_def)
  then show ?thesis
    by (rule resumed_event) (rule in_concat_map [OF free], simp add: setter_resumed [OF own_setters [OF gone g(2)] s])
qed

end
