(* ===== verification/GateWaitLaws.thy ===== *)
theory GateWaitLaws
  imports GateLookLaws
begin

text \<open>
  Where a ledger's waits come from and the side of a cycle that is resumed; which gates a look merges on
  green; gates past their bound; and what reads of a pull request that fail leave.
\<close>

section \<open>The waits of a ledger\<close>

definition waits_on :: "(gated \<Rightarrow> string option) \<Rightarrow> gated \<Rightarrow> string \<Rightarrow> bool" where
  "waits_on says w x =
     (gw_status w = WsBlocked \<and> x \<in> set (gate_refs w) \<or> gw_status w = WsActive \<and> map_option lower (says w) = Some x)"

definition from_ledger :: "(gated \<Rightarrow> string option) \<Rightarrow> gated list \<Rightarrow> waits \<Rightarrow> bool" where
  "from_ledger says items E =
     (\<forall>i ns x. map_of E i = Some ns \<longrightarrow> x \<in> set ns \<longrightarrow> (\<exists>w \<in> set items. lower (gw_id w) = i \<and> waits_on says w x))"

lemma from_ledger_update:
  "from_ledger says items E \<Longrightarrow> w \<in> set items \<Longrightarrow> \<forall>x \<in> set ns. waits_on says w x
    \<Longrightarrow> from_ledger says items (AList.update (lower (gw_id w)) ns E)"
  by (simp add: from_ledger_def al.get_put) blast

lemma from_ledger_delete: "from_ledger says items E \<Longrightarrow> from_ledger says items (AList.delete i E)"
  by (simp add: from_ledger_def al.get_del)

lemma filled_Some: "filled x = Some s \<Longrightarrow> x = Some s"
  by (simp add: filled_def split: if_splits)

lemma from_ledger_add: "w \<in> set items \<Longrightarrow> from_ledger says items E \<Longrightarrow> from_ledger says items (add_waits says w E)"
  by (auto simp: add_waits_def Let_def waits_on_def dest: filled_Some intro!: from_ledger_update split: option.split)

lemma wait_edges_from: "from_ledger says items (wait_edges says items)"
proof -
  have none: "from_ledger says items []"
    by (simp add: from_ledger_def)
  have one: "from_ledger says items (drop_back items w g E)" if "from_ledger says items E" for w g E
    using that from_ledger_delete by (simp add: drop_back_def split: option.split)
  have dropped: "from_ledger says items (fold (drop_back items w) gs E)" if "from_ledger says items E" for w gs E
    by (rule fold_invariant [where Q = "\<lambda>_. True" and P = "from_ledger says items"]) (simp_all add: that one)
  have "from_ledger says items (fold (add_waits says) items [])"
    by (rule fold_invariant [where Q = "\<lambda>w. w \<in> set items" and P = "from_ledger says items"])
      (simp_all add: from_ledger_add none)
  then show ?thesis
    unfolding wait_edges_def
    by (rule fold_invariant [where Q = "\<lambda>_. True" and P = "from_ledger says items", rotated]) (simp_all add: dropped)
qed

lemma next_waits: "x \<in> set (nexts (wait_edges says items) i) \<Longrightarrow> \<exists>w \<in> set items. lower (gw_id w) = i \<and> waits_on says w x"
  using wait_edges_from [of says items]
  by (cases "map_of (wait_edges says items) i") (simp_all add: nexts_def from_ledger_def)

lemma gate_refs_gate: "x \<in> set (gate_refs w) \<Longrightarrow> \<exists>g \<in> set (gatesOf w). ak_kind g = KRequest \<and> map_option lower (ak_ref g) = Some x"
  by (auto simp: gate_refs_def List.map_filter_def filled_def split: if_splits)

section \<open>The side of a cycle to resume\<close>

lemma cycle_nth:
  assumes "waits_cycle E c" "n < length c"
  shows "cycle_next c n \<in> set (nexts E (c ! n))"
proof -
  have c: "c \<noteq> []" "successively (\<lambda>a b. b \<in> set (nexts E a)) (c @ [hd c])"
    using assms(1) by (auto simp: waits_cycle_def)
  have "(c @ [hd c]) ! Suc n = cycle_next c n"
    using assms(2) c(1) by (auto simp: cycle_next_def nth_append hd_conv_nth mod_if)
  moreover have "(c @ [hd c]) ! n = c ! n"
    using assms(2) by (simp add: nth_append)
  moreover have "(c @ [hd c]) ! Suc n \<in> set (nexts E ((c @ [hd c]) ! n))"
    using c(2) assms(2) successively_nth [of "\<lambda>a b. b \<in> set (nexts E a)" "c @ [hd c]" n] by simp
  ultimately show ?thesis
    by simp
qed

lemma get_gated_unique:
  assumes "distinct (map gw_id items)" "w \<in> set items" "lower (gw_id w) = gw_id w" "lower i = gw_id w"
  shows "get_gated items i = Some w"
  using find_key [OF assms(1,2)] assms(4) by (simp add: get_gated_def)

text \<open>A side a break may name: a Blocked request of the cycle, and its gate on the next one.\<close>

definition is_side :: "gate_facts \<Rightarrow> string list \<Rightarrow> nat \<Rightarrow> cycle_side \<Rightarrow> bool" where
  "is_side f c n s =
     (gf_work f (c ! n) = Some (cs_w s) \<and> gw_status (cs_w s) = WsBlocked \<and> cs_gate s \<in> set (gatesOf (cs_w s))
      \<and> ak_kind (cs_gate s) = KRequest \<and> map_option lower (ak_ref (cs_gate s)) = Some (cycle_next c n))"

lemma side_of_is_side: "side_of f c n = Some s \<Longrightarrow> is_side f c n s"
  using find_in by (fastforce simp: side_of_def is_side_def split: option.splits if_splits)

lemma js_sort_hd: "xs \<noteq> [] \<Longrightarrow> \<exists>s \<in> set xs. f (hd (js_sort cmp xs)) = f s \<and> g (hd (js_sort cmp xs)) = g s"
  by (metis hd_in_set js_sort_Nil_iff set_js_sort)

lemma cycleBreak_side:
  assumes "cycleBreak c f = Some (i, g, why)"
  shows "\<exists>n < length c. \<exists>s. side_of f c n = Some s \<and> i = gw_id (cs_w s) \<and> g = cs_gate s"
proof -
  let ?sides = "List.map_filter (side_of f c) [0..<length c]"
  have "\<exists>s \<in> set ?sides. i = gw_id (cs_w s) \<and> g = cs_gate s"
    using assms by (auto simp: cycleBreak_def Let_def dest: find_in intro: js_sort_hd split: if_splits option.splits)
  then show ?thesis
    by (auto simp: List.map_filter_def)
qed

lemma cycleBreak_None: "cycleBreak c f = None \<Longrightarrow> n < length c \<Longrightarrow> side_of f c n = None"
  by (auto simp: cycleBreak_def Let_def List.map_filter_def filter_empty_conv split: if_splits option.splits)

section \<open>Merges on green\<close>

lemma no_merge_stamp: "EvMerged r h \<notin> set (snd (stamp_gates e w))"
  by (auto simp: stamp_gates_def Let_def)

lemma no_merge_events:
  "EvMerged r h \<notin> set (snd (unblock_work e w))" "EvMerged r h \<notin> set (snd (gatesCleared e cs w))"
  "EvMerged r h \<notin> set (snd (mergedOnGreen e only w))"
proof -
  show u: "EvMerged r h \<notin> set (snd (unblock_work e w))"
    by (auto simp: unblock_work_def Let_def)
  show g: "EvMerged r h \<notin> set (snd (gatesCleared e cs w))" for cs
    by (auto simp: gatesCleared_def Let_def)
  show "EvMerged r h \<notin> set (snd (mergedOnGreen e only w))"
    using u g by (auto simp: mergedOnGreen_def Let_def split: option.splits)
qed

lemma merge_events:
  assumes "EvMerged r h \<in> set (fst (snd (fold (merge_one e) ms (w, did, rest))))"
  shows "EvMerged r h \<in> set did \<or> (\<exists>g \<in> set ms. pilot_gate g = Some (r, h) \<and> we_merge e r h)"
  using assms
proof (induction ms arbitrary: w did rest)
  case (Cons g ms)
  show ?case
  proof (cases "pilot_gate g")
    case None
    then show ?thesis using Cons by (auto simp: merge_one_def)
  next
    case (Some p)
    obtain r' h' where p: "pilot_gate g = Some (r', h')"
      using Some by (cases p) auto
    show ?thesis
    proof (cases "we_merge e r' h'")
      case True
      show ?thesis
        using Cons.IH [of "fst (mergedOnGreen e (Some g) w)" "did @ EvMerged r' h' # snd (mergedOnGreen e (Some g) w)" rest]
          Cons.prems no_merge_events(3) True p by (auto simp: merge_one_run(1) [OF p True])
    next
      case False
      show ?thesis
        using Cons.IH Cons.prems by (auto simp: merge_one_run(2) [OF p False])
    qed
  qed
qed simp

lemma pilot_gate_is: "pilot_gate g = Some (r, h) \<Longrightarrow> ak_kind g = KCi \<and> ak_ref g = Some r \<and> map_option ma_head (ga_merge g) = Some h"
  using filled_Some by (fastforce simp: pilot_gate_def split: option.splits if_splits)

section \<open>Gates past their bound\<close>

lemma late_past: "BLOCKER_STUCK_MS (ak_kind g) = Some m \<Longrightarrow> m \<le> gate_age f g \<Longrightarrow> late f g y = (VStuck, y)"
  by (simp add: late_def)

lemma old_not_open:
  assumes "BLOCKER_STUCK_MS (ak_kind g) = Some m" "m \<le> gate_age f g"
  shows "fst (blockerVerdict g f waiter) \<noteq> VOpen"
proof (cases "ak_kind g")
  case KLock
  then show ?thesis
    using late_past [OF assms] by (simp add: blockerVerdict_def lock_verdict_def Let_def split: option.split)
qed (use late_past [OF assms] assms(1) in
    \<open>simp_all add: blockerVerdict_def deploy_verdict_def machine_verdict_def disk_verdict_def usage_verdict_def ci_verdict_def
       pr_verdict_def steam_verdict_def worker_verdict_def Let_def split: option.split prod.split\<close>)

section \<open>Reads that fail\<close>

lemma noteRead_since:
  "map_of fs ref = Some was \<Longrightarrow> \<exists>x. map_of (noteRead ref now False fs) ref = Some x \<and> fg_since x = fg_since was"
  by (simp add: noteRead_def al.get_put)

lemma failing_stays:
  assumes "ci_now st ref = None" "ciUnreadable st ref = Some t0"
  shows "ci_now (ciOf ref t None st) ref = None \<and> ciUnreadable (ciOf ref t None st) ref = Some t0"
  using assms noteRead_since by (fastforce simp: ciOf_def ci_now_def ciUnreadable_def al.get_put)

lemma failing_starts:
  assumes "read_due ref t st" "map_of (rd_failing st) ref = None"
  shows "ci_now (ciOf ref t None st) ref = None \<and> ciUnreadable (ciOf ref t None st) ref = Some t"
  using assms by (simp add: ciOf_def ci_now_def ciUnreadable_def noteRead_def al.get_put)

lemma failing_runs:
  "ci_now st ref = None \<Longrightarrow> ciUnreadable st ref = Some t0
    \<Longrightarrow> ci_now (fold (\<lambda>t. ciOf ref t None) ts st) ref = None \<and> ciUnreadable (fold (\<lambda>t. ciOf ref t None) ts st) ref = Some t0"
  by (induction ts arbitrary: st) (auto dest: failing_stays)

end
