(* ===== verification/GatesProps.thy ===== *)
theory GatesProps
  imports GateWaitLaws
begin

text \<open>
  What holds of gates: a request's gates are distinct waits whatever is done to the ledger, a wait that is
  accepted holds, a look takes off exactly what cleared and starts a request only when all has, no gate stays
  past its bound, the workers that waited are resumed, pull requests are merged on green checks only, and wait
  cycles are found, each once, and broken.
\<close>

section \<open>Example requests\<close>

definition ex_gate :: "gate_kind \<Rightarrow> string option \<Rightarrow> int \<Rightarrow> string \<Rightarrow> gate" where
  "ex_gate k r t by' =
     \<lparr>ak_kind = k, ak_ref = r, ak_on = None, ak_holder = None, ak_until = None, ak_what = ''it'', ga_at = At t, ga_by = by',
      ga_pause = False, ga_sha = None, ga_merge = None\<rparr>"

definition ex_request :: "nat \<Rightarrow> work_status \<Rightarrow> gate list \<Rightarrow> gated" where
  "ex_request n st gs = set_gates gs
     \<lparr>gw_id = work_id n, gw_status = st, gw_mergedInto = None, gw_sessions = [''a''], gw_links = [], gw_blocked = None, gw_also = [],
      gw_done = [], gw_movedOff = [], gw_timedFor = None, gw_steamPair = None\<rparr>"

definition ex_facts :: "int \<Rightarrow> gate_facts" where
  "ex_facts now =
     \<lparr>gf_now = now, gf_work = \<lambda>_. None, gf_reported = \<lambda>_ _ _. False, gf_delivered = \<lambda>_ _ _. False, gf_portalSha = None,
      gf_daemonSha = \<lambda>_. None, gf_online = None, gf_paused = \<lambda>_. False, gf_usageClear = \<lambda>_. None, gf_nightlyAt = None,
      gf_ci = \<lambda>r. Some \<lparr>ci_done = True, ci_none = False, ci_green = True\<rparr>, gf_prHealth = \<lambda>_. None, gf_ciUnreadable = \<lambda>_. None, gf_pr = \<lambda>_. None,
      gf_steamShort = None, gf_workerEnded = \<lambda>_ _ _. False, gf_disk = \<lambda>_. None\<rparr>"

definition ex_env :: watch_env where
  "ex_env = \<lparr>we_exists = \<lambda>_. True, we_wake = \<lambda>_. True, we_held = \<lambda>_. [], we_merge = \<lambda>_ _. True\<rparr>"

definition ex_pair :: "gated list" where
  "ex_pair = [ex_request 1 WsBlocked [ex_gate KRequest (Some ''w2'') 5 ''worker a''], ex_request 2 WsBlocked [ex_gate KRequest (Some ''W1'') 7 ''dispatcher'']]"

section \<open>Wait cycles\<close>

text \<open>C38. Every cycle of waits of at most 20 requests is found, exactly once, from its smallest id; nothing else is.\<close>

theorem cycles_found_exactly:
  assumes "\<forall>w \<in> set items. \<exists>n. gw_id w = work_id n"
  shows "distinct (waitCycles says items)
    \<and> (\<forall>c. c \<in> set (waitCycles says items) \<longleftrightarrow> waits_cycle (wait_edges says items) c \<and> length c \<le> 20 \<and> smallest_first c)"
  using cycles_once [of items says] assms by (simp add: ledger_id_def MAX_WALK_def)

lemma ex_pair_cycle: "waitCycles (\<lambda>_. None) ex_pair = [[''w1'', ''w2'']]"
  by code_simp

lemma ex_pair_ids: "\<forall>w \<in> set ex_pair. \<exists>n. gw_id w = work_id n"
  by (auto simp: ex_pair_def ex_request_def)

lemma cycles_found_exactly_witness:
  "waits_cycle (wait_edges (\<lambda>_. None) ex_pair) [''w1'', ''w2''] \<and> smallest_first [''w1'', ''w2'']"
  using cycles_found_exactly [OF ex_pair_ids, of "\<lambda>_. None"] unfolding ex_pair_cycle by (auto dest: spec [of _ "[''w1'', ''w2'']"])

lemma take_off_id: "gw_id (fst (take_off e g w)) = gw_id w"
  by (simp add: take_off_def unblock_work_def gatesCleared_def Let_def)

text \<open>Taking the named gate off leaves no other gate on the same request.\<close>

lemma take_off_ends_wait:
  assumes v: "gates_ok v" "gw_status v = WsBlocked" and g: "g \<in> set (gatesOf v)" "ak_kind g = KRequest" "map_option lower (ak_ref g) = Some x"
    and says: "says' (fst (take_off e g v)) = None"
  shows "\<not> waits_on says' (fst (take_off e g v)) x"
proof (cases "length (gatesOf v) = 1")
  case True
  then have "gw_status (fst (take_off e g v)) \<in> {WsActive, WsNew}"
    using unblock_gates [of v e] v g(1) by (cases "gatesOf v") (simp_all add: take_off_def is_blocked_iff)
  then show ?thesis
    using says by (auto simp: waits_on_def)
next
  case False
  have ap: "apart (gatesOf v)" and nh: "\<forall>k \<in> set (gatesOf v). ak_kind k = KRequest \<longrightarrow> ak_holder k = None"
    using v(1) by (auto simp: gates_ok_def list_all_iff)
  have left: "left_gates [g] (gatesOf v) = filter (\<lambda>k. k \<noteq> g) (gatesOf v)"
    using left_gates_apart [OF ap, of "[g]"] g(1) by simp
  have "filter (\<lambda>k. k \<noteq> g) (gatesOf v) \<noteq> []"
  proof
    assume "filter (\<lambda>k. k \<noteq> g) (gatesOf v) = []"
    then have "\<forall>k \<in> set (gatesOf v). k = g"
      unfolding filter_empty_conv by blast
    then have "set (gatesOf v) = {g}"
      using g(1) by blast
    then have "gatesOf v = [g]"
      by (rule distinct_single [OF apart_distinct [OF ap]])
    then show False
      using False by simp
  qed
  then have gs: "gatesOf (fst (take_off e g v)) = filter (\<lambda>k. k \<noteq> g) (gatesOf v)"
    using gatesCleared_gates [of v "[g]" e] v(2) g(1) left False by (cases "gatesOf v") (simp_all add: take_off_def is_blocked_iff)
  have "x \<notin> set (gate_refs (fst (take_off e g v)))"
  proof
    assume "x \<in> set (gate_refs (fst (take_off e g v)))"
    then obtain k where k: "k \<in> set (gatesOf v)" "k \<noteq> g" "ak_kind k = KRequest" "map_option lower (ak_ref k) = Some x"
      using gate_refs_gate gs by fastforce
    then have "sameGate k g"
      using g nh by (auto simp: sameGate_def)
    then show False
      using apart_eq [OF ap k(1) g(1)] k(2) by blast
  qed
  then show ?thesis
    using says by (simp add: waits_on_def)
qed


lemma ex_pair_ok: "list_all gates_ok ex_pair" "distinct (map gw_id ex_pair)"
  by code_simp+


text \<open>C39. No gate stays on a Blocked request past the bound of its kind: the look takes it off or ends the block.\<close>

theorem no_gate_outlives_its_bound:
  assumes ok: "gates_ok w" and g: "g \<in> set (gatesOf w)" "BLOCKER_STUCK_MS (ak_kind g) = Some m" "m \<le> gate_age f g"
    and after: "is_blocked (fst (look_gates e f w))"
  shows "g \<notin> set (gatesOf (fst (look_gates e f w)))"
proof -
  have w: "is_blocked w"
    using after by (auto simp: look_gates_def split: if_splits)
  have nostuck: "\<not> some_gate f w VStuck"
    using look_stuck [OF w] after by (auto simp: is_blocked_iff)
  then have nodecide: "\<not> some_gate f w VDecide"
    using look_decide [OF w] after by (auto simp: is_blocked_iff)
  have clear: "state_on f w g = VClear"
    using old_not_open [OF g(2,3), of "Some (gw_id w)"] nostuck nodecide g(1)
    by (cases "state_on f w g") (auto simp: some_gate_def state_on_def)
  obtain h where h: "h \<in> set (gatesOf w)" "state_on f w h \<noteq> VClear"
    using look_clear [OF w] clearAll_gates [OF w] after by (metis empty_iff insert_iff is_blocked_iff)
  show ?thesis
    using look_partly [OF w _ nostuck nodecide h, of e] ok clear by (simp add: gates_ok_def)
qed

lemma ex_old_ok: "gates_ok (ex_request 3 WsBlocked [ex_gate KDeploy None 1 ''dispatcher'', ex_gate KCi (Some ''o/r#1'') 1 ''worker a''])"
  by code_simp

lemma no_gate_outlives_its_bound_witness:
  "ex_gate KCi (Some ''o/r#1'') 1 ''worker a'' \<notin> set (gatesOf (fst (look_gates ex_env (ex_facts (7 * 3600000))
    (ex_request 3 WsBlocked [ex_gate KDeploy None 1 ''dispatcher'', ex_gate KCi (Some ''o/r#1'') 1 ''worker a'']))))"
  by (rule no_gate_outlives_its_bound [OF ex_old_ok, of _ "6 * 3600000"]; code_simp)

text \<open>What a request's id is, read in any case and with no space around it.\<close>

lemma plain_trim: "list_all (\<lambda>c. \<not> is_ws c) s \<Longrightarrow> trim s = s"
proof -
  assume s: "list_all (\<lambda>c. \<not> is_ws c) s"
  have d: "drop_ws x = x" if "list_all (\<lambda>c. \<not> is_ws c) x" for x
    using that by (cases x) auto
  show ?thesis
    using d [OF s] d [of "rev s"] s by (simp add: trim_def list_all_iff)
qed

lemma lower_ws: "is_ws (lower_char c) = is_ws c"
proof (cases "is_upper c")
  case True
  then have "code (lower_char c) = code c + 32"
    by (simp add: lower_char_def is_upper_def)
  then show ?thesis
    using True by (auto simp: is_ws_def is_upper_def)
qed (simp add: lower_char_def)

lemma work_id_plain: "list_all (\<lambda>c. \<not> is_ws c) (work_id n)"
proof -
  have "\<not> is_ws c" if "is_digit c" for c
    using that by (auto simp: is_digit_def is_ws_def)
  then show ?thesis
    using show_nat_digits [of n] by (auto simp: work_id_def list_all_iff is_ws_def code_def)
qed

lemma named_id:
  assumes "get_gated items r = Some w" "\<forall>w \<in> set items. \<exists>n. gw_id w = work_id n"
  shows "trim r = r \<and> r \<noteq> []"
proof -
  obtain n where n: "lower r = work_id n"
    using get_gated_in [OF assms(1)] assms(2) by metis
  have "list_all (\<lambda>c. \<not> is_ws (lower_char c)) r"
    using work_id_plain [of n] by (simp add: n [symmetric] list_all_iff)
  then show ?thesis
    using plain_trim [of r] n by (auto simp: lower_ws work_id_def)
qed

lemma follow_from_in: "follow_from n (get_gated items) t = Some u \<Longrightarrow> (\<And>x. t = Some x \<Longrightarrow> x \<in> set items) \<Longrightarrow> u \<in> set items"
  by (induction n "get_gated items" t rule: follow_from.induct) (auto dest: get_gated_in split: if_splits)

lemma follow_in: "follow i f = Some u \<Longrightarrow> gf_work f = get_gated items \<Longrightarrow> u \<in> set items"
  using follow_from_in by (fastforce simp: follow_def dest: get_gated_in)

lemma follow_None [simp]: "gf_work f i = None \<Longrightarrow> follow i f = None"
  by (simp add: follow_def)

text \<open>
  A wait on a request that is accepted holds: as set, its verdict is open (stuck only where that request is stalled), while no
  worker has delivered after now and no gate is dated after now.
\<close>

theorem accepted_wait_holds:
  assumes b: "blockerProblem cap b self f = None" "ak_kind b = KRequest"
    and items: "gf_work f = get_gated items" "\<forall>w \<in> set items. \<exists>n. gw_id w = work_id n"
    and past: "\<forall>w x. \<not> gf_delivered f w (gf_now f) x" "\<forall>w \<in> set items. \<forall>g \<in> set (gatesOf w). ms_or_zero (ga_at g) \<le> gf_now f"
  shows "\<exists>t. follow (or_empty (ak_ref b)) f = Some t
    \<and> fst (blockerVerdict (makeGate d b (gf_now f) by') f (Some self)) = (if gw_status t = WsStalled then VStuck else VOpen)"
proof -
  have "req_problem f self (ak_ref b) = None"
    using b by (auto simp: blockerProblem_def kind_problem_def Let_def split: if_splits)
  then obtain r t where r: "filled (ak_ref b) = Some r" "follow r f = Some t" "\<not> same_id (gw_id t) self"
    and t: "gw_status t \<notin> {WsDone, WsRejected, WsCancelled}"
    by (auto simp: req_problem_def split: option.splits if_splits)
  have ref: "ak_ref b = Some r"
    using r(1) by (rule filled_Some)
  have "get_gated items r \<noteq> None"
    using r(2) items(1) by (metis follow_None option.distinct(1))
  then have trim: "trim r = r" "r \<noteq> []"
    using named_id [OF _ items(2)] by auto
  let ?g = "makeGate d b (gf_now f) by'"
  have g: "ak_kind ?g = KRequest" "ak_ref ?g = Some (lower r)"
    using b(2) ref trim by (simp_all add: makeGate_def Let_def filled_def)
  have now: "gate_at f ?g = gf_now f"
    by (simp add: gate_at_def makeGate_def Let_def ms_or_zero_def)
  have "get_gated items (lower r) = get_gated items r"
    by (simp add: get_gated_def comp_def)
  then have fol: "on_ref (ak_ref ?g) (\<lambda>i. follow i f) = Some t"
    using r(2) trim(2) items(1) by (simp add: g(2) on_ref_def filled_def follow_def)
  have "t \<in> set items"
    by (rule follow_in [OF r(2) items(1)])
  then have "\<forall>g \<in> set (gatesOf t). ms_or_zero (ga_at g) \<le> gf_now f"
    using past(2) by blast
  then have "\<not> leg_waits f ?g t x" for x
    by (fastforce simp: leg_waits_def list_ex_iff now)
  then have "fst (request_verdict f ?g (Some self)) = (if gw_status t = WsStalled then VStuck else VOpen)"
    using r(3) t past(1) now by (simp add: request_verdict_def fol Let_def filled_def)
  then show ?thesis
    using r(2) ref g(1) by (simp add: blockerVerdict_def)
qed

definition ex_ask :: gate_ask where
  "ex_ask = \<lparr>ak_kind = KRequest, ak_ref = Some ''W2'', ak_on = None, ak_holder = None, ak_until = None, ak_what = ''its fix''\<rparr>"

definition ex_two :: "gated list" where
  "ex_two = [ex_request 1 WsActive [], ex_request 2 WsActive []]"

lemma accepted_wait_holds_witness:
  "fst (blockerVerdict (makeGate (\<lambda>_. None) ex_ask 9 ''dispatcher'') ((ex_facts 9)\<lparr>gf_work := get_gated ex_two\<rparr>) (Some ''w1'')) \<in> {VOpen, VStuck}"
proof -
  let ?f = "(ex_facts 9)\<lparr>gf_work := get_gated ex_two\<rparr>"
  have "blockerProblem (\<lambda>_. False) ex_ask ''w1'' ?f = None" "ak_kind ex_ask = KRequest"
    by code_simp+
  moreover have "\<forall>w \<in> set ex_two. \<exists>n. gw_id w = work_id n" "\<forall>w \<in> set ex_two. \<forall>g \<in> set (gatesOf w). ms_or_zero (ga_at g) \<le> gf_now ?f"
    by (auto simp: ex_two_def ex_request_def)
  ultimately show ?thesis
    using accepted_wait_holds [of "\<lambda>_. False" ex_ask "''w1''" ?f ex_two "\<lambda>_. None" "''dispatcher''"] by (auto simp: ex_facts_def)
qed

section \<open>The look\<close>

text \<open>
  What a look does to a Blocked request: a stuck gate stalls it, else one that closed without delivering asks its person,
  else it starts exactly when every gate cleared, and otherwise stays Blocked on exactly the gates that did not.
\<close>

theorem look_outcome:
  assumes "gates_ok w" "is_blocked w"
  shows "let w' = fst (look_gates e f w); is = (\<lambda>v g. state_on f w g = v); gs = gatesOf w in
    if list_ex (is VStuck) gs then gw_status w' = WsStalled \<and> gatesOf w' = []
    else if list_ex (is VDecide) gs then gw_status w' = WsQuestion \<and> gatesOf w' = []
    else if list_all (is VClear) gs then gw_status w' \<in> {WsActive, WsNew} \<and> gatesOf w' = []
    else gw_status w' = WsBlocked \<and> gatesOf w' = filter (is VOpen) gs"
proof -
  have ex: "list_ex (\<lambda>g. state_on f w g = v) (gatesOf w) = some_gate f w v" for v
    by (auto simp: list_ex_iff some_gate_def)
  consider "some_gate f w VStuck" | "\<not> some_gate f w VStuck" "some_gate f w VDecide"
    | "\<not> some_gate f w VStuck" "\<not> some_gate f w VDecide" "\<forall>g \<in> set (gatesOf w). state_on f w g = VClear"
    | h where "\<not> some_gate f w VStuck" "\<not> some_gate f w VDecide" "h \<in> set (gatesOf w)" "state_on f w h \<noteq> VClear"
    by blast
  then show ?thesis
  proof cases
    case 1
    then show ?thesis using look_stuck [OF assms(2) 1, of e] by (simp add: ex Let_def)
  next
    case 2
    then show ?thesis using look_decide [OF assms(2) 2, of e] by (simp add: ex Let_def)
  next
    case 3
    then show ?thesis
      using look_clear [OF assms(2) 3(3), of e] clearAll_gates [OF assms(2), of e f] by (simp add: ex Let_def list_all_iff)
  next
    case 4
    have "state_on f w g \<noteq> VClear \<longleftrightarrow> state_on f w g = VOpen" if "g \<in> set (gatesOf w)" for g
      using 4(1,2) that by (cases "state_on f w g") (auto simp: some_gate_def)
    then have "filter (\<lambda>g. state_on f w g \<noteq> VClear) (gatesOf w) = filter (\<lambda>g. state_on f w g = VOpen) (gatesOf w)"
      by (intro filter_cong) auto
    then show ?thesis
      using look_partly [OF assms(2) _ 4, of e] assms(1) 4 by (auto simp: ex Let_def list_all_iff gates_ok_def)
  qed
qed

lemma look_outcome_witness:
  "gw_status (fst (look_gates ex_env (ex_facts 9) (ex_request 3 WsBlocked [ex_gate KTime None 1 ''dispatcher'', ex_gate KDeploy None 1 ''dispatcher''])))
    = WsBlocked"
proof -
  let ?w = "ex_request 3 WsBlocked [ex_gate KTime None 1 ''dispatcher'', ex_gate KDeploy None 1 ''dispatcher'']"
  have "gates_ok ?w" "is_blocked ?w" "\<not> list_ex (\<lambda>g. state_on (ex_facts 9) ?w g = VStuck) (gatesOf ?w)"
    "\<not> list_ex (\<lambda>g. state_on (ex_facts 9) ?w g = VDecide) (gatesOf ?w)" "\<not> list_all (\<lambda>g. state_on (ex_facts 9) ?w g = VClear) (gatesOf ?w)"
    by code_simp+
  then show ?thesis
    using look_outcome [of ?w ex_env "ex_facts 9"] by (simp add: Let_def)
qed

section \<open>Over any operations\<close>

text \<open>
  The ledgers the operations lead to: requests are filed without gates, blocked by the dispatcher or a worker, looked at each
  minute, merged, and changed by others, who keep a request's gates or drop them all.
\<close>

inductive gate_run :: "gated_ledger \<Rightarrow> bool" where
  start: "gate_run []"
| filed: "gate_run items \<Longrightarrow> gatesOf w = [] \<Longrightarrow> gw_status w \<noteq> WsBlocked \<Longrightarrow> gate_run (items @ [w])"
| blocked: "gate_run items \<Longrightarrow> w \<in> set items \<Longrightarrow> block_work cap u d f a w = Inr w' \<Longrightarrow> gate_run (put_gated w' items)"
| waits: "gate_run items \<Longrightarrow> w \<in> set items \<Longrightarrow> workerBlocked cap d p m f sid q w = Inr w' \<Longrightarrow> gate_run (put_gated w' items)"
| looked: "gate_run items \<Longrightarrow> gate_run (fst (watch_tick e f cap says long items))"
| merged: "gate_run items \<Longrightarrow> w \<in> set items \<Longrightarrow> gate_run (put_gated (fst (dropSelfGates e i w)) items)"
| changed: "gate_run items \<Longrightarrow> w \<in> set items \<Longrightarrow> gatesOf w' = gatesOf w \<or> gatesOf w' = [] \<Longrightarrow>
    (gw_status w' = WsBlocked \<Longrightarrow> gw_status w = WsBlocked \<and> gatesOf w' \<noteq> []) \<Longrightarrow> gate_run (put_gated w' items)"

lemma in_ok: "all_ok items \<Longrightarrow> w \<in> set items \<Longrightarrow> gates_ok w"
  by (simp add: all_ok_def list_all_iff)

lemma gate_run_ok: "gate_run items \<Longrightarrow> all_ok items"
proof (induction rule: gate_run.induct)
  case start
  show ?case by (simp add: all_ok_def)
next
  case (filed items w)
  then show ?case by (simp add: all_ok_def gates_ok_def)
next
  case (blocked items w)
  then show ?case by (blast intro: put_gated_ok block_work_ok in_ok)
next
  case (waits items w)
  then show ?case by (blast intro: put_gated_ok workerBlocked_ok in_ok)
next
  case (looked items)
  then show ?case by (blast intro: tick_ok)
next
  case (merged items w)
  then show ?case by (blast intro: put_gated_ok dropSelfGates_ok in_ok)
next
  case (changed items w w')
  have "gates_ok w"
    by (rule in_ok [OF changed.IH changed.hyps(2)])
  then have "gates_ok w'"
    using changed.hyps(3,4) by (auto simp: gates_ok_def)
  then show ?case
    by (rule put_gated_ok [OF changed.IH])
qed

text \<open>
  Whatever the dispatcher, workers and looks do, a request's gates are distinct waits, and a request marked Blocked has a gate.
\<close>

theorem gates_stay_distinct:
  assumes "gate_run items" and "w \<in> set items"
  shows "sorted_wrt (\<lambda>a b. \<not> sameGate a b) (gatesOf w) \<and> (gw_status w = WsBlocked \<longrightarrow> is_blocked w)"
  using gate_run_ok [OF assms(1)] assms(2) by (auto simp: all_ok_def list_all_iff gates_ok_def is_blocked_iff)

definition ex_block :: block_ask where
  "ex_block = \<lparr>bl_blocker = None, bl_blockers = [ex_ask, ex_ask], bl_add = False, bl_sessions = []\<rparr>"

definition ex_two_facts :: gate_facts where
  "ex_two_facts = (ex_facts 9)\<lparr>gf_work := get_gated ex_two\<rparr>"

definition ex_blocked :: gated where
  "ex_blocked = (case block_work (\<lambda>_. False) Some (\<lambda>_. None) ex_two_facts ex_block (hd ex_two) of Inr w \<Rightarrow> w | Inl _ \<Rightarrow> hd ex_two)"

lemma ex_blocked_step: "block_work (\<lambda>_. False) Some (\<lambda>_. None) ex_two_facts ex_block (hd ex_two) = Inr ex_blocked"
  by code_simp

lemma ex_two_run: "gate_run ex_two"
proof -
  have "gate_run (([] @ [ex_request 1 WsActive []]) @ [ex_request 2 WsActive []])"
    by (intro gate_run.filed gate_run.start) (simp_all add: ex_request_def)
  then show ?thesis
    by (simp add: ex_two_def)
qed

lemma gates_stay_distinct_witness: "is_blocked ex_blocked \<and> sorted_wrt (\<lambda>a b. \<not> sameGate a b) (gatesOf ex_blocked)"
proof -
  have "gate_run (put_gated ex_blocked ex_two)"
    by (rule gate_run.blocked [OF ex_two_run _ ex_blocked_step]) (simp add: ex_two_def)
  moreover have "ex_blocked \<in> set (put_gated ex_blocked ex_two)" "gw_status ex_blocked = WsBlocked"
    by code_simp+
  ultimately show ?thesis
    using gates_stay_distinct by blast
qed

text \<open>
  Workers' gates are counted one call at a time, so a request may have more than \<open>MAX_GATES\<close>: a worker's six, kept beside
  the one another worker asks for.
\<close>

definition ex_full :: gated where
  "ex_full = ex_request 1 WsBlocked (map (\<lambda>n. ex_gate KCi (Some (''o/r#'' @ show_nat n)) 1 ''worker a'') [1..<7])"

definition ex_waits :: waits_asked where
  "ex_waits = \<lparr>wa_what = ''x'', wa_requests = [], wa_reports = [], wa_prs = [''o/r#9''], wa_deploys = [], wa_disk = False\<rparr>"

lemma gates_past_the_cap:
  "case workerBlocked (\<lambda>_. False) (\<lambda>_. None) None None (ex_facts 9) ''b'' ex_waits ex_full of
     Inr w \<Rightarrow> MAX_GATES < length (gatesOf w) | Inl _ \<Rightarrow> False"
  by code_simp

section \<open>Merges on green\<close>


definition ex_pilot :: gated where
  "ex_pilot = ex_request 4 WsBlocked [(ex_gate KCi (Some ''o/r#4'') 1 ''worker a'')\<lparr>ga_merge := Some \<lparr>ma_head = ''abc1234'', ma_session = ''a'', ma_report = []\<rparr>\<rparr>]"


text \<open>
  Checks read green have passed: each check GitHub rolls up is finished without a failing conclusion or waits for an away runner;
  or each workflow run has ended so, or its jobs have but for away legs; or the merge state is clean after it was unstable at this head.
\<close>

theorem green_checks_passed:
  assumes "ghChecks gh online ref now seen = (Some s, seen')" and "ci_green s"
  shows "(\<exists>state checks. gh_rollup gh = Some (state, checks)
        \<and> (\<forall>c \<in> set checks. \<not> isAwayLeg (awayNow gh online (ref_repo ref)) c \<longrightarrow> \<not> check_runs c \<and> \<not> check_failed c))
    \<or> (\<exists>runs. gh_runs gh = Some runs \<and> runs \<noteq> []
        \<and> (\<forall>r \<in> set runs. run_over r \<and> \<not> is_one_of BAD (gr_conclusion r)
            \<or> (\<exists>js. gh_jobs gh (gr_id r) = Some js
                \<and> (\<forall>j \<in> set js. isAwayLeg (awayNow gh online (ref_repo ref)) j \<or> leg_done j \<and> is_one_of GOOD (lg_conclusion j)))))
    \<or> (\<exists>m h. gh_mergeState gh = Some (m, h) \<and> is_one_of [''clean'', ''has_hooks''] m \<and> map_of seen (ref @ ''@'' @ or_empty h) \<noteq> None)"
proof -
  let ?away = "awayNow gh online (ref_repo ref)"
  consider (rollup) state checks where "gh_rollup gh = Some (state, checks)" "s = checksState state checks ref ?away"
    | (runs) runs where "gh_runs gh = Some runs" "s = runsState (settleAwayRuns (gh_jobs gh) (ref_repo ref) ?away runs)"
    | (state) m h where "gh_mergeState gh = Some (m, h)" "mergeStateCi m h ref now seen = (Some s, seen')"
    using assms by (auto simp: ghChecks_def Let_def split: if_splits option.splits)
  then show ?thesis
  proof cases
    case rollup
    let ?checks = "filter (\<lambda>c. \<not> isAwayLeg ?away c) checks"
    have "filter check_failed ?checks = []" "\<not> list_ex check_runs ?checks"
      using assms(2) unfolding rollup(2) checksState_def Let_def by (auto split: if_splits)
    then have "\<forall>c \<in> set checks. \<not> isAwayLeg ?away c \<longrightarrow> \<not> check_runs c \<and> \<not> check_failed c"
      by (auto simp: filter_empty_conv list_ex_iff)
    then show ?thesis
      using rollup(1) by blast
  next
    case runs
    let ?settled = "settleAwayRuns (gh_jobs gh) (ref_repo ref) ?away runs"
    have ended: "?settled \<noteq> []" "\<forall>r \<in> set ?settled. run_over r \<and> \<not> is_one_of BAD (gr_conclusion r)"
      using assms(2) unfolding runs(2) runsState_def BAD_def by (auto simp: list_ex_iff is_one_of_def split: if_splits)
    have "run_over r \<and> \<not> is_one_of BAD (gr_conclusion r)
        \<or> (\<exists>js. gh_jobs gh (gr_id r) = Some js \<and> (\<forall>j \<in> set js. isAwayLeg ?away j \<or> leg_done j \<and> is_one_of GOOD (lg_conclusion j)))"
      if "r \<in> set runs" for r
    proof (cases "awayLabelsOf (ref_repo ref) = [] \<or> fst (settle_run (gh_jobs gh) ?away r) = r")
      case True
      then have "r \<in> set ?settled"
        using that by (auto simp: settleAwayRuns_def intro!: rev_image_eqI [where x = r])
      then show ?thesis
        using ended(2) by blast
    next
      case False
      then have st: "fst (settle_run (gh_jobs gh) ?away r) \<in> set ?settled"
        using that by (auto simp: settleAwayRuns_def)
      from False obtain js v where js: "gh_jobs gh (gr_id r) = Some js" "settleJobs ?away js = Some v"
        by (auto simp: settle_run_def split: if_splits option.splits)
      have "\<exists>n. v = SettledGreen n"
      proof (cases v)
        case (SettledRed x)
        then have "is_one_of BAD (gr_conclusion (fst (settle_run (gh_jobs gh) ?away r)))"
          using js False by (auto simp: settle_run_def BAD_def is_one_of_def lower_char_def is_upper_def code_def split: if_splits)
        then show ?thesis using ended(2) st by blast
      qed simp
      then have "awaitsOnlyAway ?away js"
        using js(2) by (auto simp: settleJobs_def split: if_splits)
      then have "\<forall>j \<in> set js. isAwayLeg ?away j \<or> leg_done j \<and> is_one_of GOOD (lg_conclusion j)"
        by (auto simp: awaitsOnlyAway_def Let_def list_all_iff)
      then show ?thesis
        using js(1) by blast
    qed
    moreover have "runs \<noteq> []"
      using ended(1) by (auto simp: settleAwayRuns_def split: if_splits)
    ultimately show ?thesis
      using runs(1) by blast
  next
    case state
    then have "is_one_of [''clean'', ''has_hooks''] m \<and> map_of seen (ref @ ''@'' @ or_empty h) \<noteq> None"
      by (auto simp: mergeStateCi_def Let_def is_one_of_def split: if_splits)
    then show ?thesis
      using state(1) by blast
  qed
qed

definition ex_answers :: gh_answers where
  "ex_answers = \<lparr>gh_rollup = None, gh_view = Some (Some ''OPEN'', Some ''abc''),
     gh_runs = Some [\<lparr>gr_id = 1, gr_status = Some ''completed'', gr_conclusion = Some ''success''\<rparr>], gh_mergeState = None,
     gh_runners = None, gh_jobs = \<lambda>_. None\<rparr>"

lemma green_checks_passed_witness: "ghChecks ex_answers None ''o/r#1'' 5 [] = (Some CI_GREEN, []) \<and> gh_runs ex_answers \<noteq> None"
proof -
  have "ghChecks ex_answers None ''o/r#1'' 5 [] = (Some CI_GREEN, [])"
    by code_simp
  then show ?thesis
    using green_checks_passed [of ex_answers None "''o/r#1''" 5 "[]" CI_GREEN "[]"] by (auto simp: ex_answers_def)
qed

text \<open>In a rollup a check that failed to start counts as passed: the runs' reading lists that conclusion, the rollup's does not.\<close>

lemma startup_failure_reads_green:
  "ci_green (checksState (Some ''OPEN'') [\<lparr>lg_name = Some ''T'', lg_status = Some ''COMPLETED'', lg_conclusion = Some ''STARTUP_FAILURE'',
     lg_labels = [], gc_state = None\<rparr>] ''o/r#1'' []) \<and> \<not> ci_green (runsState [\<lparr>gr_id = 1, gr_status = Some ''completed'', gr_conclusion = Some ''startup_failure''\<rparr>])"
  by code_simp

section \<open>Who comes back\<close>

text \<open>
  No waiting worker is forgotten: where no merge on green is asked, a look that lifts gates resumes every worker that set one, is
  still on the request and can be woken, once all of its own gates have cleared.
\<close>

theorem waiting_workers_resumed:
  assumes ok: "gates_ok w" "is_blocked w" and calm: "\<forall>x \<in> set (gatesOf w). state_on f w x \<in> {VClear, VOpen} \<and> ga_merge x = None"
    and g: "g \<in> set (gatesOf w)" "gateSetter g = Some sid" "\<forall>x \<in> set (gatesOf w). gateSetter x = Some sid \<longrightarrow> state_on f w x = VClear"
    and s: "worker_there e w sid" "we_wake e sid"
  shows "EvResumed sid \<in> set (snd (look_gates e f w))"
proof -
  let ?clear = "\<lambda>g. state_on f w g = VClear"
  have "\<not> some_gate f w VStuck" "\<not> some_gate f w VDecide"
    using calm by (auto simp: some_gate_def)
  note look = look_plain [OF ok(2) this, of e]
  have np: "pilot_gate x = None" if "x \<in> set (gatesOf w)" for x
    using calm that pilot_has_merge [of x] by (metis not_Some_eq)
  show ?thesis
  proof (cases "list_all ?clear (gatesOf w)")
    case True
    have "pilot_gate (hd (gatesOf w)) = None"
      using ok(2) by (intro np) (simp add: is_blocked_iff)
    then show ?thesis
      using True look unblock_resumes [OF ok(2) g(1,2) s] by (simp add: clearAll_def)
  next
    case False
    let ?cs = "filter ?clear (gatesOf w)"
    have gc: "g \<in> set ?cs"
      using g by auto
    have none: "merges_now f ?clear (gatesOf w) x \<longleftrightarrow> False" if "x \<in> set (gatesOf w)" for x
      using np [OF that] by (simp add: merges_now_def)
    have "filter (merges_now f ?clear (gatesOf w)) ?cs = []" "filter (\<lambda>x. \<not> merges_now f ?clear (gatesOf w) x) ?cs = ?cs"
      using none by (auto simp: filter_empty_conv intro!: filter_cong)
    then have look': "look_gates e f w = gatesCleared e ?cs w"
      using look False gc by (auto simp: clearSome_def Let_def list_ex_iff filter_empty_conv split_beta)
    have "left_gates ?cs (gatesOf w) = filter (\<lambda>x. x \<notin> set ?cs) (gatesOf w)"
      using ok(1) by (intro left_gates_apart) (auto simp: gates_ok_def)
    then have "left_gates ?cs (gatesOf w) \<noteq> []"
      using False by (auto simp: filter_empty_conv list_all_iff)
    then show ?thesis
      unfolding look' using g(3) by (intro gatesCleared_resumes [OF ok(2) _ g(1,2) gc _ s]) auto
  qed
qed

lemma waiting_workers_resumed_witness:
  "EvResumed ''a'' \<in> set (snd (look_gates ex_env (ex_facts 9)
     (ex_request 3 WsBlocked [ex_gate KTime None 1 ''worker a'', ex_gate KDeploy None 1 ''dispatcher''])))"
proof -
  let ?w = "ex_request 3 WsBlocked [ex_gate KTime None 1 ''worker a'', ex_gate KDeploy None 1 ''dispatcher'']"
  show ?thesis
    by (rule waiting_workers_resumed [of ?w "ex_facts 9" "ex_gate KTime None 1 ''worker a''" "''a''" ex_env]; code_simp)
qed

text \<open>
  Checks FF Factory cannot read do not hold a request: from the first read that fails, however often it is read again, the
  worker's gate clears 15 minutes later at the latest (from its own setting, where that is later).
\<close>

theorem unreadable_checks_wake:
  assumes first: "read_due r t0 st" "map_of (rd_failing st) r = None"
    and f: "gf_ci f = ci_now (fold (\<lambda>t. ciOf r t None) (t0 # ts) st)" "gf_ciUnreadable f = ciUnreadable (fold (\<lambda>t. ciOf r t None) (t0 # ts) st)"
    and g: "ak_kind g = KCi" "ak_ref g = Some r" "r \<noteq> []" and late': "CI_UNREADABLE_MS + max t0 (gate_at f g) \<le> gf_now f"
  shows "fst (blockerVerdict g f waiter) = VClear"
proof -
  have "ci_now (fold (\<lambda>t. ciOf r t None) (t0 # ts) st) r = None \<and> ciUnreadable (fold (\<lambda>t. ciOf r t None) (t0 # ts) st) r = Some t0"
    using failing_runs failing_starts [OF first] by simp
  then have "gf_ci f r = None" "gf_ciUnreadable f r = Some t0"
    using f by simp_all
  then show ?thesis
    using g late' by (simp add: blockerVerdict_def ci_verdict_def on_ref_def filled_def no_checks_def Let_def)
qed

definition ex_reads :: reads where "ex_reads = fold (\<lambda>t. ciOf ''o/r#1'' t None) [10, 20] \<lparr>rd_seen = [], rd_failing = []\<rparr>"

definition ex_blind :: gate_facts where
  "ex_blind = (ex_facts 900010)\<lparr>gf_ci := ci_now ex_reads, gf_ciUnreadable := ciUnreadable ex_reads\<rparr>"

lemma unreadable_checks_wake_witness: "fst (blockerVerdict (ex_gate KCi (Some ''o/r#1'') 1 ''worker a'') ex_blind None) = VClear"
  by (rule unreadable_checks_wake [of "''o/r#1''" 10 "\<lparr>rd_seen = [], rd_failing = []\<rparr>" _ "[20]"])
    (simp_all add: ex_blind_def ex_reads_def ex_gate_def ex_facts_def read_due_def gate_at_def ms_or_zero_def CI_UNREADABLE_MS_def)

end
