(* ===== verification/DurableFs.thy ===== *)
theory DurableFs
  imports Schedule
begin

text \<open>
  What \<open>src/server/durable.ts\<close> asks of the file system, and the shape of its code.

  \<^item> A directory is a list of names with the file (inode) each stands for; hard links are two names of
    one file. A file keeps its bytes, whether they have reached the disk (\<open>fsync\<close>), and its \<open>mtime\<close>.
  \<^item> A crash keeps one of the directory states since the directory itself was last brought to the disk
    (the newest, or an older one: a rename reaches the disk on its own), and of each file its bytes where
    they had reached the disk, anything where they had not (zero bytes, a part: what a crash left of
    \<open>data/state.json\<close>, as the source's header tells).
  \<^item> Every call may be refused: \<open>fs_faults\<close> says for the calls to come which fail, how, and how many bytes
    a failed write had already put into the file.
  \<^item> The code is a computation that threads the file system and may throw (\<open>'a io\<close>); \<open>fs_past\<close> collects
    each state of the disk on the way: the moments a crash may come.
  \<^item> One directory: that of the data file and its versions. \<open>existsSync\<close> answers what the directory holds.
\<close>

section \<open>Files and directories\<close>

datatype errno = EBUSY | EPERM | EACCES | ENOENT | EEXIST | EOther string

record inode =
  in_data :: string
  in_synced :: bool
  in_mtime :: int

type_synonym dir = "(string \<times> nat) list"
type_synonym disk = "dir list \<times> (nat \<Rightarrow> inode)"

text \<open>What was wrong with a file that could not be used (the reading's verdict).\<close>

datatype damage =
    DMissing
  | DUnreadable errno
  | DEmpty
  | DZeros nat
  | DPartly nat nat
  | DGarbled string
  | DNotSane string

record data_recovery =
  dr_file :: string
  dr_problem :: damage
  dr_movedTo :: "string option"
  dr_from :: "string option"
  dr_fromTime :: "int option"
  dr_damagedTime :: "int option"

record fs =
  fs_names :: dir
  fs_nodes :: "nat \<Rightarrow> inode"
  fs_next :: nat
  fs_faults :: "(errno \<times> nat) option list"
  fs_now :: int
  fs_windows :: bool
  fs_dirs :: "dir list"
  fs_past :: "disk list"
  fs_recoveries :: "data_recovery list"

definition look_up :: "fs \<Rightarrow> string \<Rightarrow> nat option" where
  "look_up s p = map_of (fs_names s) p"

text \<open>What a read of the file sees.\<close>

definition content :: "fs \<Rightarrow> string \<Rightarrow> string option" where
  "content s p = map_option (\<lambda>i. in_data (fs_nodes s i)) (look_up s p)"

definition disk_now :: "fs \<Rightarrow> disk" where
  "disk_now s = (fs_dirs s, fs_nodes s)"

definition crash_leaves :: "disk \<Rightarrow> (string \<Rightarrow> string option) \<Rightarrow> bool" where
  "crash_leaves d view =
     (\<exists>dir \<in> set (fst d). \<forall>p. case map_of dir p of
        None \<Rightarrow> view p = None
      | Some i \<Rightarrow> \<exists>bs. view p = Some bs \<and> (in_synced (snd d i) \<longrightarrow> bs = in_data (snd d i)))"

definition noted :: "fs \<Rightarrow> fs" where
  "noted s = s\<lparr>fs_past := disk_now s # fs_past s\<rparr>"

definition set_names :: "dir \<Rightarrow> fs \<Rightarrow> fs" where
  "set_names ns s = noted (s\<lparr>fs_names := ns, fs_dirs := ns # fs_dirs s\<rparr>)"

definition set_node :: "nat \<Rightarrow> inode \<Rightarrow> fs \<Rightarrow> fs" where
  "set_node i n s = noted (s\<lparr>fs_nodes := (fs_nodes s)(i := n)\<rparr>)"

definition fresh_node :: "string \<Rightarrow> inode \<Rightarrow> fs \<Rightarrow> fs" where
  "fresh_node p n s =
     set_names (AList.update p (fs_next s) (fs_names s))
       (s\<lparr>fs_nodes := (fs_nodes s)(fs_next s := n), fs_next := fs_next s + 1\<rparr>)"

definition unsynced :: "string \<Rightarrow> fs \<Rightarrow> inode" where
  "unsynced bs s = \<lparr>in_data = bs, in_synced = False, in_mtime = fs_now s\<rparr>"

section \<open>Computations\<close>

type_synonym 'a io = "fs \<Rightarrow> (errno + 'a) \<times> fs"

definition io_ret :: "'a \<Rightarrow> 'a io" where
  "io_ret x s = (Inr x, s)"

definition io_get :: "(fs \<Rightarrow> 'a) \<Rightarrow> 'a io" where
  "io_get f s = (Inr (f s), s)"

definition io_bind :: "'a io \<Rightarrow> ('a \<Rightarrow> 'b io) \<Rightarrow> 'b io" where
  "io_bind m k s = (case m s of (Inl e, s') \<Rightarrow> (Inl e, s') | (Inr x, s') \<Rightarrow> k x s')"

abbreviation io_then :: "'a io \<Rightarrow> 'b io \<Rightarrow> 'b io" where
  "io_then m k \<equiv> io_bind m (\<lambda>_. k)"

definition io_catch :: "'a io \<Rightarrow> (errno \<Rightarrow> 'a io) \<Rightarrow> 'a io" where
  "io_catch m h s = (case m s of (Inl e, s') \<Rightarrow> h e s' | (Inr x, s') \<Rightarrow> (Inr x, s'))"

text \<open>\<open>try { m } finally { c }\<close>: what \<open>c\<close> throws replaces what \<open>m\<close> threw.\<close>

definition io_finally :: "'a io \<Rightarrow> unit io \<Rightarrow> 'a io" where
  "io_finally m c s =
     (case m s of (r, s') \<Rightarrow> (case c s' of (Inl e, s'') \<Rightarrow> (Inl e, s'') | (Inr _, s'') \<Rightarrow> (r, s'')))"

fun io_each :: "('a \<Rightarrow> unit io) \<Rightarrow> 'a list \<Rightarrow> unit io" where
  "io_each f [] = io_ret ()"
| "io_each f (x # xs) = io_then (f x) (io_each f xs)"

section \<open>Calls\<close>

text \<open>A call that may be refused; \<open>part\<close> is what the refused call leaves behind.\<close>

definition syscall :: "(nat \<Rightarrow> fs \<Rightarrow> fs) \<Rightarrow> 'a io \<Rightarrow> 'a io" where
  "syscall part m s =
     (case fs_faults s of
        [] \<Rightarrow> m s
      | None # q \<Rightarrow> m (s\<lparr>fs_faults := q\<rparr>)
      | Some (e, n) # q \<Rightarrow> (Inl e, part n (s\<lparr>fs_faults := q\<rparr>)))"

abbreviation whole :: "'a io \<Rightarrow> 'a io" where
  "whole \<equiv> syscall (\<lambda>_ s. s)"

text \<open>\<open>openSync(p, 'w')\<close>: an existing file is emptied.\<close>

definition open_w :: "string \<Rightarrow> nat io" where
  "open_w p = whole (\<lambda>s.
     case look_up s p of
       Some i \<Rightarrow> (Inr i, set_node i (unsynced [] s) s)
     | None \<Rightarrow> (Inr (fs_next s), fresh_node p (unsynced [] s) s))"

definition open_r :: "string \<Rightarrow> nat io" where
  "open_r p = whole (\<lambda>s. case look_up s p of Some i \<Rightarrow> (Inr i, s) | None \<Rightarrow> (Inl ENOENT, s))"

definition write_fd :: "nat \<Rightarrow> string \<Rightarrow> unit io" where
  "write_fd fd bs =
     syscall (\<lambda>n s. set_node fd (unsynced (take n bs) s) s) (\<lambda>s. (Inr (), set_node fd (unsynced bs s) s))"

definition fsync_fd :: "nat \<Rightarrow> unit io" where
  "fsync_fd fd = whole (\<lambda>s. (Inr (), set_node fd ((fs_nodes s fd)\<lparr>in_synced := True\<rparr>) s))"

definition close_fd :: "unit io" where
  "close_fd = whole (io_ret ())"

text \<open>\<open>rename\<close> replaces the target; two names of one file stay as they are.\<close>

definition rename :: "string \<Rightarrow> string \<Rightarrow> unit io" where
  "rename a b = whole (\<lambda>s.
     case look_up s a of
       None \<Rightarrow> (Inl ENOENT, s)
     | Some i \<Rightarrow> (Inr (), if look_up s b = Some i then s else set_names (AList.update b i (AList.delete a (fs_names s))) s))"

text \<open>\<open>rmSync(p, { force: true })\<close>: a missing file is no error.\<close>

definition remove_file :: "string \<Rightarrow> unit io" where
  "remove_file p = whole (\<lambda>s. (Inr (), if look_up s p = None then s else set_names (AList.delete p (fs_names s)) s))"

definition link :: "string \<Rightarrow> string \<Rightarrow> unit io" where
  "link a b = whole (\<lambda>s.
     case (look_up s a, look_up s b) of
       (None, _) \<Rightarrow> (Inl ENOENT, s)
     | (Some _, Some _) \<Rightarrow> (Inl EEXIST, s)
     | (Some i, None) \<Rightarrow> (Inr (), set_names (AList.update b i (fs_names s)) s))"

definition put_copy :: "string \<Rightarrow> string \<Rightarrow> fs \<Rightarrow> fs" where
  "put_copy b bs s =
     (case look_up s b of
        Some j \<Rightarrow> set_node j (unsynced bs s) s
      | None \<Rightarrow> fresh_node b (unsynced bs s) s)"

definition copy_file :: "string \<Rightarrow> string \<Rightarrow> unit io" where
  "copy_file a b =
     syscall (\<lambda>n s. case content s a of None \<Rightarrow> s | Some bs \<Rightarrow> if n = 0 then s else put_copy b (take n bs) s)
       (\<lambda>s. case content s a of None \<Rightarrow> (Inl ENOENT, s) | Some bs \<Rightarrow> (Inr (), put_copy b bs s))"

definition read_file :: "string \<Rightarrow> string io" where
  "read_file p = whole (\<lambda>s. case content s p of None \<Rightarrow> (Inl ENOENT, s) | Some bs \<Rightarrow> (Inr bs, s))"

definition exists_file :: "string \<Rightarrow> fs \<Rightarrow> bool" where
  "exists_file p s = (look_up s p \<noteq> None)"

definition mtimeOf :: "string \<Rightarrow> int option io" where
  "mtimeOf p = whole (io_get (\<lambda>s. map_option (\<lambda>i. in_mtime (fs_nodes s i)) (look_up s p)))"

text \<open>Bringing a directory to the disk.\<close>

definition open_dir :: "unit io" where
  "open_dir = whole (io_ret ())"

definition sync_dir :: "unit io" where
  "sync_dir = whole (\<lambda>s. (Inr (), noted (s\<lparr>fs_dirs := [fs_names s]\<rparr>)))"

section \<open>Waiting and trying again\<close>

definition sleepSync :: "int \<Rightarrow> fs \<Rightarrow> fs" where
  "sleepSync ms s = s\<lparr>fs_now := fs_now s + ms\<rparr>"

definition TRANSIENT :: "errno list" where
  "TRANSIENT = [EBUSY, EPERM, EACCES]"

function retry_from :: "'a io \<Rightarrow> nat \<Rightarrow> int \<Rightarrow> nat \<Rightarrow> 'a io" where
  "retry_from fn tries ms i s =
     (case fn s of
        (Inl e, s') \<Rightarrow>
          if tries \<le> i \<or> e \<notin> set TRANSIENT then (Inl e, s')
          else retry_from fn tries ms (i + 1) (sleepSync (ms * int i) s')
      | (Inr x, s') \<Rightarrow> (Inr x, s'))"
  by pat_completeness auto
termination
  by (relation "measure (\<lambda>(fn, tries, ms, i, s). tries - i)") auto

declare retry_from.simps [simp del]

definition retrySync :: "'a io \<Rightarrow> nat \<Rightarrow> int \<Rightarrow> 'a io" where
  "retrySync fn tries ms = retry_from fn tries ms 1"

section \<open>What a computation keeps\<close>

text \<open>From a state with \<open>P\<close>: a result comes with \<open>Q\<close>, a thrown error with \<open>E\<close>.\<close>

definition io_ok :: "(fs \<Rightarrow> bool) \<Rightarrow> 'a io \<Rightarrow> ('a \<Rightarrow> fs \<Rightarrow> bool) \<Rightarrow> (fs \<Rightarrow> bool) \<Rightarrow> bool" where
  "io_ok P m Q E = (\<forall>s. P s \<longrightarrow> (case m s of (Inr x, s') \<Rightarrow> Q x s' | (Inl e, s') \<Rightarrow> E s'))"

lemma io_okI: "(\<And>s. P s \<Longrightarrow> case m s of (Inr x, s') \<Rightarrow> Q x s' | (Inl e, s') \<Rightarrow> E s') \<Longrightarrow> io_ok P m Q E"
  by (simp add: io_ok_def)

lemma io_ok_run:
  assumes "io_ok P m Q E" "P s"
  shows "m s = (Inr x, s') \<Longrightarrow> Q x s'" "m s = (Inl e, s') \<Longrightarrow> E s'"
  using assms by (auto simp: io_ok_def)

lemma io_ok_case:
  assumes "io_ok P m Q E" "P s" "m s = (r, s')"
  shows "case r of Inr x \<Rightarrow> Q x s' | Inl e \<Rightarrow> E s'"
  using assms by (auto simp: io_ok_def)

lemma io_ok_pre: "io_ok P' m Q E \<Longrightarrow> (\<And>s. P s \<Longrightarrow> P' s) \<Longrightarrow> io_ok P m Q E"
  by (auto simp: io_ok_def)

lemma io_ok_post:
  assumes "io_ok P m Q' E'" "\<And>x s. Q' x s \<Longrightarrow> Q x s" "\<And>s. E' s \<Longrightarrow> E s"
  shows "io_ok P m Q E"
  unfolding io_ok_def using assms(1) assms(2,3)
  by (fastforce simp: io_ok_def split: prod.splits sum.splits)

lemma io_ok_ret: "(\<And>s. P s \<Longrightarrow> Q x s) \<Longrightarrow> io_ok P (io_ret x) Q E"
  by (auto simp: io_ok_def io_ret_def)

lemma io_ok_get: "(\<And>s. P s \<Longrightarrow> Q (f s) s) \<Longrightarrow> io_ok P (io_get f) Q E"
  by (auto simp: io_ok_def io_get_def)

lemma io_ok_bind:
  assumes "io_ok P m R E" "\<And>x. io_ok (R x) (k x) Q E"
  shows "io_ok P (io_bind m k) Q E"
  unfolding io_ok_def io_bind_def
  using io_ok_run [OF assms(1)] io_ok_run [OF assms(2)] by (fastforce split: prod.splits sum.splits)

lemma io_ok_catch:
  assumes "io_ok P m Q R" "\<And>e. io_ok R (h e) Q E"
  shows "io_ok P (io_catch m h) Q E"
  unfolding io_ok_def io_catch_def
  using io_ok_run [OF assms(1)] io_ok_run [OF assms(2)] by (fastforce split: prod.splits sum.splits)

lemma io_ok_finally:
  assumes "io_ok P m R F" "\<And>x. io_ok (R x) c (\<lambda>_. Q x) E" "io_ok F c (\<lambda>_. E) E"
  shows "io_ok P (io_finally m c) Q E"
proof (rule io_okI)
  fix s assume "P s"
  then have "case m s of (Inr x, s') \<Rightarrow> R x s' | (Inl e, s') \<Rightarrow> F s'"
    using assms(1) by (simp add: io_ok_def)
  then show "case io_finally m c s of (Inr x, s') \<Rightarrow> Q x s' | (Inl e, s') \<Rightarrow> E s'"
    using assms(2) [unfolded io_ok_def, rule_format] assms(3) [unfolded io_ok_def, rule_format]
    by (auto simp: io_finally_def split: prod.splits sum.splits) (force split: prod.splits sum.splits)+
qed

lemma io_ok_each:
  assumes "\<And>x. x \<in> set xs \<Longrightarrow> io_ok I (f x) (\<lambda>_. I) E"
  shows "io_ok I (io_each f xs) (\<lambda>_. I) E"
  using assms by (induction xs) (auto intro!: io_ok_ret io_ok_bind)

lemma io_ok_retry:
  assumes fn: "io_ok I fn Q I" and sleep: "\<And>s t. I s \<Longrightarrow> I (sleepSync t s)"
  shows "io_ok I (retrySync fn tries ms) Q I"
proof (rule io_okI)
  fix s assume "I s"
  then have "case retry_from fn tries ms i s of (Inr x, s') \<Rightarrow> Q x s' | (Inl e, s') \<Rightarrow> I s'" for i
  proof (induction "tries - i" arbitrary: i s rule: less_induct)
    case less
    have step: "case fn s of (Inr x, s') \<Rightarrow> Q x s' | (Inl e, s') \<Rightarrow> I s'"
      using fn less.prems by (simp add: io_ok_def)
    show ?case
    proof (cases "\<exists>e s'. fn s = (Inl e, s') \<and> \<not> (tries \<le> i \<or> e \<notin> set TRANSIENT)")
      case True
      then obtain e s' where f: "fn s = (Inl e, s')" "\<not> (tries \<le> i \<or> e \<notin> set TRANSIENT)"
        by blast
      then have "I (sleepSync (ms * int i) s')"
        using step sleep by simp
      then show ?thesis
        using f less.hyps [of "i + 1" "sleepSync (ms * int i) s'"] by (subst retry_from.simps) auto
    next
      case False
      then show ?thesis
        using step by (subst retry_from.simps) (auto split: sum.splits prod.splits)
    qed
  qed
  then show "case retrySync fn tries ms s of (Inr x, s') \<Rightarrow> Q x s' | (Inl e, s') \<Rightarrow> I s'"
    by (simp add: retrySync_def)
qed

text \<open>An invariant kept by a computation, thrown or not.\<close>

abbreviation stays :: "(fs \<Rightarrow> bool) \<Rightarrow> 'a io \<Rightarrow> bool" where
  "stays I m \<equiv> io_ok I m (\<lambda>_. I) I"

lemma stays_bind: "stays I m \<Longrightarrow> (\<And>x. stays I (k x)) \<Longrightarrow> stays I (io_bind m k)"
  by (rule io_ok_bind)

lemma stays_catch: "stays I m \<Longrightarrow> (\<And>e. stays I (h e)) \<Longrightarrow> stays I (io_catch m h)"
  by (rule io_ok_catch)

lemma stays_finally: "stays I m \<Longrightarrow> stays I c \<Longrightarrow> stays I (io_finally m c)"
  by (rule io_ok_finally)

lemma stays_each: "(\<And>x. x \<in> set xs \<Longrightarrow> stays I (f x)) \<Longrightarrow> stays I (io_each f xs)"
  by (rule io_ok_each)

lemma stays_ret: "stays I (io_ret x)"
  by (rule io_ok_ret)

lemma stays_run: "stays I m \<Longrightarrow> I s \<Longrightarrow> I (snd (m s))"
  by (cases "m s"; cases "fst (m s)") (auto simp: io_ok_def)

lemmas stays_rules = stays_bind stays_catch stays_finally stays_each stays_ret

end
