(* ===== verification/Durable.thy ===== *)
theory Durable
  imports DurableFs FF_Json
begin

text \<open>
  Crash-safe data files (\<open>src/server/durable.ts\<close>): writing one (\<open>rotate\<close>, \<open>commit\<close>, \<open>writeFileDurable\<close> and
  the background half \<open>writeFileDurableAsync\<close>), and loading one with the recovery from its older versions
  (\<open>readCandidate\<close>, \<open>moveAside\<close>, \<open>readJsonDurable\<close>). File modes and log lines are not modelled.
\<close>

section \<open>Options and names\<close>

record durable_options =
  do_generations :: "nat option"
  do_spacingMs :: "int option"

definition DEFAULT_GENERATIONS :: nat where
  "DEFAULT_GENERATIONS = 3"

definition DEFAULT_SPACING_MS :: int where
  "DEFAULT_SPACING_MS = 60000"

definition generations_of :: "durable_options \<Rightarrow> nat" where
  "generations_of d = (case do_generations d of Some g \<Rightarrow> g | None \<Rightarrow> DEFAULT_GENERATIONS)"

definition spacing_of :: "durable_options \<Rightarrow> int" where
  "spacing_of d = (case do_spacingMs d of Some m \<Rightarrow> m | None \<Rightarrow> DEFAULT_SPACING_MS)"

definition generationPath :: "string \<Rightarrow> nat \<Rightarrow> string" where
  "generationPath file k = file @ ''.'' @ show_nat k"

definition tmpPath :: "string \<Rightarrow> string" where
  "tmpPath file = file @ ''.tmp''"

definition asyncTmpPath :: "string \<Rightarrow> string" where
  "asyncTmpPath file = file @ ''.async.tmp''"

section \<open>The directory\<close>

definition fsyncDir :: "unit io" where
  "fsyncDir s =
     (if fs_windows s then (Inr (), s)
      else case open_dir s of
        (Inl _, s') \<Rightarrow> (Inr (), s')
      | (Inr _, s') \<Rightarrow> io_finally (io_catch sync_dir (\<lambda>_. io_ret ())) close_fd s')"

definition fsyncDirAsync :: "unit io" where
  "fsyncDirAsync s =
     (if fs_windows s then (Inr (), s)
      else case open_dir s of
        (Inl _, s') \<Rightarrow> (Inr (), s')
      | (Inr _, s') \<Rightarrow> io_then (io_catch sync_dir (\<lambda>_. io_ret ())) close_fd s')"

section \<open>Keeping the version about to be replaced\<close>

text \<open>The first loop: the oldest slot that moves on, among \<open>.2\<close>, \<open>.3\<close>, ... up to the first that is too young.\<close>

fun rotate_top :: "string \<Rightarrow> int \<Rightarrow> int \<Rightarrow> nat list \<Rightarrow> nat \<Rightarrow> nat io" where
  "rotate_top file spacing now [] top_k = io_ret top_k"
| "rotate_top file spacing now (k # ks) top_k =
     io_bind (mtimeOf (generationPath file k)) (\<lambda>t.
       if (case t of Some t \<Rightarrow> now - t < spacing * 10 ^ (k - 2) | None \<Rightarrow> False) then io_ret top_k
       else rotate_top file spacing now ks k)"

definition move_on :: "string \<Rightarrow> nat \<Rightarrow> nat \<Rightarrow> unit io" where
  "move_on file tries k s =
     (let older = generationPath file (k - 1)
      in if exists_file older s then retrySync (rename older (generationPath file k)) tries 50 s else (Inr (), s))"

text \<open>The file as \<open>.1\<close>: a hard link, or a copy that is on the disk before it counts.\<close>

definition keep_current :: "string \<Rightarrow> nat \<Rightarrow> unit io" where
  "keep_current file tries =
     (let g1 = generationPath file 1
      in io_then (retrySync (remove_file g1) tries 50)
           (io_catch (link file g1)
             (\<lambda>_. io_then (copy_file file g1)
               (io_bind (open_r g1) (\<lambda>fd. io_finally (fsync_fd fd) close_fd)))))"

definition rotate :: "string \<Rightarrow> nat \<Rightarrow> int \<Rightarrow> nat \<Rightarrow> unit io" where
  "rotate file generations spacing tries s =
     (if generations = 0 \<or> \<not> exists_file file s then (Inr (), s)
      else io_bind (rotate_top file spacing (fs_now s) [2..<generations + 1] 1) (\<lambda>top_k.
             io_then (io_each (move_on file tries) (rev [2..<top_k + 1])) (keep_current file tries)) s)"

definition commit :: "string \<Rightarrow> string \<Rightarrow> durable_options \<Rightarrow> nat \<Rightarrow> unit io" where
  "commit file tmp d tries =
     io_then (io_catch (rotate file (generations_of d) (spacing_of d) tries) (\<lambda>_. io_ret ()))
       (retrySync (rename tmp file) tries 50)"

section \<open>Writing\<close>

definition write_tmp :: "string \<Rightarrow> string \<Rightarrow> unit io" where
  "write_tmp tmp bs = io_bind (open_w tmp) (\<lambda>fd. io_finally (io_then (write_fd fd bs) (fsync_fd fd)) close_fd)"

definition writeFileDurable :: "string \<Rightarrow> string \<Rightarrow> durable_options \<Rightarrow> unit io" where
  "writeFileDurable file bs d =
     io_then (write_tmp (tmpPath file) bs) (io_then (commit file (tmpPath file) d 5) fsyncDir)"

text \<open>
  \<open>writeFileDurableAsync\<close> in two halves: the write and the fsync off the main thread, and what runs once the
  data is on disk (\<open>stillWanted\<close> asked then).
\<close>

definition write_async :: "string \<Rightarrow> string \<Rightarrow> unit io" where
  "write_async file bs = write_tmp (asyncTmpPath file) bs"

definition commit_async :: "string \<Rightarrow> durable_options \<Rightarrow> bool \<Rightarrow> bool io" where
  "commit_async file d wanted =
     (if \<not> wanted then io_then (remove_file (asyncTmpPath file)) (io_ret False)
      else io_then (commit file (asyncTmpPath file) d 1) (io_then fsyncDirAsync (io_ret True)))"

definition writeFileDurableAsync :: "string \<Rightarrow> string \<Rightarrow> durable_options \<Rightarrow> bool \<Rightarrow> bool io" where
  "writeFileDurableAsync file bs d wanted = io_then (write_async file bs) (commit_async file d wanted)"

section \<open>Where a damaged file goes\<close>

definition pad3 :: "int \<Rightarrow> string" where
  "pad3 n = (if n < 100 then CHR ''0'' # pad2 n else pad2 n)"

definition pad4 :: "int \<Rightarrow> string" where
  "pad4 n = (if n < 1000 then CHR ''0'' # pad3 n else pad3 n)"

text \<open>\<open>toISOString\<close>, its colons and the dot written as dashes (years 0 to 9999).\<close>

definition stamp_text :: "int \<Rightarrow> string" where
  "stamp_text t =
     pad4 (cal_year utc t) @ ''-'' @ pad2 (cal_month utc t) @ ''-'' @ pad2 (cal_date utc t) @ ''T''
     @ pad2 (cal_hour utc t) @ ''-'' @ pad2 (cal_minute utc t) @ ''-'' @ pad2 (t div 1000 mod 60) @ ''-'' @ pad3 (t mod 1000) @ ''Z''"

definition numbered :: "string \<Rightarrow> nat \<Rightarrow> string" where
  "numbered base i = base @ ''-'' @ show_nat i"

lemma numbered_inj: "numbered base i = numbered base j \<longleftrightarrow> i = j"
  by (simp add: numbered_def)

lemma finite_taken: "finite {j. i \<le> j \<and> exists_file (numbered base j) s}"
proof (rule finite_surj)
  show "{j. i \<le> j \<and> exists_file (numbered base j) s} \<subseteq> the_inv (numbered base) ` (fst ` set (fs_names s))"
  proof
    fix j assume "j \<in> {j. i \<le> j \<and> exists_file (numbered base j) s}"
    then have "numbered base j \<in> fst ` set (fs_names s)"
      by (auto simp: exists_file_def look_up_def map_of_eq_None_iff)
    moreover have "the_inv (numbered base) (numbered base j) = j"
      by (rule the_inv_f_f) (simp add: inj_def numbered_inj)
    ultimately show "j \<in> the_inv (numbered base) ` (fst ` set (fs_names s))"
      by (metis imageI)
  qed
qed simp

text \<open>The loop over the numbered names ends: each name taken is passed once.\<close>

function free_name :: "fs \<Rightarrow> string \<Rightarrow> string \<Rightarrow> nat \<Rightarrow> string" where
  "free_name s base p i = (if exists_file p s then free_name s base (numbered base i) (i + 1) else p)"
  by pat_completeness auto
termination
proof (relation "measure (\<lambda>(s, base, p, i). (if exists_file p s then 1 else 0) + card {j. i \<le> j \<and> exists_file (numbered base j) s})")
  fix s base p i
  assume "exists_file p s"
  let ?T = "\<lambda>i. {j. i \<le> j \<and> exists_file (numbered base j) s}"
  have "card (?T (i + 1)) + (if exists_file (numbered base i) s then 1 else 0) \<le> card (?T i)"
  proof (cases "exists_file (numbered base i) s")
    case True
    then have "?T i = insert i (?T (i + 1))"
      by (auto simp: Suc_le_eq order.order_iff_strict)
    then show ?thesis
      using True finite_taken [of "i + 1" base s] by simp
  next
    case False
    then show ?thesis
      using finite_taken [of i base s] by (auto intro!: card_mono)
  qed
  then show "((s, base, numbered base i, i + 1), s, base, p, i)
     \<in> measure (\<lambda>(s, base, p, i). (if exists_file p s then 1 else 0) + card {j. i \<le> j \<and> exists_file (numbered base j) s})"
    using \<open>exists_file p s\<close> by (simp split: if_splits)
qed simp

declare free_name.simps [simp del]

definition asidePath :: "string \<Rightarrow> fs \<Rightarrow> string" where
  "asidePath file s =
     (let base = file @ ''.damaged-'' @ stamp_text (fs_now s) in free_name s base base 2)"

definition moveAside :: "string \<Rightarrow> string option io" where
  "moveAside p s =
     (let to = asidePath p s
      in io_catch (io_then (retrySync (rename p to) 5 50) (io_ret (Some to)))
           (\<lambda>_. io_catch (io_then (copy_file p to) (io_ret (Some to))) (\<lambda>_. io_ret None)) s)"

section \<open>Loading\<close>

datatype 'v candidate_verdict = Good 'v string | Bad damage

fun is_missing :: "'v candidate_verdict \<Rightarrow> bool" where
  "is_missing (Bad DMissing) = True"
| "is_missing _ = False"

definition BOM :: string where
  "BOM = [char_of (239 :: nat), char_of (187 :: nat), char_of (191 :: nat)]"

definition no_bom :: "string \<Rightarrow> string" where
  "no_bom bs = (if has_prefix BOM bs then drop (length BOM) bs else bs)"

definition NUL :: char where
  "NUL = char_of (0 :: nat)"

text \<open>
  The bytes of a file judged: \<open>parse\<close> is \<open>JSON.parse\<close> (its error's text, or the value), \<open>check\<close> the caller's
  schema check (why the value is not a sane version of the file). Texts are their UTF-8 bytes.
\<close>

definition judge_bytes :: "(string \<Rightarrow> string + 'v) \<Rightarrow> ('v \<Rightarrow> string option) \<Rightarrow> string \<Rightarrow> 'v candidate_verdict" where
  "judge_bytes parse check buf =
     (if buf = [] then Bad DEmpty
      else if list_all (\<lambda>b. b = NUL) buf then Bad (DZeros (length buf))
      else
        let text = no_bom buf
        in case parse text of
             Inl e \<Rightarrow> Bad (if NUL \<in> set buf then DPartly (position NUL buf) (length buf) else DGarbled e)
           | Inr v \<Rightarrow> (case check v of
                 Some bad \<Rightarrow> if bad \<noteq> [] then Bad (DNotSane bad) else Good v text
               | None \<Rightarrow> Good v text))"

definition readCandidate :: "(string \<Rightarrow> string + 'v) \<Rightarrow> ('v \<Rightarrow> string option) \<Rightarrow> string \<Rightarrow> 'v candidate_verdict io" where
  "readCandidate parse check p s =
     (case retrySync (read_file p) 4 100 s of
        (Inl e, s') \<Rightarrow> (Inr (Bad (if e = ENOENT then DMissing else DUnreadable e)), s')
      | (Inr buf, s') \<Rightarrow> (Inr (judge_bytes parse check buf), s'))"

text \<open>The schema checks the callers share: why a parsed value is not a sane version of the file.\<close>

definition checkObject :: "js \<Rightarrow> string option" where
  "checkObject v = (if is_obj v then None else Some ''not a JSON object'')"

definition checkArray :: "js \<Rightarrow> string option" where
  "checkArray v = (case v of JArr _ \<Rightarrow> None | _ \<Rightarrow> Some ''not a JSON list'')"

definition checkStringMap :: "js \<Rightarrow> string option" where
  "checkStringMap v =
     (if is_obj v \<and> list_all (\<lambda>(k, x). case x of JStr _ \<Rightarrow> True | _ \<Rightarrow> False) (js_entries v) then None else Some ''not a map of strings'')"

record load_options =
  lo_generations :: "nat option"
  lo_extra :: "string list"

definition candidates :: "string \<Rightarrow> load_options \<Rightarrow> string list" where
  "candidates file lo =
     map (\<lambda>i. generationPath file (i + 1)) [0..<(case lo_generations lo of Some g \<Rightarrow> g | None \<Rightarrow> DEFAULT_GENERATIONS)]
     @ lo_extra lo"

definition recordRecovery :: "data_recovery \<Rightarrow> unit io" where
  "recordRecovery rec s = (Inr (), s\<lparr>fs_recoveries := fs_recoveries s @ [rec]\<rparr>)"

definition NO_VERSIONS :: durable_options where
  "NO_VERSIONS = \<lparr>do_generations = Some 0, do_spacingMs = None\<rparr>"

text \<open>The candidates in turn: the first good one is written back and returned, the damaged ones before it moved aside.\<close>

fun restore :: "(string \<Rightarrow> string + 'v) \<Rightarrow> ('v \<Rightarrow> string option) \<Rightarrow> string \<Rightarrow> data_recovery \<Rightarrow> string list \<Rightarrow> 'v option io" where
  "restore parse check file rec [] = io_then (recordRecovery rec) (io_ret None)"
| "restore parse check file rec (c # cs) =
     io_bind (readCandidate parse check c) (\<lambda>r. case r of
       Bad d \<Rightarrow> if is_missing r then restore parse check file rec cs
                else io_then (moveAside c) (restore parse check file rec cs)
     | Good v text \<Rightarrow> io_bind (mtimeOf c) (\<lambda>t.
         io_then (io_catch (writeFileDurable file text NO_VERSIONS) (\<lambda>_. io_ret ()))
           (io_then (recordRecovery (rec\<lparr>dr_from := Some c, dr_fromTime := t\<rparr>)) (io_ret (Some v)))))"

definition readJsonDurable :: "(string \<Rightarrow> string + 'v) \<Rightarrow> ('v \<Rightarrow> string option) \<Rightarrow> string \<Rightarrow> load_options \<Rightarrow> 'v option io" where
  "readJsonDurable parse check file lo =
     io_bind (readCandidate parse check file) (\<lambda>first s. case first of
       Good v _ \<Rightarrow> (Inr (Some v), s)
     | Bad d \<Rightarrow>
         if is_missing first \<and> \<not> list_ex (\<lambda>c. exists_file c s) (candidates file lo) then (Inr None, s)
         else io_bind (mtimeOf file) (\<lambda>t.
           io_bind (if is_missing first then io_ret None else moveAside file) (\<lambda>moved.
             restore parse check file
               \<lparr>dr_file = file, dr_problem = d, dr_movedTo = moved, dr_from = None, dr_fromTime = None, dr_damagedTime = t\<rparr>
               (candidates file lo))) s)"

end
