(* ===== verification/DurableLaws.thy ===== *)
theory DurableLaws
  imports Durable
begin

text \<open>
  The laws behind the crash-safe files: which names are apart, what a crash may leave at every moment of a write
  (the invariant \<open>write_ok\<close> and each call that keeps it), and what a write keeps of everything else.
\<close>

section \<open>What every call keeps, a rotation keeps\<close>

text \<open>The contract of the file system's calls for an invariant: none of them breaks it, refused or not, nor does sleeping.\<close>

locale call_invariant =
  fixes I :: "fs \<Rightarrow> bool"
  assumes rename: "stays I (rename a b)" and remove: "stays I (remove_file p)" and link: "stays I (link a b)"
    and copy: "stays I (copy_file a b)" and mtime: "stays I (mtimeOf p)" and open_r: "stays I (open_r p)"
    and fsync: "stays I (fsync_fd fd)" and close: "stays I close_fd" and sleep: "I s \<Longrightarrow> I (sleepSync t s)"
begin

lemma retry: "stays I m \<Longrightarrow> stays I (retrySync m tries ms)"
  by (rule io_ok_retry) (simp_all add: sleep)

lemma rotate_top: "stays I (rotate_top file spacing now ks k)"
  by (induction ks arbitrary: k) (auto intro!: io_ok_ret io_ok_bind [OF mtime])

lemma move_on: "stays I (move_on file tries k)"
  using retry [OF rename] by (simp add: io_ok_def move_on_def Let_def)

lemma keep_current: "stays I (keep_current file tries)"
  unfolding keep_current_def Let_def by (intro stays_rules retry remove link copy open_r fsync close)

lemma rotate: "stays I (rotate file g spacing tries)"
proof -
  have "stays I (io_bind (rotate_top file spacing now ks 1) (\<lambda>k.
      io_then (io_each (move_on file tries) (rev [2..<k + 1])) (keep_current file tries)))" for now ks
    by (intro stays_rules rotate_top move_on keep_current)
  then show ?thesis
    by (simp add: rotate_def io_ok_def)
qed

end

section \<open>Names\<close>

definition temps :: "string \<Rightarrow> string set" where
  "temps file = {tmpPath file, asyncTmpPath file}"

definition beside :: "string \<Rightarrow> string \<Rightarrow> bool" where
  "beside file p = (p \<noteq> file \<and> p \<notin> temps file)"

lemma temp_names [simp]: "tmpPath file \<in> temps file" "asyncTmpPath file \<in> temps file" "file \<notin> temps file"
  "tmpPath file \<noteq> asyncTmpPath file"
  by (auto simp: temps_def tmpPath_def asyncTmpPath_def)

lemma generation_beside [simp]: "beside file (generationPath file k)"
proof -
  have "show_nat k \<noteq> ''tmp'' \<and> show_nat k \<noteq> ''async.tmp''"
    using show_nat_digits [of k] by (auto simp: is_digit_def code_def)
  then show ?thesis
    by (auto simp: beside_def temps_def generationPath_def tmpPath_def asyncTmpPath_def)
qed

section \<open>What a crash may leave\<close>

definition entry_safe :: "string option set \<Rightarrow> (nat \<Rightarrow> inode) \<Rightarrow> nat option \<Rightarrow> bool" where
  "entry_safe C nodes e =
     (case e of None \<Rightarrow> None \<in> C
      | Some i \<Rightarrow> if in_synced (nodes i) then Some (in_data (nodes i)) \<in> C else range Some \<subseteq> C)"

definition disk_safe :: "string option set \<Rightarrow> string \<Rightarrow> disk \<Rightarrow> bool" where
  "disk_safe C file d = (\<forall>dir \<in> set (fst d). entry_safe C (snd d) (map_of dir file))"

lemma disk_safe_iff: "disk_safe C file d \<longleftrightarrow> (\<forall>view. crash_leaves d view \<longrightarrow> view file \<in> C)"
proof (intro iffI allI impI)
  fix view assume "disk_safe C file d" "crash_leaves d view"
  then obtain dir where dir: "dir \<in> set (fst d)" "entry_safe C (snd d) (map_of dir file)"
    "case map_of dir file of None \<Rightarrow> view file = None | Some i \<Rightarrow> \<exists>bs. view file = Some bs \<and> (in_synced (snd d i) \<longrightarrow> bs = in_data (snd d i))"
    by (auto simp: crash_leaves_def disk_safe_def)
  then show "view file \<in> C"
    by (auto simp: entry_safe_def split: option.splits if_splits)
next
  assume all: "\<forall>view. crash_leaves d view \<longrightarrow> view file \<in> C"
  have "entry_safe C (snd d) (map_of dir file)" if "dir \<in> set (fst d)" for dir
  proof -
    let ?view = "\<lambda>bs p. case map_of dir p of None \<Rightarrow> None | Some i \<Rightarrow> Some (if in_synced (snd d i) then in_data (snd d i) else bs)"
    have "crash_leaves d (?view bs)" for bs
      unfolding crash_leaves_def using that by (intro bexI [where x = dir]) (auto split: option.splits)
    then have "?view bs file \<in> C" for bs
      using all by blast
    then show ?thesis
      by (auto simp: entry_safe_def split: option.splits if_splits)
  qed
  then show "disk_safe C file d"
    by (simp add: disk_safe_def)
qed

lemma entry_safe_mono: "entry_safe C nodes e \<Longrightarrow> C \<subseteq> C' \<Longrightarrow> entry_safe C' nodes e"
  by (auto simp: entry_safe_def split: option.splits if_splits)

lemma disk_safe_mono: "disk_safe C file d \<Longrightarrow> C \<subseteq> C' \<Longrightarrow> disk_safe C' file d"
  by (auto simp: disk_safe_def intro: entry_safe_mono)

text \<open>In a directory no other name stands for a temporary file's inode.\<close>

definition apart_in :: "string \<Rightarrow> dir \<Rightarrow> bool" where
  "apart_in file dir = (\<forall>t \<in> temps file. \<forall>i p. map_of dir t = Some i \<longrightarrow> map_of dir p = Some i \<longrightarrow> p = t)"

definition disk_ok :: "string option set \<Rightarrow> string \<Rightarrow> disk \<Rightarrow> bool" where
  "disk_ok C file d \<longleftrightarrow> disk_safe C file d \<and> (\<forall>dir \<in> set (fst d). apart_in file dir)"

lemma disk_ok_mono: "disk_ok C file d \<Longrightarrow> C \<subseteq> C' \<Longrightarrow> disk_ok C' file d"
  by (auto simp: disk_ok_def intro: disk_safe_mono)

text \<open>
  How the directory stands before a write: its inodes are numbered below the next one, and the file's own,
  whichever directory state a crash leaves, is no temporary file's.
\<close>

definition files_apart :: "string \<Rightarrow> fs \<Rightarrow> bool" where
  "files_apart file s \<longleftrightarrow>
     fs_names s \<in> set (fs_dirs s) \<and> (\<forall>dir \<in> set (fs_dirs s). apart_in file dir)
     \<and> (\<forall>dir \<in> set (fs_dirs s). \<forall>i. map_of dir file = Some i \<longrightarrow> i < fs_next s)
     \<and> (\<forall>p i. look_up s p = Some i \<longrightarrow> i < fs_next s)
     \<and> (\<forall>t \<in> temps file. \<forall>i. look_up s t = Some i \<longrightarrow> (\<forall>dir \<in> set (fs_dirs s). map_of dir file \<noteq> Some i))"

text \<open>The invariant of a write: also, whatever a crash leaves of the file is in \<open>C\<close>, now and at each moment so far.\<close>

definition write_ok :: "string option set \<Rightarrow> string \<Rightarrow> fs \<Rightarrow> bool" where
  "write_ok C file s \<longleftrightarrow>
     disk_safe C file (disk_now s) \<and> (\<forall>d \<in> set (fs_past s). disk_ok C file d) \<and> files_apart file s"

lemma write_okD:
  assumes "write_ok C file s"
  shows "disk_safe C file (disk_now s)" "d \<in> set (fs_past s) \<Longrightarrow> disk_ok C file d"
    "fs_names s \<in> set (fs_dirs s)"
    "dir \<in> set (fs_dirs s) \<Longrightarrow> map_of dir file = Some i \<Longrightarrow> i < fs_next s"
    "look_up s p = Some i \<Longrightarrow> i < fs_next s"
    "t \<in> temps file \<Longrightarrow> look_up s t = Some i \<Longrightarrow> dir \<in> set (fs_dirs s) \<Longrightarrow> map_of dir file \<noteq> Some i"
    "t \<in> temps file \<Longrightarrow> look_up s t = Some i \<Longrightarrow> look_up s p = Some i \<Longrightarrow> p = t"
    "dir \<in> set (fs_dirs s) \<Longrightarrow> apart_in file dir"
  using assms unfolding write_ok_def files_apart_def apart_in_def look_up_def by blast+

lemma write_okI:
  assumes "disk_safe C file (disk_now s)" "\<And>d. d \<in> set (fs_past s) \<Longrightarrow> disk_ok C file d" "fs_names s \<in> set (fs_dirs s)"
    "\<And>dir. dir \<in> set (fs_dirs s) \<Longrightarrow> apart_in file dir"
    "\<And>dir i. dir \<in> set (fs_dirs s) \<Longrightarrow> map_of dir file = Some i \<Longrightarrow> i < fs_next s"
    "\<And>p i. look_up s p = Some i \<Longrightarrow> i < fs_next s"
    "\<And>t i dir. t \<in> temps file \<Longrightarrow> look_up s t = Some i \<Longrightarrow> dir \<in> set (fs_dirs s) \<Longrightarrow> map_of dir file \<noteq> Some i"
  shows "write_ok C file s"
  using assms unfolding write_ok_def files_apart_def by blast

lemma write_ok_mono: "write_ok C file s \<Longrightarrow> C \<subseteq> C' \<Longrightarrow> write_ok C' file s"
  unfolding write_ok_def using disk_safe_mono disk_ok_mono by blast

lemma write_ok_faults [simp]: "write_ok C file (s\<lparr>fs_faults := q\<rparr>) \<longleftrightarrow> write_ok C file s"
  by (simp add: write_ok_def files_apart_def disk_now_def look_up_def)

lemma write_ok_clock [simp]: "write_ok C file (s\<lparr>fs_now := n\<rparr>) \<longleftrightarrow> write_ok C file s"
  by (simp add: write_ok_def files_apart_def disk_now_def look_up_def)

lemma write_ok_now:
  assumes "write_ok C file s"
  shows "entry_safe C (fs_nodes s) (look_up s file)"
  using write_okD(1,3) [OF assms] by (auto simp: disk_safe_def disk_now_def look_up_def)

lemma write_ok_names:
  assumes ok: "write_ok C file s"
    and safe: "entry_safe C (fs_nodes s) (map_of ns file)"
    and old: "\<And>p i. map_of ns p = Some i \<Longrightarrow> i < fs_next s"
    and apart: "\<And>t i. t \<in> temps file \<Longrightarrow> map_of ns t = Some i \<Longrightarrow>
       (\<forall>dir \<in> set (fs_dirs s). map_of dir file \<noteq> Some i) \<and> (\<forall>p. map_of ns p = Some i \<longrightarrow> p = t)"
  shows "write_ok C file (set_names ns s)"
proof -
  have ns: "map_of ns file \<noteq> Some i" if "t \<in> temps file" "map_of ns t = Some i" for t i
    using apart [OF that] that(1) temp_names(3) by metis
  have ap: "apart_in file ns"
    unfolding apart_in_def using apart by blast
  have dk: "disk_safe C file (ns # fs_dirs s, fs_nodes s)"
    using write_okD(1) [OF ok] safe by (simp add: disk_safe_def disk_now_def)
  then have dok: "disk_ok C file (ns # fs_dirs s, fs_nodes s)"
    using write_okD(8) [OF ok] ap by (simp add: disk_ok_def)
  show ?thesis
  proof (rule write_okI)
    show "disk_ok C file d" if "d \<in> set (fs_past (set_names ns s))" for d
      using that dok write_okD(2) [OF ok, of d] by (auto simp: set_names_def noted_def disk_now_def)
    show "apart_in file dir" if "dir \<in> set (fs_dirs (set_names ns s))" for dir
      using that ap write_okD(8) [OF ok] by (auto simp: set_names_def noted_def)
    show "i < fs_next (set_names ns s)" if "dir \<in> set (fs_dirs (set_names ns s))" "map_of dir file = Some i" for dir i
      using that old write_okD(4) [OF ok] by (auto simp: set_names_def noted_def)
    show "map_of dir file \<noteq> Some i" if "t \<in> temps file" "look_up (set_names ns s) t = Some i" "dir \<in> set (fs_dirs (set_names ns s))" for t i dir
      using that ns apart by (auto simp: set_names_def noted_def look_up_def)
    show "i < fs_next (set_names ns s)" if "look_up (set_names ns s) p = Some i" for p i
      using that old by (simp add: set_names_def noted_def look_up_def)
  qed (use dk in \<open>simp_all add: set_names_def noted_def disk_now_def\<close>)
qed

lemma write_ok_node:
  assumes ok: "write_ok C file s"
    and n: "(\<forall>dir \<in> set (fs_dirs s). map_of dir file \<noteq> Some i) \<or> n = (fs_nodes s i)\<lparr>in_synced := True\<rparr>"
  shows "write_ok C file (set_node i n s)"
proof -
  have "entry_safe C ((fs_nodes s)(i := n)) (map_of dir file)" if "dir \<in> set (fs_dirs s)" for dir
  proof -
    have "entry_safe C (fs_nodes s) (map_of dir file)"
      using write_okD(1) [OF ok] that by (auto simp: disk_safe_def disk_now_def)
    then show ?thesis
      using n that by (auto simp: entry_safe_def split: option.splits if_splits)
  qed
  then have dk: "disk_safe C file (fs_dirs s, (fs_nodes s)(i := n))"
    by (auto simp: disk_safe_def)
  then have "disk_ok C file (fs_dirs s, (fs_nodes s)(i := n))"
    using write_okD(8) [OF ok] by (simp add: disk_ok_def)
  then show ?thesis
    using ok dk by (auto simp: write_ok_def files_apart_def set_node_def noted_def disk_now_def look_up_def)
qed

lemma write_ok_fresh:
  assumes ok: "write_ok C file s" and p: "p \<noteq> file" "look_up s p = None"
  shows "write_ok C file (fresh_node p n s)"
proof -
  let ?s = "s\<lparr>fs_nodes := (fs_nodes s)(fs_next s := n), fs_next := fs_next s + 1\<rparr>"
  have entry: "entry_safe C ((fs_nodes s)(fs_next s := n)) (map_of dir file)" if "dir \<in> set (fs_dirs s)" for dir
  proof -
    have "entry_safe C (fs_nodes s) (map_of dir file)" "map_of dir file \<noteq> Some (fs_next s)"
      using write_okD(1,4) [OF ok] that by (auto simp: disk_safe_def disk_now_def)
    then show ?thesis
      by (auto simp: entry_safe_def split: option.splits)
  qed
  have less: "i < fs_next s + 1" if "look_up s q = Some i" for q i
    using write_okD(5) [OF ok that] by simp
  have "write_ok C file ?s"
    using ok entry less
    by (auto simp: write_ok_def files_apart_def disk_now_def look_up_def disk_safe_def less_Suc_eq)
  then show ?thesis
    unfolding fresh_node_def
  proof (rule write_ok_names)
    show "entry_safe C (fs_nodes ?s) (map_of (AList.update p (fs_next s) (fs_names s)) file)"
      using entry [OF write_okD(3) [OF ok]] p by (simp add: update_conv')
    show "i < fs_next ?s" if "map_of (AList.update p (fs_next s) (fs_names s)) q = Some i" for q i
      using that less [of q] by (auto simp: update_conv' look_up_def split: if_splits)
    fix t i assume t: "t \<in> temps file" "map_of (AList.update p (fs_next s) (fs_names s)) t = Some i"
    show "(\<forall>dir \<in> set (fs_dirs ?s). map_of dir file \<noteq> Some i)
        \<and> (\<forall>q. map_of (AList.update p (fs_next s) (fs_names s)) q = Some i \<longrightarrow> q = t)"
    proof (cases "t = p")
      case True
      then have "i = fs_next s"
        using t by (simp add: update_conv')
      moreover have "map_of dir file \<noteq> Some (fs_next s)" if "dir \<in> set (fs_dirs s)" for dir
        using write_okD(4) [OF ok that] by auto
      moreover have "look_up s q \<noteq> Some (fs_next s)" for q
        using write_okD(5) [OF ok] by blast
      ultimately show ?thesis
        using True by (auto simp: update_conv' look_up_def)
    next
      case False
      then have up: "look_up s t = Some i"
        using t by (simp add: update_conv' look_up_def)
      then have "i \<noteq> fs_next s"
        using write_okD(5) [OF ok] by blast
      then show ?thesis
        using write_okD(6,7) [OF ok t(1) up] by (auto simp: update_conv' look_up_def)
    qed
  qed
qed

section \<open>What the calls of a rotation keep\<close>

definition node_of :: "fs \<Rightarrow> string \<Rightarrow> inode option" where
  "node_of s p = map_option (fs_nodes s) (look_up s p)"

text \<open>The names in \<open>Y\<close> hold the bytes \<open>y\<close> (the file is one of them), the temporary files in \<open>D\<close> are the inodes \<open>x\<close>.\<close>

definition write_kept :: "string option set \<Rightarrow> string \<Rightarrow> string set \<Rightarrow> (string \<Rightarrow> string option) \<Rightarrow> string set \<Rightarrow> (string \<Rightarrow> inode option)
    \<Rightarrow> fs \<Rightarrow> bool" where
  "write_kept C file Y y D x s \<longleftrightarrow>
     write_ok C file s \<and> file \<in> Y \<and> Y \<inter> temps file = {} \<and> (\<forall>p \<in> Y. content s p = y p)
     \<and> D \<subseteq> temps file \<and> (\<forall>t \<in> D. node_of s t = x t)"

lemma keptD:
  assumes "write_kept C file Y y D x s"
  shows "write_ok C file s" "D \<subseteq> temps file" "file \<in> Y" "p \<in> Y \<Longrightarrow> content s p = y p" "p \<in> Y \<Longrightarrow> p \<notin> temps file"
    "t \<in> D \<Longrightarrow> node_of s t = x t"
  using assms unfolding write_kept_def by blast+

lemma kept_same:
  assumes k: "write_kept C file Y y D x s" and ok: "write_ok C file s'"
    and same: "\<And>p. p \<in> Y \<Longrightarrow> content s' p = content s p" "\<And>t. t \<in> D \<Longrightarrow> node_of s' t = node_of s t"
  shows "write_kept C file Y y D x s'"
  using k ok same unfolding write_kept_def by metis

lemma kept_faults [simp]: "write_kept C file Y y D x (s\<lparr>fs_faults := q\<rparr>) \<longleftrightarrow> write_kept C file Y y D x s"
  by (simp add: write_kept_def content_def node_of_def look_up_def)

lemma kept_sleep [simp]: "write_kept C file Y y D x (sleepSync ms s) \<longleftrightarrow> write_kept C file Y y D x s"
  by (simp add: write_kept_def content_def node_of_def look_up_def sleepSync_def)

lemma look_up_sleep [simp]: "look_up (sleepSync ms s) p = look_up s p" "look_up (s\<lparr>fs_faults := q\<rparr>) p = look_up s p"
  by (simp_all add: look_up_def sleepSync_def)

lemma set_names_fields [simp]: "look_up (set_names ns s) p = map_of ns p" "fs_nodes (set_names ns s) = fs_nodes s"
  "fs_names (set_names ns s) = ns"
  by (simp_all add: set_names_def noted_def look_up_def)

lemma set_node_fields [simp]: "look_up (set_node i n s) p = look_up s p" "fs_nodes (set_node i n s) = (fs_nodes s)(i := n)"
  by (simp_all add: set_node_def noted_def look_up_def)

lemma fresh_node_fields [simp]: "look_up (fresh_node p n s) = (look_up s)(p \<mapsto> fs_next s)"
  "fs_nodes (fresh_node p n s) = (fs_nodes s)(fs_next s := n)"
  by (auto simp: fresh_node_def look_up_def set_names_def noted_def update_conv')

lemma io_ok_syscall:
  assumes "\<And>s q. P s \<Longrightarrow> P (s\<lparr>fs_faults := q\<rparr>)" "\<And>n s. P s \<Longrightarrow> E (part n s)" "io_ok P m Q E"
  shows "io_ok P (syscall part m) Q E"
  unfolding io_ok_def syscall_def
proof (intro allI impI)
  fix s assume s: "P s"
  have run: "case m s of (Inr x, s') \<Rightarrow> Q x s' | (Inl e, s') \<Rightarrow> E s'" if "P s" for s
    using assms(3) that by (simp add: io_ok_def)
  from s assms(1,2) run show "case (case fs_faults s of [] \<Rightarrow> m s | None # q \<Rightarrow> m (s\<lparr>fs_faults := q\<rparr>)
      | Some (e, n) # q \<Rightarrow> (Inl e, part n (s\<lparr>fs_faults := q\<rparr>))) of (Inr x, s') \<Rightarrow> Q x s' | (Inl e, s') \<Rightarrow> E s'"
    by (simp split: list.split option.split)
qed

lemma kept_names:
  assumes k: "write_kept C file Y y D x s"
    and same: "\<And>p. p \<in> Y \<or> p \<in> temps file \<Longrightarrow> map_of ns p = look_up s p"
    and from_old: "\<And>p i. map_of ns p = Some i \<Longrightarrow> \<exists>q. look_up s q = Some i \<and> (q \<in> temps file \<longrightarrow> p = q)"
  shows "write_kept C file Y y D x (set_names ns s)"
proof -
  have ok: "write_ok C file s" and D: "D \<subseteq> temps file"
    using k by (simp_all add: write_kept_def)
  have "write_ok C file (set_names ns s)"
  proof (rule write_ok_names [OF ok])
    show "entry_safe C (fs_nodes s) (map_of ns file)"
      using write_ok_now [OF ok] same keptD(3) [OF k] by simp
    show "i < fs_next s" if "map_of ns p = Some i" for p i
      using from_old [OF that] write_okD(5) [OF ok] by blast
    fix t i assume t: "t \<in> temps file" "map_of ns t = Some i"
    then have up: "look_up s t = Some i"
      using same by simp
    show "(\<forall>dir \<in> set (fs_dirs s). map_of dir file \<noteq> Some i) \<and> (\<forall>p. map_of ns p = Some i \<longrightarrow> p = t)"
      using write_okD(6,7) [OF ok t(1) up] from_old t(1) by metis
  qed
  then show ?thesis
    using same D by (intro kept_same [OF k]) (auto simp: content_def node_of_def)
qed

lemma kept_fresh:
  assumes k: "write_kept C file Y y D x s" and p: "p \<noteq> file" "p \<notin> Y" "p \<notin> D" "look_up s p = None"
  shows "write_kept C file Y y D x (fresh_node p n s)"
proof (rule kept_same [OF k])
  have ok: "write_ok C file s"
    using k by (simp add: write_kept_def)
  have "look_up s q \<noteq> Some (fs_next s)" for q
    using write_okD(5) [OF ok] by blast
  then have "node_of (fresh_node p n s) q = node_of s q" "content (fresh_node p n s) q = content s q" if "q \<noteq> p" for q
    using that by (cases "look_up s q"; auto simp: node_of_def content_def)+
  then show "content (fresh_node p n s) q = content s q" if "q \<in> Y" for q
    using that p by metis
  show "node_of (fresh_node p n s) q = node_of s q" if "q \<in> D" for q
    using that p \<open>\<And>q. q \<noteq> p \<Longrightarrow> node_of (fresh_node p n s) q = node_of s q\<close> by metis
  show "write_ok C file (fresh_node p n s)"
    by (rule write_ok_fresh [OF ok p(1,4)])
qed

lemma kept_synced:
  assumes k: "write_kept C file Y y D x s" and p: "beside file p" "look_up s p = Some fd"
  shows "write_kept C file Y y D x (set_node fd ((fs_nodes s fd)\<lparr>in_synced := True\<rparr>) s)" (is "write_kept C file Y y D x ?s")
proof (rule kept_same [OF k])
  have ok: "write_ok C file s" and D: "D \<subseteq> temps file"
    using k by (simp_all add: write_kept_def)
  show "write_ok C file ?s"
    using write_ok_node [OF ok] by blast
  show "content ?s q = content s q" for q
    by (cases "look_up s q") (auto simp: content_def)
  show "node_of ?s t = node_of s t" if "t \<in> D" for t
  proof -
    have "look_up s t \<noteq> Some fd"
      using write_okD(7) [OF ok _ _ p(2)] p(1) that D by (auto simp: beside_def)
    then show ?thesis
      by (cases "look_up s t") (auto simp: node_of_def)
  qed
qed

lemma io_ok_same: "(\<And>s. P s \<Longrightarrow> snd (m s) = s) \<Longrightarrow> io_ok P m (\<lambda>_. P) P"
  by (force simp: io_ok_def split: prod.splits sum.splits)

lemma io_ok_sync_sleep: "io_ok (write_kept C file Y y D x) m Q (write_kept C file Y y D x) \<Longrightarrow> io_ok (write_kept C file Y y D x) (retrySync m tries ms) Q (write_kept C file Y y D x)"
  by (rule io_ok_retry) simp_all

text \<open>The names a rotation uses stand beside the file and its temporary files.\<close>

lemma kept_rename:
  assumes "beside file a" "beside file b" "a \<notin> Y" "b \<notin> Y"
  shows "io_ok (write_kept C file Y y D x) (rename a b) (\<lambda>_. write_kept C file Y y D x) (write_kept C file Y y D x)"
  unfolding rename_def
proof (rule io_ok_syscall)
  show "io_ok (write_kept C file Y y D x)
     (\<lambda>s. case look_up s a of None \<Rightarrow> (Inl ENOENT, s)
        | Some i \<Rightarrow> (Inr (), if look_up s b = Some i then s else set_names (AList.update b i (AList.delete a (fs_names s))) s))
     (\<lambda>_. write_kept C file Y y D x) (write_kept C file Y y D x)"
  proof (rule io_okI)
    fix s assume k: "write_kept C file Y y D x s"
    have "write_kept C file Y y D x (set_names (AList.update b i (AList.delete a (fs_names s))) s)" if "look_up s a = Some i" for i
    proof (rule kept_names [OF k])
      show "map_of (AList.update b i (AList.delete a (fs_names s))) p = look_up s p" if "p \<in> Y \<or> p \<in> temps file" for p
        using that assms by (auto simp: update_conv' delete_conv' look_up_def beside_def)
      show "\<exists>q. look_up s q = Some j \<and> (q \<in> temps file \<longrightarrow> p = q)"
        if "map_of (AList.update b i (AList.delete a (fs_names s))) p = Some j" for p j
        using that assms \<open>look_up s a = Some i\<close>
        by (auto simp: update_conv' delete_conv' look_up_def beside_def split: if_splits)
    qed
    then show "case (case look_up s a of None \<Rightarrow> (Inl ENOENT, s)
        | Some i \<Rightarrow> (Inr (), if look_up s b = Some i then s else set_names (AList.update b i (AList.delete a (fs_names s))) s)) of
          (Inr v, s') \<Rightarrow> write_kept C file Y y D x s' | (Inl e, s') \<Rightarrow> write_kept C file Y y D x s'"
      using k by (simp split: option.split)
  qed
qed simp_all

lemma kept_remove:
  assumes "beside file p" "p \<notin> Y"
  shows "io_ok (write_kept C file Y y D x) (remove_file p) (\<lambda>_ s. write_kept C file Y y D x s \<and> look_up s p = None) (write_kept C file Y y D x)"
  unfolding remove_file_def
proof (rule io_ok_syscall)
  show "io_ok (write_kept C file Y y D x)
     (\<lambda>s. (Inr (), if look_up s p = None then s else set_names (AList.delete p (fs_names s)) s))
     (\<lambda>_ s. write_kept C file Y y D x s \<and> look_up s p = None) (write_kept C file Y y D x)"
  proof (rule io_okI)
    fix s assume k: "write_kept C file Y y D x s"
    have "write_kept C file Y y D x (set_names (AList.delete p (fs_names s)) s)"
      by (rule kept_names [OF k]; use assms in \<open>auto simp: delete_conv' look_up_def beside_def split: if_splits\<close>)
    then show "case (Inr (), if look_up s p = None then s else set_names (AList.delete p (fs_names s)) s) of
        (Inr v, s') \<Rightarrow> write_kept C file Y y D x s' \<and> look_up s' p = None | (Inl e, s') \<Rightarrow> write_kept C file Y y D x s'"
      using k by (simp add: delete_conv')
  qed
qed simp_all

lemma kept_link:
  assumes "beside file g" "g \<notin> Y"
  shows "io_ok (\<lambda>s. write_kept C file Y y D x s \<and> look_up s g = None) (link file g) (\<lambda>_. write_kept C file Y y D x)
     (\<lambda>s. write_kept C file Y y D x s \<and> look_up s g = None)"
  unfolding link_def
proof (rule io_ok_syscall)
  show "io_ok (\<lambda>s. write_kept C file Y y D x s \<and> look_up s g = None)
     (\<lambda>s. case (look_up s file, look_up s g) of
       (None, _) \<Rightarrow> (Inl ENOENT, s)
     | (Some _, Some _) \<Rightarrow> (Inl EEXIST, s)
     | (Some i, None) \<Rightarrow> (Inr (), set_names (AList.update g i (fs_names s)) s))
     (\<lambda>_. write_kept C file Y y D x) (\<lambda>s. write_kept C file Y y D x s \<and> look_up s g = None)"
  proof (rule io_okI, elim conjE)
    fix s assume k: "write_kept C file Y y D x s" and g: "look_up s g = None"
    have "write_kept C file Y y D x (set_names (AList.update g i (fs_names s)) s)" if "look_up s file = Some i" for i
    proof (rule kept_names [OF k])
      show "map_of (AList.update g i (fs_names s)) p = look_up s p" if "p \<in> Y \<or> p \<in> temps file" for p
        using that assms by (auto simp: update_conv' look_up_def beside_def)
      show "\<exists>q. look_up s q = Some j \<and> (q \<in> temps file \<longrightarrow> p = q)" if "map_of (AList.update g i (fs_names s)) p = Some j" for p j
        using that \<open>look_up s file = Some i\<close> temp_names(3) by (auto simp: update_conv' look_up_def split: if_splits)
    qed
    then show "case (case (look_up s file, look_up s g) of (None, _) \<Rightarrow> (Inl ENOENT, s) | (Some _, Some _) \<Rightarrow> (Inl EEXIST, s)
        | (Some i, None) \<Rightarrow> (Inr (), set_names (AList.update g i (fs_names s)) s)) of
          (Inr v, s') \<Rightarrow> write_kept C file Y y D x s' | (Inl e, s') \<Rightarrow> write_kept C file Y y D x s' \<and> look_up s' g = None"
      using k g by (simp split: option.split)
  qed
qed simp_all

lemma kept_copy:
  assumes "beside file g" "g \<notin> Y"
  shows "io_ok (\<lambda>s. write_kept C file Y y D x s \<and> look_up s g = None) (copy_file file g) (\<lambda>_. write_kept C file Y y D x) (write_kept C file Y y D x)"
proof -
  have "write_kept C file Y y D x (put_copy g bs s)" if "write_kept C file Y y D x s" "look_up s g = None" for bs s
    using kept_fresh [OF that(1) _ assms(2) _ that(2)] that assms(1) keptD(2) [OF that(1)] by (auto simp: put_copy_def beside_def)
  then show ?thesis
    unfolding copy_file_def by (intro io_ok_syscall) (auto simp: io_ok_def split: option.split)
qed

lemma kept_sync_copy:
  assumes "beside file g"
  shows "io_ok (write_kept C file Y y D x) (io_bind (open_r g) (\<lambda>fd. io_finally (fsync_fd fd) close_fd)) (\<lambda>_. write_kept C file Y y D x) (write_kept C file Y y D x)"
proof (rule io_ok_bind)
  show "io_ok (write_kept C file Y y D x) (open_r g) (\<lambda>fd s. write_kept C file Y y D x s \<and> look_up s g = Some fd) (write_kept C file Y y D x)"
    unfolding open_r_def by (rule io_ok_syscall) (auto simp: io_ok_def split: option.split)
  have close: "io_ok (write_kept C file Y y D x) close_fd (\<lambda>_. write_kept C file Y y D x) (write_kept C file Y y D x)"
    unfolding close_fd_def by (rule io_ok_syscall) (auto intro: io_ok_ret)
  show "io_ok (\<lambda>s. write_kept C file Y y D x s \<and> look_up s g = Some fd) (io_finally (fsync_fd fd) close_fd) (\<lambda>_. write_kept C file Y y D x) (write_kept C file Y y D x)" for fd
  proof (rule io_ok_finally [OF _ close close])
    show "io_ok (\<lambda>s. write_kept C file Y y D x s \<and> look_up s g = Some fd) (fsync_fd fd) (\<lambda>_. write_kept C file Y y D x) (write_kept C file Y y D x)"
      unfolding fsync_fd_def using kept_synced [OF _ assms] by (intro io_ok_syscall) (auto simp: io_ok_def)
  qed
qed

lemma kept_mtime: "io_ok (write_kept C file Y y D x) (mtimeOf p) (\<lambda>_. write_kept C file Y y D x) (write_kept C file Y y D x)"
  unfolding mtimeOf_def by (rule io_ok_syscall) (auto intro: io_ok_get)

section \<open>A rotation touches neither the file nor its temporary files\<close>

lemma kept_rotate_top: "io_ok (write_kept C file Y y D x) (rotate_top file spacing now ks k) (\<lambda>_. write_kept C file Y y D x) (write_kept C file Y y D x)"
  by (induction ks arbitrary: k) (auto intro!: io_ok_ret io_ok_bind [OF kept_mtime])

lemma kept_move_on:
  assumes "generationPath file (k - 1) \<notin> Y" "generationPath file k \<notin> Y"
  shows "io_ok (write_kept C file Y y D x) (move_on file tries k) (\<lambda>_. write_kept C file Y y D x) (write_kept C file Y y D x)"
proof -
  have "io_ok (write_kept C file Y y D x) (retrySync (rename (generationPath file (k - 1)) (generationPath file k)) tries 50)
      (\<lambda>_. write_kept C file Y y D x) (write_kept C file Y y D x)"
    using assms by (intro io_ok_sync_sleep kept_rename) simp_all
  then show ?thesis
    by (simp add: io_ok_def move_on_def Let_def)
qed

lemma kept_keep_current:
  assumes "generationPath file 1 \<notin> Y"
  shows "io_ok (write_kept C file Y y D x) (keep_current file tries) (\<lambda>_. write_kept C file Y y D x) (write_kept C file Y y D x)"
  unfolding keep_current_def Let_def
proof (rule io_ok_bind)
  show "io_ok (write_kept C file Y y D x) (retrySync (remove_file (generationPath file 1)) tries 50)
      (\<lambda>_ s. write_kept C file Y y D x s \<and> look_up s (generationPath file 1) = None) (write_kept C file Y y D x)"
    using assms by (intro io_ok_sync_sleep kept_remove) simp_all
  show "io_ok (\<lambda>s. write_kept C file Y y D x s \<and> look_up s (generationPath file 1) = None)
      (io_catch (link file (generationPath file 1)) (\<lambda>_. io_then (copy_file file (generationPath file 1))
          (io_bind (open_r (generationPath file 1)) (\<lambda>fd. io_finally (fsync_fd fd) close_fd))))
      (\<lambda>_. write_kept C file Y y D x) (write_kept C file Y y D x)" for u :: unit
    by (rule io_ok_catch [OF kept_link], use assms in simp_all, rule io_ok_bind [OF kept_copy kept_sync_copy]) (use assms in simp_all)
qed

lemma kept_rotate:
  assumes "\<And>k. generationPath file k \<notin> Y"
  shows "io_ok (write_kept C file Y y D x) (rotate file g spacing tries) (\<lambda>_. write_kept C file Y y D x) (write_kept C file Y y D x)"
proof -
  have "io_ok (write_kept C file Y y D x) (io_bind (rotate_top file spacing now ks 1) (\<lambda>k.
      io_then (io_each (move_on file tries) (rev [2..<k + 1])) (keep_current file tries))) (\<lambda>_. write_kept C file Y y D x) (write_kept C file Y y D x)" for now ks
    by (intro io_ok_bind [OF kept_rotate_top] io_ok_bind [OF io_ok_each] kept_move_on kept_keep_current) (use assms in simp_all)
  then show ?thesis
    unfolding rotate_def io_ok_def by simp
qed

section \<open>The temporary file, and the rename that makes it current\<close>

text \<open>A temporary file that is not the file's: emptied, written and brought to the disk, nothing else touched.\<close>

lemma kept_temp_node:
  assumes k: "write_kept C file Y y D x s" and t: "t \<in> temps file" "t \<notin> D" "look_up s t = Some fd"
  shows "write_kept C file Y y D x (set_node fd n s)"
proof (rule kept_same [OF k])
  have ok: "write_ok C file s"
    using k by (simp add: write_kept_def)
  have apart: "look_up s p \<noteq> Some fd" if "p \<noteq> t" for p
    using write_okD(7) [OF ok t(1,3)] that by blast
  show "content (set_node fd n s) p = content s p" if "p \<in> Y" for p
    using apart [of p] keptD(5) [OF k that] t(1) by (cases "look_up s p") (auto simp: content_def)
  show "node_of (set_node fd n s) p = node_of s p" if "p \<in> D" for p
    using apart [of p] that t(2) by (cases "look_up s p") (auto simp: node_of_def)
  show "write_ok C file (set_node fd n s)"
    using write_ok_node [OF ok] write_okD(6) [OF ok t(1,3)] by blast
qed

lemma kept_temp_fresh:
  assumes k: "write_kept C file Y y D x s" and t: "t \<in> temps file" "t \<notin> D" "look_up s t = None"
  shows "write_kept C file Y y D x (fresh_node t n s)"
  using keptD(5) [OF k] t by (intro kept_fresh [OF k]) auto

definition on_disk :: "string \<Rightarrow> string \<Rightarrow> fs \<Rightarrow> bool" where
  "on_disk p bs s = (\<exists>n. node_of s p = Some n \<and> in_data n = bs \<and> in_synced n)"

lemma kept_write_tmp:
  assumes t: "t \<in> temps file" "t \<notin> D"
  shows "io_ok (write_kept C file Y y D x) (write_tmp t bs) (\<lambda>_ s. write_kept C file Y y D x s \<and> on_disk t bs s) (write_kept C file Y y D x)"
  unfolding write_tmp_def
proof (rule io_ok_bind)
  let ?K = "write_kept C file Y y D x"
  show "io_ok ?K (open_w t) (\<lambda>fd s. ?K s \<and> look_up s t = Some fd) ?K"
    unfolding open_w_def
    using kept_temp_node [OF _ t] kept_temp_fresh [OF _ t]
    by (intro io_ok_syscall) (auto simp: io_ok_def split: option.split)
  fix fd
  have wr: "io_ok (\<lambda>s. ?K s \<and> look_up s t = Some fd) (write_fd fd bs)
      (\<lambda>_ s. ?K s \<and> look_up s t = Some fd \<and> in_data (fs_nodes s fd) = bs) ?K"
    unfolding write_fd_def using kept_temp_node [OF _ t]
    by (intro io_ok_syscall) (auto simp: io_ok_def unsynced_def)
  have sy: "io_ok (\<lambda>s. ?K s \<and> look_up s t = Some fd \<and> in_data (fs_nodes s fd) = bs) (fsync_fd fd) (\<lambda>_ s. ?K s \<and> on_disk t bs s) ?K"
    unfolding fsync_fd_def using kept_temp_node [OF _ t]
    by (intro io_ok_syscall) (auto simp: io_ok_def on_disk_def node_of_def)
  have cl: "io_ok (\<lambda>s. ?K s \<and> on_disk t bs s) close_fd (\<lambda>_ s. ?K s \<and> on_disk t bs s) ?K" "io_ok ?K close_fd (\<lambda>_. ?K) ?K"
    unfolding close_fd_def by (rule io_ok_syscall; auto simp: on_disk_def node_of_def intro!: io_ok_ret)+
  show "io_ok (\<lambda>s. ?K s \<and> look_up s t = Some fd) (io_finally (io_then (write_fd fd bs) (fsync_fd fd)) close_fd)
      (\<lambda>_ s. ?K s \<and> on_disk t bs s) ?K"
    by (rule io_ok_finally [OF io_ok_bind [OF wr sy] cl])
qed

text \<open>The rename: the file is the temporary one's bytes, whole and on the disk.\<close>

lemma kept_rename_tmp:
  assumes t: "t \<in> temps file" "t \<notin> D" and n: "Some bs \<in> C"
  shows "io_ok (\<lambda>s. write_kept C file Y y D x s \<and> on_disk t bs s) (rename t file)
     (\<lambda>_ s. write_kept C file Y (y(file := Some bs)) D x s \<and> look_up s t = None \<and> on_disk file bs s) (\<lambda>s. write_kept C file Y y D x s \<and> on_disk t bs s)"
  unfolding rename_def
proof (rule io_ok_syscall)
  let ?ren = "\<lambda>s i. set_names (AList.update file i (AList.delete t (fs_names s))) s"
  show "io_ok (\<lambda>s. write_kept C file Y y D x s \<and> on_disk t bs s)
     (\<lambda>s. case look_up s t of None \<Rightarrow> (Inl ENOENT, s)
        | Some i \<Rightarrow> (Inr (), if look_up s file = Some i then s else ?ren s i))
     (\<lambda>_ s. write_kept C file Y (y(file := Some bs)) D x s \<and> look_up s t = None \<and> on_disk file bs s) (\<lambda>s. write_kept C file Y y D x s \<and> on_disk t bs s)"
  proof (rule io_okI, elim conjE)
    fix s assume k: "write_kept C file Y y D x s" and "on_disk t bs s"
    then obtain i where i: "look_up s t = Some i" "in_data (fs_nodes s i) = bs" "in_synced (fs_nodes s i)"
      by (auto simp: on_disk_def node_of_def)
    have ok: "write_ok C file s" and D: "D \<subseteq> temps file" and Y: "file \<in> Y" "Y \<inter> temps file = {}"
      using k by (simp_all add: write_kept_def)
    have tf: "t \<noteq> file"
      using t(1) by auto
    have ne: "look_up s file \<noteq> Some i"
      using write_okD(7) [OF ok t(1) i(1)] tf by blast
    have up: "map_of (AList.update file i (AList.delete t (fs_names s))) p =
        (if p = file then Some i else if p = t then None else look_up s p)" for p
      using tf by (simp add: update_conv' delete_conv' look_up_def)
    have "write_ok C file (?ren s i)"
    proof (rule write_ok_names [OF ok])
      show "entry_safe C (fs_nodes s) (map_of (AList.update file i (AList.delete t (fs_names s))) file)"
        using i n by (simp add: up entry_safe_def)
      show "j < fs_next s" if "map_of (AList.update file i (AList.delete t (fs_names s))) p = Some j" for p j
        using that write_okD(5) [OF ok] i(1) by (auto simp: up split: if_splits)
      fix t' j assume t': "t' \<in> temps file" "map_of (AList.update file i (AList.delete t (fs_names s))) t' = Some j"
      then have j: "look_up s t' = Some j" "t' \<noteq> t"
        by (auto simp: up split: if_splits)
      then have "j \<noteq> i"
        using write_okD(7) [OF ok t(1) i(1)] by blast
      then show "(\<forall>dir \<in> set (fs_dirs s). map_of dir file \<noteq> Some j)
          \<and> (\<forall>p. map_of (AList.update file i (AList.delete t (fs_names s))) p = Some j \<longrightarrow> p = t')"
        using write_okD(6,7) [OF ok t'(1) j(1)] by (auto simp: up split: if_splits)
    qed
    moreover have "node_of (?ren s i) t' = x t'" if "t' \<in> D" for t'
      using k that t(2) D temp_names(3) by (auto simp: node_of_def up write_kept_def)
    moreover have "content (?ren s i) p = (y(file := Some bs)) p" if "p \<in> Y" for p
      using k that t(1) Y i(2) by (auto simp: content_def up write_kept_def)
    ultimately show "case (case look_up s t of None \<Rightarrow> (Inl ENOENT, s)
          | Some i \<Rightarrow> (Inr (), if look_up s file = Some i then s else ?ren s i)) of
        (Inr v, s') \<Rightarrow> write_kept C file Y (y(file := Some bs)) D x s' \<and> look_up s' t = None \<and> on_disk file bs s'
      | (Inl e, s') \<Rightarrow> write_kept C file Y y D x s' \<and> on_disk t bs s'"
      using i D Y tf ne by (simp add: write_kept_def up on_disk_def node_of_def)
  qed
qed (simp_all add: on_disk_def node_of_def)

section \<open>The whole write\<close>

lemma kept_rotate_on_disk:
  assumes "t \<in> temps file" "t \<notin> D" "\<And>k. generationPath file k \<notin> Y"
  shows "io_ok (\<lambda>s. write_kept C file Y y D x s \<and> on_disk t bs s) (rotate file g spacing tries)
     (\<lambda>_ s. write_kept C file Y y D x s \<and> on_disk t bs s) (\<lambda>s. write_kept C file Y y D x s \<and> on_disk t bs s)"
proof (rule io_okI, elim conjE)
  fix s assume k: "write_kept C file Y y D x s" and "on_disk t bs s"
  then obtain n where n: "node_of s t = Some n" "in_data n = bs" "in_synced n"
    by (auto simp: on_disk_def)
  have "write_kept C file Y y (insert t D) (x(t := Some n)) s"
    using k n assms by (auto simp: write_kept_def)
  then have "case rotate file g spacing tries s of (Inr v, s') \<Rightarrow> write_kept C file Y y (insert t D) (x(t := Some n)) s'
      | (Inl e, s') \<Rightarrow> write_kept C file Y y (insert t D) (x(t := Some n)) s'"
    using kept_rotate [OF assms(3)] by (simp add: io_ok_def)
  moreover have "write_kept C file Y y D x s' \<and> on_disk t bs s'" if "write_kept C file Y y (insert t D) (x(t := Some n)) s'" for s'
    using that n assms by (auto simp: write_kept_def on_disk_def split: if_splits)
  ultimately show "case rotate file g spacing tries s of (Inr v, s') \<Rightarrow> write_kept C file Y y D x s' \<and> on_disk t bs s'
      | (Inl e, s') \<Rightarrow> write_kept C file Y y D x s' \<and> on_disk t bs s'"
    by (auto split: prod.splits sum.splits)
qed

lemma on_disk_simps [simp]: "on_disk p bs (s\<lparr>fs_faults := q\<rparr>) \<longleftrightarrow> on_disk p bs s" "on_disk p bs (sleepSync ms s) \<longleftrightarrow> on_disk p bs s"
  by (simp_all add: on_disk_def node_of_def look_up_def sleepSync_def)

lemma kept_commit:
  assumes "t \<in> temps file" "t \<notin> D" "Some bs \<in> C" "\<And>k. generationPath file k \<notin> Y"
  shows "io_ok (\<lambda>s. write_kept C file Y y D x s \<and> on_disk t bs s) (commit file t d tries)
     (\<lambda>_ s. write_kept C file Y (y(file := Some bs)) D x s \<and> look_up s t = None \<and> on_disk file bs s) (\<lambda>s. write_kept C file Y y D x s \<and> on_disk t bs s)"
  unfolding commit_def
proof (rule io_ok_bind)
  let ?P = "\<lambda>s. write_kept C file Y y D x s \<and> on_disk t bs s"
  show "io_ok ?P (io_catch (rotate file (generations_of d) (spacing_of d) tries) (\<lambda>_. io_ret ())) (\<lambda>_. ?P) ?P"
    by (rule io_ok_catch [OF kept_rotate_on_disk [OF assms(1,2,4)]]) (auto intro: io_ok_ret)
  show "io_ok ?P (retrySync (rename t file) tries 50)
      (\<lambda>_ s. write_kept C file Y (y(file := Some bs)) D x s \<and> look_up s t = None \<and> on_disk file bs s) ?P" for u :: unit
    by (rule io_ok_retry [OF kept_rename_tmp [OF assms(1-3)]]) simp
qed

lemma write_ok_sync_dir:
  assumes ok: "write_ok C file s"
  shows "write_ok C file (noted (s\<lparr>fs_dirs := [fs_names s]\<rparr>))"
proof -
  have dk: "disk_ok C file ([fs_names s], fs_nodes s)"
    using write_okD(1,3,8) [OF ok] by (simp add: disk_ok_def disk_safe_def disk_now_def)
  then show ?thesis
    using ok by (auto simp: write_ok_def files_apart_def noted_def disk_now_def look_up_def disk_ok_def)
qed

lemma kept_fsyncDir:
  fixes bs :: string
  defines "P \<equiv> \<lambda>C file Y y D x bs s. write_kept C file Y y D x s \<and> on_disk file bs s"
  shows "io_ok (P C file Y y D x bs) fsyncDir (\<lambda>_. P C file Y y D x bs) (P C file Y y D x bs)"
proof -
  let ?P = "P C file Y y D x bs"
  have calls: "io_ok ?P open_dir (\<lambda>_. ?P) ?P" "io_ok ?P close_fd (\<lambda>_. ?P) ?P"
    unfolding open_dir_def close_fd_def P_def by (rule io_ok_syscall; auto intro: io_ok_ret)+
  have synced: "?P (noted (s\<lparr>fs_dirs := [fs_names s]\<rparr>))" if "?P s" for s
    using that write_ok_sync_dir [of C "file" s]
    by (auto simp: P_def write_kept_def on_disk_def content_def node_of_def noted_def look_up_def)
  have "io_ok ?P (\<lambda>s. (Inr (), noted (s\<lparr>fs_dirs := [fs_names s]\<rparr>))) (\<lambda>_. ?P) ?P"
    using synced by (simp add: io_ok_def)
  then have sync: "io_ok ?P sync_dir (\<lambda>_. ?P) ?P"
    unfolding sync_dir_def by (intro io_ok_syscall) (simp_all add: P_def)
  have "io_ok ?P (io_catch sync_dir (\<lambda>_. io_ret ())) (\<lambda>_. ?P) ?P"
    by (rule io_ok_catch [OF sync]) (rule io_ok_ret)
  then have fin: "io_ok ?P (io_finally (io_catch sync_dir (\<lambda>_. io_ret ())) close_fd) (\<lambda>_. ?P) ?P"
    by (rule io_ok_finally [OF _ calls(2) calls(2)])
  show ?thesis
  proof (rule io_okI)
    fix s assume s: "?P s"
    then have o: "case open_dir s of (Inr v, s') \<Rightarrow> ?P s' | (Inl e, s') \<Rightarrow> ?P s'"
      using calls(1) by (simp add: io_ok_def)
    show "case fsyncDir s of (Inr v, s') \<Rightarrow> ?P s' | (Inl e, s') \<Rightarrow> ?P s'"
    proof (cases "open_dir s")
      case (Pair r s')
      then show ?thesis
        using s o fin by (cases r) (simp_all add: fsyncDir_def io_ok_def)
    qed
  qed
qed

text \<open>A write: the new bytes, whole; thrown, the old ones or the new ones.\<close>

lemma kept_write:
  assumes D: "tmpPath file \<notin> D" and n: "Some bs \<in> C" and Y: "\<And>k. generationPath file k \<notin> Y"
  shows "io_ok (write_kept C file Y y D x) (writeFileDurable file bs d)
     (\<lambda>_ s. write_kept C file Y (y(file := Some bs)) D x s \<and> on_disk file bs s)
     (\<lambda>s. write_kept C file Y y D x s \<or> write_kept C file Y (y(file := Some bs)) D x s)"
  unfolding writeFileDurable_def
proof (rule io_ok_bind)
  show "io_ok (write_kept C file Y y D x) (write_tmp (tmpPath file) bs) (\<lambda>_ s. write_kept C file Y y D x s \<and> on_disk (tmpPath file) bs s)
      (\<lambda>s. write_kept C file Y y D x s \<or> write_kept C file Y (y(file := Some bs)) D x s)"
    by (rule io_ok_post [OF kept_write_tmp]) (use D in auto)
  show "io_ok (\<lambda>s. write_kept C file Y y D x s \<and> on_disk (tmpPath file) bs s) (io_then (commit file (tmpPath file) d 5) fsyncDir)
      (\<lambda>_ s. write_kept C file Y (y(file := Some bs)) D x s \<and> on_disk file bs s) (\<lambda>s. write_kept C file Y y D x s \<or> write_kept C file Y (y(file := Some bs)) D x s)" for u :: unit
  proof (rule io_ok_bind)
    show "io_ok (\<lambda>s. write_kept C file Y y D x s \<and> on_disk (tmpPath file) bs s) (commit file (tmpPath file) d 5)
        (\<lambda>_ s. write_kept C file Y (y(file := Some bs)) D x s \<and> on_disk file bs s) (\<lambda>s. write_kept C file Y y D x s \<or> write_kept C file Y (y(file := Some bs)) D x s)"
      by (rule io_ok_post [OF kept_commit]) (use D n Y in auto)
    show "io_ok (\<lambda>s. write_kept C file Y (y(file := Some bs)) D x s \<and> on_disk file bs s) fsyncDir
        (\<lambda>_ s. write_kept C file Y (y(file := Some bs)) D x s \<and> on_disk file bs s) (\<lambda>s. write_kept C file Y y D x s \<or> write_kept C file Y (y(file := Some bs)) D x s)" for u :: unit
      by (rule io_ok_post [OF kept_fsyncDir [unfolded atomize_eq]]) auto
  qed
qed

end
