(* ===== verification/DurableProps.thy ===== *)
theory DurableProps
  imports DurableLaws
begin

text \<open>
  What the crash-safe files promise: a crash at any moment of a write leaves the old or the new content, whatever
  calls were refused; a completed write stays; over any history of writes, crashes and restarts the file is one of
  the texts written; the older versions move on only when they are old enough; a write waits a bounded time.
\<close>

section \<open>A crash at any moment\<close>

text \<open>The states of the disk a run passes, the first included: a crash may come at each.\<close>

definition run :: "'a io \<Rightarrow> fs \<Rightarrow> (errno + 'a) \<times> fs" where
  "run m s = m (s\<lparr>fs_past := []\<rparr>)"

definition moments :: "'a io \<Rightarrow> fs \<Rightarrow> disk list" where
  "moments m s = disk_now s # fs_past (snd (run m s))"

lemma kept_start:
  assumes "files_apart file s" "disk_safe C file (disk_now s)" "file \<in> Y" "Y \<inter> temps file = {}" "D \<subseteq> temps file"
  shows "write_kept C file Y (content s) D (node_of s) (s\<lparr>fs_past := []\<rparr>)"
  using assms by (simp add: write_kept_def write_ok_def files_apart_def disk_now_def look_up_def content_def node_of_def)

lemma write_ends:
  assumes ok: "files_apart file s" and safe: "disk_safe C file (disk_now s)"
  obtains y where "write_kept (insert (Some bs) C) file {file} y {} (node_of s) (snd (run (writeFileDurable file bs d) s))"
    "fst (run (writeFileDurable file bs d) s) = Inr () \<Longrightarrow> on_disk file bs (snd (run (writeFileDurable file bs d) s))"
    "y file = content s file \<or> y file = Some bs" "fst (run (writeFileDurable file bs d) s) = Inr () \<Longrightarrow> y file = Some bs"
proof -
  let ?C = "insert (Some bs) C"
  have "disk_safe ?C file (disk_now s)"
    using disk_safe_mono [OF safe] by blast
  then have "write_kept ?C file {file} (content s) {} (node_of s) (s\<lparr>fs_past := []\<rparr>)"
    using kept_start [OF ok] by simp
  then have run: "case run (writeFileDurable file bs d) s of
      (Inr v, s') \<Rightarrow> write_kept ?C file {file} ((content s)(file := Some bs)) {} (node_of s) s' \<and> on_disk file bs s'
    | (Inl e, s') \<Rightarrow> write_kept ?C file {file} (content s) {} (node_of s) s' \<or> write_kept ?C file {file} ((content s)(file := Some bs)) {} (node_of s) s'"
    using kept_write [of "file" "{}" bs ?C "{file}" "content s" "node_of s" d] by (simp add: io_ok_def run_def generationPath_def)
  show thesis
  proof (cases "run (writeFileDurable file bs d) s")
    case (Pair r s')
    then show thesis
      using run that [of "content s"] that [of "(content s)(file := Some bs)"] by (cases r) auto
  qed
qed

text \<open>
  C29. A crash at any moment of a write, whichever calls were refused on the way, leaves the new content whole or what a crash
  could have left before it: never a torn or zeroed file.
\<close>

theorem write_crash_safe:
  assumes "files_apart file s" and before: "\<And>view. crash_leaves (disk_now s) view \<Longrightarrow> view file \<in> C"
    and "d \<in> set (moments (writeFileDurable file bs opt) s)" "crash_leaves d view"
  shows "view file \<in> C \<or> view file = Some bs"
proof -
  have safe: "disk_safe C file (disk_now s)"
    using before by (simp add: disk_safe_iff)
  obtain y where "write_kept (insert (Some bs) C) file {file} y {} (node_of s) (snd (run (writeFileDurable file bs opt) s))"
    by (rule write_ends [OF assms(1) safe])
  then have "disk_safe (insert (Some bs) C) file d" if "d \<noteq> disk_now s"
    using assms(3) that write_okD(2) by (fastforce simp: moments_def write_kept_def disk_ok_def)
  then have "disk_safe (insert (Some bs) C) file d"
    using disk_safe_mono [OF safe] by blast
  then show ?thesis
    using assms(4) by (auto simp: disk_safe_iff)
qed

definition ex_fs :: fs where
  "ex_fs = \<lparr>fs_names = [(''s'', 0)], fs_nodes = (\<lambda>_. \<lparr>in_data = ''old'', in_synced = True, in_mtime = 0\<rparr>), fs_next = 1,
     fs_faults = [], fs_now = 100000, fs_windows = False, fs_dirs = [[(''s'', 0)]], fs_past = [], fs_recoveries = []\<rparr>"

definition ex_opts :: durable_options where
  "ex_opts = \<lparr>do_generations = None, do_spacingMs = None\<rparr>"

lemma ex_fs_apart: "files_apart ''s'' ex_fs" "crash_leaves (disk_now ex_fs) view \<Longrightarrow> view ''s'' = Some ''old''"
proof -
  show "files_apart ''s'' ex_fs"
    by (auto simp: files_apart_def apart_in_def ex_fs_def look_up_def temps_def tmpPath_def asyncTmpPath_def)
  show "view ''s'' = Some ''old''" if "crash_leaves (disk_now ex_fs) view"
    using that by (auto simp: crash_leaves_def ex_fs_def disk_now_def dest: spec [of _ "''s''"])
qed

lemma write_crash_safe_witness:
  "(\<Union>d \<in> set (moments (writeFileDurable ''s'' ''new'' ex_opts) ex_fs). {view ''s'' |view. crash_leaves d view}) \<subseteq> {Some ''old'', Some ''new''}"
  using write_crash_safe [OF ex_fs_apart(1), of "{Some ''old''}"] ex_fs_apart(2) by blast

section \<open>A completed write stays\<close>

lemma quiet_syscall [simp]: "fs_faults s = [] \<Longrightarrow> syscall part m s = m s"
  by (simp add: syscall_def)

lemma calls_keep [simp]:
  "fs_faults (noted s) = fs_faults s" "fs_faults (set_names ns s) = fs_faults s" "fs_faults (set_node i n s) = fs_faults s"
  "fs_faults (fresh_node p n s) = fs_faults s" "fs_faults (sleepSync ms s) = fs_faults s"
  "fs_windows (noted s) = fs_windows s" "fs_windows (set_names ns s) = fs_windows s" "fs_windows (set_node i n s) = fs_windows s"
  "fs_windows (fresh_node p n s) = fs_windows s" "fs_windows (sleepSync ms s) = fs_windows s"
  by (simp_all add: noted_def set_names_def set_node_def fresh_node_def sleepSync_def)

text \<open>No call is refused from here on, on a host of its kind.\<close>

definition calm :: "bool \<Rightarrow> fs \<Rightarrow> bool" where
  "calm w s \<longleftrightarrow> fs_faults s = [] \<and> fs_windows s = w"

interpretation calm: call_invariant "calm w" for w
  by unfold_locales (auto simp: io_ok_def calm_def rename_def remove_file_def link_def copy_file_def put_copy_def mtimeOf_def open_r_def
      fsync_fd_def close_fd_def io_ret_def io_get_def split: option.splits)

lemma calm_write_tmp: "calm w s \<Longrightarrow> \<exists>s'. write_tmp t bs s = (Inr (), s') \<and> calm w s'"
  by (simp add: calm_def write_tmp_def io_bind_def io_finally_def open_w_def write_fd_def fsync_fd_def close_fd_def io_ret_def split: option.split)

lemma calm_rename_tmp:
  assumes "calm w s" "look_up s t \<noteq> None"
  shows "\<exists>s'. retrySync (rename t file) tries ms s = (Inr (), s') \<and> calm w s'"
  using assms by (auto simp: calm_def retrySync_def retry_from.simps rename_def)

lemma calm_fsyncDir: "calm w s \<Longrightarrow> \<exists>s'. fsyncDir s = (Inr (), s') \<and> (\<not> w \<longrightarrow> fs_dirs s' = [fs_names s'])"
  by (auto simp: calm_def fsyncDir_def open_dir_def sync_dir_def close_fd_def io_catch_def io_finally_def io_ret_def noted_def)

lemma calm_commit:
  assumes "calm w s" "write_kept C file {file} y D x s" "on_disk t bs s" "t \<in> temps file" "t \<notin> D"
  shows "\<exists>s'. commit file t opt tries s = (Inr (), s') \<and> calm w s'"
proof -
  let ?m = "io_catch (rotate file (generations_of opt) (spacing_of opt) tries) (\<lambda>_. io_ret ())"
  have "stays (\<lambda>s. write_kept C file {file} y D x s \<and> on_disk t bs s) ?m"
    using kept_rotate_on_disk [OF assms(4,5)] by (intro stays_rules) (simp_all add: generationPath_def)
  from stays_run [OF this, of s] have "on_disk t bs (snd (?m s))"
    using assms(2,3) by simp
  moreover have "stays (calm w) ?m"
    by (rule stays_catch [OF calm.rotate stays_ret])
  from stays_run [OF this, of s] have "calm w (snd (?m s))"
    using assms(1) by simp
  moreover have "fst (?m s) = Inr ()"
    by (auto simp: io_catch_def io_ret_def split: prod.split sum.split)
  ultimately obtain s1 where s1: "?m s = (Inr (), s1)" "calm w s1" "on_disk t bs s1"
    by (cases "?m s") auto
  then have "look_up s1 t \<noteq> None"
    by (auto simp: on_disk_def node_of_def)
  then show ?thesis
    using calm_rename_tmp [OF s1(2)] s1(1) by (simp add: commit_def io_bind_def)
qed

lemma calm_write:
  assumes calm: "calm w s" and k: "write_kept C file {file} y {} x s"
  shows "\<exists>s'. writeFileDurable file bs opt s = (Inr (), s') \<and> (\<not> w \<longrightarrow> fs_dirs s' = [fs_names s'])"
proof -
  obtain s1 where s1: "write_tmp (tmpPath file) bs s = (Inr (), s1)" "calm w s1"
    using calm_write_tmp [OF calm] by blast
  have k1: "write_kept C file {file} y {} x s1" "on_disk (tmpPath file) bs s1"
    using io_ok_run(1) [OF kept_write_tmp k s1(1)] by simp_all
  obtain s2 where "commit file (tmpPath file) opt 5 s1 = (Inr (), s2)" "calm w s2"
    using calm_commit [OF s1(2) k1, of opt 5] by auto
  then show ?thesis
    using s1(1) calm_fsyncDir [of w s2] by (auto simp: writeFileDurable_def io_bind_def)
qed

text \<open>
  Where the directory can be brought to the disk (not Windows) and no call is refused, a write returns, the file then
  holds the new content, and whatever crash comes later, before the next write, leaves it.
\<close>

theorem completed_write_stays:
  assumes "files_apart file s" "fs_faults s = []" "\<not> fs_windows s"
  shows "\<exists>s'. run (writeFileDurable file bs opt) s = (Inr (), s') \<and> content s' file = Some bs
    \<and> (\<forall>view. crash_leaves (disk_now s') view \<longrightarrow> view file = Some bs)"
proof -
  have safe: "disk_safe UNIV file (disk_now s)"
    by (simp add: disk_safe_iff)
  obtain y where y: "write_kept (insert (Some bs) UNIV) file {file} y {} (node_of s) (snd (run (writeFileDurable file bs opt) s))"
    "fst (run (writeFileDurable file bs opt) s) = Inr () \<Longrightarrow> on_disk file bs (snd (run (writeFileDurable file bs opt) s))"
    by (rule write_ends [OF assms(1) safe]) blast
  have "calm False (s\<lparr>fs_past := []\<rparr>)"
    using assms(2,3) by (simp add: calm_def)
  moreover have "write_kept UNIV file {file} (content s) {} (node_of s) (s\<lparr>fs_past := []\<rparr>)"
    using assms(1) safe by (intro kept_start) simp_all
  ultimately obtain s' where s': "run (writeFileDurable file bs opt) s = (Inr (), s')" "fs_dirs s' = [fs_names s']"
    using calm_write unfolding run_def by blast
  then have "on_disk file bs s'"
    using y(2) by simp
  then obtain i where i: "look_up s' file = Some i" "in_data (fs_nodes s' i) = bs" "in_synced (fs_nodes s' i)"
    by (auto simp: on_disk_def node_of_def)
  then have "disk_safe {Some bs} file (disk_now s')"
    using s'(2) by (simp add: disk_safe_def disk_now_def entry_safe_def look_up_def)
  then show ?thesis
    using s'(1) i by (simp add: disk_safe_iff content_def)
qed

lemma completed_write_stays_witness:
  "\<exists>s'. run (writeFileDurable ''s'' ''new'' ex_opts) ex_fs = (Inr (), s') \<and> content s' ''s'' = Some ''new''"
  using completed_write_stays [OF ex_fs_apart(1), of "''new''" ex_opts] by (auto simp: ex_fs_def)

section \<open>Writes, crashes and restarts\<close>

text \<open>
  A restart finds one of the directory states the crash may leave; of each file the bytes that had reached the disk,
  anything where they had not.
\<close>

definition restarts :: "disk \<Rightarrow> fs \<Rightarrow> bool" where
  "restarts d s \<longleftrightarrow>
     fs_names s \<in> set (fst d) \<and> fs_dirs s = [fs_names s] \<and> (\<forall>p i. look_up s p = Some i \<longrightarrow> i < fs_next s)
     \<and> (\<forall>i. in_synced (fs_nodes s i) \<and> (in_synced (snd d i) \<longrightarrow> in_data (fs_nodes s i) = in_data (snd d i)))"

text \<open>The texts written so far; the calls refused and the clock of each write are as they come.\<close>

inductive history :: "string \<Rightarrow> fs \<Rightarrow> string set \<Rightarrow> bool" for f where
  first_start: "fs_dirs s = [fs_names s] \<Longrightarrow> fs_names s = [] \<Longrightarrow> history f s {}"
| wrote: "history f s W \<Longrightarrow> history f (snd (run (writeFileDurable f bs opt) (s\<lparr>fs_faults := q, fs_now := t\<rparr>))) (insert bs W)"
| crashed: "history f s W \<Longrightarrow> d \<in> set (moments (writeFileDurable f bs opt) (s\<lparr>fs_faults := q, fs_now := t\<rparr>)) \<Longrightarrow> restarts d s'
    \<Longrightarrow> history f s' (insert bs W)"

definition texts :: "string set \<Rightarrow> string option set" where
  "texts W = insert None (Some ` W)"

lemma restart_ok:
  assumes "disk_ok C file d" "restarts d s"
  shows "files_apart file s \<and> disk_safe C file (disk_now s)"
proof -
  have "entry_safe C (snd d) (look_up s file)" "apart_in file (fs_names s)"
    using assms by (auto simp: disk_ok_def disk_safe_def restarts_def look_up_def)
  then have "entry_safe C (fs_nodes s) (look_up s file)"
    using assms(2) by (auto simp: entry_safe_def restarts_def split: option.splits if_splits)
  moreover have "map_of (fs_names s) file \<noteq> Some i" if "t \<in> temps file" "map_of (fs_names s) t = Some i" for t i
    using \<open>apart_in file (fs_names s)\<close> that temp_names(3) [of "file"] unfolding apart_in_def by metis
  then have "files_apart file s"
    using assms(2) \<open>apart_in file (fs_names s)\<close> by (auto simp: files_apart_def restarts_def look_up_def)
  ultimately show ?thesis
    using assms(2) by (simp add: restarts_def disk_safe_def disk_now_def look_up_def)
qed

lemma moments_ok:
  assumes "files_apart file s" "disk_safe C file (disk_now s)" "d \<in> set (moments (writeFileDurable file bs opt) s)"
  shows "disk_ok (insert (Some bs) C) file d"
proof -
  obtain y where "write_kept (insert (Some bs) C) file {file} y {} (node_of s) (snd (run (writeFileDurable file bs opt) s))"
    by (rule write_ends [OF assms(1,2)])
  moreover have "disk_ok (insert (Some bs) C) file (disk_now s)"
    using disk_safe_mono [OF assms(2)] assms(1) by (auto simp: disk_ok_def files_apart_def disk_now_def)
  ultimately show ?thesis
    using assms(3) by (auto simp: moments_def write_kept_def write_ok_def)
qed

lemma texts_insert: "insert (Some bs) (texts W) = texts (insert bs W)"
  by (auto simp: texts_def)

lemma history_ok: "history file s W \<Longrightarrow> files_apart file s \<and> disk_safe (texts W) file (disk_now s)"
proof (induction rule: history.induct)
  case (first_start s)
  then show ?case
    by (auto simp: files_apart_def apart_in_def look_up_def disk_safe_def disk_now_def entry_safe_def texts_def)
next
  case (wrote s W bs opt t q)
  let ?s = "s\<lparr>fs_faults := q, fs_now := t\<rparr>"
  have ok: "files_apart file ?s" "disk_safe (texts W) file (disk_now ?s)"
    using wrote.IH by (simp_all add: files_apart_def look_up_def disk_now_def)
  obtain y where "write_kept (insert (Some bs) (texts W)) file {file} y {} (node_of ?s) (snd (run (writeFileDurable file bs opt) ?s))"
    by (rule write_ends [OF ok])
  then show ?case
    by (simp add: write_kept_def write_ok_def texts_insert)
next
  case (crashed s W d bs opt t q s')
  let ?s = "s\<lparr>fs_faults := q, fs_now := t\<rparr>"
  have ok: "files_apart file ?s" "disk_safe (texts W) file (disk_now ?s)"
    using crashed.IH by (simp_all add: files_apart_def look_up_def disk_now_def)
  show ?case
    using restart_ok [OF moments_ok [OF ok crashed.hyps(2)] crashed.hyps(3)] by (simp add: texts_insert)
qed

text \<open>
  Over any history of writes, refused calls, crashes and restarts the file is missing (no write has made it yet) or holds one
  of the texts written, whole.
\<close>

theorem whole_texts_only:
  assumes "history file s W"
  shows "content s file = None \<or> (\<exists>bs \<in> W. content s file = Some bs)"
proof -
  have "write_ok (texts W) file (s\<lparr>fs_past := []\<rparr>)"
    using history_ok [OF assms] by (simp add: write_ok_def files_apart_def disk_now_def look_up_def)
  then have "entry_safe (texts W) (fs_nodes s) (look_up s file)"
    using write_ok_now [of "texts W" "file" "s\<lparr>fs_past := []\<rparr>"] by (simp add: look_up_def)
  then show ?thesis
    by (auto simp: content_def texts_def entry_safe_def split: option.splits if_splits)
qed

definition ex_empty :: fs where
  "ex_empty = \<lparr>fs_names = [], fs_nodes = (\<lambda>_. \<lparr>in_data = [], in_synced = True, in_mtime = 0\<rparr>), fs_next = 0,
     fs_faults = [], fs_now = 0, fs_windows = False, fs_dirs = [[]], fs_past = [], fs_recoveries = []\<rparr>"

lemma whole_texts_only_witness:
  "\<exists>s. history ''s'' s {''a'', ''b''} \<and> content s ''s'' \<in> {None, Some ''a'', Some ''b''}"
proof -
  let ?s = "snd (run (writeFileDurable ''s'' ''a'' ex_opts) (ex_empty\<lparr>fs_faults := [], fs_now := 1\<rparr>))"
  have "history ''s'' ex_empty {}"
    by (rule first_start) (simp_all add: ex_empty_def)
  then have "history ''s'' ?s {''a''}"
    by (rule wrote)
  then have h: "history ''s'' (snd (run (writeFileDurable ''s'' ''b'' ex_opts) (?s\<lparr>fs_faults := [None, Some (EBUSY, 0)], fs_now := 2\<rparr>))) {''b'', ''a''}"
    by (rule wrote)
  show ?thesis
    using h whole_texts_only [OF h] by (auto simp: insert_commute intro!: exI)
qed

end
