(* ===== verification/DurableVersions.thy ===== *)
theory DurableVersions
  imports DurableProps
begin

text \<open>
  The older versions of a crash-safe file: which slots a rotation leaves alone, where it moves the others, and how
  long a write may keep the main thread waiting.
\<close>

section \<open>Young versions stay\<close>

definition young :: "string \<Rightarrow> int \<Rightarrow> nat \<Rightarrow> fs \<Rightarrow> bool" where
  "young file spacing k s =
     (case node_of s (generationPath file k) of Some n \<Rightarrow> fs_now s - in_mtime n < spacing * 10 ^ (k - 2) | None \<Rightarrow> False)"

lemma mtimeOf_same: "mtimeOf p s = (r, s') \<Longrightarrow>
    (\<exists>q. s' = s\<lparr>fs_faults := q\<rparr>) \<and> (\<forall>t. r = Inr t \<longrightarrow> t = map_option in_mtime (node_of s p))"
  by (cases "fs_faults s") (auto simp: mtimeOf_def syscall_def io_get_def node_of_def look_up_def option.map_comp comp_def
      split: option.splits intro: exI [where x = "fs_faults s"])

lemma node_of_faults [simp]: "node_of (s\<lparr>fs_faults := q\<rparr>) p = node_of s p"
  by (simp add: node_of_def look_up_def)

lemma takeWhile_upt:
  assumes "t \<in> set (takeWhile P [a..<b])" "a \<le> k" "k \<le> t"
  shows "P k"
proof -
  define m where "m = length (takeWhile P [a..<b])"
  have tw: "takeWhile P [a..<b] = take m [a..<b]"
    unfolding m_def by (rule takeWhile_eq_take)
  obtain i where i: "i < m" "i < b - a" "t = a + i"
    using assms(1) unfolding tw by (auto simp: in_set_conv_nth)
  moreover from this have "k - a < m" "k - a < b - a"
    using assms(2,3) by linarith+
  ultimately have "k = take m [a..<b] ! (k - a)" "k - a < length (take m [a..<b])"
    using assms(2) by simp_all
  then have "k \<in> set (takeWhile P [a..<b])"
    unfolding tw by (metis nth_mem)
  then show ?thesis
    using set_takeWhileD by metis
qed

lemma rotate_top_le:
  assumes "rotate_top file spacing (fs_now s) ks k0 s = (Inr k', s')"
  shows "(\<exists>q. s' = s\<lparr>fs_faults := q\<rparr>) \<and> k' \<in> insert k0 (set (takeWhile (\<lambda>k. \<not> young file spacing k s) ks))"
  using assms
proof (induction ks arbitrary: k0 s)
  case Nil
  then show ?case
    by (auto simp: io_ret_def intro: exI [where x = "fs_faults s"])
next
  case (Cons k ks)
  obtain r s1 where m: "mtimeOf (generationPath file k) s = (r, s1)"
    by (cases "mtimeOf (generationPath file k) s")
  obtain q where q: "s1 = s\<lparr>fs_faults := q\<rparr>"
    using mtimeOf_same [OF m] by blast
  have y: "young file spacing j s1 \<longleftrightarrow> young file spacing j s" for j
    by (simp add: young_def q split: option.split)
  show ?case
  proof (cases r)
    case (Inr t)
    then have t: "t = map_option in_mtime (node_of s (generationPath file k))"
      using mtimeOf_same [OF m] by simp
    have cond: "(case t of Some t \<Rightarrow> fs_now s - t < spacing * 10 ^ (k - 2) | None \<Rightarrow> False) \<longleftrightarrow> young file spacing k s"
      by (simp add: t young_def split: option.split)
    show ?thesis
    proof (cases "young file spacing k s")
      case True
      then show ?thesis
        using Cons.prems Inr m q cond by (auto simp: io_bind_def io_ret_def)
    next
      case False
      then have "rotate_top file spacing (fs_now s1) ks k s1 = (Inr k', s')"
        using Cons.prems Inr m q cond by (simp add: io_bind_def)
      from Cons.IH [OF this] show ?thesis
        using False q y by auto
    qed
  qed (use Cons.prems m in \<open>simp add: io_bind_def\<close>)
qed

text \<open>
  A version is replaced only once it is old enough: while .k (k at least 2) is younger than its spacing, ten times as long
  from each slot to the next, neither it nor any older version changes, whichever calls are refused.
\<close>

theorem young_versions_stay:
  assumes ok: "files_apart file s" and k: "2 \<le> k" "young file spacing k s" and j: "k \<le> j"
  shows "content (snd (run (rotate file g spacing tries) s)) (generationPath file j) = content s (generationPath file j)"
proof (cases "g = 0 \<or> \<not> exists_file file s")
  case False
  let ?Y = "insert file (generationPath file ` {j. k \<le> j})"
  have inj: "generationPath file a = generationPath file b \<longleftrightarrow> a = b" for a b
    by (simp add: generationPath_def)
  have Y: "?Y \<inter> temps file = {}" "\<And>a. a < k \<Longrightarrow> generationPath file a \<notin> ?Y"
    using generation_beside [of "file"] unfolding beside_def by (auto simp: inj)
  have safe: "disk_safe UNIV file (disk_now s)"
    by (simp add: disk_safe_iff)
  let ?P = "write_kept UNIV file ?Y (content s) {} (node_of s)" and ?s = "s\<lparr>fs_past := []\<rparr>"
  have start: "?P ?s"
    using ok safe Y(1) by (intro kept_start) auto
  have "io_ok ?P (io_then (io_each (move_on file tries) (rev [2..<t + 1])) (keep_current file tries)) (\<lambda>_. ?P) ?P" if "t < k" for t
    using that k(1) by (intro stays_rules kept_move_on kept_keep_current Y(2)) auto
  then have rest: "?P (snd (io_then (io_each (move_on file tries) (rev [2..<t + 1])) (keep_current file tries) s'))"
    if "t < k" "?P s'" for t s'
    using that stays_run by blast
  have top: "t < k" if "rotate_top file spacing (fs_now ?s) [2..<g + 1] 1 ?s = (Inr t, s')" for t s'
  proof (rule ccontr)
    assume "\<not> t < k"
    moreover have "young file spacing k ?s"
      using k(2) by (simp add: young_def node_of_def look_up_def split: option.splits)
    ultimately show False
      using rotate_top_le [OF that] takeWhile_upt [of t _ 2 "g + 1" k] k(1) by auto
  qed
  have "?P (snd (run (rotate file g spacing tries) s))"
  proof (cases "rotate_top file spacing (fs_now ?s) [2..<g + 1] 1 ?s")
    case (Pair r s')
    have "?P s'"
      using stays_run [OF kept_rotate_top, of _ _ _ _ _ _ ?s] start Pair by (metis snd_conv)
    moreover have "exists_file file ?s" "g \<noteq> 0"
      using False by (simp_all add: exists_file_def look_up_def)
    ultimately show ?thesis
      using Pair rest [of _ s'] top by (cases r) (simp_all add: run_def rotate_def io_bind_def)
  qed
  then show ?thesis
    using j by (auto simp: write_kept_def)
qed (auto simp: run_def rotate_def exists_file_def look_up_def content_def)

definition ex_versions :: fs where
  "ex_versions = ex_fs\<lparr>fs_names := [(''s'', 0), (''s.1'', 1), (''s.2'', 2)], fs_dirs := [[(''s'', 0), (''s.1'', 1), (''s.2'', 2)]],
     fs_nodes := (\<lambda>i. \<lparr>in_data = (if i = 0 then ''now'' else if i = 1 then ''then'' else ''before''), in_synced = True, in_mtime = int i * 20000\<rparr>),
     fs_next := 3\<rparr>"

lemma ex_versions_apart: "files_apart ''s'' ex_versions"
  by (auto simp: files_apart_def apart_in_def ex_versions_def ex_fs_def look_up_def temps_def tmpPath_def asyncTmpPath_def split: if_splits)

lemma young_versions_stay_witness:
  "content (snd (run (rotate ''s'' 3 70000 5) ex_versions)) ''s.2'' = Some ''before''"
proof -
  have p: "generationPath ''s'' 2 = ''s.2''"
    by code_simp
  have "young ''s'' 70000 2 ex_versions"
    by (simp add: young_def p node_of_def look_up_def ex_versions_def ex_fs_def)
  from young_versions_stay [OF ex_versions_apart _ this, of 2 3 5] show ?thesis
    by (simp add: p) (simp add: content_def look_up_def ex_versions_def ex_fs_def)
qed

section \<open>Old versions move on\<close>

lemma rotate_top_calm:
  assumes "calm w s"
  shows "rotate_top file spacing (fs_now s) ks k0 s = (Inr (last (k0 # takeWhile (\<lambda>k. \<not> young file spacing k s) ks)), s)"
  using assms by (induction ks arbitrary: k0)
    (auto simp: io_ret_def io_bind_def mtimeOf_def calm_def io_get_def young_def node_of_def look_up_def option.case_eq_if split: option.splits)

lemma rename_calm:
  assumes "calm w s" "look_up s a \<noteq> None"
  shows "\<exists>s'. retrySync (rename a b) tries ms s = (Inr (), s') \<and> calm w s' \<and> content s' b = content s a
    \<and> (\<forall>p. p \<noteq> a \<and> p \<noteq> b \<longrightarrow> content s' p = content s p)"
  using assms by (auto simp: retrySync_def retry_from.simps rename_def calm_def content_def update_conv' delete_conv' look_up_def)

lemma move_on_calm:
  assumes "calm w s"
  shows "\<exists>s'. move_on file tries k s = (Inr (), s') \<and> calm w s'
    \<and> (content s (generationPath file (k - 1)) \<noteq> None \<longrightarrow> content s' (generationPath file k) = content s (generationPath file (k - 1)))
    \<and> (\<forall>p. p \<noteq> generationPath file (k - 1) \<and> p \<noteq> generationPath file k \<longrightarrow> content s' p = content s p)"
proof (cases "exists_file (generationPath file (k - 1)) s")
  case True
  then show ?thesis
    using rename_calm [OF assms, of "generationPath file (k - 1)" "generationPath file k" tries 50]
    by (auto simp: move_on_def exists_file_def)
qed (auto simp: move_on_def exists_file_def content_def assms)

lemma generation_inj [simp]: "generationPath file a = generationPath file b \<longleftrightarrow> a = b" "generationPath file a \<noteq> file"
  using generation_beside [of "file" a] by (simp_all add: generationPath_def beside_def)

lemma moves_calm:
  assumes "calm w s"
  shows "\<exists>s'. io_each (move_on file tries) (rev [2..<t + 1]) s = (Inr (), s') \<and> calm w s'
    \<and> (\<forall>k. 2 \<le> k \<and> k \<le> t \<and> content s (generationPath file (k - 1)) \<noteq> None \<longrightarrow>
          content s' (generationPath file k) = content s (generationPath file (k - 1)))
    \<and> (\<forall>p. (\<forall>k. 1 \<le> k \<and> k \<le> t \<longrightarrow> p \<noteq> generationPath file k) \<longrightarrow> content s' p = content s p)"
  using assms
proof (induction t arbitrary: s)
  case 0
  then show ?case
    by (auto simp: io_ret_def)
next
  case (Suc t)
  show ?case
  proof (cases "t = 0")
    case True
    then show ?thesis
      using Suc.prems by (auto simp: io_ret_def)
  next
    case False
    obtain s1 where s1: "move_on file tries (t + 1) s = (Inr (), s1)" "calm w s1"
      "content s (generationPath file t) \<noteq> None \<longrightarrow> content s1 (generationPath file (t + 1)) = content s (generationPath file t)"
      "\<And>p. p \<noteq> generationPath file t \<and> p \<noteq> generationPath file (t + 1) \<Longrightarrow> content s1 p = content s p"
      using move_on_calm [OF Suc.prems, of "file" tries "t + 1"] by auto
    obtain s2 where s2: "io_each (move_on file tries) (rev [2..<t + 1]) s1 = (Inr (), s2)" "calm w s2"
      "\<And>k. 2 \<le> k \<and> k \<le> t \<and> content s1 (generationPath file (k - 1)) \<noteq> None \<Longrightarrow>
          content s2 (generationPath file k) = content s1 (generationPath file (k - 1))"
      "\<And>p. (\<forall>k. 1 \<le> k \<and> k \<le> t \<longrightarrow> p \<noteq> generationPath file k) \<Longrightarrow> content s2 p = content s1 p"
      using Suc.IH [OF s1(2)] by blast
    have "rev [2..<Suc t + 1] = (t + 1) # rev [2..<t + 1]"
      using False by simp
    then have run: "io_each (move_on file tries) (rev [2..<Suc t + 1]) s = (Inr (), s2)"
      using s1(1) s2(1) by (simp add: io_bind_def)
    have "content s2 (generationPath file k) = content s (generationPath file (k - 1))"
      if k: "2 \<le> k" "k \<le> Suc t" "content s (generationPath file (k - 1)) \<noteq> None" for k
    proof (cases "k = Suc t")
      case True
      then show ?thesis
        using s2(4) [of "generationPath file k"] s1(3) k(3) by simp
    next
      case False
      then have "content s1 (generationPath file (k - 1)) = content s (generationPath file (k - 1))"
        using k by (intro s1(4)) auto
      then show ?thesis
        using s2(3) [of k] k False by simp
    qed
    moreover have "content s2 p = content s p" if "\<forall>k. 1 \<le> k \<and> k \<le> Suc t \<longrightarrow> p \<noteq> generationPath file k" for p
      using that s2(4) [of p] s1(4) [of p] False by simp
    ultimately show ?thesis
      using run s2(2) by blast
  qed
qed

lemma keep_current_calm:
  assumes "calm w s" "content s file = Some bs"
  shows "\<exists>s'. keep_current file tries s = (Inr (), s') \<and> content s' (generationPath file 1) = Some bs
    \<and> (\<forall>p. p \<noteq> generationPath file 1 \<longrightarrow> content s' p = content s p)"
proof -
  let ?g = "generationPath file 1"
  let ?s = "if look_up s ?g = None then s else set_names (AList.delete ?g (fs_names s)) s"
  have "retrySync (remove_file ?g) tries 50 s = (Inr (), ?s)"
    using assms(1) by (simp add: retrySync_def retry_from.simps remove_file_def calm_def)
  moreover have "calm w ?s" "look_up ?s ?g = None" "\<And>p. p \<noteq> ?g \<Longrightarrow> look_up ?s p = look_up s p" "fs_nodes ?s = fs_nodes s"
    using assms(1) by (simp_all add: calm_def delete_conv' look_up_def)
  ultimately obtain s1 where s1: "retrySync (remove_file ?g) tries 50 s = (Inr (), s1)" "calm w s1"
    "look_up s1 ?g = None" "\<And>p. p \<noteq> ?g \<Longrightarrow> look_up s1 p = look_up s p" "fs_nodes s1 = fs_nodes s"
    by blast
  obtain i where i: "look_up s file = Some i" "in_data (fs_nodes s i) = bs"
    using assms(2) by (auto simp: content_def)
  then have "look_up s1 file = Some i"
    using s1(4) [of "file"] generation_inj(2) [of "file" 1] by metis
  then have "link file ?g s1 = (Inr (), set_names (AList.update ?g i (fs_names s1)) s1)"
    using s1(2,3) by (simp add: link_def calm_def)
  then have "keep_current file tries s = (Inr (), set_names (AList.update ?g i (fs_names s1)) s1)"
    using s1(1) by (simp add: keep_current_def Let_def io_bind_def io_catch_def)
  moreover have "content (set_names (AList.update ?g i (fs_names s1)) s1) p = (if p = ?g then Some bs else content s p)" for p
    using s1(4,5) i(2) by (auto simp: content_def update_conv' look_up_def)
  ultimately show ?thesis
    by simp
qed

lemma last_ready: "k \<in> set (takeWhile P [2..<b]) \<Longrightarrow> k \<le> last ((1 :: nat) # takeWhile P [2..<b])"
proof -
  assume k: "k \<in> set (takeWhile P [2..<b])"
  then have "sorted (takeWhile P [2..<b])" "takeWhile P [2..<b] \<noteq> []"
    using sorted_takeWhile [OF sorted_upt] by auto
  then show ?thesis
    using k sorted_nth_mono [of "takeWhile P [2..<b]"] by (auto simp: in_set_conv_nth last_conv_nth)
qed

text \<open>
  Where no call is refused, a rotation keeps what is about to be replaced as .1, and while every slot up to .k is old
  enough, .k takes over the version that was in the slot before it; the file itself stays.
\<close>

theorem rotation_moves_versions:
  assumes "fs_faults s = []" "content s file = Some bs" "1 \<le> k" "k \<le> g"
    and ready: "\<And>j. 2 \<le> j \<Longrightarrow> j \<le> k \<Longrightarrow> \<not> young file spacing j s"
    and prev: "k = 1 \<or> content s (generationPath file (k - 1)) \<noteq> None"
  shows "content (snd (rotate file g spacing tries s)) (generationPath file k)
      = (if k = 1 then Some bs else content s (generationPath file (k - 1)))
    \<and> content (snd (rotate file g spacing tries s)) file = Some bs"
proof -
  define ks where "ks = takeWhile (\<lambda>k. \<not> young file spacing k s) [2..<g + 1]"
  let ?t = "last (1 # ks)"
  have calm: "calm (fs_windows s) s"
    using assms(1) by (simp add: calm_def)
  obtain s1 where s1: "io_each (move_on file tries) (rev [2..<?t + 1]) s = (Inr (), s1)" "calm (fs_windows s) s1"
    "\<And>k. 2 \<le> k \<and> k \<le> ?t \<and> content s (generationPath file (k - 1)) \<noteq> None \<Longrightarrow>
        content s1 (generationPath file k) = content s (generationPath file (k - 1))"
    "\<And>p. (\<forall>k. 1 \<le> k \<and> k \<le> ?t \<longrightarrow> p \<noteq> generationPath file k) \<Longrightarrow> content s1 p = content s p"
    using moves_calm [OF calm, of "file" tries ?t] by blast
  have f1: "content s1 file = Some bs"
    using s1(4) [of "file"] generation_inj(2) [of "file"] assms(2) by metis
  obtain s2 where s2: "keep_current file tries s1 = (Inr (), s2)" "content s2 (generationPath file 1) = Some bs"
    "\<And>p. p \<noteq> generationPath file 1 \<Longrightarrow> content s2 p = content s1 p"
    using keep_current_calm [OF s1(2) f1] by blast
  have "exists_file file s" "g \<noteq> 0"
    using assms(2-4) by (auto simp: exists_file_def content_def)
  then have run: "rotate file g spacing tries s = (Inr (), s2)"
    using rotate_top_calm [OF calm, of "file" spacing "[2..<g + 1]" 1] s1(1) s2(1) unfolding ks_def [symmetric]
    by (simp add: rotate_def io_bind_def)
  have "k \<in> set ks" if "k \<noteq> 1"
  proof -
    have "[2..<g + 1] = [2..<k + 1] @ [k + 1..<g + 1]"
      using assms(3,4) that upt_add_eq_append [of 2 "k + 1" "g - k"] by simp
    then show ?thesis
      using ready assms(3) that by (simp add: ks_def takeWhile_append)
  qed
  then have "k = 1 \<or> 2 \<le> k \<and> k \<le> ?t"
    using last_ready [of k _ "g + 1"] assms(3) unfolding ks_def by (cases "k = 1") auto
  moreover have "content s2 (generationPath file k) = content s1 (generationPath file k)" if "k \<noteq> 1"
    using s2(3) that by simp
  moreover have "content s2 file = Some bs"
    using s2(3) [of "file"] f1 generation_inj(2) [of "file" 1] by metis
  ultimately show ?thesis
    unfolding run snd_conv using s2(2) s1(3) [of k] prev by (cases "k = 1") simp_all
qed

lemma rotation_moves_versions_witness:
  "content (snd (rotate ''s'' 3 60000 5 ex_versions)) ''s.2'' = Some ''then'' \<and> content (snd (rotate ''s'' 3 60000 5 ex_versions)) ''s'' = Some ''now''"
proof -
  have p: "generationPath ''s'' 2 = ''s.2''" "generationPath ''s'' 1 = ''s.1''"
    by code_simp+
  have "\<not> young ''s'' 60000 j ex_versions" if "2 \<le> j" "j \<le> 2" for j
  proof -
    have "j = 2"
      using that by simp
    then show ?thesis
      by (simp add: young_def p node_of_def look_up_def ex_versions_def ex_fs_def)
  qed
  then show ?thesis
    using rotation_moves_versions [of ex_versions "''s''" "''now''" 2 3 60000 5] p
    by (auto simp: content_def look_up_def ex_versions_def ex_fs_def)
qed

section \<open>Waiting\<close>

text \<open>A computation sleeps at most so long (milliseconds).\<close>

definition sleeps :: "'a io \<Rightarrow> int \<Rightarrow> bool" where
  "sleeps m b = (\<forall>s. fs_now s \<le> fs_now (snd (m s)) \<and> fs_now (snd (m s)) \<le> fs_now s + b)"

lemma sleepsD: "sleeps m b \<Longrightarrow> m s = (r, s') \<Longrightarrow> fs_now s \<le> fs_now s' \<and> fs_now s' \<le> fs_now s + b"
  unfolding sleeps_def by (metis snd_conv)

lemma sleepsI: "(\<And>s r s'. m s = (r, s') \<Longrightarrow> fs_now s \<le> fs_now s' \<and> fs_now s' \<le> fs_now s + b) \<Longrightarrow> sleeps m b"
  unfolding sleeps_def by (metis prod.collapse)

lemma sleeps_more: "sleeps m b \<Longrightarrow> b \<le> b' \<Longrightarrow> sleeps m b'"
  unfolding sleeps_def by (meson add_left_mono order_trans)

lemma sleeps_bind:
  assumes "sleeps m a" "\<And>x. sleeps (k x) b" "0 \<le> b"
  shows "sleeps (io_bind m k) (a + b)"
proof (rule sleepsI)
  fix s r s' assume run: "io_bind m k s = (r, s')"
  obtain r1 s1 where 1: "m s = (r1, s1)"
    by (cases "m s")
  then show "fs_now s \<le> fs_now s' \<and> fs_now s' \<le> fs_now s + (a + b)"
    using run sleepsD [OF assms(1) 1] sleepsD [OF assms(2), of _ s1 r s'] assms(3)
    by (cases r1) (auto simp: io_bind_def, fastforce+)
qed

lemma sleeps_catch:
  assumes "sleeps m a" "\<And>e. sleeps (h e) b" "0 \<le> b"
  shows "sleeps (io_catch m h) (a + b)"
proof (rule sleepsI)
  fix s r s' assume run: "io_catch m h s = (r, s')"
  obtain r1 s1 where 1: "m s = (r1, s1)"
    by (cases "m s")
  then show "fs_now s \<le> fs_now s' \<and> fs_now s' \<le> fs_now s + (a + b)"
    using run sleepsD [OF assms(1) 1] sleepsD [OF assms(2), of _ s1 r s'] assms(3)
    by (cases r1) (auto simp: io_catch_def, fastforce+)
qed

lemma sleeps_finally:
  assumes "sleeps m a" "sleeps c b"
  shows "sleeps (io_finally m c) (a + b)"
proof (rule sleepsI)
  fix s r s' assume run: "io_finally m c s = (r, s')"
  obtain r1 s1 where 1: "m s = (r1, s1)"
    by (cases "m s")
  obtain r2 s2 where 2: "c s1 = (r2, s2)"
    by (cases "c s1")
  have "s' = s2"
    using run 1 2 by (auto simp: io_finally_def split: sum.splits)
  then show "fs_now s \<le> fs_now s' \<and> fs_now s' \<le> fs_now s + (a + b)"
    using sleepsD [OF assms(1) 1] sleepsD [OF assms(2) 2] by (intro conjI) simp_all
qed

lemma sleeps_ret: "sleeps (io_ret x) 0"
  by (simp add: sleeps_def io_ret_def)

lemma sleeps_each:
  assumes "\<And>x. sleeps (f x) b" "0 \<le> b"
  shows "sleeps (io_each f xs) (int (length xs) * b)"
proof (induction xs)
  case (Cons x xs)
  then have "sleeps (io_then (f x) (io_each f xs)) (b + int (length xs) * b)"
    using assms by (intro sleeps_bind) simp_all
  then show ?case
    by (simp add: algebra_simps)
qed (simp add: sleeps_ret)

lemma clock_kept [simp]: "fs_now (noted s) = fs_now s" "fs_now (set_names ns s) = fs_now s" "fs_now (set_node i n s) = fs_now s"
  "fs_now (fresh_node p n s) = fs_now s"
  by (simp_all add: noted_def set_names_def set_node_def fresh_node_def)

lemma sleeps_syscall:
  assumes "sleeps m 0" "\<And>n s. fs_now (part n s) = fs_now s"
  shows "sleeps (syscall part m) 0"
  unfolding sleeps_def
proof
  fix s
  have "fs_now (snd (m s)) = fs_now s" for s
    using assms(1) by (simp add: sleeps_def order_antisym)
  then show "fs_now s \<le> fs_now (snd (syscall part m s)) \<and> fs_now (snd (syscall part m s)) \<le> fs_now s + 0"
    by (simp add: syscall_def assms(2) split: list.split option.split)
qed

lemma calls_sleep:
  "sleeps (rename a b) 0" "sleeps (remove_file p) 0" "sleeps (link a b) 0" "sleeps (copy_file a b) 0" "sleeps (mtimeOf p) 0"
  "sleeps (open_r p) 0" "sleeps (open_w p) 0" "sleeps (write_fd fd bs) 0" "sleeps (fsync_fd fd) 0" "sleeps close_fd 0"
  "sleeps open_dir 0" "sleeps sync_dir 0"
  unfolding rename_def remove_file_def link_def copy_file_def put_copy_def mtimeOf_def open_r_def open_w_def write_fd_def fsync_fd_def
    close_fd_def open_dir_def sync_dir_def io_ret_def io_get_def
  by (rule sleeps_syscall; simp add: sleeps_def split: option.split)+

lemma sum_upto: "2 * (\<Sum>j = i..<n. int j) = (if i \<le> n then int n * (int n - 1) - int i * (int i - 1) else 0)"
  by (induction n) (auto simp: algebra_simps le_Suc_eq)

lemma sleeps_retry_from:
  assumes "sleeps m 0" "0 \<le> ms"
  shows "fs_now s \<le> fs_now (snd (retry_from m tries ms i s))
    \<and> fs_now (snd (retry_from m tries ms i s)) \<le> fs_now s + ms * (\<Sum>j = i..<tries. int j)"
proof (induction "tries - i" arbitrary: i s rule: less_induct)
  case less
  have pos: "0 \<le> ms * (\<Sum>j = i..<tries. int j)"
    using assms(2) by (simp add: sum_nonneg)
  obtain r s1 where 1: "m s = (r, s1)"
    by (cases "m s")
  have same: "fs_now s1 = fs_now s"
    using sleepsD [OF assms(1) 1] by simp
  show ?case
  proof (cases "\<exists>e. r = Inl e \<and> i < tries \<and> e \<in> set TRANSIENT")
    case True
    then have "retry_from m tries ms i s = retry_from m tries ms (i + 1) (sleepSync (ms * int i) s1)"
      using 1 by (subst retry_from.simps) auto
    moreover have "(\<Sum>j = i..<tries. int j) = int i + (\<Sum>j = i + 1..<tries. int j)"
      using True by (auto simp: sum.atLeast_Suc_lessThan)
    moreover have "tries - (i + 1) < tries - i"
      using True by auto
    note less.hyps [OF this, of "sleepSync (ms * int i) s1"]
    ultimately show ?thesis
      using same mult_nonneg_nonneg [OF assms(2), of "int i"] by (simp add: sleepSync_def distrib_left)
  next
    case False
    then have "retry_from m tries ms i s = (r, s1)"
      using 1 by (subst retry_from.simps) (auto split: sum.split)
    then show ?thesis
      using same pos by simp
  qed
qed

lemma sleeps_retry:
  assumes "sleeps m 0" "0 \<le> ms"
  shows "sleeps (retrySync m tries ms) (ms * (\<Sum>j = 1..<tries. int j))"
  unfolding sleeps_def retrySync_def using sleeps_retry_from [OF assms] by blast

lemma sleeps_retry_50:
  assumes "sleeps m 0"
  shows "sleeps (retrySync m 5 50) 500" "sleeps (retrySync m 1 50) 0"
  using sleeps_retry [OF assms, of 50 5] sleeps_retry [OF assms, of 50 1] by (simp_all add: sum.atLeast_Suc_lessThan eval_nat_numeral)

lemma sleeps_move_on:
  assumes "\<And>m :: unit io. sleeps m 0 \<Longrightarrow> sleeps (retrySync m tries 50) b" "0 \<le> b"
  shows "sleeps (move_on file tries k) b"
  using assms(1) [OF calls_sleep(1)] assms(2) by (simp add: sleeps_def move_on_def Let_def)

lemma sleeps_rotate_top: "sleeps (rotate_top file spacing now ks k) 0"
proof (induction ks arbitrary: k)
  case (Cons a ks)
  have "sleeps (io_bind (mtimeOf (generationPath file a)) (\<lambda>t.
      if (case t of Some t \<Rightarrow> now - t < spacing * 10 ^ (a - 2) | None \<Rightarrow> False) then io_ret k else rotate_top file spacing now ks a)) (0 + 0)"
    by (rule sleeps_bind [OF calls_sleep(5)]) (auto intro: Cons.IH sleeps_ret)
  then show ?case
    by simp
qed (simp add: sleeps_ret)

lemma sleeps_keep_current:
  assumes "\<And>m :: unit io. sleeps m 0 \<Longrightarrow> sleeps (retrySync m tries 50) b"
  shows "sleeps (keep_current file tries) b"
proof -
  let ?g = "generationPath file 1"
  have "sleeps (io_bind (open_r ?g) (\<lambda>fd. io_finally (fsync_fd fd) close_fd)) (0 + (0 + 0))"
    by (intro sleeps_bind sleeps_finally calls_sleep) simp
  then have "sleeps (io_catch (link file ?g) (\<lambda>_. io_then (copy_file file ?g)
      (io_bind (open_r ?g) (\<lambda>fd. io_finally (fsync_fd fd) close_fd)))) (0 + (0 + (0 + (0 + 0))))"
    by (intro sleeps_catch [OF calls_sleep(3)] sleeps_bind [OF calls_sleep(4)]) simp_all
  then have "sleeps (keep_current file tries) (b + (0 + (0 + (0 + (0 + 0)))))"
    unfolding keep_current_def Let_def by (intro sleeps_bind [OF assms [OF calls_sleep(2)]]) simp_all
  then show ?thesis
    by simp
qed

lemma top_le: "rotate_top file spacing now [2..<g + 1] 1 s = (Inr t, s') \<Longrightarrow> 0 < g \<Longrightarrow> t \<le> g"
proof -
  have "k' \<in> insert k0 (set ks)" if "rotate_top file spacing now ks k0 s = (Inr k', s')" for ks k0 k' s s'
    using that by (induction ks arbitrary: k0 s) (auto simp: io_ret_def io_bind_def split: prod.splits sum.splits if_splits)
  then show "rotate_top file spacing now [2..<g + 1] 1 s = (Inr t, s') \<Longrightarrow> 0 < g \<Longrightarrow> t \<le> g"
    by fastforce
qed

lemma sleeps_rotate:
  assumes retry: "\<And>m :: unit io. sleeps m 0 \<Longrightarrow> sleeps (retrySync m tries 50) b" "0 \<le> b"
  shows "sleeps (rotate file g spacing tries) (int g * b)"
proof (rule sleepsI)
  fix s r s' assume run: "rotate file g spacing tries s = (r, s')"
  show "fs_now s \<le> fs_now s' \<and> fs_now s' \<le> fs_now s + int g * b"
  proof (cases "g = 0 \<or> \<not> exists_file file s")
    case True
    then show ?thesis
      using run assms(2) by (auto simp: rotate_def)
  next
    case False
    obtain r1 s1 where 1: "rotate_top file spacing (fs_now s) [2..<g + 1] 1 s = (r1, s1)"
      by (cases "rotate_top file spacing (fs_now s) [2..<g + 1] 1 s")
    have same: "fs_now s1 = fs_now s"
      using sleepsD [OF sleeps_rotate_top 1] by simp
    show ?thesis
    proof (cases r1)
      case (Inl e)
      then show ?thesis
        using run False 1 same assms(2) by (simp add: rotate_def io_bind_def)
    next
      case (Inr t)
      let ?m = "io_then (io_each (move_on file tries) (rev [2..<t + 1])) (keep_current file tries)"
      have t: "t \<le> g" "0 < g"
        using top_le [of "file" spacing "fs_now s" g s t s1] 1 Inr False by simp_all
      have "sleeps ?m (int (length (rev [2..<t + 1])) * b + b)"
        using assms by (intro sleeps_bind sleeps_each sleeps_move_on sleeps_keep_current)
      moreover have "int (length (rev [2..<t + 1])) * b + b \<le> int g * b"
      proof -
        have "(int (length (rev [2..<t + 1])) + 1) * b \<le> int g * b"
          using t assms(2) by (intro mult_right_mono) simp_all
        then show ?thesis
          by (simp add: algebra_simps)
      qed
      ultimately have "sleeps ?m (int g * b)"
        by (rule sleeps_more)
      moreover have "?m s1 = (r, s')"
        using run False 1 Inr by (simp add: rotate_def io_bind_def)
      ultimately show ?thesis
        using sleepsD [of ?m "int g * b" s1 r s'] same by simp
    qed
  qed
qed

lemma sleeps_commit:
  assumes "\<And>m :: unit io. sleeps m 0 \<Longrightarrow> sleeps (retrySync m tries 50) b" "0 \<le> b"
  shows "sleeps (commit file t opt tries) (int (generations_of opt) * b + b)"
proof -
  have "sleeps (io_catch (rotate file (generations_of opt) (spacing_of opt) tries) (\<lambda>_. io_ret ())) (int (generations_of opt) * b + 0)"
    using assms by (intro sleeps_catch sleeps_rotate sleeps_ret) simp_all
  then show ?thesis
    unfolding commit_def using assms by (intro sleeps_bind [OF _ assms(1) [OF calls_sleep(1)]]) simp_all
qed

lemma sleeps_write_tmp: "sleeps (write_tmp t bs) 0"
proof -
  have "sleeps (write_tmp t bs) (0 + (0 + 0 + 0))"
    unfolding write_tmp_def by (intro sleeps_bind sleeps_finally calls_sleep) simp_all
  then show ?thesis
    by simp
qed

lemma sleeps_dir: "sleeps fsyncDir 0" "sleeps fsyncDirAsync 0"
proof -
  have same: "fs_now s' = fs_now s" if "sleeps m 0" "m s = (r, s')" for m :: "unit io" and s r s'
    using sleepsD [OF that] by simp
  have c: "sleeps (io_catch sync_dir (\<lambda>_. io_ret ())) (0 + 0)"
    by (intro sleeps_catch calls_sleep sleeps_ret) simp
  have f: "sleeps (io_finally (io_catch sync_dir (\<lambda>_. io_ret ())) close_fd) 0" "sleeps (io_then (io_catch sync_dir (\<lambda>_. io_ret ())) close_fd) 0"
    using sleeps_finally [OF c calls_sleep(10)] sleeps_bind [OF c calls_sleep(10)] by simp_all
  show "sleeps fsyncDir 0" "sleeps fsyncDirAsync 0"
    using same [OF calls_sleep(11)] same [OF f(1)] same [OF f(2)]
    by (auto simp: fsyncDir_def fsyncDirAsync_def intro!: sleepsI split: if_splits prod.splits sum.splits)
qed

text \<open>
  A write on the main thread waits at most half a second for each of its renames and for the removal (two seconds with the
  three versions kept by default), however often Windows refuses them; the background write's half never sleeps.
\<close>

theorem write_waits_bounded:
  "fs_now (snd (writeFileDurable file bs opt s)) - fs_now s \<le> 500 * (int (generations_of opt) + 1)
   \<and> fs_now (snd (writeFileDurableAsync file bs opt wanted s)) = fs_now s"
proof -
  have c5: "sleeps (commit file t opt 5) (int (generations_of opt) * 500 + 500)" for t
    using sleeps_retry_50(1) by (intro sleeps_commit) simp_all
  have c1: "sleeps (commit file t opt 1) (int (generations_of opt) * 0 + 0)" for t
    using sleeps_retry_50(2) by (intro sleeps_commit) simp_all
  have "sleeps (writeFileDurable file bs opt) (0 + (int (generations_of opt) * 500 + 500 + 0))"
    unfolding writeFileDurable_def by (intro sleeps_bind sleeps_write_tmp c5 sleeps_dir) simp_all
  moreover have "sleeps (io_then (commit file t opt 1) (io_then fsyncDirAsync (io_ret True))) (int (generations_of opt) * 0 + 0 + (0 + 0))" for t
    by (intro sleeps_bind c1 sleeps_dir sleeps_ret) simp_all
  moreover have "sleeps (io_then (remove_file t) (io_ret False)) (0 + 0)" for t
    by (intro sleeps_bind calls_sleep sleeps_ret) simp_all
  ultimately have w: "sleeps (writeFileDurable file bs opt) (500 * (int (generations_of opt) + 1))" "sleeps (commit_async file opt wanted) 0"
    by (simp_all add: commit_async_def algebra_simps)
  have "sleeps (writeFileDurableAsync file bs opt wanted) (0 + 0)"
    unfolding writeFileDurableAsync_def write_async_def by (intro sleeps_bind sleeps_write_tmp w(2)) simp
  then show ?thesis
    using w(1) unfolding sleeps_def by (simp add: order_antisym algebra_simps)
qed

section \<open>Trying again\<close>

lemma retry_skips:
  assumes "set es \<subseteq> set TRANSIENT" "i + length es \<le> tries" "fs_faults s = map (\<lambda>e. Some (e, 0)) es @ q"
  shows "retry_from (whole m) tries ms i s =
    retry_from (whole m) tries ms (i + length es) (s\<lparr>fs_faults := q, fs_now := fs_now s + ms * (\<Sum>j = i..<i + length es. int j)\<rparr>)"
  using assms
proof (induction es arbitrary: i s)
  case Nil
  then have "s\<lparr>fs_faults := q\<rparr> = s"
    by simp
  then show ?case
    by simp
next
  case (Cons e es)
  let ?s = "s\<lparr>fs_faults := map (\<lambda>e. Some (e, 0)) es @ q, fs_now := fs_now s + ms * int i\<rparr>"
  have "retry_from (whole m) tries ms i s = retry_from (whole m) tries ms (i + 1) ?s"
    using Cons.prems by (subst retry_from.simps) (simp add: syscall_def sleepSync_def)
  also have "\<dots> = retry_from (whole m) tries ms (i + 1 + length es)
      (?s\<lparr>fs_faults := q, fs_now := fs_now ?s + ms * (\<Sum>j = i + 1..<i + 1 + length es. int j)\<rparr>)"
    using Cons.prems by (intro Cons.IH) simp_all
  finally show ?case
    by (simp add: sum.atLeast_Suc_lessThan [of i] distrib_left add.assoc)
qed

lemma refusals_outlasted:
  assumes "set es \<subseteq> set TRANSIENT" "length es < tries" "fs_faults s = map (\<lambda>e. Some (e, 0)) es @ None # q"
    and "m (s\<lparr>fs_now := fs_now s + ms * (\<Sum>j = 1..<1 + length es. int j), fs_faults := q\<rparr>) = (Inr x, s')"
  shows "retrySync (whole m) tries ms s = (Inr x, s')"
proof -
  let ?t = "fs_now s + ms * (\<Sum>j = 1..<1 + length es. int j)"
  have "retry_from (whole m) tries ms i (s\<lparr>fs_faults := None # q, fs_now := t\<rparr>) = (Inr x, s')"
    if "m (s\<lparr>fs_now := t, fs_faults := q\<rparr>) = (Inr x, s')" for i t
    using that by (subst retry_from.simps) (simp add: syscall_def)
  from this [OF assms(4)] show ?thesis
    using retry_skips [OF assms(1) _ assms(3), of 1 tries m ms] assms(2) by (simp only: retrySync_def)
qed

text \<open>
  C31. A call tried again while the file is held for a moment ends: fewer refusals than attempts are outlasted, and refused as often
  as it may try, it throws the last refusal, having made exactly that many attempts.
\<close>

theorem retry_gives_up:
  assumes "set es \<subseteq> set TRANSIENT" "fs_faults s = map (\<lambda>e. Some (e, 0)) es @ q" "1 \<le> tries" "tries \<le> length es"
  shows "\<exists>s'. retrySync (whole m) tries ms s = (Inl (es ! (tries - 1)), s') \<and> fs_faults s' = drop tries (fs_faults s)
    \<and> 2 * (fs_now s' - fs_now s) = ms * (int tries * (int tries - 1))"
proof -
  let ?b = "take (tries - 1) es"
  let ?s = "\<lambda>q. s\<lparr>fs_faults := q, fs_now := fs_now s + ms * (\<Sum>j = 1..<tries. int j)\<rparr>"
  obtain n where n: "tries = Suc n"
    using assms(3) by (cases tries) auto
  have es: "es = ?b @ es ! n # drop tries es"
    using assms(4) n id_take_nth_drop [of n es] by simp
  have f: "fs_faults s = map (\<lambda>e. Some (e, 0)) ?b @ Some (es ! n, 0) # map (\<lambda>e. Some (e, 0)) (drop tries es) @ q"
    by (subst assms(2), subst es) simp
  have "set ?b \<subseteq> set TRANSIENT"
    using assms(1) by (meson order_trans set_take_subset)
  then have "retrySync (whole m) tries ms s = retry_from (whole m) tries ms tries (?s (Some (es ! n, 0) # map (\<lambda>e. Some (e, 0)) (drop tries es) @ q))"
    using retry_skips [OF _ _ f, of 1 tries m ms] n assms(4) by (simp add: retrySync_def)
  also have "\<dots> = (Inl (es ! n), ?s (map (\<lambda>e. Some (e, 0)) (drop tries es) @ q))"
    by (subst retry_from.simps) (simp add: syscall_def)
  finally have run: "retrySync (whole m) tries ms s = (Inl (es ! n), ?s (map (\<lambda>e. Some (e, 0)) (drop tries es) @ q))" .
  have "drop tries (fs_faults s) = map (\<lambda>e. Some (e, 0)) (drop tries es) @ q"
    using assms(2,4) by (simp add: drop_map)
  moreover have "2 * (\<Sum>j = 1..<tries. int j) = int tries * (int tries - 1)"
    using sum_upto [of 1 tries] assms(3) by simp
  then have "2 * (ms * (\<Sum>j = 1..<tries. int j)) = ms * (int tries * (int tries - 1))"
    by (metis mult.left_commute)
  ultimately show ?thesis
    using run n by simp
qed

lemma retry_gives_up_witness:
  "\<exists>s'. retrySync (rename ''a'' ''b'') 5 50 (ex_fs\<lparr>fs_faults := replicate 6 (Some (EBUSY, 0))\<rparr>) = (Inl EBUSY, s') \<and> fs_now s' = 100500"
  using retry_gives_up [of "replicate 6 EBUSY" "ex_fs\<lparr>fs_faults := replicate 6 (Some (EBUSY, 0))\<rparr>" "[]" 5
      "\<lambda>s. case look_up s ''a'' of None \<Rightarrow> (Inl ENOENT, s)
        | Some i \<Rightarrow> (Inr (), if look_up s ''b'' = Some i then s else set_names (AList.update ''b'' i (AList.delete ''a'' (fs_names s))) s)" 50]
  by (auto simp: TRANSIENT_def rename_def ex_fs_def)

end
