(* ===== verification/DurableRead.thy ===== *)
theory DurableRead
  imports DurableVersions
begin

text \<open>
  Loading a crash-safe file (no call refused): the newest good version is the one returned, the load heals the file so that the next
  one is normal, and nothing is lost on the way but a leftover temporary file.
\<close>

section \<open>Reading and moving aside\<close>

definition reading_of :: "(string \<Rightarrow> string + 'v) \<Rightarrow> ('v \<Rightarrow> string option) \<Rightarrow> fs \<Rightarrow> string \<Rightarrow> 'v candidate_verdict" where
  "reading_of parse check s p = (case content s p of None \<Rightarrow> Bad DMissing | Some bs \<Rightarrow> judge_bytes parse check bs)"

fun good_value :: "'v candidate_verdict \<Rightarrow> 'v option" where
  "good_value (Good v text) = Some v"
| "good_value (Bad d) = None"

lemma judged_present [simp]: "\<not> is_missing (judge_bytes parse check bs)"
  by (auto simp: judge_bytes_def Let_def split: sum.split option.split)

lemma missing_iff: "is_missing (reading_of parse check s p) \<longleftrightarrow> content s p = None"
  by (simp add: reading_of_def split: option.split)

lemma readCandidate_calm: "calm w s \<Longrightarrow> readCandidate parse check p s = (Inr (reading_of parse check s p), s)"
  by (simp add: readCandidate_def retrySync_def retry_from.simps read_file_def calm_def reading_of_def TRANSIENT_def split: option.split)

lemma free_name_free: "\<not> exists_file (free_name s base p i) s"
  by (induction s base p i rule: free_name.induct) (subst free_name.simps, simp)

lemma free_name_shape: "free_name s base p i = p \<or> (\<exists>j. free_name s base p i = numbered base j)"
proof (induction s base p i rule: free_name.induct)
  case (1 s base p i)
  then show ?case
    by (subst (1 2) free_name.simps) auto
qed

text \<open>
  A damaged file is moved to a name nothing has yet: the search over the numbered names ends, and never overwrites an
  earlier damaged file.
\<close>

theorem aside_is_free: "content s (asidePath file s) = None"
  using free_name_free by (simp add: asidePath_def Let_def exists_file_def content_def)

lemma last_digit: "show_nat n \<noteq> [] \<and> is_digit (last (show_nat n))"
proof -
  have "show_nat n \<noteq> []"
    by (subst show_nat.simps) simp
  then show ?thesis
    using show_nat_digits [of n] last_in_set by (auto simp: list_all_iff)
qed

lemma aside_shape: "\<exists>u. asidePath p s = p @ u \<and> u \<noteq> [] \<and> (last u = CHR ''Z'' \<or> is_digit (last u))"
proof -
  have "stamp_text t \<noteq> [] \<and> last (stamp_text t) = CHR ''Z''" for t
    by (simp add: stamp_text_def)
  then show ?thesis
    using free_name_shape [of s "p @ ''.damaged-'' @ stamp_text (fs_now s)" "p @ ''.damaged-'' @ stamp_text (fs_now s)" 2] last_digit
    by (auto simp: asidePath_def Let_def numbered_def simp del: append_assoc) (auto simp: last_append)
qed

lemma aside_not_tmp: "asidePath p s \<noteq> tmpPath file"
proof
  assume eq: "asidePath p s = tmpPath file"
  obtain u where u: "asidePath p s = p @ u" "u \<noteq> []" "last u = CHR ''Z'' \<or> is_digit (last u)"
    using aside_shape by blast
  then have "last u = last (tmpPath file)"
    using eq by (metis last_appendR)
  then show False
    using u(3) by (simp add: tmpPath_def is_digit_def code_def)
qed

text \<open>Where no call is refused the file stands under its new name, and nothing else changed.\<close>

lemma moveAside_calm:
  assumes calm: "calm w s" and p: "content s p = Some bs"
  shows "\<exists>s'. moveAside p s = (Inr (Some (asidePath p s)), s') \<and> calm w s' \<and> fs_recoveries s' = fs_recoveries s
    \<and> fs_next s' = fs_next s \<and> fs_nodes s' = fs_nodes s
    \<and> look_up s' = (look_up s)(p := None, asidePath p s := look_up s p)"
proof -
  let ?to = "asidePath p s"
  obtain i where i: "look_up s p = Some i"
    using p by (auto simp: content_def)
  have free: "look_up s ?to = None"
    using aside_is_free [of s p] by (simp add: content_def)
  then have "?to \<noteq> p"
    using i by auto
  let ?s = "set_names (AList.update ?to i (AList.delete p (fs_names s))) s"
  have "retrySync (rename p ?to) 5 50 s = (Inr (), ?s)"
    using i free calm by (simp add: retrySync_def retry_from.simps rename_def calm_def)
  then have "moveAside p s = (Inr (Some ?to), ?s)"
    by (simp add: moveAside_def Let_def io_catch_def io_bind_def io_ret_def)
  moreover have "look_up ?s = (look_up s)(p := None, ?to := look_up s p)"
    using i \<open>?to \<noteq> p\<close> by (auto simp: update_conv' delete_conv' look_up_def)
  moreover have "calm w ?s \<and> fs_recoveries ?s = fs_recoveries s \<and> fs_next ?s = fs_next s"
    using calm by (simp add: calm_def set_names_def noted_def)
  ultimately show ?thesis
    by simp
qed

lemma moved_content:
  assumes "fs_nodes s' = fs_nodes s" "look_up s' = (look_up s)(p := None, q := look_up s p)"
  shows "content s' c = (if c = q then content s p else if c = p then None else content s c)"
  using assms by (simp add: content_def)

lemma moved_reading:
  assumes "fs_nodes s' = fs_nodes s" "look_up s' = (look_up s)(p := None, asidePath p s := look_up s p)"
    and "good_value (reading_of parse check s p) = None"
  shows "reading_of parse check s' c = reading_of parse check s c
    \<or> good_value (reading_of parse check s' c) = None \<and> good_value (reading_of parse check s c) = None"
  using moved_content [OF assms(1,2), of c] assms(3) aside_is_free [of s p] by (auto simp: reading_of_def)

lemma is_missing_iff [simp]: "is_missing (Bad d) \<longleftrightarrow> d = DMissing"
  by (cases d) simp_all

section \<open>The newest good version\<close>

lemma write_tmp_calm:
  assumes "calm w s"
  shows "\<exists>s'. write_tmp t bs s = (Inr (), s') \<and> calm w s' \<and> content s' t = Some bs \<and> fs_recoveries s' = fs_recoveries s"
  using assms
  by (cases "look_up s t") (auto simp: calm_def write_tmp_def io_bind_def io_finally_def open_w_def write_fd_def fsync_fd_def close_fd_def
      io_ret_def content_def unsynced_def set_node_def fresh_node_def set_names_def noted_def look_up_def update_conv')

lemma fsyncDir_calm: "calm w s \<Longrightarrow> \<exists>s'. fsyncDir s = (Inr (), s') \<and> calm w s' \<and> fs_names s' = fs_names s \<and> fs_nodes s' = fs_nodes s
    \<and> fs_recoveries s' = fs_recoveries s"
  by (auto simp: calm_def fsyncDir_def open_dir_def sync_dir_def close_fd_def io_catch_def io_finally_def io_ret_def noted_def)

lemma no_versions: "commit file t NO_VERSIONS tries s = retrySync (rename t file) tries 50 s"
  by (simp add: commit_def NO_VERSIONS_def generations_of_def io_bind_def io_catch_def rotate_def)

text \<open>What a restore writes back is the file's content.\<close>

lemma write_back_calm:
  assumes "calm w s"
  shows "\<exists>s'. writeFileDurable file text NO_VERSIONS s = (Inr (), s') \<and> calm w s' \<and> content s' file = Some text
    \<and> fs_recoveries s' = fs_recoveries s"
proof -
  let ?t = "tmpPath file"
  obtain s1 where s1: "write_tmp ?t text s = (Inr (), s1)" "calm w s1" "content s1 ?t = Some text" "fs_recoveries s1 = fs_recoveries s"
    using write_tmp_calm [OF assms] by blast
  then obtain i where i: "look_up s1 ?t = Some i" "in_data (fs_nodes s1 i) = text"
    by (auto simp: content_def)
  let ?s2 = "if look_up s1 file = Some i then s1 else set_names (AList.update file i (AList.delete ?t (fs_names s1))) s1"
  have s2: "commit file ?t NO_VERSIONS 5 s1 = (Inr (), ?s2)"
    using i s1(2) by (simp add: no_versions retrySync_def retry_from.simps rename_def calm_def)
  have c2: "calm w ?s2" "content ?s2 file = Some text" "fs_recoveries ?s2 = fs_recoveries s"
    using i s1(2,4) by (simp_all add: calm_def content_def update_conv') (simp add: set_names_def noted_def)
  obtain s3 where "fsyncDir ?s2 = (Inr (), s3)" "calm w s3" "fs_names s3 = fs_names ?s2" "fs_nodes s3 = fs_nodes ?s2"
    "fs_recoveries s3 = fs_recoveries ?s2"
    using fsyncDir_calm [OF c2(1)] by blast
  then show ?thesis
    using s1(1) s2 c2 by (auto simp: writeFileDurable_def io_bind_def content_def look_up_def)
qed

definition newest_good :: "(string \<Rightarrow> string + 'v) \<Rightarrow> ('v \<Rightarrow> string option) \<Rightarrow> fs \<Rightarrow> string list \<Rightarrow> 'v option" where
  "newest_good parse check s ps =
     Option.bind (find (\<lambda>p. good_value (reading_of parse check s p) \<noteq> None) ps) (\<lambda>p. good_value (reading_of parse check s p))"

lemma newest_good_Cons:
  "newest_good parse check s (p # ps) =
     (case good_value (reading_of parse check s p) of Some v \<Rightarrow> Some v | None \<Rightarrow> newest_good parse check s ps)"
  by (auto simp: newest_good_def split: option.split)

lemma newest_good_same:
  "(\<And>p. good_value (reading_of parse check s' p) = good_value (reading_of parse check s p)) \<Longrightarrow>
     newest_good parse check s' ps = newest_good parse check s ps"
  by (induction ps) (simp_all add: newest_good_Cons newest_good_def)

lemma restore_calm:
  assumes "calm w s"
  shows "\<exists>s'. restore parse check file rec ps s = (Inr (newest_good parse check s ps), s') \<and> calm w s'
    \<and> (newest_good parse check s ps \<noteq> None \<longrightarrow>
        (\<exists>p \<in> set ps. \<exists>v tx. reading_of parse check s p = Good v tx \<and> newest_good parse check s ps = Some v \<and> content s' file = Some tx))"
  using assms
proof (induction ps arbitrary: s)
  case Nil
  then show ?case
    by (simp add: newest_good_def recordRecovery_def io_bind_def io_ret_def calm_def)
next
  case (Cons p ps)
  note read = readCandidate_calm [OF Cons.prems, of parse check p]
  show ?case
  proof (cases "reading_of parse check s p")
    case (Good v tx)
    obtain s1 where s1: "writeFileDurable file tx NO_VERSIONS s = (Inr (), s1)" "calm w s1" "content s1 file = Some tx"
      using write_back_calm [OF Cons.prems] by blast
    have "mtimeOf p s = (Inr (map_option in_mtime (node_of s p)), s)"
      using Cons.prems by (simp add: mtimeOf_def calm_def io_get_def node_of_def option.map_comp comp_def)
    then have "restore parse check file rec (p # ps) s = (Inr (Some v),
        s1\<lparr>fs_recoveries := fs_recoveries s1 @ [rec\<lparr>dr_from := Some p, dr_fromTime := map_option in_mtime (node_of s p)\<rparr>]\<rparr>)"
      using read Good s1(1) by (simp add: io_bind_def io_catch_def recordRecovery_def io_ret_def)
    then show ?thesis
      using Good s1(2,3) by (auto simp: newest_good_Cons calm_def content_def look_up_def)
  next
    case (Bad d)
    show ?thesis
    proof (cases "d = DMissing")
      case True
      have run: "restore parse check file rec (p # ps) s = restore parse check file rec ps s"
        using read Bad True by (simp add: io_bind_def)
      have new: "newest_good parse check s (p # ps) = newest_good parse check s ps"
        using Bad by (simp add: newest_good_Cons)
      show ?thesis
        using Cons.IH [OF Cons.prems] unfolding run new by (metis list.set_intros(2))
    next
      case False
      then obtain bs where "content s p = Some bs"
        using Bad by (cases "content s p") (simp_all add: reading_of_def)
      then obtain s1 where s1: "moveAside p s = (Inr (Some (asidePath p s)), s1)" "calm w s1" "fs_nodes s1 = fs_nodes s"
        "look_up s1 = (look_up s)(p := None, asidePath p s := look_up s p)"
        using moveAside_calm [OF Cons.prems, of p bs] by blast
      have same: "good_value (reading_of parse check s1 c) = good_value (reading_of parse check s c)"
        "reading_of parse check s1 c = Good v tx \<Longrightarrow> reading_of parse check s c = Good v tx" for c v tx
        using moved_reading [OF s1(3,4), of parse check c] Bad by auto
      have run: "restore parse check file rec (p # ps) s = restore parse check file rec ps s1"
        using read Bad False s1(1) by (simp add: io_bind_def)
      have new: "newest_good parse check s (p # ps) = newest_good parse check s1 ps"
        using Bad newest_good_same [of parse check s1 s ps] same(1) by (simp add: newest_good_Cons)
      show ?thesis
        using Cons.IH [OF s1(2)] same(2) unfolding run new by (metis list.set_intros(2))
    qed
  qed
qed

lemma mtimeOf_calm: "calm w s \<Longrightarrow> mtimeOf p s = (Inr (map_option in_mtime (node_of s p)), s)"
  by (simp add: mtimeOf_def calm_def io_get_def node_of_def option.map_comp comp_def)

lemma readJson_calm:
  assumes "calm w s"
  shows "\<exists>s'. readJsonDurable parse check file lo s = (Inr (newest_good parse check s (file # candidates file lo)), s') \<and> calm w s'
    \<and> (\<forall>v. newest_good parse check s (file # candidates file lo) = Some v \<longrightarrow>
        (\<exists>p tx. reading_of parse check s p = Good v tx \<and> (s' = s \<and> p = file \<or> content s' file = Some tx)))"
proof -
  let ?cs = "candidates file lo"
  note read = readCandidate_calm [OF assms, of parse check "file"]
  show ?thesis
  proof (cases "reading_of parse check s file")
    case (Good v tx)
    then show ?thesis
      using read assms by (simp add: readJsonDurable_def io_bind_def newest_good_Cons) blast
  next
    case (Bad d)
    show ?thesis
    proof (cases "d = DMissing \<and> \<not> list_ex (\<lambda>c. exists_file c s) ?cs")
      case True
      have "good_value (reading_of parse check s c) = None" if "c \<in> set ?cs" for c
        using True that by (auto simp: reading_of_def content_def exists_file_def list_ex_iff)
      then have "find (\<lambda>p. good_value (reading_of parse check s p) \<noteq> None) ?cs = None"
        by (auto simp: find_None_iff)
      then have "newest_good parse check s ?cs = None"
        by (simp add: newest_good_def)
      then show ?thesis
        using read Bad True assms by (simp add: readJsonDurable_def io_bind_def newest_good_Cons)
    next
      case False
      obtain moved s1 where s1: "(if d = DMissing then io_ret None else moveAside file) s = (Inr moved, s1)" "calm w s1"
        "\<And>c. reading_of parse check s1 c = reading_of parse check s c
           \<or> good_value (reading_of parse check s1 c) = None \<and> good_value (reading_of parse check s c) = None"
      proof (cases "d = DMissing")
        case True
        then show thesis
          using that [of None s] assms by (simp add: io_ret_def)
      next
        case False
        then obtain bs where "content s file = Some bs"
          using Bad by (cases "content s file") (simp_all add: reading_of_def)
        from moveAside_calm [OF assms this] show thesis
          using that moved_reading [of _ s "file" parse check] Bad False by auto
      qed
      define rec where "rec = \<lparr>dr_file = file, dr_problem = d, dr_movedTo = moved, dr_from = None, dr_fromTime = None,
        dr_damagedTime = map_option in_mtime (node_of s file)\<rparr>"
      have same: "newest_good parse check s1 ?cs = newest_good parse check s ?cs"
        using s1(3) by (intro newest_good_same) metis
      have "readJsonDurable parse check file lo s = restore parse check file rec ?cs s1"
        using read Bad False s1(1) mtimeOf_calm [OF assms, of "file"] by (auto simp: readJsonDurable_def io_bind_def rec_def)
      then show ?thesis
        using restore_calm [OF s1(2), of parse check "file" rec ?cs] s1(3) Bad unfolding same
        by (simp add: newest_good_Cons) (metis good_value.simps(1) option.discI option.inject)
    qed
  qed
qed


text \<open>What \<open>JSON.parse\<close> never accepts: the empty text, one of zero bytes, one that starts with a byte order mark.\<close>

definition json_rejects :: "(string \<Rightarrow> string + 'v) \<Rightarrow> bool" where
  "json_rejects parse = (\<forall>bs. bs = [] \<or> list_all (\<lambda>b. b = NUL) bs \<or> has_prefix BOM bs \<longrightarrow> (\<exists>e. parse bs = Inl e))"

lemma good_again:
  assumes "json_rejects parse" "reading_of parse check s p = Good v tx" "content s' q = Some tx"
  shows "reading_of parse check s' q = Good v tx"
proof -
  obtain bs where "judge_bytes parse check bs = Good v tx"
    using assms(2) by (auto simp: reading_of_def split: option.splits)
  then have tx: "parse tx = Inr v" "\<And>bad. check v = Some bad \<Longrightarrow> bad = []"
    by (auto simp: judge_bytes_def Let_def split: if_splits sum.splits option.splits)
  then have "\<not> (tx = [] \<or> list_all (\<lambda>b. b = NUL) tx \<or> has_prefix BOM tx)"
    using assms(1) unfolding json_rejects_def by (metis Inl_Inr_False)
  then show ?thesis
    using tx assms(3) by (auto simp: reading_of_def judge_bytes_def no_bom_def split: option.split)
qed


section \<open>Only checked values\<close>

definition accepted :: "(string \<Rightarrow> string + 'v) \<Rightarrow> ('v \<Rightarrow> string option) \<Rightarrow> 'v \<Rightarrow> bool" where
  "accepted parse check v = (\<exists>tx. parse tx = Inr v \<and> check v \<in> {None, Some []})"

lemma judged_accepted: "judge_bytes parse check bs = Good v tx \<Longrightarrow> accepted parse check v"
  by (auto simp: judge_bytes_def accepted_def Let_def split: if_splits sum.splits option.splits)

lemma candidate_accepted:
  "io_ok (\<lambda>_. True) (readCandidate parse check p) (\<lambda>r _. \<forall>v tx. r = Good v tx \<longrightarrow> accepted parse check v) (\<lambda>_. True)"
  by (auto simp: io_ok_def readCandidate_def judged_accepted split: sum.splits prod.splits)

lemma io_ok_True: "io_ok (\<lambda>_. True) m (\<lambda>_ _. True) (\<lambda>_. True)"
  by (auto simp: io_ok_def split: prod.splits sum.splits)

lemma restore_accepted:
  "io_ok (\<lambda>_. True) (restore parse check file rec ps) (\<lambda>r _. \<forall>v. r = Some v \<longrightarrow> accepted parse check v) (\<lambda>_. True)"
proof (induction ps)
  case Nil
  show ?case
    by (auto intro!: io_ok_bind [OF io_ok_True] io_ok_ret)
next
  case (Cons p ps)
  have "io_ok (\<lambda>_. \<forall>v tx. r = Good v tx \<longrightarrow> accepted parse check v)
      (case r of Bad d \<Rightarrow> if is_missing r then restore parse check file rec ps else io_then (moveAside p) (restore parse check file rec ps)
       | Good v tx \<Rightarrow> io_bind (mtimeOf p) (\<lambda>t. io_then (io_catch (writeFileDurable file tx NO_VERSIONS) (\<lambda>_. io_ret ()))
           (io_then (recordRecovery (rec\<lparr>dr_from := Some p, dr_fromTime := t\<rparr>)) (io_ret (Some v)))))
      (\<lambda>r _. \<forall>v. r = Some v \<longrightarrow> accepted parse check v) (\<lambda>_. True)" for r
  proof (cases r)
    case (Good v tx)
    show ?thesis
    proof (cases "accepted parse check v")
      case True
      then show ?thesis
        using Good by (auto intro!: io_ok_pre [OF io_ok_bind [OF io_ok_True]] io_ok_bind [OF io_ok_True] io_ok_ret)
    qed (use Good in \<open>simp add: io_ok_def\<close>)
  next
    case (Bad d)
    then show ?thesis
      by (auto intro!: io_ok_pre [OF Cons.IH] io_ok_pre [OF io_ok_bind [OF io_ok_True Cons.IH]])
  qed
  then show ?case
    by (auto intro!: io_ok_bind [OF candidate_accepted])
qed

text \<open>
  Whatever calls are refused, a load returns only a value that some text parses to and the caller's check accepts.
\<close>

theorem loaded_value_checked:
  assumes "readJsonDurable parse check file lo s = (Inr (Some v), s')"
  shows "accepted parse check v"
proof -
  have rest: "io_ok (\<lambda>_. True) (io_bind (mtimeOf file) (\<lambda>t. io_bind m (\<lambda>moved.
      restore parse check file \<lparr>dr_file = file, dr_problem = d, dr_movedTo = moved, dr_from = None, dr_fromTime = None, dr_damagedTime = t\<rparr>
        (candidates file lo)))) (\<lambda>r _. \<forall>v. r = Some v \<longrightarrow> accepted parse check v) (\<lambda>_. True)" for d m
    by (intro io_ok_bind [OF io_ok_True] restore_accepted)
  have "io_ok (\<lambda>_. True) (readJsonDurable parse check file lo) (\<lambda>r _. \<forall>v. r = Some v \<longrightarrow> accepted parse check v) (\<lambda>_. True)"
    unfolding readJsonDurable_def
    by (rule io_ok_bind [OF candidate_accepted], rule io_okI) (use rest in \<open>simp add: io_ok_def split: candidate_verdict.split\<close>)
  then show ?thesis
    using assms by (simp add: io_ok_def split: prod.splits sum.splits) force
qed

section \<open>Nothing is lost\<close>

definition inodes_ok :: "string \<Rightarrow> fs \<Rightarrow> bool" where
  "inodes_ok file s \<longleftrightarrow> (\<forall>p i. look_up s p = Some i \<longrightarrow> i < fs_next s)
     \<and> (\<forall>p i. look_up s (tmpPath file) = Some i \<longrightarrow> look_up s p = Some i \<longrightarrow> p = tmpPath file)"

text \<open>The contents that must stay: of every name but the temporary file's.\<close>

definition texts_of :: "string \<Rightarrow> fs \<Rightarrow> string set" where
  "texts_of file s = {bs. \<exists>p. p \<noteq> tmpPath file \<and> content s p = Some bs}"

lemma moved_keeps:
  assumes ok: "inodes_ok file s" and p: "content s p = Some bs"
    and s': "fs_next s' = fs_next s" "fs_nodes s' = fs_nodes s" "look_up s' = (look_up s)(p := None, asidePath p s := look_up s p)"
  shows "inodes_ok file s' \<and> texts_of file s \<subseteq> texts_of file s'"
proof
  have to_tmp: "asidePath p s \<noteq> tmpPath file"
    by (rule aside_not_tmp)
  have up: "look_up s' q = Some i \<Longrightarrow> look_up s q = Some i \<or> q = asidePath p s \<and> look_up s p = Some i" for q i
    by (auto simp: s'(3) split: if_splits)
  have tmp: "look_up s' (tmpPath file) = Some i \<Longrightarrow> look_up s (tmpPath file) = Some i \<and> p \<noteq> tmpPath file" for i
    using to_tmp by (auto simp: s'(3) split: if_splits)
  show "inodes_ok file s'"
    unfolding inodes_ok_def s'(1)
  proof (intro conjI allI impI)
    show "i < fs_next s" if "look_up s' q = Some i" for q i
      using up [OF that] ok by (auto simp: inodes_ok_def)
    show "q = tmpPath file" if "look_up s' (tmpPath file) = Some i" "look_up s' q = Some i" for q i
    proof -
      have t: "look_up s (tmpPath file) = Some i" "p \<noteq> tmpPath file"
        using tmp [OF that(1)] by simp_all
      then have "look_up s c = Some i \<Longrightarrow> c = tmpPath file" for c
        using ok by (simp add: inodes_ok_def)
      then show ?thesis
        using up [OF that(2)] t(2) by blast
    qed
  qed
  show "texts_of file s \<subseteq> texts_of file s'"
  proof
    fix b assume "b \<in> texts_of file s"
    then obtain q where q: "q \<noteq> tmpPath file" "content s q = Some b"
      by (auto simp: texts_of_def)
    show "b \<in> texts_of file s'"
    proof (cases "q = p")
      case True
      then have "content s' (asidePath p s) = Some b"
        using q(2) by (simp add: content_def s'(2,3))
      then show ?thesis
        using to_tmp by (auto simp: texts_of_def)
    next
      case False
      have "q \<noteq> asidePath p s"
        using q(2) aside_is_free [of s p] by auto
      then have "content s' q = Some b"
        using q(2) False by (simp add: content_def s'(2,3))
      then show ?thesis
        using q(1) by (auto simp: texts_of_def)
    qed
  qed
qed

lemma write_tmp_others:
  assumes "calm w s" "inodes_ok file s" "write_tmp (tmpPath file) bs s = (Inr (), s')" "q \<noteq> tmpPath file"
  shows "look_up s' q = look_up s q \<and> content s' q = content s q"
proof (cases "look_up s (tmpPath file)")
  case None
  have "look_up s q \<noteq> Some (fs_next s)"
    using assms(2) by (auto simp: inodes_ok_def)
  then show ?thesis
    using assms(1,3,4) None
    by (cases "look_up s q") (auto simp: calm_def write_tmp_def io_bind_def io_finally_def open_w_def write_fd_def fsync_fd_def close_fd_def io_ret_def content_def)
next
  case (Some i)
  then have ne: "look_up s q \<noteq> Some i"
    using assms(2,4) unfolding inodes_ok_def by blast
  have "look_up s' q = look_up s q \<and> fs_nodes s' = (fs_nodes s)(i := fs_nodes s' i)"
    using assms(1,3) Some
    by (auto simp: calm_def write_tmp_def io_bind_def io_finally_def open_w_def write_fd_def fsync_fd_def close_fd_def io_ret_def)
  then show ?thesis
    using ne by (cases "look_up s q") (simp_all add: content_def, metis fun_upd_other)
qed

lemma write_back_keeps:
  assumes calm: "calm w s" and ok: "inodes_ok file s" and none: "look_up s file = None"
  shows "texts_of file s \<subseteq> texts_of file (snd (writeFileDurable file bs NO_VERSIONS s))"
proof
  fix b assume "b \<in> texts_of file s"
  then obtain q where q: "q \<noteq> tmpPath file" "content s q = Some b"
    by (auto simp: texts_of_def)
  let ?t = "tmpPath file"
  obtain s1 where s1: "write_tmp ?t bs s = (Inr (), s1)" "calm w s1" "content s1 ?t = Some bs"
    using write_tmp_calm [OF calm] by blast
  then obtain i where i: "look_up s1 ?t = Some i"
    by (auto simp: content_def)
  have others: "look_up s1 p = look_up s p" "content s1 p = content s p" if "p \<noteq> ?t" for p
    using write_tmp_others [OF calm ok s1(1) that] by simp_all
  have "file \<noteq> ?t"
    by (simp add: tmpPath_def)
  then have "look_up s1 file = None"
    using others(1) none by simp
  then have s2: "commit file ?t NO_VERSIONS 5 s1 = (Inr (), set_names (AList.update file i (AList.delete ?t (fs_names s1))) s1)"
    using i s1(2) by (simp add: no_versions retrySync_def retry_from.simps rename_def calm_def)
  let ?s2 = "set_names (AList.update file i (AList.delete ?t (fs_names s1))) s1"
  have "q \<noteq> file"
    using q(2) none by (auto simp: content_def)
  then have "content ?s2 q = Some b"
    using q others(2) [OF q(1)] by (simp add: content_def update_conv' delete_conv' look_up_def)
  moreover have "calm w ?s2"
    using s1(2) by (simp add: calm_def)
  then obtain s3 where "fsyncDir ?s2 = (Inr (), s3)" "fs_names s3 = fs_names ?s2" "fs_nodes s3 = fs_nodes ?s2"
    using fsyncDir_calm by blast
  ultimately show "b \<in> texts_of file (snd (writeFileDurable file bs NO_VERSIONS s))"
    using s1(1) s2 q(1) by (auto simp: writeFileDurable_def io_bind_def texts_of_def content_def look_up_def)
qed

lemma texts_of_recovery [simp]: "texts_of file (s\<lparr>fs_recoveries := r\<rparr>) = texts_of file s"
  by (simp add: texts_of_def content_def look_up_def)

lemma restore_keeps:
  assumes "calm w s" "inodes_ok file s" "look_up s file = None" "\<forall>p \<in> set ps. \<not> has_prefix p file"
  shows "texts_of file s \<subseteq> texts_of file (snd (restore parse check file rec ps s))"
  using assms
proof (induction ps arbitrary: s)
  case Nil
  then show ?case
    by (simp add: recordRecovery_def io_bind_def io_ret_def)
next
  case (Cons p ps)
  note read = readCandidate_calm [OF Cons.prems(1), of parse check p]
  show ?case
  proof (cases "reading_of parse check s p")
    case (Good v tx)
    obtain s1 where s1: "writeFileDurable file tx NO_VERSIONS s = (Inr (), s1)"
      using write_back_calm [OF Cons.prems(1)] by blast
    have "texts_of file s \<subseteq> texts_of file s1"
      using write_back_keeps [OF Cons.prems(1-3), of tx] s1 by simp
    then show ?thesis
      using read Good s1 mtimeOf_calm [OF Cons.prems(1)] by (simp add: io_bind_def io_catch_def recordRecovery_def io_ret_def)
  next
    case (Bad d)
    show ?thesis
    proof (cases "d = DMissing")
      case True
      then show ?thesis
        using read Bad Cons.IH [OF Cons.prems(1-3)] Cons.prems(4) by (simp add: io_bind_def)
    next
      case False
      then obtain bs where bs: "content s p = Some bs"
        using Bad by (cases "content s p") (simp_all add: reading_of_def)
      then obtain s1 where s1: "moveAside p s = (Inr (Some (asidePath p s)), s1)" "calm w s1" "fs_next s1 = fs_next s"
        "fs_nodes s1 = fs_nodes s" "look_up s1 = (look_up s)(p := None, asidePath p s := look_up s p)"
        using moveAside_calm [OF Cons.prems(1), of p bs] by blast
      have moved: "inodes_ok file s1" "texts_of file s \<subseteq> texts_of file s1"
        using moved_keeps [OF Cons.prems(2) bs s1(3-5)] by simp_all
      have "asidePath p s \<noteq> file"
        using aside_shape [of p s] Cons.prems(4) by (auto simp: has_prefix_iff)
      then have "look_up s1 file = None"
        using Cons.prems(3) by (simp add: s1(5))
      then show ?thesis
        using Cons.IH [OF s1(2) moved(1)] Cons.prems(4) moved(2) read Bad False s1(1) by (simp add: io_bind_def)
    qed
  qed
qed

text \<open>
  A load loses nothing: every content the directory holds under any name but the temporary file's is still there after it,
  damaged ones under the name they were moved to.
\<close>

theorem load_loses_nothing:
  assumes "fs_faults s = []" "files_apart file s" and extra: "\<forall>p \<in> set (lo_extra lo). \<not> has_prefix p file"
    and q: "q \<noteq> tmpPath file" "content s q = Some bs"
  shows "\<exists>q'. content (snd (readJsonDurable parse check file lo s)) q' = Some bs"
proof -
  have calm: "calm (fs_windows s) s"
    using assms(1) by (simp add: calm_def)
  have ok: "inodes_ok file s"
    using assms(2) unfolding inodes_ok_def files_apart_def apart_in_def look_up_def by (metis temp_names(1))
  have cs: "\<forall>p \<in> set (candidates file lo). \<not> has_prefix p file"
    using extra by (auto simp: candidates_def generationPath_def has_prefix_iff)
  note read = readCandidate_calm [OF calm, of parse check "file"]
  have "texts_of file s \<subseteq> texts_of file (snd (readJsonDurable parse check file lo s))"
  proof (cases "reading_of parse check s file")
    case (Good v tx)
    then show ?thesis
      using read by (simp add: readJsonDurable_def io_bind_def)
  next
    case (Bad d)
    show ?thesis
    proof (cases "d = DMissing")
      case True
      then have "look_up s file = None"
        using Bad missing_iff [of parse check s "file"] by (simp add: content_def)
      then show ?thesis
        using read Bad True mtimeOf_calm [OF calm] restore_keeps [OF calm ok _ cs, where parse = parse and check = check] by (simp add: readJsonDurable_def io_bind_def io_ret_def)
    next
      case False
      then obtain b where b: "content s file = Some b"
        using Bad by (cases "content s file") (simp_all add: reading_of_def)
      then obtain s1 where s1: "moveAside file s = (Inr (Some (asidePath file s)), s1)" "calm (fs_windows s) s1" "fs_next s1 = fs_next s"
        "fs_nodes s1 = fs_nodes s" "look_up s1 = (look_up s)(file := None, asidePath file s := look_up s file)"
        using moveAside_calm [OF calm, of "file" b] by blast
      have "asidePath file s \<noteq> file"
        using b aside_is_free [of s "file"] by auto
      then have "look_up s1 file = None"
        by (simp add: s1(5))
      then show ?thesis
        using moved_keeps [OF ok b s1(3-5)] restore_keeps [OF s1(2) _ _ cs, of parse check] read Bad False s1(1) mtimeOf_calm [OF calm, of "file"]
        by (simp add: readJsonDurable_def io_bind_def) (meson order_trans)
    qed
  qed
  then show ?thesis
    using q by (auto simp: texts_of_def)
qed

section \<open>An example: zero bytes after a crash\<close>

definition ex_parse :: "string \<Rightarrow> string + string" where
  "ex_parse bs = (if has_prefix ''{'' bs then Inr bs else Inl ''Unexpected token'')"

definition ex_zeroed :: fs where
  "ex_zeroed = ex_fs\<lparr>fs_names := [(''s'', 0), (''s.1'', 1)], fs_dirs := [[(''s'', 0), (''s.1'', 1)]],
     fs_nodes := (\<lambda>i. \<lparr>in_data = (if i = 0 then [NUL, NUL] else ''{a}''), in_synced = True, in_mtime = 0\<rparr>), fs_next := 2\<rparr>"

definition ex_load :: load_options where
  "ex_load = \<lparr>lo_generations = None, lo_extra = []\<rparr>"

lemma ex_newest: "newest_good ex_parse (\<lambda>_. None) ex_zeroed (''s'' # candidates ''s'' ex_load) = Some ''{a}''"
  by code_simp

lemma ex_zeroed_calm: "calm False ex_zeroed" "fs_faults ex_zeroed = []"
  by (simp_all add: calm_def ex_zeroed_def ex_fs_def)



lemma load_loses_nothing_witness: "\<exists>q. content (snd (readJsonDurable ex_parse (\<lambda>_. None) ''s'' ex_load ex_zeroed)) q = Some [NUL, NUL]"
proof -
  have "files_apart ''s'' ex_zeroed"
    by (auto simp: files_apart_def apart_in_def ex_zeroed_def ex_fs_def look_up_def temps_def tmpPath_def asyncTmpPath_def)
  moreover have "content ex_zeroed ''s'' = Some [NUL, NUL]"
    by (simp add: content_def look_up_def ex_zeroed_def ex_fs_def)
  ultimately show ?thesis
    by (intro load_loses_nothing [OF ex_zeroed_calm(2)]) (auto simp: ex_load_def tmpPath_def)
qed

end
