(* ===== verification/Snapshot.thy ===== *)
theory Snapshot
  imports DurableRead
begin

text \<open>
  Background saves (\<open>SnapshotFile\<close> of \<open>src/server/durable.ts\<close>): the file's state, its operations, and the world they run in: the
  file system, the data that \<open>serialize\<close> turns into text, and the background write that may be in flight. An event is what
  happens between two awaits: a change, the timer, each of the background write's continuations, a flush on the main
  thread. Each carries its time, the calls refused in it and whether the data folder is (still) there.
\<close>

section \<open>The state of one file\<close>

record snapshot_options =
  so_delayMs :: int
  so_intervalMs :: int
  so_durable :: durable_options

record snapshot_file =
  sn_timer :: "int option"
  sn_writing :: bool
  sn_dirty :: bool
  sn_version :: nat
  sn_committed :: nat
  sn_lastStart :: int
  sn_failures :: nat
  sn_urgent :: bool

definition new_snapshot :: snapshot_file where
  "new_snapshot = \<lparr>sn_timer = None, sn_writing = False, sn_dirty = False, sn_version = 0, sn_committed = 0, sn_lastStart = 0,
     sn_failures = 0, sn_urgent = False\<rparr>"

definition snap_pending :: "snapshot_file \<Rightarrow> bool" where
  "snap_pending f = (sn_dirty f \<or> sn_writing f)"

text \<open>When the next write starts; the timer is the time it is due.\<close>

definition snap_schedule :: "snapshot_options \<Rightarrow> int \<Rightarrow> snapshot_file \<Rightarrow> snapshot_file" where
  "snap_schedule so now f =
     (if sn_timer f \<noteq> None \<or> sn_writing f \<or> \<not> sn_dirty f then f
      else
        let backoff = (if sn_failures f > 0 then min 30000 (500 * 2 ^ sn_failures f) else 0);
            wait = (if sn_urgent f \<and> sn_failures f = 0 then 0
                    else max (so_delayMs so) (max (sn_lastStart f + so_intervalMs so - now) backoff))
        in f\<lparr>sn_timer := Some (now + wait)\<rparr>)"

definition snap_changed :: "snapshot_options \<Rightarrow> int \<Rightarrow> snapshot_file \<Rightarrow> snapshot_file" where
  "snap_changed so now f = snap_schedule so now (f\<lparr>sn_dirty := True\<rparr>)"

definition changedNow :: "snapshot_options \<Rightarrow> int \<Rightarrow> snapshot_file \<Rightarrow> snapshot_file" where
  "changedNow so now f =
     (let f = f\<lparr>sn_dirty := True, sn_urgent := True\<rparr>;
          f = (if sn_timer f \<noteq> None \<and> \<not> sn_writing f then f\<lparr>sn_timer := None\<rparr> else f)
      in snap_schedule so now f)"

text \<open>A write that failed: tried again later, or given up where the folder is gone.\<close>

definition failed :: "bool \<Rightarrow> snapshot_file \<Rightarrow> snapshot_file" where
  "failed there f = (if \<not> there then f\<lparr>sn_dirty := False\<rparr> else f\<lparr>sn_dirty := True, sn_failures := sn_failures f + 1\<rparr>)"

text \<open>The end of a background write, whatever came of it (the \<open>finally\<close> block).\<close>

definition write_over :: "snapshot_options \<Rightarrow> int \<Rightarrow> snapshot_file \<Rightarrow> snapshot_file" where
  "write_over so now f = snap_schedule so now (f\<lparr>sn_writing := False\<rparr>)"

section \<open>The world\<close>

text \<open>How far a background write has come: started, its bytes on the disk, or made current.\<close>

datatype stage = Started | OnDisk | Current

record flight =
  fl_version :: nat
  fl_text :: string
  fl_stage :: stage

record world =
  sw_file :: snapshot_file
  sw_fs :: fs
  sw_data :: string
  sw_flight :: "flight option"
  sw_texts :: "string set"

datatype snap_event =
    Change int string
  | ChangeNow int string
  | TimerDue int
  | BytesWritten int "(errno \<times> nat) option list" bool
  | Committing int "(errno \<times> nat) option list" bool
  | DirSynced int "(errno \<times> nat) option list" bool
  | Flush int "(errno \<times> nat) option list" bool

definition fs_at :: "int \<Rightarrow> (errno \<times> nat) option list \<Rightarrow> fs \<Rightarrow> fs" where
  "fs_at now q s = s\<lparr>fs_now := now, fs_faults := q\<rparr>"

text \<open>The timer: \<open>writeInBackground\<close> up to its first await.\<close>

definition start_write :: "int \<Rightarrow> world \<Rightarrow> world" where
  "start_write now w =
     (let f = (sw_file w)\<lparr>sn_timer := None\<rparr>
      in if \<not> sn_dirty f then w\<lparr>sw_file := f\<rparr>
         else
           let v = sn_version f + 1
           in w\<lparr>sw_file := f\<lparr>sn_dirty := False, sn_urgent := False, sn_writing := True, sn_lastStart := now, sn_version := v\<rparr>,
                sw_flight := Some \<lparr>fl_version = v, fl_text = sw_data w, fl_stage = Started\<rparr>,
                sw_texts := insert (sw_data w) (sw_texts w)\<rparr>)"

definition background_failed :: "snapshot_options \<Rightarrow> int \<Rightarrow> bool \<Rightarrow> fs \<Rightarrow> world \<Rightarrow> world" where
  "background_failed so now there s w =
     w\<lparr>sw_fs := s, sw_file := write_over so now (failed there (sw_file w)), sw_flight := None\<rparr>"

definition background_done :: "snapshot_options \<Rightarrow> int \<Rightarrow> nat option \<Rightarrow> fs \<Rightarrow> world \<Rightarrow> world" where
  "background_done so now v s w =
     (let f = (sw_file w)\<lparr>sn_failures := 0\<rparr>;
          f = (case v of Some v \<Rightarrow> f\<lparr>sn_committed := v\<rparr> | None \<Rightarrow> f)
      in w\<lparr>sw_fs := s, sw_file := write_over so now f, sw_flight := None\<rparr>)"

definition bytes_written :: "snapshot_options \<Rightarrow> string \<Rightarrow> int \<Rightarrow> (errno \<times> nat) option list \<Rightarrow> bool \<Rightarrow> flight \<Rightarrow> world \<Rightarrow> world" where
  "bytes_written so file now q there fl w =
     (case write_async file (fl_text fl) (fs_at now q (sw_fs w)) of
        (Inl e, s) \<Rightarrow> background_failed so now there s w
      | (Inr _, s) \<Rightarrow> w\<lparr>sw_fs := s, sw_flight := Some (fl\<lparr>fl_stage := OnDisk\<rparr>)\<rparr>)"

text \<open>The bytes are on the disk: dropped where a newer version was written meanwhile, else made current.\<close>

definition commit_write :: "snapshot_options \<Rightarrow> string \<Rightarrow> int \<Rightarrow> (errno \<times> nat) option list \<Rightarrow> bool \<Rightarrow> flight \<Rightarrow> world \<Rightarrow> world" where
  "commit_write so file now q there fl w =
     (let s = fs_at now q (sw_fs w)
      in if \<not> sn_committed (sw_file w) < fl_version fl then
           (case remove_file (asyncTmpPath file) s of
              (Inl e, s) \<Rightarrow> background_failed so now there s w
            | (Inr _, s) \<Rightarrow> background_done so now None s w)
         else
           (case commit file (asyncTmpPath file) (so_durable so) 1 s of
              (Inl e, s) \<Rightarrow> background_failed so now there s w
            | (Inr _, s) \<Rightarrow> w\<lparr>sw_fs := s, sw_flight := Some (fl\<lparr>fl_stage := Current\<rparr>)\<rparr>))"

definition dir_synced :: "snapshot_options \<Rightarrow> int \<Rightarrow> (errno \<times> nat) option list \<Rightarrow> bool \<Rightarrow> flight \<Rightarrow> world \<Rightarrow> world" where
  "dir_synced so now q there fl w =
     (case fsyncDirAsync (fs_at now q (sw_fs w)) of
        (Inl e, s) \<Rightarrow> background_failed so now there s w
      | (Inr _, s) \<Rightarrow> background_done so now (Some (fl_version fl)) s w)"

definition flushSync :: "snapshot_options \<Rightarrow> string \<Rightarrow> int \<Rightarrow> (errno \<times> nat) option list \<Rightarrow> bool \<Rightarrow> world \<Rightarrow> world" where
  "flushSync so file now q there w =
     (let v = sn_version (sw_file w) + 1;
          f = (sw_file w)\<lparr>sn_timer := None, sn_version := v\<rparr>;
          w = w\<lparr>sw_texts := insert (sw_data w) (sw_texts w)\<rparr>
      in case writeFileDurable file (sw_data w) (so_durable so) (fs_at now q (sw_fs w)) of
           (Inr _, s) \<Rightarrow> w\<lparr>sw_fs := s, sw_file := f\<lparr>sn_committed := v, sn_dirty := False, sn_failures := 0\<rparr>\<rparr>
         | (Inl e, s) \<Rightarrow> w\<lparr>sw_fs := s, sw_file := snap_schedule so now (failed there f)\<rparr>)"

text \<open>An event that cannot happen (no write at that stage, the timer not due) changes nothing.\<close>

fun snap_step :: "snapshot_options \<Rightarrow> string \<Rightarrow> snap_event \<Rightarrow> world \<Rightarrow> world" where
  "snap_step so file (Change now d) w = w\<lparr>sw_data := d, sw_file := snap_changed so now (sw_file w)\<rparr>"
| "snap_step so file (ChangeNow now d) w = w\<lparr>sw_data := d, sw_file := changedNow so now (sw_file w)\<rparr>"
| "snap_step so file (TimerDue now) w =
     (case sn_timer (sw_file w) of Some due \<Rightarrow> if due \<le> now then start_write now w else w | None \<Rightarrow> w)"
| "snap_step so file (BytesWritten now q there) w =
     (case sw_flight w of Some fl \<Rightarrow> if fl_stage fl = Started then bytes_written so file now q there fl w else w | None \<Rightarrow> w)"
| "snap_step so file (Committing now q there) w =
     (case sw_flight w of Some fl \<Rightarrow> if fl_stage fl = OnDisk then commit_write so file now q there fl w else w | None \<Rightarrow> w)"
| "snap_step so file (DirSynced now q there) w =
     (case sw_flight w of Some fl \<Rightarrow> if fl_stage fl = Current then dir_synced so now q there fl w else w | None \<Rightarrow> w)"
| "snap_step so file (Flush now q there) w = flushSync so file now q there w"

definition snap_run :: "snapshot_options \<Rightarrow> string \<Rightarrow> snap_event list \<Rightarrow> world \<Rightarrow> world" where
  "snap_run so file es w = fold (snap_step so file) es w"

text \<open>The server starts: the data it holds is what the file held, or there was none.\<close>

definition snap_start :: "fs \<Rightarrow> string \<Rightarrow> world" where
  "snap_start s d = \<lparr>sw_file = new_snapshot, sw_fs = s\<lparr>fs_past := []\<rparr>, sw_data = d, sw_flight = None, sw_texts = {}\<rparr>"

fun event_time :: "snap_event \<Rightarrow> int" where
  "event_time (Change t d) = t"
| "event_time (ChangeNow t d) = t"
| "event_time (TimerDue t) = t"
| "event_time (BytesWritten t q b) = t"
| "event_time (Committing t q b) = t"
| "event_time (DirSynced t q b) = t"
| "event_time (Flush t q b) = t"

fun folder_there :: "snap_event \<Rightarrow> bool" where
  "folder_there (BytesWritten t q b) = b"
| "folder_there (Committing t q b) = b"
| "folder_there (DirSynced t q b) = b"
| "folder_there (Flush t q b) = b"
| "folder_there _ = True"

end
