(* ===== verification/SnapshotProps.thy ===== *)
theory SnapshotProps
  imports Snapshot
begin

text \<open>
  What background saves promise, whatever calls are refused: a crash leaves a text that was handed to a write; while nothing is
  pending the file holds the current data; a write in flight never overtakes a flush; a change not yet written always has a
  write coming, by a bounded time.
\<close>

section \<open>What each step asks of the file system\<close>

lemma write_ok_at [simp]: "write_ok C file (fs_at now q s) \<longleftrightarrow> write_ok C file s" "content (fs_at now q s) p = content s p"
  "node_of (fs_at now q s) p = node_of s p" "on_disk p bs (fs_at now q s) \<longleftrightarrow> on_disk p bs s"
  by (simp_all add: fs_at_def content_def node_of_def look_up_def on_disk_def)

lemma kept_here:
  assumes "write_ok C file s"
  shows "write_kept C file {file} (content s) {} (node_of s) s" "write_kept C file {file} (content s) {asyncTmpPath file} (node_of s) s"
  using assms by (simp_all add: write_kept_def)

lemma bytes_result:
  assumes "write_ok C file s" "write_async file tx s = (r, s')"
  shows "write_ok C file s'" "content s' file = content s file" "r = Inr u \<Longrightarrow> on_disk (asyncTmpPath file) tx s'"
proof -
  have "case r of Inr v \<Rightarrow> write_kept C file {file} (content s) {} (node_of s) s' \<and> on_disk (asyncTmpPath file) tx s'
      | Inl e \<Rightarrow> write_kept C file {file} (content s) {} (node_of s) s'"
    by (rule io_ok_case [OF kept_write_tmp kept_here(1) [OF assms(1)] assms(2) [unfolded write_async_def]]) simp_all
  then show "write_ok C file s'" "content s' file = content s file" "r = Inr u \<Longrightarrow> on_disk (asyncTmpPath file) tx s'"
    by (auto simp: write_kept_def split: sum.splits)
qed

lemma commit_result:
  assumes "write_ok C file s" "on_disk (asyncTmpPath file) tx s" "Some tx \<in> C" "commit file (asyncTmpPath file) opt 1 s = (r, s')"
  shows "write_ok C file s'" "r = Inr u \<Longrightarrow> content s' file = Some tx" "r = Inl e \<Longrightarrow> content s' file = content s file"
proof -
  have "case r of
      Inr v \<Rightarrow> write_kept C file {file} ((content s)(file := Some tx)) {} (node_of s) s' \<and> look_up s' (asyncTmpPath file) = None \<and> on_disk file tx s'
    | Inl e \<Rightarrow> write_kept C file {file} (content s) {} (node_of s) s' \<and> on_disk (asyncTmpPath file) tx s'"
    by (rule io_ok_case [OF kept_commit _ assms(4)]) (use kept_here(1) [OF assms(1)] assms(2,3) in \<open>simp_all add: generationPath_def\<close>)
  then show "write_ok C file s'" "r = Inr u \<Longrightarrow> content s' file = Some tx" "r = Inl e \<Longrightarrow> content s' file = content s file"
    by (auto simp: write_kept_def split: sum.splits)
qed

lemma flush_result:
  assumes "write_ok C file s" "Some tx \<in> C" "writeFileDurable file tx opt s = (r, s')"
  shows "write_ok C file s'" "r = Inr u \<Longrightarrow> content s' file = Some tx" "node_of s' (asyncTmpPath file) = node_of s (asyncTmpPath file)"
proof -
  let ?K = "\<lambda>y. write_kept C file {file} y {asyncTmpPath file} (node_of s)"
  have "case r of Inr v \<Rightarrow> ?K ((content s)(file := Some tx)) s' \<and> on_disk file tx s'
      | Inl e \<Rightarrow> ?K (content s) s' \<or> ?K ((content s)(file := Some tx)) s'"
    by (rule io_ok_case [OF kept_write kept_here(2) [OF assms(1)] assms(3)]) (use assms(2) in \<open>simp_all add: generationPath_def\<close>)
  then show "write_ok C file s'" "r = Inr u \<Longrightarrow> content s' file = Some tx" "node_of s' (asyncTmpPath file) = node_of s (asyncTmpPath file)"
    by (auto simp: write_kept_def split: sum.splits)
qed

lemma drop_result:
  assumes ok: "write_ok C file s" and run: "remove_file (asyncTmpPath file) s = (r, s')"
  shows "write_ok C file s' \<and> content s' file = content s file"
proof -
  let ?I = "\<lambda>s'. write_ok C file s' \<and> content s' file = content s file"
  have "?I (set_names (AList.delete (asyncTmpPath file) (fs_names s')) s')" if "?I s'" for s'
  proof
    have ok: "write_ok C file s'" and c: "content s' file = content s file"
      using that by simp_all
    have ne: "file \<noteq> asyncTmpPath file"
      by (simp add: asyncTmpPath_def)
    have up: "map_of (AList.delete (asyncTmpPath file) (fs_names s')) p = (if p = asyncTmpPath file then None else look_up s' p)" for p
      by (simp add: delete_conv' look_up_def)
    show "write_ok C file (set_names (AList.delete (asyncTmpPath file) (fs_names s')) s')"
    proof (rule write_ok_names [OF ok])
      show "entry_safe C (fs_nodes s') (map_of (AList.delete (asyncTmpPath file) (fs_names s')) file)"
        using write_ok_now [OF ok] ne by (simp add: up)
      show "i < fs_next s'" if "map_of (AList.delete (asyncTmpPath file) (fs_names s')) p = Some i" for p i
        using that write_okD(5) [OF ok] by (auto simp: up split: if_splits)
      fix t i assume t: "t \<in> temps file" "map_of (AList.delete (asyncTmpPath file) (fs_names s')) t = Some i"
      then have "look_up s' t = Some i"
        by (auto simp: up split: if_splits)
      from write_okD(6,7) [OF ok t(1) this]
      show "(\<forall>dir \<in> set (fs_dirs s'). map_of dir file \<noteq> Some i)
          \<and> (\<forall>p. map_of (AList.delete (asyncTmpPath file) (fs_names s')) p = Some i \<longrightarrow> p = t)"
        by (simp add: up)
    qed
    show "content (set_names (AList.delete (asyncTmpPath file) (fs_names s')) s') file = content s file"
      using c ne by (simp add: content_def up)
  qed
  then have "stays ?I (remove_file (asyncTmpPath file))"
    unfolding remove_file_def by (intro io_ok_syscall) (auto simp: io_ok_def content_def)
  from stays_run [OF this, of s] show ?thesis
    using ok run by simp
qed

lemma dir_result:
  assumes ok: "write_ok C file s" and run: "fsyncDirAsync s = (r, s')"
  shows "write_ok C file s' \<and> content s' file = content s file"
proof -
  let ?I = "\<lambda>s'. write_ok C file s' \<and> content s' file = content s file"
  have calls: "stays ?I open_dir" "stays ?I close_fd"
    unfolding open_dir_def close_fd_def by (rule io_ok_syscall; auto simp: content_def intro: io_ok_ret)+
  have sync: "stays ?I sync_dir"
    unfolding sync_dir_def using write_ok_sync_dir [of C "file"]
    by (intro io_ok_syscall) (auto simp: io_ok_def content_def noted_def look_up_def)
  have rest: "stays ?I (io_then (io_catch sync_dir (\<lambda>_. io_ret ())) close_fd)"
    by (intro stays_rules sync calls)
  obtain r1 s1 where o: "open_dir s = (r1, s1)"
    by (cases "open_dir s")
  have "?I s1"
    using stays_run [OF calls(1), of s] ok o by simp
  then show ?thesis
    using run o ok stays_run [OF rest, of s1] by (auto simp: fsyncDirAsync_def split: if_splits sum.splits)
qed

section \<open>The invariant of the world\<close>

definition world_ok :: "string option \<Rightarrow> string \<Rightarrow> world \<Rightarrow> bool" where
  "world_ok c0 file w \<longleftrightarrow>
     write_ok (insert c0 (Some ` sw_texts w)) file (sw_fs w)
     \<and> sn_writing (sw_file w) = (sw_flight w \<noteq> None) \<and> (sn_writing (sw_file w) \<longrightarrow> sn_timer (sw_file w) = None)
     \<and> sn_committed (sw_file w) \<le> sn_version (sw_file w)
     \<and> (\<forall>fl. sw_flight w = Some fl \<longrightarrow> 0 < fl_version fl \<and> fl_version fl \<le> sn_version (sw_file w) \<and> fl_text fl \<in> sw_texts w
          \<and> (fl_stage fl = OnDisk \<longrightarrow> on_disk (asyncTmpPath file) (fl_text fl) (sw_fs w)))"

lemma schedule_fields [simp]:
  "sn_writing (snap_schedule so now f) = sn_writing f" "sn_dirty (snap_schedule so now f) = sn_dirty f" "sn_version (snap_schedule so now f) = sn_version f"
  "sn_committed (snap_schedule so now f) = sn_committed f" "sn_failures (snap_schedule so now f) = sn_failures f"
  "sn_urgent (snap_schedule so now f) = sn_urgent f" "sn_lastStart (snap_schedule so now f) = sn_lastStart f"
  "sn_writing f \<Longrightarrow> sn_timer (snap_schedule so now f) = sn_timer f"
  by (simp_all add: snap_schedule_def Let_def)

lemma snap_changed_fields [simp]:
  "sn_writing (snap_changed so now f) = sn_writing f" "sn_dirty (snap_changed so now f)" "sn_version (snap_changed so now f) = sn_version f"
  "sn_committed (snap_changed so now f) = sn_committed f" "sn_writing f \<Longrightarrow> sn_timer (snap_changed so now f) = sn_timer f"
  "sn_writing (changedNow so now f) = sn_writing f" "sn_dirty (changedNow so now f)" "sn_version (changedNow so now f) = sn_version f"
  "sn_committed (changedNow so now f) = sn_committed f" "sn_writing f \<Longrightarrow> sn_timer (changedNow so now f) = sn_timer f"
  by (simp_all add: snap_changed_def changedNow_def Let_def)

lemma failed_fields [simp]:
  "sn_writing (failed there f) = sn_writing f" "sn_version (failed there f) = sn_version f" "sn_committed (failed there f) = sn_committed f"
  "sn_timer (failed there f) = sn_timer f" "sn_dirty (failed there f) = there"
  by (simp_all add: failed_def)

lemma write_over_fields [simp]:
  "\<not> sn_writing (write_over so now f)" "sn_dirty (write_over so now f) = sn_dirty f" "sn_version (write_over so now f) = sn_version f"
  "sn_committed (write_over so now f) = sn_committed f" "sn_failures (write_over so now f) = sn_failures f"
  by (simp_all add: write_over_def)

lemma background_failed_fields [simp]:
  "sw_fs (background_failed so now there s w) = s" "sw_flight (background_failed so now there s w) = None"
  "sw_texts (background_failed so now there s w) = sw_texts w" "sw_data (background_failed so now there s w) = sw_data w"
  "sw_file (background_failed so now there s w) = write_over so now (failed there (sw_file w))"
  by (simp_all add: background_failed_def)

lemma background_done_fields [simp]:
  "sw_fs (background_done so now v s w) = s" "sw_flight (background_done so now v s w) = None"
  "sw_texts (background_done so now v s w) = sw_texts w" "sw_data (background_done so now v s w) = sw_data w"
  "\<not> sn_writing (sw_file (background_done so now v s w))" "sn_version (sw_file (background_done so now v s w)) = sn_version (sw_file w)"
  "sn_dirty (sw_file (background_done so now v s w)) = sn_dirty (sw_file w)"
  "sn_committed (sw_file (background_done so now v s w)) = (case v of Some v \<Rightarrow> v | None \<Rightarrow> sn_committed (sw_file w))"
  by (simp_all add: background_done_def Let_def split: option.split)

lemma world_okD:
  assumes "world_ok c0 file w"
  shows "write_ok (insert c0 (Some ` sw_texts w)) file (sw_fs w)" "sn_committed (sw_file w) \<le> sn_version (sw_file w)"
    "sw_flight w = Some fl \<Longrightarrow> fl_version fl \<le> sn_version (sw_file w) \<and> fl_text fl \<in> sw_texts w \<and> 0 < fl_version fl"
    "sw_flight w = Some fl \<Longrightarrow> fl_stage fl = OnDisk \<Longrightarrow> on_disk (asyncTmpPath file) (fl_text fl) (sw_fs w)"
    "sw_flight w = Some fl \<Longrightarrow> sn_writing (sw_file w) \<and> sn_timer (sw_file w) = None"
    "sn_timer (sw_file w) \<noteq> None \<Longrightarrow> sw_flight w = None"
  using assms unfolding world_ok_def by auto

text \<open>What a flush comes to.\<close>

lemma flush_cases:
  assumes ok: "world_ok c0 file w"
  obtains (written) s where "writeFileDurable file (sw_data w) (so_durable so) (fs_at now q (sw_fs w)) = (Inr (), s)"
      "flushSync so file now q there w = w\<lparr>sw_texts := insert (sw_data w) (sw_texts w), sw_fs := s,
         sw_file := (sw_file w)\<lparr>sn_timer := None, sn_version := sn_version (sw_file w) + 1, sn_committed := sn_version (sw_file w) + 1,
           sn_dirty := False, sn_failures := 0\<rparr>\<rparr>"
      "write_ok (insert c0 (Some ` insert (sw_data w) (sw_texts w))) file s" "content s file = Some (sw_data w)"
      "node_of s (asyncTmpPath file) = node_of (sw_fs w) (asyncTmpPath file)"
  | (thrown) e s where "writeFileDurable file (sw_data w) (so_durable so) (fs_at now q (sw_fs w)) = (Inl e, s)"
      "flushSync so file now q there w = w\<lparr>sw_texts := insert (sw_data w) (sw_texts w), sw_fs := s,
         sw_file := snap_schedule so now (failed there ((sw_file w)\<lparr>sn_timer := None, sn_version := sn_version (sw_file w) + 1\<rparr>))\<rparr>"
      "write_ok (insert c0 (Some ` insert (sw_data w) (sw_texts w))) file s"
      "node_of s (asyncTmpPath file) = node_of (sw_fs w) (asyncTmpPath file)"
proof -
  let ?C = "insert c0 (Some ` insert (sw_data w) (sw_texts w))"
  have C: "write_ok ?C file (fs_at now q (sw_fs w))" "Some (sw_data w) \<in> ?C"
    using world_okD(1) [OF ok] by (auto intro: write_ok_mono)
  obtain r s where run: "writeFileDurable file (sw_data w) (so_durable so) (fs_at now q (sw_fs w)) = (r, s)"
    by (cases "writeFileDurable file (sw_data w) (so_durable so) (fs_at now q (sw_fs w))")
  note res = flush_result [OF C run]
  show thesis
  proof (cases r)
    case (Inl e)
    then show thesis
      using thrown [of e s] run res by (simp add: flushSync_def Let_def)
  next
    case (Inr u)
    then show thesis
      using that(1) [of s] run res by (simp add: flushSync_def Let_def)
  qed
qed

lemma on_disk_cong: "node_of s' p = node_of s p \<Longrightarrow> on_disk p bs s' = on_disk p bs s"
  by (simp add: on_disk_def)

lemma world_ok_flush:
  assumes ok: "world_ok c0 file w"
  shows "world_ok c0 file (flushSync so file now q there w)"
proof -
  have fl: "sw_flight w = Some fl \<Longrightarrow> fl_version fl \<le> Suc (sn_version (sw_file w)) \<and> fl_text fl \<in> sw_texts w \<and> 0 < fl_version fl" for fl
    using world_okD(3) [OF ok, of fl] by simp
  have wr: "sn_writing (sw_file w) = (sw_flight w \<noteq> None)"
    using ok by (simp add: world_ok_def)
  show ?thesis
  proof (rule flush_cases [OF ok, of so now q there])
    fix s
    assume f: "flushSync so file now q there w = w\<lparr>sw_texts := insert (sw_data w) (sw_texts w), sw_fs := s,
         sw_file := (sw_file w)\<lparr>sn_timer := None, sn_version := sn_version (sw_file w) + 1, sn_committed := sn_version (sw_file w) + 1,
           sn_dirty := False, sn_failures := 0\<rparr>\<rparr>"
      and s: "write_ok (insert c0 (Some ` insert (sw_data w) (sw_texts w))) file s"
        "node_of s (asyncTmpPath file) = node_of (sw_fs w) (asyncTmpPath file)"
    show ?thesis
      unfolding f using s fl wr on_disk_cong [OF s(2)] world_okD(4) [OF ok] by (simp add: world_ok_def)
  next
    fix e s
    assume f: "flushSync so file now q there w = w\<lparr>sw_texts := insert (sw_data w) (sw_texts w), sw_fs := s,
         sw_file := snap_schedule so now (failed there ((sw_file w)\<lparr>sn_timer := None, sn_version := sn_version (sw_file w) + 1\<rparr>))\<rparr>"
      and s: "write_ok (insert c0 (Some ` insert (sw_data w) (sw_texts w))) file s"
        "node_of s (asyncTmpPath file) = node_of (sw_fs w) (asyncTmpPath file)"
    show ?thesis
      unfolding f using s fl wr on_disk_cong [OF s(2)] world_okD(2,4) [OF ok] by (simp add: world_ok_def)
  qed
qed

lemma world_ok_idle:
  assumes "world_ok c0 file w" "write_ok (insert c0 (Some ` sw_texts w)) file s"
    "sw_flight w' = None" "sw_fs w' = s" "sw_texts w' = sw_texts w" "\<not> sn_writing (sw_file w')"
    "sn_version (sw_file w') = sn_version (sw_file w)" "sn_committed (sw_file w') \<le> sn_version (sw_file w)"
  shows "world_ok c0 file w'"
  using assms by (simp add: world_ok_def)

text \<open>What each continuation of the background write comes to, by the flight's stage.\<close>

lemma bytes_cases:
  assumes ok: "world_ok c0 file w" and fl: "sw_flight w = Some fl" "fl_stage fl = Started"
  obtains (thrown) s where "snap_step so file (BytesWritten now q there) w = background_failed so now there s w"
      "write_ok (insert c0 (Some ` sw_texts w)) file s" "content s file = content (sw_fs w) file"
  | (written) s where "snap_step so file (BytesWritten now q there) w = w\<lparr>sw_fs := s, sw_flight := Some (fl\<lparr>fl_stage := OnDisk\<rparr>)\<rparr>"
      "write_ok (insert c0 (Some ` sw_texts w)) file s" "content s file = content (sw_fs w) file" "on_disk (asyncTmpPath file) (fl_text fl) s"
proof -
  obtain r s where run: "write_async file (fl_text fl) (fs_at now q (sw_fs w)) = (r, s)"
    by (cases "write_async file (fl_text fl) (fs_at now q (sw_fs w))")
  have "write_ok (insert c0 (Some ` sw_texts w)) file (fs_at now q (sw_fs w))"
    using world_okD(1) [OF ok] by simp
  note res = bytes_result [OF this run]
  show thesis
    using that [of s] res run fl by (cases r) (simp_all add: bytes_written_def)
qed

lemma commit_cases:
  assumes ok: "world_ok c0 file w" and fl: "sw_flight w = Some fl" "fl_stage fl = OnDisk"
  obtains (thrown) s where "snap_step so file (Committing now q there) w = background_failed so now there s w"
      "write_ok (insert c0 (Some ` sw_texts w)) file s" "content s file = content (sw_fs w) file"
  | (dropped) s where "\<not> sn_committed (sw_file w) < fl_version fl" "snap_step so file (Committing now q there) w = background_done so now None s w"
      "write_ok (insert c0 (Some ` sw_texts w)) file s" "content s file = content (sw_fs w) file"
  | (current) s where "sn_committed (sw_file w) < fl_version fl"
      "snap_step so file (Committing now q there) w = w\<lparr>sw_fs := s, sw_flight := Some (fl\<lparr>fl_stage := Current\<rparr>)\<rparr>"
      "write_ok (insert c0 (Some ` sw_texts w)) file s" "content s file = Some (fl_text fl)"
proof -
  let ?s = "fs_at now q (sw_fs w)"
  have at: "write_ok (insert c0 (Some ` sw_texts w)) file ?s" "on_disk (asyncTmpPath file) (fl_text fl) ?s"
    "Some (fl_text fl) \<in> insert c0 (Some ` sw_texts w)"
    using world_okD(1,3,4) [OF ok] fl by auto
  have step: "snap_step so file (Committing now q there) w = commit_write so file now q there fl w"
    using fl by simp
  show thesis
  proof (cases "sn_committed (sw_file w) < fl_version fl")
    case True
    obtain r s where run: "commit file (asyncTmpPath file) (so_durable so) 1 ?s = (r, s)"
      by (cases "commit file (asyncTmpPath file) (so_durable so) 1 ?s")
    note res = commit_result [OF at run]
    show thesis
      using thrown [of s] current [of s] res run True unfolding step by (cases r) (simp_all add: commit_write_def)
  next
    case False
    obtain r s where run: "remove_file (asyncTmpPath file) ?s = (r, s)"
      by (cases "remove_file (asyncTmpPath file) ?s")
    note res = drop_result [OF at(1) run]
    show thesis
      using thrown [of s] dropped [of s] res run False unfolding step by (cases r) (simp_all add: commit_write_def)
  qed
qed

lemma dir_cases:
  assumes ok: "world_ok c0 file w" and fl: "sw_flight w = Some fl" "fl_stage fl = Current"
  obtains (thrown) s where "snap_step so file (DirSynced now q there) w = background_failed so now there s w"
      "write_ok (insert c0 (Some ` sw_texts w)) file s" "content s file = content (sw_fs w) file"
  | (synced) s where "snap_step so file (DirSynced now q there) w = background_done so now (Some (fl_version fl)) s w"
      "write_ok (insert c0 (Some ` sw_texts w)) file s" "content s file = content (sw_fs w) file"
proof -
  obtain r s where run: "fsyncDirAsync (fs_at now q (sw_fs w)) = (r, s)"
    by (cases "fsyncDirAsync (fs_at now q (sw_fs w))")
  have "write_ok (insert c0 (Some ` sw_texts w)) file (fs_at now q (sw_fs w))"
    using world_okD(1) [OF ok] by simp
  note res = dir_result [OF this run]
  show thesis
    using that [of s] res run fl by (cases r) (simp_all add: dir_synced_def)
qed

text \<open>An event that finds nothing to do.\<close>

definition no_op :: "snap_event \<Rightarrow> world \<Rightarrow> bool" where
  "no_op e w =
     (case e of
        TimerDue now \<Rightarrow> (case sn_timer (sw_file w) of Some due \<Rightarrow> now < due | None \<Rightarrow> True)
      | BytesWritten now q there \<Rightarrow> (case sw_flight w of Some fl \<Rightarrow> fl_stage fl \<noteq> Started | None \<Rightarrow> True)
      | Committing now q there \<Rightarrow> (case sw_flight w of Some fl \<Rightarrow> fl_stage fl \<noteq> OnDisk | None \<Rightarrow> True)
      | DirSynced now q there \<Rightarrow> (case sw_flight w of Some fl \<Rightarrow> fl_stage fl \<noteq> Current | None \<Rightarrow> True)
      | _ \<Rightarrow> False)"

lemma no_op_step: "no_op e w \<Longrightarrow> snap_step so file e w = w"
  by (cases e) (auto simp: no_op_def split: option.splits)

lemma start_fields:
  assumes "sn_dirty (sw_file w)"
  shows "start_write now w = w\<lparr>sw_file := (sw_file w)\<lparr>sn_timer := None, sn_dirty := False, sn_urgent := False, sn_writing := True,
         sn_lastStart := now, sn_version := sn_version (sw_file w) + 1\<rparr>,
       sw_flight := Some \<lparr>fl_version = sn_version (sw_file w) + 1, fl_text = sw_data w, fl_stage = Started\<rparr>,
       sw_texts := insert (sw_data w) (sw_texts w)\<rparr>"
  using assms by (simp add: start_write_def Let_def)

lemma world_ok_start_write:
  assumes ok: "world_ok c0 file w" and "sn_timer (sw_file w) \<noteq> None"
  shows "world_ok c0 file (start_write now w)"
proof -
  have "write_ok (insert c0 (Some ` insert (sw_data w) (sw_texts w))) file (sw_fs w)"
    by (rule write_ok_mono [OF world_okD(1) [OF ok]]) auto
  then show ?thesis
    using ok world_okD(6) [OF assms] by (simp add: world_ok_def start_write_def Let_def)
qed

lemma world_ok_failed:
  assumes "world_ok c0 file w" "write_ok (insert c0 (Some ` sw_texts w)) file s"
  shows "world_ok c0 file (background_failed so now there s w)"
  using assms by (simp add: world_ok_def)

lemma world_ok_done:
  assumes "world_ok c0 file w" "write_ok (insert c0 (Some ` sw_texts w)) file s" "\<And>n. v = Some n \<Longrightarrow> n \<le> sn_version (sw_file w)"
  shows "world_ok c0 file (background_done so now v s w)"
  using assms by (simp add: world_ok_def split: option.split)

lemma world_ok_stage:
  assumes "world_ok c0 file w" "sw_flight w = Some fl" "write_ok (insert c0 (Some ` sw_texts w)) file s"
    "st = OnDisk \<longrightarrow> on_disk (asyncTmpPath file) (fl_text fl) s"
  shows "world_ok c0 file (w\<lparr>sw_fs := s, sw_flight := Some (fl\<lparr>fl_stage := st\<rparr>)\<rparr>)"
  using assms by (simp add: world_ok_def)

lemma world_ok_step:
  assumes ok: "world_ok c0 file w"
  shows "world_ok c0 file (snap_step so file e w)"
proof (cases "no_op e w")
  case True
  then show ?thesis
    using ok by (simp add: no_op_step)
next
  case False
  show ?thesis
  proof (cases e)
    case (TimerDue now)
    then show ?thesis
      using False world_ok_start_write [OF ok] ok by (auto simp: no_op_def split: option.splits)
  next
    case (BytesWritten now q there)
    then obtain fl where fl: "sw_flight w = Some fl" "fl_stage fl = Started"
      using False by (auto simp: no_op_def split: option.splits)
    show ?thesis
      unfolding BytesWritten using ok fl
      by (cases rule: bytes_cases [OF ok fl, of so now q there]) (simp_all add: world_ok_failed world_ok_stage del: snap_step.simps)
  next
    case (Committing now q there)
    then obtain fl where fl: "sw_flight w = Some fl" "fl_stage fl = OnDisk"
      using False by (auto simp: no_op_def split: option.splits)
    show ?thesis
      unfolding Committing using ok fl
      by (cases rule: commit_cases [OF ok fl, of so now q there]) (auto intro!: world_ok_failed world_ok_done world_ok_stage simp del: snap_step.simps)
  next
    case (DirSynced now q there)
    then obtain fl where fl: "sw_flight w = Some fl" "fl_stage fl = Current"
      using False by (auto simp: no_op_def split: option.splits)
    show ?thesis
      unfolding DirSynced using world_okD(3) [OF ok fl(1)]
      by (cases rule: dir_cases [OF ok fl, of so now q there]) (auto intro!: world_ok_failed world_ok_done ok simp del: snap_step.simps)
  next
    case (Flush now q there)
    then show ?thesis
      using world_ok_flush [OF ok] by simp
  qed (use ok in \<open>simp_all add: world_ok_def\<close>)
qed

lemma world_ok_run: "world_ok c0 file w \<Longrightarrow> world_ok c0 file (snap_run so file es w)"
  by (induction es arbitrary: w) (simp_all add: snap_run_def world_ok_step)

lemma world_ok_start:
  assumes "files_apart file s" "disk_safe {content s file} file (disk_now s)"
  shows "world_ok (content s file) file (snap_start s d)"
  using assms by (simp add: world_ok_def snap_start_def new_snapshot_def write_ok_def files_apart_def disk_now_def look_up_def)

text \<open>What the file holds has reached the disk: every crash leaves it.\<close>

definition stored :: "string \<Rightarrow> fs \<Rightarrow> bool" where
  "stored file s = (\<forall>view. crash_leaves (disk_now s) view \<longrightarrow> view file = content s file)"

text \<open>
  A crash at any moment of a run of saves, whichever calls are refused and however changes, the background write and flushes
  interleave, leaves what the file held at the start or a text that was handed to a write, whole.
\<close>

theorem snapshot_crash_safe:
  assumes "files_apart file s" and before: "stored file s"
    and "w = snap_run so file es (snap_start s d)" "dk \<in> set (disk_now (sw_fs w) # fs_past (sw_fs w))" "crash_leaves dk view"
  shows "view file = content s file \<or> (\<exists>tx \<in> sw_texts w. view file = Some tx)"
proof -
  have "disk_safe {content s file} file (disk_now s)"
    using before by (simp add: disk_safe_iff stored_def)
  then have "world_ok (content s file) file w"
    unfolding assms(3) using assms(1) by (intro world_ok_run world_ok_start)
  then have "disk_safe (insert (content s file) (Some ` sw_texts w)) file dk"
    using assms(4) by (auto simp: world_ok_def write_ok_def disk_ok_def)
  then show ?thesis
    using assms(5) by (auto simp: disk_safe_iff)
qed

section \<open>Nothing pending, nothing unsaved\<close>

text \<open>
  While nothing changed since the last write began: its text is the current data, and it is in the file, or on its way there and
  still wanted.
\<close>

definition nothing_lost :: "string option \<Rightarrow> string \<Rightarrow> string \<Rightarrow> world \<Rightarrow> bool" where
  "nothing_lost c0 d0 file w \<longleftrightarrow>
     (let f = sw_file w;
          saved = (content (sw_fs w) file = Some (sw_data w) \<or> sn_version f = 0 \<and> sw_data w = d0 \<and> content (sw_fs w) file = c0)
      in sn_dirty f \<or>
         (case sw_flight w of
            None \<Rightarrow> saved
          | Some fl \<Rightarrow> if fl_stage fl \<noteq> Current \<and> sn_committed f < fl_version fl then fl_text fl = sw_data w else saved))"

lemma settled_dirty [simp]: "sn_dirty (sw_file w) \<Longrightarrow> nothing_lost c0 d0 file w"
  by (simp add: nothing_lost_def Let_def)

lemma settled_step:
  assumes ok: "world_ok c0 file w" and st: "nothing_lost c1 d0 file w" and there: "folder_there e"
  shows "nothing_lost c1 d0 file (snap_step so file e w)"
proof (cases "no_op e w")
  case True
  then show ?thesis
    using st by (simp add: no_op_step)
next
  case False
  show ?thesis
  proof (cases e)
    case (TimerDue now)
    then have "snap_step so file e w = start_write now w" "sw_flight w = None"
      using False world_okD(6) [OF ok] by (auto simp: no_op_def split: option.splits)
    then show ?thesis
      using st world_okD(2) [OF ok] by (cases "sn_dirty (sw_file w)") (simp_all add: start_write_def Let_def nothing_lost_def)
  next
    case (BytesWritten now q there')
    then obtain fl where fl: "sw_flight w = Some fl" "fl_stage fl = Started"
      using False by (auto simp: no_op_def split: option.splits)
    show ?thesis
      unfolding BytesWritten using st fl there BytesWritten
      by (cases rule: bytes_cases [OF ok fl, of so now q there']) (auto simp: nothing_lost_def Let_def simp del: snap_step.simps)
  next
    case (Committing now q there')
    then obtain fl where fl: "sw_flight w = Some fl" "fl_stage fl = OnDisk"
      using False by (auto simp: no_op_def split: option.splits)
    show ?thesis
      unfolding Committing using st fl there Committing
      by (cases rule: commit_cases [OF ok fl, of so now q there']) (auto simp: nothing_lost_def Let_def simp del: snap_step.simps)
  next
    case (DirSynced now q there')
    then obtain fl where fl: "sw_flight w = Some fl" "fl_stage fl = Current"
      using False by (auto simp: no_op_def split: option.splits)
    show ?thesis
      unfolding DirSynced using st fl there DirSynced
      by (cases rule: dir_cases [OF ok fl, of so now q there']) (auto simp: nothing_lost_def Let_def simp del: snap_step.simps)
  next
    case (Flush now q there')
    have v: "sw_flight w = Some fl \<Longrightarrow> fl_version fl \<le> sn_version (sw_file w)" for fl
      using world_okD(3) [OF ok] by blast
    show ?thesis
      unfolding Flush snap_step.simps using there Flush v
      by (cases rule: flush_cases [OF ok, of so now q there']) (auto simp: nothing_lost_def Let_def split: option.split dest: v)
  qed (simp_all add: nothing_lost_def Let_def)
qed

lemma settled_run:
  assumes "world_ok c0 file w" "nothing_lost c1 d0 file w" "\<forall>e \<in> set es. folder_there e"
  shows "nothing_lost c1 d0 file (snap_run so file es w)"
  using assms by (induction es arbitrary: w) (simp_all add: snap_run_def world_ok_step settled_step)

text \<open>
  C35. While nothing is pending the file holds the current data: no interleaving of changes, failed or dropped background writes and
  flushes loses a change (before the first change the file is as it was found).
\<close>

theorem nothing_pending_saved:
  assumes "files_apart file s" "stored file s"
    and "w = snap_run so file es (snap_start s d)" "\<forall>e \<in> set es. folder_there e" and idle: "\<not> snap_pending (sw_file w)"
  shows "content (sw_fs w) file = Some (sw_data w)
    \<or> sn_version (sw_file w) = 0 \<and> sw_data w = d \<and> content (sw_fs w) file = content s file"
proof -
  have "disk_safe {content s file} file (disk_now s)"
    using assms(2) by (simp add: disk_safe_iff stored_def)
  then have start: "world_ok (content s file) file (snap_start s d)"
    using assms(1) by (intro world_ok_start)
  have "nothing_lost (content s file) d file (snap_start s d)"
    by (simp add: nothing_lost_def snap_start_def new_snapshot_def content_def look_up_def)
  then have "nothing_lost (content s file) d file w" "world_ok (content s file) file w"
    unfolding assms(3) using start assms(4) by (simp_all add: settled_run world_ok_run)
  then show ?thesis
    using idle by (auto simp: nothing_lost_def Let_def snap_pending_def world_ok_def split: option.splits)
qed

section \<open>A flush is not overtaken\<close>

definition starts_write :: "snap_event \<Rightarrow> bool" where
  "starts_write e = (case e of TimerDue now \<Rightarrow> True | Flush now q there \<Rightarrow> True | _ \<Rightarrow> False)"

text \<open>The file holds the text, and what is in flight is older or has been made current already.\<close>

definition holds_text :: "string \<Rightarrow> string \<Rightarrow> world \<Rightarrow> bool" where
  "holds_text file tx w \<longleftrightarrow> content (sw_fs w) file = Some tx
     \<and> (\<forall>fl. sw_flight w = Some fl \<longrightarrow> fl_stage fl = Current \<or> \<not> sn_committed (sw_file w) < fl_version fl)"

lemma holds_text_step:
  assumes ok: "world_ok c0 file w" and h: "holds_text file tx w" and e: "\<not> starts_write e"
  shows "holds_text file tx (snap_step so file e w)"
proof (cases "no_op e w")
  case True
  then show ?thesis
    using h by (simp add: no_op_step)
next
  case False
  show ?thesis
  proof (cases e)
    case (BytesWritten now q there)
    then obtain fl where fl: "sw_flight w = Some fl" "fl_stage fl = Started"
      using False by (auto simp: no_op_def split: option.splits)
    show ?thesis
      unfolding BytesWritten using h fl
      by (cases rule: bytes_cases [OF ok fl, of so now q there]) (auto simp: holds_text_def simp del: snap_step.simps)
  next
    case (Committing now q there)
    then obtain fl where fl: "sw_flight w = Some fl" "fl_stage fl = OnDisk"
      using False by (auto simp: no_op_def split: option.splits)
    show ?thesis
      unfolding Committing using h fl
      by (cases rule: commit_cases [OF ok fl, of so now q there]) (auto simp: holds_text_def simp del: snap_step.simps)
  next
    case (DirSynced now q there)
    then obtain fl where fl: "sw_flight w = Some fl" "fl_stage fl = Current"
      using False by (auto simp: no_op_def split: option.splits)
    show ?thesis
      unfolding DirSynced using h fl
      by (cases rule: dir_cases [OF ok fl, of so now q there]) (auto simp: holds_text_def simp del: snap_step.simps)
  qed (use h e in \<open>simp_all add: holds_text_def starts_write_def\<close>)
qed

lemma holds_text_run:
  assumes "world_ok c0 file w" "holds_text file tx w" "\<forall>e \<in> set es. \<not> starts_write e"
  shows "holds_text file tx (snap_run so file es w)"
  using assms by (induction es arbitrary: w) (simp_all add: snap_run_def world_ok_step holds_text_step)

text \<open>
  A flush that returned is not overtaken: whatever background write was in flight, at whatever point, ends without replacing
  the flushed text by its older one.
\<close>

theorem flush_not_overtaken:
  assumes "files_apart file s" "stored file s"
    and w: "w = snap_run so file es (snap_start s d)"
    and flushed: "writeFileDurable file (sw_data w) (so_durable so) (fs_at now q (sw_fs w)) = (Inr (), s')"
    and later: "\<forall>e \<in> set es'. \<not> starts_write e"
  shows "content (sw_fs (snap_run so file (Flush now q there # es') w)) file = Some (sw_data w)"
proof -
  have "disk_safe {content s file} file (disk_now s)"
    using assms(2) by (simp add: disk_safe_iff stored_def)
  then have ok: "world_ok (content s file) file w"
    unfolding w using assms(1) by (intro world_ok_run world_ok_start)
  have "fl_version fl \<le> sn_version (sw_file w)" if "sw_flight w = Some fl" for fl
    using world_okD(3) [OF ok that] by simp
  then have "holds_text file (sw_data w) (flushSync so file now q there w)"
    by (cases rule: flush_cases [OF ok, of so now q there]) (use flushed in \<open>auto simp: holds_text_def\<close>)
  then have "holds_text file (sw_data w) (snap_run so file es' (flushSync so file now q there w))"
    by (rule holds_text_run [OF world_ok_flush [OF ok] _ later])
  then show ?thesis
    by (simp add: holds_text_def snap_run_def)
qed

section \<open>A write is always coming\<close>

definition longest_wait :: "snapshot_options \<Rightarrow> int" where
  "longest_wait so = max (so_delayMs so) (max (so_intervalMs so) 30000)"

definition timed :: "snapshot_options \<Rightarrow> int \<Rightarrow> snapshot_file \<Rightarrow> bool" where
  "timed so now f \<longleftrightarrow> sn_lastStart f \<le> now \<and> (sn_dirty f \<and> \<not> sn_writing f \<longrightarrow> sn_timer f \<noteq> None)
     \<and> (\<forall>due. sn_timer f = Some due \<longrightarrow> due \<le> now + longest_wait so)"

lemma timed_later: "timed so now f \<Longrightarrow> now \<le> now' \<Longrightarrow> timed so now' f"
  unfolding timed_def by force

lemma timed_schedule:
  assumes "sn_lastStart f \<le> now" "\<And>due. sn_timer f = Some due \<Longrightarrow> due \<le> now + longest_wait so"
  shows "timed so now (snap_schedule so now f)"
  using assms by (auto simp: timed_def snap_schedule_def Let_def longest_wait_def)

lemma timed_step:
  assumes t: "timed so (event_time e) (sw_file w)"
  shows "timed so (event_time e) (sw_file (snap_step so file e w))"
proof -
  have last: "sn_lastStart (sw_file w) \<le> event_time e" and due: "\<And>due. sn_timer (sw_file w) = Some due \<Longrightarrow> due \<le> event_time e + longest_wait so"
    using t by (simp_all add: timed_def)
  have over: "timed so now (write_over so now f)" if "sn_lastStart f \<le> now" "\<And>due. sn_timer f = Some due \<Longrightarrow> due \<le> now + longest_wait so" for f now
    unfolding write_over_def using that by (intro timed_schedule) simp_all
  have fl: "sn_lastStart (failed there f) = sn_lastStart f" for there f
    by (simp add: failed_def)
  have bf: "timed so (event_time e) (sw_file (background_failed so (event_time e) there s w))" for there s
    unfolding background_failed_fields by (rule over) (use last due in \<open>auto simp: fl\<close>)
  have bd: "timed so (event_time e) (sw_file (background_done so (event_time e) v s w))" for v s
    unfolding background_done_def Let_def by (cases v; simp; rule over) (use last due in auto)
  show ?thesis
  proof (cases e)
    case (Change now d)
    then show ?thesis
      using last due by (auto simp: snap_changed_def intro!: timed_schedule)
  next
    case (ChangeNow now d)
    then show ?thesis
      using last due by (auto simp: changedNow_def Let_def intro!: timed_schedule)
  next
    case (TimerDue now)
    then show ?thesis
      using t by (auto simp: start_write_def Let_def timed_def split: option.split)
  next
    case (Flush now q there)
    then show ?thesis
      using last by (auto simp: flushSync_def Let_def fl intro!: timed_schedule split: prod.split sum.split) (simp add: timed_def)
  qed (use t bf bd in \<open>auto simp: bytes_written_def commit_write_def dir_synced_def Let_def split: option.split prod.split sum.split\<close>)
qed

text \<open>
  C36. A change not yet written always has a write coming: while no background write runs the timer is set, and it is due at the
  latest the delay, the interval or 30 seconds of backoff after the last event.
\<close>

theorem write_always_due:
  assumes "sorted (map event_time es)" "\<forall>e \<in> set es. 0 \<le> event_time e"
    and "w = snap_run so file es (snap_start s d)" "sn_dirty (sw_file w)" "\<not> sn_writing (sw_file w)"
  shows "\<exists>due. sn_timer (sw_file w) = Some due \<and> due \<le> (if es = [] then 0 else event_time (last es)) + longest_wait so"
proof -
  have "timed so (if es = [] then now else event_time (last es)) (sw_file (snap_run so file es w'))"
    if "timed so now (sw_file w')" "sorted (now # map event_time es)" for now w'
    using that
  proof (induction es arbitrary: now w')
    case (Cons e es)
    have "timed so (event_time e) (sw_file (snap_step so file e w'))"
      using Cons.prems by (intro timed_step timed_later [OF Cons.prems(1)]) simp
    then show ?case
      using Cons.IH [of "event_time e" "snap_step so file e w'"] Cons.prems(2) by (cases "es = []") (simp_all add: snap_run_def)
  qed (simp add: snap_run_def)
  moreover have "timed so 0 (sw_file (snap_start s d))"
    by (simp add: timed_def snap_start_def new_snapshot_def)
  ultimately have "timed so (if es = [] then 0 else event_time (last es)) (sw_file w)"
    using assms(1,2) unfolding assms(3) by simp
  then show ?thesis
    using assms(4,5) by (auto simp: timed_def)
qed

section \<open>Where urgency goes wrong\<close>

text \<open>
  While saves fail, an urgent change puts the retry off again: the timer it clears is set anew at least a second away, so
  urgent changes that come more often than the backoff keep the retry from ever starting.
\<close>

lemma urgent_changes_postpone_retry:
  assumes "0 < sn_failures f" "\<not> sn_writing f"
  shows "\<exists>due. sn_timer (changedNow so now f) = Some due \<and> now + 1000 \<le> due" "sn_failures (changedNow so now f) = sn_failures f"
    "\<not> sn_writing (changedNow so now f)"
proof -
  have "(500 :: int) * 2 ^ 1 \<le> 500 * 2 ^ sn_failures f"
    using assms(1) by (intro mult_left_mono power_increasing) simp_all
  then show "\<exists>due. sn_timer (changedNow so now f) = Some due \<and> now + 1000 \<le> due"
    using assms by (auto simp: changedNow_def snap_schedule_def Let_def)
qed (use assms in \<open>simp_all add: changedNow_def Let_def\<close>)

text \<open>A flush leaves the urgency of a change it has just written: the next ordinary change is written at once, past the delay and the interval.\<close>

lemma flush_keeps_urgency:
  assumes "writeFileDurable file (sw_data w) (so_durable so) (fs_at now q (sw_fs w)) = (Inr (), s)" "sn_urgent (sw_file w)" "\<not> sn_writing (sw_file w)"
  shows "sn_timer (sw_file (snap_run so file [Flush now q there, Change t d] w)) = Some t"
  using assms by (simp add: snap_run_def flushSync_def Let_def snap_changed_def snap_schedule_def)

section \<open>An example\<close>

definition ex_so :: snapshot_options where
  "ex_so = \<lparr>so_delayMs = 100, so_intervalMs = 1000, so_durable = ex_opts\<rparr>"

definition ex_saved :: "snap_event list" where
  "ex_saved = [Change 2000 ''new'', TimerDue 2100, BytesWritten 2110 [] True, Committing 2120 [] True, DirSynced 2130 [] True]"

lemma ex_found: "stored ''s'' ex_fs"
  using ex_fs_apart(2) by (simp add: stored_def content_def look_up_def) (simp add: ex_fs_def)

definition ex_world :: world where
  "ex_world = snap_run ex_so ''s'' ex_saved (snap_start ex_fs ''old'')"

lemma ex_world_idle: "\<not> snap_pending (sw_file ex_world)" "sn_version (sw_file ex_world) = 1" "sw_data ex_world = ''new''"
  by code_simp+

lemma snapshot_crash_safe_witness:
  "\<forall>dk \<in> set (fs_past (sw_fs ex_world)). \<forall>view. crash_leaves dk view \<longrightarrow>
     view ''s'' = Some ''old'' \<or> (\<exists>tx \<in> sw_texts ex_world. view ''s'' = Some tx)"
proof (intro ballI allI impI)
  fix dk view assume "dk \<in> set (fs_past (sw_fs ex_world))" "crash_leaves dk view"
  then show "view ''s'' = Some ''old'' \<or> (\<exists>tx \<in> sw_texts ex_world. view ''s'' = Some tx)"
    using snapshot_crash_safe [OF ex_fs_apart(1) ex_found ex_world_def, of dk view] by (simp add: content_def look_up_def) (simp add: ex_fs_def)
qed

lemma nothing_pending_saved_witness: "content (sw_fs ex_world) ''s'' = Some ''new''"
  using nothing_pending_saved [OF ex_fs_apart(1) ex_found ex_world_def _ ex_world_idle(1)] ex_world_idle(2,3) by (simp add: ex_saved_def)

lemma flush_not_overtaken_witness:
  "content (sw_fs (snap_run ex_so ''s'' [Flush 7 [] True, Change 8 ''later''] (snap_start ex_fs ''old''))) ''s'' = Some ''old''"
proof -
  let ?w = "snap_start ex_fs ''old''"
  have "disk_safe {content ex_fs ''s''} ''s'' (disk_now ex_fs)"
    using ex_found by (simp add: disk_safe_iff stored_def)
  then have "write_ok (insert (content ex_fs ''s'') (Some ` sw_texts ?w)) ''s'' (sw_fs ?w)"
    using world_okD(1) [OF world_ok_start [OF ex_fs_apart(1)]] by blast
  then have "write_kept (insert (content ex_fs ''s'') (Some ` sw_texts ?w)) ''s'' {''s''} (content (fs_at 7 [] (sw_fs ?w))) {} (node_of (fs_at 7 [] (sw_fs ?w)))
      (fs_at 7 [] (sw_fs ?w))"
    by (intro kept_here(1)) simp
  moreover have "calm False (fs_at 7 [] (sw_fs ?w))"
    by (simp add: calm_def fs_at_def snap_start_def ex_fs_def)
  ultimately obtain s' where "writeFileDurable ''s'' (sw_data ?w) (so_durable ex_so) (fs_at 7 [] (sw_fs ?w)) = (Inr (), s')"
    using calm_write by blast
  then show ?thesis
    using flush_not_overtaken [OF ex_fs_apart(1) ex_found, of ?w ex_so "[]" "''old''" 7 "[]" s' "[Change 8 ''later'']" True]
    by (simp add: snap_run_def starts_write_def) (simp add: snap_start_def)
qed

lemma write_always_due_witness:
  "\<exists>due. sn_timer (sw_file (snap_run ex_so ''s'' [Change 5 ''x''] (snap_start ex_fs ''old''))) = Some due \<and> due \<le> 30005"
proof -
  let ?w = "snap_run ex_so ''s'' [Change 5 ''x''] (snap_start ex_fs ''old'')"
  have "sn_dirty (sw_file ?w)" "\<not> sn_writing (sw_file ?w)"
    by (simp_all add: snap_run_def snap_start_def new_snapshot_def)
  then show ?thesis
    using write_always_due [OF _ _ refl, of "[Change 5 ''x'']" ex_so "''s''" ex_fs "''old''"] by (simp add: longest_wait_def ex_so_def)
qed

end
