(* ===== verification/Placement.thy ===== *)
theory Placement
  imports WorkRules
begin

text \<open>
  Where new work goes (server/placement.ts, with the priorities and the room record of shared/capacity.ts): whether a
  computer has room for a kind of work, which are held or reserved for higher work, and the choice among the others: timed
  work, a first list (Live views, urgent releases), work that changes workflows, and the general order. The counts of a
  computer are integers. A reason for a choice is a constructor that holds the figures it shows, without its words; the
  lists of loads and of busy computers a reason ends with are left out, and so are the Capacity block's other lines.
\<close>

section \<open>Computers\<close>

text \<open>The truth of an optional text: \<open>undefined\<close> and the empty text are false.\<close>

fun said :: "string option \<Rightarrow> bool" where
  "said None = False"
| "said (Some s) = (s \<noteq> [])"

record steam_client =
  st_installed :: bool
  st_running :: bool
  st_accountId :: "nat option"
  st_offline :: bool
  st_notConnected :: "string option"
  st_error :: "string option"

record desktop_session =
  ds_locked :: bool
  ds_away :: bool

record computer =
  cp_id :: string
  cp_online :: bool
  cp_live :: int
  cp_midTurn :: int
  cp_maxAgents :: int
  cp_sandboxes :: int
  cp_maxSandboxes :: int
  cp_freeSandboxes :: int
  cp_memUsed :: "int option"
  cp_memTotal :: "int option"
  cp_editors :: "int option"
  cp_maxEditors :: "int option"
  cp_agentSeats :: "int option"
  cp_workflows :: "bool option"
  cp_timedQueued :: "int option"
  cp_legs :: "string list"
  cp_platform :: "string option"
  cp_steam :: "steam_client option"
  cp_desktop :: "desktop_session option"
  cp_cargoShort :: "string option"
  cp_noTimedRuns :: "string option"
  cp_cpuPct :: "rat option"

abbreviation no_timed :: "computer \<Rightarrow> bool" where
  "no_timed p \<equiv> said (cp_noTimedRuns p)"

datatype size_class = Small | Medium | Large | Xlarge

definition sizeClass :: "int \<Rightarrow> size_class" where
  "sizeClass slots = (if slots \<le> 1 then Small else if slots \<le> 3 then Medium else if slots \<le> 6 then Large else Xlarge)"

fun classRank :: "size_class \<Rightarrow> nat" where
  "classRank Small = 0"
| "classRank Medium = 1"
| "classRank Large = 2"
| "classRank Xlarge = 3"

section \<open>Priorities\<close>

datatype min_priority = MinNormal | MinHigh | MinUrgent

text \<open>A level as the configuration writes it; another text is none (\<open>MIN_PRIORITIES.includes\<close>).\<close>

definition read_min :: "string \<Rightarrow> min_priority option" where
  "read_min s =
     (if s = ''normal'' then Some MinNormal else if s = ''high'' then Some MinHigh
      else if s = ''urgent'' then Some MinUrgent else None)"

fun min_level :: "min_priority \<Rightarrow> nat" where
  "min_level MinNormal = 0"
| "min_level MinHigh = 1"
| "min_level MinUrgent = 2"

fun work_level :: "work_priority \<Rightarrow> nat" where
  "work_level Low = 0"
| "work_level Normal = 0"
| "work_level High = 1"
| "work_level Urgent = 2"

definition admitsPriority :: "min_priority \<Rightarrow> work_priority option \<Rightarrow> bool" where
  "admitsPriority m priority \<longleftrightarrow> min_level m \<le> (case priority of None \<Rightarrow> 0 | Some p \<Rightarrow> work_level p)"

fun order_index :: "work_priority \<Rightarrow> nat" where
  "order_index Low = 0"
| "order_index Normal = 1"
| "order_index High = 2"
| "order_index Urgent = 3"

definition lowestPriority :: "work_priority list \<Rightarrow> work_priority option" where
  "lowestPriority ps =
     foldl (\<lambda>a p. case a of None \<Rightarrow> Some p | Some x \<Rightarrow> if order_index p < order_index x then Some p else a) None ps"

section \<open>The configuration\<close>

text \<open>An object's entries in their order; where a list is absent in the code it is empty here, which the code reads alike.\<close>

record placement_prefs =
  pp_prefer :: "string list"
  pp_avoid :: "(string \<times> string) list"
  pp_hold :: "(string \<times> string) list"
  pp_holdExcept :: "(string \<times> string list) list"
  pp_live :: "string list"
  pp_build :: "string list"
  pp_minPriority :: "(string \<times> string) list"
  pp_priority :: "work_priority option"
  pp_spillAtPercent :: "rat option"

definition forPriority :: "placement_prefs \<Rightarrow> work_priority option \<Rightarrow> placement_prefs" where
  "forPriority prefs priority = (if priority = None then prefs else prefs\<lparr>pp_priority := priority\<rparr>)"

definition placeId :: "string \<Rightarrow> string" where
  "placeId i = lower (trim i)"

text \<open>\<open>new Map(entries)\<close>: of two entries of one key the later counts.\<close>

definition js_map :: "('k \<times> 'v) list \<Rightarrow> ('k \<times> 'v) list" where
  "js_map es = foldl (\<lambda>m (k, v). AList.update k v m) [] es"

definition avoidOf :: "placement_prefs \<Rightarrow> (string \<times> string) list" where
  "avoidOf prefs = js_map (map (\<lambda>(k, v). (placeId k, v)) (pp_avoid prefs))"

definition minOf :: "placement_prefs \<Rightarrow> (string \<times> min_priority) list" where
  "minOf prefs =
     js_map (List.map_filter (\<lambda>(k, v). case read_min v of
         None \<Rightarrow> None | Some MinNormal \<Rightarrow> None | Some m \<Rightarrow> Some (placeId k, m)) (pp_minPriority prefs))"

definition exceptOf :: "placement_prefs \<Rightarrow> string \<Rightarrow> string list" where
  "exceptOf prefs i =
     (case find (\<lambda>(k, _). placeId k = placeId i) (pp_holdExcept prefs) of
        None \<Rightarrow> [] | Some (_, ids) \<Rightarrow> map (\<lambda>x. lower (trim x)) ids)"

text \<open>Why a computer takes no new work: a hold (with the requests it lets through), or a level above the work's.\<close>

datatype hold_why = OnHold string "string list" | ReservedFor min_priority "work_priority option"

definition holdOnly :: "placement_prefs \<Rightarrow> (string \<times> hold_why) list" where
  "holdOnly prefs = js_map (map (\<lambda>(k, v). (placeId k, OnHold v (exceptOf prefs k))) (pp_hold prefs))"

definition reservedReason :: "string \<Rightarrow> placement_prefs \<Rightarrow> hold_why option" where
  "reservedReason i prefs =
     (case map_of (minOf prefs) (placeId i) of
        None \<Rightarrow> None
      | Some m \<Rightarrow> if admitsPriority m (pp_priority prefs) then None else Some (ReservedFor m (pp_priority prefs)))"

definition holdOf :: "placement_prefs \<Rightarrow> (string \<times> hold_why) list" where
  "holdOf prefs =
     foldl (\<lambda>out i.
         case (if map_of out i \<noteq> None then None else reservedReason i prefs) of
           None \<Rightarrow> out | Some why \<Rightarrow> AList.update i why out)
       (holdOnly prefs) (map fst (minOf prefs))"

definition DEFAULT_LIVE :: "string list" where
  "DEFAULT_LIVE = [''beast'']"

definition DEFAULT_BUILD :: "string list" where
  "DEFAULT_BUILD = [''beast'', ''lothdesktop'']"

definition liveOf :: "placement_prefs \<Rightarrow> string list" where
  "liveOf prefs = map placeId (if pp_live prefs \<noteq> [] then pp_live prefs else DEFAULT_LIVE)"

definition buildOf :: "placement_prefs \<Rightarrow> string list" where
  "buildOf prefs = map placeId (if pp_build prefs \<noteq> [] then pp_build prefs else DEFAULT_BUILD)"

definition preferOf :: "placement_prefs \<Rightarrow> string list" where
  "preferOf prefs = map placeId (pp_prefer prefs)"

definition SPILL_AT_PCT :: rat where
  "SPILL_AT_PCT = 50"

definition spillOf :: "placement_prefs \<Rightarrow> rat" where
  "spillOf prefs =
     (case pp_spillAtPercent prefs of
        Some n \<Rightarrow> if 1 \<le> n \<and> n \<le> 100 then n else SPILL_AT_PCT
      | None \<Rightarrow> SPILL_AT_PCT)"

text \<open>
  Why a worker already on a computer does not resume there: its hold, unless one of its requests is let through. A level set
  for new work does not count.
\<close>

datatype resume_hold = PausedFromTray string | HoldNotLifted string

definition holdReason :: "string \<Rightarrow> placement_prefs \<Rightarrow> string list \<Rightarrow> resume_hold option" where
  "holdReason i prefs requests =
     (case map_of (holdOnly prefs) (placeId i) of
        Some (OnHold v ids) \<Rightarrow>
          (let except = exceptOf prefs i
           in if except \<noteq> [] \<and> list_ex (\<lambda>r. lower r \<in> set except) requests then None
              else if has_prefix ''paused from its tray app'' v then Some (PausedFromTray v)
              else Some (HoldNotLifted v))
      | _ \<Rightarrow> None)"

section \<open>Room\<close>

definition RAM_BUSY_PCT :: int where
  "RAM_BUSY_PCT = 85"

definition memPct :: "computer \<Rightarrow> int option" where
  "memPct p =
     (case (cp_memTotal p, cp_memUsed p) of
        (Some t, Some u) \<Rightarrow> if t \<noteq> 0 then Some (js_round (100 * of_int u / of_int t)) else None
      | _ \<Rightarrow> None)"

datatype busy_reason = Offline | AgentCap int int | RamHigh int | NoSandbox int int | NoSeat

definition busyReasons :: "computer \<Rightarrow> busy_reason list" where
  "busyReasons p =
     (if cp_online p then [] else [Offline])
     @ (if cp_maxAgents p \<le> cp_midTurn p then [AgentCap (cp_midTurn p) (cp_maxAgents p)] else [])
     @ (case memPct p of Some pct \<Rightarrow> if RAM_BUSY_PCT \<le> pct then [RamHigh pct] else [] | None \<Rightarrow> [])
     @ (if cp_freeSandboxes p = 0 \<and> cp_maxSandboxes p \<le> cp_sandboxes p
        then [NoSandbox (cp_sandboxes p) (cp_maxSandboxes p)] else [])"

definition hasRoom :: "computer \<Rightarrow> bool" where
  "hasRoom p \<longleftrightarrow> busyReasons p = []"

definition agentBusyReasons :: "computer \<Rightarrow> busy_reason list" where
  "agentBusyReasons p =
     (if cp_online p then [] else [Offline])
     @ (if cp_maxAgents p \<le> cp_midTurn p then [AgentCap (cp_midTurn p) (cp_maxAgents p)] else [])
     @ (case cp_agentSeats p of Some n \<Rightarrow> if n \<le> 0 then [NoSeat] else [] | None \<Rightarrow> [])"

definition hasAgentRoom :: "computer \<Rightarrow> bool" where
  "hasAgentRoom p \<longleftrightarrow> agentBusyReasons p = []"

datatype need_kind = Game | Agent

fun hasRoomFor :: "computer \<Rightarrow> need_kind \<Rightarrow> bool" where
  "hasRoomFor p Game = hasRoom p"
| "hasRoomFor p Agent = hasAgentRoom p"

text \<open>How many more workers of a kind a computer with room takes.\<close>

definition slotsOf :: "computer \<Rightarrow> need_kind \<Rightarrow> int" where
  "slotsOf p kind =
     (let left = cp_maxAgents p - cp_midTurn p;
          n = (case kind of
                 Game \<Rightarrow> min (cp_freeSandboxes p + max 0 (cp_maxSandboxes p - cp_sandboxes p)) left
               | Agent \<Rightarrow> min (case cp_agentSeats p of Some s \<Rightarrow> s | None \<Rightarrow> left) left)
      in max 1 n)"

text \<open>
  The mean of a computer's free shares, from 0 to 1. Without a limit on sandboxes the share of those is a division by zero,
  which is infinite where one is free, and the mean with it.
\<close>

definition clamp01 :: "rat \<Rightarrow> rat" where
  "clamp01 x = max 0 (min 1 x)"

definition room_shares :: "computer \<Rightarrow> rat list" where
  "room_shares p =
     [1 - of_int (cp_live p) / of_int (cp_maxAgents p),
      of_int (cp_freeSandboxes p + max 0 (cp_maxSandboxes p - cp_sandboxes p)) / of_int (cp_maxSandboxes p)]
     @ (case memPct p of Some pct \<Rightarrow> [1 - of_int pct / 100] | None \<Rightarrow> [])
     @ (case cp_maxEditors p of
          Some m \<Rightarrow> if m \<noteq> 0 then [max 0 (1 - of_int (case cp_editors p of Some e \<Rightarrow> e | None \<Rightarrow> 0) / of_int m)] else []
        | None \<Rightarrow> [])"

definition roomOf :: "computer \<Rightarrow> rat" where
  "roomOf p =
     (if \<not> hasRoom p then 0
      else if cp_maxSandboxes p = 0 then 1
      else clamp01 (sum_list (room_shares p) / of_nat (length (room_shares p))))"

definition agentRoomOf :: "computer \<Rightarrow> rat" where
  "agentRoomOf p = (if hasAgentRoom p then clamp01 (1 - of_int (cp_midTurn p) / of_int (cp_maxAgents p)) else 0)"

fun room_score :: "computer \<Rightarrow> need_kind \<Rightarrow> rat" where
  "room_score p Game = roomOf p"
| "room_score p Agent = agentRoomOf p"

text \<open>How full a computer is for the spill tiers, in percent.\<close>

definition loadOf :: "computer \<Rightarrow> rat" where
  "loadOf p =
     (let agents = (if 0 < cp_maxAgents p then js_round (100 * of_int (cp_midTurn p) / of_int (cp_maxAgents p)) else 100)
      in max (of_int agents) (case cp_cpuPct p of Some c \<Rightarrow> c | None \<Rightarrow> 0))"

end
