(* ===== verification/PlacePick.thy ===== *)
theory PlacePick
  imports Placement
begin

text \<open>
  The choice of a computer for a piece of new work (pickComputer and what it is made of, server/placement.ts), the room
  the portal reports beside it (roomNow), and the note made when work goes elsewhere (placementHint).
\<close>

section \<open>Timed work\<close>

definition MAX_SAFE_INTEGER :: int where
  "MAX_SAFE_INTEGER = 9007199254740991"

definition queuedTimed :: "computer \<Rightarrow> int" where
  "queuedTimed p = (case cp_timedQueued p of Some n \<Rightarrow> n | None \<Rightarrow> 0) + int (length (cp_legs p))"

definition preferAt :: "placement_prefs \<Rightarrow> computer \<Rightarrow> int" where
  "preferAt prefs p = int (if cp_id p \<in> set (preferOf prefs) then position (cp_id p) (preferOf prefs) else length (preferOf prefs))"

text \<open>A platform asked for, \<open>None\<close> where the work names none.\<close>

definition on_platform :: "string option \<Rightarrow> computer \<Rightarrow> bool" where
  "on_platform platform p \<longleftrightarrow> \<not> said platform \<or> cp_platform p = platform"

definition timed_ok :: "placement_prefs \<Rightarrow> string option \<Rightarrow> computer \<Rightarrow> bool" where
  "timed_ok prefs platform p \<longleftrightarrow>
     hasRoom p \<and> map_of (holdOf prefs) (cp_id p) = None \<and> map_of (avoidOf prefs) (cp_id p) = None
     \<and> \<not> no_timed p \<and> on_platform platform p"

definition timed_key :: "placement_prefs \<Rightarrow> computer \<Rightarrow> int list" where
  "timed_key prefs p =
     [cp_maxAgents p, case cp_maxEditors p of Some m \<Rightarrow> m | None \<Rightarrow> MAX_SAFE_INTEGER, cp_live p, queuedTimed p, preferAt prefs p]"

definition timed_cmp :: "placement_prefs \<Rightarrow> computer \<Rightarrow> computer \<Rightarrow> int" where
  "timed_cmp prefs a b = cmp_or (cmp_list (timed_key prefs a) (timed_key prefs b)) (locale_compare (cp_id a) (cp_id b))"

definition timedRank :: "computer list \<Rightarrow> placement_prefs \<Rightarrow> string option \<Rightarrow> computer list" where
  "timedRank places prefs platform = js_sort (timed_cmp prefs) (filter (timed_ok prefs platform) places)"

text \<open>Timed work on any platform, or on the one its words name.\<close>

datatype timed_kind = TimedAny | TimedOn string

fun timed_platform :: "timed_kind \<Rightarrow> string option" where
  "timed_platform TimedAny = None"
| "timed_platform (TimedOn s) = Some s"

datatype first_kind = FirstLive | FirstBuild | FirstTimed timed_kind

text \<open>The refusal of timed work pinned to a computer that takes none, with where it may go: those ranked, then those without room.\<close>

definition timedPinRefusal ::
    "string \<Rightarrow> computer list \<Rightarrow> placement_prefs \<Rightarrow> timed_kind \<Rightarrow> (string \<times> computer list \<times> computer list) option" where
  "timedPinRefusal target places prefs t =
     (case find (\<lambda>p. cp_id p = placeId target) places of
        None \<Rightarrow> None
      | Some here \<Rightarrow>
          if \<not> no_timed here then None
          else let ranked = timedRank places prefs (timed_platform t)
               in Some (cp_id here, ranked,
                    filter (\<lambda>p. cp_online p \<and> \<not> no_timed p \<and> on_platform (timed_platform t) p \<and> p \<notin> set ranked) places))"

record timed_facts =
  tf_noTimed :: "(string \<times> string) list"
  tf_takes :: "string list"

definition online_first :: "computer \<Rightarrow> computer \<Rightarrow> int" where
  "online_first a b =
     cmp_or (cmp_num (of_bool (cp_online b)) (of_bool (cp_online a) :: int))
       (cmp_or (cmp_num (cp_maxAgents a) (cp_maxAgents b)) (locale_compare (cp_id a) (cp_id b)))"

definition timedFacts :: "computer list \<Rightarrow> placement_prefs \<Rightarrow> timed_kind \<Rightarrow> timed_facts" where
  "timedFacts places prefs t =
     (let ranked = timedRank places prefs (timed_platform t);
          rest = js_sort online_first
            (filter (\<lambda>p. \<not> no_timed p \<and> on_platform (timed_platform t) p \<and> p \<notin> set ranked) places)
      in \<lparr>tf_noTimed = js_map (map (\<lambda>p. (cp_id p, the (cp_noTimedRuns p))) (filter no_timed places)),
          tf_takes = map cp_id (ranked @ rest)\<rparr>)"

text \<open>What timed work passed over and why.\<close>

datatype skip_why = SkipHeld hold_why | SkipAvoided string | SkipBusy "busy_reason list" | SkipOffline | SkipUnknown

definition timedSkipped :: "computer list \<Rightarrow> placement_prefs \<Rightarrow> string option \<Rightarrow> (string \<times> skip_why) list" where
  "timedSkipped places prefs platform =
     List.map_filter (\<lambda>p.
       if no_timed p \<or> \<not> on_platform platform p then None
       else case map_of (holdOf prefs) (cp_id p) of
         Some h \<Rightarrow> Some (cp_id p, SkipHeld h)
       | None \<Rightarrow>
           (case map_of (avoidOf prefs) (cp_id p) of
              Some v \<Rightarrow> Some (cp_id p, SkipAvoided v)
            | None \<Rightarrow>
                if hasRoom p then None
                else Some (cp_id p, if cp_online p then SkipBusy (busyReasons p) else SkipOffline))) places"

section \<open>The spread by room\<close>

definition EVEN_MARGIN :: rat where
  "EVEN_MARGIN = 1 / 10"

datatype spread_why = OnlyOne | MostRoom rat rat | FewerLive int int | TookLast string | TakingTurns

definition spread_cmp :: "need_kind \<Rightarrow> computer \<Rightarrow> computer \<Rightarrow> int" where
  "spread_cmp kind a b = cmp_num (room_score b kind) (room_score a kind)"

text \<open>\<open>last\<close> is the computer the last piece of work went to. (Called with at least one computer.)\<close>

fun spread_sorted :: "string option \<Rightarrow> need_kind \<Rightarrow> computer list \<Rightarrow> (computer \<times> spread_why) option" where
  "spread_sorted l kind [] = None"
| "spread_sorted l kind [a] = Some (a, OnlyOne)"
| "spread_sorted l kind (a # b # _) =
     Some (if EVEN_MARGIN \<le> room_score a kind - room_score b kind then (a, MostRoom (room_score a kind) (room_score b kind))
       else if cp_live a < cp_live b then (a, FewerLive (cp_live a) (cp_live b))
       else if cp_live b < cp_live a then (b, FewerLive (cp_live b) (cp_live a))
       else let next = (if l = Some (cp_id a) then b else a);
                other = (if l = Some (cp_id a) then a else b)
            in (next, if l = Some (cp_id other) then TookLast (cp_id other) else TakingTurns))"

definition spread :: "computer list \<Rightarrow> string option \<Rightarrow> need_kind \<Rightarrow> (computer \<times> spread_why) option" where
  "spread opened l kind = spread_sorted l kind (js_sort (spread_cmp kind) opened)"

section \<open>The general placement\<close>

datatype place_why =
    TimedSmallest "computer list"
  | TimedElsewhere place_why "(string \<times> skip_why) list"
  | FirstInList first_kind "string list"
  | FirstPassed "(string \<times> skip_why) list" place_why
  | MayPushWorkflows place_why
  | NoneMayPush bool place_why
  | SpilledPast "string list" rat
  | PreferredFirst
  | OverflowUnder spread_why
  | PreferredAtCapacity
  | BySpread spread_why
  | OnlyAvoided string spread_why

definition is_open :: "placement_prefs \<Rightarrow> need_kind \<Rightarrow> computer \<Rightarrow> bool" where
  "is_open prefs kind p \<longleftrightarrow> hasRoomFor p kind \<and> map_of (holdOf prefs) (cp_id p) = None"

text \<open>The preferred computers among those usable, each name's first computer.\<close>

definition preferred_in :: "placement_prefs \<Rightarrow> computer list \<Rightarrow> computer list" where
  "preferred_in prefs usable = List.map_filter (\<lambda>i. find (\<lambda>p. cp_id p = i) usable) (preferOf prefs)"

definition tiers :: "placement_prefs \<Rightarrow> bool" where
  "tiers prefs \<longleftrightarrow> spillOf prefs < 100 \<and> preferOf prefs \<noteq> []"

definition under_spill :: "placement_prefs \<Rightarrow> computer \<Rightarrow> bool" where
  "under_spill prefs p \<longleftrightarrow> tiers prefs \<and> loadOf p < spillOf prefs"

definition by_spread :: "(spread_why \<Rightarrow> place_why) \<Rightarrow> (computer \<times> spread_why) option \<Rightarrow> (computer \<times> place_why) option" where
  "by_spread f = map_option (\<lambda>(p, w). (p, f w))"

definition pick_general :: "computer list \<Rightarrow> string option \<Rightarrow> placement_prefs \<Rightarrow> need_kind \<Rightarrow> (computer \<times> place_why) option" where
  "pick_general places l prefs kind =
     (let opened = filter (is_open prefs kind) places;
          usable = filter (\<lambda>p. map_of (avoidOf prefs) (cp_id p) = None) opened;
          preferred = preferred_in prefs usable;
          overflow = filter (\<lambda>p. cp_id p \<notin> set (preferOf prefs)) usable;
          light = filter (under_spill prefs) overflow
      in if opened = [] then None
         else case find (under_spill prefs) preferred of
           Some p \<Rightarrow>
             (let past = map cp_id (takeWhile (\<lambda>q. q \<noteq> p) preferred)
              in Some (p, if past \<noteq> [] then SpilledPast past (spillOf prefs) else PreferredFirst))
         | None \<Rightarrow>
             if light \<noteq> [] then by_spread OverflowUnder (spread light l kind)
             else if preferred \<noteq> [] then Some (hd preferred, PreferredAtCapacity)
             else if usable \<noteq> [] then by_spread BySpread (spread usable l kind)
             else (case spread opened l kind of
                     None \<Rightarrow> None
                   | Some (p, w) \<Rightarrow> Some (p, OnlyAvoided (the (map_of (avoidOf prefs) (cp_id p))) w)))"

text \<open>Work that changes workflows: first among the computers that may push them.\<close>

definition pick_workflows :: "computer list \<Rightarrow> string option \<Rightarrow> placement_prefs \<Rightarrow> need_kind \<Rightarrow> (computer \<times> place_why) option" where
  "pick_workflows places l prefs kind =
     (let able = filter (\<lambda>p. cp_workflows p = Some True) places
      in case pick_general able l prefs kind of
           Some (p, w) \<Rightarrow> Some (p, MayPushWorkflows w)
         | None \<Rightarrow> map_option (\<lambda>(p, w). (p, NoneMayPush (able \<noteq> []) w)) (pick_general places l prefs kind))"

definition pick_plain ::
    "bool \<Rightarrow> computer list \<Rightarrow> string option \<Rightarrow> placement_prefs \<Rightarrow> need_kind \<Rightarrow> (computer \<times> place_why) option" where
  "pick_plain workflows = (if workflows then pick_workflows else pick_general)"

section \<open>Every kind of work\<close>

definition pickTimed :: "computer list \<Rightarrow> placement_prefs \<Rightarrow> timed_kind \<Rightarrow> (computer \<times> place_why) option" where
  "pickTimed places prefs t =
     (case timedRank places prefs (timed_platform t) of [] \<Rightarrow> None | p # ps \<Rightarrow> Some (p, TimedSmallest (p # ps)))"

fun first_list :: "first_kind \<Rightarrow> placement_prefs \<Rightarrow> string list" where
  "first_list FirstLive prefs = liveOf prefs"
| "first_list FirstBuild prefs = buildOf prefs"
| "first_list (FirstTimed _) prefs = []"

text \<open>The list in its order: the first computer of it that may take the work, or why each was passed.\<close>

fun first_of ::
    "computer list \<Rightarrow> placement_prefs \<Rightarrow> string list \<Rightarrow> (string \<times> skip_why) list + computer" where
  "first_of places prefs [] = Inl []"
| "first_of places prefs (i # is) =
     (let skip = (\<lambda>w. case first_of places prefs is of Inl ss \<Rightarrow> Inl ((i, w) # ss) | Inr p \<Rightarrow> Inr p)
      in case find (\<lambda>p. cp_id p = i) places of
           None \<Rightarrow> skip SkipUnknown
         | Some p \<Rightarrow>
             (case map_of (holdOf prefs) i of
                Some h \<Rightarrow> skip (SkipHeld h)
              | None \<Rightarrow>
                  (case map_of (avoidOf prefs) i of
                     Some v \<Rightarrow> skip (SkipAvoided v)
                   | None \<Rightarrow> if hasRoom p then Inr p else skip (SkipBusy (busyReasons p)))))"

definition pickComputer ::
    "computer list \<Rightarrow> string option \<Rightarrow> placement_prefs \<Rightarrow> need_kind \<Rightarrow> bool \<Rightarrow> first_kind option \<Rightarrow> (computer \<times> place_why) option" where
  "pickComputer places l prefs kind workflows first =
     (if kind \<noteq> Game then pick_plain workflows places l prefs kind
      else case first of
        None \<Rightarrow> pick_plain workflows places l prefs kind
      | Some (FirstTimed t) \<Rightarrow>
          (case pickTimed places prefs t of
             Some r \<Rightarrow> Some r
           | None \<Rightarrow>
               map_option (\<lambda>(p, w). (p, TimedElsewhere w (timedSkipped places prefs (timed_platform t))))
                 (pick_plain workflows (filter (\<lambda>p. \<not> no_timed p) places) l prefs kind))
      | Some f \<Rightarrow>
          (case first_of places prefs (first_list f prefs) of
             Inr p \<Rightarrow> Some (p, FirstInList f (first_list f prefs))
           | Inl skipped \<Rightarrow>
               map_option (\<lambda>(p, w). (p, FirstPassed skipped w)) (pick_plain workflows places l prefs kind)))"

section \<open>The room reported\<close>

record room_fit =
  rf_platform :: "string option"
  rf_noTimedRuns :: "string option"
  rf_steam :: "steam_client option"
  rf_desktop :: "desktop_session option"
  rf_cargoShort :: "string option"

definition fit_of :: "computer \<Rightarrow> room_fit" where
  "fit_of p =
     \<lparr>rf_platform = (if said (cp_platform p) then cp_platform p else None),
      rf_noTimedRuns = (if no_timed p then cp_noTimedRuns p else None),
      rf_steam = cp_steam p, rf_desktop = cp_desktop p,
      rf_cargoShort = (if said (cp_cargoShort p) then cp_cargoShort p else None)\<rparr>"

record room_now =
  rn_game :: "string list"
  rn_agent :: "string list"
  rn_held :: "(string \<times> hold_why \<times> need_kind list) list"
  rn_reserved :: "(string \<times> min_priority \<times> need_kind list) list"
  rn_fit :: "(string \<times> room_fit) list"
  rn_slots :: "((need_kind \<times> string) \<times> int) list"

definition no_room :: room_now where
  "no_room = \<lparr>rn_game = [], rn_agent = [], rn_held = [], rn_reserved = [], rn_fit = [], rn_slots = []\<rparr>"

text \<open>One computer of \<open>roomNow\<close>'s loop.\<close>

definition room_step :: "placement_prefs \<Rightarrow> computer \<Rightarrow> room_now \<Rightarrow> room_now" where
  "room_step prefs p out =
     (let kinds = filter (hasRoomFor p) [Game, Agent]
      in if kinds = [] then out
         else
           let out = out\<lparr>rn_slots := foldl (\<lambda>s k. AList.update (k, cp_id p) (slotsOf p k) s) (rn_slots out) kinds,
                         rn_fit := AList.update (cp_id p) (fit_of p) (rn_fit out)\<rparr>
           in case map_of (holdOnly prefs) (cp_id p) of
                Some why \<Rightarrow> out\<lparr>rn_held := rn_held out @ [(cp_id p, why, kinds)]\<rparr>
              | None \<Rightarrow>
                  (case map_of (minOf prefs) (cp_id p) of
                     Some m \<Rightarrow> out\<lparr>rn_reserved := rn_reserved out @ [(cp_id p, m, kinds)]\<rparr>
                   | None \<Rightarrow>
                       out\<lparr>rn_game := rn_game out @ (if Game \<in> set kinds then [cp_id p] else []),
                           rn_agent := rn_agent out @ (if Agent \<in> set kinds then [cp_id p] else [])\<rparr>))"

definition roomNow :: "computer list \<Rightarrow> placement_prefs \<Rightarrow> room_now" where
  "roomNow places prefs = foldl (\<lambda>out p. room_step prefs p out) no_room places"

definition roomIds :: "room_now \<Rightarrow> need_kind \<Rightarrow> work_priority option \<Rightarrow> string list" where
  "roomIds r kind priority =
     (case kind of Game \<Rightarrow> rn_game r | Agent \<Rightarrow> rn_agent r)
     @ map fst (filter (\<lambda>(_, m, ks). kind \<in> set ks \<and> admitsPriority m priority) (rn_reserved r))"

section \<open>The note when work goes elsewhere\<close>

datatype place_hint =
    CannotPush string "bool option" "string option"
  | HeldThere hold_why string
  | AvoidedThere string string
  | BusyThere "busy_reason list" string
  | LessRoomThere rat string

definition hint_state :: "computer \<Rightarrow> need_kind \<Rightarrow> string \<Rightarrow> place_hint" where
  "hint_state here kind to =
     (let busy = filter (\<lambda>w. w \<noteq> Offline) (case kind of Game \<Rightarrow> busyReasons here | Agent \<Rightarrow> agentBusyReasons here)
      in if busy \<noteq> [] then BusyThere busy to else LessRoomThere (room_score here kind) to)"

text \<open>A hold without a reason is an empty text, which reads as none.\<close>

fun hold_said :: "hold_why \<Rightarrow> bool" where
  "hold_said (OnHold v ids) = (v \<noteq> [] \<or> ids \<noteq> [])"
| "hold_said (ReservedFor _ _) = True"

definition placementHint ::
    "string \<Rightarrow> computer list \<Rightarrow> string option \<Rightarrow> placement_prefs \<Rightarrow> need_kind \<Rightarrow> bool \<Rightarrow> first_kind option \<Rightarrow> place_hint option" where
  "placementHint target places l prefs kind workflows first =
     (case find (\<lambda>p. cp_id p = target) places of
        None \<Rightarrow> None
      | Some here \<Rightarrow>
          let pick = pickComputer places l prefs kind workflows first
          in if workflows \<and> cp_workflows here \<noteq> Some True then
               Some (CannotPush target (cp_workflows here)
                 (case pick of
                    Some (p, _) \<Rightarrow> if cp_id p \<noteq> target \<and> cp_workflows p = Some True then Some (cp_id p) else None
                  | None \<Rightarrow> None))
             else case pick of
               None \<Rightarrow> None
             | Some (p, _) \<Rightarrow>
                 if cp_id p = target then None
                 else if (case map_of (holdOf prefs) target of Some h \<Rightarrow> hold_said h | None \<Rightarrow> False) then
                   Some (HeldThere (the (map_of (holdOf prefs) target)) (cp_id p))
                 else if said (map_of (avoidOf prefs) target) then
                   Some (AvoidedThere (the (map_of (avoidOf prefs) target)) (cp_id p))
                 else Some (hint_state here kind (cp_id p)))"

end
