(* ===== verification/PlaceProps.thy ===== *)
theory PlaceProps
  imports PlacePick
begin

text \<open>
  What holds of the choice of a computer: what a hold, a level and a ban on timed runs mean for it, that work is placed
  exactly when a computer is open to it, that the room reported agrees with the choice, and which of the open computers is
  taken. The locale \<open>picker\<close> is what every choice keeps, whichever list it looks at first.
\<close>

section \<open>Names and holds\<close>

lemma js_map_lookup: "map_of (js_map es) k = map_of (rev es) k"
proof -
  have "js_map es = fold (\<lambda>(k, v). AList.update k v) es []"
    by (simp add: js_map_def foldl_conv_fold case_prod_beta')
  then show ?thesis
    using al.get_put_all [of es "[]" k] by (simp split: option.splits)
qed

lemma js_map_keys: "k \<in> fst ` set (js_map es) \<longleftrightarrow> k \<in> fst ` set es"
proof -
  have "k \<in> fst ` set (js_map es) \<longleftrightarrow> map_of (js_map es) k \<noteq> None"
    by (simp add: map_of_eq_None_iff)
  also have "\<dots> \<longleftrightarrow> k \<in> fst ` set es"
    by (simp add: js_map_lookup map_of_eq_None_iff)
  finally show ?thesis .
qed

lemma is_ws_lower [simp]: "is_ws (lower_char c) = is_ws c"
proof (cases "is_upper c")
  case True
  then have "code (lower_char c) = code c + 32"
    by (simp add: lower_char_def is_upper_def)
  with True show ?thesis
    by (auto simp: is_ws_def is_upper_def)
qed (simp add: lower_char_def)

lemma drop_ws_id: "s = [] \<or> \<not> is_ws (hd s) \<Longrightarrow> drop_ws s = s"
  by (cases s) auto

lemma drop_ws_hd: "drop_ws s = [] \<or> \<not> is_ws (hd (drop_ws s))"
  by (induction s) auto

lemma drop_ws_suffix: "\<exists>t. s = t @ drop_ws s"
  by (induction s) (auto intro: exI [of _ "[]"], metis append_Cons)

definition trimmed :: "string \<Rightarrow> bool" where
  "trimmed s \<longleftrightarrow> s = [] \<or> \<not> is_ws (hd s) \<and> \<not> is_ws (last s)"

lemma trim_id: "trimmed s \<Longrightarrow> trim s = s"
  by (auto simp: trimmed_def trim_def drop_ws_id hd_rev)

lemma trimmed_trim: "trimmed (trim s)"
proof -
  define u where "u = drop_ws s"
  define v where "v = drop_ws (rev u)"
  obtain t where t: "rev u = t @ v"
    using drop_ws_suffix [of "rev u"] v_def by blast
  then have u: "u = rev v @ rev t"
    by (metis rev_append rev_rev_ident)
  show ?thesis
  proof (cases "v = []")
    case False
    then have "\<not> is_ws (hd v)" "\<not> is_ws (hd u)"
      using drop_ws_hd [of "rev u", folded v_def] drop_ws_hd [of s, folded u_def] u by (blast, simp)
    moreover have "hd u = hd (rev v)"
      using False by (simp add: u)
    ultimately show ?thesis
      using False by (simp add: trimmed_def trim_def u_def [symmetric] v_def [symmetric] last_rev)
  qed (simp add: trimmed_def trim_def u_def [symmetric] v_def [symmetric])
qed

lemma placeId_idem [simp]: "placeId (placeId i) = placeId i"
proof -
  have "trimmed (lower (trim i))"
    using trimmed_trim [of i] by (auto simp: trimmed_def hd_map last_map)
  then show ?thesis
    by (simp add: placeId_def trim_id)
qed

lemma minOf_placed: "map_of (minOf prefs) i = Some m \<Longrightarrow> placeId i = i"
proof -
  assume "map_of (minOf prefs) i = Some m"
  then have "i \<in> fst ` set (minOf prefs)"
    by (metis map_of_eq_None_iff option.distinct(1))
  then show ?thesis
    unfolding minOf_def js_map_keys by (auto simp: List.map_filter_def split: option.splits min_priority.splits)
qed

text \<open>What a hold of new work is: a hold of the configuration, else a level the work does not reach.\<close>

definition why_held :: "placement_prefs \<Rightarrow> string \<Rightarrow> hold_why option" where
  "why_held prefs i =
     (case map_of (holdOnly prefs) i of
        Some h \<Rightarrow> Some h
      | None \<Rightarrow>
          (case map_of (minOf prefs) i of
             None \<Rightarrow> None
           | Some m \<Rightarrow> if admitsPriority m (pp_priority prefs) then None else Some (ReservedFor m (pp_priority prefs))))"

lemma holdOf_lookup: "map_of (holdOf prefs) i = why_held prefs i"
proof -
  define step where "step = (\<lambda>out j. case (if map_of out j \<noteq> None then None else reservedReason j prefs) of
      None \<Rightarrow> out | Some why \<Rightarrow> AList.update j why out)"
  have "map_of (foldl step out js) i =
      (case map_of out i of Some h \<Rightarrow> Some h | None \<Rightarrow> if i \<in> set js then reservedReason i prefs else None)" for out js
    by (induction js arbitrary: out) (auto simp: step_def update_conv' split: option.splits)
  then have "map_of (holdOf prefs) i =
      (case map_of (holdOnly prefs) i of Some h \<Rightarrow> Some h
       | None \<Rightarrow> if i \<in> set (map fst (minOf prefs)) then reservedReason i prefs else None)"
    unfolding holdOf_def step_def .
  moreover have "i \<in> set (map fst (minOf prefs)) \<longleftrightarrow> map_of (minOf prefs) i \<noteq> None"
    by (simp add: map_of_eq_None_iff)
  ultimately show ?thesis
    using minOf_placed [of prefs i] by (auto simp: why_held_def reservedReason_def split: option.splits)
qed

lemma why_heldD:
  assumes "why_held prefs i = None"
  shows "(k, v) \<in> set (pp_hold prefs) \<Longrightarrow> placeId k \<noteq> i"
    and "map_of (minOf prefs) i = Some m \<Longrightarrow> admitsPriority m (pp_priority prefs)"
proof -
  have "map_of (holdOnly prefs) i = None"
    using assms by (auto simp: why_held_def split: option.splits)
  then have "i \<notin> fst ` set (holdOnly prefs)"
    by (simp add: map_of_eq_None_iff)
  then show "(k, v) \<in> set (pp_hold prefs) \<Longrightarrow> placeId k \<noteq> i"
    unfolding holdOnly_def js_map_keys by force
  show "map_of (minOf prefs) i = Some m \<Longrightarrow> admitsPriority m (pp_priority prefs)"
    using assms by (auto simp: why_held_def split: option.splits if_splits)
qed

section \<open>What every choice keeps\<close>

text \<open>A choice among computers takes one that is fit for the work, and none only when there is none.\<close>

locale picker =
  fixes fits :: "computer \<Rightarrow> bool"
    and pick :: "computer list \<Rightarrow> (computer \<times> 'w) option"
  assumes picked: "pick ps = Some (p, w) \<Longrightarrow> p \<in> set ps \<and> fits p"
    and none_picked: "pick ps = None \<longleftrightarrow> (\<forall>p \<in> set ps. \<not> fits p)"
begin

text \<open>The same choice with another reason, among those of some kind, or first among those of some kind.\<close>

lemma reworded: "picker fits (\<lambda>ps. map_option (\<lambda>(p, w). (p, f ps w)) (pick ps))"
  by unfold_locales (auto simp: none_picked dest: picked)

lemma picked_among: "picker (\<lambda>p. fits p \<and> P p) (\<lambda>ps. pick (filter P ps))"
  by unfold_locales (auto simp: none_picked dest: picked)

lemma first_among:
  "picker fits (\<lambda>ps. case pick (filter P ps) of Some (p, w) \<Rightarrow> Some (p, f w) | None \<Rightarrow> map_option (\<lambda>(p, w). (p, g ps w)) (pick ps))"
  by unfold_locales (fastforce simp: none_picked dest: picked split: option.splits)+

lemma first_else:
  assumes "\<And>ps p. first ps = Some p \<Longrightarrow> fst p \<in> set ps \<and> fits (fst p)"
  shows "picker fits (\<lambda>ps. case first ps of Some r \<Rightarrow> Some r | None \<Rightarrow> map_option (\<lambda>(p, w). (p, g ps w)) (pick ps))"
  using assms by unfold_locales (fastforce simp: none_picked dest: picked split: option.splits)+

end

lemma spread_sorted_in: "spread_sorted l kind ps = Some (p, w) \<Longrightarrow> p \<in> set ps"
  by (cases "(l, kind, ps)" rule: spread_sorted.cases) (auto simp: Let_def split: if_splits)

lemma spread_none [simp]: "spread ps l kind = None \<longleftrightarrow> ps = []"
proof -
  have "spread_sorted l kind qs = None \<longleftrightarrow> qs = []" for qs
    by (cases "(l, kind, qs)" rule: spread_sorted.cases) auto
  then show ?thesis
    by (simp add: spread_def)
qed

lemma spread_in: "spread ps l kind = Some (p, w) \<Longrightarrow> p \<in> set ps"
  using spread_sorted_in by (fastforce simp: spread_def)

lemma by_spread_simps [simp]:
  "by_spread f r = None \<longleftrightarrow> r = None" "by_spread f r = Some (p, w) \<longleftrightarrow> (\<exists>v. r = Some (p, v) \<and> w = f v)"
  by (auto simp: by_spread_def)

lemma preferred_in_set: "p \<in> set (preferred_in prefs us) \<Longrightarrow> p \<in> set us \<and> cp_id p \<in> set (preferOf prefs)"
  by (auto simp: preferred_in_def List.map_filter_def dest: find_in)

lemma hd_preferred: "preferred_in prefs us \<noteq> [] \<Longrightarrow> hd (preferred_in prefs us) \<in> set us"
  using preferred_in_set hd_in_set by blast

interpretation general: picker "is_open prefs kind" "\<lambda>ps. pick_general ps l prefs kind" for prefs kind l
proof
  fix ps p w
  assume "pick_general ps l prefs kind = Some (p, w)"
  then show "p \<in> set ps \<and> is_open prefs kind p"
    by (auto simp: pick_general_def Let_def split: if_splits option.splits
        dest!: spread_in find_in preferred_in_set dest: hd_preferred)
next
  fix ps
  show "(pick_general ps l prefs kind = None) = (\<forall>p \<in> set ps. \<not> is_open prefs kind p)"
    by (auto simp: pick_general_def Let_def filter_empty_conv split: option.splits)
qed

interpretation plain: picker "is_open prefs kind" "\<lambda>ps. pick_plain workflows ps l prefs kind" for prefs kind workflows l
proof -
  have "picker (is_open prefs kind) (\<lambda>ps. pick_workflows ps l prefs kind)"
    using general.first_among [where P = "\<lambda>p. cp_workflows p = Some True" and f = MayPushWorkflows]
    by (simp add: pick_workflows_def Let_def)
  then show "picker (is_open prefs kind) (\<lambda>ps. pick_plain workflows ps l prefs kind)"
    using general.picker_axioms by (simp add: pick_plain_def)
qed

section \<open>Every kind of work\<close>

text \<open>A computer new work of a kind may go to.\<close>

definition may_take :: "placement_prefs \<Rightarrow> need_kind \<Rightarrow> first_kind option \<Rightarrow> computer \<Rightarrow> bool" where
  "may_take prefs kind first p \<longleftrightarrow>
     is_open prefs kind p \<and> (case first of Some (FirstTimed t) \<Rightarrow> kind = Game \<longrightarrow> \<not> no_timed p | _ \<Rightarrow> True)"

lemma pick_unlisted: "pickComputer places l prefs kind workflows None = pick_plain workflows places l prefs kind"
  by (cases "kind = Game") (simp_all add: pickComputer_def)

lemma timed_rank_set: "set (timedRank ps prefs pl) = {p \<in> set ps. timed_ok prefs pl p}"
  by (auto simp: timedRank_def)

lemma first_of_in: "first_of ps prefs is = Inr p \<Longrightarrow> p \<in> set ps \<and> is_open prefs Game p"
  by (induction "is") (auto simp: Let_def is_open_def dest!: find_in split: option.splits if_splits sum.splits)

interpretation chosen: picker "may_take prefs kind first" "\<lambda>ps. pickComputer ps l prefs kind workflows first" for prefs kind first l workflows
proof -
  let ?plain = "picker (is_open prefs kind) (\<lambda>ps. pick_plain workflows ps l prefs kind)"
  have timed: "picker (may_take prefs Game (Some (FirstTimed t))) (\<lambda>ps. pickComputer ps l prefs Game workflows (Some (FirstTimed t)))" for t
  proof -
    have p: "picker (may_take prefs Game (Some (FirstTimed t))) (\<lambda>ps. pick_plain workflows (filter (\<lambda>p. \<not> no_timed p) ps) l prefs Game)"
      using plain.picked_among [of prefs Game "\<lambda>p. \<not> no_timed p" workflows l] by (simp add: may_take_def [abs_def])
    have "fst r \<in> set ps \<and> may_take prefs Game (Some (FirstTimed t)) (fst r)" if "pickTimed ps prefs t = Some r" for ps r
      using that timed_rank_set [of ps prefs "timed_platform t"]
      by (fastforce simp: pickTimed_def may_take_def is_open_def timed_ok_def split: list.splits)
    from picker.first_else [OF p this] show ?thesis
      by (simp add: pickComputer_def)
  qed
  have listed: "picker (is_open prefs Game) (\<lambda>ps. case first_of ps prefs (first_list f prefs) of
      Inr p \<Rightarrow> Some (p, FirstInList f (first_list f prefs))
    | Inl skipped \<Rightarrow> map_option (\<lambda>(p, w). (p, FirstPassed skipped w)) (pick_plain workflows ps l prefs Game))" for f
    using plain.picked [of workflows _ l prefs Game] first_of_in
    by unfold_locales (fastforce simp: plain.none_picked split: sum.splits)+
  show "picker (may_take prefs kind first) (\<lambda>ps. pickComputer ps l prefs kind workflows first)"
  proof (cases "kind = Game \<and> first \<noteq> None")
    case True
    then obtain f where f: "first = Some f" "kind = Game"
      by blast
    show ?thesis
      using timed listed [of FirstLive] listed [of FirstBuild]
      by (cases f) (simp_all add: f pickComputer_def may_take_def [abs_def])
  next
    case False
    then have "may_take prefs kind first = is_open prefs kind"
      "\<And>ps. pickComputer ps l prefs kind workflows first = pick_plain workflows ps l prefs kind"
      by (auto simp: may_take_def pickComputer_def split: option.splits first_kind.splits)
    then show ?thesis
      using plain.picker_axioms [of prefs kind workflows l] by simp
  qed
qed

section \<open>Properties of the choice\<close>

text \<open>
  C22. New work goes only to a computer with room for it, that no hold of the configuration names, whose level the work reaches,
  and for timed work on one that takes timed runs, whichever list is looked at first.
\<close>

theorem holds_respected:
  assumes "pickComputer places l prefs kind workflows first = Some (p, w)"
  shows "p \<in> set places \<and> hasRoomFor p kind
    \<and> cp_id p \<notin> placeId ` fst ` set (pp_hold prefs)
    \<and> (map_of (minOf prefs) (cp_id p) = None \<or> (\<exists>m. map_of (minOf prefs) (cp_id p) = Some m \<and> admitsPriority m (pp_priority prefs)))
    \<and> (kind = Game \<and> first = Some (FirstTimed t) \<longrightarrow> \<not> no_timed p)"
proof -
  have p: "p \<in> set places" "may_take prefs kind first p"
    using chosen.picked [OF assms] by auto
  then have "is_open prefs kind p" "kind = Game \<and> first = Some (FirstTimed t) \<longrightarrow> \<not> no_timed p"
    by (auto simp: may_take_def)
  moreover from this(1) have "why_held prefs (cp_id p) = None" "hasRoomFor p kind"
    by (simp_all add: is_open_def holdOf_lookup)
  ultimately show ?thesis
    using p(1) why_heldD [of prefs "cp_id p"] by (cases "map_of (minOf prefs) (cp_id p)") fastforce+
qed

section \<open>The room reported\<close>

lemma roomIds_iff:
  "i \<in> set (roomIds r kind prio) \<longleftrightarrow>
     i \<in> set (case kind of Game \<Rightarrow> rn_game r | Agent \<Rightarrow> rn_agent r)
     \<or> (\<exists>x \<in> set (rn_reserved r). fst x = i \<and> kind \<in> set (snd (snd x)) \<and> admitsPriority (fst (snd x)) prio)"
  by (force simp: roomIds_def image_iff case_prod_beta)

lemma room_step_ids:
  "set (roomIds (room_step prefs p r) kind prio)
    = set (roomIds r kind prio) \<union> (if is_open (prefs\<lparr>pp_priority := prio\<rparr>) kind p then {cp_id p} else {})"
proof (rule set_eqI)
  fix i
  have "holdOnly (prefs\<lparr>pp_priority := prio\<rparr>) = holdOnly prefs" "minOf (prefs\<lparr>pp_priority := prio\<rparr>) = minOf prefs"
    by (simp_all add: holdOnly_def exceptOf_def minOf_def)
  then show "i \<in> set (roomIds (room_step prefs p r) kind prio)
      \<longleftrightarrow> i \<in> set (roomIds r kind prio) \<union> (if is_open (prefs\<lparr>pp_priority := prio\<rparr>) kind p then {cp_id p} else {})"
    by (cases kind)
      (auto simp: room_step_def roomIds_iff Let_def is_open_def holdOf_lookup why_held_def split: option.splits if_splits)
qed

lemma room_now_ids:
  "set (roomIds (roomNow places prefs) kind prio) = cp_id ` {p \<in> set places. is_open (prefs\<lparr>pp_priority := prio\<rparr>) kind p}"
proof -
  have "set (roomIds (foldl (\<lambda>out p. room_step prefs p out) r places) kind prio)
      = set (roomIds r kind prio) \<union> cp_id ` {p \<in> set places. is_open (prefs\<lparr>pp_priority := prio\<rparr>) kind p}" for r
    by (induction places arbitrary: r) (auto simp: room_step_ids)
  then show ?thesis
    by (simp add: roomNow_def no_room_def roomIds_def split: need_kind.splits)
qed


section \<open>Which of them\<close>

text \<open>The order of the general placement: preferred and not loaded, others not loaded, preferred, others, avoided.\<close>

definition tier :: "placement_prefs \<Rightarrow> computer \<Rightarrow> nat" where
  "tier prefs p =
     (if map_of (avoidOf prefs) (cp_id p) \<noteq> None then 4
      else if cp_id p \<in> set (preferOf prefs) then (if under_spill prefs p then 0 else 2)
      else (if under_spill prefs p then 1 else 3))"

text \<open>Of two computers of one tier: the one named first, else one within the margin of the most room.\<close>

definition no_worse :: "placement_prefs \<Rightarrow> need_kind \<Rightarrow> computer \<Rightarrow> computer \<Rightarrow> bool" where
  "no_worse prefs kind p q \<longleftrightarrow>
     (if tier prefs p \<in> {0, 2} then position (cp_id p) (preferOf prefs) \<le> position (cp_id q) (preferOf prefs)
      else room_score q kind < room_score p kind + EVEN_MARGIN)"

lemma spread_best: "spread ps l kind = Some (p, w) \<Longrightarrow> q \<in> set ps \<Longrightarrow> room_score q kind < room_score p kind + EVEN_MARGIN"
proof -
  assume p: "spread ps l kind = Some (p, w)" and q: "q \<in> set ps"
  have c: "comparator (spread_cmp kind)"
    unfolding spread_cmp_def by (rule comparator_num_desc)
  have le: "room_score x kind \<le> room_score a kind" if "spread_cmp kind a x \<le> 0" for a x
    using that by (auto simp: spread_cmp_def cmp_num_def split: if_splits)
  obtain a as where a: "js_sort (spread_cmp kind) ps = a # as"
    using q by (cases "js_sort (spread_cmp kind) ps") auto
  have qa: "room_score q kind \<le> room_score a kind"
    using comparator.js_sort_head [OF c a q] by (rule le)
  have m: "0 < EVEN_MARGIN"
    by (simp add: EVEN_MARGIN_def)
  show ?thesis
    using p qa m by (cases as) (auto simp: spread_def a Let_def split: if_splits)
qed

lemma preferred_has: "distinct (map cp_id us) \<Longrightarrow> q \<in> set us \<Longrightarrow> cp_id q \<in> set (preferOf prefs) \<Longrightarrow> q \<in> set (preferred_in prefs us)"
  unfolding preferred_in_def List.map_filter_def
  by (auto simp: image_iff find_key distinct_map intro!: bexI [of _ "cp_id q"])

lemma preferred_order:
  assumes "distinct (map cp_id us)" "q \<in> set us" "P q"
  shows "find P (List.map_filter (\<lambda>i. find (\<lambda>p. cp_id p = i) us) is) = Some p \<Longrightarrow> position (cp_id p) is \<le> position (cp_id q) is \<or> cp_id q \<notin> set is"
proof (induction "is")
  case (Cons i "is")
  show ?case
  proof (cases "find (\<lambda>p. cp_id p = i) us")
    case None
    then have "i \<noteq> cp_id q"
      using find_key [of cp_id us q] assms by auto
    then show ?thesis
      using Cons None by (auto simp: List.map_filter_simps)
  next
    case (Some x)
    then have "cp_id x = i" "cp_id q = i \<Longrightarrow> q = x"
      using find_key [of cp_id us q] assms by (auto dest: find_in)
    then show ?thesis
      using Cons Some assms(3) by (auto simp: List.map_filter_simps split: if_splits)
  qed
qed (simp add: List.map_filter_simps)

definition usable_places :: "computer list \<Rightarrow> placement_prefs \<Rightarrow> need_kind \<Rightarrow> computer list" where
  "usable_places places prefs kind = filter (\<lambda>p. map_of (avoidOf prefs) (cp_id p) = None) (filter (is_open prefs kind) places)"

definition light :: "computer list \<Rightarrow> placement_prefs \<Rightarrow> need_kind \<Rightarrow> computer list" where
  "light places prefs kind = filter (under_spill prefs) (filter (\<lambda>p. cp_id p \<notin> set (preferOf prefs)) (usable_places places prefs kind))"

lemma pick_general_cases:
  assumes "pick_general places l prefs kind = Some (p, w)"
  obtains (Under) "find (under_spill prefs) (preferred_in prefs (usable_places places prefs kind)) = Some p"
  | (Light) v where "find (under_spill prefs) (preferred_in prefs (usable_places places prefs kind)) = None"
      "spread (light places prefs kind) l kind = Some (p, v)"
  | (Preferred) "find (under_spill prefs) (preferred_in prefs (usable_places places prefs kind)) = None" "light places prefs kind = []"
      "find (\<lambda>_. True) (preferred_in prefs (usable_places places prefs kind)) = Some p"
  | (Others) v where "light places prefs kind = []" "preferred_in prefs (usable_places places prefs kind) = []"
      "spread (usable_places places prefs kind) l kind = Some (p, v)"
  | (Avoided) v where "usable_places places prefs kind = []" "spread (filter (is_open prefs kind) places) l kind = Some (p, v)"
proof -
  have hd_find: "xs \<noteq> [] \<Longrightarrow> find (\<lambda>_. True) xs = Some (hd xs)" for xs :: "computer list"
    by (cases xs) auto
  show thesis
    using assms
    unfolding pick_general_def Let_def usable_places_def [symmetric] light_def [symmetric]
    by (auto split: if_splits option.splits intro: that simp: hd_find)
qed


section \<open>Timed work\<close>

lemma comparator_timed: "comparator (timed_cmp prefs)"
  unfolding timed_cmp_def
  by (intro comparator_or comparator_locale comparator_vimage [OF cmp_list.comparator_axioms, of "timed_key prefs"])

text \<open>
  Timed work goes to the smallest computer with room that takes timed runs on its platform: no other such computer has
  fewer agent slots, nor as few with a lower editor limit, and so on through the live agents, the timed runs queued and the
  preference. With none it goes where the general placement sends it, never where timed runs are refused.
\<close>

theorem timed_takes_smallest:
  assumes "pickComputer places l prefs Game workflows (Some (FirstTimed t)) = Some (p, w)"
    and q: "q \<in> set places" "timed_ok prefs (timed_platform t) q"
  shows "timed_ok prefs (timed_platform t) p \<and> cp_maxAgents p \<le> cp_maxAgents q
    \<and> (cp_maxAgents p = cp_maxAgents q \<longrightarrow> cmp_list (timed_key prefs p) (timed_key prefs q) \<le> 0)"
proof -
  have "timedRank places prefs (timed_platform t) \<noteq> []"
    using q timed_rank_set [of places prefs "timed_platform t"] by auto
  then obtain ps where ps: "timedRank places prefs (timed_platform t) = p # ps"
    using assms(1) by (auto simp: pickComputer_def pickTimed_def split: list.splits)
  then have "timed_cmp prefs p q \<le> 0"
    using comparator.js_sort_head [OF comparator_timed, of prefs "filter (timed_ok prefs (timed_platform t)) places" p ps q] q
    by (simp add: timedRank_def)
  then have le: "cmp_list (timed_key prefs p) (timed_key prefs q) \<le> 0"
    by (auto simp: timed_cmp_def cmp_or_def split: if_splits)
  moreover have "p \<in> set (timedRank places prefs (timed_platform t))"
    by (simp add: ps)
  ultimately show ?thesis
    by (auto simp: timed_rank_set timed_key_def cmp_or_def cmp_num_def split: if_splits)
qed

text \<open>
  The pin's refusal and the ledger's facts name the same computers: of those that take timed runs on the platform, the ranked
  first, and none that takes none.
\<close>

lemma timed_facts_name_takers:
  "i \<in> set (tf_takes (timedFacts places prefs t)) \<longleftrightarrow>
     (\<exists>p \<in> set places. cp_id p = i \<and> \<not> no_timed p \<and> on_platform (timed_platform t) p)"
proof -
  let ?rank = "set (timedRank places prefs (timed_platform t))"
  have "set (tf_takes (timedFacts places prefs t))
      = cp_id ` (?rank \<union> {p \<in> set places. \<not> no_timed p \<and> on_platform (timed_platform t) p \<and> p \<notin> ?rank})"
    by (simp add: timedFacts_def Let_def image_Un)
  also have "?rank \<union> {p \<in> set places. \<not> no_timed p \<and> on_platform (timed_platform t) p \<and> p \<notin> ?rank}
      = {p \<in> set places. \<not> no_timed p \<and> on_platform (timed_platform t) p}"
    by (auto simp: timed_rank_set timed_ok_def)
  finally show ?thesis
    by auto
qed

lemma pin_refusal_names_takers:
  assumes "timedPinRefusal target places prefs t = Some (i, ranked, rest)"
  shows "p \<in> set ranked \<union> set rest \<Longrightarrow> p \<in> set places \<and> \<not> no_timed p \<and> on_platform (timed_platform t) p"
    and "p \<in> set places \<Longrightarrow> cp_online p \<Longrightarrow> \<not> no_timed p \<Longrightarrow> on_platform (timed_platform t) p \<Longrightarrow> p \<in> set ranked \<union> set rest"
  using assms by (auto simp: timedPinRefusal_def Let_def timed_rank_set timed_ok_def split: option.splits if_splits)

section \<open>Turns\<close>

text \<open>Among computers as even as that, the last one taken is not taken again at once.\<close>

lemma turns_are_taken:
  assumes "js_sort (spread_cmp kind) ps = a # b # rest" "cp_id a \<noteq> cp_id b"
    and "room_score a kind - room_score b kind < EVEN_MARGIN" "cp_live a = cp_live b"
    and "spread ps l kind = Some (p, w)"
  shows "l \<noteq> Some (cp_id p)"
  using assms by (auto simp: spread_def Let_def split: if_splits)

section \<open>A fleet\<close>

definition ex_pc :: "string \<Rightarrow> int \<Rightarrow> int \<Rightarrow> computer" where
  "ex_pc i agents live =
     \<lparr>cp_id = i, cp_online = True, cp_live = live, cp_midTurn = live, cp_maxAgents = agents, cp_sandboxes = agents,
      cp_maxSandboxes = agents, cp_freeSandboxes = agents - live, cp_memUsed = None, cp_memTotal = None, cp_editors = None,
      cp_maxEditors = None, cp_agentSeats = None, cp_workflows = None, cp_timedQueued = None, cp_legs = [],
      cp_platform = Some ''win32'', cp_steam = None, cp_desktop = None, cp_cargoShort = None, cp_noTimedRuns = None, cp_cpuPct = None\<rparr>"

definition ex_fleet :: "computer list" where
  "ex_fleet = [ex_pc ''beast'' 6 4, ex_pc ''biscuit'' 4 1, ex_pc ''loth'' 10 2, ex_pc ''m3'' 2 0]"

definition ex_prefs :: placement_prefs where
  "ex_prefs = \<lparr>pp_prefer = [''beast'', ''biscuit''], pp_avoid = [], pp_hold = [('' M3'', ''Ben'')], pp_holdExcept = [], pp_live = [], pp_build = [],
     pp_minPriority = [(''Beast'', ''urgent'')], pp_priority = None, pp_spillAtPercent = None\<rparr>"

lemma ex_picks:
  "pickComputer ex_fleet None ex_prefs Game False None = Some (ex_pc ''biscuit'' 4 1, PreferredFirst)"
  "pickComputer ex_fleet None ex_prefs Game False (Some (FirstTimed TimedAny)) = Some (ex_pc ''biscuit'' 4 1, TimedSmallest [ex_pc ''biscuit'' 4 1, ex_pc ''loth'' 10 2])"
  by code_simp+

lemma holds_respected_witness: "''biscuit'' \<notin> placeId ` fst ` set (pp_hold ex_prefs) \<and> hasRoomFor (ex_pc ''biscuit'' 4 1) Game"
  using holds_respected [OF ex_picks(1), of TimedAny] by (simp add: ex_pc_def)


lemma timed_takes_smallest_witness: "cp_maxAgents (ex_pc ''biscuit'' 4 1) \<le> cp_maxAgents (ex_pc ''loth'' 10 2)"
proof -
  have "ex_pc ''loth'' 10 2 \<in> set ex_fleet" "timed_ok ex_prefs (timed_platform TimedAny) (ex_pc ''loth'' 10 2)"
    by code_simp+
  then show ?thesis
    using timed_takes_smallest [OF ex_picks(2)] by blast
qed

text \<open>
  The margin is asked only of the two computers with the most room: a third as even as they are is passed over, though it
  has the fewest live agents.
\<close>

lemma third_even_passed_over:
  "spread [ex_pc ''a'' 20 10, (ex_pc ''b'' 20 10), (ex_pc ''c'' 20 9)\<lparr>cp_freeSandboxes := 9\<rparr>] None Game = Some (ex_pc ''a'' 20 10, TakingTurns)
    \<and> room_score (ex_pc ''a'' 20 10) Game - room_score ((ex_pc ''c'' 20 9)\<lparr>cp_freeSandboxes := 9\<rparr>) Game = 0"
  by code_simp

end
