(* ===== verification/PairRoom.thy ===== *)
theory PairRoom
  imports PlacePick
begin

text \<open>
  Which computers a request can run on (shared/capacity.ts, shared/steam.ts, shared/desktop.ts) and where the legs of a pair
  run go: several computers at once, at most one Mac among them and that as the host, one per Steam account where the
  pair needs Steam, on two operating systems where it must. What the code reads from a request's words (timed work, an
  OS named, a multiplayer scenario) is part of the request here. A reason is a constructor, without its words. A machine's
  id is never the empty text.
\<close>

section \<open>Steam and the desktop\<close>

datatype steam_lack =
    NotReported | Unreadable | NotInstalled | NotRunning | SignedOut | OfflineMode | NotConnected string

definition has_account :: "steam_client \<Rightarrow> bool" where
  "has_account s \<longleftrightarrow> (case st_accountId s of Some n \<Rightarrow> n \<noteq> 0 | None \<Rightarrow> False)"

definition steamSignedIn :: "steam_client option \<Rightarrow> bool" where
  "steamSignedIn c =
     (case c of
        None \<Rightarrow> False
      | Some s \<Rightarrow> st_installed s \<and> st_running s \<and> has_account s \<and> \<not> st_offline s \<and> \<not> said (st_notConnected s))"

definition steamLacks :: "steam_client option \<Rightarrow> steam_lack option" where
  "steamLacks c =
     (case c of
        None \<Rightarrow> Some NotReported
      | Some s \<Rightarrow>
          if said (st_error s) \<and> \<not> st_installed s then Some Unreadable
          else if \<not> st_installed s then Some NotInstalled
          else if \<not> st_running s then Some NotRunning
          else if \<not> has_account s then Some SignedOut
          else if st_offline s then Some OfflineMode
          else if said (st_notConnected s) then Some (NotConnected (the (st_notConnected s)))
          else None)"

text \<open>The account a computer is signed in to.\<close>

definition account_of :: "steam_client option \<Rightarrow> nat option" where
  "account_of c = (if steamSignedIn c then Option.bind c st_accountId else None)"

datatype desktop_lack = ScreenLocked | ConsoleAway

definition desktopLacks :: "desktop_session option \<Rightarrow> desktop_lack option" where
  "desktopLacks d =
     (case d of
        None \<Rightarrow> None
      | Some x \<Rightarrow> if ds_locked x then Some ScreenLocked else if ds_away x then Some ConsoleAway else None)"

section \<open>Pair runs and requests\<close>

record work_pair =
  pa_legs :: nat
  pa_crossOs :: "string option"
  pa_steam :: "string option"
  pa_menus :: "string option"
  pa_timed :: bool
  pa_avoid :: "string list"

definition pairDrivesMenus :: "work_pair \<Rightarrow> bool" where
  "pairDrivesMenus p \<longleftrightarrow> said (pa_steam p) \<or> said (pa_menus p)"

text \<open>The timed work a request's words name: none, on any OS, or on one.\<close>

datatype timed_words = NoTimedWords | TimedAnyOs | TimedWindows | TimedMac

text \<open>What placement reads of a request.\<close>

record placed_work =
  pw_id :: string
  pw_needs :: "need_kind option"
  pw_priority :: work_priority
  pw_createdAt :: int
  pw_pair :: "work_pair option"
  pw_repo :: "string option"
  pw_timedWords :: timed_words
  pw_timedLeg :: "string option option"
  pw_mpPeers :: bool

definition needsOf :: "placed_work \<Rightarrow> need_kind" where
  "needsOf w = (case pw_needs w of Some k \<Rightarrow> k | None \<Rightarrow> Game)"

definition strip_prefix :: "string \<Rightarrow> string \<Rightarrow> string" where
  "strip_prefix p s = (if has_prefix p s then drop (length p) s else s)"

definition strip_suffix :: "string \<Rightarrow> string \<Rightarrow> string" where
  "strip_suffix p s = (if has_suffix p s then take (length s - length p) s else s)"

text \<open>Whether a repository is FFU's, whose workers need much disk: a slug or a github.com link.\<close>

definition repo_norm :: "string \<Rightarrow> string" where
  "repo_norm r =
     (let n = lower (trim r);
          n = (if has_prefix ''https://github.com/'' n then strip_prefix ''https://github.com/'' n
               else strip_prefix ''http://github.com/'' n)
      in drop_while_end (\<lambda>c. c = CHR ''/'') (strip_suffix ''.git'' n))"

definition isCargoRepo :: "string option \<Rightarrow> bool" where
  "isCargoRepo r =
     (case r of
        None \<Rightarrow> False
      | Some s \<Rightarrow> s \<noteq> [] \<and> (repo_norm s = ''final-factory/ffu'' \<or> repo_norm s = ''ffu''))"

section \<open>Computers a request cannot run on\<close>

type_synonym fits = "(string \<times> room_fit) list"

datatype unfit_why =
    EarlierLegFailed | CargoShort string | LacksSteam steam_lack | LacksDesktop desktop_lack
  | TakesNoTimed string | OtherOs string | MacForPeers

definition platform_of :: "fits \<Rightarrow> string \<Rightarrow> string option" where
  "platform_of fit i = Option.bind (map_of fit i) rf_platform"

definition steam_of :: "fits \<Rightarrow> string \<Rightarrow> steam_client option" where
  "steam_of fit i = Option.bind (map_of fit i) rf_steam"

definition desktop_of :: "fits \<Rightarrow> string \<Rightarrow> desktop_session option" where
  "desktop_of fit i = Option.bind (map_of fit i) rf_desktop"

definition leg_words :: "placed_work \<Rightarrow> timed_words" where
  "leg_words w =
     (if pw_timedWords w \<noteq> NoTimedWords then pw_timedWords w
      else if (case pw_pair w of Some p \<Rightarrow> pa_timed p | None \<Rightarrow> False) \<or> pw_timedLeg w \<noteq> None then
        (case pw_timedLeg w of
           Some (Some s) \<Rightarrow> if s = ''win32'' then TimedWindows else if s = ''darwin'' then TimedMac else TimedAnyOs
         | _ \<Rightarrow> TimedAnyOs)
      else NoTimedWords)"

fun os_text :: "timed_words \<Rightarrow> string option" where
  "os_text TimedWindows = Some ''win32''"
| "os_text TimedMac = Some ''darwin''"
| "os_text _ = None"

definition unfitWhy :: "placed_work \<Rightarrow> string \<Rightarrow> fits \<Rightarrow> string list \<Rightarrow> unfit_why option" where
  "unfitWhy w i fit named =
     (if (case pw_pair w of Some p \<Rightarrow> i \<in> set (pa_avoid p) | None \<Rightarrow> False) then Some EarlierLegFailed
      else case map_of fit i of
        None \<Rightarrow> None
      | Some f \<Rightarrow>
          if said (rf_cargoShort f) \<and> isCargoRepo (pw_repo w) then Some (CargoShort (the (rf_cargoShort f)))
          else case (case pw_pair w of
                       Some p \<Rightarrow> if said (pa_steam p) then map_option LacksSteam (steamLacks (rf_steam f)) else None
                     | None \<Rightarrow> None) of
            Some why \<Rightarrow> Some why
          | None \<Rightarrow>
              (case (case pw_pair w of
                       Some p \<Rightarrow> if pairDrivesMenus p then map_option LacksDesktop (desktopLacks (rf_desktop f)) else None
                     | None \<Rightarrow> None) of
                 Some why \<Rightarrow> Some why
               | None \<Rightarrow>
                   let timed = leg_words w;
                       pinned = list_ex (\<lambda>n. lower n = lower i) named
                         \<and> (os_text timed = None \<or> (case pw_timedLeg w of Some pl \<Rightarrow> pl \<noteq> os_text timed | None \<Rightarrow> True))
                   in if timed \<noteq> NoTimedWords \<and> said (rf_noTimedRuns f) then Some (TakesNoTimed (the (rf_noTimedRuns f)))
                      else if os_text timed \<noteq> None \<and> \<not> pinned \<and> said (rf_platform f) \<and> rf_platform f \<noteq> os_text timed then
                        Some (OtherOs (the (os_text timed)))
                      else if rf_platform f = Some ''darwin'' \<and> pw_mpPeers w \<and> pw_pair w = None then Some MacForPeers
                      else None))"

section \<open>The computers of a pair run\<close>

datatype pair_short = NoneHasRoom | FewAccounts "string list" "string list" | FewComputers "string list" | OneSystem "string list"

text \<open>One computer per Steam account, the first there is; the others are twins.\<close>

fun by_account :: "fits \<Rightarrow> nat list \<Rightarrow> string list \<Rightarrow> string list \<times> string list" where
  "by_account fit seen [] = ([], [])"
| "by_account fit seen (i # ids) =
     (case account_of (steam_of fit i) of
        None \<Rightarrow> by_account fit seen ids
      | Some a \<Rightarrow>
          if a \<in> set seen then (let (kept, twins) = by_account fit seen ids in (kept, i # twins))
          else (let (kept, twins) = by_account fit (a # seen) ids in (i # kept, twins)))"

definition is_mac :: "fits \<Rightarrow> string \<Rightarrow> bool" where
  "is_mac fit i \<longleftrightarrow> platform_of fit i = Some ''darwin''"

text \<open>The computers of each operating system, in order (a \<open>Map\<close> by platform, \<open>?\<close> for one not reported).\<close>

definition os_key :: "fits \<Rightarrow> string \<Rightarrow> string" where
  "os_key fit i = (case platform_of fit i of Some s \<Rightarrow> s | None \<Rightarrow> ''?'')"

definition by_os :: "fits \<Rightarrow> string list \<Rightarrow> (string \<times> string list) list" where
  "by_os fit ids =
     foldl (\<lambda>m i. AList.update (os_key fit i) ((case map_of m (os_key fit i) of Some xs \<Rightarrow> xs | None \<Rightarrow> []) @ [i]) m) [] ids"

text \<open>The lists' first elements, then their second ones, and so on until all are taken.\<close>

function rounds :: "'a list list \<Rightarrow> 'a list" where
  "rounds xss =
     (if list_all (\<lambda>xs. xs = []) xss then []
      else map hd (filter (\<lambda>xs. xs \<noteq> []) xss) @ rounds (map tl xss))"
  by pat_completeness auto

lemma sum_list_tl: "\<not> list_all (\<lambda>xs. xs = []) xss \<Longrightarrow> (\<Sum>xs\<leftarrow>xss. length xs - Suc 0) < sum_list (map length xss)"
proof (induction xss)
  case (Cons xs xss)
  have "(\<Sum>xs\<leftarrow>xss. length xs - Suc 0) \<le> sum_list (map length xss)"
    by (intro sum_list_mono) simp
  then show ?case
    using Cons by (cases xs) auto
qed simp

termination rounds
  by (relation "measure (\<lambda>xss. sum_list (map length xss))") (auto simp: sum_list_tl o_def)

declare rounds.simps [simp del]

definition systems :: "fits \<Rightarrow> string list \<Rightarrow> string list" where
  "systems fit ids = js_unique (List.map_filter (\<lambda>i. if said (platform_of fit i) then platform_of fit i else None) ids)"

definition pair_legs :: "work_pair \<Rightarrow> string list \<Rightarrow> fits \<Rightarrow> pair_short + string list" where
  "pair_legs p ids fit =
     (let macs = filter (is_mac fit) ids;
          rest = filter (\<lambda>i. \<not> is_mac fit i) ids
      in if \<not> said (pa_crossOs p) then
           (let pick = take (pa_legs p) (take 1 macs @ rest)
            in if length pick < pa_legs p then Inl (FewComputers ids) else Inr pick)
         else
           (let pick = take (pa_legs p) (take 1 macs @ rounds (map snd (by_os fit rest)))
            in if length pick < pa_legs p then Inl (FewComputers ids)
               else if length (systems fit pick) < 2 then Inl (OneSystem (systems fit pick))
               else Inr pick))"

definition pairRoom :: "work_pair option \<Rightarrow> string list \<Rightarrow> fits \<Rightarrow> pair_short + string list" where
  "pairRoom pair ids fit =
     (case pair of
        None \<Rightarrow> (case ids of [] \<Rightarrow> Inl NoneHasRoom | i # _ \<Rightarrow> Inr [i])
      | Some p \<Rightarrow>
          let ids = (if pairDrivesMenus p then filter (\<lambda>i. desktopLacks (desktop_of fit i) = None) ids else ids)
          in if said (pa_steam p) then
               (let (kept, twins) = by_account fit [] ids
                in if length kept < pa_legs p then Inl (FewAccounts kept twins) else pair_legs p kept fit)
             else pair_legs p ids fit)"

section \<open>A fleet for a pair run that needs Steam\<close>

record fleet_machine =
  fm_id :: string
  fm_platform :: "string option"
  fm_steam :: "steam_client option"

datatype fleet_lack = WhereLegFailed | FleetSteam steam_lack | AccountTaken string | SecondMac

text \<open>One machine of the loop: who has each account, how many Macs, the machines that count and what the others lack.\<close>

record fleet_count =
  fc_seen :: "(nat \<times> string) list"
  fc_macs :: nat
  fc_ok :: "string list"
  fc_lacks :: "(string \<times> fleet_lack) list"

definition fleet_step :: "work_pair \<Rightarrow> fleet_machine \<Rightarrow> fleet_count \<Rightarrow> fleet_count" where
  "fleet_step p m c =
     (let lacks = (\<lambda>why. c\<lparr>fc_lacks := fc_lacks c @ [(fm_id m, why)]\<rparr>);
          mac = (fm_platform m = Some ''darwin'')
      in if fm_id m \<in> set (pa_avoid p) then lacks WhereLegFailed
         else case steamLacks (fm_steam m) of
           Some why \<Rightarrow> lacks (FleetSteam why)
         | None \<Rightarrow>
             (let a = the (account_of (fm_steam m))
              in case map_of (fc_seen c) a of
                   Some taker \<Rightarrow> lacks (AccountTaken taker)
                 | None \<Rightarrow>
                     if mac \<and> 1 \<le> fc_macs c then lacks SecondMac
                     else c\<lparr>fc_seen := AList.update a (fm_id m) (fc_seen c),
                            fc_macs := (if mac then Suc (fc_macs c) else fc_macs c),
                            fc_ok := fc_ok c @ [fm_id m]\<rparr>))"

definition fleet_counted :: "work_pair \<Rightarrow> fleet_machine list \<Rightarrow> fleet_count" where
  "fleet_counted p ms =
     foldl (\<lambda>c m. fleet_step p m c) \<lparr>fc_seen = [], fc_macs = 0, fc_ok = [], fc_lacks = []\<rparr>
       (js_sort (\<lambda>a b. locale_compare (fm_id a) (fm_id b)) ms)"

definition steamPairShort :: "work_pair \<Rightarrow> fleet_machine list \<Rightarrow> (string list \<times> (string \<times> fleet_lack) list) option" where
  "steamPairShort p ms =
     (if \<not> said (pa_steam p) then None
      else let c = fleet_counted p ms
           in if pa_legs p \<le> length (fc_ok c) then None else Some (fc_ok c, fc_lacks c))"

end
