(* ===== verification/PairProps.thy ===== *)
theory PairProps
  imports PairRoom
begin

text \<open>
  A pair run's computers: what those picked for it keep (valid_legs), that some are picked whenever there are any it could
  run on, with the two facts that needs (every platform reported, no account on two computers), and what goes wrong
  without them. The whole fleet's count for a Steam pair is sound, and it too can miss a choice.
\<close>

section \<open>What a pair run needs\<close>

text \<open>A choice of computers for a pair's legs, the host first.\<close>

definition valid_legs :: "work_pair \<Rightarrow> string list \<Rightarrow> fits \<Rightarrow> string list \<Rightarrow> bool" where
  "valid_legs p ids fit pick \<longleftrightarrow>
     length pick = pa_legs p \<and> distinct pick \<and> set pick \<subseteq> set ids
     \<and> list_all (\<lambda>i. \<not> is_mac fit i) (tl pick)
     \<and> (said (pa_crossOs p) \<longrightarrow> 2 \<le> length (systems fit pick))
     \<and> (pairDrivesMenus p \<longrightarrow> list_all (\<lambda>i. desktopLacks (desktop_of fit i) = None) pick)
     \<and> (said (pa_steam p) \<longrightarrow> list_all (\<lambda>i. steamSignedIn (steam_of fit i)) pick \<and> distinct (map (\<lambda>i. account_of (steam_of fit i)) pick))"

lemma steam_lacks_none: "steamLacks c = None \<longleftrightarrow> steamSignedIn c"
  by (auto simp: steamLacks_def steamSignedIn_def split: option.splits)

lemma account_some: "account_of c \<noteq> None \<longleftrightarrow> steamSignedIn c"
  by (auto simp: account_of_def steamSignedIn_def has_account_def split: option.splits)

section \<open>Rounds and systems\<close>

lemma mset_heads: "mset (map hd (filter (\<lambda>xs. xs \<noteq> []) xss)) + mset (concat (map tl xss)) = mset (concat xss)"
proof (induction xss)
  case (Cons xs xss)
  then show ?case
    by (cases xs) (auto simp: ac_simps)
qed simp

lemma mset_rounds: "mset (rounds xss) = mset (concat xss)"
proof (induction xss rule: rounds.induct)
  case (1 xss)
  show ?case
  proof (cases "list_all (\<lambda>xs. xs = []) xss")
    case True
    then show ?thesis
      by (subst rounds.simps) (simp add: list_all_iff)
  next
    case False
    then show ?thesis
      using 1 mset_heads [of xss] by (subst rounds.simps) simp
  qed
qed

lemma rounds_heads: "\<exists>ys. rounds xss = map hd (filter (\<lambda>xs. xs \<noteq> []) xss) @ ys"
proof (cases "list_all (\<lambda>xs. xs = []) xss")
  case True
  then have "filter (\<lambda>xs. xs \<noteq> []) xss = []"
    by (auto simp: list_all_iff filter_empty_conv)
  then show ?thesis
    by auto
qed (subst rounds.simps, simp)

definition os_lists :: "fits \<Rightarrow> (string \<times> string list) list \<Rightarrow> bool" where
  "os_lists fit m \<longleftrightarrow> distinct (map fst m) \<and> (\<forall>(k, xs) \<in> set m. xs \<noteq> [] \<and> (\<forall>i \<in> set xs. os_key fit i = k))"

lemma by_os_step:
  assumes "os_lists fit m"
  shows "os_lists fit (AList.update (os_key fit i) ((case map_of m (os_key fit i) of Some xs \<Rightarrow> xs | None \<Rightarrow> []) @ [i]) m)"
    and "mset (concat (map snd (AList.update (os_key fit i) ((case map_of m (os_key fit i) of Some xs \<Rightarrow> xs | None \<Rightarrow> []) @ [i]) m)))
      = add_mset i (mset (concat (map snd m)))"
proof -
  have "mset (concat (map snd (AList.update k ((case map_of m k of Some xs \<Rightarrow> xs | None \<Rightarrow> []) @ [i]) m)))
      = add_mset i (mset (concat (map snd m)))" for k
    by (induction m) (auto simp: ac_simps)
  then show "mset (concat (map snd (AList.update (os_key fit i) ((case map_of m (os_key fit i) of Some xs \<Rightarrow> xs | None \<Rightarrow> []) @ [i]) m)))
      = add_mset i (mset (concat (map snd m)))" .
  let ?k = "os_key fit i"
  define ys where "ys = (case map_of m ?k of Some xs \<Rightarrow> xs | None \<Rightarrow> [])"
  have "\<forall>j \<in> set ys. os_key fit j = ?k"
    using assms by (auto simp: ys_def os_lists_def dest!: map_of_SomeD split: option.splits)
  moreover have "set (AList.update ?k v m) \<subseteq> insert (?k, v) (set m)" for v
    by (induction m) auto
  ultimately have "\<forall>(k, xs) \<in> set (AList.update ?k (ys @ [i]) m). xs \<noteq> [] \<and> (\<forall>j \<in> set xs. os_key fit j = k)"
    using assms by (fastforce simp: os_lists_def)
  then show "os_lists fit (AList.update ?k ((case map_of m ?k of Some xs \<Rightarrow> xs | None \<Rightarrow> []) @ [i]) m)"
    using assms by (auto simp: os_lists_def distinct_update ys_def [symmetric])
qed

lemma by_os_lists: "os_lists fit (by_os fit ids) \<and> mset (concat (map snd (by_os fit ids))) = mset ids"
proof -
  define step where "step = (\<lambda>m i. AList.update (os_key fit i) ((case map_of m (os_key fit i) of Some xs \<Rightarrow> xs | None \<Rightarrow> []) @ [i]) m)"
  have "os_lists fit m \<Longrightarrow> os_lists fit (foldl step m ids) \<and> mset (concat (map snd (foldl step m ids))) = mset (concat (map snd m)) + mset ids" for m
    by (induction ids arbitrary: m) (auto simp: step_def by_os_step simp del: mset_concat)
  from this [of "[]"] show ?thesis
    by (simp add: by_os_def step_def os_lists_def)
qed

lemma spread_mset: "mset (rounds (map snd (by_os fit ids))) = mset ids"
  using by_os_lists [of fit ids] by (simp add: mset_rounds)

text \<open>With two systems among the computers, the first two of the spread are of two systems.\<close>

lemma spread_two:
  assumes "i \<in> set ids" "j \<in> set ids" "os_key fit i \<noteq> os_key fit j"
  obtains a b xs where "rounds (map snd (by_os fit ids)) = a # b # xs" "os_key fit a \<noteq> os_key fit b" "a \<in> set ids" "b \<in> set ids"
proof -
  let ?m = "by_os fit ids"
  have ok: "os_lists fit ?m" and ms: "mset (concat (map snd ?m)) = mset ids"
    using by_os_lists by auto
  have key: "\<exists>xs. (os_key fit k, xs) \<in> set ?m" if "k \<in> set ids" for k
  proof -
    have "k \<in> set (concat (map snd ?m))"
      using ms that by (metis set_mset_mset)
    then show ?thesis
      using ok by (fastforce simp: os_lists_def)
  qed
  have "?m \<noteq> []" "length ?m \<noteq> 1"
    using key [OF assms(1)] key [OF assms(2)] assms(3) by (auto simp: length_Suc_conv)
  then obtain k xs l ys m' where m: "?m = (k, xs) # (l, ys) # m'"
    by (cases ?m; cases "tl ?m") auto
  then have "k \<noteq> l" "xs \<noteq> []" "ys \<noteq> []" "os_key fit (hd xs) = k" "os_key fit (hd ys) = l"
    using ok by (auto simp: os_lists_def)
  moreover obtain zs where "rounds (map snd ?m) = map hd (filter (\<lambda>xs. xs \<noteq> []) (map snd ?m)) @ zs"
    using rounds_heads by blast
  ultimately have "rounds (map snd ?m) = hd xs # hd ys # (map hd (filter (\<lambda>xs. xs \<noteq> []) (map snd m')) @ zs)"
    by (simp add: m)
  moreover have "hd xs \<in> set (concat (map snd ?m))" "hd ys \<in> set (concat (map snd ?m))"
    using \<open>xs \<noteq> []\<close> \<open>ys \<noteq> []\<close> by (auto simp: m)
  then have "hd xs \<in> set ids" "hd ys \<in> set ids"
    using ms by (metis set_mset_mset)+
  ultimately show thesis
    using that \<open>k \<noteq> l\<close> \<open>os_key fit (hd xs) = k\<close> \<open>os_key fit (hd ys) = l\<close> by blast
qed

lemma two_of_distinct: "distinct xs \<Longrightarrow> 2 \<le> length xs \<longleftrightarrow> (\<exists>x \<in> set xs. \<exists>y \<in> set xs. x \<noteq> y)"
proof (cases xs)
  case (Cons x ys)
  then show "distinct xs \<Longrightarrow> ?thesis"
    by (cases ys) auto
qed simp

lemma systems_two:
  "2 \<le> length (systems fit pick) \<longleftrightarrow>
     (\<exists>i \<in> set pick. \<exists>j \<in> set pick. said (platform_of fit i) \<and> said (platform_of fit j) \<and> platform_of fit i \<noteq> platform_of fit j)"
proof -
  have d: "distinct (systems fit pick)"
    by (simp add: systems_def)
  have mem: "s \<in> set (systems fit pick) \<longleftrightarrow> s \<noteq> [] \<and> (\<exists>i \<in> set pick. platform_of fit i = Some s)" for s
    by (auto simp: systems_def List.map_filter_def image_iff split: if_splits)
  have *: "2 \<le> length (systems fit pick) \<longleftrightarrow>
      (\<exists>x y. x \<noteq> [] \<and> (\<exists>i \<in> set pick. platform_of fit i = Some x) \<and> y \<noteq> [] \<and> (\<exists>j \<in> set pick. platform_of fit j = Some y) \<and> x \<noteq> y)"
    unfolding two_of_distinct [OF d] Bex_def [of "set (systems fit pick)"] mem by auto
  have **: "said x \<longleftrightarrow> (\<exists>s. x = Some s \<and> s \<noteq> [])" for x
    by (cases x) auto
  show ?thesis (is "_ \<longleftrightarrow> ?two")
  proof
    assume "2 \<le> length (systems fit pick)"
    then obtain x y i j where "x \<noteq> []" "y \<noteq> []" "x \<noteq> y" "i \<in> set pick" "j \<in> set pick"
      "platform_of fit i = Some x" "platform_of fit j = Some y"
      unfolding * by blast
    then show ?two
      by (intro bexI [of _ i] bexI [of _ j]) auto
  next
    assume ?two
    then obtain i j x y where "i \<in> set pick" "j \<in> set pick" "x \<noteq> []" "y \<noteq> []" "platform_of fit i = Some x"
      "platform_of fit j = Some y" "platform_of fit i \<noteq> platform_of fit j"
      unfolding ** by blast
    then show "2 \<le> length (systems fit pick)"
      unfolding * by (intro exI [of _ x] exI [of _ y]) auto
  qed
qed

section \<open>One computer per account\<close>

lemma by_account_keeps:
  assumes "by_account fit seen ids = (kept, twins)"
  shows "set kept \<subseteq> set ids \<and> list_all (\<lambda>i. steamSignedIn (steam_of fit i)) kept
    \<and> distinct (map (\<lambda>i. account_of (steam_of fit i)) kept) \<and> (\<forall>i \<in> set kept. \<forall>a \<in> set seen. account_of (steam_of fit i) \<noteq> Some a)"
  using assms
proof (induction fit seen ids arbitrary: kept twins rule: by_account.induct)
  case (2 fit seen i ids)
  show ?case
  proof (cases "account_of (steam_of fit i)")
    case None
    then show ?thesis
      using 2 by auto
  next
    case (Some a)
    have signed: "steamSignedIn (steam_of fit i)"
      using Some account_some by blast
    show ?thesis
    proof (cases "a \<in> set seen")
      case True
      then show ?thesis
        using 2 Some by (auto split: prod.splits)
    next
      case False
      obtain ks ts where k: "by_account fit (a # seen) ids = (ks, ts)"
        by fastforce
      then have "kept = i # ks"
        using 2(4) Some False by simp
      then show ?thesis
        using 2(3) [OF Some False k] Some False signed by auto
    qed
  qed
qed simp

text \<open>Where no account is on two computers, every computer signed in is kept.\<close>

lemma by_account_all:
  assumes "distinct (map (\<lambda>i. account_of (steam_of fit i)) (filter (\<lambda>i. steamSignedIn (steam_of fit i)) ids))"
    and "\<forall>i \<in> set ids. \<forall>a \<in> set seen. account_of (steam_of fit i) \<noteq> Some a"
  shows "fst (by_account fit seen ids) = filter (\<lambda>i. steamSignedIn (steam_of fit i)) ids"
  using assms
proof (induction fit seen ids rule: by_account.induct)
  case (2 fit seen i ids)
  show ?case
  proof (cases "account_of (steam_of fit i)")
    case None
    then show ?thesis
      using 2 account_some [of "steam_of fit i"] by simp
  next
    case (Some a)
    then have signed: "steamSignedIn (steam_of fit i)" and "a \<notin> set seen"
      using 2(5) account_some [of "steam_of fit i"] by auto
    moreover have "account_of (steam_of fit j) \<noteq> Some a" if "j \<in> set ids" for j
    proof
      assume j: "account_of (steam_of fit j) = Some a"
      then have "steamSignedIn (steam_of fit j)"
        using account_some by blast
      then show False
        using 2(4) signed Some j that by (force simp: image_iff)
    qed
    ultimately show ?thesis
      using 2 Some by (auto simp: case_prod_beta Let_def)
  qed
qed simp

section \<open>The picked computers can run the pair\<close>

lemma take_macs_rest:
  assumes "distinct ids" "mset xs = mset (filter (\<lambda>i. \<not> is_mac fit i) ids)"
    and "pick = take n (take 1 (filter (is_mac fit) ids) @ xs)"
  shows "distinct pick" "set pick \<subseteq> set ids" "list_all (\<lambda>i. \<not> is_mac fit i) (tl pick)"
proof -
  let ?macs = "filter (is_mac fit) ids"
  have xs: "set xs = {i \<in> set ids. \<not> is_mac fit i}" "distinct xs"
    using mset_eq_setD [OF assms(2)] distinct_filter [OF assms(1)] mset_eq_imp_distinct_iff [OF assms(2)] by auto
  have one: "set (take 1 ?macs) \<subseteq> set ?macs" "distinct (take 1 ?macs)"
    using assms(1) by (auto dest: in_set_takeD)
  then have all: "distinct (take 1 ?macs @ xs)" "set (take 1 ?macs @ xs) \<subseteq> set ids"
    using xs by auto
  show "distinct pick"
    unfolding assms(3) by (rule distinct_take [OF all(1)])
  show "set pick \<subseteq> set ids"
    unfolding assms(3) using set_take_subset all(2) by (rule subset_trans)
  have "set (tl pick) \<subseteq> set xs"
  proof (cases ?macs)
    case Nil
    then show ?thesis
      unfolding assms(3) by (cases xs; cases n) (auto dest: in_set_takeD)
  next
    case (Cons m ms)
    then show ?thesis
      unfolding assms(3) by (cases n) (auto dest: in_set_takeD)
  qed
  then show "list_all (\<lambda>i. \<not> is_mac fit i) (tl pick)"
    using xs(1) by (auto simp: list_all_iff)
qed

lemma pair_legs_valid:
  assumes "distinct ids" "pair_legs p ids fit = Inr pick"
  shows "length pick = pa_legs p" "distinct pick" "set pick \<subseteq> set ids" "list_all (\<lambda>i. \<not> is_mac fit i) (tl pick)"
    "said (pa_crossOs p) \<Longrightarrow> 2 \<le> length (systems fit pick)"
proof -
  obtain xs where xs: "mset xs = mset (filter (\<lambda>i. \<not> is_mac fit i) ids)" "pick = take (pa_legs p) (take 1 (filter (is_mac fit) ids) @ xs)"
  proof (cases "said (pa_crossOs p)")
    case True
    then show thesis
      using that [OF spread_mset [of fit "filter (\<lambda>i. \<not> is_mac fit i) ids"]] assms(2) by (auto simp add: pair_legs_def Let_def simp del: take_append split: if_splits)
  next
    case False
    then show thesis
      using that [OF refl] assms(2) by (simp add: pair_legs_def Let_def split: if_splits)
  qed
  from take_macs_rest [OF assms(1) this]
  show "distinct pick" "set pick \<subseteq> set ids" "list_all (\<lambda>i. \<not> is_mac fit i) (tl pick)"
    by auto
  show "length pick = pa_legs p" "said (pa_crossOs p) \<Longrightarrow> 2 \<le> length (systems fit pick)"
    using assms(2) by (auto simp: pair_legs_def Let_def min_def split: if_splits)
qed

text \<open>
  C25. The computers picked for a pair run can run it: one for each leg, all different and from those with room, no Mac but the
  host, two operating systems where it must have them, every screen unlocked where it clicks menus, and where it needs Steam
  every client signed in, each to an account of its own.
\<close>

theorem picked_pair_runs:
  assumes "distinct ids" "pairRoom (Some p) ids fit = Inr pick"
  shows "valid_legs p ids fit pick"
proof -
  define open_ids where "open_ids = (if pairDrivesMenus p then filter (\<lambda>i. desktopLacks (desktop_of fit i) = None) ids else ids)"
  have d: "distinct open_ids" "set open_ids \<subseteq> set ids"
    and menus: "pairDrivesMenus p \<Longrightarrow> \<forall>i \<in> set open_ids. desktopLacks (desktop_of fit i) = None"
    using assms(1) by (auto simp: open_ids_def)
  obtain kept twins where k: "by_account fit [] open_ids = (kept, twins)"
    by fastforce
  have kept: "set kept \<subseteq> set open_ids" "list_all (\<lambda>i. steamSignedIn (steam_of fit i)) kept"
    "distinct (map (\<lambda>i. account_of (steam_of fit i)) kept)"
    using by_account_keeps [OF k] by auto
  define from_ids where "from_ids = (if said (pa_steam p) then kept else open_ids)"
  have f: "distinct from_ids" "set from_ids \<subseteq> set open_ids"
    using d kept by (auto simp: from_ids_def distinct_map)
  have "pair_legs p from_ids fit = Inr pick"
    using assms(2) k by (auto simp: pairRoom_def Let_def open_ids_def [symmetric] from_ids_def split: if_splits)
  note v = pair_legs_valid [OF f(1) this]
  moreover have "list_all (\<lambda>i. steamSignedIn (steam_of fit i)) pick \<and> distinct (map (\<lambda>i. account_of (steam_of fit i)) pick)" if "said (pa_steam p)"
    using that v(2,3) kept by (auto simp: from_ids_def list_all_iff distinct_map intro: inj_on_subset)
  ultimately show ?thesis
    using f(2) d(2) menus by (auto simp: valid_legs_def list_all_iff)
qed

section \<open>A pair run starts when it can\<close>

lemma length_within: "distinct xs \<Longrightarrow> set xs \<subseteq> set ys \<Longrightarrow> length xs \<le> length ys"
  by (metis List.finite_set card_length card_mono distinct_card le_trans)

lemma legs_within:
  assumes "distinct c" "set c \<subseteq> set ids" "list_all (\<lambda>i. \<not> is_mac fit i) (tl c)"
  shows "length c \<le> length (take 1 (filter (is_mac fit) ids)) + length (filter (\<lambda>i. \<not> is_mac fit i) ids)"
proof (cases c)
  case (Cons x xs)
  have rest: "length zs \<le> length (filter (\<lambda>i. \<not> is_mac fit i) ids)"
    if "distinct zs" "set zs \<subseteq> set ids" "list_all (\<lambda>i. \<not> is_mac fit i) zs" for zs
    using that by (intro length_within) (auto simp: list_all_iff)
  show ?thesis
  proof (cases "is_mac fit x")
    case True
    then have "filter (is_mac fit) ids \<noteq> []"
      using assms(2) Cons by (auto simp: filter_empty_conv)
    then show ?thesis
      using rest [of xs] assms Cons by (cases "filter (is_mac fit) ids") auto
  next
    case False
    then show ?thesis
      using rest [of c] assms Cons by auto
  qed
qed simp

lemma pair_legs_found:
  assumes ids: "distinct ids"
    and c: "length c = pa_legs p" "distinct c" "set c \<subseteq> set ids" "list_all (\<lambda>i. \<not> is_mac fit i) (tl c)"
    and cross: "said (pa_crossOs p) \<Longrightarrow> 2 \<le> length (systems fit c)"
      "said (pa_crossOs p) \<Longrightarrow> \<forall>i \<in> set ids. said (platform_of fit i)"
  shows "\<exists>pick. pair_legs p ids fit = Inr pick"
proof -
  define macs where "macs = filter (is_mac fit) ids"
  define rest where "rest = filter (\<lambda>i. \<not> is_mac fit i) ids"
  note enough = legs_within [OF c(2-4), folded macs_def rest_def, unfolded c(1)]
  show ?thesis
  proof (cases "said (pa_crossOs p)")
    case False
    then show ?thesis
      using enough by (auto simp: pair_legs_def Let_def macs_def [symmetric] rest_def [symmetric])
  next
    case True
    define ys where "ys = rounds (map snd (by_os fit rest))"
    have ys: "mset ys = mset rest"
      by (simp add: ys_def spread_mset)
    then have len: "length ys = length rest" and in_ys: "set ys = set rest"
      by (metis size_mset, metis set_mset_mset)
    obtain i j where ij: "i \<in> set c" "j \<in> set c" "platform_of fit i \<noteq> platform_of fit j"
      using cross(1) [OF True] by (auto simp: systems_two)
    then have two: "2 \<le> pa_legs p"
      using two_of_distinct [OF c(2)] c(1) by force
    have known: "k \<in> set ids \<Longrightarrow> said (platform_of fit k)" for k
      using cross(2) [OF True] by blast
    define pick where "pick = take (pa_legs p) (take 1 macs @ ys)"
    have "2 \<le> length (systems fit pick)"
    proof (cases macs)
      case (Cons m ms)
      then have "m \<in> set macs"
        by simp
      then have "is_mac fit m" "m \<in> set ids"
        by (simp_all add: macs_def)
      obtain y zs where y: "ys = y # zs"
        using enough two len Cons by (cases ys) auto
      then have "y \<in> set rest"
        using in_ys by auto
      then have "y \<in> set ids" "\<not> is_mac fit y"
        by (auto simp: rest_def)
      moreover have "m \<in> set pick" "y \<in> set pick"
        using two by (cases "pa_legs p"; cases "pa_legs p - 1"; simp add: pick_def Cons y)+
      ultimately show ?thesis
        unfolding systems_two using \<open>is_mac fit m\<close> known [OF \<open>m \<in> set ids\<close>] known [of y]
        by (intro bexI [of _ m] bexI [of _ y]) (auto simp: is_mac_def)
    next
      case Nil
      then have "set rest = set ids"
        by (auto simp: rest_def macs_def filter_empty_conv)
      then have "i \<in> set rest" "j \<in> set rest" "os_key fit i \<noteq> os_key fit j"
        using ij c(3) known [of i] known [of j]
        by (auto simp: os_key_def split: option.splits)
      then obtain a b zs where ab: "ys = a # b # zs" "os_key fit a \<noteq> os_key fit b" "a \<in> set rest" "b \<in> set rest"
        using spread_two [of i rest j fit] unfolding ys_def by metis
      moreover have "a \<in> set pick" "b \<in> set pick"
        using two by (cases "pa_legs p"; cases "pa_legs p - 1"; simp add: pick_def Nil ab(1))+
      ultimately show ?thesis
        unfolding systems_two using known [of a] known [of b] \<open>set rest = set ids\<close>
        by (intro bexI [of _ a] bexI [of _ b]) (auto simp: os_key_def)
    qed
    moreover have "\<not> length pick < pa_legs p"
      using enough by (simp add: pick_def len)
    ultimately have "pair_legs p ids fit = Inr pick"
      unfolding pair_legs_def Let_def macs_def [symmetric] rest_def [symmetric] ys_def [symmetric] pick_def [symmetric]
      using True by simp
    then show ?thesis ..
  qed
qed

text \<open>
  C26. A pair run is given computers exactly when there are some it could run on, where every computer's platform is reported (as a
  pair across systems needs) and no Steam account is signed in on two computers (as a pair on Steam needs).
\<close>

theorem pair_starts_when_possible:
  assumes ids: "distinct ids"
    and known: "said (pa_crossOs p) \<Longrightarrow> \<forall>i \<in> set ids. said (platform_of fit i)"
    and accounts: "said (pa_steam p) \<Longrightarrow> distinct (map (\<lambda>i. account_of (steam_of fit i)) (filter (\<lambda>i. steamSignedIn (steam_of fit i)) ids))"
  shows "(\<exists>pick. pairRoom (Some p) ids fit = Inr pick) \<longleftrightarrow> (\<exists>pick. valid_legs p ids fit pick)"
proof
  assume "\<exists>pick. pairRoom (Some p) ids fit = Inr pick"
  then show "\<exists>pick. valid_legs p ids fit pick"
    using picked_pair_runs [OF ids] by blast
next
  assume "\<exists>pick. valid_legs p ids fit pick"
  then obtain c where c: "valid_legs p ids fit c" ..
  define open_ids where "open_ids = (if pairDrivesMenus p then filter (\<lambda>i. desktopLacks (desktop_of fit i) = None) ids else ids)"
  define signed where "signed = filter (\<lambda>i. steamSignedIn (steam_of fit i)) open_ids"
  have kept: "fst (by_account fit [] open_ids) = signed" if "said (pa_steam p)"
    unfolding signed_def using accounts [OF that]
    by (intro by_account_all) (auto simp: open_ids_def distinct_map filter_filter inj_on_def ids)
  define from_ids where "from_ids = (if said (pa_steam p) then signed else open_ids)"
  have "set c \<subseteq> set from_ids" "distinct from_ids" "set from_ids \<subseteq> set ids"
    using c ids by (auto simp: from_ids_def signed_def open_ids_def valid_legs_def list_all_iff)
  moreover from this(1,2) have "length c \<le> length from_ids" "length c = pa_legs p"
    using c length_within [of c from_ids] by (simp_all add: valid_legs_def)
  ultimately obtain pick where "pair_legs p from_ids fit = Inr pick"
    using pair_legs_found [of from_ids c p fit] c known by (auto simp: valid_legs_def)
  then show "\<exists>pick. pairRoom (Some p) ids fit = Inr pick"
    using kept \<open>length c \<le> length from_ids\<close> \<open>length c = pa_legs p\<close>
    by (cases "by_account fit [] open_ids") (auto simp: pairRoom_def Let_def open_ids_def [symmetric] from_ids_def split: if_splits)
qed

section \<open>The whole fleet\<close>

text \<open>What the count of a fleet keeps, machine by machine: those counted can each take a leg beside the others.\<close>

definition fleet_ok :: "work_pair \<Rightarrow> fleet_machine set \<Rightarrow> fleet_count \<Rightarrow> bool" where
  "fleet_ok p ms c \<longleftrightarrow>
     (\<exists>cs. fc_ok c = map fm_id cs \<and> set cs \<subseteq> ms \<and> list_all (\<lambda>m. fm_id m \<notin> set (pa_avoid p) \<and> steamSignedIn (fm_steam m)) cs
       \<and> distinct (map (\<lambda>m. account_of (fm_steam m)) cs)
       \<and> (\<forall>m \<in> set cs. the (account_of (fm_steam m)) \<in> fst ` set (fc_seen c))
       \<and> length (filter (\<lambda>m. fm_platform m = Some ''darwin'') cs) = fc_macs c \<and> fc_macs c \<le> 1)"

lemma fleet_step_ok:
  assumes "fleet_ok p ms c" "m \<in> ms"
  shows "fleet_ok p ms (fleet_step p m c)"
proof -
  let ?a = "the (account_of (fm_steam m))" and ?mac = "fm_platform m = Some ''darwin''"
  show ?thesis
  proof (cases "fm_id m \<notin> set (pa_avoid p) \<and> steamSignedIn (fm_steam m) \<and> map_of (fc_seen c) ?a = None \<and> \<not> (?mac \<and> 1 \<le> fc_macs c)")
    case False
    then have "\<exists>x. fleet_step p m c = c\<lparr>fc_lacks := x\<rparr>"
      using steam_lacks_none [of "fm_steam m"] by (auto simp: fleet_step_def Let_def split: option.splits)
    then show ?thesis
      using assms(1) by (auto simp: fleet_ok_def)
  next
    case True
    then have step: "fleet_step p m c = c\<lparr>fc_seen := AList.update ?a (fm_id m) (fc_seen c),
        fc_macs := (if ?mac then Suc (fc_macs c) else fc_macs c), fc_ok := fc_ok c @ [fm_id m]\<rparr>"
      using steam_lacks_none [of "fm_steam m"] by (auto simp: fleet_step_def Let_def split: option.splits)
    obtain cs where cs: "fc_ok c = map fm_id cs" "set cs \<subseteq> ms" "list_all (\<lambda>m. fm_id m \<notin> set (pa_avoid p) \<and> steamSignedIn (fm_steam m)) cs"
      "distinct (map (\<lambda>m. account_of (fm_steam m)) cs)" "\<forall>m \<in> set cs. the (account_of (fm_steam m)) \<in> fst ` set (fc_seen c)"
      "length (filter (\<lambda>m. fm_platform m = Some ''darwin'') cs) = fc_macs c" "fc_macs c \<le> 1"
      using assms(1) by (auto simp: fleet_ok_def)
    have "?a \<notin> fst ` set (fc_seen c)"
      using True by (auto simp: map_of_eq_None_iff)
    then have "account_of (fm_steam m) \<notin> (\<lambda>m. account_of (fm_steam m)) ` set cs"
      using cs(5) by force
    moreover have "fst ` set (AList.update ?a (fm_id m) (fc_seen c)) = insert ?a (fst ` set (fc_seen c))"
      by (simp add: dom_update)
    ultimately show ?thesis
      unfolding fleet_ok_def step using True cs assms(2)
      by (intro exI [of _ "cs @ [m]"]) auto
  qed
qed

lemma fleet_counted_ok: "fleet_ok p (set ms) (fleet_counted p ms)"
proof -
  have "fleet_ok p M c \<Longrightarrow> set xs \<subseteq> M \<Longrightarrow> fleet_ok p M (foldl (\<lambda>c m. fleet_step p m c) c xs)" for M c xs
    by (induction xs arbitrary: c) (auto intro: fleet_step_ok)
  moreover have "fleet_ok p (set ms) \<lparr>fc_seen = [], fc_macs = 0, fc_ok = [], fc_lacks = []\<rparr>"
    by (auto simp: fleet_ok_def)
  ultimately show ?thesis
    by (simp add: fleet_counted_def)
qed

text \<open>A fleet not called short holds the legs: that many machines signed in to accounts of their own, at most one a Mac.\<close>

lemma fleet_enough:
  assumes "steamPairShort p ms = None" "said (pa_steam p)"
  obtains cs where "length cs = pa_legs p" "set cs \<subseteq> set ms" "distinct (map (\<lambda>m. account_of (fm_steam m)) cs)"
    "list_all (\<lambda>m. fm_id m \<notin> set (pa_avoid p) \<and> steamSignedIn (fm_steam m)) cs"
    "length (filter (\<lambda>m. fm_platform m = Some ''darwin'') cs) \<le> 1"
proof -
  obtain cs where cs: "fc_ok (fleet_counted p ms) = map fm_id cs" "set cs \<subseteq> set ms"
      "list_all (\<lambda>m. fm_id m \<notin> set (pa_avoid p) \<and> steamSignedIn (fm_steam m)) cs"
      "distinct (map (\<lambda>m. account_of (fm_steam m)) cs)"
      "length (filter (\<lambda>m. fm_platform m = Some ''darwin'') cs) \<le> 1"
    using fleet_counted_ok [of p ms] by (auto simp: fleet_ok_def)
  let ?n = "pa_legs p"
  have "length (take ?n cs) = ?n"
    using assms cs(1) by (auto simp: steamPairShort_def Let_def split: if_splits dest: arg_cong [of _ _ length])
  moreover have "length (filter (\<lambda>m. fm_platform m = Some ''darwin'') (take ?n cs)) \<le> 1"
    using cs(5) by (metis append_take_drop_id filter_append le_trans length_append le_add1)
  ultimately show thesis
    using cs(2-4) distinct_take [OF cs(4), of ?n]
    by (intro that [of "take ?n cs"]) (auto simp: list_all_iff take_map dest: in_set_takeD)
qed

section \<open>Choices missed\<close>

text \<open>
  Two computers share a Steam account, one of them a Mac that comes first: it takes the account, a second Mac may not be a
  client, and the pair is called short, though the second Mac could host the other.
\<close>

definition ex_client :: "nat \<Rightarrow> steam_client option" where
  "ex_client a = Some \<lparr>st_installed = True, st_running = True, st_accountId = Some a, st_offline = False, st_notConnected = None, st_error = None\<rparr>"

definition ex_fit :: "string \<Rightarrow> nat \<Rightarrow> room_fit" where
  "ex_fit os a = \<lparr>rf_platform = Some os, rf_noTimedRuns = None, rf_steam = ex_client a, rf_desktop = None, rf_cargoShort = None\<rparr>"

definition ex_twins :: fits where
  "ex_twins = [(''m3'', ex_fit ''darwin'' 1), (''m5'', ex_fit ''darwin'' 2), (''slim'', ex_fit ''win32'' 1)]"

definition ex_steam_pair :: work_pair where
  "ex_steam_pair = \<lparr>pa_legs = 2, pa_crossOs = None, pa_steam = Some ''lobby'', pa_menus = None, pa_timed = False, pa_avoid = []\<rparr>"

lemma steam_twin_hides_pair:
  "pairRoom (Some ex_steam_pair) [''m3'', ''m5'', ''slim''] ex_twins = Inl (FewComputers [''m3'', ''m5''])
    \<and> valid_legs ex_steam_pair [''m3'', ''m5'', ''slim''] ex_twins [''m5'', ''slim'']"
  by code_simp

lemma steam_fleet_called_short:
  "steamPairShort ex_steam_pair (map (\<lambda>(i, f). \<lparr>fm_id = i, fm_platform = rf_platform f, fm_steam = rf_steam f\<rparr>) ex_twins)
    = Some ([''m3''], [(''m5'', SecondMac), (''slim'', AccountTaken ''m3'')])"
  by code_simp

text \<open>A computer of unknown platform takes the place of one that would make the second system.\<close>

definition ex_unknown :: fits where
  "ex_unknown = [(''old'', (ex_fit [] 1)\<lparr>rf_platform := None\<rparr>), (''m5'', ex_fit ''darwin'' 2), (''slim'', ex_fit ''win32'' 3)]"

definition ex_cross_pair :: work_pair where
  "ex_cross_pair = \<lparr>pa_legs = 2, pa_crossOs = Some ''desync'', pa_steam = None, pa_menus = None, pa_timed = False, pa_avoid = []\<rparr>"

lemma unknown_platform_hides_pair:
  "pairRoom (Some ex_cross_pair) [''old'', ''m5'', ''slim''] ex_unknown = Inl (OneSystem [''darwin''])
    \<and> valid_legs ex_cross_pair [''old'', ''m5'', ''slim''] ex_unknown [''m5'', ''slim'']"
  by code_simp

section \<open>A pair that starts\<close>

definition ex_three :: fits where
  "ex_three = [(''biscuit'', ex_fit ''win32'' 1), (''m5'', ex_fit ''darwin'' 2), (''slim'', ex_fit ''win32'' 3)]"

lemma picked_pair_runs_witness: "valid_legs ex_steam_pair [''biscuit'', ''m5'', ''slim''] ex_three [''m5'', ''biscuit'']"
proof -
  have "pairRoom (Some ex_steam_pair) [''biscuit'', ''m5'', ''slim''] ex_three = Inr [''m5'', ''biscuit'']"
    by code_simp
  then show ?thesis
    by (intro picked_pair_runs) simp_all
qed

lemma pair_starts_when_possible_witness: "\<exists>pick. pairRoom (Some ex_cross_pair) [''biscuit'', ''m5'', ''slim''] ex_three = Inr pick"
proof -
  have "valid_legs ex_cross_pair [''biscuit'', ''m5'', ''slim''] ex_three [''m5'', ''slim'']"
    "\<forall>i \<in> set [''biscuit'', ''m5'', ''slim'']. said (platform_of ex_three i)" "\<not> said (pa_steam ex_cross_pair)"
    by code_simp+
  then show ?thesis
    using pair_starts_when_possible [of "[''biscuit'', ''m5'', ''slim'']" ex_cross_pair ex_three] by auto
qed

end
