(* ===== verification/RoomShare.thy ===== *)
theory RoomShare
  imports PairRoom
begin

text \<open>
  Which of the computers with room a queued request can take, as the dispatcher is told (roomForWork, server/placement.ts)
  and as the ledger's states read it (roomFor, shared/workState.ts), and whom each computer's room goes to first
  (roomShares). What keeps a computer's last sandbox for other work (\<open>roomHeld\<close>) is the caller's function.
\<close>

section \<open>Room for a request\<close>

definition wanted_here :: "string list \<Rightarrow> string \<Rightarrow> bool" where
  "wanted_here needs i \<longleftrightarrow> needs = [] \<or> lower i \<in> set (map lower needs)"

record work_room =
  wr_ids :: "string list"
  wr_unfit :: "(string \<times> unfit_why) list"
  wr_short :: "pair_short option"

definition roomForWork :: "room_now \<Rightarrow> placed_work \<Rightarrow> string list \<Rightarrow> work_room" where
  "roomForWork r w needs =
     (let room = filter (wanted_here needs) (roomIds r (needsOf w) (Some (pw_priority w)));
          unfit = List.map_filter (\<lambda>i. map_option (Pair i) (unfitWhy w i (rn_fit r) needs)) room;
          ids = filter (\<lambda>i. unfitWhy w i (rn_fit r) needs = None) room
      in case (if pw_pair w = None then Inr [] else pairRoom (pw_pair w) ids (rn_fit r)) of
           Inl short \<Rightarrow> \<lparr>wr_ids = [], wr_unfit = unfit, wr_short = Some short\<rparr>
         | Inr _ \<Rightarrow> \<lparr>wr_ids = ids, wr_unfit = unfit, wr_short = None\<rparr>)"

definition roomEnough :: "fits \<Rightarrow> work_pair option \<Rightarrow> string list \<Rightarrow> bool" where
  "roomEnough fit pair ids \<longleftrightarrow> (if pair = None then ids \<noteq> [] else (\<exists>pick. pairRoom pair ids fit = Inr pick))"

definition ROOM_STAND_MS :: int where
  "ROOM_STAND_MS = 5 * 60000"

definition roomStood :: "((need_kind \<times> string) \<times> int) list option \<Rightarrow> need_kind \<Rightarrow> string list \<Rightarrow> int \<Rightarrow> string list" where
  "roomStood since kind ids now =
     (case since of
        None \<Rightarrow> ids
      | Some m \<Rightarrow> filter (\<lambda>i. ROOM_STAND_MS \<le> now - (case map_of m (kind, i) of Some t \<Rightarrow> t | None \<Rightarrow> now)) ids)"

section \<open>The ledger's facts\<close>

record room_facts =
  fa_room :: "string list"
  fa_agentRoom :: "string list"
  fa_reserved :: "(string \<times> min_priority \<times> need_kind list) list"
  fa_fit :: fits
  fa_slots :: "((need_kind \<times> string) \<times> int) list"
  fa_held :: "string \<Rightarrow> placed_work \<Rightarrow> string option"

definition liveRoom :: "(string \<Rightarrow> placed_work \<Rightarrow> string option) \<Rightarrow> room_now \<Rightarrow> room_facts" where
  "liveRoom held r =
     \<lparr>fa_room = rn_game r, fa_agentRoom = rn_agent r, fa_reserved = rn_reserved r, fa_fit = rn_fit r,
      fa_slots = rn_slots r, fa_held = held\<rparr>"

definition roomFor :: "placed_work \<Rightarrow> room_facts \<Rightarrow> string list \<Rightarrow> string list" where
  "roomFor w f wanted =
     (let needs = map lower wanted;
          kind = needsOf w;
          here = (\<lambda>i. needs = [] \<or> lower i \<in> set needs);
          known = (case kind of Game \<Rightarrow> fa_room f | Agent \<Rightarrow> fa_agentRoom f);
          reserved = filter (\<lambda>(i, _, ks). kind \<in> set ks \<and> here i) (fa_reserved f);
          room = filter here (known @ map fst (filter (\<lambda>(_, m, _). admitsPriority m (Some (pw_priority w))) reserved))
      in filter (\<lambda>i. unfitWhy w i (fa_fit f) needs = None
           \<and> \<not> (kind = Game \<and> pw_pair w = None \<and> said (fa_held f i w))) room)"

section \<open>Whom the room goes to\<close>

record queued_item =
  qi_work :: placed_work
  qi_live :: bool
  qi_queued :: bool
  qi_needs :: "string list"
  qi_legs :: "string list list"

record share_entry =
  se_key :: string
  se_work :: placed_work
  se_wanted :: "string list"

definition queued_entry :: "queued_item \<Rightarrow> share_entry" where
  "queued_entry q =
     (if qi_queued q then \<lparr>se_key = pw_id (qi_work q), se_work = qi_work q, se_wanted = qi_needs q\<rparr>
      else \<lparr>se_key = pw_id (qi_work q) @ '':leg'', se_work = qi_work q, se_wanted = concat (qi_legs q)\<rparr>)"

definition share_cmp :: "share_entry \<Rightarrow> share_entry \<Rightarrow> int" where
  "share_cmp a b =
     cmp_or (cmp_num (prio_rank (pw_priority (se_work a))) (prio_rank (pw_priority (se_work b))))
       (cmp_or (cmp_num (pw_createdAt (se_work a)) (pw_createdAt (se_work b))) (locale_compare (se_key a) (se_key b)))"

definition share_queue :: "queued_item list \<Rightarrow> (placed_work \<times> string list) option \<Rightarrow> share_entry list" where
  "share_queue items extra =
     js_sort share_cmp
       (map queued_entry (filter (\<lambda>q. qi_live q \<and> (case extra of Some (w, _) \<Rightarrow> pw_id (qi_work q) \<noteq> pw_id w | None \<Rightarrow> True)
            \<and> (qi_queued q \<or> qi_legs q \<noteq> [])) items)
        @ (case extra of Some (w, wanted) \<Rightarrow> [\<lparr>se_key = pw_id w, se_work = w, se_wanted = wanted\<rparr>] | None \<Rightarrow> []))"

record room_share =
  sh_gets :: "string option"
  sh_ahead :: "string list"

record share_state =
  ss_left :: "((need_kind \<times> string) \<times> int) list"
  ss_takers :: "((need_kind \<times> string) \<times> string list) list"
  ss_out :: "(string \<times> room_share) list"

text \<open>What a computer has left of a kind; one without a count takes every request.\<close>

definition left_of :: "share_state \<Rightarrow> need_kind \<times> string \<Rightarrow> xnum" where
  "left_of st k = (case map_of (ss_left st) k of Some n \<Rightarrow> Fin (of_int n) | None \<Rightarrow> Infinity)"

definition takers_of :: "share_state \<Rightarrow> need_kind \<times> string \<Rightarrow> string list" where
  "takers_of st k = (case map_of (ss_takers st) k of Some xs \<Rightarrow> xs | None \<Rightarrow> [])"

definition take_room :: "string \<Rightarrow> need_kind \<times> string \<Rightarrow> share_state \<Rightarrow> share_state" where
  "take_room who k st =
     st\<lparr>ss_left := (case map_of (ss_left st) k of Some n \<Rightarrow> AList.update k (n - 1) (ss_left st) | None \<Rightarrow> ss_left st),
        ss_takers := AList.update k (takers_of st k @ [who]) (ss_takers st)\<rparr>"

text \<open>The computers an entry takes: the one with the most left, or those its pair's legs need at once.\<close>

definition share_pick :: "room_facts \<Rightarrow> share_state \<Rightarrow> share_entry \<Rightarrow> string list" where
  "share_pick f st e =
     (let kind = needsOf (se_work e);
          n = (\<lambda>i. left_of st (kind, i));
          opened = js_sort (\<lambda>a b. cmp_num (n b) (n a)) (filter (\<lambda>i. Fin 0 < n i) (roomFor (se_work e) f (se_wanted e)))
      in if pw_pair (se_work e) = None then take 1 opened
         else case pairRoom (pw_pair (se_work e)) opened (fa_fit f) of Inr pick \<Rightarrow> pick | Inl _ \<Rightarrow> [])"

definition share_step :: "room_facts \<Rightarrow> share_entry \<Rightarrow> share_state \<Rightarrow> share_state" where
  "share_step f e st =
     (let kind = needsOf (se_work e);
          pick = share_pick f st e
      in if pick \<noteq> [] then
           (let st = foldl (\<lambda>st i. take_room (pw_id (se_work e)) (kind, i) st) st pick
            in st\<lparr>ss_out := AList.update (se_key e) \<lparr>sh_gets = Some (hd pick), sh_ahead = []\<rparr> (ss_out st)\<rparr>)
         else st\<lparr>ss_out := AList.update (se_key e)
             \<lparr>sh_gets = None,
              sh_ahead = js_unique (concat (map (\<lambda>i. takers_of st (kind, i)) (roomFor (se_work e) f (se_wanted e))))\<rparr> (ss_out st)\<rparr>)"

definition share_run :: "room_facts \<Rightarrow> share_entry list \<Rightarrow> share_state" where
  "share_run f queue = foldl (\<lambda>st e. share_step f e st) \<lparr>ss_left = fa_slots f, ss_takers = [], ss_out = []\<rparr> queue"

definition roomShares ::
    "queued_item list \<Rightarrow> room_facts \<Rightarrow> (placed_work \<times> string list) option \<Rightarrow> (string \<times> room_share) list" where
  "roomShares items f extra = ss_out (share_run f (share_queue items extra))"

end
