(* ===== verification/ShareProps.thy ===== *)
theory ShareProps
  imports RoomShare PairProps PlaceProps
begin

text \<open>
  The room of a computer and those who queue for it: the two tests of what a request can take are one, no computer is promised
  more work of a kind than it takes, and a request is passed over only for work ahead of it that takes the whole room. The
  counts of the two kinds are kept apart, though both use a computer's agent slots.
\<close>

section \<open>One test of room\<close>

lemma unfit_lower [simp]: "unfitWhy w i fit (map lower named) = unfitWhy w i fit named"
proof -
  have "list_ex (\<lambda>n. lower n = lower i) (map lower named) = list_ex (\<lambda>n. lower n = lower i) named"
    by (simp add: list_ex_iff comp_def)
  then show ?thesis
    unfolding unfitWhy_def by (simp only:)
qed

text \<open>
  The dispatcher's room for a request and the ledger's are the same computers in the same order, as long as no sandbox is
  kept for other work, and the dispatcher's is none exactly where a pair run's legs do not fit.
\<close>

theorem one_room_test:
  "wr_ids (roomForWork r w needs)
    = (if wr_short (roomForWork r w needs) = None then roomFor w (liveRoom (\<lambda>_ _. None) r) needs else [])"
proof -
  let ?here = "\<lambda>i. map lower needs = [] \<or> lower i \<in> set (map lower needs)"
  have here: "wanted_here needs = ?here"
    by (auto simp: wanted_here_def fun_eq_iff)
  have reserved: "filter (\<lambda>i. h i \<and> u i) (map fst (filter (\<lambda>x. (case x of (i, _, ks) \<Rightarrow> k \<in> set ks \<and> h i) \<and> (case x of (_, m, _) \<Rightarrow> a m)) rs))
      = filter (\<lambda>i. h i \<and> u i) (map fst (filter (\<lambda>(_, m, ks). k \<in> set ks \<and> a m) rs))"
    for h u :: "string \<Rightarrow> bool" and a :: "min_priority \<Rightarrow> bool" and k :: need_kind and rs
    by (induction rs) auto
  have "roomFor w (liveRoom (\<lambda>_ _. None) r) needs
      = filter (\<lambda>i. unfitWhy w i (rn_fit r) needs = None) (filter (wanted_here needs) (roomIds r (needsOf w) (Some (pw_priority w))))"
    unfolding here roomFor_def roomIds_def liveRoom_def Let_def
    by (simp add: reserved split: need_kind.splits)
  then show ?thesis
    by (auto simp: roomForWork_def Let_def split: sum.splits)
qed

section \<open>What a share keeps\<close>

definition facts_distinct :: "room_facts \<Rightarrow> bool" where
  "facts_distinct f \<longleftrightarrow>
     distinct (fa_room f @ map fst (fa_reserved f)) \<and> distinct (fa_agentRoom f @ map fst (fa_reserved f))"

lemma room_for_distinct: "facts_distinct f \<Longrightarrow> distinct (roomFor w f wanted)"
proof -
  assume f: "facts_distinct f"
  have "distinct (map fst (filter P (filter Q rs)))" if "distinct (map fst rs)" for P Q and rs :: "(string \<times> min_priority \<times> need_kind list) list"
    using that by (simp add: distinct_map_filter)
  then show ?thesis
    using f by (auto simp: facts_distinct_def roomFor_def Let_def split: need_kind.splits)
qed

lemma pair_room_subset:
  assumes "distinct ids" "pairRoom pair ids fit = Inr pick"
  shows "distinct pick \<and> set pick \<subseteq> set ids"
proof (cases pair)
  case None
  then show ?thesis
    using assms(2) by (auto simp: pairRoom_def split: list.splits)
next
  case (Some p)
  then show ?thesis
    using picked_pair_runs [OF assms(1)] assms(2) by (simp add: valid_legs_def)
qed

text \<open>Whatever is taken is a computer the request can take, with room left.\<close>

lemma share_pick_open:
  assumes "facts_distinct f"
  shows "distinct (share_pick f st e)"
    and "i \<in> set (share_pick f st e) \<Longrightarrow> i \<in> set (roomFor (se_work e) f (se_wanted e)) \<and> Fin 0 < left_of st (needsOf (se_work e), i)"
proof -
  let ?n = "\<lambda>i. left_of st (needsOf (se_work e), i)"
  let ?room = "filter (\<lambda>i. Fin 0 < ?n i) (roomFor (se_work e) f (se_wanted e))"
  define opened where "opened = js_sort (\<lambda>a b. cmp_num (?n b) (?n a)) ?room"
  have o: "distinct opened" "set opened = set ?room"
    using room_for_distinct [OF assms] by (simp_all add: opened_def)
  have "distinct (share_pick f st e) \<and> set (share_pick f st e) \<subseteq> set opened"
  proof (cases "pw_pair (se_work e) = None")
    case True
    then show ?thesis
      using o(1) by (auto simp: share_pick_def Let_def opened_def [symmetric] dest: in_set_takeD)
  next
    case False
    then show ?thesis
      using pair_room_subset [OF o(1), of "pw_pair (se_work e)" "fa_fit f"]
      by (auto simp: share_pick_def Let_def opened_def [symmetric] split: sum.splits)
  qed
  then show "distinct (share_pick f st e)"
    and "i \<in> set (share_pick f st e) \<Longrightarrow> i \<in> set (roomFor (se_work e) f (se_wanted e)) \<and> Fin 0 < ?n i"
    using o(2) by auto
qed

definition share_inv :: "room_facts \<Rightarrow> share_state \<Rightarrow> bool" where
  "share_inv f st \<longleftrightarrow>
     (\<forall>k n. map_of (fa_slots f) k = Some n \<longrightarrow> 0 \<le> n \<longrightarrow>
        (\<exists>m. map_of (ss_left st) k = Some m \<and> 0 \<le> m \<and> m + int (length (takers_of st k)) = n))
     \<and> (\<forall>k. map_of (fa_slots f) k = None \<longrightarrow> map_of (ss_left st) k = None)"

lemma share_invD:
  assumes "share_inv f st"
  shows "map_of (fa_slots f) k = Some n \<Longrightarrow> 0 \<le> n \<Longrightarrow>
      \<exists>m. map_of (ss_left st) k = Some m \<and> 0 \<le> m \<and> m + int (length (takers_of st k)) = n"
    and "map_of (fa_slots f) k = None \<Longrightarrow> map_of (ss_left st) k = None"
  using assms unfolding share_inv_def by blast+

lemma take_room_lookup:
  "map_of (ss_left (take_room who k st)) k'
    = (if k' = k then map_option (\<lambda>n. n - 1) (map_of (ss_left st) k) else map_of (ss_left st) k')"
  "takers_of (take_room who k st) k' = takers_of st k' @ (if k' = k then [who] else [])"
  by (auto simp: take_room_def takers_of_def update_conv' split: option.splits)

lemma take_rooms_lookup:
  assumes "distinct pick"
  shows "map_of (ss_left (foldl (\<lambda>st i. take_room who (kind, i) st) st pick)) k
      = (if k \<in> Pair kind ` set pick then map_option (\<lambda>n. n - 1) (map_of (ss_left st) k) else map_of (ss_left st) k)"
    and "takers_of (foldl (\<lambda>st i. take_room who (kind, i) st) st pick) k = takers_of st k @ (if k \<in> Pair kind ` set pick then [who] else [])"
  using assms by (induction pick arbitrary: st) (auto simp: take_room_lookup)

lemma out_irrelevant [simp]:
  "takers_of (st\<lparr>ss_out := x\<rparr>) k = takers_of st k" "left_of (st\<lparr>ss_out := x\<rparr>) k = left_of st k"
  by (simp_all add: takers_of_def left_of_def)

lemma share_step_lookup:
  assumes "facts_distinct f"
  shows "map_of (ss_left (share_step f e st)) k
      = (if k \<in> Pair (needsOf (se_work e)) ` set (share_pick f st e) then map_option (\<lambda>n. n - 1) (map_of (ss_left st) k) else map_of (ss_left st) k)"
    and "takers_of (share_step f e st) k
      = takers_of st k @ (if k \<in> Pair (needsOf (se_work e)) ` set (share_pick f st e) then [pw_id (se_work e)] else [])"
  using take_rooms_lookup [OF share_pick_open(1) [OF assms]] by (auto simp: share_step_def Let_def)

lemma share_inv_step:
  assumes "facts_distinct f" "share_inv f st"
  shows "share_inv f (share_step f e st)"
proof -
  let ?K = "Pair (needsOf (se_work e)) ` set (share_pick f st e)"
  have pos: "0 < m" if "k \<in> ?K" "map_of (ss_left st) k = Some m" for k m
    using share_pick_open(2) [OF assms(1), of _ st e] that by (force simp: left_of_def)
  show ?thesis
    unfolding share_inv_def share_step_lookup [OF assms(1)]
  proof (intro conjI allI impI)
    fix k n
    assume "map_of (fa_slots f) k = Some n" "0 \<le> n"
    then obtain m where m: "map_of (ss_left st) k = Some m" "0 \<le> m" "m + int (length (takers_of st k)) = n"
      using share_invD(1) [OF assms(2)] by blast
    then show "\<exists>m. (if k \<in> ?K then map_option (\<lambda>n. n - 1) (map_of (ss_left st) k) else map_of (ss_left st) k) = Some m \<and> 0 \<le> m
        \<and> m + int (length (takers_of st k @ (if k \<in> ?K then [pw_id (se_work e)] else []))) = n"
      using pos [of k m] by (cases "k \<in> ?K") auto
  next
    fix k
    assume "map_of (fa_slots f) k = None"
    then show "(if k \<in> ?K then map_option (\<lambda>n. n - 1) (map_of (ss_left st) k) else map_of (ss_left st) k) = None"
      using share_invD(2) [OF assms(2)] by simp
  qed
qed

lemma share_run_simps:
  "share_run f [] = \<lparr>ss_left = fa_slots f, ss_takers = [], ss_out = []\<rparr>"
  "share_run f (us @ [e]) = share_step f e (share_run f us)"
  by (simp_all add: share_run_def)

lemma share_inv_run: "facts_distinct f \<Longrightarrow> share_inv f (share_run f queue)"
  by (induction queue rule: rev_induct) (auto simp: share_run_simps share_inv_step, simp add: share_inv_def takers_of_def)

lemma takers_queued:
  assumes "facts_distinct f"
  shows "t \<in> set (takers_of (share_run f queue) k) \<Longrightarrow> \<exists>u \<in> set queue. pw_id (se_work u) = t"
proof (induction queue rule: rev_induct)
  case Nil
  then show ?case by (simp add: share_run_simps takers_of_def)
next
  case (snoc e us)
  then show ?case by (auto simp: share_run_simps share_step_lookup [OF assms] split: if_splits)
qed

section \<open>Never more than a computer takes\<close>

lemma room_step_slots:
  "map_of (rn_slots (room_step prefs p r)) k
    = (if snd k = cp_id p \<and> hasRoomFor p (fst k) then Some (slotsOf p (fst k)) else map_of (rn_slots r) k)"
proof -
  have "map_of (foldl (\<lambda>s k. AList.update (k, cp_id p) (slotsOf p k) s) s ks) (kind, i)
      = (if kind \<in> set ks \<and> i = cp_id p then Some (slotsOf p kind) else map_of s (kind, i))" for s ks kind i
    by (induction ks arbitrary: s) (auto simp: update_conv')
  moreover have "rn_slots (room_step prefs p r)
      = (let ks = filter (hasRoomFor p) [Game, Agent] in foldl (\<lambda>s k. AList.update (k, cp_id p) (slotsOf p k) s) (rn_slots r) ks)"
    by (simp add: room_step_def Let_def split: option.splits)
  moreover have "kind \<in> set (filter (hasRoomFor p) [Game, Agent]) \<longleftrightarrow> hasRoomFor p kind" for kind
    by (cases kind) auto
  ultimately show ?thesis
    by (cases k) (simp add: Let_def del: filter.simps)
qed

lemma room_now_slots:
  assumes "distinct (map cp_id places)" "p \<in> set places" "hasRoomFor p kind"
  shows "map_of (rn_slots (roomNow places prefs)) (kind, cp_id p) = Some (slotsOf p kind)"
proof -
  have "map_of (rn_slots (foldl (\<lambda>out p. room_step prefs p out) r places)) (kind, cp_id p) = Some (slotsOf p kind)"
    if "distinct (map cp_id places)" "p \<in> set places \<or> cp_id p \<notin> cp_id ` set places \<and> map_of (rn_slots r) (kind, cp_id p) = Some (slotsOf p kind)" for r
    using that
  proof (induction places arbitrary: r)
    case (Cons q places)
    then show ?case
      using assms(3) Cons.IH [of "room_step prefs q r"] by (auto simp: room_step_slots)
  qed auto
  then show ?thesis
    using assms by (simp add: roomNow_def)
qed

lemma room_step_distinct:
  assumes "distinct (rn_game r @ map fst (rn_reserved r))" "distinct (rn_agent r @ map fst (rn_reserved r))"
    and "cp_id p \<notin> set (rn_game r) \<union> set (rn_agent r) \<union> fst ` set (rn_reserved r)"
  shows "distinct (rn_game (room_step prefs p r) @ map fst (rn_reserved (room_step prefs p r)))"
    "distinct (rn_agent (room_step prefs p r) @ map fst (rn_reserved (room_step prefs p r)))"
    "set (rn_game (room_step prefs p r)) \<union> set (rn_agent (room_step prefs p r)) \<union> fst ` set (rn_reserved (room_step prefs p r))
      \<subseteq> insert (cp_id p) (set (rn_game r) \<union> set (rn_agent r) \<union> fst ` set (rn_reserved r))"
  using assms by (auto simp: room_step_def Let_def split: option.splits)

lemma room_now_distinct:
  assumes "distinct (map cp_id places)"
  shows "facts_distinct (liveRoom held (roomNow places prefs))"
proof -
  let ?ids = "\<lambda>r. set (rn_game r) \<union> set (rn_agent r) \<union> fst ` set (rn_reserved r)"
  let ?run = "foldl (\<lambda>out p. room_step prefs p out)"
  have "distinct (rn_game (?run r places) @ map fst (rn_reserved (?run r places)))
      \<and> distinct (rn_agent (?run r places) @ map fst (rn_reserved (?run r places)))"
    if "distinct (map cp_id places)" "cp_id ` set places \<inter> ?ids r = {}"
      "distinct (rn_game r @ map fst (rn_reserved r))" "distinct (rn_agent r @ map fst (rn_reserved r))" for r
    using that
  proof (induction places arbitrary: r)
    case (Cons p places)
    then have "cp_id p \<notin> ?ids r"
      by auto
    note step = room_step_distinct [OF Cons.prems(3,4) this, of prefs]
    have "cp_id ` set places \<inter> insert (cp_id p) (?ids r) = {}"
      using Cons.prems(1,2) by auto
    then have "cp_id ` set places \<inter> ?ids (room_step prefs p r) = {}"
      using step(3) by blast
    then show ?case
      using Cons.IH [OF _ _ step(1,2)] Cons.prems(1) by simp
  qed simp
  from this [of no_room] show ?thesis
    using assms by (auto simp: facts_distinct_def liveRoom_def roomNow_def no_room_def)
qed

text \<open>
  C27. Whatever is queued, and in whatever order it was filed, no computer's room is given to more requests of a kind than the
  workers of that kind it takes now.
\<close>

theorem room_never_oversold:
  assumes "distinct (map cp_id places)" "p \<in> set places" "hasRoomFor p kind"
  shows "int (length (takers_of (share_run (liveRoom held (roomNow places prefs)) (share_queue items extra)) (kind, cp_id p))) \<le> slotsOf p kind"
proof -
  let ?f = "liveRoom held (roomNow places prefs)"
  have "map_of (fa_slots ?f) (kind, cp_id p) = Some (slotsOf p kind)" "0 \<le> slotsOf p kind"
    using room_now_slots [OF assms] by (simp_all add: liveRoom_def slotsOf_def Let_def)
  then obtain m where "0 \<le> m"
    "m + int (length (takers_of (share_run ?f (share_queue items extra)) (kind, cp_id p))) = slotsOf p kind"
    using share_invD(1) [OF share_inv_run [OF room_now_distinct [OF assms(1)]]] by blast
  then show ?thesis
    by simp
qed

section \<open>Passed over only for work ahead\<close>

lemma comparator_share: "comparator share_cmp"
  unfolding share_cmp_def by (intro comparator_or comparator_num comparator_locale)

lemma share_out_later: "se_key e \<notin> se_key ` set vs \<Longrightarrow> map_of (ss_out (foldl (\<lambda>st e. share_step f e st) st vs)) (se_key e) = map_of (ss_out st) (se_key e)"
proof (induction vs arbitrary: st)
  case (Cons v vs)
  have "ss_out (foldl (\<lambda>st i. take_room who (kind, i) st) st is) = ss_out st" for who kind "is" st
    by (induction "is" arbitrary: st) (auto simp: take_room_def)
  then have "map_of (ss_out (share_step f v st)) (se_key e) = map_of (ss_out st) (se_key e)"
    using Cons.prems by (simp add: share_step_def Let_def update_conv')
  then show ?case
    using Cons by simp
qed simp

text \<open>
  A request that gets no computer though some it can take have room waits rightly: the whole room of each of them went to
  requests before it in the order work starts, and it names them.
\<close>

theorem passed_over_for_those_ahead:
  assumes f: "facts_distinct f" "\<forall>n \<in> snd ` set (fa_slots f). 0 \<le> n"
    and queue: "share_queue items extra = us @ e # vs" "distinct (map se_key (us @ e # vs))"
    and e: "pw_pair (se_work e) = None" "map_of (roomShares items f extra) (se_key e) = Some sh" "sh_gets sh = None"
    and i: "i \<in> set (roomFor (se_work e) f (se_wanted e))"
  shows "\<exists>takers. map_of (fa_slots f) (needsOf (se_work e), i) = Some (int (length takers)) \<and> set takers \<subseteq> set (sh_ahead sh)
    \<and> set takers \<subseteq> {pw_id (se_work u) |u. u \<in> set us \<and> share_cmp u e \<le> 0}"
proof -
  define st where "st = share_run f us"
  let ?k = "(needsOf (se_work e), i)"
  have "map_of (roomShares items f extra) (se_key e) = map_of (ss_out (share_step f e st)) (se_key e)"
    using share_out_later [of e vs f "share_step f e st"] queue by (simp add: roomShares_def share_run_def st_def)
  then have none: "share_pick f st e = []"
    and sh: "sh_ahead sh = js_unique (concat (map (\<lambda>i. takers_of st (needsOf (se_work e), i)) (roomFor (se_work e) f (se_wanted e))))"
    using e(2,3) by (auto simp: share_step_def Let_def update_conv' split: if_splits)
  then have "\<not> Fin 0 < left_of st ?k"
    using e(1) i by (auto simp: share_pick_def Let_def filter_empty_conv)
  moreover have inv: "share_inv f st"
    unfolding st_def by (rule share_inv_run [OF f(1)])
  ultimately obtain m where m: "map_of (ss_left st) ?k = Some m" "m \<le> 0"
    by (auto simp: left_of_def split: option.splits)
  then obtain n where n: "map_of (fa_slots f) ?k = Some n"
    using m share_invD(2) [OF inv, of ?k] by (cases "map_of (fa_slots f) ?k") auto
  then have "0 \<le> n"
    using f(2) by (force dest: map_of_SomeD)
  then have "n = int (length (takers_of st ?k))"
    using share_invD(1) [OF inv n] m by fastforce
  moreover have "set (takers_of st ?k) \<subseteq> set (sh_ahead sh)"
    using i by (auto simp: sh)
  moreover have "share_cmp u e \<le> 0" if u: "u \<in> set us" for u
  proof -
    obtain as bs where "us = as @ u # bs"
      using split_list [OF u] by blast
    then show ?thesis
      using comparator.js_sort_before [OF comparator_share, of _ as u "bs @ e # vs" e] queue(1) by (simp add: share_queue_def)
  qed
  then have "set (takers_of st ?k) \<subseteq> {pw_id (se_work u) |u. u \<in> set us \<and> share_cmp u e \<le> 0}"
    using takers_queued [OF f(1), of _ us ?k] by (fastforce simp: st_def)
  ultimately show ?thesis
    using n by blast
qed

section \<open>A queue\<close>

definition ex_work :: "string \<Rightarrow> need_kind \<Rightarrow> int \<Rightarrow> placed_work" where
  "ex_work i kind t =
     \<lparr>pw_id = i, pw_needs = Some kind, pw_priority = Normal, pw_createdAt = t, pw_pair = None, pw_repo = None,
      pw_timedWords = NoTimedWords, pw_timedLeg = None, pw_mpPeers = False\<rparr>"

definition ex_item :: "placed_work \<Rightarrow> queued_item" where
  "ex_item w = \<lparr>qi_work = w, qi_live = True, qi_queued = True, qi_needs = [], qi_legs = []\<rparr>"

text \<open>One computer with a single agent slot and sandbox left.\<close>

definition ex_facts :: room_facts where
  "ex_facts = liveRoom (\<lambda>_ _. None) (roomNow [ex_pc ''slim'' 4 3] (ex_prefs\<lparr>pp_hold := [], pp_minPriority := []\<rparr>))"

definition ex_queue :: "queued_item list" where
  "ex_queue = map ex_item [ex_work ''w7'' Game 70, ex_work ''w5'' Game 50]"

lemma room_never_oversold_witness:
  "int (length (takers_of (share_run ex_facts (share_queue ex_queue None)) (Game, ''slim''))) \<le> 1"
proof -
  have "slotsOf (ex_pc ''slim'' 4 3) Game = 1" "hasRoomFor (ex_pc ''slim'' 4 3) Game" "cp_id (ex_pc ''slim'' 4 3) = ''slim''"
    by code_simp+
  then show ?thesis
    using room_never_oversold [of "[ex_pc ''slim'' 4 3]" "ex_pc ''slim'' 4 3" Game "\<lambda>_ _. None" _ ex_queue None]
    by (auto simp: ex_facts_def)
qed

lemma passed_over_for_those_ahead_witness:
  "\<exists>takers. map_of (fa_slots ex_facts) (Game, ''slim'') = Some (int (length takers)) \<and> set takers \<subseteq> {''w5''}"
proof -
  let ?e = "\<lambda>w. \<lparr>se_key = pw_id w, se_work = w, se_wanted = []\<rparr>"
  have "facts_distinct ex_facts" "\<forall>n \<in> snd ` set (fa_slots ex_facts). 0 \<le> n"
    "share_queue ex_queue None = [?e (ex_work ''w5'' Game 50)] @ ?e (ex_work ''w7'' Game 70) # []"
    "distinct (map se_key ([?e (ex_work ''w5'' Game 50)] @ ?e (ex_work ''w7'' Game 70) # []))"
    "pw_pair (se_work (?e (ex_work ''w7'' Game 70))) = None"
    "map_of (roomShares ex_queue ex_facts None) (se_key (?e (ex_work ''w7'' Game 70))) = Some \<lparr>sh_gets = None, sh_ahead = [''w5'']\<rparr>"
    "sh_gets \<lparr>sh_gets = None, sh_ahead = [''w5'']\<rparr> = None"
    "''slim'' \<in> set (roomFor (se_work (?e (ex_work ''w7'' Game 70))) ex_facts (se_wanted (?e (ex_work ''w7'' Game 70))))"
    by code_simp+
  from passed_over_for_those_ahead [OF this]
  obtain takers where t: "map_of (fa_slots ex_facts) (needsOf (se_work (?e (ex_work ''w7'' Game 70))), ''slim'') = Some (int (length takers))"
    "set takers \<subseteq> {''w5''}"
    by auto
  have "needsOf (se_work (?e (ex_work ''w7'' Game 70))) = Game"
    by code_simp
  then show ?thesis
    using t by auto
qed

text \<open>
  The counts of the two kinds are apart, but a worker of either takes an agent slot: the one slot left is promised to a request
  of each kind, and once either has started the other finds none.
\<close>

lemma one_slot_promised_twice:
  "roomShares (map ex_item [ex_work ''w5'' Game 50, ex_work ''w6'' Agent 60]) ex_facts None
    = [(''w5'', \<lparr>sh_gets = Some ''slim'', sh_ahead = []\<rparr>), (''w6'', \<lparr>sh_gets = Some ''slim'', sh_ahead = []\<rparr>)]
    \<and> \<not> hasRoomFor (ex_pc ''slim'' 4 4) Agent"
  by code_simp

end
