(* ===== verification/ResumeMove.thy ===== *)
theory ResumeMove
  imports PlaceProps
begin

text \<open>
  Where a worker goes whose resume waits for room on its own computer (server/resumeMove.ts): to another computer that can
  take its requests, unless its work is only where it is. A reason is a constructor, without its words.
\<close>

record move_pair =
  mp_leg :: nat
  mp_others :: "string list"
  mp_avoid :: "string list"
  mp_live :: bool

record move_request =
  mq_id :: string
  mq_priority :: work_priority
  mq_kind :: need_kind
  mq_first :: "first_kind option"
  mq_pinned :: "string list"
  mq_timedLeg :: bool
  mq_pair :: "move_pair option"

record move_git =
  mg_ahead :: "int option"
  mg_upstream :: "string option"
  mg_dirty :: int
  mg_untracked :: int

record move_facts =
  mf_machine :: string
  mf_released :: bool
  mf_branch :: "string option"
  mf_git :: "move_git option"
  mf_canSave :: bool
  mf_benchHeld :: bool
  mf_requests :: "move_request list"
  mf_places :: "computer list"
  mf_prefs :: placement_prefs
  mf_last :: "string option"
  mf_away :: bool

datatype stay_why =
    BenchHeldHere | PairUnderWay string nat "string list" | PinnedHere string | TimedLegHere string | BranchUnknown
  | Uncommitted | NotTracking "string option" | Unpushed int

datatype none_why = NothingServed | NoneCanTake need_kind

datatype move_decision = MoveTo computer place_why | StayHere stay_why | NoMove none_why | RequeuePair string nat

text \<open>The branch a remote branch stands for: \<open>upstream.replace(/^[^/]+\//, '')\<close>.\<close>

definition strip_remote :: "string \<Rightarrow> string" where
  "strip_remote s =
     (let a = takeWhile (\<lambda>c. c \<noteq> CHR ''/'') s; b = dropWhile (\<lambda>c. c \<noteq> CHR ''/'') s
      in if a \<noteq> [] \<and> b \<noteq> [] then tl b else s)"

definition tracks_own :: "move_facts \<Rightarrow> move_git \<Rightarrow> bool" where
  "tracks_own f g \<longleftrightarrow> said (mg_upstream g) \<and> Some (strip_remote (the (mg_upstream g))) = mf_branch f"

text \<open>Why its work keeps it where it is, in the code's order.\<close>

definition stay_reason :: "move_facts \<Rightarrow> stay_why option" where
  "stay_reason f =
     (case find (\<lambda>r. mq_pinned r \<noteq> [] \<and> list_all (\<lambda>p. placeId p = placeId (mf_machine f)) (mq_pinned r)) (mf_requests f) of
        Some r \<Rightarrow> Some (PinnedHere (mq_id r))
      | None \<Rightarrow>
          if mf_away f then None
          else case find mq_timedLeg (mf_requests f) of
            Some r \<Rightarrow> Some (TimedLegHere (mq_id r))
          | None \<Rightarrow>
              if \<not> said (mf_branch f) then Some BranchUnknown
              else (case mf_git f of
                      None \<Rightarrow> None
                    | Some g \<Rightarrow>
                        if \<not> mf_released f \<and> 0 < mg_dirty g + mg_untracked g \<and> \<not> mf_canSave f then Some Uncommitted
                        else if \<not> tracks_own f g then Some (NotTracking (mg_upstream g))
                        else if 0 < (case mg_ahead g of Some n \<Rightarrow> n | None \<Rightarrow> 0) then Some (Unpushed (the (mg_ahead g)))
                        else None))"

definition move_kind :: "move_facts \<Rightarrow> need_kind" where
  "move_kind f = (if list_ex (\<lambda>r. mq_kind r = Game) (mf_requests f) then Game else Agent)"

datatype move_unfit = NoSandboxMade | PinnedElsewhere string | HeldForResume resume_hold | OtherLegThere string | LegAvoids string | MacClient

text \<open>What a request's pair has against a computer.\<close>

definition pair_against :: "computer \<Rightarrow> move_request \<Rightarrow> move_unfit option" where
  "pair_against p r =
     (case mq_pair r of
        None \<Rightarrow> None
      | Some m \<Rightarrow>
          if list_ex (\<lambda>x. placeId x = cp_id p) (mp_others m) then Some (OtherLegThere (mq_id r))
          else if list_ex (\<lambda>x. placeId x = cp_id p) (mp_avoid m) then Some (LegAvoids (mq_id r))
          else if cp_platform p = Some ''darwin'' \<and> 1 < mp_leg m then Some MacClient
          else None)"

definition over :: "'a option \<Rightarrow> 'a option \<Rightarrow> 'a option" where
  "over old new = (if new = None then old else new)"

text \<open>Why a computer cannot take the move; of several reasons the last found counts.\<close>

definition move_unfit :: "move_facts \<Rightarrow> computer \<Rightarrow> move_unfit option" where
  "move_unfit f p =
     foldl over
       (over (over (if move_kind f = Game \<and> cp_freeSandboxes p < 1 then Some NoSandboxMade else None)
          (map_option (\<lambda>r. PinnedElsewhere (mq_id r))
            (find (\<lambda>r. mq_pinned r \<noteq> [] \<and> \<not> list_ex (\<lambda>x. placeId x = cp_id p) (mq_pinned r)) (mf_requests f))))
          (map_option HeldForResume (holdReason (cp_id p) (mf_prefs f) (map mq_id (mf_requests f)))))
       (map (pair_against p) (mf_requests f))"

definition move_candidates :: "move_facts \<Rightarrow> computer list" where
  "move_candidates f = filter (\<lambda>p. cp_id p \<noteq> placeId (mf_machine f) \<and> move_unfit f p = None) (mf_places f)"

text \<open>The first list or timed kind that any of the requests has.\<close>

fun first_given :: "first_kind option list \<Rightarrow> first_kind option" where
  "first_given [] = None"
| "first_given (None # fs) = first_given fs"
| "first_given (Some k # fs) = Some k"

definition move_prefs :: "move_facts \<Rightarrow> placement_prefs" where
  "move_prefs f = forPriority (mf_prefs f) (lowestPriority (map mq_priority (mf_requests f)))"

definition moveDecision :: "move_facts \<Rightarrow> move_decision" where
  "moveDecision f =
     (if mf_requests f = [] then NoMove NothingServed
      else if mf_benchHeld f \<and> \<not> mf_away f then StayHere BenchHeldHere
      else case find (\<lambda>r. case mq_pair r of Some m \<Rightarrow> mp_live m | None \<Rightarrow> False) (mf_requests f) of
        Some r \<Rightarrow>
          (let m = the (mq_pair r)
           in if \<not> mf_released f then StayHere (PairUnderWay (mq_id r) (mp_leg m) (mp_others m))
              else RequeuePair (mq_id r) (mp_leg m))
      | None \<Rightarrow>
          (case stay_reason f of
             Some why \<Rightarrow> StayHere why
           | None \<Rightarrow>
               (case pickComputer (move_candidates f) (mf_last f) (move_prefs f) (move_kind f) False
                       (first_given (map mq_first (mf_requests f))) of
                  None \<Rightarrow> NoMove (NoneCanTake (move_kind f))
                | Some (p, why) \<Rightarrow> MoveTo p why)))"

section \<open>What a move keeps\<close>

lemma over_none [simp]: "over a b = None \<longleftrightarrow> a = None \<and> b = None"
  by (cases b) (simp_all add: over_def)

lemma foldl_over: "foldl over a bs = None \<longleftrightarrow> a = None \<and> (\<forall>b \<in> set bs. b = None)"
  by (induction bs arbitrary: a) auto

lemma move_unfit_none:
  "move_unfit f p = None \<longleftrightarrow>
     (move_kind f = Game \<longrightarrow> 1 \<le> cp_freeSandboxes p)
     \<and> (\<forall>r \<in> set (mf_requests f). mq_pinned r = [] \<or> list_ex (\<lambda>x. placeId x = cp_id p) (mq_pinned r))
     \<and> holdReason (cp_id p) (mf_prefs f) (map mq_id (mf_requests f)) = None
     \<and> (\<forall>r \<in> set (mf_requests f). pair_against p r = None)"
  by (auto simp: move_unfit_def foldl_over find_None_iff list_ex_iff)

definition only_here :: "move_facts \<Rightarrow> bool" where
  "only_here f \<longleftrightarrow>
     \<not> said (mf_branch f) \<or> list_ex mq_timedLeg (mf_requests f) \<or> mf_benchHeld f
     \<or> (case mf_git f of
          None \<Rightarrow> False
        | Some g \<Rightarrow>
            \<not> tracks_own f g \<or> (\<exists>n. mg_ahead g = Some n \<and> 0 < n)
            \<or> \<not> mf_released f \<and> \<not> mf_canSave f \<and> 0 < mg_dirty g + mg_untracked g)"

lemma stay_reason_none:
  assumes "stay_reason f = None"
  shows "\<forall>r \<in> set (mf_requests f). mq_pinned r = [] \<or> (\<exists>x \<in> set (mq_pinned r). placeId x \<noteq> placeId (mf_machine f))"
    and "mf_away f \<or> mf_benchHeld f \<or> \<not> only_here f"
  using assms
  by (auto simp: stay_reason_def only_here_def find_None_iff list_all_iff list_ex_iff split: option.splits if_splits)

text \<open>
  C28. A worker moves only where its work can go on: to another computer with room for it and a sandbox already made, that takes
  new work of its lowest priority and resumes of its requests, that every pin names, beside no other leg of its pair, and
  never a Mac as a pair's client. While its own computer answers, nothing that exists only there is left behind: no bench
  lock, timed leg, unknown branch, unpushed commit or change that cannot be saved.
\<close>

theorem moves_lose_nothing:
  assumes "moveDecision f = MoveTo p why"
  shows "p \<in> set (mf_places f) \<and> cp_id p \<noteq> placeId (mf_machine f) \<and> is_open (move_prefs f) (move_kind f) p
    \<and> holdReason (cp_id p) (mf_prefs f) (map mq_id (mf_requests f)) = None
    \<and> (move_kind f = Agent \<or> 1 \<le> cp_freeSandboxes p)
    \<and> list_all (\<lambda>r. (mq_pinned r = [] \<or> list_ex (\<lambda>x. placeId x = cp_id p) (mq_pinned r)) \<and> pair_against p r = None) (mf_requests f)
    \<and> (mf_away f \<or> \<not> only_here f)"
proof -
  let ?pick = "pickComputer (move_candidates f) (mf_last f) (move_prefs f) (move_kind f) False (first_given (map mq_first (mf_requests f)))"
  have pick: "?pick = Some (p, why)" and stay: "stay_reason f = None" and bench: "mf_benchHeld f \<longrightarrow> mf_away f"
    using assms by (auto simp: moveDecision_def Let_def split: if_splits option.splits)
  have "p \<in> set (move_candidates f)" "is_open (move_prefs f) (move_kind f) p"
    using chosen.picked [OF pick] by (auto simp: may_take_def)
  then show ?thesis
    using move_unfit_none [of f p] stay_reason_none(2) [OF stay] bench
    by (cases "move_kind f") (auto simp: move_candidates_def list_all_iff)
qed

text \<open>
  A resume waits on because no other computer can take it only where that is so: every other computer is unfit for one of
  its requests, or is not open to its work.
\<close>

theorem waits_only_without_room:
  assumes "moveDecision f = NoMove (NoneCanTake k)" "p \<in> set (mf_places f)" "cp_id p \<noteq> placeId (mf_machine f)"
  shows "move_unfit f p \<noteq> None \<or> \<not> may_take (move_prefs f) k (first_given (map mq_first (mf_requests f))) p"
proof -
  have "pickComputer (move_candidates f) (mf_last f) (move_prefs f) (move_kind f) False (first_given (map mq_first (mf_requests f))) = None"
    "k = move_kind f"
    using assms(1) by (auto simp: moveDecision_def Let_def split: if_splits option.splits)
  then show ?thesis
    using assms(2,3) by (auto simp: chosen.none_picked move_candidates_def)
qed

definition ex_move :: move_facts where
  "ex_move = \<lparr>mf_machine = ''M3'', mf_released = True, mf_branch = Some ''w7-fix'',
     mf_git = Some \<lparr>mg_ahead = Some 0, mg_upstream = Some ''origin/w7-fix'', mg_dirty = 0, mg_untracked = 0\<rparr>,
     mf_canSave = True, mf_benchHeld = False,
     mf_requests = [\<lparr>mq_id = ''w7'', mq_priority = Normal, mq_kind = Game, mq_first = None, mq_pinned = [], mq_timedLeg = False, mq_pair = None\<rparr>],
     mf_places = ex_fleet, mf_prefs = ex_prefs, mf_last = None, mf_away = False\<rparr>"

lemma moves_lose_nothing_witness: "\<not> only_here ex_move \<and> cp_id (ex_pc ''biscuit'' 4 1) \<noteq> placeId (mf_machine ex_move)"
proof -
  have "moveDecision ex_move = MoveTo (ex_pc ''biscuit'' 4 1) PreferredFirst"
    by code_simp
  from moves_lose_nothing [OF this] show ?thesis
    by (auto simp: ex_move_def)
qed

lemma waits_only_without_room_witness:
  "move_unfit (ex_move\<lparr>mf_places := [ex_pc ''beast'' 6 4]\<rparr>) (ex_pc ''beast'' 6 4) \<noteq> None
    \<or> \<not> may_take (move_prefs (ex_move\<lparr>mf_places := [ex_pc ''beast'' 6 4]\<rparr>)) Game None (ex_pc ''beast'' 6 4)"
proof -
  let ?f = "ex_move\<lparr>mf_places := [ex_pc ''beast'' 6 4]\<rparr>"
  have "moveDecision ?f = NoMove (NoneCanTake Game)" "ex_pc ''beast'' 6 4 \<in> set (mf_places ?f)"
    "cp_id (ex_pc ''beast'' 6 4) \<noteq> placeId (mf_machine ?f)" "first_given (map mq_first (mf_requests ?f)) = None"
    by code_simp+
  then show ?thesis
    using waits_only_without_room [of ?f Game "ex_pc ''beast'' 6 4"] by simp
qed

end
