(* ===== verification/PauseRules.thy ===== *)
theory PauseRules
  imports Timers
begin

text \<open>
  A machine's pause (machine/pauseRules.ts, and the class \<open>PauseKeeper\<close> of machine/pause.ts): its settings as read from a
  file or the tray, the windows of its work schedule, the answer (paused or running, why, since when and until when)
  and the keeper that holds it between events. The host's civil days (\<open>new Date(y, m, d, h, min)\<close> and the getters) are
  a value of \<open>local_days\<close>. Times are whole milliseconds. The words of an answer and the tray's menu lines are not modelled.
\<close>

section \<open>Numbers from texts\<close>

text \<open>\<open>Number(x)\<close> where it is finite.\<close>

definition split_sign :: "string \<Rightarrow> rat \<times> string" where
  "split_sign s =
     (case s of
        c # cs \<Rightarrow> if c = CHR ''-'' then (- 1, cs) else if c = CHR ''+'' then (1, cs) else (1, s)
      | [] \<Rightarrow> (1, s))"

definition exponent_of :: "string \<Rightarrow> rat option" where
  "exponent_of e =
     (if e = [] then Some 1
      else (let (sg, ds) = split_sign (tl e) in
            if ds = [] \<or> \<not> list_all is_digit ds then None
            else Some (if sg < 0 then 1 / 10 ^ nat_of_digits ds else 10 ^ nat_of_digits ds)))"

definition decimal_number :: "string \<Rightarrow> rat option" where
  "decimal_number s =
     (let (sg, r) = split_sign s;
          m = takeWhile (\<lambda>c. lower_char c \<noteq> CHR ''e'') r;
          i = takeWhile (\<lambda>c. c \<noteq> CHR ''.'') m;
          f = tl (dropWhile (\<lambda>c. c \<noteq> CHR ''.'') m)
      in if \<not> list_all is_digit (i @ f) \<or> i @ f = [] then None
         else map_option (\<lambda>x. sg * of_nat (nat_of_digits (i @ f)) / 10 ^ length f * x)
                (exponent_of (dropWhile (\<lambda>c. lower_char c \<noteq> CHR ''e'') r)))"

definition radix_digit :: "char \<Rightarrow> nat" where
  "radix_digit c = (if is_digit c then code c - 48 else if is_lower (lower_char c) then code (lower_char c) - 87 else 99)"

definition radix_number :: "nat \<Rightarrow> string \<Rightarrow> rat option" where
  "radix_number b s =
     (if s = [] \<or> \<not> list_all (\<lambda>c. radix_digit c < b) s then None
      else Some (of_nat (foldl (\<lambda>n c. n * b + radix_digit c) 0 s)))"

definition text_number :: "string \<Rightarrow> rat option" where
  "text_number s =
     (let t = trim s in
      if t = [] then Some 0
      else (case lower (take 2 t) of
              [z, x] \<Rightarrow> if z = CHR ''0'' \<and> x = CHR ''x'' then radix_number 16 (drop 2 t)
                        else if z = CHR ''0'' \<and> x = CHR ''o'' then radix_number 8 (drop 2 t)
                        else if z = CHR ''0'' \<and> x = CHR ''b'' then radix_number 2 (drop 2 t)
                        else decimal_number t
            | _ \<Rightarrow> decimal_number t))"

text \<open>An array is the text of its only member; \<open>null\<close> in one is an empty text.\<close>

fun member_number :: "js \<Rightarrow> rat option" where
  "member_number JUndef = Some 0"
| "member_number JNull = Some 0"
| "member_number (JNum x) = Some x"
| "member_number (JStr s) = text_number s"
| "member_number (JArr []) = Some 0"
| "member_number (JArr [x]) = member_number x"
| "member_number _ = None"

fun to_number :: "js \<Rightarrow> rat option" where
  "to_number JNull = Some 0"
| "to_number (JBool b) = Some (if b then 1 else 0)"
| "to_number (JNum x) = Some x"
| "to_number (JStr s) = text_number s"
| "to_number (JArr xs) = member_number (JArr xs)"
| "to_number _ = None"

section \<open>Settings and memory\<close>

definition IDLE_MINUTES :: int where "IDLE_MINUTES = 90"
definition SUPPRESS_SECONDS :: int where "SUPPRESS_SECONDS = 30"

record work_window =
  ww_enabled :: bool
  ww_start :: string
  ww_end :: string
  ww_days :: "int list"

record activity_pause =
  ap_enabled :: bool
  ap_idleMinutes :: int

record pause_settings =
  pz_schedule :: work_window
  pz_activity :: activity_pause

definition DEFAULT_PAUSE_SETTINGS :: pause_settings where
  "DEFAULT_PAUSE_SETTINGS =
     \<lparr>pz_schedule = \<lparr>ww_enabled = False, ww_start = ''22:00'', ww_end = ''08:00'', ww_days = [0, 1, 2, 3, 4, 5, 6]\<rparr>,
      pz_activity = \<lparr>ap_enabled = False, ap_idleMinutes = IDLE_MINUTES\<rparr>\<rparr>"

record tray_word =
  tw_paused :: bool
  tw_at :: int

record pause_memory =
  pm_manual :: "tray_word option"
  pm_inputAt :: "int option"
  pm_ignoreUntil :: "int option"

definition no_memory :: pause_memory where
  "no_memory = \<lparr>pm_manual = None, pm_inputAt = None, pm_ignoreUntil = None\<rparr>"

text \<open>A field that is wrong keeps its default.\<close>

definition clean_bool :: "js \<Rightarrow> bool \<Rightarrow> bool" where
  "clean_bool v d = (case v of JBool b \<Rightarrow> b | _ \<Rightarrow> d)"

definition clean_time :: "js \<Rightarrow> string \<Rightarrow> string" where
  "clean_time v d = (case v of JStr t \<Rightarrow> if hhmm t \<noteq> None then t else d | _ \<Rightarrow> d)"

definition week_day :: "js \<Rightarrow> int option" where
  "week_day v = (case v of JNum x \<Rightarrow> if is_integer x \<and> 0 \<le> x \<and> x \<le> 6 then Some \<lfloor>x\<rfloor> else None | _ \<Rightarrow> None)"

definition clean_days :: "js \<Rightarrow> int list \<Rightarrow> int list" where
  "clean_days v d =
     (case v of JArr xs \<Rightarrow> js_sort cmp_num (js_unique (List.map_filter week_day xs)) | _ \<Rightarrow> d)"

definition clean_idle :: "js \<Rightarrow> int \<Rightarrow> int" where
  "clean_idle v d = (case to_number v of Some x \<Rightarrow> if 1 \<le> x \<and> x \<le> 24 * 60 then js_round x else d | None \<Rightarrow> d)"

definition cleanSettings :: "js \<Rightarrow> pause_settings" where
  "cleanSettings r =
     (let d = DEFAULT_PAUSE_SETTINGS; s = field r ''schedule''; a = field r ''activity'' in
      \<lparr>pz_schedule =
         \<lparr>ww_enabled = clean_bool (field s ''enabled'') (ww_enabled (pz_schedule d)),
          ww_start = clean_time (field s ''start'') (ww_start (pz_schedule d)),
          ww_end = clean_time (field s ''end'') (ww_end (pz_schedule d)),
          ww_days = clean_days (field s ''days'') (ww_days (pz_schedule d))\<rparr>,
       pz_activity =
         \<lparr>ap_enabled = clean_bool (field a ''enabled'') (ap_enabled (pz_activity d)),
          ap_idleMinutes = clean_idle (field a ''idleMinutes'') (ap_idleMinutes (pz_activity d))\<rparr>\<rparr>)"

section \<open>The windows of a schedule\<close>

text \<open>
  \<open>ld_day\<close> numbers the civil day a time falls on (1970-01-01 is 0), \<open>ld_at\<close> is the time of a day's minute
  (\<open>new Date(y, m, d, h, min).getTime()\<close>).
\<close>

record local_days =
  ld_day :: "int \<Rightarrow> int"
  ld_at :: "int \<Rightarrow> int \<Rightarrow> int"

definition weekday :: "int \<Rightarrow> int" where
  "weekday d = (d + 4) mod 7"

definition minutesOf :: "string \<Rightarrow> int" where
  "minutesOf s = (case hhmm s of Some (h, m) \<Rightarrow> h * 60 + m | None \<Rightarrow> 0)"

definition window_start :: "local_days \<Rightarrow> work_window \<Rightarrow> int \<Rightarrow> int" where
  "window_start L s d = ld_at L d (minutesOf (ww_start s))"

definition window_end :: "local_days \<Rightarrow> work_window \<Rightarrow> int \<Rightarrow> int" where
  "window_end L s d =
     ld_at L (d + (if minutesOf (ww_start s) < minutesOf (ww_end s) then 0 else 1)) (minutesOf (ww_end s))"

definition window_days :: int where "window_days = 8"

definition windowsAround :: "local_days \<Rightarrow> work_window \<Rightarrow> int \<Rightarrow> (int \<times> int) list" where
  "windowsAround L s now =
     map (\<lambda>d. (window_start L s d, window_end L s d))
       (filter (\<lambda>d. weekday d \<in> set (ww_days s)) (map (\<lambda>k. ld_day L now + k) [- window_days..window_days]))"

text \<open>Windows that touch or overlap are one.\<close>

definition add_window :: "(int \<times> int) list \<Rightarrow> int \<times> int \<Rightarrow> (int \<times> int) list" where
  "add_window acc w =
     (if acc \<noteq> [] \<and> fst w \<le> snd (last acc)
      then butlast acc @ [(fst (last acc), max (snd (last acc)) (snd w))]
      else acc @ [w])"

definition merge_windows :: "(int \<times> int) list \<Rightarrow> (int \<times> int) list" where
  "merge_windows ws = foldl add_window [] (js_sort (\<lambda>a b. cmp_num (fst a) (fst b)) ws)"

definition window_edges :: "(int \<times> int) list \<Rightarrow> int list" where
  "window_edges ms = js_sort cmp_num (concat (map (\<lambda>(a, b). [a, b]) ms))"

definition last_of :: "'a list \<Rightarrow> 'a option" where
  "last_of xs = (if xs = [] then None else Some (last xs))"

record schedule_view =
  sv_inside :: bool
  sv_lastEdge :: "int option"
  sv_nextEdge :: "int option"

definition scheduleAt :: "local_days \<Rightarrow> work_window \<Rightarrow> int \<Rightarrow> schedule_view option" where
  "scheduleAt L s now =
     (if \<not> ww_enabled s \<or> ww_days s = [] then None
      else (let ms = merge_windows (windowsAround L s now); es = window_edges ms in
            Some \<lparr>sv_inside = list_ex (\<lambda>(a, b). a \<le> now \<and> now < b) ms,
                  sv_lastEdge = last_of (filter (\<lambda>e. e \<le> now) es),
                  sv_nextEdge = find (\<lambda>e. now < e) es\<rparr>))"

section \<open>Events\<close>

definition trayCommand :: "pause_memory \<Rightarrow> bool \<Rightarrow> int \<Rightarrow> pause_memory" where
  "trayCommand mem paused now =
     (if paused then mem\<lparr>pm_manual := Some \<lparr>tw_paused = True, tw_at = now\<rparr>\<rparr>
      else \<lparr>pm_manual = Some \<lparr>tw_paused = False, tw_at = now\<rparr>, pm_inputAt = None,
            pm_ignoreUntil = Some (now + SUPPRESS_SECONDS * 1000)\<rparr>)"

definition personInput :: "pause_memory \<Rightarrow> int \<Rightarrow> pause_memory" where
  "personInput mem t =
     (if case pm_ignoreUntil mem of Some u \<Rightarrow> t < u | None \<Rightarrow> False then mem
      else if case pm_inputAt mem of Some i \<Rightarrow> t \<le> i | None \<Rightarrow> False then mem
      else mem\<lparr>pm_inputAt := Some t\<rparr>)"

section \<open>The answer\<close>

datatype pause_reason = Manual | OnSchedule | Activity

record pause_answer =
  pa_paused :: bool
  pa_reason :: "pause_reason option"
  pa_since :: "int option"
  pa_until :: "int option"

definition live_word :: "pause_memory \<Rightarrow> schedule_view option \<Rightarrow> tray_word option" where
  "live_word mem sv =
     (case pm_manual mem of
        None \<Rightarrow> None
      | Some w \<Rightarrow>
          (case sv of
             None \<Rightarrow> Some w
           | Some v \<Rightarrow> (case sv_lastEdge v of None \<Rightarrow> Some w | Some e \<Rightarrow> if e \<le> tw_at w then Some w else None)))"

definition pause_base :: "pause_memory \<Rightarrow> schedule_view option \<Rightarrow> pause_answer" where
  "pause_base mem sv =
     (let until = (case sv of Some v \<Rightarrow> sv_nextEdge v | None \<Rightarrow> None) in
      case live_word mem sv of
        Some w \<Rightarrow> \<lparr>pa_paused = tw_paused w, pa_reason = Some Manual, pa_since = Some (tw_at w), pa_until = until\<rparr>
      | None \<Rightarrow>
          (case sv of
             Some v \<Rightarrow> \<lparr>pa_paused = (\<not> sv_inside v), pa_reason = Some OnSchedule, pa_since = sv_lastEdge v, pa_until = until\<rparr>
           | None \<Rightarrow> \<lparr>pa_paused = False, pa_reason = None, pa_since = None, pa_until = None\<rparr>))"

definition idle_ms :: "pause_settings \<Rightarrow> int" where
  "idle_ms st = ap_idleMinutes (pz_activity st) * 60000"

definition person_here :: "pause_settings \<Rightarrow> pause_memory \<Rightarrow> int \<Rightarrow> bool" where
  "person_here st mem now =
     (ap_enabled (pz_activity st) \<and> (case pm_inputAt mem of Some i \<Rightarrow> now < i + idle_ms st | None \<Rightarrow> False))"

definition pauseState :: "local_days \<Rightarrow> pause_settings \<Rightarrow> pause_memory \<Rightarrow> int \<Rightarrow> pause_answer" where
  "pauseState L st mem now =
     (let base = pause_base mem (scheduleAt L (pz_schedule st) now) in
      if \<not> pa_paused base \<and> person_here st mem now
      then \<lparr>pa_paused = True, pa_reason = Some Activity, pa_since = pm_inputAt mem,
            pa_until = map_option (\<lambda>i. i + idle_ms st) (pm_inputAt mem)\<rparr>
      else base)"

definition nextChangeAt :: "local_days \<Rightarrow> pause_settings \<Rightarrow> pause_memory \<Rightarrow> int \<Rightarrow> int option" where
  "nextChangeAt L st mem now =
     (let cands = [case scheduleAt L (pz_schedule st) now of Some v \<Rightarrow> sv_nextEdge v | None \<Rightarrow> None,
                   if ap_enabled (pz_activity st) then map_option (\<lambda>i. i + idle_ms st) (pm_inputAt mem) else None,
                   pm_ignoreUntil mem]
      in case js_sort cmp_num (filter (\<lambda>x. now < x) (List.map_filter (\<lambda>x. x) cands)) of
           [] \<Rightarrow> None
         | c # _ \<Rightarrow> Some c)"

definition settingsChanged :: "local_days \<Rightarrow> pause_settings \<Rightarrow> pause_memory \<Rightarrow> int \<Rightarrow> pause_memory" where
  "settingsChanged L old mem now =
     (case (case scheduleAt L (pz_schedule old) now of Some v \<Rightarrow> sv_lastEdge v | None \<Rightarrow> None) of
        None \<Rightarrow> mem
      | Some e \<Rightarrow>
          (case pm_manual mem of
             None \<Rightarrow> mem
           | Some w \<Rightarrow> if e \<le> tw_at w then mem else mem\<lparr>pm_manual := None\<rparr>))"

section \<open>The keeper\<close>

definition PAUSE_FILE_VERSION :: int where "PAUSE_FILE_VERSION = 2"
definition LOOK_EVERY_MS :: int where "LOOK_EVERY_MS = 60000"

text \<open>
  What the daemon holds: \<open>kp_last\<close> is the last answer told, looked up at \<open>kp_at\<close>; \<open>kp_due\<close> is when its timer fires.
  What it does beside its own state is a list of effects.
\<close>

record keeper =
  kp_settings :: pause_settings
  kp_mem :: pause_memory
  kp_last :: pause_answer
  kp_at :: int
  kp_due :: "int option"
  kp_tray :: string
  kp_migrated :: bool

datatype pause_effect =
    Saved pause_settings pause_memory
  | Told pause_answer

text \<open>A saved file: its version, its settings as read, and the memory the keeper wrote.\<close>

record pause_file =
  pf_v :: "int option"
  pf_settings :: js
  pf_memory :: pause_memory

definition keeper_load :: "local_days \<Rightarrow> pause_file option \<Rightarrow> int \<Rightarrow> keeper" where
  "keeper_load L f now =
     (let st0 = (case f of Some x \<Rightarrow> cleanSettings (pf_settings x) | None \<Rightarrow> DEFAULT_PAUSE_SETTINGS);
          old = (case f of
                   Some x \<Rightarrow> (case pf_v x of Some v \<Rightarrow> v | None \<Rightarrow> 1) < PAUSE_FILE_VERSION \<and> ap_enabled (pz_activity st0)
                 | None \<Rightarrow> False);
          st = (if old then st0\<lparr>pz_activity := (pz_activity st0)\<lparr>ap_enabled := False\<rparr>\<rparr> else st0);
          mem = (case f of Some x \<Rightarrow> pf_memory x | None \<Rightarrow> no_memory)
      in \<lparr>kp_settings = st, kp_mem = mem, kp_last = pauseState L st mem now, kp_at = now, kp_due = None,
          kp_tray = ''not started'', kp_migrated = old\<rparr>)"

definition next_look :: "local_days \<Rightarrow> keeper \<Rightarrow> int \<Rightarrow> int" where
  "next_look L k now =
     now + max 250 (min LOOK_EVERY_MS
       (case nextChangeAt L (kp_settings k) (kp_mem k) now of Some d \<Rightarrow> d - now + 50 | None \<Rightarrow> LOOK_EVERY_MS))"

definition set_timer :: "local_days \<Rightarrow> keeper \<Rightarrow> int \<Rightarrow> keeper" where
  "set_timer L k now = k\<lparr>kp_due := Some (next_look L k now)\<rparr>"

definition look_pause :: "local_days \<Rightarrow> bool \<Rightarrow> int \<Rightarrow> keeper \<Rightarrow> keeper \<times> pause_effect list" where
  "look_pause L force now k =
     (let p = pauseState L (kp_settings k) (kp_mem k) now;
          k' = k\<lparr>kp_last := p, kp_at := now\<rparr>
      in (set_timer L k' now, if kp_last k \<noteq> p \<or> force then [Told p] else []))"

definition save_pause :: "keeper \<Rightarrow> pause_effect" where
  "save_pause k = Saved (kp_settings k) (kp_mem k)"

definition start_keeper :: "local_days \<Rightarrow> int \<Rightarrow> keeper \<Rightarrow> keeper \<times> pause_effect list" where
  "start_keeper L now k =
     (if kp_migrated k
      then (let m = (kp_mem k)\<lparr>pm_inputAt := None\<rparr>;
                k' = k\<lparr>kp_mem := m, kp_last := pauseState L (kp_settings k) m now, kp_at := now, kp_migrated := False\<rparr>
            in (set_timer L k' now, [save_pause k']))
      else (set_timer L k now, []))"

definition command_pause :: "local_days \<Rightarrow> bool \<Rightarrow> int \<Rightarrow> keeper \<Rightarrow> keeper \<times> pause_effect list" where
  "command_pause L paused now k =
     (let k1 = k\<lparr>kp_mem := trayCommand (kp_mem k) paused now\<rparr>; (k2, es) = look_pause L True now k1
      in (k2, save_pause k1 # es))"

text \<open>An input from the future is taken as now; \<open>None\<close> is a time that is not finite.\<close>

definition input_time :: "int option \<Rightarrow> int \<Rightarrow> int" where
  "input_time t now = (case t of Some a \<Rightarrow> if a \<le> now + 5000 then min a now else now | None \<Rightarrow> now)"

definition input_pause :: "local_days \<Rightarrow> int option \<Rightarrow> int \<Rightarrow> keeper \<Rightarrow> keeper \<times> pause_effect list" where
  "input_pause L t now k =
     (if \<not> ap_enabled (pz_activity (kp_settings k)) then (k, [])
      else (let m = personInput (kp_mem k) (input_time t now) in
            if m = kp_mem k then (k, [])
            else (let k1 = k\<lparr>kp_mem := m\<rparr>; (k2, es) = look_pause L False now k1 in (k2, save_pause k1 # es))))"

definition set_settings :: "local_days \<Rightarrow> js \<Rightarrow> int \<Rightarrow> keeper \<Rightarrow> keeper \<times> pause_effect list \<times> activity_pause option" where
  "set_settings L raw now k =
     (let nw = cleanSettings raw; old = kp_settings k in
      if nw = old then (k, [], None)
      else (let m1 = settingsChanged L old (kp_mem k) now;
                m2 = (if \<not> ap_enabled (pz_activity nw) then m1\<lparr>pm_inputAt := None\<rparr> else m1);
                k1 = k\<lparr>kp_settings := nw, kp_mem := m2\<rparr>;
                (k2, es) = look_pause L True now k1
            in (k2, save_pause k1 # es, if pz_activity nw \<noteq> pz_activity old then Some (pz_activity nw) else None)))"

text \<open>The settings as \<open>setActivity\<close> hands them on, and as the file holds them.\<close>

definition settings_js :: "work_window \<Rightarrow> bool \<Rightarrow> rat \<Rightarrow> js" where
  "settings_js s on idle =
     JObj [(''schedule'', JObj [(''enabled'', JBool (ww_enabled s)), (''start'', JStr (ww_start s)), (''end'', JStr (ww_end s)),
                               (''days'', JArr (map (\<lambda>d. JNum (of_int d)) (ww_days s)))]),
           (''activity'', JObj [(''enabled'', JBool on), (''idleMinutes'', JNum idle)])]"

definition set_activity :: "local_days \<Rightarrow> bool \<Rightarrow> rat \<Rightarrow> int \<Rightarrow> keeper \<Rightarrow> keeper \<times> pause_effect list \<times> activity_pause option" where
  "set_activity L on idle now k = set_settings L (settings_js (pz_schedule (kp_settings k)) on idle) now k"

definition set_tray :: "local_days \<Rightarrow> string \<Rightarrow> int \<Rightarrow> keeper \<Rightarrow> keeper \<times> pause_effect list" where
  "set_tray L status now k = (if status = kp_tray k then (k, []) else look_pause L True now (k\<lparr>kp_tray := status\<rparr>))"

definition saved_file :: "keeper \<Rightarrow> pause_file" where
  "saved_file k =
     \<lparr>pf_v = Some PAUSE_FILE_VERSION,
      pf_settings = settings_js (pz_schedule (kp_settings k)) (ap_enabled (pz_activity (kp_settings k)))
                      (of_int (ap_idleMinutes (pz_activity (kp_settings k)))),
      pf_memory = kp_mem k\<rparr>"

text \<open>The civil days of a zone that keeps one offset from UTC.\<close>

definition fixed_zone :: "int \<Rightarrow> local_days" where
  "fixed_zone off =
     \<lparr>ld_day = (\<lambda>t. (t + off) div 86400000), ld_at = (\<lambda>d m. d * 86400000 + m * 60000 - off)\<rparr>"

end
