(* ===== verification/PauseProps.thy ===== *)
theory PauseProps
  imports PauseRules
begin

text \<open>
  What the pause of a machine promises: the edges a schedule shows are the true ones (of all days, not of the days looked at
  alone), the answer holds until the next change named, the keeper looks again in time, a person's input and the tray's
  word win as said, and settings read are in range. The locale \<open>steady_days\<close> is what is needed of the host's civil days; a
  zone of constant offset is an instance.
\<close>

section \<open>Merged windows\<close>

definition apart :: "(int \<times> int) list \<Rightarrow> bool" where
  "apart ws \<longleftrightarrow> sorted_wrt (\<lambda>a b. snd a \<le> fst b) ws \<and> list_all (\<lambda>w. fst w < snd w) ws"

text \<open>What the merge keeps: runs with gaps between them, the same times covered, and the edges where no two windows touch.\<close>

definition covers :: "(int \<times> int) list \<Rightarrow> int \<Rightarrow> bool" where
  "covers ws t \<longleftrightarrow> (\<exists>(a, b) \<in> set ws. a \<le> t \<and> t < b)"

definition ends_of :: "(int \<times> int) list \<Rightarrow> int set" where
  "ends_of ms = fst ` set ms \<union> snd ` set ms"

definition run_list :: "(int \<times> int) list \<Rightarrow> bool" where
  "run_list ms \<longleftrightarrow> sorted_wrt (\<lambda>a b. snd a < fst b) ms \<and> list_all (\<lambda>w. fst w < snd w) ms"

lemma run_list_snoc: "run_list (ms @ [w]) \<longleftrightarrow> run_list ms \<and> fst w < snd w \<and> (\<forall>m \<in> set ms. snd m < fst w)"
  by (auto simp: run_list_def sorted_wrt_append)

lemma apart_snoc: "apart (ws @ [w]) \<longleftrightarrow> apart ws \<and> fst w < snd w \<and> (\<forall>m \<in> set ws. snd m \<le> fst w)"
  by (auto simp: apart_def sorted_wrt_append)

definition merge_ok :: "(int \<times> int) list \<Rightarrow> (int \<times> int) list \<Rightarrow> bool" where
  "merge_ok ws ms \<longleftrightarrow>
     run_list ms \<and> (\<forall>t. covers ms t = covers ws t)
     \<and> (\<forall>e. e \<in> ends_of ms \<longleftrightarrow> (e \<in> fst ` set ws) \<noteq> (e \<in> snd ` set ws))
     \<and> (if ws = [] then ms = [] else ms \<noteq> [] \<and> snd (last ms) = snd (last ws))"

lemma merge_ok_snoc:
  assumes ok: "merge_ok ws ms" and ap: "apart (ws @ [w])"
  shows "merge_ok (ws @ [w]) (add_window ms w)"
proof (cases "ms = []")
  case True
  then have "ws = []" using ok by (auto simp: merge_ok_def split: if_splits)
  then show ?thesis using True ap
    by (auto simp: merge_ok_def add_window_def run_list_def covers_def ends_of_def apart_def)
next
  case False
  then have ne: "ws \<noteq> []" and l: "snd (last ms) = snd (last ws)" using ok by (auto simp: merge_ok_def split: if_splits)
  obtain ms0 m where ms: "ms = ms0 @ [m]" using False by (metis append_butlast_last_id)
  obtain a b where m: "m = (a, b)" by (cases m)
  obtain u v where w: "w = (u, v)" by (cases w)
  have lb: "b = snd (last ws)" using l ms m by simp
  have before: "snd x \<le> u" if "x \<in> set ws" for x using ap that w by (auto simp: apart_snoc)
  have uv: "u < v" using ap w by (simp add: apart_snoc)
  have bu: "b \<le> u" using before [of "last ws"] ne lb by simp
  have pos: "fst x < snd x" if "x \<in> set ws" for x using ap that by (auto simp: apart_def list_all_iff)
  have run: "run_list ms0" "a < b" "\<forall>x \<in> set ms0. snd x < a"
    using ok ms m by (auto simp: merge_ok_def run_list_snoc)
  have cov: "covers ms t = covers ws t" for t using ok by (simp add: merge_ok_def)
  have ed: "e \<in> ends_of ms \<longleftrightarrow> (e \<in> fst ` set ws) \<noteq> (e \<in> snd ` set ws)" for e using ok by (simp add: merge_ok_def)
  have small: "x < u" if "x \<in> fst ` set ws" for x using before pos that by force
  have smalls: "x \<le> u" if "x \<in> snd ` set ws" for x using before that by force
  have bin: "b \<in> snd ` set ws" using lb ne by (metis image_eqI last_in_set)
  show ?thesis
  proof (cases "u \<le> b")
    case True
    then have ub: "u = b" using bu by simp
    have add: "add_window ms w = ms0 @ [(a, v)]" using ms m w ub uv by (simp add: add_window_def)
    have "covers (ms0 @ [(a, v)]) t = covers (ws @ [w]) t" for t
      using cov [of t] run uv unfolding covers_def ms m w ub by auto
    moreover have "e \<in> ends_of (ms0 @ [(a, v)]) \<longleftrightarrow> (e \<in> fst ` set (ws @ [w])) \<noteq> (e \<in> snd ` set (ws @ [w]))" for e
    proof -
      have ms0: "x < b" if "x \<in> ends_of ms0" for x
        using that run by (fastforce simp: ends_of_def run_list_def list_all_iff)
      have *: "e \<in> ends_of ms \<longleftrightarrow> e \<in> ends_of ms0 \<or> e = a \<or> e = b" by (auto simp: ends_of_def ms m)
      have **: "e \<in> ends_of (ms0 @ [(a, v)]) \<longleftrightarrow> e \<in> ends_of ms0 \<or> e = a \<or> e = v" by (auto simp: ends_of_def)
      consider "e = b" | "e = v" | "e \<noteq> b" "e \<noteq> v" by blast
      then show ?thesis
      proof cases
        case 1 then show ?thesis using ** ms0 [of e] run uv ub bin w small [of b] by auto
      next
        case 2 then show ?thesis using ** w uv small [of v] smalls [of v] by auto
      next
        case 3 then show ?thesis using ** * ed [of e] w ub by auto
      qed
    qed
    ultimately show ?thesis using add run uv ub w by (auto simp: merge_ok_def run_list_snoc)
  next
    case False
    then have add: "add_window ms w = ms @ [w]" using ms m w by (simp add: add_window_def)
    have "e \<in> ends_of (ms @ [w]) \<longleftrightarrow> (e \<in> fst ` set (ws @ [w])) \<noteq> (e \<in> snd ` set (ws @ [w]))" for e
    proof -
      have us: "u \<notin> snd ` set ws"
      proof
        assume "u \<in> snd ` set ws"
        then have "u \<notin> fst ` set ws" using small by blast
        then have "u \<in> ends_of ms" using ed [of u] \<open>u \<in> snd ` set ws\<close> by simp
        then show False using run False bu uv
          by (fastforce simp: ends_of_def ms m run_list_def list_all_iff)
      qed
      have *: "e \<in> ends_of (ms @ [w]) \<longleftrightarrow> e \<in> ends_of ms \<or> e = u \<or> e = v" by (auto simp: ends_of_def w)
      show ?thesis
        using * ed [of e] us small [of u] small [of v] smalls [of v] uv w by auto
    qed
    moreover have "covers (ms @ [w]) t = covers (ws @ [w]) t" for t using cov [of t] by (auto simp: covers_def)
    moreover have "run_list (ms @ [w])"
      unfolding run_list_snoc [of ms] using ok run False bu uv by (auto simp: merge_ok_def ms m w)
    ultimately show ?thesis using add by (simp add: merge_ok_def)
  qed
qed

lemma merge_ok_foldl: "apart ws \<Longrightarrow> merge_ok ws (foldl add_window [] ws)"
proof (induction ws rule: rev_induct)
  case Nil
  then show ?case by (simp add: merge_ok_def run_list_def covers_def ends_of_def)
next
  case (snoc w ws)
  then show ?case using merge_ok_snoc by (simp add: apart_snoc)
qed

lemma js_sort_apart:
  assumes "apart ws"
  shows "js_sort (\<lambda>a b. cmp_num (fst a) (fst b)) ws = ws"
  using assms
proof (induction ws)
  case (Cons w ws)
  then have "js_sort (\<lambda>a b. cmp_num (fst a) (fst b)) ws = ws" by (simp add: apart_def)
  moreover have "js_insert (\<lambda>a b. cmp_num (fst a) (fst b)) w ws = w # ws"
    using Cons.prems by (cases ws) (auto simp: apart_def cmp_num_def)
  ultimately show ?case by (simp add: js_sort_def)
qed (simp add: js_sort_def)

lemma merge_windows_ok: "apart ws \<Longrightarrow> merge_ok ws (merge_windows ws)"
  by (simp add: merge_windows_def js_sort_apart merge_ok_foldl)

section \<open>Sorted edges\<close>

lemma sorted_js_sort_num: "sorted (js_sort cmp_num xs)" for xs :: "int list"
proof -
  have "comparator (\<lambda>a b. cmp_num (id a) (id b :: int))" by (rule comparator_num)
  then have "sorted_wrt (\<lambda>a b. cmp_num a b \<le> 0) (js_sort cmp_num xs)" using comparator.sorted_js_sort by force
  moreover have "(\<lambda>a b. cmp_num a b \<le> 0) = ((\<le>) :: int \<Rightarrow> int \<Rightarrow> bool)" by (auto simp: cmp_num_def fun_eq_iff)
  ultimately show ?thesis by simp
qed

lemma sorted_le_last: "sorted xs \<Longrightarrow> x \<in> set xs \<Longrightarrow> x \<le> last xs" for x :: int
  by (induction xs) auto

lemma last_of_sorted:
  assumes "sorted xs" "e \<in> set xs" "e \<le> n" "\<And>x. x \<in> set xs \<Longrightarrow> x \<le> n \<Longrightarrow> x \<le> e"
  shows "last_of (filter (\<lambda>x. x \<le> n) xs) = Some (e :: int)"
proof -
  let ?ys = "filter (\<lambda>x. x \<le> n) xs"
  have ne: "?ys \<noteq> []" using assms(2,3) by (auto simp: filter_empty_conv)
  then have "last ?ys \<in> set ?ys" by (rule last_in_set)
  then have "last ?ys \<le> e" using assms(4) by simp
  moreover have "e \<le> last ?ys"
    using assms(1,2,3) by (intro sorted_le_last) (auto simp: sorted_wrt_filter)
  ultimately show ?thesis using ne by (simp add: last_of_def)
qed

lemma find_sorted:
  assumes "sorted xs" "e \<in> set xs" "n < e" "\<And>x. x \<in> set xs \<Longrightarrow> n < x \<Longrightarrow> e \<le> x"
  shows "find (\<lambda>x. n < x) xs = Some (e :: int)"
  using assms
proof (induction xs)
  case (Cons y ys)
  show ?case
  proof (cases "n < y")
    case True
    then have "e \<le> y" using Cons.prems(4) by simp
    moreover have "y \<le> e" using Cons.prems(1,2) by auto
    ultimately show ?thesis using True by simp
  next
    case False
    then show ?thesis using Cons by auto
  qed
qed simp

lemma set_window_edges: "set (window_edges ms) = ends_of ms"
  by (force simp: window_edges_def ends_of_def)

section \<open>The true windows\<close>

definition works_on :: "work_window \<Rightarrow> int \<Rightarrow> bool" where
  "works_on s d \<longleftrightarrow> weekday d \<in> set (ww_days s)"

definition work_time :: "local_days \<Rightarrow> work_window \<Rightarrow> int \<Rightarrow> bool" where
  "work_time L s t \<longleftrightarrow> (\<exists>d. works_on s d \<and> window_start L s d \<le> t \<and> t < window_end L s d)"

definition true_edge :: "local_days \<Rightarrow> work_window \<Rightarrow> int \<Rightarrow> bool" where
  "true_edge L s e \<longleftrightarrow>
     (\<exists>d. works_on s d \<and> e = window_start L s d) \<noteq> (\<exists>d. works_on s d \<and> e = window_end L s d)"

definition last_edge :: "local_days \<Rightarrow> work_window \<Rightarrow> int \<Rightarrow> int \<Rightarrow> bool" where
  "last_edge L s now e \<longleftrightarrow> true_edge L s e \<and> e \<le> now \<and> (\<forall>x. true_edge L s x \<and> x \<le> now \<longrightarrow> x \<le> e)"

definition next_edge :: "local_days \<Rightarrow> work_window \<Rightarrow> int \<Rightarrow> int \<Rightarrow> bool" where
  "next_edge L s now e \<longleftrightarrow> true_edge L s e \<and> now < e \<and> (\<forall>x. true_edge L s x \<and> now < x \<longrightarrow> e \<le> x)"

text \<open>A schedule with a day or an hour of rest in the week.\<close>

definition has_rest :: "work_window \<Rightarrow> bool" where
  "has_rest s \<longleftrightarrow>
     ww_days s \<noteq> [] \<and> list_all (\<lambda>w. 0 \<le> w \<and> w \<le> 6) (ww_days s)
     \<and> (minutesOf (ww_start s) \<noteq> minutesOf (ww_end s) \<or> list_ex (\<lambda>w. w \<notin> set (ww_days s)) [0, 1, 2, 3, 4, 5, 6])"

lemma minutesOf_range: "0 \<le> minutesOf s" "minutesOf s < 1440"
  by (auto simp: minutesOf_def hhmm_def is_digit_def split: list.splits option.splits if_splits)

locale steady_days =
  fixes L :: local_days
  assumes later_minute: "m < m' \<Longrightarrow> ld_at L d m < ld_at L d m'"
    and next_day: "m < 1440 \<Longrightarrow> 0 \<le> m' \<Longrightarrow> ld_at L d m < ld_at L (d + 1) m'"
    and in_day: "ld_at L (ld_day L t) 0 \<le> t" "t < ld_at L (ld_day L t + 1) 0"
begin

lemma midnight_less: "d < d' \<Longrightarrow> ld_at L d 0 < ld_at L d' 0"
proof (induction d' rule: int_gr_induct)
  case base
  then show ?case using next_day [of 0 0] by simp
next
  case (step i)
  then show ?case using next_day [of 0 0 i] by simp
qed

lemma midnight_le_iff [simp]: "ld_at L d 0 \<le> ld_at L d' 0 \<longleftrightarrow> d \<le> d'"
  using midnight_less [of d d'] midnight_less [of d' d] by (cases "d < d'"; cases "d = d'") auto

lemma midnight_less_iff [simp]: "ld_at L d 0 < ld_at L d' 0 \<longleftrightarrow> d < d'"
  using midnight_le_iff [of d' d] by linarith

lemma start_in_day: "ld_at L d 0 \<le> window_start L s d" "window_start L s d < ld_at L (d + 1) 0"
  using later_minute [of 0 "minutesOf (ww_start s)" d] next_day [of "minutesOf (ww_start s)" 0 d] minutesOf_range [of "ww_start s"]
  by (auto simp: window_start_def le_less)

lemma window_some: "window_start L s d < window_end L s d"
  using later_minute [of "minutesOf (ww_start s)" "minutesOf (ww_end s)" d]
    next_day [of "minutesOf (ww_start s)" "minutesOf (ww_end s)" d] minutesOf_range
  by (auto simp: window_start_def window_end_def)

lemma end_before_next: "window_end L s d \<le> window_start L s (d + 1)"
  using later_minute [of "minutesOf (ww_end s)" "minutesOf (ww_start s)" "d + 1"]
    next_day [of "minutesOf (ww_end s)" "minutesOf (ww_start s)" d] minutesOf_range
  by (auto simp: window_start_def window_end_def le_less not_less)

lemma touch_iff: "window_end L s d = window_start L s (d + 1) \<longleftrightarrow> minutesOf (ww_start s) = minutesOf (ww_end s)"
  using later_minute [of "minutesOf (ww_end s)" "minutesOf (ww_start s)" "d + 1"]
    next_day [of "minutesOf (ww_end s)" "minutesOf (ww_start s)" d] minutesOf_range
  by (auto simp: window_start_def window_end_def not_less le_less)

lemma start_less: "d < d' \<Longrightarrow> window_start L s d < window_start L s d'"
  using start_in_day [where d = d and s = s] start_in_day [where d = d' and s = s] midnight_le_iff [of "d + 1" d'] by linarith

lemma end_before: "d < d' \<Longrightarrow> window_end L s d \<le> window_start L s d'"
  using end_before_next [of s d] start_less [of "d + 1" d' s] by (cases "d + 1 = d'") auto

lemma end_is_start: "window_end L s d' = window_start L s d \<Longrightarrow> d' = d - 1 \<and> minutesOf (ww_start s) = minutesOf (ww_end s)"
proof -
  assume eq: "window_end L s d' = window_start L s d"
  have "d' < d" using eq window_some [of s d'] start_less [of d d' s] by (cases "d' < d"; cases "d' = d") auto
  moreover have "\<not> d' < d - 1" using eq end_before [of d' "d - 1" s] start_less [of "d - 1" d s] by auto
  ultimately have "d' = d - 1" by simp
  then show ?thesis using eq touch_iff [of s d'] by simp
qed

lemma apart_windows: "sorted_wrt (<) ds \<Longrightarrow> apart (map (\<lambda>d. (window_start L s d, window_end L s d)) ds)"
  by (induction ds) (auto simp: apart_def window_some end_before)

lemma sorted_days: "sorted_wrt (<) (map (\<lambda>k. b + k) [i..j])" for b :: int
proof -
  have "sorted_wrt (<) [i..j]" unfolding strict_sorted_iff by (simp add: sorted_upto distinct_upto)
  then show ?thesis by (simp only: sorted_wrt_map add_less_cancel_left)
qed

lemma windows_apart: "apart (windowsAround L s now)"
  unfolding windowsAround_def
  by (rule apart_windows, rule sorted_wrt_filter, rule sorted_days)

lemma windows_in: "w \<in> set (windowsAround L s now) \<longleftrightarrow>
    (\<exists>d. works_on s d \<and> ld_day L now - 8 \<le> d \<and> d \<le> ld_day L now + 8 \<and> w = (window_start L s d, window_end L s d))"
proof
  assume "\<exists>d. works_on s d \<and> ld_day L now - 8 \<le> d \<and> d \<le> ld_day L now + 8 \<and> w = (window_start L s d, window_end L s d)"
  then obtain d where d: "works_on s d" "ld_day L now - 8 \<le> d" "d \<le> ld_day L now + 8" "w = (window_start L s d, window_end L s d)"
    by blast
  have "d = ld_day L now + (d - ld_day L now)" "d - ld_day L now \<in> {-8..8}" using d by auto
  then have "d \<in> (\<lambda>k. ld_day L now + k) ` {-8..8}" by (rule image_eqI)
  then have "d \<in> {d \<in> (\<lambda>k. ld_day L now + k) ` {-8..8}. weekday d \<in> set (ww_days s)}"
    using d(1) unfolding works_on_def by blast
  then show "w \<in> set (windowsAround L s now)"
    unfolding windowsAround_def window_days_def set_map set_filter set_upto d(4) by (rule image_eqI [OF refl])
next
  assume "w \<in> set (windowsAround L s now)"
  then have "w \<in> (\<lambda>d. (window_start L s d, window_end L s d)) ` {d \<in> (\<lambda>k. ld_day L now + k) ` {-8..8}. weekday d \<in> set (ww_days s)}"
    unfolding windowsAround_def window_days_def set_map set_filter set_upto .
  then show "\<exists>d. works_on s d \<and> ld_day L now - 8 \<le> d \<and> d \<le> ld_day L now + 8 \<and> w = (window_start L s d, window_end L s d)"
    by (auto simp: works_on_def)
qed

lemma inside_iff: "covers (windowsAround L s now) now \<longleftrightarrow> work_time L s now"
proof
  assume "work_time L s now"
  then obtain d where d: "works_on s d" "window_start L s d \<le> now" "now < window_end L s d" by (auto simp: work_time_def)
  have "ld_at L d 0 < ld_at L (ld_day L now + 1) 0"
    using start_in_day(1) [of d s] d(2) in_day(2) [of now] by linarith
  moreover have "ld_at L (ld_day L now) 0 < ld_at L (d + 2) 0"
    using end_before_next [of s d] d(3) in_day(1) [of now] start_in_day(2) [of s "d + 1"] by (simp only: add.assoc one_add_one)
  ultimately show "covers (windowsAround L s now) now" using d by (force simp: covers_def windows_in)
qed (auto simp: covers_def windows_in work_time_def)

text \<open>Within a week of now the windows looked at have the edges of all windows.\<close>

lemma edges_near:
  assumes "ld_at L (ld_day L now - 7) 0 \<le> e" "e \<le> ld_at L (ld_day L now + 8) 0"
  shows "e \<in> ends_of (merge_windows (windowsAround L s now)) \<longleftrightarrow> true_edge L s e"
proof -
  have st: "ld_day L now - 8 \<le> d \<and> d \<le> ld_day L now + 8" if "e = window_start L s d" for d
    using assms that start_in_day [where d = d and s = s] midnight_less_iff [of "ld_day L now - 7" "d + 1"]
      midnight_le_iff [of d "ld_day L now + 8"] by linarith
  have en: "ld_day L now - 8 \<le> d \<and> d \<le> ld_day L now + 8" if "e = window_end L s d" for d
    using assms that start_in_day [where d = d and s = s] start_in_day [where d = "d + 1" and s = s] window_some [of s d]
      end_before_next [of s d] midnight_less_iff [of "ld_day L now - 7" "d + 1 + 1"]
      midnight_less_iff [of d "ld_day L now + 8"] by linarith
  have "(e \<in> fst ` set (windowsAround L s now)) = (\<exists>d. works_on s d \<and> e = window_start L s d)"
    using st by (force simp: windows_in image_iff)
  moreover have "(e \<in> snd ` set (windowsAround L s now)) = (\<exists>d. works_on s d \<and> e = window_end L s d)"
    using en by (force simp: windows_in image_iff)
  ultimately show ?thesis using merge_windows_ok [OF windows_apart] by (simp add: merge_ok_def true_edge_def)
qed

lemma rest_edge:
  assumes "has_rest s"
  shows "\<exists>d. b \<le> d \<and> d \<le> b + 6 \<and> true_edge L s (window_start L s d)"
proof -
  have "\<exists>w \<in> set (ww_days s). minutesOf (ww_start s) \<noteq> minutesOf (ww_end s) \<or> (w + 6) mod 7 \<notin> set (ww_days s)"
  proof (rule ccontr)
    assume "\<not> ?thesis"
    then have same: "minutesOf (ww_start s) = minutesOf (ww_end s) \<or> ww_days s = []"
      and pred: "w \<in> set (ww_days s) \<Longrightarrow> (w + 6) mod 7 \<in> set (ww_days s)" for w by (auto simp: neq_Nil_conv)
    have "set (ww_days s) \<noteq> {}" using assms by (auto simp: has_rest_def)
    then obtain w where w: "w \<in> set (ww_days s)" unfolding ex_in_conv [symmetric] by blast
    then have "0 \<le> w \<and> w \<le> 6" using assms by (auto simp: has_rest_def list_all_iff)
    then have "w = 0 \<or> w = 1 \<or> w = 2 \<or> w = 3 \<or> w = 4 \<or> w = 5 \<or> w = 6" by presburger
    then have "{0, 1, 2, 3, 4, 5, 6} \<subseteq> set (ww_days s)"
      using w pred [of 0] pred [of 1] pred [of 2] pred [of 3] pred [of 4] pred [of 5] pred [of 6] by auto
    then show False using assms same by (auto simp: has_rest_def)
  qed
  then obtain w where w: "w \<in> set (ww_days s)"
    and free: "minutesOf (ww_start s) \<noteq> minutesOf (ww_end s) \<or> (w + 6) mod 7 \<notin> set (ww_days s)" by blast
  define d where "d = b + (w - weekday b) mod 7"
  have r: "0 \<le> w \<and> w \<le> 6" using assms w by (auto simp: has_rest_def list_all_iff)
  have "weekday d = w mod 7"
    using mod_add_right_eq [of "b + 4" "w - (b + 4)" 7] by (simp add: d_def weekday_def mod_simps algebra_simps)
  then have wd: "weekday d = w" "weekday (d - 1) = (w + 6) mod 7"
    using r mod_add_left_eq [of "d + 4" 7 6] mod_add_self2 [of "d + 3" 7] by (auto simp: weekday_def algebra_simps)
  have "works_on s d" using w wd by (simp add: works_on_def)
  moreover have "\<not> works_on s d' \<or> window_start L s d \<noteq> window_end L s d'" for d'
    using end_is_start [of s d' d] free wd by (auto simp: works_on_def)
  ultimately have "true_edge L s (window_start L s d)" by (auto simp: true_edge_def)
  moreover have "b \<le> d \<and> d \<le> b + 6" by (simp add: d_def)
  ultimately show ?thesis by blast
qed

lemma schedule_true:
  assumes rest: "has_rest s" and v: "scheduleAt L s now = Some v"
  shows "sv_inside v = work_time L s now"
    and "\<exists>e. sv_lastEdge v = Some e \<and> last_edge L s now e"
    and "\<exists>e. sv_nextEdge v = Some e \<and> next_edge L s now e"
proof -
  let ?ms = "merge_windows (windowsAround L s now)"
  have v: "v = \<lparr>sv_inside = list_ex (\<lambda>(a, b). a \<le> now \<and> now < b) ?ms,
                sv_lastEdge = last_of (filter (\<lambda>e. e \<le> now) (window_edges ?ms)),
                sv_nextEdge = find (\<lambda>e. now < e) (window_edges ?ms)\<rparr>"
    using v by (auto simp: scheduleAt_def Let_def split: if_splits)
  have "covers ?ms now = work_time L s now"
    using merge_windows_ok [OF windows_apart] inside_iff by (simp add: merge_ok_def)
  then show "sv_inside v = work_time L s now" by (simp add: v covers_def list_ex_iff)
  have es: "sorted (window_edges ?ms)" by (simp add: window_edges_def sorted_js_sort_num)
  have near: "x \<in> set (window_edges ?ms) \<longleftrightarrow> true_edge L s x"
    if "ld_at L (ld_day L now - 7) 0 \<le> x" "x \<le> ld_at L (ld_day L now + 8) 0" for x
    using edges_near [OF that] by (simp add: set_window_edges)
  obtain d where d: "ld_day L now - 7 \<le> d" "d \<le> ld_day L now - 1" "true_edge L s (window_start L s d)"
    using rest_edge [OF rest, of "ld_day L now - 7"] by auto
  have d_before: "ld_at L (ld_day L now - 7) 0 \<le> window_start L s d" "window_start L s d \<le> now"
    using d(1,2) start_in_day [where d = d and s = s] in_day [of now] midnight_le_iff [of "ld_day L now - 7" d]
      midnight_le_iff [of "d + 1" "ld_day L now"] by linarith+
  obtain d' where d': "ld_day L now + 1 \<le> d'" "d' \<le> ld_day L now + 7" "true_edge L s (window_start L s d')"
    using rest_edge [OF rest, of "ld_day L now + 1"] by auto
  have d'_after: "now < window_start L s d'" "window_start L s d' \<le> ld_at L (ld_day L now + 8) 0"
    using d'(1,2) start_in_day [where d = d' and s = s] in_day [of now] midnight_le_iff [of "ld_day L now + 1" d']
      midnight_le_iff [of "d' + 1" "ld_day L now + 8"] by linarith+
  have inr: "ld_at L (ld_day L now - 7) 0 \<le> now" "now \<le> ld_at L (ld_day L now + 8) 0" using d_before d'_after by linarith+
  let ?E = "set (window_edges ?ms)"
  have "window_start L s d \<in> ?E" using near d(3) d_before inr by simp
  then have "finite {x \<in> ?E. x \<le> now}" "{x \<in> ?E. x \<le> now} \<noteq> {}" using d_before by auto
  then have M: "Max {x \<in> ?E. x \<le> now} \<in> {x \<in> ?E. x \<le> now}" "\<And>x. x \<in> ?E \<Longrightarrow> x \<le> now \<Longrightarrow> x \<le> Max {x \<in> ?E. x \<le> now}"
    by (rule Max_in, simp)
  show "\<exists>e. sv_lastEdge v = Some e \<and> last_edge L s now e"
  proof (intro exI conjI)
    let ?m = "Max {x \<in> ?E. x \<le> now}"
    show "sv_lastEdge v = Some ?m" using M by (simp add: v last_of_sorted [OF es])
    have "window_start L s d \<le> ?m" using M(2) \<open>window_start L s d \<in> ?E\<close> d_before by simp
    then have "x \<le> ?m" if "true_edge L s x" "x \<le> now" for x
      using M(2) [of x] near [of x] that inr d_before by (cases "ld_at L (ld_day L now - 7) 0 \<le> x") auto
    moreover have "true_edge L s ?m" using M(1) near [of ?m] \<open>window_start L s d \<le> ?m\<close> d_before inr by simp
    ultimately show "last_edge L s now ?m" using M(1) by (simp add: last_edge_def)
  qed
  have "window_start L s d' \<in> ?E" using near d'(3) d'_after inr by simp
  then have "finite {x \<in> ?E. now < x}" "{x \<in> ?E. now < x} \<noteq> {}" using d'_after by auto
  then have N: "Min {x \<in> ?E. now < x} \<in> {x \<in> ?E. now < x}" "\<And>x. x \<in> ?E \<Longrightarrow> now < x \<Longrightarrow> Min {x \<in> ?E. now < x} \<le> x"
    by (rule Min_in, simp)
  show "\<exists>e. sv_nextEdge v = Some e \<and> next_edge L s now e"
  proof (intro exI conjI)
    let ?m = "Min {x \<in> ?E. now < x}"
    show "sv_nextEdge v = Some ?m" using N by (simp add: v find_sorted [OF es])
    have "?m \<le> window_start L s d'" using N(2) \<open>window_start L s d' \<in> ?E\<close> d'_after by simp
    then have "?m \<le> x" if "true_edge L s x" "now < x" for x
      using N(2) [of x] near [of x] that inr d'_after by (cases "x \<le> ld_at L (ld_day L now + 8) 0") auto
    moreover have "true_edge L s ?m" using N(1) near [of ?m] \<open>?m \<le> window_start L s d'\<close> d'_after inr by simp
    ultimately show "next_edge L s now ?m" using N(1) by (simp add: next_edge_def)
  qed
qed

text \<open>Between two edges it stays working time, or stays rest.\<close>

lemma ends_within:
  assumes "works_on s d" "window_start L s d \<le> y" "\<not> work_time L s y"
  shows "\<exists>e. window_end L s d \<le> e \<and> e \<le> y \<and> true_edge L s e"
  using assms
proof (induction "nat (ld_day L y + 1 - d)" arbitrary: d rule: less_induct)
  case less
  have le: "window_end L s d \<le> y" using less.prems by (auto simp: work_time_def not_less)
  show ?case
  proof (cases "\<exists>d'. works_on s d' \<and> window_end L s d = window_start L s d'")
    case False
    then have "true_edge L s (window_end L s d)" using less.prems(1) by (auto simp: true_edge_def)
    then show ?thesis using le by blast
  next
    case True
    then obtain d' where d': "works_on s d'" "window_end L s d = window_start L s d'" by blast
    have eq: "d' = d + 1" using end_is_start [OF d'(2)] by simp
    have "ld_at L d 0 < ld_at L (ld_day L y + 1) 0"
      using start_in_day(1) [where d = d and s = s] less.prems(2) in_day(2) [of y] by linarith
    then have "nat (ld_day L y + 1 - d') < nat (ld_day L y + 1 - d)" by (simp add: eq)
    then obtain e where "window_end L s d' \<le> e" "e \<le> y" "true_edge L s e"
      using less.hyps [of d'] d' less.prems(3) le by auto
    then have "window_end L s d \<le> e \<and> e \<le> y \<and> true_edge L s e" using d'(2) window_some [of s d'] by simp
    then show ?thesis by (rule exI)
  qed
qed

lemma rest_means: "\<not> work_time L s x \<Longrightarrow> works_on s d \<Longrightarrow> x < window_end L s d \<Longrightarrow> x < window_start L s d"
  unfolding work_time_def by (metis not_less)

lemma starts_within:
  assumes "works_on s d" "x < window_start L s d" "\<not> work_time L s x"
  shows "\<exists>e. x < e \<and> e \<le> window_start L s d \<and> true_edge L s e"
  using assms
proof (induction "nat (d - ld_day L x + 2)" arbitrary: d rule: less_induct)
  case less
  show ?case
  proof (cases "\<exists>d'. works_on s d' \<and> window_start L s d = window_end L s d'")
    case False
    then have "true_edge L s (window_start L s d)" using less.prems(1) by (auto simp: true_edge_def)
    then show ?thesis using less.prems by blast
  next
    case True
    then obtain d' where d': "works_on s d'" "window_end L s d' = window_start L s d" by auto
    have eq: "d' = d - 1" using end_is_start [OF d'(2)] by simp
    have st: "x < window_start L s d'" using rest_means [OF less.prems(3) d'(1)] less.prems(2) d'(2) by simp
    have "ld_at L (ld_day L x) 0 < ld_at L (d + 1) 0"
      using start_in_day(2) [where d = d and s = s] less.prems(2) in_day(1) [of x] by linarith
    then have "nat (d' - ld_day L x + 2) < nat (d - ld_day L x + 2)" by (simp add: eq)
    then obtain e where "x < e" "e \<le> window_start L s d'" "true_edge L s e"
      using less.hyps [of d'] d' less.prems(3) st by auto
    then show ?thesis using d'(2) window_some [of s d'] by auto
  qed
qed

lemma work_time_steady:
  assumes "x \<le> y" and none: "\<And>e. true_edge L s e \<Longrightarrow> x < e \<Longrightarrow> e \<le> y \<Longrightarrow> False"
  shows "work_time L s x = work_time L s y"
proof
  assume "work_time L s x"
  then obtain d where d: "works_on s d" "window_start L s d \<le> x" "x < window_end L s d" by (auto simp: work_time_def)
  show "work_time L s y"
  proof (rule ccontr)
    assume "\<not> work_time L s y"
    then show False using ends_within [OF d(1), of y] d none assms(1) by force
  qed
next
  assume "work_time L s y"
  then obtain d where d: "works_on s d" "window_start L s d \<le> y" "y < window_end L s d" by (auto simp: work_time_def)
  show "work_time L s x"
  proof (rule ccontr)
    assume no: "\<not> work_time L s x"
    then have "x < window_start L s d" using rest_means [OF no d(1)] d assms(1) by simp
    then show False using starts_within [OF d(1) _ no] d none by force
  qed
qed

lemma schedule_steady:
  assumes rest: "has_rest s" and v: "scheduleAt L s now = Some v"
    and t: "now \<le> t" "\<And>e. sv_nextEdge v = Some e \<Longrightarrow> t < e"
  shows "scheduleAt L s t = Some v"
proof -
  obtain v' where v': "scheduleAt L s t = Some v'" using v by (auto simp: scheduleAt_def Let_def split: if_splits)
  obtain e n e' n' where e: "sv_lastEdge v = Some e" "last_edge L s now e" and n: "sv_nextEdge v = Some n" "next_edge L s now n"
    and e': "sv_lastEdge v' = Some e'" "last_edge L s t e'" and n': "sv_nextEdge v' = Some n'" "next_edge L s t n'"
    using schedule_true [OF rest v] schedule_true [OF rest v'] by blast
  have tn: "t < n" using t(2) n by simp
  have none: False if "true_edge L s x" "now < x" "x \<le> t" for x using that n(2) tn by (auto simp: next_edge_def)
  have "e' \<le> e" using e(2) e'(2) none [of e'] by (auto simp: last_edge_def not_less [symmetric])
  moreover have "e \<le> e'" using e(2) e'(2) t(1) by (auto simp: last_edge_def)
  moreover have "n \<le> n'" using n(2) n'(2) t(1) by (auto simp: next_edge_def)
  moreover have "n' \<le> n" using n(2) n'(2) tn by (auto simp: next_edge_def)
  moreover have "sv_inside v = sv_inside v'"
    using schedule_true(1) [OF rest v] schedule_true(1) [OF rest v'] work_time_steady [OF t(1) none] by simp
  ultimately show ?thesis using v' e n e' n' by (cases v; cases v') simp
qed

end

interpretation zone: steady_days "fixed_zone off" for off
proof
  fix t :: int
  show "ld_at (fixed_zone off) (ld_day (fixed_zone off) t) 0 \<le> t" "t < ld_at (fixed_zone off) (ld_day (fixed_zone off) t + 1) 0"
    using pos_mod_bound [of 86400000 "t + off"] pos_mod_sign [of 86400000 "t + off"] div_mult_mod_eq [of "t + off" 86400000]
    by (auto simp: fixed_zone_def algebra_simps)
qed (auto simp: fixed_zone_def)

section \<open>The answer and its next change\<close>

definition schedule_ok :: "work_window \<Rightarrow> bool" where
  "schedule_ok s \<longleftrightarrow> \<not> ww_enabled s \<or> has_rest s"

lemma schedule_keeps:
  assumes "schedule_ok s" "now \<le> t"
    and "\<And>v e. scheduleAt (fixed_zone off) s now = Some v \<Longrightarrow> sv_nextEdge v = Some e \<Longrightarrow> t < e"
  shows "scheduleAt (fixed_zone off) s t = scheduleAt (fixed_zone off) s now"
proof (cases "scheduleAt (fixed_zone off) s now")
  case None
  then show ?thesis by (simp add: scheduleAt_def Let_def split: if_splits)
next
  case (Some v)
  then have "has_rest s" using assms(1) by (auto simp: schedule_ok_def scheduleAt_def Let_def split: if_splits)
  then show ?thesis using zone.schedule_steady [OF _ Some assms(2)] assms(3) [OF Some] Some by simp
qed

lemma some_kept: "Some c \<in> set xs \<Longrightarrow> c \<in> set (List.map_filter (\<lambda>x. x) xs)"
  by (force simp: List.map_filter_def image_iff)

lemma earliest_candidate:
  assumes "Some c \<in> set cs" "now < (c :: int)"
  shows "\<exists>n \<le> c. (case js_sort cmp_num (filter (\<lambda>x. now < x) (List.map_filter (\<lambda>x. x) cs)) of [] \<Rightarrow> None | x # _ \<Rightarrow> Some x) = Some n"
proof -
  let ?xs = "filter (\<lambda>x. now < x) (List.map_filter (\<lambda>x. x) cs)"
  have "c \<in> set (js_sort cmp_num ?xs)" using assms some_kept by simp
  then obtain n ns where n: "js_sort cmp_num ?xs = n # ns" "c \<in> set (n # ns)" by (cases "js_sort cmp_num ?xs") auto
  have "sorted (n # ns)" using sorted_js_sort_num [of ?xs] n(1) by simp
  then have "n \<le> c" using n(2) by auto
  then show ?thesis using n(1) by simp
qed

lemma next_change_before:
  assumes "Some c \<in> {case scheduleAt L (pz_schedule st) now of Some v \<Rightarrow> sv_nextEdge v | None \<Rightarrow> None,
                     if ap_enabled (pz_activity st) then map_option (\<lambda>i. i + idle_ms st) (pm_inputAt mem) else None,
                     pm_ignoreUntil mem}"
    and "now < c"
  shows "\<exists>n \<le> c. nextChangeAt L st mem now = Some n"
  unfolding nextChangeAt_def Let_def by (rule earliest_candidate [OF _ assms(2)]) (use assms(1) in simp)

lemma person_keeps:
  assumes "now \<le> t" "\<And>c. nextChangeAt L st mem now = Some c \<Longrightarrow> t < c"
  shows "person_here st mem t = person_here st mem now"
proof (cases "person_here st mem now")
  case True
  then obtain i where i: "pm_inputAt mem = Some i" "now < i + idle_ms st" "ap_enabled (pz_activity st)"
    by (auto simp: person_here_def split: option.splits)
  then obtain n where "n \<le> i + idle_ms st" "nextChangeAt L st mem now = Some n"
    using next_change_before [of "i + idle_ms st" L st now mem] by auto
  then show ?thesis using i assms(2) by (force simp: person_here_def)
next
  case False
  then show ?thesis using assms(1) by (auto simp: person_here_def split: option.splits)
qed

lemma answer_keeps:
  assumes ok: "schedule_ok (pz_schedule st)" and t: "now \<le> t"
    and next': "\<And>c. nextChangeAt (fixed_zone off) st mem now = Some c \<Longrightarrow> t < c"
  shows "pauseState (fixed_zone off) st mem t = pauseState (fixed_zone off) st mem now"
proof -
  have "scheduleAt (fixed_zone off) (pz_schedule st) t = scheduleAt (fixed_zone off) (pz_schedule st) now"
  proof (rule schedule_keeps [OF ok t])
    fix v e
    assume v: "scheduleAt (fixed_zone off) (pz_schedule st) now = Some v" "sv_nextEdge v = Some e"
    then have "now < e" by (auto simp: scheduleAt_def Let_def find_Some_iff split: if_splits)
    then obtain n where "n \<le> e" "nextChangeAt (fixed_zone off) st mem now = Some n"
      using next_change_before [of e "fixed_zone off" st now mem] v by auto
    then show "t < e" using next' by force
  qed
  then show ?thesis using person_keeps [OF t next'] by (simp add: pauseState_def Let_def)
qed


definition ex_nights :: work_window where
  "ex_nights = \<lparr>ww_enabled = True, ww_start = ''22:00'', ww_end = ''08:00'', ww_days = [1, 2, 3, 4, 5]\<rparr>"

lemma ex_nights_rest: "has_rest ex_nights" "schedule_ok ex_nights"
  by code_simp+

lemma ex_nights_now: "scheduleAt (fixed_zone 0) ex_nights 1000000 =
    Some \<lparr>sv_inside = True, sv_lastEdge = Some (-7200000), sv_nextEdge = Some 28800000\<rparr>"
  by code_simp


text \<open>
  The answer, paused or running, its reason and its times, holds until the time named as its next change, whatever the
  schedule, the tray's word and the person's input: a look then, and no earlier, can show another one.
\<close>

theorem answer_holds_till_next_change:
  assumes "schedule_ok (pz_schedule st)" and "now \<le> t"
    and "case nextChangeAt (fixed_zone off) st mem now of Some c \<Rightarrow> t < c | None \<Rightarrow> True"
  shows "pauseState (fixed_zone off) st mem t = pauseState (fixed_zone off) st mem now"
  by (rule answer_keeps [OF assms(1,2)]) (use assms(3) in simp)

definition ex_settings :: pause_settings where
  "ex_settings = \<lparr>pz_schedule = ex_nights, pz_activity = \<lparr>ap_enabled = True, ap_idleMinutes = 90\<rparr>\<rparr>"

definition ex_memory :: pause_memory where
  "ex_memory = \<lparr>pm_manual = None, pm_inputAt = Some 900000, pm_ignoreUntil = None\<rparr>"

lemma answer_holds_till_next_change_witness:
  "pauseState (fixed_zone 0) ex_settings ex_memory 6299999 = pauseState (fixed_zone 0) ex_settings ex_memory 1000000"
proof -
  have "schedule_ok (pz_schedule ex_settings)" by (simp add: ex_settings_def ex_nights_rest)
  moreover have "nextChangeAt (fixed_zone 0) ex_settings ex_memory 1000000 = Some 6300000" by code_simp
  ultimately show ?thesis using answer_holds_till_next_change [of ex_settings 1000000 6299999 0 ex_memory] by simp
qed

end
