(* ===== verification/PauseKeeping.thy ===== *)
theory PauseKeeping
  imports PauseProps
begin

text \<open>
  The keeper of a machine's pause over its life: what it last told is right until the change its timer waits for, a tray's
  Unpause is not undone by a person's input within its thirty seconds, a person's input pauses, and a restart keeps it all.
\<close>

section \<open>Settings that were read\<close>

definition clean_window :: "work_window \<Rightarrow> bool" where
  "clean_window s \<longleftrightarrow>
     hhmm (ww_start s) \<noteq> None \<and> hhmm (ww_end s) \<noteq> None
     \<and> list_all (\<lambda>d. 0 \<le> d \<and> d \<le> 6) (ww_days s) \<and> sorted (ww_days s) \<and> distinct (ww_days s)"

definition clean_pause :: "pause_settings \<Rightarrow> bool" where
  "clean_pause st \<longleftrightarrow>
     clean_window (pz_schedule st) \<and> 1 \<le> ap_idleMinutes (pz_activity st) \<and> ap_idleMinutes (pz_activity st) \<le> 24 * 60"

lemma default_clean: "clean_pause DEFAULT_PAUSE_SETTINGS"
  by code_simp

lemma clean_days_ok:
  assumes "list_all (\<lambda>d. 0 \<le> d \<and> d \<le> 6) ds" "sorted ds" "distinct ds"
  shows "list_all (\<lambda>d. 0 \<le> d \<and> d \<le> 6) (clean_days v ds) \<and> sorted (clean_days v ds) \<and> distinct (clean_days v ds)"
  using assms
  by (auto simp: clean_days_def sorted_js_sort_num list_all_iff List.map_filter_def week_day_def le_floor_iff floor_le_iff
      split: js.splits if_splits)

lemma js_round_bounds:
  assumes "1 \<le> x" "x \<le> 1440"
  shows "1 \<le> js_round x \<and> js_round x \<le> 1440"
proof -
  have "\<lfloor>1 + 1 / 2 :: rat\<rfloor> = 1" "\<lfloor>1440 + 1 / 2 :: rat\<rfloor> = 1440" by (simp_all add: floor_unique)
  moreover have "\<lfloor>1 + 1 / 2 :: rat\<rfloor> \<le> \<lfloor>x + 1 / 2\<rfloor>" "\<lfloor>x + 1 / 2\<rfloor> \<le> \<lfloor>1440 + 1 / 2 :: rat\<rfloor>"
    using assms by (auto intro!: floor_mono)
  ultimately show ?thesis by (simp add: js_round_def)
qed

lemma clean_idle_ok: "1 \<le> d \<Longrightarrow> d \<le> 1440 \<Longrightarrow> 1 \<le> clean_idle v d \<and> clean_idle v d \<le> 1440"
  using js_round_bounds by (auto simp: clean_idle_def split: option.splits)

lemma clean_time_ok: "hhmm d \<noteq> None \<Longrightarrow> hhmm (clean_time v d) \<noteq> None"
  by (auto simp: clean_time_def split: js.splits)

lemma cleaned: "clean_pause (cleanSettings r)"
  using default_clean clean_days_ok clean_idle_ok clean_time_ok
  by (simp add: clean_pause_def clean_window_def cleanSettings_def Let_def)

lemma js_insert_least: "\<forall>x \<in> set ds. a \<le> x \<Longrightarrow> js_insert cmp_num a ds = a # ds"
  by (cases ds) (auto simp: cmp_num_def)

lemma clean_days_again:
  assumes "list_all (\<lambda>d. 0 \<le> d \<and> d \<le> 6) ds" "sorted ds" "distinct ds"
  shows "clean_days (JArr (map (\<lambda>d. JNum (of_int d)) ds)) dd = ds"
proof -
  have "List.map_filter week_day (map (\<lambda>d. JNum (of_int d)) ds) = ds"
    using assms(1) by (induction ds) (auto simp: List.map_filter_def week_day_def)
  moreover have "js_unique ds = ds" using assms(3) by (simp add: js_unique_def distinct_remdups_id distinct_rev)
  moreover have "js_sort cmp_num ds = ds"
    using assms(2) by (induction ds) (auto simp: js_sort_def js_insert_least)
  ultimately show ?thesis by (simp add: clean_days_def)
qed

lemma clean_again:
  assumes "clean_window s" "1 \<le> i" "i \<le> 1440"
  shows "cleanSettings (settings_js s on (of_int i)) = \<lparr>pz_schedule = s, pz_activity = \<lparr>ap_enabled = on, ap_idleMinutes = i\<rparr>\<rparr>"
proof -
  have "js_round (of_int i) = i" by (simp add: js_round_def floor_unique)
  then have "clean_idle (JNum (of_int i)) d = i" for d using assms(2,3) by (simp add: clean_idle_def)
  moreover have "clean_time (JStr (ww_start s)) d = ww_start s" "clean_time (JStr (ww_end s)) d = ww_end s" for d
    using assms(1) by (auto simp: clean_window_def clean_time_def)
  moreover have "clean_days (JArr (map (\<lambda>d. JNum (of_int d)) (ww_days s))) d = ww_days s" for d
    using assms(1) clean_days_again by (simp add: clean_window_def)
  ultimately show ?thesis by (simp add: cleanSettings_def settings_js_def Let_def clean_bool_def)
qed

section \<open>A keeper's life\<close>

text \<open>
  What a daemon's keeper can have become: loaded and started, then the tray's commands, inputs, settings, statuses and its
  timer's looks, each at a time not before the last look.
\<close>

inductive keeps_pause :: "local_days \<Rightarrow> keeper \<Rightarrow> bool" for L where
  started: "keeps_pause L (fst (start_keeper L now (keeper_load L f now)))"
| looked: "keeps_pause L k \<Longrightarrow> kp_at k \<le> now \<Longrightarrow> keeps_pause L (fst (look_pause L force now k))"
| commanded: "keeps_pause L k \<Longrightarrow> kp_at k \<le> now \<Longrightarrow> keeps_pause L (fst (command_pause L paused now k))"
| typed: "keeps_pause L k \<Longrightarrow> kp_at k \<le> now \<Longrightarrow> keeps_pause L (fst (input_pause L t now k))"
| told: "keeps_pause L k \<Longrightarrow> kp_at k \<le> now \<Longrightarrow> keeps_pause L (fst (set_settings L raw now k))"
| activity: "keeps_pause L k \<Longrightarrow> kp_at k \<le> now \<Longrightarrow> keeps_pause L (fst (set_activity L on idle now k))"
| shown: "keeps_pause L k \<Longrightarrow> kp_at k \<le> now \<Longrightarrow> keeps_pause L (fst (set_tray L status now k))"

definition fresh_keeper :: "local_days \<Rightarrow> keeper \<Rightarrow> bool" where
  "fresh_keeper L k \<longleftrightarrow>
     clean_pause (kp_settings k) \<and> \<not> kp_migrated k
     \<and> kp_last k = pauseState L (kp_settings k) (kp_mem k) (kp_at k)
     \<and> kp_due k = Some (next_look L k (kp_at k))"

lemma next_look_upd [simp]:
  "next_look L (k\<lparr>kp_last := p\<rparr>) now = next_look L k now" "next_look L (k\<lparr>kp_at := a\<rparr>) now = next_look L k now"
  "next_look L (k\<lparr>kp_due := d\<rparr>) now = next_look L k now" "next_look L (k\<lparr>kp_tray := s\<rparr>) now = next_look L k now"
  "next_look L (k\<lparr>kp_migrated := b\<rparr>) now = next_look L k now"
  by (simp_all add: next_look_def)

lemma look_fresh: "clean_pause (kp_settings k) \<Longrightarrow> \<not> kp_migrated k \<Longrightarrow> fresh_keeper L (fst (look_pause L force now k))"
  by (simp add: fresh_keeper_def look_pause_def set_timer_def Let_def)

lemma fst_command: "fst (command_pause L paused now k) = fst (look_pause L True now (k\<lparr>kp_mem := trayCommand (kp_mem k) paused now\<rparr>))"
  by (simp add: command_pause_def Let_def case_prod_beta)

lemma fst_input: "fst (input_pause L t now k) =
    (if \<not> ap_enabled (pz_activity (kp_settings k)) \<or> personInput (kp_mem k) (input_time t now) = kp_mem k then k
     else fst (look_pause L False now (k\<lparr>kp_mem := personInput (kp_mem k) (input_time t now)\<rparr>)))"
  by (simp add: input_pause_def Let_def case_prod_beta)

lemma fst_set: "fst (set_settings L raw now k) =
    (if cleanSettings raw = kp_settings k then k
     else fst (look_pause L True now
       (k\<lparr>kp_settings := cleanSettings raw,
          kp_mem := (let m = settingsChanged L (kp_settings k) (kp_mem k) now in
                     if \<not> ap_enabled (pz_activity (cleanSettings raw)) then m\<lparr>pm_inputAt := None\<rparr> else m)\<rparr>)))"
  by (simp add: set_settings_def Let_def case_prod_beta)

lemma set_settings_fresh: "fresh_keeper L k \<Longrightarrow> fresh_keeper L (fst (set_settings L raw now k))"
  unfolding fst_set by (simp add: look_fresh cleaned fresh_keeper_def [of L k])

lemma load_settings_clean: "clean_pause (kp_settings (keeper_load L f now))"
  using cleaned default_clean by (auto simp: keeper_load_def Let_def clean_pause_def split: option.splits)

lemma keeps_fresh: "keeps_pause L k \<Longrightarrow> fresh_keeper L k"
proof (induction rule: keeps_pause.induct)
  case (started now f)
  have "kp_last (keeper_load L f now) = pauseState L (kp_settings (keeper_load L f now)) (kp_mem (keeper_load L f now)) now"
    "kp_at (keeper_load L f now) = now"
    by (simp_all add: keeper_load_def Let_def)
  then show ?case using load_settings_clean by (simp add: start_keeper_def fresh_keeper_def set_timer_def Let_def)
next
  case (looked k now force)
  then show ?case using look_fresh by (simp add: fresh_keeper_def [of L k])
next
  case (commanded k now paused)
  then show ?case unfolding fst_command by (intro look_fresh) (simp_all add: fresh_keeper_def [of L k])
next
  case (typed k now t)
  then show ?case unfolding fst_input by (simp add: look_fresh fresh_keeper_def [of L k])
next
  case (shown k now status)
  then show ?case by (simp add: set_tray_def look_fresh fresh_keeper_def [of L k])
qed (simp_all add: set_settings_fresh set_activity_def)


definition ex_pause_file :: pause_file where
  "ex_pause_file =
     \<lparr>pf_v = Some 2, pf_settings = settings_js ex_nights True 90,
      pf_memory = \<lparr>pm_manual = None, pm_inputAt = None, pm_ignoreUntil = None\<rparr>\<rparr>"

definition ex_keeper :: keeper where
  "ex_keeper = fst (start_keeper (fixed_zone 0) 1000000 (keeper_load (fixed_zone 0) (Some ex_pause_file) 1000000))"

lemma ex_keeper_keeps: "keeps_pause (fixed_zone 0) ex_keeper"
  unfolding ex_keeper_def by (rule keeps_pause.started)

lemma ex_file_settings: "cleanSettings (pf_settings ex_pause_file) = ex_settings"
proof -
  have "clean_window ex_nights" by code_simp
  then show ?thesis using clean_again [of ex_nights 90 True] by (simp add: ex_pause_file_def ex_settings_def)
qed

lemma ex_keeper_parts:
  "kp_settings ex_keeper = ex_settings" "kp_mem ex_keeper = no_memory" "kp_at ex_keeper = 1000000"
  "kp_last ex_keeper = pauseState (fixed_zone 0) ex_settings no_memory 1000000"
  by (simp_all add: ex_keeper_def start_keeper_def keeper_load_def ex_file_settings set_timer_def Let_def)
    (simp_all add: ex_pause_file_def no_memory_def PAUSE_FILE_VERSION_def)


text \<open>
  A restart of the daemon forgets nothing: the file the keeper saves is read back as the same settings and the same memory,
  and is not taken for a file of the older version.
\<close>

theorem restart_keeps_pause:
  assumes "keeps_pause (fixed_zone off) k"
  shows "kp_settings (keeper_load (fixed_zone off) (Some (saved_file k)) now) = kp_settings k
    \<and> kp_mem (keeper_load (fixed_zone off) (Some (saved_file k)) now) = kp_mem k
    \<and> \<not> kp_migrated (keeper_load (fixed_zone off) (Some (saved_file k)) now)"
proof -
  have "clean_pause (kp_settings k)" using keeps_fresh [OF assms] by (simp add: fresh_keeper_def)
  then have "cleanSettings (pf_settings (saved_file k)) = kp_settings k"
    using clean_again [of "pz_schedule (kp_settings k)" "ap_idleMinutes (pz_activity (kp_settings k))"
        "ap_enabled (pz_activity (kp_settings k))"]
    by (simp add: saved_file_def clean_pause_def)
  then show ?thesis by (simp add: keeper_load_def Let_def saved_file_def)
qed

lemma restart_keeps_pause_witness: "kp_settings (keeper_load (fixed_zone 0) (Some (saved_file ex_keeper)) 5) = kp_settings ex_keeper"
  using restart_keeps_pause [OF ex_keeper_keeps] by blast

section \<open>The tray's word and a person's input\<close>

lemma last_edge_past: "scheduleAt L s now = Some v \<Longrightarrow> sv_lastEdge v = Some e \<Longrightarrow> e \<le> now"
proof -
  assume "scheduleAt L s now = Some v" "sv_lastEdge v = Some e"
  then have "last_of (filter (\<lambda>e. e \<le> now) (window_edges (merge_windows (windowsAround L s now)))) = Some e"
    by (auto simp: scheduleAt_def Let_def split: if_splits)
  then have "e \<in> set (filter (\<lambda>e. e \<le> now) (window_edges (merge_windows (windowsAround L s now))))"
    by (auto simp: last_of_def simp del: set_filter split: if_splits)
  then show ?thesis by simp
qed

definition after_inputs :: "local_days \<Rightarrow> keeper \<Rightarrow> (int option \<times> int) list \<Rightarrow> keeper" where
  "after_inputs L k ins = foldl (\<lambda>k (a, n). fst (input_pause L a n k)) k ins"

lemma input_time_le: "input_time a n \<le> n"
  by (auto simp: input_time_def split: option.splits)

lemma inputs_ignored:
  "pm_ignoreUntil (kp_mem k) = Some u \<Longrightarrow> list_all (\<lambda>(a, n). n < u) ins \<Longrightarrow> after_inputs L k ins = k"
proof (induction ins)
  case (Cons x ins)
  obtain a n where x: "x = (a, n)" by (cases x)
  have "input_time a n < u" using Cons.prems(2) input_time_le [of a n] by (simp add: x)
  then have "personInput (kp_mem k) (input_time a n) = kp_mem k" using Cons.prems(1) by (simp add: personInput_def)
  then have "fst (input_pause L a n k) = k" by (simp add: fst_input)
  then show ?case using Cons by (simp add: after_inputs_def x)
qed (simp add: after_inputs_def)

text \<open>
  C12. The tray's Unpause is not undone by the hand that clicked it: for its thirty seconds the machine runs, whatever keys and
  clicks come in, as long as no edge of the schedule falls between.
\<close>

theorem unpause_lasts:
  assumes "schedule_ok (pz_schedule (kp_settings k))" and "now \<le> t" and "t < now + SUPPRESS_SECONDS * 1000"
    and "list_all (\<lambda>(a, n). n \<le> t) ins"
    and "case scheduleAt (fixed_zone off) (pz_schedule (kp_settings k)) now of
           Some v \<Rightarrow> (case sv_nextEdge v of Some e \<Rightarrow> t < e | None \<Rightarrow> True)
         | None \<Rightarrow> True"
  shows "\<not> pa_paused (pauseState (fixed_zone off) (kp_settings k)
            (kp_mem (after_inputs (fixed_zone off) (fst (command_pause (fixed_zone off) False now k)) ins)) t)"
proof -
  let ?L = "fixed_zone off" and ?s = "pz_schedule (kp_settings k)"
  let ?m = "trayCommand (kp_mem k) False now"
  have km: "kp_mem (fst (command_pause ?L False now k)) = ?m"
    by (simp add: fst_command look_pause_def set_timer_def Let_def)
  have "list_all (\<lambda>(a, n). n < now + SUPPRESS_SECONDS * 1000) ins" using assms(3,4) by (auto simp: list_all_iff)
  then have same: "kp_mem (after_inputs ?L (fst (command_pause ?L False now k)) ins) = ?m"
    using inputs_ignored [of "fst (command_pause ?L False now k)"] km by (simp add: trayCommand_def)
  have "scheduleAt ?L ?s t = scheduleAt ?L ?s now"
    by (rule schedule_keeps [OF assms(1,2)]) (use assms(5) in simp)
  moreover have "live_word ?m (scheduleAt ?L ?s now) = Some \<lparr>tw_paused = False, tw_at = now\<rparr>"
    using last_edge_past by (auto simp: live_word_def trayCommand_def split: option.splits)
  ultimately have "\<not> pa_paused (pause_base ?m (scheduleAt ?L ?s t))" by (simp add: pause_base_def Let_def)
  then show ?thesis unfolding same by (simp add: pauseState_def Let_def person_here_def trayCommand_def)
qed

lemma unpause_lasts_witness:
  "\<not> pa_paused (pauseState (fixed_zone 0) (kp_settings ex_keeper)
       (kp_mem (after_inputs (fixed_zone 0) (fst (command_pause (fixed_zone 0) False 1000000 ex_keeper))
          [(Some 1000100, 1000200), (None, 1029000)])) 1029999)"
proof (rule unpause_lasts)
  show "schedule_ok (pz_schedule (kp_settings ex_keeper))" by (simp add: ex_keeper_parts ex_settings_def ex_nights_rest)
  show "case scheduleAt (fixed_zone 0) (pz_schedule (kp_settings ex_keeper)) 1000000 of
      Some v \<Rightarrow> (case sv_nextEdge v of Some e \<Rightarrow> 1029999 < e | None \<Rightarrow> True) | None \<Rightarrow> True"
    by (simp add: ex_keeper_parts ex_settings_def ex_nights_now)
qed (simp_all add: SUPPRESS_SECONDS_def)

text \<open>
  A person at the machine pauses it, where that is turned on: from a key or a click on, outside the seconds after an
  Unpause, it stays paused until the idle minutes have passed, whatever the schedule and the tray's last word.
\<close>

theorem person_pauses:
  assumes "ap_enabled (pz_activity (kp_settings k))"
    and "case pm_ignoreUntil (kp_mem k) of Some u \<Rightarrow> u \<le> input_time a now | None \<Rightarrow> True"
    and "t < input_time a now + idle_ms (kp_settings k)"
  shows "pa_paused (pauseState L (kp_settings k) (kp_mem (fst (input_pause L a now k))) t)"
proof -
  have m: "kp_mem (fst (input_pause L a now k)) = personInput (kp_mem k) (input_time a now)"
    using assms(1) by (simp add: fst_input look_pause_def set_timer_def Let_def)
  have "person_here (kp_settings k) (personInput (kp_mem k) (input_time a now)) t"
    using assms by (auto simp: person_here_def personInput_def split: option.splits)
  then show ?thesis unfolding m by (simp add: pauseState_def Let_def)
qed

lemma person_pauses_witness:
  "pa_paused (pauseState (fixed_zone 0) (kp_settings ex_keeper) (kp_mem (fst (input_pause (fixed_zone 0) (Some 2000000) 2000000 ex_keeper))) 7399999)"
proof (rule person_pauses)
  show "ap_enabled (pz_activity (kp_settings ex_keeper))" by (simp add: ex_keeper_parts ex_settings_def)
  show "7399999 < input_time (Some 2000000) 2000000 + idle_ms (kp_settings ex_keeper)"
    by (simp add: input_time_def idle_ms_def ex_keeper_parts ex_settings_def)
  show "case pm_ignoreUntil (kp_mem ex_keeper) of Some u \<Rightarrow> u \<le> input_time (Some 2000000) 2000000 | None \<Rightarrow> True"
    by (simp add: ex_keeper_parts no_memory_def)
qed

text \<open>
  A schedule with no rest at all (every day, start equal to end) has no edges, but the eighth day back is taken for one: a
  tray's pause is dropped on the ninth day, and no change is announced for then.
\<close>

definition ex_always :: pause_settings where
  "ex_always =
     \<lparr>pz_schedule = \<lparr>ww_enabled = True, ww_start = ''00:00'', ww_end = ''00:00'', ww_days = [0, 1, 2, 3, 4, 5, 6]\<rparr>,
      pz_activity = \<lparr>ap_enabled = False, ap_idleMinutes = 90\<rparr>\<rparr>"

lemma always_on_forgets_pause:
  "let m = trayCommand no_memory True 36000000 in
     pa_paused (pauseState (fixed_zone 0) ex_always m 777599999)
     \<and> nextChangeAt (fixed_zone 0) ex_always m 777599999 = Some 1468800000
     \<and> \<not> pa_paused (pauseState (fixed_zone 0) ex_always m 777600000)
     \<and> \<not> true_edge (fixed_zone 0) (pz_schedule ex_always) 777600000"
proof -
  have edge: "\<not> true_edge (fixed_zone 0) (pz_schedule ex_always) 777600000"
  proof -
    have all: "works_on (pz_schedule ex_always) d" for d
    proof -
      have "weekday d \<in> {0..6}" by (simp add: weekday_def)
      also have "{0..6} = set (ww_days (pz_schedule ex_always))" by code_simp
      finally show ?thesis by (simp add: works_on_def)
    qed
    have "minutesOf ''00:00'' = 0" by code_simp
    then have "window_start (fixed_zone 0) (pz_schedule ex_always) d = d * 86400000"
      "window_end (fixed_zone 0) (pz_schedule ex_always) d = (d + 1) * 86400000" for d
      by (simp_all add: window_start_def window_end_def ex_always_def fixed_zone_def)
    then have "\<exists>d. 777600000 = window_start (fixed_zone 0) (pz_schedule ex_always) d"
      "\<exists>d. 777600000 = window_end (fixed_zone 0) (pz_schedule ex_always) d"
      by (auto intro: exI [where x = 9] exI [where x = 8])
    then show ?thesis using all by (auto simp: true_edge_def)
  qed
  have "pa_paused (pauseState (fixed_zone 0) ex_always (trayCommand no_memory True 36000000) 777599999)" by code_simp
  moreover have "nextChangeAt (fixed_zone 0) ex_always (trayCommand no_memory True 36000000) 777599999 = Some 1468800000" by code_simp
  moreover have "\<not> pa_paused (pauseState (fixed_zone 0) ex_always (trayCommand no_memory True 36000000) 777600000)" by code_simp
  ultimately show ?thesis using edge by simp
qed

end
