(* ===== verification/RunnerCensus.thy ===== *)
theory RunnerCensus
  imports BenchTurn UnityProcs
begin

text \<open>
  The GitHub Actions runners of a machine (machine/benchRunners.ts): which processes of a listing are a runner's listener,
  its worker (a job) and a job's leftover, and what a listener's own log says of jobs. The regular expressions are written
  out as functions on strings; \<open>Date.parse\<close> is a parameter.
\<close>

section \<open>Command lines of runners\<close>

datatype runner_kind = Listener | Worker

definition is_newline :: "char \<Rightarrow> bool" where
  "is_newline c \<longleftrightarrow> code c = 10 \<or> code c = 13"

definition runner_end :: "string \<Rightarrow> bool" where
  "runner_end s \<longleftrightarrow> (case s of [] \<Rightarrow> True | c # _ \<Rightarrow> is_ws c)"

definition quote_end :: "string \<Rightarrow> bool" where
  "quote_end s \<longleftrightarrow> runner_end s \<or> (case s of c # cs \<Rightarrow> c = dquote \<and> runner_end cs | [] \<Rightarrow> False)"

definition exe_end :: "string \<Rightarrow> bool" where
  "exe_end s \<longleftrightarrow> quote_end s \<or> lower (take 4 s) = ''.exe'' \<and> quote_end (drop 4 s)"

definition sep_then :: "string \<Rightarrow> string \<Rightarrow> string option" where
  "sep_then w s =
     (case s of
        c # cs \<Rightarrow> if is_win_sep c \<and> lower (take (length w) cs) = w then Some (drop (length w) cs) else None
      | [] \<Rightarrow> None)"

text \<open>\<open>[\\/]bin[\\/]Runner\.(Listener|Worker)(?:\.exe)?"?(?:\s|$)\<close>, in any case.\<close>

definition runner_tail :: "string \<Rightarrow> runner_kind option" where
  "runner_tail s =
     (case sep_then ''bin'' s of
        None \<Rightarrow> None
      | Some r \<Rightarrow>
          (case sep_then ''runner.'' r of
             None \<Rightarrow> None
           | Some q \<Rightarrow>
               if lower (take 8 q) = ''listener'' \<and> exe_end (drop 8 q) then Some Listener
               else if lower (take 6 q) = ''worker'' \<and> exe_end (drop 6 q) then Some Worker
               else None))"

text \<open>\<open>(.+?)\<close> and the rest: the shortest front, of at least one character and on one line.\<close>

fun runner_scan :: "string \<Rightarrow> string \<Rightarrow> (string \<times> runner_kind) option" where
  "runner_scan pre [] = None"
| "runner_scan pre (c # cs) =
     (case (if pre = [] then None else runner_tail (c # cs)) of
        Some k \<Rightarrow> Some (rev pre, k)
      | None \<Rightarrow> if is_newline c then None else runner_scan (c # pre) cs)"

definition runner_match :: "string \<Rightarrow> (string \<times> runner_kind) option" where
  "runner_match s =
     (case s of
        c # cs \<Rightarrow>
          if c = dquote then (case runner_scan [] cs of Some x \<Rightarrow> Some x | None \<Rightarrow> runner_scan [] s)
          else runner_scan [] s
      | [] \<Rightarrow> None)"

fun one_slash :: "string \<Rightarrow> string" where
  "one_slash (a # b # cs) = (if a = slash \<and> b = slash then one_slash (b # cs) else a # one_slash (b # cs))"
| "one_slash s = s"

definition flat :: "string \<Rightarrow> string" where
  "flat p =
     (let s = one_slash (map (\<lambda>c. if c = bslash then slash else c) p)
      in if s \<noteq> [] \<and> last s = slash then butlast s else s)"

section \<open>The census\<close>

record listener =
  ln_pid :: int
  ln_root :: string
  ln_busy :: bool

record run_worker =
  rw_pid :: int
  rw_root :: string

record leftover =
  lo_pid :: int
  lo_root :: string
  lo_cmd :: string

record runner_census =
  rc_listeners :: "listener list"
  rc_workers :: "run_worker list"
  rc_leftovers :: "leftover list"

definition tree_of :: "proc list \<Rightarrow> bench_proc list" where
  "tree_of ps = map (\<lambda>p. \<lparr>bp_pid = pid p, bp_ppid = ppid p\<rparr>) ps"

definition under_proc :: "proc list \<Rightarrow> int \<Rightarrow> int \<Rightarrow> bool" where
  "under_proc ps p up = descendsFrom p (Some up) (tree_of ps)"

definition owned :: "int option \<Rightarrow> (int \<Rightarrow> bool) \<Rightarrow> bool" where
  "owned own f \<longleftrightarrow> (case own of Some o' \<Rightarrow> o' \<noteq> 0 \<and> f o' | None \<Rightarrow> False)"

definition census_workers :: "proc list \<Rightarrow> int option \<Rightarrow> run_worker list" where
  "census_workers ps own =
     List.map_filter
       (\<lambda>p. case runner_match (cmd p) of
              Some (rt, Worker) \<Rightarrow>
                if owned own (\<lambda>o'. under_proc ps o' (pid p)) then None else Some \<lparr>rw_pid = pid p, rw_root = flat rt\<rparr>
            | _ \<Rightarrow> None) ps"

definition census_listeners :: "proc list \<Rightarrow> int option \<Rightarrow> listener list" where
  "census_listeners ps own =
     List.map_filter
       (\<lambda>p. case runner_match (cmd p) of
              Some (rt, Listener) \<Rightarrow>
                Some \<lparr>ln_pid = pid p, ln_root = flat rt,
                      ln_busy = list_ex (\<lambda>w. under_proc ps (rw_pid w) (pid p)) (census_workers ps own)\<rparr>
            | _ \<Rightarrow> None) ps"

definition census_roots :: "proc list \<Rightarrow> int option \<Rightarrow> string list" where
  "census_roots ps own =
     js_sort (\<lambda>a b. cmp_num (length b) (length a))
       (js_unique (map ln_root (census_listeners ps own) @ map rw_root (census_workers ps own)))"

definition census_leftovers :: "proc list \<Rightarrow> int option \<Rightarrow> leftover list" where
  "census_leftovers ps own =
     List.map_filter
       (\<lambda>p. if runner_match (cmd p) \<noteq> None \<or> owned own (\<lambda>o'. under_proc ps (pid p) o' \<or> under_proc ps o' (pid p)) then None
            else (case find (\<lambda>rt. includes_str (lower (flat (cmd p))) (lower rt @ ''/_work/'')) (census_roots ps own) of
                    None \<Rightarrow> None
                  | Some rt \<Rightarrow>
                      if list_ex (\<lambda>w. under_proc ps (pid p) (rw_pid w)) (census_workers ps own) then None
                      else Some \<lparr>lo_pid = pid p, lo_root = rt, lo_cmd = take 200 (cmd p)\<rparr>)) ps"

definition runnerCensus :: "proc list \<Rightarrow> int option \<Rightarrow> runner_census" where
  "runnerCensus ps own =
     \<lparr>rc_listeners = census_listeners ps own, rc_workers = census_workers ps own, rc_leftovers = census_leftovers ps own\<rparr>"

section \<open>A listener's log\<close>

definition SETTLE_MS :: int where "SETTLE_MS = 10000"
definition STALE_JOB_MS :: int where "STALE_JOB_MS = 12 * 60000"
definition LOG_TAIL :: nat where "LOG_TAIL = 64 * 1024"

text \<open>\<open>\d{4}-\d\d-\d\d \d\d:\d\d:\d\d\<close>.\<close>

definition diag_time :: "string \<Rightarrow> bool" where
  "diag_time s \<longleftrightarrow>
     length s = 19
     \<and> list_all (\<lambda>(c, k). if k = CHR ''0'' then is_digit c else c = k) (zip s ''0000-00-00 00:00:00'')"

text \<open>\<open>^\[(time)Z [A-Z]+ +\w+\] (.*)$\<close>: the time and the words.\<close>

definition diag_line :: "string \<Rightarrow> (string \<times> string) option" where
  "diag_line s =
     (if \<not> has_prefix ''['' s then None
      else
        (let t = take 19 (drop 1 s);
             a = drop 20 s;
             b = drop 2 a;
             level = takeWhile is_upper b;
             c = dropWhile is_upper b;
             d = dropWhile (\<lambda>x. x = blank) c;
             word = takeWhile word_char d;
             e = dropWhile word_char d
         in if diag_time t \<and> take 2 a = ''Z '' \<and> level \<noteq> [] \<and> has_prefix '' '' c \<and> word \<noteq> [] \<and> take 2 e = ''] ''
               \<and> \<not> list_ex is_newline (drop 2 e)
            then Some (t, drop 2 e) else None))"

definition job_mark :: "string \<Rightarrow> bool" where
  "job_mark s \<longleftrightarrow>
     has_prefix (''Acknowledging runner request '' @ [CHR 0x27]) s
     \<or> has_prefix ''Job request '' s \<and> includes_str (drop 12 s) '' received.''
     \<or> has_prefix ''WRITE LINE: '' s \<and> includes_str (drop 12 s) '': Running job: ''"

definition idle_mark :: "string \<Rightarrow> bool" where
  "idle_mark s \<longleftrightarrow>
     has_prefix ''WRITE LINE: '' s
       \<and> ((case index_of '': Job '' (drop 12 s) of
              Some i \<Rightarrow> includes_str (drop (i + 6) (drop 12 s)) '' completed with result: ''
            | None \<Rightarrow> False)
          \<or> includes_str (drop 12 s) '': Listening for Jobs'')
     \<or> has_prefix ''Skipping message Job.'' s"

datatype log_state = JobInHand | LogIdle | LogUnknown

text \<open>
  The listener's last word on jobs, when it said so and the line. \<open>None\<close> is a time that is not there, \<open>Some None\<close> one that
  \<open>Date.parse\<close> does not read.
\<close>

record listener_log =
  ll_state :: log_state
  ll_at :: "int option option"
  ll_line :: "string option"

definition end_trimmed :: "string \<Rightarrow> string" where
  "end_trimmed s = drop_while_end is_ws s"

definition log_word :: "string \<Rightarrow> log_state option" where
  "log_word w = (if job_mark w then Some JobInHand else if idle_mark w then Some LogIdle else None)"

fun last_word :: "(string \<Rightarrow> int option) \<Rightarrow> string list \<Rightarrow> listener_log option" where
  "last_word parse [] = None"
| "last_word parse (l # ls) =
     (case diag_line (end_trimmed l) of
        None \<Rightarrow> last_word parse ls
      | Some (t, w) \<Rightarrow>
          (case log_word w of
             None \<Rightarrow> last_word parse ls
           | Some st \<Rightarrow>
               Some \<lparr>ll_state = st, ll_at = Some (parse (take 10 t @ ''T'' @ drop 11 t @ ''Z'')), ll_line = Some (end_trimmed l)\<rparr>))"

definition listenerLog :: "(string \<Rightarrow> int option) \<Rightarrow> string option \<Rightarrow> listener_log" where
  "listenerLog parse tail =
     (case tail of
        None \<Rightarrow> \<lparr>ll_state = LogUnknown, ll_at = None, ll_line = None\<rparr>
      | Some s \<Rightarrow>
          (case last_word parse (rev (split_on (char_of (10 :: nat)) s)) of
             Some l \<Rightarrow> l
           | None \<Rightarrow> \<lparr>ll_state = (if LOG_TAIL \<le> length s then LogIdle else LogUnknown), ll_at = None, ll_line = None\<rparr>))"

datatype hold_job = LogUnread | HandedJob int | JustEnded

definition holdsJob :: "listener_log \<Rightarrow> int \<Rightarrow> hold_job option" where
  "holdsJob l now =
     (if ll_state l = LogUnknown then Some LogUnread
      else (case ll_at l of
              Some (Some t) \<Rightarrow>
                if ll_state l = JobInHand \<and> now - t < STALE_JOB_MS then Some (HandedJob t)
                else if ll_state l = LogIdle \<and> now - t < SETTLE_MS then Some JustEnded
                else None
            | _ \<Rightarrow> None))"

end
