(* ===== verification/BenchRunners.thy ===== *)
theory BenchRunners
  imports RunnerCensus
begin

text \<open>
  The machine's CI runners during a timed run's turn (machine/benchRunners.ts, class \<open>BenchRunners\<close>) and under load
  (machine/loadRunners.ts, class \<open>LoadGate\<close>). A look is a function of the state and of what it reads: the holder, two listings
  (the second after listeners were stopped; \<open>None\<close> is a listing that throws), the listeners' logs before and after, and
  whether a signal could be sent. What it does is a list of effects in their order. Log lines are not modelled.
\<close>

section \<open>A turn's runners\<close>

record paused_runner =
  pr_pid :: int
  pr_root :: string
  pr_at :: int

record ended_proc =
  ep_pid :: int
  ep_root :: string
  ep_args :: string
  ep_at :: int

record runners_state =
  rs_ticket :: "string option"
  rs_paused :: "paused_runner list"
  rs_ended :: "ended_proc list"

datatype runner_effect =
    Stop int bool
  | Cont int bool
  | Term int bool
  | RunnersWritten runners_state

record runner_reading =
  rr_windows :: bool
  rr_holder :: "(string \<times> int option) option"
  rr_procs :: "proc list option"
  rr_procsAfter :: "proc list option"
  rr_diag :: "int \<Rightarrow> string option"
  rr_diagAfter :: "int \<Rightarrow> string option"
  rr_stops :: "int \<Rightarrow> bool"
  rr_conts :: "int \<Rightarrow> bool"
  rr_terms :: "int \<Rightarrow> bool"
  rr_now :: int
  rr_parse :: "string \<Rightarrow> int option"

definition no_runners :: runners_state where
  "no_runners = \<lparr>rs_ticket = None, rs_paused = [], rs_ended = []\<rparr>"

text \<open>The state a daemon starts with: what its file says.\<close>

definition runners_load :: "runners_state option \<Rightarrow> runners_state" where
  "runners_load f = (case f of Some s \<Rightarrow> s | None \<Rightarrow> no_runners)"

text \<open>The turn is over: every listener still there is continued.\<close>

definition listens :: "proc list \<Rightarrow> int option \<Rightarrow> int \<Rightarrow> string \<Rightarrow> bool" where
  "listens ps own p rt = list_ex (\<lambda>l. ln_pid l = p \<and> ln_root l = rt) (rc_listeners (runnerCensus ps own))"

definition turn_over :: "runner_reading \<Rightarrow> runners_state \<Rightarrow> runners_state \<times> runner_effect list" where
  "turn_over r st =
     (if rs_paused st = [] \<and> \<not> given (rs_ticket st) then (st, [])
      else (case rr_procs r of
              None \<Rightarrow> (st, [])
            | Some ps \<Rightarrow>
                (no_runners,
                 map (\<lambda>p. Cont (pr_pid p) (rr_conts r (pr_pid p)))
                   (filter (\<lambda>p. listens ps None (pr_pid p) (pr_root p)) (rs_paused st)) @ [RunnersWritten no_runners])))"

text \<open>Stopping the idle listeners: those stopped, with the log each was stopped on.\<close>

definition may_stop :: "runner_reading \<Rightarrow> int list \<Rightarrow> listener \<Rightarrow> bool" where
  "may_stop r paused l =
     (ln_pid l \<notin> set paused \<and> \<not> ln_busy l \<and> holdsJob (listenerLog (rr_parse r) (rr_diag r (ln_pid l))) (rr_now r) = None)"

definition stopped_now :: "runner_reading \<Rightarrow> int list \<Rightarrow> listener list \<Rightarrow> listener list" where
  "stopped_now r paused ls = filter (\<lambda>l. may_stop r paused l \<and> rr_stops r (ln_pid l)) ls"

definition stop_effects :: "runner_reading \<Rightarrow> int list \<Rightarrow> listener list \<Rightarrow> runner_effect list" where
  "stop_effects r paused ls = map (\<lambda>l. Stop (ln_pid l) (rr_stops r (ln_pid l))) (filter (may_stop r paused) ls)"

text \<open>It took a job as it was stopped: a worker under it now, or a later word in its log.\<close>

definition took_job :: "runner_reading \<Rightarrow> runner_census \<Rightarrow> listener \<Rightarrow> bool" where
  "took_job r c l =
     ((case find (\<lambda>x. ln_pid x = ln_pid l) (rc_listeners c) of Some x \<Rightarrow> ln_busy x | None \<Rightarrow> False)
      \<or> (let before = listenerLog (rr_parse r) (rr_diag r (ln_pid l));
             after = listenerLog (rr_parse r) (rr_diagAfter r (ln_pid l))
         in ll_state after \<noteq> LogIdle \<or> ll_line after \<noteq> ll_line before))"

definition leftover_ends :: "runners_state \<Rightarrow> runner_census \<Rightarrow> leftover \<Rightarrow> bool" where
  "leftover_ends st c x =
     (lo_root x \<notin> set (map rw_root (rc_workers c)) \<and> lo_pid x \<notin> set (map ep_pid (rs_ended st)))"

fun end_leftovers :: "runner_reading \<Rightarrow> runner_census \<Rightarrow> leftover list \<Rightarrow> runners_state \<Rightarrow> runners_state \<times> runner_effect list" where
  "end_leftovers r c [] st = (st, [])"
| "end_leftovers r c (x # xs) st =
     (if \<not> leftover_ends st c x then end_leftovers r c xs st
      else (let st' = (if rr_terms r (lo_pid x)
                       then st\<lparr>rs_ended := rs_ended st @ [\<lparr>ep_pid = lo_pid x, ep_root = lo_root x, ep_args = lo_cmd x, ep_at = rr_now r\<rparr>]\<rparr>
                       else st);
                (st'', es) = end_leftovers r c xs st'
            in (st'', Term (lo_pid x) (rr_terms r (lo_pid x)) # es)))"

definition runners_turn :: "runner_reading \<Rightarrow> string \<Rightarrow> int option \<Rightarrow> runners_state \<Rightarrow> runners_state \<times> runner_effect list" where
  "runners_turn r ticket own st =
     (let st1 = (if rs_ticket st = Some ticket then st else st\<lparr>rs_ticket := Some ticket, rs_ended := []\<rparr>) in
      case rr_procs r of
        None \<Rightarrow> (st1, [])
      | Some ps \<Rightarrow>
          (let c = runnerCensus ps own;
               kept = filter (\<lambda>p. pr_pid p \<in> set (map ln_pid (rc_listeners c))) (rs_paused st1);
               st2 = st1\<lparr>rs_paused := kept\<rparr>;
               stopped = stopped_now r (map pr_pid kept) (rc_listeners c);
               stops = stop_effects r (map pr_pid kept) (rc_listeners c)
           in if stopped \<noteq> [] \<and> rr_procsAfter r = None then (st2, stops)
              else
                (let c2 = (case rr_procsAfter r of Some ps2 \<Rightarrow> if stopped \<noteq> [] then runnerCensus ps2 own else c | None \<Rightarrow> c);
                     took = filter (took_job r c2) stopped;
                     now_paused = filter (\<lambda>l. \<not> took_job r c2 l) stopped;
                     st3 = st2\<lparr>rs_paused := kept @ map (\<lambda>l. \<lparr>pr_pid = ln_pid l, pr_root = ln_root l, pr_at = rr_now r\<rparr>) now_paused\<rparr>;
                     (st4, terms) = end_leftovers r c2 (rc_leftovers c2) st3
                 in (st4, stops @ map (\<lambda>l. Cont (ln_pid l) (rr_conts r (ln_pid l))) took @ terms
                          @ (if st4 \<noteq> st then [RunnersWritten st4] else [])))))"

definition runners_look :: "runner_reading \<Rightarrow> runners_state \<Rightarrow> runners_state \<times> runner_effect list" where
  "runners_look r st =
     (if rr_windows r then (st, [])
      else (case rr_holder r of
              None \<Rightarrow> turn_over r st
            | Some (ticket, own) \<Rightarrow> runners_turn r ticket own st))"

section \<open>The load gate\<close>

record load_gate =
  lg_pauseAtPct :: num'
  lg_resumeBelowPct :: num'
  lg_pauseOverMs :: int
  lg_resumeOverMs :: int
  lg_runners :: "string \<Rightarrow> bool"

definition LOTHDESKTOP_GATE :: load_gate where
  "LOTHDESKTOP_GATE =
     \<lparr>lg_pauseAtPct = 70, lg_resumeBelowPct = 55, lg_pauseOverMs = 60000, lg_resumeOverMs = 120000,
      lg_runners = (\<lambda>s. has_prefix ''ffu-'' (lower s))\<rparr>"

definition LOAD_GATES :: "string \<Rightarrow> load_gate option" where
  "LOAD_GATES machine = (if machine = ''lothdesktop'' then Some LOTHDESKTOP_GATE else None)"

record gate_file =
  gf_closed :: bool
  gf_since :: "int option"
  gf_suspended :: "paused_runner list"

text \<open>The gate: what its file holds and the CPU samples, each with its time.\<close>

record load_state =
  ls_gate :: gate_file
  ls_samples :: "(int \<times> num') list"

datatype gate_effect =
    Suspend int bool
  | Resume int bool
  | GateWritten gate_file

record gate_reading =
  gr_now :: int
  gr_cpu :: num'
  gr_procs :: "proc list option"
  gr_fresh :: "proc list option"
  gr_diag :: "int \<Rightarrow> string option"
  gr_diagAfter :: "int \<Rightarrow> string option"
  gr_suspends :: "int \<Rightarrow> bool"
  gr_resumes :: "int \<Rightarrow> bool"
  gr_parse :: "string \<Rightarrow> int option"

definition gate_load :: "gate_file option \<Rightarrow> load_state" where
  "gate_load f =
     \<lparr>ls_gate = (case f of Some g \<Rightarrow> g | None \<Rightarrow> \<lparr>gf_closed = False, gf_since = None, gf_suspended = []\<rparr>), ls_samples = []\<rparr>"

text \<open>The mean over the last \<open>ms\<close>, where that much is held.\<close>

definition cpu_mean :: "(int \<times> num') list \<Rightarrow> int \<Rightarrow> int \<Rightarrow> num' option" where
  "cpu_mean xs now ms =
     (case xs of
        [] \<Rightarrow> None
      | (t, _) # _ \<Rightarrow>
          if now - t < ms then None
          else (let ys = filter (\<lambda>(a, _). now - a \<le> ms) xs in
                if ys = [] then None else Some (sum_list (map snd ys) / of_nat (length ys))))"

definition sample_slack :: int where "sample_slack = 30000"

definition keep_samples :: "load_gate \<Rightarrow> int \<Rightarrow> (int \<times> num') list \<Rightarrow> (int \<times> num') list" where
  "keep_samples g now xs = dropWhile (\<lambda>(a, _). max (lg_pauseOverMs g) (lg_resumeOverMs g) + sample_slack < now - a) xs"

definition gate_busy :: "runner_census \<Rightarrow> listener \<Rightarrow> bool" where
  "gate_busy c l = (ln_busy l \<or> list_ex (\<lambda>w. lower (rw_root w) = lower (ln_root l)) (rc_workers c))"

definition path_base :: "string \<Rightarrow> string" where
  "path_base s = last (split_on slash (drop_while_end (\<lambda>c. c = slash) s))"

definition gate_resume :: "gate_reading \<Rightarrow> gate_file \<Rightarrow> gate_file \<times> gate_effect list" where
  "gate_resume r st =
     (case gr_procs r of
        None \<Rightarrow> (st, [])
      | Some ps \<Rightarrow>
          (let st' = st\<lparr>gf_suspended := []\<rparr> in
           (st', map (\<lambda>p. Resume (pr_pid p) (gr_resumes r (pr_pid p)))
                   (filter (\<lambda>p. listens ps None (pr_pid p) (pr_root p)) (gf_suspended st)) @ [GateWritten st'])))"

definition may_suspend :: "gate_reading \<Rightarrow> load_gate \<Rightarrow> int list \<Rightarrow> runner_census \<Rightarrow> listener \<Rightarrow> bool" where
  "may_suspend r g done' c l =
     (ln_pid l \<notin> set done' \<and> \<not> gate_busy c l \<and> lg_runners g (path_base (ln_root l))
      \<and> holdsJob (listenerLog (gr_parse r) (gr_diag r (ln_pid l))) (gr_now r) = None)"

definition took_job_fresh :: "gate_reading \<Rightarrow> runner_census \<Rightarrow> listener \<Rightarrow> bool" where
  "took_job_fresh r c l =
     ((case find (\<lambda>x. ln_pid x = ln_pid l) (rc_listeners c) of Some x \<Rightarrow> gate_busy c x | None \<Rightarrow> True)
      \<or> (let before = listenerLog (gr_parse r) (gr_diag r (ln_pid l));
             after = listenerLog (gr_parse r) (gr_diagAfter r (ln_pid l))
         in ll_state after \<noteq> LogIdle \<or> ll_line after \<noteq> ll_line before))"

definition gate_suspend :: "gate_reading \<Rightarrow> load_gate \<Rightarrow> gate_file \<Rightarrow> gate_file \<times> gate_effect list" where
  "gate_suspend r g st =
     (case gr_procs r of
        None \<Rightarrow> (st, [])
      | Some ps \<Rightarrow>
          (let c = runnerCensus ps None;
               kept = filter (\<lambda>p. listens ps None (pr_pid p) (pr_root p)) (gf_suspended st);
               st1 = st\<lparr>gf_suspended := kept\<rparr>;
               cand = filter (may_suspend r g (map pr_pid kept) c) (rc_listeners c);
               stopped = filter (\<lambda>l. gr_suspends r (ln_pid l)) cand;
               stops = map (\<lambda>l. Suspend (ln_pid l) (gr_suspends r (ln_pid l))) cand
           in if stopped = [] then (st1, stops @ (if st1 \<noteq> st then [GateWritten st1] else []))
              else (case gr_fresh r of
                      None \<Rightarrow> (st1, stops)
                    | Some ps2 \<Rightarrow>
                        (let c2 = runnerCensus ps2 None;
                             took = filter (took_job_fresh r c2) stopped;
                             now_paused = filter (\<lambda>l. \<not> took_job_fresh r c2 l) stopped;
                             st2 = st1\<lparr>gf_suspended := kept @ map (\<lambda>l. \<lparr>pr_pid = ln_pid l, pr_root = ln_root l, pr_at = gr_now r\<rparr>) now_paused\<rparr>
                         in (st2, stops @ map (\<lambda>l. Resume (ln_pid l) (gr_resumes r (ln_pid l))) took
                                  @ (if st2 \<noteq> st then [GateWritten st2] else []))))))"

definition gate_look :: "load_gate option \<Rightarrow> gate_reading \<Rightarrow> load_state \<Rightarrow> load_state \<times> gate_effect list" where
  "gate_look settings r s =
     (case settings of
        None \<Rightarrow>
          if gf_suspended (ls_gate s) = [] then (s, [])
          else (let (st, es) = gate_resume r (ls_gate s) in (s\<lparr>ls_gate := st\<rparr>, es))
      | Some g \<Rightarrow>
          (let st = ls_gate s;
               xs = keep_samples g (gr_now r) (ls_samples s @ [(gr_now r, gr_cpu r)]);
               hi = cpu_mean xs (gr_now r) (lg_pauseOverMs g);
               lo = cpu_mean xs (gr_now r) (lg_resumeOverMs g)
           in if \<not> gf_closed st \<and> (case hi of Some x \<Rightarrow> lg_pauseAtPct g \<le> x | None \<Rightarrow> False) then
                (let st1 = st\<lparr>gf_closed := True, gf_since := Some (gr_now r)\<rparr>;
                     (st2, es) = gate_suspend r g st1
                 in (\<lparr>ls_gate = st2, ls_samples = xs\<rparr>, GateWritten st1 # es))
              else if gf_closed st \<and> (case lo of Some x \<Rightarrow> x < lg_resumeBelowPct g | None \<Rightarrow> False) then
                (let st1 = st\<lparr>gf_closed := False, gf_since := Some (gr_now r)\<rparr>;
                     (st2, es) = gate_resume r st1
                 in (\<lparr>ls_gate = st2, ls_samples = xs\<rparr>, GateWritten st1 # es))
              else if gf_closed st then
                (let (st2, es) = gate_suspend r g st in (\<lparr>ls_gate = st2, ls_samples = xs\<rparr>, es))
              else (\<lparr>ls_gate = st, ls_samples = xs\<rparr>, [])))"

end
