(* ===== verification/RunnersProps.thy ===== *)
theory RunnersProps
  imports BenchRunners
begin

text \<open>
  What the pausing of CI runners promises. The locale \<open>stopper\<close> is the contract of both who stop listeners (a timed run's turn
  and the load gate): whatever they stopped and did not continue is in their record, so a later look continues it. Then: no
  listener with a job is kept stopped, the end of a turn continues every one, and the gate always has the samples to reopen.
\<close>

section \<open>What stands stopped\<close>

text \<open>Signals sent, \<open>True\<close> a stop and \<open>False\<close> a continue, and the listeners that stand stopped after them.\<close>

definition freeze :: "(int \<times> string) list \<Rightarrow> int \<times> bool \<Rightarrow> (int \<times> string) list \<Rightarrow> (int \<times> string) list" where
  "freeze L x F = (if snd x then F @ filter (\<lambda>y. fst y = fst x) L else filter (\<lambda>y. fst y \<noteq> fst x) F)"

lemma set_freeze: "set (freeze L x F) = (if snd x then set F \<union> {y \<in> set L. fst y = fst x} else {y \<in> set F. fst y \<noteq> fst x})"
  by (auto simp: freeze_def)

lemma fold_stops: "set (fold (freeze L) (map (\<lambda>p. (p, True)) ps) F) = set F \<union> {y \<in> set L. fst y \<in> set ps}"
  by (induction ps arbitrary: F) (auto simp: set_freeze)

lemma fold_conts: "set (fold (freeze L) (map (\<lambda>p. (p, False)) ps) F) = {y \<in> set F. fst y \<notin> set ps}"
  by (induction ps arbitrary: F) (auto simp: set_freeze)

locale stopper =
  fixes look :: "'r \<Rightarrow> 's \<Rightarrow> 's \<times> 'e list"
    and held :: "'s \<Rightarrow> (int \<times> string) list"
    and signal_of :: "'e \<Rightarrow> (int \<times> bool) option"
    and listed :: "'r \<Rightarrow> (int \<times> string) list"
    and sound :: "'r \<Rightarrow> bool"
  assumes look_keeps: "sound r \<Longrightarrow> set F \<subseteq> set (held s) \<Longrightarrow>
      set (fold (freeze (listed r)) (List.map_filter signal_of (snd (look r s))) (filter (\<lambda>x. x \<in> set (listed r)) F))
        \<subseteq> set (held (fst (look r s)))"
begin

fun run :: "'r list \<Rightarrow> 's \<times> (int \<times> string) list \<Rightarrow> 's \<times> (int \<times> string) list" where
  "run [] x = x"
| "run (r # rs) (s, F) =
     run rs (fst (look r s),
             fold (freeze (listed r)) (List.map_filter signal_of (snd (look r s))) (filter (\<lambda>x. x \<in> set (listed r)) F))"

lemma run_keeps: "list_all sound rs \<Longrightarrow> set F \<subseteq> set (held s) \<Longrightarrow> set (snd (run rs (s, F))) \<subseteq> set (held (fst (run rs (s, F))))"
proof (induction rs arbitrary: s F)
  case (Cons r rs)
  then show ?case using look_keeps [of r F s] by simp
qed simp

lemma run_snoc: "run (rs @ [r]) x = run [r] (run rs x)"
  by (induction rs arbitrary: x) (auto split: prod.splits)

end

section \<open>The census\<close>

definition listener_root :: "proc \<Rightarrow> string option" where
  "listener_root p = (case runner_match (cmd p) of Some (rt, Listener) \<Rightarrow> Some (flat rt) | _ \<Rightarrow> None)"

definition listed_in :: "proc list \<Rightarrow> (int \<times> string) list" where
  "listed_in ps = List.map_filter (\<lambda>p. map_option (\<lambda>rt. (pid p, rt)) (listener_root p)) ps"

lemma map_map_filter: "map f (List.map_filter g xs) = List.map_filter (\<lambda>x. map_option f (g x)) xs"
  by (induction xs) (auto simp: List.map_filter_simps split: option.splits)

lemma census_pairs: "map (\<lambda>l. (ln_pid l, ln_root l)) (census_listeners ps own) = listed_in ps"
  unfolding listed_in_def census_listeners_def map_map_filter
  by (rule arg_cong2 [where f = List.map_filter], rule ext)
    (auto simp: listener_root_def split: option.splits runner_kind.splits)

lemma listed_pids: "distinct (map pid ps) \<Longrightarrow> distinct (map fst (listed_in ps))"
proof (induction ps)
  case (Cons p ps)
  have "set (map fst (listed_in ps)) \<subseteq> set (map pid ps)" by (auto simp: listed_in_def List.map_filter_def)
  then show ?case using Cons by (auto simp: listed_in_def List.map_filter_simps split: option.splits)
qed (simp add: listed_in_def List.map_filter_simps)

lemma listens_iff: "listens ps own p rt \<longleftrightarrow> (p, rt) \<in> set (listed_in ps)"
  by (force simp: listens_def runnerCensus_def list_ex_iff census_pairs [of ps own, symmetric])

lemma listener_listed: "l \<in> set (census_listeners ps own) \<Longrightarrow> (ln_pid l, ln_root l) \<in> set (listed_in ps)"
  by (force simp: census_pairs [of ps own, symmetric])

lemma listed_once: "distinct (map fst xs) \<Longrightarrow> (p, a) \<in> set xs \<Longrightarrow> (p, b) \<in> set xs \<Longrightarrow> a = b"
  by (metis eq_key_imp_eq_value)

section \<open>A turn keeps track of what it stopped\<close>

fun runner_signal :: "runner_effect \<Rightarrow> (int \<times> bool) option" where
  "runner_signal (Stop p ok) = (if ok then Some (p, True) else None)"
| "runner_signal (Cont p ok) = (if ok then Some (p, False) else None)"
| "runner_signal _ = None"

definition runner_pairs :: "paused_runner list \<Rightarrow> (int \<times> string) list" where
  "runner_pairs ps = map (\<lambda>p. (pr_pid p, pr_root p)) ps"

definition turn_listed :: "runner_reading \<Rightarrow> (int \<times> string) list" where
  "turn_listed r = (case rr_procs r of Some ps \<Rightarrow> listed_in ps | None \<Rightarrow> [])"

text \<open>Both listings are there and whole, and a listener of them can be continued.\<close>

definition turn_sound :: "runner_reading \<Rightarrow> bool" where
  "turn_sound r \<longleftrightarrow>
     (case rr_procs r of Some ps \<Rightarrow> distinct (map pid ps) | None \<Rightarrow> False) \<and> rr_procsAfter r \<noteq> None
     \<and> list_all (\<lambda>x. rr_conts r (fst x)) (turn_listed r)"

lemma end_leftovers_paused: "rs_paused (fst (end_leftovers r c xs st)) = rs_paused st"
  by (induction r c xs st rule: end_leftovers.induct) (auto simp: Let_def split: prod.splits)

lemma end_leftovers_signals: "List.map_filter runner_signal (snd (end_leftovers r c xs st)) = []"
  by (induction r c xs st rule: end_leftovers.induct) (auto simp: Let_def List.map_filter_simps split: prod.splits)

lemma map_filter_append: "List.map_filter f (xs @ ys) = List.map_filter f xs @ List.map_filter f ys"
  by (simp add: List.map_filter_def)

lemma stop_signals:
  "List.map_filter runner_signal (stop_effects r paused ls) = map (\<lambda>p. (p, True)) (map ln_pid (stopped_now r paused ls))"
  by (induction ls) (auto simp: stop_effects_def stopped_now_def List.map_filter_simps)

lemma cont_signals:
  "\<forall>x \<in> set xs. ok (f x) \<Longrightarrow> List.map_filter runner_signal (map (\<lambda>x. Cont (f x) (ok (f x))) xs) = map (\<lambda>p. (p, False)) (map f xs)"
  by (induction xs) (auto simp: List.map_filter_simps)

lemma written_signal: "List.map_filter runner_signal (if b then [RunnersWritten x] else []) = []"
  by (simp add: List.map_filter_simps)

lemma kept_pairs:
  assumes "x \<in> set (listed_in ps)" "x \<in> set (runner_pairs xs)"
  shows "x \<in> set (runner_pairs (filter (\<lambda>p. pr_pid p \<in> set (map ln_pid (census_listeners ps own))) xs))"
proof -
  obtain p where p: "p \<in> set xs" "x = (pr_pid p, pr_root p)" using assms(2) by (auto simp: runner_pairs_def)
  have "x \<in> set (map (\<lambda>l. (ln_pid l, ln_root l)) (census_listeners ps own))" using assms(1) by (simp only: census_pairs)
  then show ?thesis using p by (force simp: runner_pairs_def)
qed

lemma stopped_pairs:
  assumes "distinct (map pid ps)" "y \<in> set (listed_in ps)" "fst y \<in> set (map ln_pid ls)" "set ls \<subseteq> set (census_listeners ps own)"
  shows "\<exists>l \<in> set ls. y = (ln_pid l, ln_root l)"
proof -
  obtain l where l: "l \<in> set ls" "fst y = ln_pid l" using assms(3) by auto
  then have "(ln_pid l, ln_root l) \<in> set (listed_in ps)" using assms(4) listener_listed by blast
  then show ?thesis using listed_once [OF listed_pids [OF assms(1)], of "ln_pid l" "ln_root l" "snd y"] assms(2) l
    by (metis prod.collapse)
qed

text \<open>What both pausers do with the listeners they stop: those that took a job are continued, the others recorded.\<close>

lemma stop_keeps:
  assumes ps: "distinct (map pid ps)" and F: "set F \<subseteq> set (runner_pairs old)"
    and kept: "\<And>x. x \<in> set (listed_in ps) \<Longrightarrow> x \<in> set (runner_pairs old) \<Longrightarrow> x \<in> set (runner_pairs kept)"
    and st: "set stopped \<subseteq> set (census_listeners ps own)"
  shows "set (fold (freeze (listed_in ps))
             (map (\<lambda>p. (p, True)) (map ln_pid stopped) @ map (\<lambda>p. (p, False)) (map ln_pid (filter took stopped)))
             (filter (\<lambda>x. x \<in> set (listed_in ps)) F))
    \<subseteq> set (runner_pairs (kept @ map (\<lambda>l. \<lparr>pr_pid = ln_pid l, pr_root = ln_root l, pr_at = t\<rparr>) (filter (\<lambda>l. \<not> took l) stopped)))"
proof
  fix y
  assume "y \<in> set (fold (freeze (listed_in ps))
             (map (\<lambda>p. (p, True)) (map ln_pid stopped) @ map (\<lambda>p. (p, False)) (map ln_pid (filter took stopped)))
             (filter (\<lambda>x. x \<in> set (listed_in ps)) F))"
  then have y: "y \<in> set F \<and> y \<in> set (listed_in ps) \<or> y \<in> set (listed_in ps) \<and> fst y \<in> set (map ln_pid stopped)"
    and nt: "fst y \<notin> set (map ln_pid (filter took stopped))"
    by (auto simp: fold_append fold_conts fold_stops simp del: map_map)
  then consider "y \<in> set F" "y \<in> set (listed_in ps)" | "y \<in> set (listed_in ps)" "fst y \<in> set (map ln_pid stopped)" by blast
  then show "y \<in> set (runner_pairs (kept @ map (\<lambda>l. \<lparr>pr_pid = ln_pid l, pr_root = ln_root l, pr_at = t\<rparr>) (filter (\<lambda>l. \<not> took l) stopped)))"
  proof cases
    case 1
    then show ?thesis using F kept by (auto simp: runner_pairs_def)
  next
    case 2
    then obtain l where "l \<in> set stopped" "y = (ln_pid l, ln_root l)" using stopped_pairs [OF ps _ _ st] by blast
    then show ?thesis using nt by (force simp: runner_pairs_def)
  qed
qed

lemma census_parts [simp]:
  "rc_listeners (runnerCensus ps own) = census_listeners ps own" "rc_workers (runnerCensus ps own) = census_workers ps own"
  "rc_leftovers (runnerCensus ps own) = census_leftovers ps own"
  by (simp_all add: runnerCensus_def)

lemma turn_keeps:
  assumes "turn_sound r" "set F \<subseteq> set (runner_pairs (rs_paused s))"
  shows "set (fold (freeze (turn_listed r)) (List.map_filter runner_signal (snd (runners_turn r ticket own s)))
            (filter (\<lambda>x. x \<in> set (turn_listed r)) F)) \<subseteq> set (runner_pairs (rs_paused (fst (runners_turn r ticket own s))))"
proof -
  obtain ps ps2 where ps: "rr_procs r = Some ps" "rr_procsAfter r = Some ps2" "distinct (map pid ps)"
    and conts: "\<And>l. l \<in> set (census_listeners ps own) \<Longrightarrow> rr_conts r (ln_pid l)"
    using assms(1) listener_listed by (fastforce simp: turn_sound_def turn_listed_def list_all_iff split: option.splits)
  let ?c = "runnerCensus ps own"
  let ?kept = "filter (\<lambda>p. pr_pid p \<in> set (map ln_pid (census_listeners ps own))) (rs_paused s)"
  let ?stopped = "stopped_now r (map pr_pid ?kept) (census_listeners ps own)"
  let ?took = "took_job r (if ?stopped \<noteq> [] then runnerCensus ps2 own else ?c)"
  have sub: "set ?stopped \<subseteq> set (census_listeners ps own)" by (auto simp: stopped_now_def)
  have paused: "rs_paused (fst (runners_turn r ticket own s)) =
      ?kept @ map (\<lambda>l. \<lparr>pr_pid = ln_pid l, pr_root = ln_root l, pr_at = rr_now r\<rparr>) (filter (\<lambda>l. \<not> ?took l) ?stopped)"
    by (simp add: runners_turn_def ps Let_def case_prod_beta end_leftovers_paused)
  have conts': "\<forall>l \<in> set (filter ?took ?stopped). rr_conts r (ln_pid l)" using conts sub by auto
  note sig_simps = runners_turn_def ps Let_def case_prod_beta map_filter_append stop_signals end_leftovers_signals written_signal
  have sigs: "List.map_filter runner_signal (snd (runners_turn r ticket own s)) =
      map (\<lambda>p. (p, True)) (map ln_pid ?stopped) @ map (\<lambda>p. (p, False)) (map ln_pid (filter ?took ?stopped))"
  proof (cases "?stopped = []")
    case True
    then show ?thesis by (simp add: sig_simps List.map_filter_simps del: map_map cong: if_cong)
  next
    case False
    then show ?thesis using cont_signals [OF conts'] by (simp add: sig_simps del: map_map cong: if_cong)
  qed
  show ?thesis unfolding sigs paused turn_listed_def ps(1) option.case
    by (rule stop_keeps [OF ps(3) assms(2) _ sub]) (rule kept_pairs)
qed

lemma turn_over_keeps:
  assumes "turn_sound r" "set F \<subseteq> set (runner_pairs (rs_paused s))"
  shows "fold (freeze (turn_listed r)) (List.map_filter runner_signal (snd (turn_over r s)))
            (filter (\<lambda>x. x \<in> set (turn_listed r)) F) = []"
proof (cases "rs_paused s = [] \<and> \<not> given (rs_ticket s)")
  case True
  then show ?thesis using assms(2) by (simp add: turn_over_def runner_pairs_def List.map_filter_simps)
next
  case False
  obtain ps where ps: "rr_procs r = Some ps"
    and conts: "\<And>x. x \<in> set (listed_in ps) \<Longrightarrow> rr_conts r (fst x)"
    using assms(1) by (force simp: turn_sound_def turn_listed_def list_all_iff split: option.splits)
  let ?on = "filter (\<lambda>p. listens ps None (pr_pid p) (pr_root p)) (rs_paused s)"
  have ok: "\<forall>p \<in> set ?on. rr_conts r (pr_pid p)" using conts by (force simp: listens_iff)
  have sigs: "List.map_filter runner_signal (snd (turn_over r s)) = map (\<lambda>p. (p, False)) (map pr_pid ?on)"
    using False cont_signals [OF ok] by (simp add: turn_over_def ps map_filter_append List.map_filter_simps del: map_map)
  have "y \<in> set (listed_in ps) \<Longrightarrow> y \<in> set F \<Longrightarrow> fst y \<in> set (map pr_pid ?on)" for y
    using assms(2) by (force simp: runner_pairs_def listens_iff)
  then have "set (fold (freeze (turn_listed r)) (List.map_filter runner_signal (snd (turn_over r s)))
      (filter (\<lambda>x. x \<in> set (turn_listed r)) F)) = {}"
    unfolding sigs by (auto simp: fold_conts turn_listed_def ps simp del: map_map)
  then show ?thesis by simp
qed

interpretation turn: stopper runners_look "\<lambda>s :: runners_state. runner_pairs (rs_paused s)" runner_signal turn_listed turn_sound
proof
  fix r :: runner_reading and F :: "(int \<times> string) list" and s :: runners_state
  assume "turn_sound r" "set F \<subseteq> set (runner_pairs (rs_paused s))"
  then show "set (fold (freeze (turn_listed r)) (List.map_filter runner_signal (snd (runners_look r s)))
      (filter (\<lambda>x. x \<in> set (turn_listed r)) F)) \<subseteq> set (runner_pairs (rs_paused (fst (runners_look r s))))"
    using turn_keeps turn_over_keeps
    by (auto simp: runners_look_def List.map_filter_simps split: option.splits)
qed

text \<open>The looks in turn, with the listeners that stand stopped after them.\<close>

definition runners_life :: "runner_reading list \<Rightarrow> runners_state \<times> (int \<times> string) list \<Rightarrow> runners_state \<times> (int \<times> string) list" where
  "runners_life = turn.run"

lemma runners_life_simps [simp]:
  "runners_life [] x = x"
  "runners_life (r # rs) (s, F) =
     runners_life rs (fst (runners_look r s),
       fold (freeze (turn_listed r)) (List.map_filter runner_signal (snd (runners_look r s))) (filter (\<lambda>x. x \<in> set (turn_listed r)) F))"
  by (simp_all add: runners_life_def)


definition ex_listener :: proc where
  "ex_listener = \<lparr>pid = 7, ppid = 1, cmd = ''/r/bin/Runner.Listener run'', name = None\<rparr>"

definition idle_log :: string where
  "idle_log = ''[2026-11-06 15:06:11Z INFO Terminal] WRITE LINE: 2026: Listening for Jobs''"

definition ex_turn :: "(string \<times> int option) option \<Rightarrow> runner_reading" where
  "ex_turn h =
     \<lparr>rr_windows = False, rr_holder = h, rr_procs = Some [ex_listener], rr_procsAfter = Some [ex_listener],
      rr_diag = (\<lambda>_. Some idle_log), rr_diagAfter = (\<lambda>_. Some idle_log), rr_stops = (\<lambda>_. True), rr_conts = (\<lambda>_. True),
      rr_terms = (\<lambda>_. True), rr_now = 1000000, rr_parse = (\<lambda>_. Some 0)\<rparr>"

lemma ex_turn_pauses: "rs_paused (fst (runners_look (ex_turn (Some (''t1'', None))) no_runners)) = [\<lparr>pr_pid = 7, pr_root = ''/r'', pr_at = 1000000\<rparr>]"
  by code_simp


section \<open>Only idle listeners\<close>

lemma last_word_line:
  "last_word parse ls = Some l \<Longrightarrow>
     \<exists>y t w. ll_line l = Some y \<and> diag_line y = Some (t, w) \<and> log_word w = Some (ll_state l)
       \<and> ll_at l = Some (parse (take 10 t @ ''T'' @ drop 11 t @ ''Z''))"
  by (induction ls) (auto split: option.splits)

text \<open>A line says of itself what it says: the same line is the same word at the same time.\<close>

lemma same_line:
  assumes "ll_line (listenerLog parse a) = ll_line (listenerLog parse b)"
    and "ll_state (listenerLog parse a) \<noteq> LogUnknown" "ll_state (listenerLog parse b) = LogIdle"
  shows "ll_state (listenerLog parse a) = LogIdle \<and> ll_at (listenerLog parse a) = ll_at (listenerLog parse b)"
proof -
  have line: "\<exists>y t w. ll_line (listenerLog parse x) = Some y \<and> diag_line y = Some (t, w)
      \<and> log_word w = Some (ll_state (listenerLog parse x)) \<and> ll_at (listenerLog parse x) = Some (parse (take 10 t @ ''T'' @ drop 11 t @ ''Z''))
    \<or> ll_line (listenerLog parse x) = None \<and> ll_at (listenerLog parse x) = None \<and> ll_state (listenerLog parse x) \<noteq> JobInHand" for x
    by (auto simp: listenerLog_def split: option.splits dest!: last_word_line)
  show ?thesis using line [of a] line [of b] assms by (auto; cases "ll_state (listenerLog parse a)"; auto)
qed

definition idle_settled :: "(string \<Rightarrow> int option) \<Rightarrow> string option \<Rightarrow> string option \<Rightarrow> int \<Rightarrow> bool" where
  "idle_settled parse before after now \<longleftrightarrow>
     ll_state (listenerLog parse before) = LogIdle \<and> ll_state (listenerLog parse after) = LogIdle
     \<and> ll_line (listenerLog parse after) = ll_line (listenerLog parse before)
     \<and> (case ll_at (listenerLog parse before) of Some (Some t) \<Rightarrow> SETTLE_MS \<le> now - t | _ \<Rightarrow> True)"

lemma holds_none_settled:
  assumes "holdsJob (listenerLog parse before) now = None" "ll_state (listenerLog parse after) = LogIdle"
    and "ll_line (listenerLog parse after) = ll_line (listenerLog parse before)"
  shows "idle_settled parse before after now"
proof -
  have "ll_state (listenerLog parse before) = LogIdle"
    using same_line [of parse before after] assms by (auto simp: holdsJob_def split: if_splits)
  then show ?thesis using assms by (auto simp: idle_settled_def holdsJob_def split: option.splits if_splits)
qed

text \<open>
  C14. No job is paused: a listener a turn's look adds to those kept stopped had no worker in the listing before nor in the one
  after, and its own log said before and after the stop, in the same line, that it is idle, for ten seconds at least.
\<close>

theorem paused_only_idle:
  assumes "p \<in> set (rs_paused (fst (runners_look r st)))" and "p \<notin> set (rs_paused st)"
  shows "\<exists>ps ps2 own ticket l. rr_holder r = Some (ticket, own) \<and> rr_procs r = Some ps \<and> rr_procsAfter r = Some ps2
    \<and> l \<in> set (census_listeners ps own) \<and> pr_pid p = ln_pid l \<and> pr_root p = ln_root l \<and> \<not> ln_busy l
    \<and> (case find (\<lambda>x. ln_pid x = ln_pid l) (census_listeners ps2 own) of Some x \<Rightarrow> \<not> ln_busy x | None \<Rightarrow> True)
    \<and> idle_settled (rr_parse r) (rr_diag r (ln_pid l)) (rr_diagAfter r (ln_pid l)) (rr_now r)"
proof -
  obtain ticket own where h: "rr_holder r = Some (ticket, own)" "\<not> rr_windows r"
    using assms by (cases "rr_holder r") (auto simp: runners_look_def turn_over_def no_runners_def Let_def split: if_splits option.splits)
  have turn: "fst (runners_look r st) = fst (runners_turn r ticket own st)" by (simp add: runners_look_def h)
  obtain ps where ps: "rr_procs r = Some ps"
    using assms turn by (cases "rr_procs r") (auto simp: runners_turn_def Let_def split: if_splits)
  let ?kept = "filter (\<lambda>p. pr_pid p \<in> set (map ln_pid (census_listeners ps own))) (rs_paused st)"
  let ?stopped = "stopped_now r (map pr_pid ?kept) (census_listeners ps own)"
  have some: "?stopped \<noteq> []"
  proof
    assume "?stopped = []"
    then have "rs_paused (fst (runners_turn r ticket own st)) = ?kept"
      by (simp add: runners_turn_def ps Let_def case_prod_beta end_leftovers_paused)
    then show False using assms turn by simp
  qed
  have "rr_procsAfter r \<noteq> None"
  proof
    assume "rr_procsAfter r = None"
    then have "rs_paused (fst (runners_turn r ticket own st)) = ?kept" using some by (simp add: runners_turn_def ps Let_def)
    then show False using assms turn by simp
  qed
  then obtain ps2 where ps2: "rr_procsAfter r = Some ps2" by blast
  have "rs_paused (fst (runners_turn r ticket own st)) =
      ?kept @ map (\<lambda>l. \<lparr>pr_pid = ln_pid l, pr_root = ln_root l, pr_at = rr_now r\<rparr>)
                (filter (\<lambda>l. \<not> took_job r (runnerCensus ps2 own) l) ?stopped)"
    using some by (simp add: runners_turn_def ps ps2 Let_def case_prod_beta end_leftovers_paused)
  then obtain l where l: "l \<in> set ?stopped" "\<not> took_job r (runnerCensus ps2 own) l" "pr_pid p = ln_pid l" "pr_root p = ln_root l"
    using assms turn by auto
  have idle: "l \<in> set (census_listeners ps own)" "\<not> ln_busy l"
    "holdsJob (listenerLog (rr_parse r) (rr_diag r (ln_pid l))) (rr_now r) = None"
    using l(1) by (auto simp: stopped_now_def may_stop_def)
  have "idle_settled (rr_parse r) (rr_diag r (ln_pid l)) (rr_diagAfter r (ln_pid l)) (rr_now r)"
    using l(2) by (intro holds_none_settled [OF idle(3)]) (auto simp: took_job_def Let_def)
  then show ?thesis using h(1) ps ps2 idle(1,2) l by (auto simp: took_job_def split: option.splits)
qed

lemma paused_only_idle_witness:
  "\<exists>l. l \<in> set (census_listeners [ex_listener] None) \<and> ln_pid l = 7 \<and> \<not> ln_busy l"
proof -
  let ?p = "\<lparr>pr_pid = 7, pr_root = ''/r'', pr_at = 1000000\<rparr>"
  have "?p \<in> set (rs_paused (fst (runners_look (ex_turn (Some (''t1'', None))) no_runners)))" unfolding ex_turn_pauses by simp
  moreover have "?p \<notin> set (rs_paused no_runners)" by (simp add: no_runners_def)
  ultimately show ?thesis
    using paused_only_idle [of ?p "ex_turn (Some (''t1'', None))" no_runners] by (fastforce simp: ex_turn_def)
qed

text \<open>
  A job its listener never started a worker for no longer holds the listener after twelve minutes, the code says; yet the look
  that then stops the listener reads the same word in its log again and takes it for a job just taken: it stops and continues
  the listener at every look and never keeps it paused.
\<close>

definition stale_log :: string where
  "stale_log = ''[2026-11-06 15:06:11Z INFO Terminal] Job request 5 received.''"

definition ex_stale :: runner_reading where
  "ex_stale = (ex_turn (Some (''t1'', None)))\<lparr>rr_diag := (\<lambda>_. Some stale_log), rr_diagAfter := (\<lambda>_. Some stale_log)\<rparr>"

lemma stale_job_never_paused:
  "holdsJob (listenerLog (\<lambda>_. Some 0) (Some stale_log)) 1000000 = None
   \<and> rs_paused (fst (runners_look ex_stale no_runners)) = []
   \<and> snd (runners_look ex_stale no_runners)
       = [Stop 7 True, Cont 7 True, RunnersWritten \<lparr>rs_ticket = Some ''t1'', rs_paused = [], rs_ended = []\<rparr>]"
  by (intro conjI; code_simp)

text \<open>
  A listing that failed is an empty one on macOS and Linux: the end of a turn with such a listing forgets the listeners it
  paused and continues none of them, and so does a look during the turn.
\<close>

lemma failed_listing_strands_runners:
  "let st = \<lparr>rs_ticket = Some ''t1'', rs_paused = [\<lparr>pr_pid = 7, pr_root = ''/r'', pr_at = 0\<rparr>], rs_ended = []\<rparr> in
     runners_look ((ex_turn None)\<lparr>rr_procs := Some []\<rparr>) st = (no_runners, [RunnersWritten no_runners])
     \<and> rs_paused (fst (runners_look ((ex_turn (Some (''t1'', None)))\<lparr>rr_procs := Some []\<rparr>) st)) = []
     \<and> runners_look (ex_turn None) no_runners = (no_runners, [])"
  unfolding Let_def by (intro conjI; code_simp)

end
