(* ===== verification/LoadGateProps.thy ===== *)
theory LoadGateProps
  imports RunnersProps
begin

text \<open>
  What the load gate promises: it keeps track of the listeners it suspends (the locale \<open>stopper\<close> again), none stands suspended
  while it is open, and its samples always reach far enough back for it to reopen.
\<close>

section \<open>The gate keeps track\<close>

fun gate_signal :: "gate_effect \<Rightarrow> (int \<times> bool) option" where
  "gate_signal (Suspend p ok) = (if ok then Some (p, True) else None)"
| "gate_signal (Resume p ok) = (if ok then Some (p, False) else None)"
| "gate_signal (GateWritten _) = None"

definition gate_listed :: "gate_reading \<Rightarrow> (int \<times> string) list" where
  "gate_listed r = (case gr_procs r of Some ps \<Rightarrow> listed_in ps | None \<Rightarrow> [])"

definition gate_sound :: "gate_reading \<Rightarrow> bool" where
  "gate_sound r \<longleftrightarrow>
     (case gr_procs r of Some ps \<Rightarrow> distinct (map pid ps) | None \<Rightarrow> False) \<and> gr_fresh r \<noteq> None
     \<and> list_all (\<lambda>x. gr_resumes r (fst x)) (gate_listed r)"

lemma suspend_signals:
  "List.map_filter gate_signal (map (\<lambda>l. Suspend (ln_pid l) (ok (ln_pid l))) ls) =
     map (\<lambda>p. (p, True)) (map ln_pid (filter (\<lambda>l. ok (ln_pid l)) ls))"
  by (induction ls) (auto simp: List.map_filter_simps)

lemma resume_signals:
  "\<forall>x \<in> set xs. ok (f x) \<Longrightarrow> List.map_filter gate_signal (map (\<lambda>x. Resume (f x) (ok (f x))) xs) = map (\<lambda>p. (p, False)) (map f xs)"
  by (induction xs) (auto simp: List.map_filter_simps)

lemma gate_written: "List.map_filter gate_signal [GateWritten x] = []"
  "List.map_filter gate_signal (if b then [GateWritten x] else []) = []"
  "List.map_filter gate_signal (GateWritten x # es) = List.map_filter gate_signal es"
  by (simp_all add: List.map_filter_simps)

lemma gate_suspend_keeps:
  assumes "gate_sound r" "set F \<subseteq> set (runner_pairs (gf_suspended st))"
  shows "set (fold (freeze (gate_listed r)) (List.map_filter gate_signal (snd (gate_suspend r g st)))
            (filter (\<lambda>x. x \<in> set (gate_listed r)) F)) \<subseteq> set (runner_pairs (gf_suspended (fst (gate_suspend r g st))))"
proof -
  obtain ps ps2 where ps: "gr_procs r = Some ps" "gr_fresh r = Some ps2" "distinct (map pid ps)"
    and conts: "\<And>l. l \<in> set (census_listeners ps None) \<Longrightarrow> gr_resumes r (ln_pid l)"
    using assms(1) listener_listed by (fastforce simp: gate_sound_def gate_listed_def list_all_iff split: option.splits)
  let ?c = "runnerCensus ps None"
  let ?kept = "filter (\<lambda>p. listens ps None (pr_pid p) (pr_root p)) (gf_suspended st)"
  let ?cand = "filter (may_suspend r g (map pr_pid ?kept) ?c) (census_listeners ps None)"
  let ?stopped = "filter (\<lambda>l. gr_suspends r (ln_pid l)) ?cand"
  let ?took = "took_job_fresh r (runnerCensus ps2 None)"
  have sub: "set ?stopped \<subseteq> set (census_listeners ps None)" by auto
  have conts': "\<forall>l \<in> set (filter ?took ?stopped). gr_resumes r (ln_pid l)" using conts by auto
  have kept: "x \<in> set (listed_in ps) \<Longrightarrow> x \<in> set (runner_pairs (gf_suspended st)) \<Longrightarrow> x \<in> set (runner_pairs ?kept)" for x
    by (auto simp: runner_pairs_def listens_iff)
  have paused: "gf_suspended (fst (gate_suspend r g st)) =
      ?kept @ map (\<lambda>l. \<lparr>pr_pid = ln_pid l, pr_root = ln_root l, pr_at = gr_now r\<rparr>) (filter (\<lambda>l. \<not> ?took l) ?stopped)"
    by (simp add: gate_suspend_def ps Let_def del: filter_filter)
  have sigs: "List.map_filter gate_signal (snd (gate_suspend r g st)) =
      map (\<lambda>p. (p, True)) (map ln_pid ?stopped) @ map (\<lambda>p. (p, False)) (map ln_pid (filter ?took ?stopped))"
  proof (cases "?stopped = []")
    case True
    then show ?thesis unfolding gate_suspend_def ps option.case Let_def
      by (simp add: map_filter_append suspend_signals gate_written del: map_map filter_filter)
  next
    case False
    then show ?thesis unfolding gate_suspend_def ps option.case Let_def
      by (simp add: map_filter_append suspend_signals gate_written resume_signals [OF conts'] del: map_map filter_filter cong: if_cong)
  qed
  show ?thesis unfolding sigs paused gate_listed_def ps(1) option.case
    by (rule stop_keeps [OF ps(3) assms(2) kept sub])
qed

lemma gate_resume_keeps:
  assumes "gate_sound r" "set F \<subseteq> set (runner_pairs (gf_suspended st))"
  shows "fold (freeze (gate_listed r)) (List.map_filter gate_signal (snd (gate_resume r st)))
            (filter (\<lambda>x. x \<in> set (gate_listed r)) F) = []"
    and "gf_suspended (fst (gate_resume r st)) = []"
proof -
  obtain ps where ps: "gr_procs r = Some ps"
    and conts: "\<And>x. x \<in> set (listed_in ps) \<Longrightarrow> gr_resumes r (fst x)"
    using assms(1) by (force simp: gate_sound_def gate_listed_def list_all_iff split: option.splits)
  let ?on = "filter (\<lambda>p. listens ps None (pr_pid p) (pr_root p)) (gf_suspended st)"
  have ok: "\<forall>p \<in> set ?on. gr_resumes r (pr_pid p)" using conts by (force simp: listens_iff)
  have sigs: "List.map_filter gate_signal (snd (gate_resume r st)) = map (\<lambda>p. (p, False)) (map pr_pid ?on)"
    using resume_signals [OF ok] by (simp add: gate_resume_def ps Let_def map_filter_append gate_written del: map_map)
  have "y \<in> set (listed_in ps) \<Longrightarrow> y \<in> set F \<Longrightarrow> fst y \<in> set (map pr_pid ?on)" for y
    using assms(2) by (force simp: runner_pairs_def listens_iff)
  then have "set (fold (freeze (gate_listed r)) (List.map_filter gate_signal (snd (gate_resume r st)))
      (filter (\<lambda>x. x \<in> set (gate_listed r)) F)) = {}"
    unfolding sigs by (auto simp: fold_conts gate_listed_def ps simp del: map_map)
  then show "fold (freeze (gate_listed r)) (List.map_filter gate_signal (snd (gate_resume r st)))
            (filter (\<lambda>x. x \<in> set (gate_listed r)) F) = []" by simp
  show "gf_suspended (fst (gate_resume r st)) = []" by (simp add: gate_resume_def ps Let_def)
qed

text \<open>A look is nothing, a suspending or a resuming, with at most the gate's own mark changed before.\<close>

lemma gate_look_cases:
  obtains (Nothing) "snd (gate_look (Some g) r s) = []" "ls_gate (fst (gate_look (Some g) r s)) = ls_gate s" "\<not> gf_closed (ls_gate s)"
  | (Suspending) st where "gf_suspended st = gf_suspended (ls_gate s)" "gf_closed st"
      "List.map_filter gate_signal (snd (gate_look (Some g) r s)) = List.map_filter gate_signal (snd (gate_suspend r g st))"
      "ls_gate (fst (gate_look (Some g) r s)) = fst (gate_suspend r g st)"
  | (Resuming) st where "gf_suspended st = gf_suspended (ls_gate s)" "\<not> gf_closed st"
      "List.map_filter gate_signal (snd (gate_look (Some g) r s)) = List.map_filter gate_signal (snd (gate_resume r st))"
      "ls_gate (fst (gate_look (Some g) r s)) = fst (gate_resume r st)"
proof -
  let ?xs = "keep_samples g (gr_now r) (ls_samples s @ [(gr_now r, gr_cpu r)])"
  let ?hi = "case cpu_mean ?xs (gr_now r) (lg_pauseOverMs g) of Some x \<Rightarrow> lg_pauseAtPct g \<le> x | None \<Rightarrow> False"
  let ?lo = "case cpu_mean ?xs (gr_now r) (lg_resumeOverMs g) of Some x \<Rightarrow> x < lg_resumeBelowPct g | None \<Rightarrow> False"
  consider "\<not> gf_closed (ls_gate s)" "?hi" | "gf_closed (ls_gate s)" "?lo" | "gf_closed (ls_gate s)" "\<not> ?lo"
    | "\<not> gf_closed (ls_gate s)" "\<not> ?hi" by blast
  then show thesis
  proof cases
    case 1
    then show ?thesis
      by (intro Suspending [of "(ls_gate s)\<lparr>gf_closed := True, gf_since := Some (gr_now r)\<rparr>"])
        (simp_all add: gate_look_def Let_def case_prod_beta gate_written)
  next
    case 2
    then show ?thesis
      by (intro Resuming [of "(ls_gate s)\<lparr>gf_closed := False, gf_since := Some (gr_now r)\<rparr>"])
        (simp_all add: gate_look_def Let_def case_prod_beta gate_written)
  next
    case 3
    then show ?thesis by (intro Suspending [of "ls_gate s"]) (simp_all add: gate_look_def Let_def case_prod_beta)
  next
    case 4
    then show ?thesis by (intro Nothing) (simp_all add: gate_look_def Let_def)
  qed
qed

interpretation gate: stopper "gate_look (Some g)" "\<lambda>s :: load_state. runner_pairs (gf_suspended (ls_gate s))" gate_signal gate_listed gate_sound
  for g
proof
  fix r :: gate_reading and F :: "(int \<times> string) list" and s :: load_state
  assume a: "gate_sound r" "set F \<subseteq> set (runner_pairs (gf_suspended (ls_gate s)))"
  show "set (fold (freeze (gate_listed r)) (List.map_filter gate_signal (snd (gate_look (Some g) r s)))
      (filter (\<lambda>x. x \<in> set (gate_listed r)) F)) \<subseteq> set (runner_pairs (gf_suspended (ls_gate (fst (gate_look (Some g) r s)))))"
  proof (cases rule: gate_look_cases [of g r s])
    case Nothing
    then show ?thesis using a by (auto simp: List.map_filter_simps)
  next
    case (Suspending st)
    then show ?thesis using gate_suspend_keeps [of r F st g] a by simp
  next
    case (Resuming st)
    then show ?thesis using gate_resume_keeps [of r F st] a by simp
  qed
qed

definition gate_life :: "load_gate \<Rightarrow> gate_reading list \<Rightarrow> load_state \<times> (int \<times> string) list \<Rightarrow> load_state \<times> (int \<times> string) list" where
  "gate_life g = gate.run g"

lemma open_holds_none:
  assumes "gate_sound r" "\<not> gf_closed (ls_gate s) \<Longrightarrow> gf_suspended (ls_gate s) = []"
    and "\<not> gf_closed (ls_gate (fst (gate_look (Some g) r s)))"
  shows "gf_suspended (ls_gate (fst (gate_look (Some g) r s))) = []"
proof (cases rule: gate_look_cases [of g r s])
  case Nothing
  then show ?thesis using assms by simp
next
  case (Suspending st)
  have "gf_closed (fst (gate_suspend r g st)) = gf_closed st" by (simp add: gate_suspend_def Let_def split: option.splits)
  then show ?thesis using Suspending assms(3) by simp
next
  case (Resuming st)
  then show ?thesis using gate_resume_keeps(2) [OF assms(1), of "[]" st] by simp
qed

lemma life_open:
  assumes "list_all gate_sound rs" "\<not> gf_closed (ls_gate s) \<Longrightarrow> gf_suspended (ls_gate s) = []"
    and "\<not> gf_closed (ls_gate (fst (gate_life g rs (s, F))))"
  shows "gf_suspended (ls_gate (fst (gate_life g rs (s, F)))) = []"
  using assms
proof (induction rs arbitrary: s F)
  case (Cons r rs)
  then show ?case using open_holds_none [of r s g] by (simp add: gate_life_def)
qed (simp add: gate_life_def)


definition ex_gate_reading :: "int \<Rightarrow> num' \<Rightarrow> proc list option \<Rightarrow> gate_reading" where
  "ex_gate_reading t cpu ps =
     \<lparr>gr_now = t, gr_cpu = cpu, gr_procs = ps, gr_fresh = ps, gr_diag = (\<lambda>_. Some idle_log), gr_diagAfter = (\<lambda>_. Some idle_log),
      gr_suspends = (\<lambda>_. True), gr_resumes = (\<lambda>_. True), gr_parse = (\<lambda>_. Some 0)\<rparr>"

definition ffu_listener :: proc where
  "ffu_listener = \<lparr>pid = 7, ppid = 1, cmd = ''V:/ffw/ffu-1/bin/Runner.Listener.exe run'', name = None\<rparr>"

definition ex_load :: "gate_reading list" where
  "ex_load = [ex_gate_reading 100000 80 (Some [ffu_listener]), ex_gate_reading 160000 90 (Some [ffu_listener])]"

lemma ex_load_sound: "list_all gate_sound ex_load"
  by code_simp


section \<open>The samples\<close>

definition steady_samples :: "(int \<times> num') list \<Rightarrow> bool" where
  "steady_samples xs \<longleftrightarrow> list_all (\<lambda>(a, b). fst a \<le> fst b \<and> fst b \<le> fst a + sample_slack) (zip xs (tl xs))"

lemma keep_reaches:
  assumes "steady_samples xs" "xs \<noteq> []" "fst (last xs) = now" "W \<le> now - fst (hd xs)" "0 < W"
    and "W = max (lg_pauseOverMs g) (lg_resumeOverMs g)"
  shows "keep_samples g now xs \<noteq> [] \<and> W \<le> now - fst (hd (keep_samples g now xs)) \<and> fst (last (keep_samples g now xs)) = now"
  using assms
proof (induction xs)
  case (Cons x xs)
  show ?case
  proof (cases "W + sample_slack < now - fst x")
    case False
    then show ?thesis using Cons.prems by (cases x) (simp add: keep_samples_def)
  next
    case True
    have ne: "xs \<noteq> []" using True Cons.prems by (auto simp: sample_slack_def split: if_splits)
    then have step: "fst (hd xs) \<le> fst x + sample_slack" "steady_samples xs"
      using Cons.prems(1) by (cases xs; auto simp: steady_samples_def)+
    have "keep_samples g now (x # xs) = keep_samples g now xs"
      using True Cons.prems(6) by (cases x) (simp add: keep_samples_def)
    moreover have "W \<le> now - fst (hd xs)" using True step(1) by linarith
    moreover have "fst (last xs) = now" using Cons.prems(3) ne by simp
    ultimately show ?thesis using Cons.IH [OF step(2) ne _ _ Cons.prems(5,6)] by simp
  qed
qed simp

lemma mean_there:
  assumes "xs \<noteq> []" "ms \<le> now - fst (hd xs)" "fst (last xs) = now" "0 \<le> ms"
  shows "cpu_mean xs now ms \<noteq> None"
proof -
  obtain t p rest where xs: "xs = (t, p) # rest" using assms(1) by (cases xs) auto
  have "last xs \<in> set (filter (\<lambda>(a, _). now - a \<le> ms) xs)" using assms last_in_set [of xs] by (cases "last xs") auto
  then have "filter (\<lambda>(a, _). now - a \<le> ms) xs \<noteq> []" by (metis list.set(1) empty_iff)
  then show ?thesis using assms(2) unfolding cpu_mean_def xs by (simp add: Let_def)
qed

text \<open>
  The gate can always reopen: with looks at most half a minute apart, the samples it keeps reach back as far as both its
  windows need, so once they have done so it has a mean to judge by at every look.
\<close>

theorem gate_can_reopen:
  assumes "steady_samples xs" and "xs \<noteq> []" and "fst (last xs) = now"
    and "max (lg_pauseOverMs g) (lg_resumeOverMs g) \<le> now - fst (hd xs)" and "0 < lg_pauseOverMs g" and "0 < lg_resumeOverMs g"
  shows "cpu_mean (keep_samples g now xs) now (lg_pauseOverMs g) \<noteq> None
    \<and> cpu_mean (keep_samples g now xs) now (lg_resumeOverMs g) \<noteq> None"
proof -
  have k: "keep_samples g now xs \<noteq> []" "max (lg_pauseOverMs g) (lg_resumeOverMs g) \<le> now - fst (hd (keep_samples g now xs))"
    "fst (last (keep_samples g now xs)) = now"
    using keep_reaches [OF assms(1-4) _ refl] assms(5) by auto
  then show ?thesis using assms(5,6) by (intro conjI mean_there) auto
qed

lemma gate_can_reopen_witness:
  "cpu_mean (keep_samples LOTHDESKTOP_GATE 160000 [(0, 80), (25000, 60), (50000, 70), (79000, 20), (105000, 30), (130000, 10), (160000, 5)])
     160000 120000 \<noteq> None"
proof -
  let ?xs = "[(0, 80), (25000, 60), (50000, 70), (79000, 20), (105000, 30), (130000, 10), (160000, 5)] :: (int \<times> num') list"
  have "steady_samples ?xs" by (simp add: steady_samples_def sample_slack_def)
  then show ?thesis using gate_can_reopen [of ?xs 160000 LOTHDESKTOP_GATE] by (simp add: LOTHDESKTOP_GATE_def)
qed

text \<open>
  The gate is marked open before its listeners are resumed: when the listing for that throws (as on Windows), they stay
  suspended, and an open gate resumes none, however long the load stays low.
\<close>

lemma open_gate_never_resumes:
  assumes "\<not> gf_closed (ls_gate s)"
    and "case cpu_mean (keep_samples g (gr_now r) (ls_samples s @ [(gr_now r, gr_cpu r)])) (gr_now r) (lg_pauseOverMs g) of
           Some x \<Rightarrow> x < lg_pauseAtPct g | None \<Rightarrow> True"
  shows "snd (gate_look (Some g) r s) = [] \<and> ls_gate (fst (gate_look (Some g) r s)) = ls_gate s"
proof -
  have "\<not> (case cpu_mean (keep_samples g (gr_now r) (ls_samples s @ [(gr_now r, gr_cpu r)])) (gr_now r) (lg_pauseOverMs g) of
           Some x \<Rightarrow> lg_pauseAtPct g \<le> x | None \<Rightarrow> False)"
    using assms(2) by (auto split: option.splits)
  then show ?thesis using assms(1) by (simp add: gate_look_def Let_def)
qed

definition ex_closed :: load_state where
  "ex_closed =
     \<lparr>ls_gate = \<lparr>gf_closed = True, gf_since = Some 0, gf_suspended = [\<lparr>pr_pid = 7, pr_root = ''V:/ffw/ffu-1'', pr_at = 0\<rparr>]\<rparr>,
      ls_samples = [(0, 10)]\<rparr>"

lemma failed_listing_leaves_suspended:
  "ls_gate (fst (gate_look (Some LOTHDESKTOP_GATE) (ex_gate_reading 120000 10 None) ex_closed)) =
     \<lparr>gf_closed = False, gf_since = Some 120000, gf_suspended = [\<lparr>pr_pid = 7, pr_root = ''V:/ffw/ffu-1'', pr_at = 0\<rparr>]\<rparr>
   \<and> snd (gate_look (Some LOTHDESKTOP_GATE) (ex_gate_reading 125000 10 (Some [ffu_listener]))
            (fst (gate_look (Some LOTHDESKTOP_GATE) (ex_gate_reading 120000 10 None) ex_closed))) = []"
  by (simp add: gate_look_def ex_closed_def ex_gate_reading_def LOTHDESKTOP_GATE_def keep_samples_def sample_slack_def
      cpu_mean_def gate_resume_def Let_def)

end
