(* ===== verification/BenchQueue.thy ===== *)
theory BenchQueue
  imports WorkRules UnityProcs
begin

text \<open>
  The machine's bench queue as the daemon reads it (machine/benchQueue.ts, machine/benchLock.ts) and the priorities it
  writes for it (machine/benchRaise.ts): the tickets whose helper lives, who holds the lock and until when, whether
  another's timed run refuses a launch, and which sessions are raised while their shared ticket waits. The queue itself is
  the game repository's script: its files are read here as it writes them, a field of another type being absent, and a file
  that cannot be read too. Times in them are seconds. Log lines and the words of a refusal are not modelled.
\<close>

section \<open>Tickets\<close>

datatype bench_mode = Shared | Exclusive

text \<open>What the files of a ticket's folder say.\<close>

record ticket_info =
  ti_mode :: "string option"
  ti_what :: string
  ti_pid :: "int option"
  ti_sandbox :: "string option"
  ti_cwd :: "string option"
  ti_session :: "string option"
  ti_requests :: "string list option"
  ti_maxMin :: "num' option"
  ti_turnMin :: "num' option"
  ti_ownerCheckPid :: "int option"
  ti_ownerPid :: "int option"
  ti_approved :: bool

record ticket_files =
  tf_name :: string
  tf_info :: "ticket_info option"
  tf_granted :: "num' option"
  tf_revoked :: bool
  tf_limit :: "(num' option) option"
  tf_keep :: bool
  tf_parked :: bool
  tf_turn :: "(num' option) option"

record queue_ticket =
  qt_ticket :: string
  qt_mode :: bench_mode
  qt_what :: string
  qt_pid :: int
  qt_sandbox :: "string option"
  qt_cwd :: "string option"
  qt_granted :: "num' option"
  qt_revoked :: bool
  qt_session :: "string option"
  qt_requests :: "string list option"
  qt_maxMin :: "num' option"
  qt_turnMin :: "num' option"
  qt_limit :: "(num' option) option"
  qt_keep :: bool
  qt_parked :: bool
  qt_approved :: bool
  qt_turnStart :: "num' option"
  qt_ownerPid :: "int option"

text \<open>\<open>/^t\d{8}$/\<close>.\<close>

definition ticket_name :: "string \<Rightarrow> bool" where
  "ticket_name s \<longleftrightarrow> (case s of c # cs \<Rightarrow> c = CHR ''t'' \<and> length cs = 8 \<and> list_all is_digit cs | [] \<Rightarrow> False)"

definition truthy :: "string option \<Rightarrow> string option" where
  "truthy s = (if s = Some [] then None else s)"

definition turnOf :: "ticket_info \<Rightarrow> (num' option) option \<Rightarrow> bool \<times> num' option" where
  "turnOf i turn = (if ti_approved i then (True, case turn of Some s \<Rightarrow> s | None \<Rightarrow> None) else (False, None))"

definition read_ticket :: "(int \<Rightarrow> bool) \<Rightarrow> ticket_files \<Rightarrow> queue_ticket option" where
  "read_ticket alive f =
     (case tf_info f of
        None \<Rightarrow> None
      | Some i \<Rightarrow>
          (case ti_pid i of
             None \<Rightarrow> None
           | Some p \<Rightarrow>
               if \<not> alive p then None
               else Some
                 \<lparr>qt_ticket = tf_name f, qt_mode = (if ti_mode i = Some ''shared'' then Shared else Exclusive), qt_what = ti_what i,
                  qt_pid = p, qt_sandbox = truthy (ti_sandbox i), qt_cwd = truthy (ti_cwd i), qt_granted = tf_granted f,
                  qt_revoked = tf_revoked f, qt_session = truthy (ti_session i), qt_requests = ti_requests i,
                  qt_maxMin = ti_maxMin i, qt_turnMin = ti_turnMin i, qt_limit = tf_limit f, qt_keep = tf_keep f,
                  qt_parked = tf_parked f, qt_approved = fst (turnOf i (tf_turn f)), qt_turnStart = snd (turnOf i (tf_turn f)),
                  qt_ownerPid = (case ti_ownerCheckPid i of Some q \<Rightarrow> Some q | None \<Rightarrow> ti_ownerPid i)\<rparr>))"

definition queueTickets :: "(int \<Rightarrow> bool) \<Rightarrow> ticket_files list \<Rightarrow> queue_ticket list" where
  "queueTickets alive folder =
     List.map_filter (read_ticket alive)
       (js_sort (\<lambda>a b. cmp_list (map code (tf_name a)) (map code (tf_name b))) (filter (\<lambda>f. ticket_name (tf_name f)) folder))"

definition heldTicket :: "string option \<Rightarrow> queue_ticket list \<Rightarrow> queue_ticket option" where
  "heldTicket nm ts =
     (case nm of
        Some n \<Rightarrow> if ticket_name n then find (\<lambda>t. qt_ticket t = n \<and> qt_granted t \<noteq> None \<and> \<not> qt_revoked t) ts else None
      | None \<Rightarrow> None)"

section \<open>The helper of a ticket\<close>

datatype ticket_state = Waiting string | Granted string string | Failed string

definition first_line :: "string \<Rightarrow> string" where
  "first_line s = (let l = hd (split_on (char_of (10 :: nat)) s) in if has_suffix [char_of (13 :: nat)] l then butlast l else l)"

definition ticketState :: "string option \<Rightarrow> string option \<Rightarrow> ticket_state" where
  "ticketState status exited =
     (let line = (case status of Some s \<Rightarrow> first_line (trim s) | None \<Rightarrow> []) in
      if has_prefix ''granted '' line \<and> ticket_name (take 9 (drop 8 line)) then Granted (take 9 (drop 8 line)) line
      else if has_prefix ''gave up'' line \<or> has_prefix ''revoked'' line \<or> has_prefix ''released'' line then Failed line
      else (case exited of
              Some e \<Rightarrow> Failed (''the bench queue helper '' @ e)
            | None \<Rightarrow>
                (let l = (if has_prefix ''waiting '' line then drop 8 line else line)
                 in Waiting (if l = [] then ''taking a ticket'' else l))))"

text \<open>The copy of the queue's script with the newest rules, the checkout's own on a tie; the copies in their folders' order.\<close>

fun newer_copy :: "(string \<times> nat) option \<Rightarrow> string \<times> nat \<Rightarrow> (string \<times> nat) option" where
  "newer_copy None c = Some c"
| "newer_copy (Some b) c = (if snd b < snd c then Some c else Some b)"

definition newestScript :: "(string \<times> nat) option \<Rightarrow> (string \<times> nat) list \<Rightarrow> (string \<times> nat) option" where
  "newestScript own copies = foldl newer_copy own copies"

section \<open>The lock\<close>

definition BENCH_LOCK_STALE_MS :: int where "BENCH_LOCK_STALE_MS = 40 * 60000"
definition BENCH_WARN_LEAD_MIN :: num' where "BENCH_WARN_LEAD_MIN = 5"
definition APPROVED_MAX_MIN :: num' where "APPROVED_MAX_MIN = 240"

record bench_lock =
  bl_owner :: string
  bl_since :: num'

text \<open>The lock's folder: when it was last changed, and the text of its owner file.\<close>

record lock_folder =
  lf_mtime :: int
  lf_owner :: "string option"

text \<open>\<open>/\[(t\d{8})\]/\<close>: the ticket an owner line names.\<close>

fun ticket_in :: "string \<Rightarrow> string option" where
  "ticket_in [] = None"
| "ticket_in (c # cs) =
     (if c = CHR ''['' \<and> ticket_name (take 9 cs) \<and> take 1 (drop 9 cs) = '']'' then Some (take 9 cs) else ticket_in cs)"

definition readBenchLock :: "lock_folder option \<Rightarrow> int \<Rightarrow> queue_ticket list \<Rightarrow> bench_lock option" where
  "readBenchLock folder now ts =
     (case folder of
        None \<Rightarrow> None
      | Some f \<Rightarrow>
          (let owner = (case lf_owner f of Some s \<Rightarrow> take 200 (first_line (trim s)) | None \<Rightarrow> []) in
           case ticket_in owner of
             Some k \<Rightarrow>
               (case find (\<lambda>t. qt_ticket t = k) ts of
                  Some t \<Rightarrow>
                    (case qt_granted t of
                       Some g \<Rightarrow> if qt_revoked t then None else Some \<lparr>bl_owner = owner, bl_since = g * 1000\<rparr>
                     | None \<Rightarrow> None)
                | None \<Rightarrow> None)
           | None \<Rightarrow>
               if BENCH_LOCK_STALE_MS < now - lf_mtime f then None
               else Some \<lparr>bl_owner = (if owner = [] then ''its owner line is not written yet'' else owner), bl_since = of_int (lf_mtime f)\<rparr>))"

definition readBenchQueue :: "queue_ticket list \<Rightarrow> (nat \<times> string option) option" where
  "readBenchQueue ts =
     (let timed = filter (\<lambda>t. qt_mode t = Exclusive \<and> \<not> qt_revoked t) ts in
      case timed of
        [] \<Rightarrow> None
      | t # _ \<Rightarrow> Some (length timed, if qt_what t = [] then None else Some (take 120 (qt_what t))))"

definition turnMinOf :: "queue_ticket \<Rightarrow> num'" where
  "turnMinOf t =
     (case qt_turnMin t of
        Some m \<Rightarrow> if m \<noteq> 0 then min m (if qt_approved t then APPROVED_MAX_MIN else 30)
                  else (case qt_maxMin t of Some x \<Rightarrow> x | None \<Rightarrow> 60)
      | None \<Rightarrow> (case qt_maxMin t of Some x \<Rightarrow> x | None \<Rightarrow> 60))"

definition holds_lock :: "queue_ticket \<Rightarrow> bool" where
  "holds_lock t \<longleftrightarrow> qt_mode t = Exclusive \<and> qt_granted t \<noteq> None \<and> \<not> qt_revoked t"

definition turn_end :: "queue_ticket \<Rightarrow> int \<Rightarrow> num'" where
  "turn_end t now =
     (if qt_approved t
      then (case qt_turnStart t of Some s \<Rightarrow> if s \<noteq> 0 then s * 1000 else of_int now | None \<Rightarrow> of_int now)
      else (case qt_granted t of Some g \<Rightarrow> g * 1000 | None \<Rightarrow> 0)) + turnMinOf t * 60000"

record timed_hold =
  th_ticket :: queue_ticket
  th_until :: num'
  th_kept :: bool

definition timedHolder :: "queue_ticket list \<Rightarrow> int \<Rightarrow> timed_hold option" where
  "timedHolder ts now =
     map_option
       (\<lambda>t. let deadline = (case qt_limit t of Some (Some d) \<Rightarrow> Some (d * 1000) | _ \<Rightarrow> None) in
         \<lparr>th_ticket = t,
          th_until = (case deadline of Some d \<Rightarrow> d | None \<Rightarrow> max (turn_end t now) (of_int now + BENCH_WARN_LEAD_MIN * 60000)),
          th_kept = (deadline = None \<and> qt_keep t)\<rparr>)
       (find holds_lock ts)"

datatype foreign_hold = HeldBy timed_hold | OldStyle bench_lock

definition foreignTimedHold :: "string option \<Rightarrow> int \<Rightarrow> queue_ticket list \<Rightarrow> lock_folder option \<Rightarrow> foreign_hold option" where
  "foreignTimedHold sess now ts folder =
     (case timedHolder ts now of
        Some h \<Rightarrow> if truthy sess \<noteq> None \<and> qt_session (th_ticket h) = sess then None else Some (HeldBy h)
      | None \<Rightarrow>
          (case readBenchLock folder now ts of
             Some l \<Rightarrow> if ticket_in (bl_owner l) = None then Some (OldStyle l) else None
           | None \<Rightarrow> None))"

definition ownTimedHold :: "string option \<Rightarrow> int \<Rightarrow> queue_ticket list \<Rightarrow> string option" where
  "ownTimedHold sess now ts =
     (if truthy sess = None then None
      else (case timedHolder ts now of
              Some h \<Rightarrow> if qt_session (th_ticket h) = sess then Some (qt_ticket (th_ticket h)) else None
            | None \<Rightarrow> None))"

section \<open>Raising what waits\<close>

record bench_mark =
  bm_priority :: work_priority
  bm_requests :: "string list"
  bm_raisedFrom :: "work_priority option"
  bm_raisedFor :: "string option"

record passed_mark =
  pk_by :: string
  pk_since :: int

fun bench_rank :: "work_priority \<Rightarrow> nat" where
  "bench_rank Urgent = 0"
| "bench_rank High = 1"
| "bench_rank Normal = 2"
| "bench_rank Low = 3"

text \<open>The name after the last folder \<open>sandboxes\<close>; a drive's path in any case.\<close>

fun after_sandboxes :: "string list \<Rightarrow> string" where
  "after_sandboxes (a # b # ps) =
     (let r = after_sandboxes (b # ps) in if r \<noteq> [] then r else if a = ''sandboxes'' then b else [])"
| "after_sandboxes _ = []"

definition sandboxOfPath :: "string option \<Rightarrow> string" where
  "sandboxOfPath p =
     (let parts = filter (\<lambda>x. x \<noteq> []) (split_on slash (map (\<lambda>c. if c = bslash then slash else c) (case p of Some s \<Rightarrow> s | None \<Rightarrow> [])));
          drive = (case parts of d # _ \<Rightarrow> length d = 2 \<and> is_lower (lower_char (hd d)) \<and> d ! 1 = CHR '':'' | [] \<Rightarrow> False)
      in after_sandboxes (if drive then map lower parts else parts))"

definition ridesAlong :: "(string \<Rightarrow> string option) \<Rightarrow> queue_ticket \<Rightarrow> queue_ticket \<Rightarrow> bool" where
  "ridesAlong placed t ex =
     (if qt_mode t \<noteq> Shared \<or> qt_mode ex \<noteq> Exclusive
         \<or> \<not> (has_prefix ''running editor '' (qt_what t) \<or> has_prefix ''running player '' (qt_what t)) then False
      else if qt_session ex \<noteq> None \<and> qt_session t = qt_session ex then True
      else
        (let theirs = lower (case qt_sandbox t of Some s \<Rightarrow> s | None \<Rightarrow> sandboxOfPath (qt_cwd t));
             own = [qt_sandbox ex, Some (sandboxOfPath (qt_cwd ex)), (case qt_session ex of Some s \<Rightarrow> placed s | None \<Rightarrow> None)]
         in theirs \<noteq> [] \<and> theirs \<in> set (map lower (List.map_filter truthy own))))"

definition rank_of :: "(string \<Rightarrow> bench_mark option) \<Rightarrow> queue_ticket \<Rightarrow> nat" where
  "rank_of sessions t =
     (case qt_session t of
        Some s \<Rightarrow> (case sessions s of Some m \<Rightarrow> bench_rank (bm_priority m) | None \<Rightarrow> bench_rank Normal)
      | None \<Rightarrow> bench_rank Normal)"

definition ticket_no :: "queue_ticket \<Rightarrow> nat" where
  "ticket_no t = nat_of_digits (filter is_digit (qt_ticket t))"

definition waits_shared :: "queue_ticket \<Rightarrow> bool" where
  "waits_shared t \<longleftrightarrow> qt_mode t = Shared \<and> qt_granted t = None \<and> \<not> qt_revoked t"

text \<open>The exclusive ticket that passes it: one that holds the lock, else one taken later that outranks it.\<close>

definition passed_by :: "queue_ticket list \<Rightarrow> (string \<Rightarrow> bench_mark option) \<Rightarrow> (string \<Rightarrow> string option) \<Rightarrow> queue_ticket \<Rightarrow> queue_ticket option" where
  "passed_by ts sessions placed t =
     (case find (\<lambda>x. \<not> ridesAlong placed t x) (filter holds_lock ts) of
        Some h \<Rightarrow> Some h
      | None \<Rightarrow>
          find (\<lambda>x. ticket_no t < ticket_no x \<and> rank_of sessions x < rank_of sessions t \<and> \<not> ridesAlong placed t x)
            (filter (\<lambda>x. qt_mode x = Exclusive \<and> qt_granted x = None \<and> \<not> qt_revoked x) ts))"

definition passedShared :: "queue_ticket list \<Rightarrow> (string \<Rightarrow> passed_mark option) \<Rightarrow> int \<Rightarrow> (string \<Rightarrow> bench_mark option)
    \<Rightarrow> (string \<Rightarrow> string option) \<Rightarrow> (string \<times> passed_mark) list" where
  "passedShared ts prev now sessions placed =
     List.map_filter
       (\<lambda>t. if \<not> waits_shared t then None
            else (case prev (qt_ticket t) of
                    Some m \<Rightarrow> Some (qt_ticket t, m)
                  | None \<Rightarrow> map_option (\<lambda>h. (qt_ticket t, \<lparr>pk_by = qt_ticket h, pk_since = now\<rparr>)) (passed_by ts sessions placed t))) ts"

definition timed_sessions :: "queue_ticket list \<Rightarrow> string list" where
  "timed_sessions ts = List.map_filter qt_session (filter (\<lambda>t. qt_mode t = Exclusive \<and> \<not> qt_revoked t) ts)"

definition raise_one :: "string list \<Rightarrow> (string \<times> passed_mark) list \<Rightarrow> queue_ticket
    \<Rightarrow> (string \<Rightarrow> bench_mark option) \<times> string list \<Rightarrow> (string \<Rightarrow> bench_mark option) \<times> string list" where
  "raise_one timed passed t x =
     (case qt_session t of
        None \<Rightarrow> x
      | Some s \<Rightarrow>
          if map_of passed (qt_ticket t) = None \<or> s \<in> set timed
             \<or> (case fst x s of Some m \<Rightarrow> truthy (bm_raisedFor m) \<noteq> None | None \<Rightarrow> False) then x
          else
            (let base = (case fst x s of
                           Some m \<Rightarrow> m
                         | None \<Rightarrow> \<lparr>bm_priority = Normal, bm_requests = (case qt_requests t of Some rs \<Rightarrow> rs | None \<Rightarrow> []),
                                    bm_raisedFrom = None, bm_raisedFor = None\<rparr>)
             in if bm_priority base = Urgent then x
                else ((fst x)(s \<mapsto> base\<lparr>bm_priority := Urgent, bm_raisedFrom := Some (bm_priority base), bm_raisedFor := Some (qt_ticket t)\<rparr>),
                      snd x @ [qt_ticket t])))"

definition raisedSessions :: "(string \<Rightarrow> bench_mark option) \<Rightarrow> queue_ticket list \<Rightarrow> (string \<times> passed_mark) list
    \<Rightarrow> (string \<Rightarrow> bench_mark option) \<times> string list" where
  "raisedSessions sessions ts passed = fold (raise_one (timed_sessions ts) passed) ts (sessions, [])"

definition editorBenchSession :: "string \<Rightarrow> string" where
  "editorBenchSession i = ''editor:'' @ i"

definition editor_one :: "(string \<Rightarrow> bench_mark option) \<Rightarrow> string \<times> string option \<Rightarrow> (string \<Rightarrow> bench_mark option) \<Rightarrow> (string \<Rightarrow> bench_mark option)" where
  "editor_one sessions x out =
     (case (truthy (snd x), sessions (fst x)) of
        (Some sb, Some p) \<Rightarrow>
          (let key = editorBenchSession sb in
           case out key of
             Some cur \<Rightarrow>
               if bench_rank (bm_priority p) < bench_rank (bm_priority cur)
               then out(key \<mapsto> \<lparr>bm_priority = bm_priority p, bm_requests = take 6 (js_unique (bm_requests p @ bm_requests cur)),
                              bm_raisedFrom = None, bm_raisedFor = None\<rparr>)
               else out(key \<mapsto> cur\<lparr>bm_requests := take 6 (js_unique (bm_requests cur @ bm_requests p))\<rparr>)
           | None \<Rightarrow> out(key \<mapsto> \<lparr>bm_priority = bm_priority p, bm_requests = take 6 (js_unique (bm_requests p)),
                                 bm_raisedFrom = None, bm_raisedFor = None\<rparr>))
      | _ \<Rightarrow> out)"

definition editorSessions :: "(string \<times> string option) list \<Rightarrow> (string \<Rightarrow> bench_mark option) \<Rightarrow> (string \<Rightarrow> bench_mark option)" where
  "editorSessions placed sessions = fold (editor_one sessions) placed Map.empty"

text \<open>What the daemon writes at a look: the marks of passed tickets and the sessions with their priorities.\<close>

definition bench_marks :: "queue_ticket list \<Rightarrow> (string \<times> string option) list \<Rightarrow> (string \<Rightarrow> bench_mark option)
    \<Rightarrow> (string \<Rightarrow> passed_mark option) \<Rightarrow> int \<Rightarrow> (string \<times> passed_mark) list \<times> (string \<Rightarrow> bench_mark option)" where
  "bench_marks ts placed marks prev now =
     (let base = editorSessions placed marks ++ marks;
          at' = map_of (rev (List.map_filter (\<lambda>(s, sb). map_option (\<lambda>b. (s, b)) (truthy sb)) placed));
          passed = passedShared ts prev now base at'
      in (passed, fst (raisedSessions base ts passed)))"

end
