(* ===== verification/BenchQueueProps.thy ===== *)
theory BenchQueueProps
  imports BenchQueue
begin

text \<open>
  What the daemon's part in the bench queue promises: a shared ticket an exclusive turn has passed is raised to the top while
  it waits, nothing else is, its mark lasts as long as its wait, and the queue's newest rules are used.
\<close>

section \<open>The passed tickets\<close>

lemma passed_in: "(k, m) \<in> set (passedShared ts prev now ss pl) \<Longrightarrow> \<exists>t \<in> set ts. qt_ticket t = k \<and> waits_shared t"
  by (auto simp: passedShared_def List.map_filter_def split: if_splits option.splits)

lemma in_map_filter: "x \<in> set xs \<Longrightarrow> f x = Some y \<Longrightarrow> y \<in> set (List.map_filter f xs)"
  by (force simp: List.map_filter_def)

lemma passed_marked:
  assumes "t \<in> set ts" "waits_shared t" "prev (qt_ticket t) \<noteq> None \<or> passed_by ts ss pl t \<noteq> None"
  shows "map_of (passedShared ts prev now ss pl) (qt_ticket t) \<noteq> None"
proof -
  have "\<exists>m. (case prev (qt_ticket t) of Some m \<Rightarrow> Some (qt_ticket t, m)
      | None \<Rightarrow> map_option (\<lambda>h. (qt_ticket t, \<lparr>pk_by = qt_ticket h, pk_since = now\<rparr>)) (passed_by ts ss pl t)) = Some (qt_ticket t, m)"
    using assms(3) by (auto split: option.splits)
  then have "\<exists>m. (qt_ticket t, m) \<in> set (passedShared ts prev now ss pl)"
    unfolding passedShared_def using assms(2) by (elim exE, intro exI in_map_filter [OF assms(1)]) simp
  then show ?thesis using weak_map_of_SomeI by fastforce
qed

lemma passed_by_holder:
  assumes "h \<in> set ts" "holds_lock h" "\<not> ridesAlong pl t h"
  shows "passed_by ts ss pl t \<noteq> None"
  using assms by (auto simp: passed_by_def find_None_iff split: option.splits)

section \<open>Raising\<close>

definition not_raised :: "(string \<Rightarrow> bench_mark option) \<Rightarrow> string \<Rightarrow> bool" where
  "not_raised m s \<longleftrightarrow> (case m s of Some x \<Rightarrow> truthy (bm_raisedFor x) = None | None \<Rightarrow> True)"

definition is_urgent :: "(string \<Rightarrow> bench_mark option) \<Rightarrow> string \<Rightarrow> bool" where
  "is_urgent m s \<longleftrightarrow> (case m s of Some x \<Rightarrow> bm_priority x = Urgent | None \<Rightarrow> False)"

lemma raise_one_other: "qt_session t \<noteq> Some s \<Longrightarrow> fst (raise_one timed passed t x) s = fst x s"
  by (auto simp: raise_one_def Let_def split: option.splits)

lemma raise_one_same: "fst (raise_one timed passed t x) s = fst x s \<or> is_urgent (fst (raise_one timed passed t x)) s"
  by (auto simp: raise_one_def Let_def is_urgent_def split: option.splits)

lemma raise_one_urgent: "is_urgent (fst x) s \<Longrightarrow> is_urgent (fst (raise_one timed passed t x)) s"
  using raise_one_same [of timed passed t x s] by (auto simp: is_urgent_def)

lemma raise_urgent: "is_urgent (fst x) s \<Longrightarrow> is_urgent (fst (fold (raise_one timed passed) ts x)) s"
  by (induction ts arbitrary: x) (auto simp: raise_one_urgent)

lemma raise_one_hits:
  assumes "qt_session t = Some s" "s \<notin> set timed" "map_of passed (qt_ticket t) \<noteq> None" "not_raised (fst x) s"
  shows "is_urgent (fst (raise_one timed passed t x)) s"
  using assms by (auto simp: raise_one_def Let_def is_urgent_def not_raised_def split: option.splits)

lemma raise_hits:
  assumes "t \<in> set ts" "qt_session t = Some s" "s \<notin> set timed" "map_of passed (qt_ticket t) \<noteq> None" "not_raised (fst x) s"
  shows "is_urgent (fst (fold (raise_one timed passed) ts x)) s"
  using assms
proof (induction ts arbitrary: x)
  case (Cons u ts)
  show ?case
  proof (cases "t = u")
    case True
    then show ?thesis using raise_urgent raise_one_hits Cons.prems by simp
  next
    case False
    then have "t \<in> set ts" using Cons.prems by simp
    then show ?thesis
      using Cons.IH [of "raise_one timed passed u x"] Cons.prems raise_one_same [of timed passed u x s]
        raise_urgent [of "raise_one timed passed u x" s]
      by (auto simp: not_raised_def)
  qed
qed simp

lemma editor_one_raised: "(\<And>s x. out s = Some x \<Longrightarrow> bm_raisedFor x = None) \<Longrightarrow> editor_one m p out s = Some x \<Longrightarrow> bm_raisedFor x = None"
  by (auto simp: editor_one_def Let_def split: option.splits if_splits)

lemma editors_raised: "(\<And>s x. out s = Some x \<Longrightarrow> bm_raisedFor x = None) \<Longrightarrow> fold (editor_one m) ps out s = Some x \<Longrightarrow> bm_raisedFor x = None"
proof (induction ps arbitrary: out)
  case (Cons p ps)
  then show ?case using editor_one_raised [of out m p] by (metis fold_simps(2))
qed simp


definition ex_ticket :: "string \<Rightarrow> bench_mode \<Rightarrow> string \<Rightarrow> num' option \<Rightarrow> queue_ticket" where
  "ex_ticket k mode sess g =
     \<lparr>qt_ticket = k, qt_mode = mode, qt_what = ''a build'', qt_pid = 1, qt_sandbox = None, qt_cwd = None, qt_granted = g,
      qt_revoked = False, qt_session = Some sess, qt_requests = None, qt_maxMin = None, qt_turnMin = None, qt_limit = None,
      qt_keep = False, qt_parked = False, qt_approved = False, qt_turnStart = None, qt_ownerPid = None\<rparr>"


text \<open>Nothing else changes: a session that reads otherwise than before is that of a passed ticket and has no timed run.\<close>

lemma only_passed_raised:
  assumes "fst (fold (raise_one timed passed) ts x) s \<noteq> fst x s"
  shows "\<exists>t \<in> set ts. qt_session t = Some s \<and> map_of passed (qt_ticket t) \<noteq> None \<and> s \<notin> set timed"
  using assms
proof (induction ts arbitrary: x)
  case (Cons t ts)
  show ?case
  proof (cases "fst (raise_one timed passed t x) s = fst x s")
    case True
    then show ?thesis using Cons.IH [of "raise_one timed passed t x"] Cons.prems by auto
  next
    case False
    then have "qt_session t = Some s \<and> map_of passed (qt_ticket t) \<noteq> None \<and> s \<notin> set timed"
      by (auto simp: raise_one_def Let_def split: option.splits if_splits)
    then show ?thesis by auto
  qed
qed simp

lemma marks_distinct:
  "distinct (map qt_ticket ts) \<Longrightarrow> fst ` set (List.map_filter (\<lambda>t. map_option (Pair (qt_ticket t)) (f t)) ts) \<subseteq> qt_ticket ` set ts
    \<and> distinct (map fst (List.map_filter (\<lambda>t. map_option (Pair (qt_ticket t)) (f t)) ts))"
  by (induction ts) (auto simp: List.map_filter_simps split: option.splits)

lemma passed_by_name:
  "passedShared ts prev now ss pl =
     List.map_filter (\<lambda>t. map_option (Pair (qt_ticket t))
       (if \<not> waits_shared t then None
        else (case prev (qt_ticket t) of
                Some m \<Rightarrow> Some m
              | None \<Rightarrow> map_option (\<lambda>h. \<lparr>pk_by = qt_ticket h, pk_since = now\<rparr>) (passed_by ts ss pl t)))) ts"
  unfolding passedShared_def
  by (rule arg_cong2 [where f = List.map_filter], rule ext) (auto simp: option.map_comp comp_def split: option.splits)

text \<open>A mark stays as it was while its ticket waits.\<close>

lemma mark_lasts:
  assumes "distinct (map qt_ticket ts)" "t \<in> set ts" "waits_shared t" "prev (qt_ticket t) = Some m"
  shows "map_of (passedShared ts prev now ss pl) (qt_ticket t) = Some m"
proof -
  have "(qt_ticket t, m) \<in> set (passedShared ts prev now ss pl)"
    unfolding passedShared_def by (rule in_map_filter [OF assms(2)]) (simp add: assms)
  moreover have "distinct (map fst (passedShared ts prev now ss pl))"
    unfolding passed_by_name by (rule marks_distinct [OF assms(1), THEN conjunct2])
  ultimately show ?thesis by simp
qed

section \<open>The newest rules\<close>

lemma newest_Some: "\<exists>b. foldl newer_copy (Some a) cs = Some b"
  by (induction cs arbitrary: a) auto

lemma newest_None:
  assumes "foldl newer_copy own cs = None"
  shows "own = None \<and> cs = []"
proof (cases own)
  case None
  then show ?thesis
  proof (cases cs)
    case (Cons c ds)
    then show ?thesis using newest_Some [of c ds] assms None by simp
  qed simp
next
  case (Some a)
  then show ?thesis using newest_Some [of a cs] assms by simp
qed

lemma newest_script:
  assumes "newestScript own copies = Some b"
  shows "(own = Some b \<or> b \<in> set copies) \<and> (\<forall>c \<in> set copies. snd c \<le> snd b) \<and> (case own of Some a \<Rightarrow> snd a \<le> snd b \<and> (snd a = snd b \<longrightarrow> a = b) | None \<Rightarrow> True)"
  using assms unfolding newestScript_def
proof (induction copies arbitrary: own b rule: rev_induct)
  case (snoc c cs)
  show ?case
  proof (cases "foldl newer_copy own cs")
    case None
    then show ?thesis using snoc.prems newest_None [OF None] by simp
  next
    case (Some a)
    then show ?thesis using snoc.IH [OF Some] snoc.prems by (force split: if_splits option.splits)
  qed
qed (auto split: option.splits)

section \<open>Another's timed run\<close>

lemma own_run_never_refuses: "ownTimedHold sess now ts = Some k \<Longrightarrow> foreignTimedHold sess now ts folder = None"
  by (auto simp: ownTimedHold_def foreignTimedHold_def split: option.splits if_splits)

lemma foreign_run_refuses:
  assumes "t \<in> set ts" "holds_lock t" "\<And>t. t \<in> set ts \<Longrightarrow> holds_lock t \<Longrightarrow> qt_session t \<noteq> sess \<or> truthy sess = None"
  shows "\<exists>h. foreignTimedHold sess now ts folder = Some (HeldBy h)"
proof -
  obtain u where u: "find holds_lock ts = Some u" "u \<in> set ts" "holds_lock u"
    using assms(1,2) by (metis find_None_iff find_in option.exhaust)
  then show ?thesis using assms(3) [OF u(2,3)] by (auto simp: foreignTimedHold_def timedHolder_def Let_def)
qed

end
